(* ===== verification/Prelude.thy ===== *)
theory Prelude
  imports Main "HOL-Library.Word" "HOL-Library.List_Lexorder" "HOL-Library.Char_ord"
begin

section \<open>Shared vocabulary of the development\<close>

text \<open>
  What every component uses: results (\<open>Inl\<close> is Rust's \<open>Err\<close>, \<open>Inr\<close> its \<open>Ok\<close>), the list
  functions of the Rust standard library that HOL has under another name or not at all
  (\<open>rposition\<close>, duplicate removal that keeps the first copy), splitting and joining of
  strings, and decimal numbers as text. Strings are lists of \<open>char\<close>: a \<open>char\<close> is read as the
  code point with its number, so the texts of the model are those over U+0000 to U+00FF.
  The collection \<open>res_simps\<close> holds the rules that decompose a pipeline of results.
\<close>

unbundle bit_operations_syntax

named_theorems res_simps "rules that take a pipeline of results apart"

type_synonym ('e, 'a) res = "'e + 'a"

subsection \<open>Results\<close>

definition and_then :: "('e, 'a) res \<Rightarrow> ('a \<Rightarrow> ('e, 'b) res) \<Rightarrow> ('e, 'b) res" where
  "and_then r f = (case r of Inl e \<Rightarrow> Inl e | Inr a \<Rightarrow> f a)"

lemma and_then_Inl [simp]: "and_then (Inl e) f = Inl e"
  by (simp add: and_then_def)

lemma and_then_Inr [simp]: "and_then (Inr a) f = f a"
  by (simp add: and_then_def)

lemma and_then_eq_Inr [res_simps]:
  "and_then r f = Inr b \<longleftrightarrow> (\<exists>a. r = Inr a \<and> f a = Inr b)"
  by (cases r) simp_all

lemma and_then_eq_Inl [res_simps]:
  "and_then r f = Inl e \<longleftrightarrow> r = Inl e \<or> (\<exists>a. r = Inr a \<and> f a = Inl e)"
  by (cases r) simp_all

text \<open>\<open>Iterator::collect\<close> into a \<open>Result\<close> of a list: the first error, or every value.\<close>

fun collect_res :: "('e, 'a) res list \<Rightarrow> ('e, 'a list) res" where
  "collect_res [] = Inr []"
| "collect_res (r # rs) = and_then r (\<lambda>a. and_then (collect_res rs) (\<lambda>as. Inr (a # as)))"

lemma collect_res_map_Inr [simp]: "collect_res (map (\<lambda>x. Inr (f x)) xs) = Inr (map f xs)"
  by (induction xs) simp_all

lemma collect_res_eq_Inr [res_simps]: "collect_res rs = Inr as \<longleftrightarrow> rs = map Inr as"
proof (induction rs arbitrary: as)
  case Nil
  then show ?case by auto
next
  case (Cons r rs)
  then show ?case
    by (cases as) (auto simp: res_simps)
qed

text \<open>A guard: \<open>if bad { return Err(e) }\<close>.\<close>

definition ensure :: "bool \<Rightarrow> 'e \<Rightarrow> ('e, unit) res" where
  "ensure ok e = (if ok then Inr () else Inl e)"

lemma ensure_eq_Inr [res_simps]: "ensure ok e = Inr u \<longleftrightarrow> ok"
  by (simp add: ensure_def)

lemma ensure_eq_Inl [res_simps]: "ensure ok e = Inl e' \<longleftrightarrow> \<not> ok \<and> e' = e"
  by (auto simp: ensure_def)

text \<open>\<open>Option::filter\<close> and \<open>Option::or\<close>.\<close>

definition opt_filter :: "('a \<Rightarrow> bool) \<Rightarrow> 'a option \<Rightarrow> 'a option" where
  "opt_filter p x = (case x of Some a \<Rightarrow> if p a then Some a else None | None \<Rightarrow> None)"

lemma opt_filter_simps [simp]:
  "opt_filter p None = None"
  "opt_filter p (Some a) = (if p a then Some a else None)"
  by (simp_all add: opt_filter_def)

lemma opt_filter_eq_Some [simp]: "opt_filter p x = Some a \<longleftrightarrow> x = Some a \<and> p a"
  by (cases x) auto

lemma opt_eqI: "(\<And>a. x = Some a \<longleftrightarrow> y = Some a) \<Longrightarrow> x = y"
  by (cases x; cases y) auto

definition opt_or :: "'a option \<Rightarrow> 'a option \<Rightarrow> 'a option" where
  "opt_or x y = (case x of Some a \<Rightarrow> Some a | None \<Rightarrow> y)"

lemma opt_or_simps [simp]: "opt_or None y = y" "opt_or (Some a) y = Some a"
  by (simp_all add: opt_or_def)

definition unwrap_or :: "'a \<Rightarrow> 'a option \<Rightarrow> 'a" where
  "unwrap_or d x = (case x of Some a \<Rightarrow> a | None \<Rightarrow> d)"

lemma unwrap_or_simps [simp]: "unwrap_or d None = d" "unwrap_or d (Some a) = a"
  by (simp_all add: unwrap_or_def)


subsection \<open>Positions in lists\<close>

text \<open>\<open>Iterator::rposition\<close>: the index of the last element satisfying \<open>p\<close>.\<close>

text \<open>The first element that passes the test is changed, as through \<open>iter_mut().find\<close>.\<close>

fun set_first :: "('a \<Rightarrow> bool) \<Rightarrow> ('a \<Rightarrow> 'a) \<Rightarrow> 'a list \<Rightarrow> 'a list" where
  "set_first p f [] = []"
| "set_first p f (x # xs) = (if p x then f x # xs else x # set_first p f xs)"

lemma find_set_first: "(\<And>x. p (f x) = p x) \<Longrightarrow> find p (set_first p f xs) = map_option f (find p xs)"
  by (induction xs) auto

lemma find_set_first_other: "(\<And>x. p x \<Longrightarrow> \<not> q x \<and> \<not> q (f x)) \<Longrightarrow> find q (set_first p f xs) = find q xs"
  by (induction xs) auto

lemma set_first_keys: "(\<And>x. key (f x) = key x) \<Longrightarrow> map key (set_first p f xs) = map key xs"
  by (induction xs) auto

fun rposition :: "('a \<Rightarrow> bool) \<Rightarrow> 'a list \<Rightarrow> nat option" where
  "rposition p [] = None"
| "rposition p (x # xs) =
     (case rposition p xs of Some i \<Rightarrow> Some (Suc i) | None \<Rightarrow> if p x then Some 0 else None)"

lemma rposition_None: "rposition p xs = None \<longleftrightarrow> (\<forall>x \<in> set xs. \<not> p x)"
  by (induction xs) (auto split: option.splits)

lemma rposition_Some:
  "rposition p xs = Some i \<longleftrightarrow>
     i < length xs \<and> p (xs ! i) \<and> (\<forall>j. i < j \<and> j < length xs \<longrightarrow> \<not> p (xs ! j))"
proof (induction xs arbitrary: i)
  case Nil
  then show ?case by simp
next
  case (Cons x xs)
  show ?case
  proof (cases "rposition p xs")
    case None
    then have no: "\<forall>j < length xs. \<not> p (xs ! j)"
      by (simp add: rposition_None)
    then show ?thesis
      using None by (cases i) (auto simp: less_Suc_eq_0_disj nth_Cons split: nat.splits)
  next
    case (Some k)
    note k = this[unfolded Cons.IH]
    show ?thesis
    proof
      assume "rposition p (x # xs) = Some i"
      with Some have "i = Suc k" by simp
      with k show "i < length (x # xs) \<and> p ((x # xs) ! i) \<and>
          (\<forall>j. i < j \<and> j < length (x # xs) \<longrightarrow> \<not> p ((x # xs) ! j))"
        by (auto simp: nth_Cons split: nat.splits)
    next
      assume R: "i < length (x # xs) \<and> p ((x # xs) ! i) \<and>
          (\<forall>j. i < j \<and> j < length (x # xs) \<longrightarrow> \<not> p ((x # xs) ! j))"
      have "\<not> i < Suc k"
      proof
        assume "i < Suc k"
        with R k have "\<not> p ((x # xs) ! Suc k)" by auto
        with k show False by simp
      qed
      moreover have "\<not> Suc k < i"
      proof
        assume lt: "Suc k < i"
        with R have "k < i - 1" "i - 1 < length xs" by auto
        moreover have "p (xs ! (i - 1))" using R lt by (cases i) auto
        ultimately show False using k by blast
      qed
      ultimately have "i = Suc k" by simp
      with Some show "rposition p (x # xs) = Some i" by simp
    qed
  qed
qed

lemma rposition_lt: "rposition p xs = Some i \<Longrightarrow> i < length xs"
  by (simp add: rposition_Some)

lemma rposition_sat: "rposition p xs = Some i \<Longrightarrow> p (xs ! i)"
  by (simp add: rposition_Some)

subsection \<open>Removing duplicates, first copy kept\<close>

text \<open>The loop \<open>if !unique.contains(&x) { unique.push(x) }\<close>, with its accumulator.\<close>

fun push_unique :: "'a list \<Rightarrow> 'a list \<Rightarrow> 'a list" where
  "push_unique acc [] = acc"
| "push_unique acc (x # xs) =
     push_unique (if x \<in> set acc then acc else acc @ [x]) xs"

lemma set_push_unique [simp]: "set (push_unique acc xs) = set acc \<union> set xs"
  by (induction xs arbitrary: acc) auto

lemma distinct_push_unique: "distinct acc \<Longrightarrow> distinct (push_unique acc xs)"
  by (induction xs arbitrary: acc) auto

lemma push_unique_prefix: "\<exists>zs. push_unique acc xs = acc @ zs"
proof (induction xs arbitrary: acc)
  case Nil
  then show ?case by simp
next
  case (Cons x xs)
  obtain zs where "push_unique (if x \<in> set acc then acc else acc @ [x]) xs =
      (if x \<in> set acc then acc else acc @ [x]) @ zs"
    using Cons by blast
  then show ?case
    by (cases "x \<in> set acc") auto
qed

lemma push_unique_id: "distinct (acc @ xs) \<Longrightarrow> push_unique acc xs = acc @ xs"
  by (induction xs arbitrary: acc) auto

subsection \<open>Splitting and joining text\<close>

text \<open>\<open>str::split\<close> with a separating character: always at least one piece.\<close>

fun split_on :: "'a \<Rightarrow> 'a list \<Rightarrow> 'a list list" where
  "split_on c [] = [[]]"
| "split_on c (x # xs) =
     (if x = c then [] # split_on c xs
      else (case split_on c xs of [] \<Rightarrow> [[x]] | w # ws \<Rightarrow> (x # w) # ws))"

lemma split_on_nonempty [simp]: "split_on c xs \<noteq> []"
  by (induction xs) (auto split: list.splits)

lemma split_on_no_sep: "c \<notin> set xs \<Longrightarrow> split_on c xs = [xs]"
  by (induction xs) auto

lemma split_on_Cons_sep: "c \<notin> set w \<Longrightarrow> split_on c (w @ c # xs) = w # split_on c xs"
  by (induction w) auto

lemma split_on_pieces: "w \<in> set (split_on c xs) \<Longrightarrow> c \<notin> set w"
proof (induction xs arbitrary: w)
  case Nil
  then show ?case by simp
next
  case (Cons x xs)
  then show ?case
    by (fastforce split: if_splits list.splits)
qed

lemma split_on_single: "split_on c xs = [w] \<Longrightarrow> w = xs"
proof (induction xs arbitrary: w)
  case Nil
  then show ?case by simp
next
  case (Cons x xs)
  then show ?case
    by (auto split: if_splits list.splits)
qed

text \<open>\<open>Vec::join\<close> with a one-character separator.\<close>

fun join_with :: "'a \<Rightarrow> 'a list list \<Rightarrow> 'a list" where
  "join_with c [] = []"
| "join_with c [w] = w"
| "join_with c (w # v # ws) = w @ c # join_with c (v # ws)"

lemma split_join:
  "ws \<noteq> [] \<Longrightarrow> \<forall>w \<in> set ws. c \<notin> set w \<Longrightarrow> split_on c (join_with c ws) = ws"
  by (induction c ws rule: join_with.induct) (auto simp: split_on_no_sep split_on_Cons_sep)

lemma join_split: "join_with c (split_on c xs) = xs"
proof (induction xs)
  case Nil
  then show ?case by simp
next
  case (Cons x xs)
  obtain w ws where s: "split_on c xs = w # ws"
    by (meson neq_Nil_conv split_on_nonempty)
  with Cons show ?case
    by (cases ws) auto
qed

end
