(* ===== verification/Texts.thy ===== *)
theory Texts
  imports Prelude
begin

section \<open>Text helpers of the Rust standard library\<close>

text \<open>
  Characters are code points up to U+00FF; on that range \<open>char::is_whitespace\<close>,
  \<open>char::to_lowercase\<close>, \<open>str::trim\<close> and \<open>str::parse::<i64>\<close> are written out in full.
  The group ends with the round trip between an \<open>i64\<close> and its decimal text.
\<close>

subsection \<open>Characters\<close>

definition code :: "char \<Rightarrow> nat" where
  "code c = of_char c"

lemma code_less_256 [simp]: "code c < 256"
  by (simp add: code_def)

lemma code_inj: "code c = code d \<longleftrightarrow> c = d"
  by (simp add: code_def)

definition is_digit :: "char \<Rightarrow> bool" where
  "is_digit c \<longleftrightarrow> 48 \<le> code c \<and> code c \<le> 57"

definition is_alpha :: "char \<Rightarrow> bool" where
  "is_alpha c \<longleftrightarrow> (65 \<le> code c \<and> code c \<le> 90) \<or> (97 \<le> code c \<and> code c \<le> 122)"

definition is_ws :: "char \<Rightarrow> bool" where
  "is_ws c \<longleftrightarrow> (9 \<le> code c \<and> code c \<le> 13) \<or> code c = 32 \<or> code c = 133 \<or> code c = 160"

definition ascii_lower :: "char \<Rightarrow> char" where
  "ascii_lower c = (if 65 \<le> code c \<and> code c \<le> 90 then char_of (code c + 32) else c)"

text \<open>\<open>char::to_lowercase\<close> on U+0000 to U+00FF: the ASCII and the Latin-1 capitals.\<close>

definition lower_char :: "char \<Rightarrow> char" where
  "lower_char c =
     (if (65 \<le> code c \<and> code c \<le> 90) \<or> (192 \<le> code c \<and> code c \<le> 222 \<and> code c \<noteq> 215)
      then char_of (code c + 32) else c)"

definition to_lowercase :: "string \<Rightarrow> string" where
  "to_lowercase s = map lower_char s"

lemma code_char_of: "n < 256 \<Longrightarrow> code (char_of n) = n"
  by (simp add: code_def)

lemma lower_char_idem [simp]: "lower_char (lower_char c) = lower_char c"
  by (simp add: lower_char_def code_char_of)

lemma to_lowercase_idem [simp]: "to_lowercase (to_lowercase s) = to_lowercase s"
  by (simp add: to_lowercase_def)

lemma to_lowercase_Nil [simp]: "to_lowercase [] = []"
  by (simp add: to_lowercase_def)

definition trim_start :: "string \<Rightarrow> string" where
  "trim_start s = dropWhile is_ws s"

definition trim :: "string \<Rightarrow> string" where
  "trim s = rev (dropWhile is_ws (rev (trim_start s)))"

lemma trim_no_ws: "\<forall>c \<in> set s. \<not> is_ws c \<Longrightarrow> trim s = s"
proof -
  assume a: "\<forall>c \<in> set s. \<not> is_ws c"
  then have "trim_start s = s"
    unfolding trim_start_def by (cases s) auto
  moreover have "dropWhile is_ws (rev s) = rev s"
    using a by (cases s rule: rev_cases) auto
  ultimately show ?thesis by (simp add: trim_def)
qed

subsection \<open>Decimal numbers\<close>

definition i64_ok :: "int \<Rightarrow> bool" where
  "i64_ok n \<longleftrightarrow> - (2 ^ 63) \<le> n \<and> n < 2 ^ 63"

definition digit_char :: "nat \<Rightarrow> char" where
  "digit_char d = char_of (48 + d)"

definition digit_val :: "char \<Rightarrow> nat" where
  "digit_val c = code c - 48"

fun show_nat :: "nat \<Rightarrow> string" where
  "show_nat n = (if n < 10 then [digit_char n] else show_nat (n div 10) @ [digit_char (n mod 10)])"

declare show_nat.simps [simp del]

definition show_int :: "int \<Rightarrow> string" where
  "show_int n = (if n < 0 then CHR ''-'' # show_nat (nat (- n)) else show_nat (nat n))"

definition nat_of_digits :: "string \<Rightarrow> nat" where
  "nat_of_digits s = foldl (\<lambda>acc c. 10 * acc + digit_val c) 0 s"

lemma digit_char_props:
  assumes "d < 10"
  shows "is_digit (digit_char d)" "digit_val (digit_char d) = d"
  using assms by (auto simp: digit_char_def is_digit_def digit_val_def code_char_of)

lemma show_nat_digits: "\<forall>c \<in> set (show_nat n). is_digit c"
proof (induction n rule: show_nat.induct)
  case (1 n)
  then show ?case
    by (subst show_nat.simps) (auto simp: digit_char_props)
qed

lemma show_nat_nonempty [simp]: "show_nat n \<noteq> []"
  by (subst show_nat.simps) simp

lemma nat_of_digits_append:
  "nat_of_digits (s @ [c]) = 10 * nat_of_digits s + digit_val c"
  by (simp add: nat_of_digits_def)

lemma nat_of_digits_show_nat: "nat_of_digits (show_nat n) = n"
proof (induction n rule: show_nat.induct)
  case (1 n)
  show ?case
  proof (cases "n < 10")
    case True
    then show ?thesis
      by (subst show_nat.simps) (simp add: nat_of_digits_def digit_char_props)
  next
    case False
    with 1 have "nat_of_digits (show_nat (n div 10)) = n div 10" by simp
    with False show ?thesis
      by (subst show_nat.simps) (simp add: nat_of_digits_append digit_char_props)
  qed
qed

text \<open>\<open>str::parse::<i64>\<close>: an optional sign, then at least one digit, within the range.\<close>

definition parse_i64 :: "string \<Rightarrow> int option" where
  "parse_i64 s =
     (let neg = (case s of c # _ \<Rightarrow> c = CHR ''-'' | [] \<Rightarrow> False);
          body = (case s of c # cs \<Rightarrow> if c = CHR ''-'' \<or> c = CHR ''+'' then cs else s | [] \<Rightarrow> s);
          n = (if neg then - int (nat_of_digits body) else int (nat_of_digits body))
      in if body \<noteq> [] \<and> list_all is_digit body \<and> i64_ok n then Some n else None)"

text \<open>The same value summed in \<open>int\<close>, which evaluates without unary numbers.\<close>

definition int_of_digits :: "string \<Rightarrow> int" where
  "int_of_digits s = foldl (\<lambda>acc c. 10 * acc + int (digit_val c)) 0 s"

lemma int_nat_of_digits: "int (nat_of_digits s) = int_of_digits s"
  by (induction s rule: rev_induct) (simp_all add: nat_of_digits_def int_of_digits_def)

lemma parse_i64_code [code]:
  "parse_i64 s =
     (let neg = (case s of c # _ \<Rightarrow> c = CHR ''-'' | [] \<Rightarrow> False);
          body = (case s of c # cs \<Rightarrow> if c = CHR ''-'' \<or> c = CHR ''+'' then cs else s | [] \<Rightarrow> s);
          n = (if neg then - int_of_digits body else int_of_digits body)
      in if body \<noteq> [] \<and> list_all is_digit body \<and> i64_ok n then Some n else None)"
  unfolding parse_i64_def int_nat_of_digits ..

lemma digit_not_sign: "is_digit c \<Longrightarrow> c \<noteq> CHR ''-'' \<and> c \<noteq> CHR ''+'' \<and> c \<noteq> CHR '','' \<and> \<not> is_ws c"
  by (auto simp: is_digit_def is_ws_def code_def)

lemma show_nat_Cons: "\<exists>c cs. show_nat n = c # cs \<and> is_digit c \<and> (\<forall>d \<in> set cs. is_digit d)"
  using show_nat_digits [of n] by (cases "show_nat n") auto

lemma parse_show_int: "i64_ok n \<Longrightarrow> parse_i64 (show_int n) = Some n"
proof -
  assume ok: "i64_ok n"
  obtain c cs where s: "show_nat (nat \<bar>n\<bar>) = c # cs" "is_digit c" "\<forall>d \<in> set cs. is_digit d"
    using show_nat_Cons by blast
  have v: "int (nat_of_digits (c # cs)) = \<bar>n\<bar>"
    using nat_of_digits_show_nat [of "nat \<bar>n\<bar>"] s(1) by simp
  show ?thesis
  proof (cases "n < 0")
    case True
    then show ?thesis
      using s v ok by (simp add: show_int_def parse_i64_def Let_def list_all_iff)
  next
    case False
    then show ?thesis
      using s v ok digit_not_sign [OF s(2)]
      by (auto simp: show_int_def parse_i64_def Let_def list_all_iff)
  qed
qed

lemma show_int_chars: "c \<in> set (show_int n) \<Longrightarrow> c = CHR ''-'' \<or> is_digit c"
  using show_nat_digits by (auto simp: show_int_def split: if_splits)

lemma show_int_nonempty [simp]: "show_int n \<noteq> []"
  by (simp add: show_int_def)

lemma show_int_clean: "c \<in> set (show_int n) \<Longrightarrow> c \<noteq> CHR '','' \<and> \<not> is_ws c"
  using show_int_chars [of c n] digit_not_sign [of c]
  by (auto simp: is_ws_def code_def)

lemma trim_show_int [simp]: "trim (show_int n) = show_int n"
  using show_int_clean by (intro trim_no_ws) blast

lemma show_int_no_colon: "CHR '':'' \<notin> set (show_int n)"
  using show_int_chars [of "CHR '':''" n] by (auto simp: is_digit_def code_def)

lemma show_nat_inj: "show_nat m = show_nat n \<Longrightarrow> m = n"
  using nat_of_digits_show_nat by metis

lemma show_int_inj: "show_int m = show_int n \<longleftrightarrow> m = n"
proof
  assume eq: "show_int m = show_int n"
  have "show_nat k \<noteq> CHR ''-'' # xs" for k xs
    using show_nat_Cons [of k] digit_not_sign [of "CHR ''-''"] by auto
  then show "m = n"
    using eq show_nat_inj [of "nat m" "nat n"] show_nat_inj [of "nat (- m)" "nat (- n)"]
    by (auto simp: show_int_def split: if_splits dest: sym)
qed simp

end
