(* ===== verification/Json.thy ===== *)
theory Json
  imports Complex_Main Texts
begin

section \<open>JSON values and insertion-ordered objects\<close>

text \<open>
  The data \<open>serde_json::Value\<close> carries (with the \<open>preserve_order\<close> feature the server turns on):
  an object is the list of its entries in insertion order, an \<open>f64\<close> is the rational it denotes.
  \<open>put_store\<close> is the interface every store written by key offers its clients: what a lookup returns
  after an insert; \<open>keyed_store\<close> extends it with removal. Objects are the first provider.
\<close>

datatype json =
    JNull
  | JBool bool
  | JInt int
  | JFloat rat
  | JStr string
  | JArr "json list"
  | JObj "(string \<times> json) list"

type_synonym jmap = "(string \<times> json) list"

subsection \<open>Readers\<close>

fun as_i64 :: "json \<Rightarrow> int option" where
  "as_i64 (JInt n) = (if i64_ok n then Some n else None)"
| "as_i64 _ = None"

fun as_bool :: "json \<Rightarrow> bool option" where
  "as_bool (JBool b) = Some b"
| "as_bool _ = None"

fun as_str :: "json \<Rightarrow> string option" where
  "as_str (JStr s) = Some s"
| "as_str _ = None"

fun as_array :: "json \<Rightarrow> json list option" where
  "as_array (JArr xs) = Some xs"
| "as_array _ = None"

fun as_object :: "json \<Rightarrow> jmap option" where
  "as_object (JObj m) = Some m"
| "as_object _ = None"

definition obj_get :: "jmap \<Rightarrow> string \<Rightarrow> json option" where
  "obj_get m k = map_of m k"

fun jget :: "json \<Rightarrow> string \<Rightarrow> json option" where
  "jget (JObj m) k = obj_get m k"
| "jget _ k = None"

text \<open>\<open>Value::pointer\<close> for a path of object keys.\<close>

fun jpath :: "string list \<Rightarrow> json \<Rightarrow> json option" where
  "jpath [] v = Some v"
| "jpath (k # ks) v = (case jget v k of Some w \<Rightarrow> jpath ks w | None \<Rightarrow> None)"

subsection \<open>Writers\<close>

text \<open>\<open>Map::insert\<close>: an entry that is there keeps its place, a new one goes last.\<close>

fun obj_insert :: "string \<Rightarrow> json \<Rightarrow> jmap \<Rightarrow> jmap" where
  "obj_insert k v [] = [(k, v)]"
| "obj_insert k v ((k', v') # m) =
     (if k' = k then (k, v) # m else (k', v') # obj_insert k v m)"

text \<open>\<open>Map::shift_remove\<close>.\<close>

definition obj_remove :: "string \<Rightarrow> jmap \<Rightarrow> jmap" where
  "obj_remove k m = filter (\<lambda>e. fst e \<noteq> k) m"

definition obj_keys :: "jmap \<Rightarrow> string list" where
  "obj_keys m = map fst m"

lemma obj_get_Nil [simp]: "obj_get [] k = None"
  by (simp add: obj_get_def)

lemma obj_get_Cons [simp]: "obj_get ((k', v) # m) k = (if k = k' then Some v else obj_get m k)"
  by (simp add: obj_get_def)

lemma obj_get_append:
  "obj_get (m @ n) k = (case obj_get m k of Some v \<Rightarrow> Some v | None \<Rightarrow> obj_get n k)"
  by (simp add: obj_get_def map_add_def split: option.splits)

lemma obj_get_None: "obj_get m k = None \<longleftrightarrow> k \<notin> set (obj_keys m)"
  by (simp add: obj_get_def obj_keys_def map_of_eq_None_iff)

lemma obj_get_insert: "obj_get (obj_insert k v m) k' = (if k' = k then Some v else obj_get m k')"
  by (induction k v m rule: obj_insert.induct) auto

lemma obj_get_remove: "obj_get (obj_remove k m) k' = (if k' = k then None else obj_get m k')"
  by (induction m) (auto simp: obj_remove_def)

lemma obj_keys_insert:
  "obj_keys (obj_insert k v m) = (if k \<in> set (obj_keys m) then obj_keys m else obj_keys m @ [k])"
  by (induction k v m rule: obj_insert.induct) (auto simp: obj_keys_def)

lemma distinct_obj_insert: "distinct (obj_keys m) \<Longrightarrow> distinct (obj_keys (obj_insert k v m))"
  by (simp add: obj_keys_insert)

subsection \<open>The keyed-store interface\<close>

locale put_store =
  fixes lookup :: "'m \<Rightarrow> 'k \<Rightarrow> 'v option"
    and put :: "'k \<Rightarrow> 'v \<Rightarrow> 'm \<Rightarrow> 'm"
  assumes lookup_put: "lookup (put k v m) k' = (if k' = k then Some v else lookup m k')"
begin

definition put_all :: "('k \<times> 'v) list \<Rightarrow> 'm \<Rightarrow> 'm" where
  "put_all es m = fold (\<lambda>(k, v). put k v) es m"

lemma lookup_put_all:
  "lookup (put_all es m) k =
     (case map_of (rev es) k of Some v \<Rightarrow> Some v | None \<Rightarrow> lookup m k)"
proof (induction es arbitrary: m)
  case Nil
  then show ?case by (simp add: put_all_def)
next
  case (Cons e es)
  obtain k' v where e: "e = (k', v)" by force
  have "put_all (e # es) m = put_all es (put k' v m)"
    by (simp add: put_all_def e)
  then show ?case
    using Cons [of "put k' v m"]
    by (simp add: e lookup_put map_add_def split: option.splits)
qed

lemma lookup_put_put: "lookup (put k w (put k v m)) k' = lookup (put k w m) k'"
  by (simp add: lookup_put)

lemma put_commute:
  "k \<noteq> l \<Longrightarrow> lookup (put k v (put l w m)) k' = lookup (put l w (put k v m)) k'"
  by (simp add: lookup_put)

text \<open>Writing the columns of a list that fail a test, the value of each read from one row.\<close>

definition put_from :: "('k \<Rightarrow> 'v) \<Rightarrow> 'k list \<Rightarrow> 'm \<Rightarrow> 'm" where
  "put_from value ks m = fold (\<lambda>k. put k (value k)) ks m"

lemma lookup_put_from:
  "lookup (put_from value ks m) k = (if k \<in> set ks then Some (value k) else lookup m k)"
  by (induction ks arbitrary: m) (auto simp: put_from_def lookup_put)

end

locale keyed_store = put_store lookup put
  for lookup :: "'m \<Rightarrow> 'k \<Rightarrow> 'v option"
    and put :: "'k \<Rightarrow> 'v \<Rightarrow> 'm \<Rightarrow> 'm" +
  fixes del :: "'k \<Rightarrow> 'm \<Rightarrow> 'm"
  assumes lookup_del: "lookup (del k m) k' = (if k' = k then None else lookup m k')"
begin

lemma lookup_del_put: "lookup (del k (put k v m)) k' = lookup (del k m) k'"
  by (simp add: lookup_put lookup_del)

end

interpretation obj: keyed_store obj_get obj_insert obj_remove
  by unfold_locales (auto simp: obj_get_insert obj_get_remove)

subsection \<open>Column values as JSON\<close>

text \<open>The closures \<open>text\<close>, \<open>flag\<close> and \<open>number\<close> the serializers share.\<close>

definition j_text :: "string option \<Rightarrow> json" where
  "j_text v = (case v of Some s \<Rightarrow> JStr s | None \<Rightarrow> JNull)"

definition j_flag :: "bool option \<Rightarrow> json" where
  "j_flag v = (case v of Some b \<Rightarrow> JBool b | None \<Rightarrow> JNull)"

definition j_number :: "int option \<Rightarrow> json" where
  "j_number v = (case v of Some n \<Rightarrow> JInt n | None \<Rightarrow> JNull)"

end
