(* ===== verification/Sorted_Store.thy ===== *)
theory Sorted_Store
  imports Json "HOL-Library.Product_Lexorder"
begin

section \<open>The standard library's maps as sorted association lists\<close>

text \<open>
  \<open>std::collections::BTreeMap\<close> (and \<open>HashMap\<close>, whose iteration order no modelled code depends on)
  as the list of its entries in ascending key order. \<open>bt_ok\<close> is the representation invariant; the
  operations keep it, and they are a provider of \<open>keyed_store\<close>.
\<close>

fun bt_insert :: "'k::linorder \<Rightarrow> 'v \<Rightarrow> ('k \<times> 'v) list \<Rightarrow> ('k \<times> 'v) list" where
  "bt_insert k v [] = [(k, v)]"
| "bt_insert k v ((k', v') # m) =
     (if k < k' then (k, v) # (k', v') # m
      else if k = k' then (k, v) # m
      else (k', v') # bt_insert k v m)"

definition bt_remove :: "'k::linorder \<Rightarrow> ('k \<times> 'v) list \<Rightarrow> ('k \<times> 'v) list" where
  "bt_remove k m = filter (\<lambda>e. fst e \<noteq> k) m"

definition bt_get :: "('k::linorder \<times> 'v) list \<Rightarrow> 'k \<Rightarrow> 'v option" where
  "bt_get m k = map_of m k"

definition bt_ok :: "('k::linorder \<times> 'v) list \<Rightarrow> bool" where
  "bt_ok m \<longleftrightarrow> sorted_wrt (<) (map fst m)"

lemma bt_get_Nil [simp]: "bt_get [] k = None"
  by (simp add: bt_get_def)

lemma bt_get_Cons [simp]: "bt_get ((k', v) # m) k = (if k = k' then Some v else bt_get m k)"
  by (simp add: bt_get_def)

lemma bt_ok_Nil [simp, intro]: "bt_ok []"
  by (simp add: bt_ok_def)

lemma bt_ok_Cons [simp]: "bt_ok ((k, v) # m) \<longleftrightarrow> (\<forall>k' \<in> fst ` set m. k < k') \<and> bt_ok m"
  by (simp add: bt_ok_def)

lemma bt_keys_insert [simp]: "fst ` set (bt_insert k v m) = insert k (fst ` set m)"
  by (induction k v m rule: bt_insert.induct) auto

lemma bt_ok_insert [simp, intro]: "bt_ok m \<Longrightarrow> bt_ok (bt_insert k v m)"
  by (induction k v m rule: bt_insert.induct) auto

lemma bt_ok_remove [simp, intro]: "bt_ok m \<Longrightarrow> bt_ok (bt_remove k m)"
  by (induction m) (auto simp: bt_remove_def)

lemma bt_get_insert: "bt_get (bt_insert k v m) k' = (if k' = k then Some v else bt_get m k')"
  by (induction k v m rule: bt_insert.induct) auto

lemma bt_get_remove: "bt_get (bt_remove k m) k' = (if k' = k then None else bt_get m k')"
  by (induction m) (auto simp: bt_remove_def)

interpretation bt: keyed_store bt_get bt_insert bt_remove
  by unfold_locales (auto simp: bt_get_insert bt_get_remove)

lemma bt_get_None: "bt_get m k = None \<longleftrightarrow> k \<notin> fst ` set m"
  by (simp add: bt_get_def map_of_eq_None_iff)

lemma bt_ok_distinct: "bt_ok m \<Longrightarrow> distinct (map fst m)"
  by (simp add: bt_ok_def strict_sorted_iff)

lemma bt_get_iff: "bt_ok m \<Longrightarrow> bt_get m k = Some v \<longleftrightarrow> (k, v) \<in> set m"
  by (simp add: bt_get_def bt_ok_distinct)

lemma bt_remove_absent: "bt_get m k = None \<Longrightarrow> bt_remove k m = m"
  by (auto simp: bt_get_None bt_remove_def intro!: filter_True)

lemma set_bt_remove [simp]: "set (bt_remove k m) = {e \<in> set m. fst e \<noteq> k}"
  by (auto simp: bt_remove_def)

lemma bt_remove_Nil [simp]: "bt_remove k [] = []"
  by (simp add: bt_remove_def)

lemma bt_remove_Cons [simp]:
  "bt_remove k ((k', v) # m) = (if k' = k then bt_remove k m else (k', v) # bt_remove k m)"
  by (simp add: bt_remove_def)

lemma length_bt_remove_le: "length (bt_remove k m) \<le> length m"
  by (simp add: bt_remove_def)

lemma length_bt_remove_Cons: "length (bt_remove k ((k, v) # m)) < length ((k, v) # m)"
  using length_bt_remove_le [of k m] by simp

lemma length_bt_remove:
  "bt_ok m \<Longrightarrow> bt_get m k = Some v \<Longrightarrow> Suc (length (bt_remove k m)) = length m"
proof (induction m)
  case Nil
  then show ?case by simp
next
  case (Cons e m)
  obtain k' v' where e: "e = (k', v')" by force
  show ?case
  proof (cases "k' = k")
    case True
    with Cons.prems e have "k \<notin> fst ` set m" by auto
    then have "bt_remove k m = m" by (simp add: bt_get_None bt_remove_absent)
    with e True show ?thesis by simp
  next
    case False
    with Cons e show ?thesis by simp
  qed
qed

lemma length_bt_insert_fresh:
  "bt_get m k = None \<Longrightarrow> length (bt_insert k v m) = Suc (length m)"
  by (induction k v m rule: bt_insert.induct) (auto split: if_splits)

lemma length_bt_insert:
  "bt_ok m \<Longrightarrow> bt_get m k = Some w \<Longrightarrow> length (bt_insert k v m) = length m"
proof (induction k v m rule: bt_insert.induct)
  case (2 k v k' v' m)
  then show ?case by (force simp: bt_get_def dest: map_of_SomeD split: if_splits)
qed simp

text \<open>\<open>first_key_value\<close>: on an ordered store the head has the least key.\<close>

lemma bt_first_least: "bt_ok ((k, v) # m) \<Longrightarrow> bt_get ((k, v) # m) k' = Some v' \<Longrightarrow> k \<le> k'"
  by (auto simp: bt_get_iff split: if_splits)

subsection \<open>Sums over a store\<close>

definition bt_sum :: "('v \<Rightarrow> nat) \<Rightarrow> ('k::linorder \<times> 'v) list \<Rightarrow> nat" where
  "bt_sum f m = sum_list (map (f \<circ> snd) m)"

lemma bt_sum_Nil [simp]: "bt_sum f [] = 0"
  by (simp add: bt_sum_def)

lemma bt_sum_Cons [simp]: "bt_sum f ((k, v) # m) = f v + bt_sum f m"
  by (simp add: bt_sum_def)

lemma bt_sum_insert_fresh: "bt_get m k = None \<Longrightarrow> bt_sum f (bt_insert k v m) = f v + bt_sum f m"
  by (induction k v m rule: bt_insert.induct) (auto split: if_splits)

lemma bt_sum_update:
  "bt_ok m \<Longrightarrow> bt_get m k = Some w \<Longrightarrow> f v = f w \<Longrightarrow> bt_sum f (bt_insert k v m) = bt_sum f m"
proof (induction k v m rule: bt_insert.induct)
  case (1 k v)
  then show ?case by simp
next
  case (2 k v k' v' m)
  then show ?case
    using bt_first_least [of k' v' m k w] by (auto split: if_splits)
qed

lemma bt_sum_remove:
  "bt_ok m \<Longrightarrow> bt_get m k = Some v \<Longrightarrow> bt_sum f (bt_remove k m) + f v = bt_sum f m"
proof (induction m)
  case Nil
  then show ?case by simp
next
  case (Cons e m)
  obtain k' v' where e: "e = (k', v')" by force
  show ?case
  proof (cases "k' = k")
    case True
    with Cons.prems e have "k \<notin> fst ` set m" by auto
    then have "bt_remove k m = m" by (simp add: bt_get_None bt_remove_absent)
    with e True Cons.prems show ?thesis by simp
  next
    case False
    with Cons e show ?thesis by simp
  qed
qed

lemma bt_sum_member: "bt_get m k = Some v \<Longrightarrow> f v \<le> bt_sum f m"
  by (induction m) (auto split: if_splits)

end
