(* ===== verification/MemCache.thy ===== *)
theory MemCache
  imports Sorted_Store
begin

section \<open>The shared response cache\<close>

text \<open>
  \<open>src/backend-rs/src/memcache.rs\<close> and the limits of \<open>libraryimagecache.rs\<close>: the named response
  caches under one byte budget with least-recently-used eviction across all of them. The registry
  holds one store per cache; each store indexes its entries by last access and by expiry.
  A moment (\<open>Instant\<close>) and a duration are seconds as \<open>nat\<close>; counters and sizes (\<open>u64\<close>) are \<open>nat\<close>,
  with \<open>saturating_sub\<close> the subtraction of \<open>nat\<close>. The \<open>loop\<close>s are recursive functions whose
  termination is proved; \<open>ensure_capacity\<close> carries the round counter of the code.
\<close>

subsection \<open>Cache ids\<close>

datatype cache_id =
    Tmdb | TmdbScan | Radarr | Sonarr | Rt | Imdb | Mdblist | Github
  | PlexTv | PlexWatchlist | Tvdb | Trakt | Anilist

definition ALL_IDS :: "cache_id list" where
  "ALL_IDS = [Tmdb, TmdbScan, Radarr, Sonarr, Rt, Imdb, Mdblist, Github, PlexTv, PlexWatchlist,
     Tvdb, Trakt, Anilist]"

fun cache_key :: "cache_id \<Rightarrow> string" where
  "cache_key Tmdb = ''tmdb''"
| "cache_key TmdbScan = ''tmdbscan''"
| "cache_key Radarr = ''radarr''"
| "cache_key Sonarr = ''sonarr''"
| "cache_key Rt = ''rt''"
| "cache_key Imdb = ''imdb''"
| "cache_key Mdblist = ''mdblist''"
| "cache_key Github = ''github''"
| "cache_key PlexTv = ''plextv''"
| "cache_key PlexWatchlist = ''plexwatchlist''"
| "cache_key Tvdb = ''tvdb''"
| "cache_key Trakt = ''trakt''"
| "cache_key Anilist = ''anilist''"

fun cache_name :: "cache_id \<Rightarrow> string" where
  "cache_name Tmdb = ''The Movie Database API''"
| "cache_name TmdbScan = ''The Movie Database API (Library Scans)''"
| "cache_name Radarr = ''Radarr API''"
| "cache_name Sonarr = ''Sonarr API''"
| "cache_name Rt = ''Rotten Tomatoes API''"
| "cache_name Imdb = ''IMDB Radarr Proxy''"
| "cache_name Mdblist = ''MDBList API''"
| "cache_name Github = ''GitHub API''"
| "cache_name PlexTv = ''Plex TV''"
| "cache_name PlexWatchlist = ''Plex Watchlist''"
| "cache_name Tvdb = ''The TVDB API''"
| "cache_name Trakt = ''Trakt API''"
| "cache_name Anilist = ''AniList API''"

fun default_ttl :: "cache_id \<Rightarrow> nat" where
  "default_ttl c =
     (if c = Tmdb \<or> c = Github \<or> c = Tvdb then 21600
      else if c = TmdbScan then 900
      else if c = Rt \<or> c = Imdb then 43200
      else if c = Mdblist then 172800
      else if c = PlexTv then 604800
      else 300)"

fun max_entries_of :: "cache_id \<Rightarrow> nat option" where
  "max_entries_of TmdbScan = Some 2000"
| "max_entries_of _ = None"

definition parse_cache_id :: "string \<Rightarrow> cache_id option" where
  "parse_cache_id s = find (\<lambda>c. cache_key c = s) ALL_IDS"

fun position :: "('a \<Rightarrow> bool) \<Rightarrow> 'a list \<Rightarrow> nat option" where
  "position p [] = None"
| "position p (x # xs) = (if p x then Some 0 else map_option Suc (position p xs))"

definition cache_index :: "cache_id \<Rightarrow> nat" where
  "cache_index c = unwrap_or 0 (position (\<lambda>d. d = c) ALL_IDS)"

definition ARTWORK :: nat where
  "ARTWORK = length ALL_IDS"

lemma ALL_IDS_complete: "c \<in> set ALL_IDS"
  by (cases c) (simp_all add: ALL_IDS_def)

lemma cache_key_inj: "cache_key c = cache_key d \<longleftrightarrow> c = d"
  by (cases c; cases d) simp_all

lemma parse_cache_key: "parse_cache_id (cache_key c) = Some c"
  by (cases c) (simp_all add: parse_cache_id_def ALL_IDS_def)

lemma parse_cache_id_Some: "parse_cache_id s = Some c \<Longrightarrow> cache_key c = s"
  by (auto simp: parse_cache_id_def find_Some_iff)

lemma cache_index_bound: "cache_index c < ARTWORK"
  by (cases c) (simp_all add: cache_index_def ARTWORK_def ALL_IDS_def)

lemma cache_index_inj: "cache_index c = cache_index d \<longleftrightarrow> c = d"
  by (cases c; cases d) (simp_all add: cache_index_def ALL_IDS_def)

subsection \<open>State\<close>

record artwork =
  art_bytes :: string
  content_type :: string

text \<open>The UTF-8 length of a text over U+0000 to U+00FF, which \<open>str::len\<close> counts.\<close>

definition utf8_len :: "string \<Rightarrow> nat" where
  "utf8_len s = sum_list (map (\<lambda>c. if code c < 128 then 1 else 2) s)"

definition artwork_size :: "artwork \<Rightarrow> nat" where
  "artwork_size a = length (art_bytes a) + utf8_len (content_type a)"

record limits =
  max_entries :: "nat option"
  max_bytes :: "nat option"

datatype payload = Json_payload json | Artwork_payload artwork

record entry =
  payload :: payload
  esize :: nat
  expires_at :: nat
  stored_at :: nat
  accessed_at :: nat

record store =
  entries :: "(string \<times> entry) list"
  recency :: "(nat \<times> string) list"
  expiry :: "((nat \<times> nat) \<times> string) list"
  bytes :: nat
  hits :: nat
  misses :: nat
  slimits :: limits

record registry =
  stores :: "store list"
  used_bytes :: nat
  evictions :: nat
  access :: nat
  limit_bytes :: nat
  dropped :: "payload list"

definition LIMIT_BYTES :: nat where
  "LIMIT_BYTES = 256 * 1024 * 1024"

definition CAPACITY_ROUNDS :: nat where
  "CAPACITY_ROUNDS = 10000"

definition ARTWORK_LIMITS :: limits where
  "ARTWORK_LIMITS = \<lparr>max_entries = Some 256, max_bytes = Some (64 * 1024 * 1024)\<rparr>"

definition empty_store :: "limits \<Rightarrow> store" where
  "empty_store l = \<lparr>entries = [], recency = [], expiry = [], bytes = 0, hits = 0, misses = 0,
     slimits = l\<rparr>"

definition new_registry :: "nat \<Rightarrow> registry" where
  "new_registry limit =
     \<lparr>stores = map empty_store
        (map (\<lambda>c. \<lparr>max_entries = max_entries_of c, max_bytes = None\<rparr>) ALL_IDS @ [ARTWORK_LIMITS]),
      used_bytes = 0, evictions = 0, access = 0, limit_bytes = limit, dropped = []\<rparr>"

subsection \<open>Operations\<close>

definition store_at :: "registry \<Rightarrow> nat \<Rightarrow> store option" where
  "store_at r i = (if i < length (stores r) then Some (stores r ! i) else None)"

definition set_store :: "nat \<Rightarrow> store \<Rightarrow> registry \<Rightarrow> registry" where
  "set_store i s r = r\<lparr>stores := (stores r)[i := s]\<rparr>"

text \<open>What taking an entry out of a store, adding one and touching one do to its indexes.\<close>

definition drop_entry :: "string \<Rightarrow> entry \<Rightarrow> store \<Rightarrow> store" where
  "drop_entry key e s =
     s\<lparr>entries := bt_remove key (entries s),
       recency := bt_remove (accessed_at e) (recency s),
       expiry := bt_remove (expires_at e, stored_at e) (expiry s),
       bytes := bytes s - esize e\<rparr>"

definition add_entry :: "string \<Rightarrow> entry \<Rightarrow> store \<Rightarrow> store" where
  "add_entry key e s =
     s\<lparr>recency := bt_insert (accessed_at e) key (recency s),
       expiry := bt_insert (expires_at e, stored_at e) key (expiry s),
       entries := bt_insert key e (entries s),
       bytes := bytes s + esize e\<rparr>"

definition move_entry :: "string \<Rightarrow> nat \<Rightarrow> entry \<Rightarrow> store \<Rightarrow> store" where
  "move_entry key stamp e s =
     s\<lparr>entries := bt_insert key (e\<lparr>accessed_at := stamp\<rparr>) (entries s),
       recency :=
         (case bt_get (recency s) (accessed_at e) of
            Some k \<Rightarrow> bt_insert stamp k (bt_remove (accessed_at e) (recency s))
          | None \<Rightarrow> bt_remove (accessed_at e) (recency s))\<rparr>"

definition evict :: "nat \<Rightarrow> string \<Rightarrow> bool \<Rightarrow> registry \<Rightarrow> registry" where
  "evict i key count r =
     (case store_at r i of
        None \<Rightarrow> r
      | Some s \<Rightarrow>
          (case bt_get (entries s) key of
             None \<Rightarrow> r
           | Some e \<Rightarrow>
               (set_store i (drop_entry key e s) r)
               \<lparr>used_bytes := used_bytes r - esize e,
                evictions := (if count then evictions r + 1 else evictions r),
                dropped := dropped r @ [payload e]\<rparr>))"

text \<open>\<open>soonest.remove()\<close>: the first entry of the expiry index goes.\<close>

definition pop_soonest :: "nat \<Rightarrow> registry \<Rightarrow> registry" where
  "pop_soonest i r =
     (case store_at r i of None \<Rightarrow> r | Some s \<Rightarrow> set_store i (s\<lparr>expiry := tl (expiry s)\<rparr>) r)"

lemma store_at_set_store [simp]:
  "store_at (set_store i s r) j = (if j = i \<and> i < length (stores r) then Some s else store_at r j)"
  by (auto simp: store_at_def set_store_def)

lemma length_set_store [simp]: "length (stores (set_store i s r)) = length (stores r)"
  by (simp add: set_store_def)

lemma set_store_fields [simp]:
  "used_bytes (set_store i s r) = used_bytes r"
  "evictions (set_store i s r) = evictions r"
  "access (set_store i s r) = access r"
  "limit_bytes (set_store i s r) = limit_bytes r"
  "dropped (set_store i s r) = dropped r"
  by (simp_all add: set_store_def)

lemma set_store_twice [simp]: "set_store i s (set_store i s' r) = set_store i s r"
  by (simp add: set_store_def)

lemma store_at_Some_lt: "store_at r i = Some s \<Longrightarrow> i < length (stores r)"
  by (simp add: store_at_def split: if_splits)

lemma store_at_update [simp]:
  "store_at (r\<lparr>used_bytes := u\<rparr>) i = store_at r i"
  "store_at (r\<lparr>evictions := v\<rparr>) i = store_at r i"
  "store_at (r\<lparr>access := w\<rparr>) i = store_at r i"
  "store_at (r\<lparr>dropped := d\<rparr>) i = store_at r i"
  by (simp_all add: store_at_def)

definition expiry_len :: "registry \<Rightarrow> nat \<Rightarrow> nat" where
  "expiry_len r i = (case store_at r i of None \<Rightarrow> 0 | Some s \<Rightarrow> length (expiry s))"

lemma expiry_len_evict: "expiry_len (evict i key c r) i \<le> expiry_len r i"
  by (auto simp: expiry_len_def evict_def drop_entry_def length_bt_remove_le dest: store_at_Some_lt
      split: option.splits)

lemma expiry_len_pop:
  "store_at r i = Some s \<Longrightarrow> expiry s = x # xs \<Longrightarrow> expiry_len (pop_soonest i r) i < expiry_len r i"
  by (auto simp: expiry_len_def pop_soonest_def dest: store_at_Some_lt)

function remove_expired :: "nat \<Rightarrow> nat \<Rightarrow> registry \<Rightarrow> registry" where
  "remove_expired i now r =
     (case store_at r i of
        None \<Rightarrow> r
      | Some s \<Rightarrow>
          (case expiry s of
             [] \<Rightarrow> r
           | soonest # _ \<Rightarrow>
               if now < fst (fst soonest) then r
               else remove_expired i now (evict i (snd soonest) False (pop_soonest i r))))"
  by pat_completeness auto
termination
proof (relation "measure (\<lambda>(i, now, r). expiry_len r i)")
  show "wf (measure (\<lambda>(i, now, r). expiry_len r i))" by simp
next
  fix i now r s x and xs :: "((nat \<times> nat) \<times> string) list"
  assume a: "store_at r i = Some s" "expiry s = x # xs"
  have "expiry_len (evict i (snd x) False (pop_soonest i r)) i \<le> expiry_len (pop_soonest i r) i"
    by (rule expiry_len_evict)
  also have "\<dots> < expiry_len r i"
    using a by (rule expiry_len_pop)
  finally show "((i, now, evict i (snd x) False (pop_soonest i r)), i, now, r)
      \<in> measure (\<lambda>(i, now, r). expiry_len r i)" by simp
qed

declare remove_expired.simps [simp del]

definition next_access :: "registry \<Rightarrow> registry" where
  "next_access r = r\<lparr>access := access r + 1\<rparr>"

definition bump :: "nat \<Rightarrow> bool \<Rightarrow> registry \<Rightarrow> registry" where
  "bump i hit r =
     (case store_at r i of
        None \<Rightarrow> r
      | Some s \<Rightarrow> set_store i (if hit then s\<lparr>hits := hits s + 1\<rparr> else s\<lparr>misses := misses s + 1\<rparr>) r)"

definition count_live :: "nat \<Rightarrow> nat \<Rightarrow> registry \<Rightarrow> nat \<times> registry" where
  "count_live i now r =
     (let r = remove_expired i now r
      in (case store_at r i of None \<Rightarrow> 0 | Some s \<Rightarrow> length (entries s), r))"

text \<open>\<open>oldest\<close>: the head of the recency index, after the expired entries went.\<close>

definition oldest :: "nat \<Rightarrow> nat \<Rightarrow> registry \<Rightarrow> (nat \<times> string) option \<times> registry" where
  "oldest i now r =
     (let r = remove_expired i now r
      in (case store_at r i of
            None \<Rightarrow> None
          | Some s \<Rightarrow> (case recency s of [] \<Rightarrow> None | x # _ \<Rightarrow> Some x), r))"

definition cache_get :: "nat \<Rightarrow> string \<Rightarrow> nat \<Rightarrow> registry \<Rightarrow> payload option \<times> registry" where
  "cache_get i key now r =
     (case Option.bind (store_at r i) (\<lambda>s. bt_get (entries s) key) of
        None \<Rightarrow> (None, bump i False r)
      | Some e \<Rightarrow>
          if expires_at e \<le> now then (None, bump i False (evict i key False r))
          else
            let r = bump i True (next_access r)
            in (case store_at r i of
                  None \<Rightarrow> (None, r)
                | Some s \<Rightarrow>
                    (case bt_get (entries s) key of
                       None \<Rightarrow> (None, r)
                     | Some e \<Rightarrow> (Some (payload e), set_store i (move_entry key (access r) e s) r))))"

definition over_local_limits :: "store \<Rightarrow> bool" where
  "over_local_limits s \<longleftrightarrow>
     (case max_entries (slimits s) of Some m \<Rightarrow> m < length (entries s) | None \<Rightarrow> False) \<or>
     (case max_bytes (slimits s) of Some m \<Rightarrow> m < bytes s | None \<Rightarrow> False)"

definition entry_count :: "registry \<Rightarrow> nat \<Rightarrow> nat" where
  "entry_count r i = (case store_at r i of None \<Rightarrow> 0 | Some s \<Rightarrow> length (entries s))"

definition recency_len :: "registry \<Rightarrow> nat \<Rightarrow> nat" where
  "recency_len r i = (case store_at r i of None \<Rightarrow> 0 | Some s \<Rightarrow> length (recency s))"

lemma evict_counts:
  "entry_count (evict i key c r) i \<le> entry_count r i"
  "recency_len (evict i key c r) i \<le> recency_len r i"
  by (auto simp: entry_count_def recency_len_def evict_def drop_entry_def length_bt_remove_le
      dest: store_at_Some_lt split: option.splits)

lemma evict_entry_dec:
  assumes "store_at r i = Some s" and "bt_get (entries s) key = Some e"
  shows "entry_count (evict i key c r) i < entry_count r i"
proof -
  have "key \<in> fst ` set (entries s)"
    using assms(2) by (metis bt_get_None option.distinct(1))
  then obtain x where "x \<in> set (entries s)" "fst x = key" by auto
  then have "length (bt_remove key (entries s)) < length (entries s)"
    by (auto simp: bt_remove_def intro!: length_filter_less)
  then show ?thesis
    using assms by (simp add: entry_count_def evict_def drop_entry_def store_at_Some_lt)
qed

text \<open>
  \<open>trimToLocalLimits\<close>. The loop of the code stops when the victim is gone from the entries; the
  bound on its rounds is the number of entries, since the recency index names only stored keys
  (\<open>registry_ok\<close> below, under which \<open>trim_to_local_limits\<close> is shown to leave the store within its
  limits).
\<close>

fun trim_rounds :: "nat \<Rightarrow> nat \<Rightarrow> nat \<Rightarrow> registry \<Rightarrow> registry" where
  "trim_rounds fuel i now r =
     (case store_at r i of
        None \<Rightarrow> r
      | Some s \<Rightarrow>
          if \<not> over_local_limits s then r
          else
            (case oldest i now r of
               (None, r') \<Rightarrow> r'
             | (Some (_, key), r') \<Rightarrow>
                 (case fuel of 0 \<Rightarrow> r' | Suc n \<Rightarrow> trim_rounds n i now (evict i key True r'))))"

declare trim_rounds.simps [simp del]

definition trim_to_local_limits :: "nat \<Rightarrow> nat \<Rightarrow> registry \<Rightarrow> registry" where
  "trim_to_local_limits i now r = trim_rounds (entry_count r i) i now r"

fun remove_all_expired :: "nat list \<Rightarrow> nat \<Rightarrow> registry \<Rightarrow> registry" where
  "remove_all_expired [] now r = r"
| "remove_all_expired (i # is) now r = remove_all_expired is now (remove_expired i now r)"

text \<open>The least recently used entry over the stores, the first of equals.\<close>

fun oldest_candidate ::
  "nat list \<Rightarrow> nat \<Rightarrow> registry \<Rightarrow> (nat \<times> nat \<times> string) option \<times> registry" where
  "oldest_candidate [] now r = (None, r)"
| "oldest_candidate (i # is) now r =
     (case oldest i now r of
        (None, r') \<Rightarrow> oldest_candidate is now r'
      | (Some (a, k), r') \<Rightarrow>
          (case oldest_candidate is now r' of
             (None, r'') \<Rightarrow> (Some (a, i, k), r'')
           | (Some (b, j, l), r'') \<Rightarrow>
               (if a \<le> b then (Some (a, i, k), r'') else (Some (b, j, l), r''))))"

fun capacity_rounds :: "nat \<Rightarrow> nat \<Rightarrow> registry \<Rightarrow> registry" where
  "capacity_rounds 0 now r = r"
| "capacity_rounds (Suc n) now r =
     (if used_bytes r \<le> limit_bytes r then r
      else
        let before = used_bytes r;
            ix = [0..<length (stores r)];
            r1 = remove_all_expired ix now r
        in if used_bytes r1 \<le> limit_bytes r1 then r1
           else
             (case oldest_candidate ix now r1 of
                (None, r2) \<Rightarrow> r2
              | (Some (_, i, key), r2) \<Rightarrow>
                  let r3 = evict i key True r2
                  in if before \<le> used_bytes r3 then r3 else capacity_rounds n now r3))"

declare capacity_rounds.simps(2) [simp del]

definition ensure_capacity :: "nat \<Rightarrow> registry \<Rightarrow> registry" where
  "ensure_capacity now r = capacity_rounds CAPACITY_ROUNDS now r"

definition store_entry :: "nat \<Rightarrow> string \<Rightarrow> entry \<Rightarrow> store \<Rightarrow> registry \<Rightarrow> registry" where
  "store_entry i key e s r =
     (set_store i (add_entry key e s) r)\<lparr>used_bytes := used_bytes r + esize e\<rparr>"

definition cache_set ::
  "nat \<Rightarrow> string \<Rightarrow> payload \<Rightarrow> nat \<Rightarrow> nat \<Rightarrow> nat \<Rightarrow> registry \<Rightarrow> registry" where
  "cache_set i key pl sz ttl now r =
     (let r = next_access (evict i key False r);
          stamp = access r
      in case store_at r i of
           None \<Rightarrow> r\<lparr>dropped := dropped r @ [pl]\<rparr>
         | Some s \<Rightarrow>
             let e = \<lparr>payload = pl, esize = sz, expires_at = now + ttl,
                      stored_at = stamp, accessed_at = stamp\<rparr>
             in ensure_capacity now
                  (trim_to_local_limits i now (remove_expired i now (store_entry i key e s r))))"

definition cache_flush :: "nat \<Rightarrow> registry \<Rightarrow> registry" where
  "cache_flush i r =
     (case store_at r i of
        None \<Rightarrow> r
      | Some s \<Rightarrow> fold (\<lambda>key. evict i key False) (map fst (entries s)) r)"

text \<open>\<open>with_registry\<close>: what the operation evicted is dropped once the lock is released.\<close>

definition with_registry :: "(registry \<Rightarrow> 'a \<times> registry) \<Rightarrow> registry \<Rightarrow> 'a \<times> registry" where
  "with_registry f r = (let (x, r') = f r in (x, r'\<lparr>dropped := []\<rparr>))"

end
