(* ===== verification/MemCache_Inv.thy ===== *)
theory MemCache_Inv
  imports MemCache
begin

section \<open>The cache registry keeps its indexes consistent\<close>

text \<open>
  \<open>store_ok\<close>: the recency and expiry indexes of a store name exactly its entries, each under the
  stamp and the moment the entry carries, and the byte count is the sum of the entry sizes.
  \<open>registry_ok\<close> lifts it to the registry, with the shared budget the sum over the stores and every
  stamp at most the access counter. One lemma per operation shows it is kept.
\<close>

named_theorems registry_intros "operations that keep the registry invariant"

definition store_ok :: "nat \<Rightarrow> store \<Rightarrow> bool" where
  "store_ok acc s \<longleftrightarrow>
     bt_ok (entries s) \<and> bt_ok (recency s) \<and> bt_ok (expiry s) \<and>
     (\<forall>a k. bt_get (recency s) a = Some k \<longleftrightarrow>
        (\<exists>e. bt_get (entries s) k = Some e \<and> accessed_at e = a)) \<and>
     (\<forall>t st k. bt_get (expiry s) (t, st) = Some k \<longleftrightarrow>
        (\<exists>e. bt_get (entries s) k = Some e \<and> expires_at e = t \<and> stored_at e = st)) \<and>
     bytes s = bt_sum esize (entries s) \<and>
     (\<forall>k e. bt_get (entries s) k = Some e \<longrightarrow> accessed_at e \<le> acc \<and> stored_at e \<le> acc)"

definition registry_ok :: "registry \<Rightarrow> bool" where
  "registry_ok r \<longleftrightarrow>
     (\<forall>s \<in> set (stores r). store_ok (access r) s) \<and>
     used_bytes r = sum_list (map bytes (stores r))"

lemma store_okD:
  assumes "store_ok acc s"
  shows "bt_ok (entries s)" "bt_ok (recency s)" "bt_ok (expiry s)"
    "bt_get (recency s) a = Some k \<longleftrightarrow>
       (\<exists>e. bt_get (entries s) k = Some e \<and> accessed_at e = a)"
    "bt_get (expiry s) (t, st) = Some k \<longleftrightarrow>
       (\<exists>e. bt_get (entries s) k = Some e \<and> expires_at e = t \<and> stored_at e = st)"
    "bytes s = bt_sum esize (entries s)"
    "bt_get (entries s) k = Some e \<Longrightarrow> accessed_at e \<le> acc \<and> stored_at e \<le> acc"
  using assms unfolding store_ok_def by blast+

text \<open>Within a store no two entries share an access stamp, nor an expiry key.\<close>

lemma accessed_inj:
  assumes "store_ok acc s" "bt_get (entries s) k = Some e" "bt_get (entries s) k' = Some e'"
    and "accessed_at e' = accessed_at e"
  shows "k' = k"
proof -
  have "bt_get (recency s) (accessed_at e) = Some k"
    using assms(2) by (simp add: store_okD(4) [OF assms(1)])
  moreover have "bt_get (recency s) (accessed_at e) = Some k'"
    using assms(3,4) by (auto simp: store_okD(4) [OF assms(1)])
  ultimately show ?thesis by simp
qed

lemma expiry_inj:
  assumes "store_ok acc s" "bt_get (entries s) k = Some e" "bt_get (entries s) k' = Some e'"
    and "expires_at e' = expires_at e" "stored_at e' = stored_at e"
  shows "k' = k"
proof -
  have "bt_get (expiry s) (expires_at e, stored_at e) = Some k"
    using assms(2) by (simp add: store_okD(5) [OF assms(1)])
  moreover have "bt_get (expiry s) (expires_at e, stored_at e) = Some k'"
    using assms(3-5) by (auto simp: store_okD(5) [OF assms(1)])
  ultimately show ?thesis by simp
qed

lemma store_ok_mono: "store_ok acc s \<Longrightarrow> acc \<le> acc' \<Longrightarrow> store_ok acc' s"
  unfolding store_ok_def by (meson order_trans)

lemma store_ok_empty [simp]: "store_ok acc (empty_store l)"
  by (simp add: store_ok_def empty_store_def)

lemma store_ok_stats [simp]:
  "store_ok acc (s\<lparr>hits := h\<rparr>) = store_ok acc s"
  "store_ok acc (s\<lparr>misses := m\<rparr>) = store_ok acc s"
  by (simp_all add: store_ok_def)

subsection \<open>Single stores\<close>

lemma store_ok_drop:
  assumes ok: "store_ok acc s" and e: "bt_get (entries s) k = Some e"
  shows "store_ok acc (drop_entry k e s)"
proof -
  note d = store_okD [OF ok]
  have "bytes s - esize e = bt_sum esize (bt_remove k (entries s))"
    using bt_sum_remove [OF d(1) e, of esize] d(6) by simp
  moreover have "\<forall>a k'. bt_get (bt_remove (accessed_at e) (recency s)) a = Some k' \<longleftrightarrow>
      (\<exists>e'. bt_get (bt_remove k (entries s)) k' = Some e' \<and> accessed_at e' = a)"
  proof (intro allI)
    fix a k'
    show "bt_get (bt_remove (accessed_at e) (recency s)) a = Some k' \<longleftrightarrow>
      (\<exists>e'. bt_get (bt_remove k (entries s)) k' = Some e' \<and> accessed_at e' = a)"
    proof (cases "k' = k")
      case True
      then show ?thesis using e by (auto simp: bt_get_remove d(4))
    next
      case False
      then show ?thesis
        using accessed_inj [OF ok e] by (auto simp: bt_get_remove d(4))
    qed
  qed
  moreover have "\<forall>t st k'. bt_get (bt_remove (expires_at e, stored_at e) (expiry s)) (t, st) = Some k' \<longleftrightarrow>
      (\<exists>e'. bt_get (bt_remove k (entries s)) k' = Some e' \<and> expires_at e' = t \<and> stored_at e' = st)"
  proof (intro allI)
    fix t st k'
    show "bt_get (bt_remove (expires_at e, stored_at e) (expiry s)) (t, st) = Some k' \<longleftrightarrow>
      (\<exists>e'. bt_get (bt_remove k (entries s)) k' = Some e' \<and> expires_at e' = t \<and> stored_at e' = st)"
    proof (cases "k' = k")
      case True
      then show ?thesis using e by (auto simp: bt_get_remove d(5))
    next
      case False
      then show ?thesis
        using expiry_inj [OF ok e] by (auto simp: bt_get_remove d(5))
    qed
  qed
  ultimately show ?thesis
    using d(1-3) d(7) unfolding store_ok_def drop_entry_def
    by (simp add: bt_get_remove)
qed

lemma store_ok_add:
  assumes ok: "store_ok acc s" and fresh: "bt_get (entries s) k = None"
    and stamp: "acc < accessed_at e" "acc < stored_at e"
    and new: "accessed_at e \<le> acc'" "stored_at e \<le> acc'"
  shows "store_ok acc' (add_entry k e s)"
proof -
  note d = store_okD [OF ok]
  have older: "accessed_at e' \<noteq> accessed_at e \<and> stored_at e' \<noteq> stored_at e"
    if "bt_get (entries s) k' = Some e'" for k' e'
    using d(7) [OF that] stamp by auto
  have "acc \<le> acc'" using stamp(1) new(1) by simp
  then show ?thesis
    using d(1-3) d(6) new fresh
    unfolding store_ok_def add_entry_def
    by (auto simp: bt_get_insert d(4) d(5) bt_sum_insert_fresh dest: older d(7) order_trans)
qed

lemma store_ok_move:
  assumes ok: "store_ok acc s" and e: "bt_get (entries s) k = Some e" and stamp: "acc < stamp"
  shows "store_ok stamp (move_entry k stamp e s)"
proof -
  note d = store_okD [OF ok]
  have rk: "bt_get (recency s) (accessed_at e) = Some k"
    using e by (simp add: d(4))
  have older: "accessed_at e' < stamp \<and> accessed_at e' \<le> stamp \<and> stored_at e' \<le> stamp"
    if "bt_get (entries s) k' = Some e'" for k' e'
    using d(7) [OF that] stamp by auto
  have rec: "bt_get (bt_insert stamp k (bt_remove (accessed_at e) (recency s))) a = Some k' \<longleftrightarrow>
      (\<exists>e'. bt_get (bt_insert k (e\<lparr>accessed_at := stamp\<rparr>) (entries s)) k' = Some e' \<and>
        accessed_at e' = a)" for a k'
  proof (cases "k' = k")
    case True
    then show ?thesis using e by (auto simp: bt_get_insert bt_get_remove d(4))
  next
    case False
    then show ?thesis
      using accessed_inj [OF ok e] older
      by (auto simp: bt_get_insert bt_get_remove d(4))
  qed
  have exp: "bt_get (expiry s) (t, st) = Some k' \<longleftrightarrow>
      (\<exists>e'. bt_get (bt_insert k (e\<lparr>accessed_at := stamp\<rparr>) (entries s)) k' = Some e' \<and>
        expires_at e' = t \<and> stored_at e' = st)" for t st k'
    using e by (auto simp: bt_get_insert d(5))
  have sum: "bytes s = bt_sum esize (bt_insert k (e\<lparr>accessed_at := stamp\<rparr>) (entries s))"
    using bt_sum_update [OF d(1) e, of esize "e\<lparr>accessed_at := stamp\<rparr>"] d(6) by simp
  have bound: "bt_get (bt_insert k (e\<lparr>accessed_at := stamp\<rparr>) (entries s)) k' = Some e' \<Longrightarrow>
      accessed_at e' \<le> stamp \<and> stored_at e' \<le> stamp" for k' e'
    using older older [OF e] by (auto simp: bt_get_insert split: if_splits)
  show ?thesis
    unfolding store_ok_def move_entry_def
    using d(1-3) rec exp sum bound by (simp add: rk)
qed

subsection \<open>The registry\<close>

lemma store_at_mem: "store_at r i = Some s \<Longrightarrow> s \<in> set (stores r)"
  by (auto simp: store_at_def split: if_splits)

lemma registry_ok_store: "registry_ok r \<Longrightarrow> store_at r i = Some s \<Longrightarrow> store_ok (access r) s"
  using store_at_mem by (auto simp: registry_ok_def)

lemma registry_ok_used: "registry_ok r \<Longrightarrow> used_bytes r = sum_list (map bytes (stores r))"
  by (simp add: registry_ok_def)

lemma sum_bytes_update:
  assumes "store_at r i = Some s"
  shows "sum_list (map bytes ((stores r)[i := s'])) + bytes s = sum_list (map bytes (stores r)) + bytes s'"
proof -
  have i: "i < length (stores r)" "stores r ! i = s"
    using assms by (auto simp: store_at_def split: if_splits)
  have "bytes s \<le> sum_list (map bytes (stores r))"
    using elem_le_sum_list [of i "map bytes (stores r)"] i by simp
  then show ?thesis
    using i by (simp add: map_update sum_list_update)
qed

lemma store_bytes_le:
  assumes "registry_ok r" "store_at r i = Some s"
  shows "bytes s \<le> used_bytes r"
proof -
  have "i < length (stores r)" "stores r ! i = s"
    using assms(2) by (auto simp: store_at_def split: if_splits)
  then show ?thesis
    using elem_le_sum_list [of i "map bytes (stores r)"] assms(1) by (simp add: registry_ok_used)
qed

lemma registry_ok_update:
  assumes ok: "registry_ok r" and s: "store_at r i = Some s" and s': "store_ok acc' s'"
    and acc: "access r \<le> acc'" and used: "used' + bytes s = used_bytes r + bytes s'"
    and r': "stores r' = (stores r)[i := s']" "used_bytes r' = used'" "access r' = acc'"
  shows "registry_ok r'"
proof -
  have "set (stores r') \<subseteq> {x. store_ok acc' x}"
    unfolding r'(1) using ok s' acc
    by (intro set_update_subsetI) (auto simp: registry_ok_def intro: store_ok_mono)
  then have "\<forall>x \<in> set (stores r'). store_ok acc' x" by blast
  moreover have "used' = sum_list (map bytes (stores r'))"
    using sum_bytes_update [OF s, of s'] used registry_ok_used [OF ok] r'(1) by simp
  ultimately show ?thesis by (simp add: registry_ok_def r')
qed

lemma evict_absent:
  "store_at r i = None \<or> (\<exists>s. store_at r i = Some s \<and> bt_get (entries s) k = None) \<Longrightarrow>
     evict i k c r = r"
  by (auto simp: evict_def)

lemma evict_ok [registry_intros]:
  assumes ok: "registry_ok r"
  shows "registry_ok (evict i k c r)"
proof (cases "\<exists>s e. store_at r i = Some s \<and> bt_get (entries s) k = Some e")
  case True
  then obtain s e where s: "store_at r i = Some s" and e: "bt_get (entries s) k = Some e" by blast
  have sok: "store_ok (access r) s" using ok s by (rule registry_ok_store)
  have "esize e \<le> bytes s"
    using bt_sum_member [OF e, of esize] store_okD(6) [OF sok] by simp
  then have "used_bytes r - esize e + bytes s = used_bytes r + bytes (drop_entry k e s)"
    using store_bytes_le [OF ok s] by (simp add: drop_entry_def)
  then show ?thesis
    using store_ok_drop [OF sok e]
    by (intro registry_ok_update [OF ok s, of "access r" "drop_entry k e s"
          "used_bytes r - esize e"]) (simp_all add: evict_def s e set_store_def)
next
  case False
  then have "evict i k c r = r"
    by (intro evict_absent) (metis not_None_eq)
  with ok show ?thesis by simp
qed

lemma next_access_ok [registry_intros]: "registry_ok r \<Longrightarrow> registry_ok (next_access r)"
  by (auto simp: registry_ok_def next_access_def intro: store_ok_mono)

lemma bump_ok [registry_intros]:
  assumes ok: "registry_ok r"
  shows "registry_ok (bump i h r)"
proof (cases "store_at r i")
  case None
  with ok show ?thesis by (simp add: bump_def)
next
  case (Some s)
  have "store_ok (access r) s" using ok Some by (rule registry_ok_store)
  then show ?thesis
    using Some
    by (intro registry_ok_update [OF ok Some, of "access r"
          "if h then s\<lparr>hits := hits s + 1\<rparr> else s\<lparr>misses := misses s + 1\<rparr>" "used_bytes r"])
       (simp_all add: bump_def set_store_def)
qed

text \<open>
  Popping the soonest expiry and then evicting its key is evicting that key: the index entry the
  eviction would remove is the one popped.
\<close>

lemma evict_pop:
  assumes ok: "registry_ok r" and s: "store_at r i = Some s" and x: "expiry s = x # xs"
  shows "evict i (snd x) c (pop_soonest i r) = evict i (snd x) c r"
    and "\<exists>e. bt_get (entries s) (snd x) = Some e \<and> (expires_at e, stored_at e) = fst x"
proof -
  have sok: "store_ok (access r) s" using ok s by (rule registry_ok_store)
  obtain t st k where xx: "x = ((t, st), k)" by (metis surj_pair)
  have "bt_get (expiry s) (t, st) = Some k" by (simp add: x xx)
  then obtain e where e: "bt_get (entries s) k = Some e" "expires_at e = t" "stored_at e = st"
    using store_okD(5) [OF sok] by blast
  then show "\<exists>e. bt_get (entries s) (snd x) = Some e \<and> (expires_at e, stored_at e) = fst x"
    by (simp add: xx)
  have "(t, st) \<notin> fst ` set xs"
    using store_okD(3) [OF sok] by (auto simp: x xx)
  then have "bt_remove (t, st) xs = xs"
    by (simp add: bt_get_None bt_remove_absent)
  then have "drop_entry k e (s\<lparr>expiry := xs\<rparr>) = drop_entry k e s"
    using e by (simp add: drop_entry_def x xx)
  then show "evict i (snd x) c (pop_soonest i r) = evict i (snd x) c r"
    using e s by (simp add: evict_def pop_soonest_def x xx store_at_Some_lt)
qed

lemma remove_expired_ok [registry_intros]: "registry_ok r \<Longrightarrow> registry_ok (remove_expired i now r)"
proof (induction i now r rule: remove_expired.induct)
  case (1 i now r)
  show ?case
  proof (cases "\<exists>s x xs. store_at r i = Some s \<and> expiry s = x # xs \<and> \<not> now < fst (fst x)")
    case True
    then obtain s x xs where s: "store_at r i = Some s" "expiry s = x # xs" "\<not> now < fst (fst x)"
      by blast
    have "registry_ok (evict i (snd x) False (pop_soonest i r))"
      using evict_pop(1) [OF "1.prems" s(1,2)] evict_ok [OF "1.prems"] by simp
    with "1.IH" s show ?thesis
      by (subst remove_expired.simps) simp
  next
    case False
    then have "remove_expired i now r = r"
      by (subst remove_expired.simps) (auto split: option.splits list.splits)
    with "1.prems" show ?thesis by simp
  qed
qed

lemma oldest_ok [registry_intros]: "registry_ok r \<Longrightarrow> registry_ok (snd (oldest i now r))"
  by (simp add: oldest_def Let_def remove_expired_ok)

lemma count_live_ok [registry_intros]: "registry_ok r \<Longrightarrow> registry_ok (snd (count_live i now r))"
  by (simp add: count_live_def Let_def remove_expired_ok)

lemma remove_all_expired_ok [registry_intros]:
  "registry_ok r \<Longrightarrow> registry_ok (remove_all_expired is now r)"
  by (induction "is" now r rule: remove_all_expired.induct) (simp_all add: remove_expired_ok)

lemma trim_rounds_ok: "registry_ok r \<Longrightarrow> registry_ok (trim_rounds n i now r)"
proof (induction n arbitrary: r)
  case 0
  then show ?case
    using oldest_ok [OF 0, of i now]
    by (subst trim_rounds.simps) (auto split: option.splits prod.splits)
next
  case (Suc n)
  obtain c r' where c: "oldest i now r = (c, r')" by force
  with oldest_ok [OF Suc.prems, of i now] have "registry_ok r'" by simp
  then show ?case
    using Suc c by (subst trim_rounds.simps) (auto split: option.splits intro: evict_ok)
qed

lemma trim_ok [registry_intros]: "registry_ok r \<Longrightarrow> registry_ok (trim_to_local_limits i now r)"
  by (simp add: trim_to_local_limits_def trim_rounds_ok)

lemma oldest_candidate_ok [registry_intros]:
  "registry_ok r \<Longrightarrow> registry_ok (snd (oldest_candidate is now r))"
proof (induction "is" now r rule: oldest_candidate.induct)
  case (1 now r)
  then show ?case by simp
next
  case (2 i "is" now r)
  show ?case
    using 2 oldest_ok [OF "2.prems", of i now]
    by (fastforce split: prod.splits option.splits)
qed

lemma capacity_rounds_ok: "registry_ok r \<Longrightarrow> registry_ok (capacity_rounds n now r)"
proof (induction n now r rule: capacity_rounds.induct)
  case (1 now r)
  then show ?case by simp
next
  case (2 n now r)
  let ?r1 = "remove_all_expired [0..<length (stores r)] now r"
  have r1: "registry_ok ?r1"
    using "2.prems" by (rule remove_all_expired_ok)
  obtain c r2 where c: "oldest_candidate [0..<length (stores r)] now ?r1 = (c, r2)"
    by force
  with oldest_candidate_ok [OF r1, of "[0..<length (stores r)]" now] have r2: "registry_ok r2"
    by simp
  show ?case
    using 2 r1 c evict_ok [OF r2]
    by (subst capacity_rounds.simps) (auto simp: Let_def r2 split: option.splits)
qed

lemma ensure_capacity_ok [registry_intros]: "registry_ok r \<Longrightarrow> registry_ok (ensure_capacity now r)"
  by (simp add: ensure_capacity_def capacity_rounds_ok)

lemma evict_absent_after:
  assumes "store_at (evict i k c r) i = Some s" and "registry_ok r"
  shows "bt_get (entries s) k = None"
  using assms
  by (auto simp: evict_def drop_entry_def bt_get_remove dest: store_at_Some_lt
      split: option.splits if_splits)

lemma store_entry_ok:
  assumes ok: "registry_ok r" and s: "store_at r i = Some s"
    and fresh: "bt_get (entries s) k = None"
    and e: "accessed_at e = Suc (access r)" "stored_at e = Suc (access r)"
  shows "registry_ok (store_entry i k e s (next_access r))"
proof -
  have "store_ok (Suc (access r)) (add_entry k e s)"
    using registry_ok_store [OF ok s] fresh e by (intro store_ok_add) auto
  then show ?thesis
    by (intro registry_ok_update [OF ok s, of "Suc (access r)" "add_entry k e s"
          "used_bytes r + esize e"])
       (simp_all add: store_entry_def next_access_def add_entry_def set_store_def)
qed

lemma dropped_ok [simp]: "registry_ok (r\<lparr>dropped := d\<rparr>) = registry_ok r"
  by (simp add: registry_ok_def)

lemma cache_set_ok [registry_intros]:
  assumes ok: "registry_ok r"
  shows "registry_ok (cache_set i key pl sz ttl now r)"
proof -
  let ?r1 = "evict i key False r"
  have r1: "registry_ok ?r1" using ok by (rule evict_ok)
  show ?thesis
  proof (cases "store_at ?r1 i")
    case None
    then show ?thesis
      using next_access_ok [OF r1] by (simp add: cache_set_def Let_def next_access_def)
  next
    case (Some s)
    have "bt_get (entries s) key = None"
      using Some ok by (rule evict_absent_after)
    from store_entry_ok [OF r1 Some this, of "\<lparr>payload = pl, esize = sz, expires_at = now + ttl,
        stored_at = Suc (access ?r1), accessed_at = Suc (access ?r1)\<rparr>"]
    show ?thesis
      using Some
      by (simp add: cache_set_def Let_def next_access_def
          ensure_capacity_ok trim_ok remove_expired_ok)
  qed
qed

lemma new_registry_ok [registry_intros]: "registry_ok (new_registry limit)"
proof -
  have "sum_list (map bytes (map empty_store ls)) = 0" for ls
    by (induction ls) (simp_all add: empty_store_def)
  then show ?thesis
    unfolding registry_ok_def new_registry_def
    by (simp add: sum_list_0 comp_def) (simp add: empty_store_def)
qed

lemma cache_get_ok [registry_intros]:
  assumes ok: "registry_ok r"
  shows "registry_ok (snd (cache_get i key now r))"
proof -
  let ?r1 = "bump i True (next_access r)"
  have r1: "registry_ok ?r1" using ok by (intro bump_ok next_access_ok)
  have acc: "access ?r1 = Suc (access r)"
    by (simp add: bump_def next_access_def split: option.splits)
  have moved: "registry_ok (set_store i (move_entry key (access ?r1) e s) ?r1)"
    if s: "store_at ?r1 i = Some s" and e: "bt_get (entries s) key = Some e" for s e
  proof -
    obtain s0 where s0: "store_at r i = Some s0"
      using s by (auto simp: bump_def next_access_def split: option.splits if_splits)
    then have "store_ok (access r) s"
      using s registry_ok_store [OF ok s0]
      by (auto simp: bump_def next_access_def store_at_Some_lt split: if_splits)
    from store_ok_move [OF this e, of "access ?r1"] acc
    have "store_ok (access ?r1) (move_entry key (access ?r1) e s)" by simp
    then show ?thesis
      by (intro registry_ok_update [OF r1 s, of "access ?r1" "move_entry key (access ?r1) e s"
            "used_bytes ?r1"]) (simp_all add: move_entry_def set_store_def)
  qed
  show ?thesis
    using moved r1 evict_ok [OF ok] bump_ok [OF ok] bump_ok [OF evict_ok [OF ok]]
    by (auto simp: cache_get_def Let_def split: option.splits)
qed

lemma fold_evict_ok: "registry_ok r \<Longrightarrow> registry_ok (fold (\<lambda>k. evict i k c) ks r)"
  by (induction ks arbitrary: r) (simp_all add: evict_ok)

lemma cache_flush_ok [registry_intros]: "registry_ok r \<Longrightarrow> registry_ok (cache_flush i r)"
  by (simp add: cache_flush_def fold_evict_ok split: option.splits)

subsection \<open>What the operations do to the stored entries\<close>

text \<open>\<open>view\<close> is the abstraction: the entry a cache holds under a key.\<close>

definition view :: "registry \<Rightarrow> nat \<Rightarrow> string \<Rightarrow> entry option" where
  "view r i k = (case store_at r i of None \<Rightarrow> None | Some s \<Rightarrow> bt_get (entries s) k)"

definition total_entries :: "registry \<Rightarrow> nat" where
  "total_entries r = sum_list (map (\<lambda>s. length (entries s)) (stores r))"

lemma view_dropped [simp]: "view (r\<lparr>dropped := d\<rparr>) = view r"
  by (simp add: view_def fun_eq_iff)

lemma view_evict:
  "view (evict i k c r) j k' = (if j = i \<and> k' = k then None else view r j k')"
  by (auto simp: view_def evict_def drop_entry_def bt_get_remove dest: store_at_Some_lt
      split: option.splits)

lemma length_stores_evict [simp]: "length (stores (evict i k c r)) = length (stores r)"
  by (simp add: evict_def split: option.splits)

lemma limit_evict [simp]: "limit_bytes (evict i k c r) = limit_bytes r"
  by (simp add: evict_def split: option.splits)

lemma access_evict [simp]: "access (evict i k c r) = access r"
  by (simp add: evict_def split: option.splits)

lemma slimits_evict:
  "store_at (evict i k c r) j = Some s' \<Longrightarrow> \<exists>s. store_at r j = Some s \<and> slimits s = slimits s'"
  by (auto simp: evict_def drop_entry_def dest: store_at_Some_lt split: option.splits if_splits)

lemma evict_amounts:
  assumes ok: "registry_ok r" and v: "view r i k = Some e"
  shows "used_bytes (evict i k c r) + esize e = used_bytes r"
    and "Suc (total_entries (evict i k c r)) = total_entries r"
proof -
  obtain s where s: "store_at r i = Some s" and e: "bt_get (entries s) k = Some e"
    using v by (auto simp: view_def split: option.splits)
  have sok: "store_ok (access r) s" using ok s by (rule registry_ok_store)
  have "esize e \<le> bytes s"
    using bt_sum_member [OF e, of esize] store_okD(6) [OF sok] by simp
  then show "used_bytes (evict i k c r) + esize e = used_bytes r"
    using store_bytes_le [OF ok s] by (simp add: evict_def s e)
  have i: "i < length (stores r)" "stores r ! i = s"
    using s by (auto simp: store_at_def split: if_splits)
  have "length (entries s) \<le> total_entries r"
    using elem_le_sum_list [of i "map (\<lambda>s. length (entries s)) (stores r)"] i
    by (simp add: total_entries_def)
  moreover have "Suc (length (entries (drop_entry k e s))) = length (entries s)"
    using length_bt_remove [OF store_okD(1) [OF sok] e] by (simp add: drop_entry_def)
  ultimately show "Suc (total_entries (evict i k c r)) = total_entries r"
    using i by (simp add: evict_def s e set_store_def total_entries_def map_update sum_list_update)
qed

lemma soonest_due:
  assumes ok: "registry_ok r" and s: "store_at r i = Some s" "expiry s = x # xs"
  shows "\<exists>e. view r i (snd x) = Some e \<and> expires_at e = fst (fst x)"
  using evict_pop(2) [OF ok s] s(1) by (auto simp: view_def prod_eq_iff)

lemma none_due:
  assumes ok: "registry_ok r" and v: "view r i k = Some e"
    and no: "\<And>s x xs. store_at r i = Some s \<Longrightarrow> expiry s = x # xs \<Longrightarrow> now < fst (fst x)"
  shows "now < expires_at e"
proof -
  obtain s where s: "store_at r i = Some s" and e: "bt_get (entries s) k = Some e"
    using v by (auto simp: view_def split: option.splits)
  have sok: "store_ok (access r) s" using ok s by (rule registry_ok_store)
  have x: "bt_get (expiry s) (expires_at e, stored_at e) = Some k"
    using e by (simp add: store_okD(5) [OF sok])
  then obtain y ys where y: "expiry s = y # ys" by (cases "expiry s") auto
  have "fst y \<le> (expires_at e, stored_at e)"
    using bt_first_least [of "fst y" "snd y" ys "(expires_at e, stored_at e)" k]
      store_okD(3) [OF sok] x y by simp
  then have "fst (fst y) \<le> expires_at e"
    by (cases "fst y") auto
  with no [OF s y] show ?thesis by simp
qed

text \<open>Dropping expired entries is a run of evictions of entries past their time, to the last.\<close>

lemma remove_expired_rule:
  assumes "registry_ok r" and "P r"
    and "\<And>r k e. registry_ok r \<Longrightarrow> P r \<Longrightarrow> view r i k = Some e \<Longrightarrow> expires_at e \<le> now \<Longrightarrow>
           P (evict i k False r)"
  shows "P (remove_expired i now r) \<and>
     (\<forall>k e. view (remove_expired i now r) i k = Some e \<longrightarrow> now < expires_at e)"
  using assms
proof (induction i now r rule: remove_expired.induct)
  case (1 i now r)
  show ?case
  proof (cases "\<exists>s x xs. store_at r i = Some s \<and> expiry s = x # xs \<and> \<not> now < fst (fst x)")
    case True
    then obtain s x xs where s: "store_at r i = Some s" "expiry s = x # xs" "\<not> now < fst (fst x)"
      by blast
    obtain e where e: "view r i (snd x) = Some e" "expires_at e = fst (fst x)"
      using soonest_due [OF "1.prems"(1) s(1,2)] by blast
    have same: "evict i (snd x) False (pop_soonest i r) = evict i (snd x) False r"
      by (rule evict_pop(1) [OF "1.prems"(1) s(1,2)])
    have "P (evict i (snd x) False r)"
      using "1.prems"(3) [OF "1.prems"(1,2) e(1)] e(2) s(3) by simp
    then have "P (remove_expired i now (evict i (snd x) False r)) \<and>
       (\<forall>k e. view (remove_expired i now (evict i (snd x) False r)) i k = Some e \<longrightarrow>
          now < expires_at e)"
      using "1.IH" [OF s] "1.prems"(3) evict_ok [OF "1.prems"(1)] by (simp add: same)
    then show ?thesis
      using s same by (subst (1 2) remove_expired.simps) simp
  next
    case False
    then have "remove_expired i now r = r"
      by (subst remove_expired.simps) (auto split: option.splits list.splits)
    moreover have "now < expires_at e" if "view r i k = Some e" for k e
      using none_due [OF "1.prems"(1) that] False by blast
    ultimately show ?thesis using "1.prems"(2) by simp
  qed
qed

lemma remove_expired_id:
  assumes ok: "registry_ok r" and live: "\<And>k e. view r i k = Some e \<Longrightarrow> now < expires_at e"
  shows "remove_expired i now r = r"
proof -
  have "now < fst (fst x)" if "store_at r i = Some s" "expiry s = x # xs" for s x xs
    using soonest_due [OF ok that] live by metis
  then show ?thesis
    by (subst remove_expired.simps) (auto split: option.splits list.splits)
qed

lemma view_remove_expired:
  assumes ok: "registry_ok r"
  shows "view (remove_expired i now r) j k =
     (if j = i then opt_filter (\<lambda>e. now < expires_at e) (view r j k) else view r j k)"
proof (rule opt_eqI)
  fix e
  let ?P = "\<lambda>r'. (view r' j k = Some e \<longrightarrow> view r j k = Some e) \<and>
     (view r j k = Some e \<and> (j \<noteq> i \<or> now < expires_at e) \<longrightarrow> view r' j k = Some e)"
  have P: "?P (remove_expired i now r) \<and>
     (\<forall>k e. view (remove_expired i now r) i k = Some e \<longrightarrow> now < expires_at e)"
  proof (rule remove_expired_rule [OF ok, where P = ?P])
    fix r' k' e'
    assume a: "?P r'" "view r' i k' = Some e'" "expires_at e' \<le> now"
    show "?P (evict i k' False r')"
    proof (cases "j = i \<and> k = k'")
      case True
      then have "view (evict i k' False r') j k \<noteq> Some e" by (simp add: view_evict)
      moreover have "\<not> (view r j k = Some e \<and> (j \<noteq> i \<or> now < expires_at e))"
      proof (rule notI)
        assume h: "view r j k = Some e \<and> (j \<noteq> i \<or> now < expires_at e)"
        with a(1) True have "view r' i k' = Some e" by simp
        with a(2,3) h True show False by simp
      qed
      ultimately show ?thesis by blast
    next
      case False
      then have "view (evict i k' False r') j k = view r' j k" by (auto simp: view_evict)
      with a(1) show ?thesis by simp
    qed
  qed simp
  show "(view (remove_expired i now r) j k = Some e) =
     ((if j = i then opt_filter (\<lambda>e. now < expires_at e) (view r j k) else view r j k) = Some e)"
  proof (cases "j = i")
    case True
    with P show ?thesis by auto
  next
    case False
    with P show ?thesis by auto
  qed
qed

lemma remove_expired_frame:
  assumes ok: "registry_ok r"
  shows "used_bytes (remove_expired i now r) \<le> used_bytes r"
    and "total_entries (remove_expired i now r) \<le> total_entries r"
    and "limit_bytes (remove_expired i now r) = limit_bytes r"
    and "access (remove_expired i now r) = access r"
    and "length (stores (remove_expired i now r)) = length (stores r)"
    and "\<And>s'. store_at (remove_expired i now r) j = Some s' \<Longrightarrow>
           \<exists>s. store_at r j = Some s \<and> slimits s = slimits s'"
proof -
  let ?P = "\<lambda>r'. used_bytes r' \<le> used_bytes r \<and> total_entries r' \<le> total_entries r \<and>
     limit_bytes r' = limit_bytes r \<and> access r' = access r \<and>
     length (stores r') = length (stores r) \<and>
     (\<forall>j s'. store_at r' j = Some s' \<longrightarrow> (\<exists>s. store_at r j = Some s \<and> slimits s = slimits s'))"
  have "?P (remove_expired i now r) \<and>
     (\<forall>k e. view (remove_expired i now r) i k = Some e \<longrightarrow> now < expires_at e)"
  proof (rule remove_expired_rule [OF ok])
    fix r' k e
    assume a: "registry_ok r'" "?P r'" "view r' i k = Some e" "expires_at e \<le> now"
    then have "used_bytes (evict i k False r') \<le> used_bytes r'"
      "total_entries (evict i k False r') \<le> total_entries r'"
      using evict_amounts [OF a(1,3), of False] by simp_all
    with a(2) show "?P (evict i k False r')"
      by (fastforce dest: slimits_evict)
  qed simp
  then show "used_bytes (remove_expired i now r) \<le> used_bytes r"
    and "total_entries (remove_expired i now r) \<le> total_entries r"
    and "limit_bytes (remove_expired i now r) = limit_bytes r"
    and "access (remove_expired i now r) = access r"
    and "length (stores (remove_expired i now r)) = length (stores r)"
    and "\<And>s'. store_at (remove_expired i now r) j = Some s' \<Longrightarrow>
           \<exists>s. store_at r j = Some s \<and> slimits s = slimits s'"
    by blast+
qed

end
