(* ===== verification/MemCache_LRU.thy ===== *)
theory MemCache_LRU
  imports MemCache_Inv
begin

section \<open>Least recently used, within budget\<close>

text \<open>
  Which entry the two trimming loops evict, when they stop, and what is left: the victim is the
  entry with the least access stamp over every store, the loops leave the store within its own
  limits and the registry within the shared budget, and an insert never evicts the entry it just
  made unless that entry alone exceeds a limit.
\<close>

lemma view_store: "store_at r i = Some s \<Longrightarrow> view r i k = bt_get (entries s) k"
  by (simp add: view_def)

lemma entries_empty_iff:
  assumes "store_at r i = Some s"
  shows "entries s = [] \<longleftrightarrow> (\<forall>k. view r i k = None)"
proof
  assume "\<forall>k. view r i k = None"
  then show "entries s = []"
    using assms by (cases "entries s") (auto simp: view_store [OF assms], metis option.distinct(1))
qed (simp add: view_store [OF assms])

lemma oldest_registry: "snd (oldest i now r) = remove_expired i now r"
  by (simp add: oldest_def Let_def)

lemma oldest_None:
  assumes ok: "registry_ok r" and o: "oldest i now r = (None, r')"
  shows "view r' i k = None"
proof (cases "store_at r' i")
  case None
  then show ?thesis by (simp add: view_def)
next
  case (Some s)
  have r': "r' = remove_expired i now r" using o oldest_registry [of i now r] by simp
  then have sok: "store_ok (access r') s"
    using remove_expired_ok [OF ok] Some by (blast intro: registry_ok_store)
  have "recency s = []"
    using o Some r' by (simp add: oldest_def Let_def split: list.splits)
  then have "\<nexists>e. bt_get (entries s) k = Some e"
    using store_okD(4) [OF sok] by (metis bt_get_Nil option.distinct(1))
  then show ?thesis using Some by (simp add: view_def)
qed

lemma oldest_Some:
  assumes ok: "registry_ok r" and o: "oldest i now r = (Some (a, k), r')"
  shows "\<exists>e. view r' i k = Some e \<and> accessed_at e = a"
    and "view r' i k' = Some e' \<Longrightarrow> a \<le> accessed_at e'"
proof -
  have r': "r' = remove_expired i now r" using o oldest_registry [of i now r] by simp
  obtain s xs where s: "store_at r' i = Some s" and x: "recency s = (a, k) # xs"
    using o r' by (auto simp: oldest_def Let_def split: list.splits option.splits)
  have sok: "store_ok (access r') s"
    using remove_expired_ok [OF ok] s r' by (blast intro: registry_ok_store)
  have "bt_get (recency s) a = Some k" by (simp add: x)
  then show "\<exists>e. view r' i k = Some e \<and> accessed_at e = a"
    using store_okD(4) [OF sok] s by (simp add: view_def)
  assume "view r' i k' = Some e'"
  then have "bt_get (recency s) (accessed_at e') = Some k'"
    using store_okD(4) [OF sok] s by (auto simp: view_def)
  then show "a \<le> accessed_at e'"
    using bt_first_least [of a k xs] store_okD(2) [OF sok] x by metis
qed

subsection \<open>The candidate over all stores\<close>

definition all_live :: "nat \<Rightarrow> registry \<Rightarrow> bool" where
  "all_live now r \<longleftrightarrow> (\<forall>i k e. view r i k = Some e \<longrightarrow> now < expires_at e)"

lemma remove_expired_live: "registry_ok r \<Longrightarrow> all_live now r \<Longrightarrow> remove_expired i now r = r"
  by (rule remove_expired_id) (auto simp: all_live_def)

lemma view_remove_all_expired:
  "registry_ok r \<Longrightarrow> view (remove_all_expired is now r) j k =
     (if j \<in> set is then opt_filter (\<lambda>e. now < expires_at e) (view r j k) else view r j k)"
proof (induction "is" now r rule: remove_all_expired.induct)
  case (1 now r)
  then show ?case by simp
next
  case (2 i "is" now r)
  then show ?case
    by (cases "view r j k") (auto simp: remove_expired_ok view_remove_expired)
qed

lemma remove_all_expired_frame:
  assumes "registry_ok r"
  shows "used_bytes (remove_all_expired is now r) \<le> used_bytes r \<and>
    total_entries (remove_all_expired is now r) \<le> total_entries r \<and>
    limit_bytes (remove_all_expired is now r) = limit_bytes r \<and>
    length (stores (remove_all_expired is now r)) = length (stores r)"
  using assms
proof (induction "is" now r rule: remove_all_expired.induct)
  case (1 now r)
  then show ?case by simp
next
  case (2 i "is" now r)
  then show ?case
    using remove_expired_frame [OF "2.prems", where i = i and now = now] remove_expired_ok
    by fastforce
qed

lemma view_in_range: "view r i k = Some e \<Longrightarrow> i < length (stores r)"
  by (auto simp: view_def store_at_def split: option.splits if_splits)

lemma all_live_after:
  assumes ok: "registry_ok r" and n: "n = length (stores r)"
  shows "all_live now (remove_all_expired [0..<n] now r)"
  unfolding all_live_def
proof (intro allI impI)
  fix i k e
  assume v: "view (remove_all_expired [0..<n] now r) i k = Some e"
  have "i < n"
    using view_in_range [OF v] remove_all_expired_frame [OF ok, of "[0..<n]" now] n by simp
  with v show "now < expires_at e"
    by (simp add: view_remove_all_expired [OF ok])
qed

lemma oldest_candidate_live:
  assumes "registry_ok r" "all_live now r"
  shows "snd (oldest_candidate is now r) = r"
  using assms
proof (induction "is" now r rule: oldest_candidate.induct)
  case (1 now r)
  then show ?case by simp
next
  case (2 i "is" now r)
  have "snd (oldest i now r) = r"
    using "2.prems" by (simp add: oldest_registry remove_expired_live)
  then obtain c where "oldest i now r = (c, r)" by (metis prod.collapse)
  with 2 show ?case
    by (fastforce split: option.splits prod.splits)
qed

lemma oldest_candidate_None:
  assumes "registry_ok r" "all_live now r" "fst (oldest_candidate is now r) = None" "i \<in> set is"
  shows "view r i k = None"
  using assms
proof (induction "is")
  case Nil
  then show ?case by simp
next
  case (Cons j "is")
  have "snd (oldest j now r) = r"
    using Cons.prems by (simp add: oldest_registry remove_expired_live)
  then obtain c where c: "oldest j now r = (c, r)" by (metis prod.collapse)
  have cn: "c = None" "fst (oldest_candidate is now r) = None"
    using Cons.prems(3) c by (auto split: option.splits prod.splits if_splits)
  with Cons oldest_None [OF Cons.prems(1), of j now r] c show ?case by auto
qed

lemma oldest_candidate_Some:
  assumes "registry_ok r" "all_live now r"
    and "fst (oldest_candidate is now r) = Some (a, i, k)"
  shows "i \<in> set is \<and> (\<exists>e. view r i k = Some e \<and> accessed_at e = a) \<and>
    (\<forall>j \<in> set is. \<forall>k' e'. view r j k' = Some e' \<longrightarrow> a \<le> accessed_at e')"
  using assms
proof (induction "is" arbitrary: a i k)
  case Nil
  then show ?case by simp
next
  case (Cons j "is")
  have "snd (oldest j now r) = r"
    using Cons.prems by (simp add: oldest_registry remove_expired_live)
  then obtain c where c: "oldest j now r = (c, r)" by (metis prod.collapse)
  have rest: "snd (oldest_candidate is now r) = r"
    by (rule oldest_candidate_live [OF Cons.prems(1,2)])
  then obtain d where d: "oldest_candidate is now r = (d, r)" by (metis prod.collapse)
  show ?case
  proof (cases c)
    case None
    then have "fst (oldest_candidate is now r) = Some (a, i, k)"
      using Cons.prems(3) c by simp
    then show ?thesis
      using Cons.IH [OF Cons.prems(1,2)] oldest_None [OF Cons.prems(1), of j now r] c None by auto
  next
    case (Some b)
    obtain b1 b2 where b: "b = (b1, b2)" by force
    note o = oldest_Some [OF Cons.prems(1) c [unfolded Some b]]
    show ?thesis
    proof (cases d)
      case None
      then have "\<forall>j' \<in> set is. \<forall>k'. view r j' k' = None"
        using oldest_candidate_None [OF Cons.prems(1,2), of "is"] d None by auto
      then show ?thesis
        using o Cons.prems(3) c Some b d None by auto
    next
      case (Some x)
      obtain x1 x2 x3 where x: "x = (x1, x2, x3)" using prod_cases3 by blast
      have IH: "x2 \<in> set is \<and> (\<exists>e. view r x2 x3 = Some e \<and> accessed_at e = x1) \<and>
        (\<forall>j \<in> set is. \<forall>k' e'. view r j k' = Some e' \<longrightarrow> x1 \<le> accessed_at e')"
        using Cons.IH [OF Cons.prems(1,2)] d Some x by simp
      show ?thesis
      proof (cases "b1 \<le> x1")
        case True
        then have "a = b1" "i = j" "k = b2"
          using Cons.prems(3) c \<open>c = Some b\<close> b d Some x by auto
        moreover have "b1 \<le> accessed_at e'" if "j' \<in> set is" "view r j' k' = Some e'" for j' k' e'
          using IH that True by (meson order_trans)
        ultimately show ?thesis using o by auto
      next
        case False
        then have "a = x1" "i = x2" "k = x3"
          using Cons.prems(3) c \<open>c = Some b\<close> b d Some x by auto
        moreover have "x1 \<le> accessed_at e'" if "view r j k' = Some e'" for k' e'
          using o(2) [OF that] False by simp
        ultimately show ?thesis using IH by auto
      qed
    qed
  qed
qed

subsection \<open>The shared budget\<close>

definition sized :: "registry \<Rightarrow> bool" where
  "sized r \<longleftrightarrow> (\<forall>i k e. view r i k = Some e \<longrightarrow> 0 < esize e)"

lemma no_entries_used:
  assumes ok: "registry_ok r" and none: "\<And>i k. view r i k = None"
  shows "used_bytes r = 0"
proof -
  have "bytes s = 0" if "s \<in> set (stores r)" for s
  proof -
    from that obtain i where "i < length (stores r)" "stores r ! i = s"
      by (auto simp: in_set_conv_nth)
    then have i: "store_at r i = Some s" by (simp add: store_at_def)
    then have "entries s = []" using none by (simp add: entries_empty_iff)
    then show ?thesis using store_okD(6) [OF registry_ok_store [OF ok i]] by simp
  qed
  then have "sum_list (map bytes (stores r)) = 0" by (simp add: sum_list_eq_0_iff)
  then show ?thesis by (simp add: registry_ok_used [OF ok])
qed

text \<open>One round of \<open>ensure_capacity\<close> that evicts: its candidate and what it leaves.\<close>

lemma capacity_round:
  assumes ok: "registry_ok r" and over: "limit_bytes r < used_bytes r"
    and r1: "r1 = remove_all_expired [0..<length (stores r)] now r"
    and still: "limit_bytes r < used_bytes r1"
  obtains a i k e where
    "oldest_candidate [0..<length (stores r)] now r1 = (Some (a, i, k), r1)"
    "view r1 i k = Some e" "accessed_at e = a"
    "\<And>j k' e'. view r1 j k' = Some e' \<Longrightarrow> a \<le> accessed_at e'"
    "registry_ok r1" "all_live now r1"
proof -
  let ?ix = "[0..<length (stores r)]"
  have ok1: "registry_ok r1" using ok r1 by (simp add: remove_all_expired_ok)
  have live: "all_live now r1" using ok r1 by (simp add: all_live_after)
  have len: "length (stores r1) = length (stores r)"
    using remove_all_expired_frame [OF ok, of ?ix now] r1 by simp
  have mem: "j \<in> set ?ix" if "view r1 j k' = Some e'" for j k' e'
    using view_in_range [OF that] len by simp
  have r2: "snd (oldest_candidate ?ix now r1) = r1"
    by (rule oldest_candidate_live [OF ok1 live])
  have "fst (oldest_candidate ?ix now r1) \<noteq> None"
  proof
    assume n: "fst (oldest_candidate ?ix now r1) = None"
    have "view r1 j k' = None" for j k'
      using oldest_candidate_None [OF ok1 live n, of j k'] mem by (metis not_None_eq)
    then have "used_bytes r1 = 0" by (rule no_entries_used [OF ok1])
    with still show False by simp
  qed
  then obtain a i k where c: "fst (oldest_candidate ?ix now r1) = Some (a, i, k)"
    by (metis not_None_eq prod_cases3)
  note s = oldest_candidate_Some [OF ok1 live c]
  from s obtain e where e: "view r1 i k = Some e" "accessed_at e = a" by blast
  show ?thesis
  proof (rule that [of a i k e])
    show "oldest_candidate ?ix now r1 = (Some (a, i, k), r1)"
      using c r2 by (metis prod.collapse)
    show "\<And>j k' e'. view r1 j k' = Some e' \<Longrightarrow> a \<le> accessed_at e'"
      using s mem by blast
  qed (use e ok1 live in auto)
qed

lemma sized_sub: "sized r \<Longrightarrow> (\<And>i k e. view r' i k = Some e \<Longrightarrow> view r i k = Some e) \<Longrightarrow> sized r'"
  unfolding sized_def by blast

lemma capacity_bound:
  assumes "registry_ok r" "sized r" "total_entries r \<le> n"
  shows "used_bytes (capacity_rounds n now r) \<le> limit_bytes r"
  using assms
proof (induction n arbitrary: r)
  case 0
  have "view r i k = None" for i k
  proof (rule ccontr)
    assume "view r i k \<noteq> None"
    then obtain e where "view r i k = Some e" by blast
    from evict_amounts(2) [OF "0.prems"(1) this] "0.prems"(3) show False by simp
  qed
  then have "used_bytes r = 0" by (rule no_entries_used [OF "0.prems"(1)])
  then show ?case by simp
next
  case (Suc n)
  let ?r1 = "remove_all_expired [0..<length (stores r)] now r"
  have fr: "total_entries ?r1 \<le> total_entries r" "used_bytes ?r1 \<le> used_bytes r"
    "limit_bytes ?r1 = limit_bytes r"
    using remove_all_expired_frame [OF Suc.prems(1), of "[0..<length (stores r)]" now] by simp_all
  show ?case
  proof (cases "used_bytes r \<le> limit_bytes r \<or> used_bytes ?r1 \<le> limit_bytes r")
    case True
    then show ?thesis
      using fr by (subst capacity_rounds.simps) (auto simp: Let_def)
  next
    case False
    then obtain a i k e where c:
      "oldest_candidate [0..<length (stores r)] now ?r1 = (Some (a, i, k), ?r1)"
      "view ?r1 i k = Some e" "registry_ok ?r1"
      using capacity_round [OF Suc.prems(1) _ refl, of now] by (metis not_le)
    let ?r3 = "evict i k True ?r1"
    have "sized ?r1"
      by (rule sized_sub [OF Suc.prems(2)])
         (auto simp: view_remove_all_expired [OF Suc.prems(1)] split: if_splits)
    then have pos: "0 < esize e" and sz: "sized ?r3"
      using c(2) by (auto simp: sized_def view_evict)
    note am = evict_amounts [OF c(3,2), of True]
    have "used_bytes ?r3 < used_bytes r" using am(1) pos fr(2) by simp
    moreover have "total_entries ?r3 \<le> n" using am(2) fr(1) Suc.prems(3) by simp
    ultimately show ?thesis
      using False c Suc.IH [OF evict_ok [OF c(3)] sz] fr
      by (subst capacity_rounds.simps) (simp add: Let_def)
  qed
qed

subsection \<open>The store's own limits\<close>

lemma entry_count_remove_expired:
  assumes ok: "registry_ok r"
  shows "entry_count (remove_expired i now r) i \<le> entry_count r i"
proof -
  have "entry_count (remove_expired i now r) i \<le> entry_count r i \<and>
     (\<forall>k e. view (remove_expired i now r) i k = Some e \<longrightarrow> now < expires_at e)"
    by (rule remove_expired_rule [OF ok, where P = "\<lambda>r'. entry_count r' i \<le> entry_count r i"])
       (auto intro: evict_counts(1) [THEN order_trans])
  then show ?thesis ..
qed

lemma empty_not_over:
  assumes "store_ok acc s" "entries s = []"
  shows "\<not> over_local_limits s"
  using assms store_okD(6) [OF assms(1)]
  by (simp add: over_local_limits_def split: option.splits)

lemma trim_rounds_within:
  assumes "registry_ok r" "entry_count r i \<le> n"
    and "store_at (trim_rounds n i now r) i = Some s"
  shows "\<not> over_local_limits s"
  using assms
proof (induction n arbitrary: r)
  case 0
  show ?case
  proof (cases "store_at r i")
    case None
    then have "trim_rounds 0 i now r = r" by (subst trim_rounds.simps) simp
    with None "0.prems"(3) show ?thesis by simp
  next
    case (Some s0)
    then have "entries s0 = []" using "0.prems"(2) by (simp add: entry_count_def)
    then have n: "\<not> over_local_limits s0"
      using registry_ok_store [OF "0.prems"(1) Some] by (rule empty_not_over [rotated])
    then have "trim_rounds 0 i now r = r" using Some by (subst trim_rounds.simps) simp
    with Some n "0.prems"(3) show ?thesis by simp
  qed
next
  case (Suc n)
  show ?case
  proof (cases "\<exists>s0. store_at r i = Some s0 \<and> over_local_limits s0")
    case False
    then have "trim_rounds (Suc n) i now r = r"
      by (subst trim_rounds.simps) (auto split: option.splits)
    with False Suc.prems(3) show ?thesis by auto
  next
    case True
    then obtain s0 where s0: "store_at r i = Some s0" "over_local_limits s0" by blast
    obtain c r' where c: "oldest i now r = (c, r')" by force
    have r': "r' = remove_expired i now r" using c oldest_registry [of i now r] by simp
    have ok': "registry_ok r'" using Suc.prems(1) r' by (simp add: remove_expired_ok)
    show ?thesis
    proof (cases c)
      case None
      then have "trim_rounds (Suc n) i now r = r'"
        using s0 c by (subst trim_rounds.simps) simp
      then have s: "store_at r' i = Some s" using Suc.prems(3) by simp
      have "entries s = []"
        using oldest_None [OF Suc.prems(1)] c None s by (simp add: entries_empty_iff)
      then show ?thesis by (rule empty_not_over [OF registry_ok_store [OF ok' s]])
    next
      case (Some x)
      obtain a k where x: "x = (a, k)" by force
      have "\<exists>e. view r' i k = Some e"
        using oldest_Some(1) [OF Suc.prems(1)] c Some x by blast
      then obtain s' e where s': "store_at r' i = Some s'" "bt_get (entries s') k = Some e"
        by (auto simp: view_def split: option.splits)
      have "entry_count (evict i k True r') i \<le> n"
        using evict_entry_dec [OF s'] entry_count_remove_expired [OF Suc.prems(1), of i now]
          Suc.prems(2) r' by (metis less_Suc_eq_le order.strict_trans1 order_less_le_trans)
      moreover have "trim_rounds (Suc n) i now r = trim_rounds n i now (evict i k True r')"
        using s0 c Some x by (subst trim_rounds.simps) simp
      ultimately show ?thesis
        using Suc.IH [OF evict_ok [OF ok']] Suc.prems(3) by metis
    qed
  qed
qed

lemma trim_within:
  "registry_ok r \<Longrightarrow> store_at (trim_to_local_limits i now r) i = Some s \<Longrightarrow> \<not> over_local_limits s"
  unfolding trim_to_local_limits_def by (rule trim_rounds_within) auto

text \<open>Evicting keeps a store within its limits, so the shared trimming does not break them.\<close>

lemma over_limits_drop:
  "over_local_limits (drop_entry k e s) \<Longrightarrow> over_local_limits s"
  using length_bt_remove_le [of k "entries s"]
  by (auto simp: over_local_limits_def drop_entry_def split: option.splits)

definition fits :: "nat \<Rightarrow> registry \<Rightarrow> bool" where
  "fits i r \<longleftrightarrow> (\<forall>s. store_at r i = Some s \<longrightarrow> \<not> over_local_limits s)"

lemma fits_evict: "fits i r \<Longrightarrow> fits i (evict j k c r)"
  unfolding fits_def
  by (auto simp: evict_def dest: over_limits_drop split: option.splits if_splits)

lemma fits_remove_expired:
  assumes "registry_ok r" "fits i r"
  shows "fits i (remove_expired j now r)"
proof -
  have "fits i (remove_expired j now r) \<and>
     (\<forall>k e. view (remove_expired j now r) j k = Some e \<longrightarrow> now < expires_at e)"
    by (rule remove_expired_rule [OF assms(1), where P = "fits i"])
       (use assms(2) fits_evict in auto)
  then show ?thesis ..
qed

lemma fits_remove_all_expired:
  "registry_ok r \<Longrightarrow> fits i r \<Longrightarrow> fits i (remove_all_expired is now r)"
  by (induction "is" now r rule: remove_all_expired.induct)
     (simp_all add: remove_expired_ok fits_remove_expired)

lemma fits_capacity:
  assumes "registry_ok r" "fits i r"
  shows "fits i (capacity_rounds n now r)"
  using assms
proof (induction n arbitrary: r)
  case 0
  then show ?case by simp
next
  case (Suc n)
  let ?r1 = "remove_all_expired [0..<length (stores r)] now r"
  have w1: "fits i ?r1" using Suc.prems by (rule fits_remove_all_expired)
  show ?case
  proof (cases "used_bytes r \<le> limit_bytes r \<or> used_bytes ?r1 \<le> limit_bytes r")
    case True
    then show ?thesis
      using Suc.prems w1 remove_all_expired_frame [OF Suc.prems(1), of "[0..<length (stores r)]" now]
      by (subst capacity_rounds.simps) (auto simp: Let_def)
  next
    case False
    then obtain a j k e where c:
      "oldest_candidate [0..<length (stores r)] now ?r1 = (Some (a, j, k), ?r1)" "registry_ok ?r1"
      using capacity_round [OF Suc.prems(1) _ refl, of now] by (metis not_le)
    then show ?thesis
      using Suc.IH [OF evict_ok [OF c(2)] fits_evict [OF w1]] fits_evict [OF w1] w1
        Suc.prems(2)
      by (subst capacity_rounds.simps) (simp add: Let_def)
  qed
qed

subsection \<open>The newest entry survives\<close>

definition newest :: "registry \<Rightarrow> nat \<Rightarrow> string \<Rightarrow> entry \<Rightarrow> bool" where
  "newest r i k e \<longleftrightarrow> view r i k = Some e \<and>
     (\<forall>j k' e'. view r j k' = Some e' \<and> (j, k') \<noteq> (i, k) \<longrightarrow> accessed_at e' < accessed_at e)"

definition admits :: "limits \<Rightarrow> nat \<Rightarrow> bool" where
  "admits l sz \<longleftrightarrow> max_entries l \<noteq> Some 0 \<and> (\<forall>m. max_bytes l = Some m \<longrightarrow> sz \<le> m)"

lemma newest_evict: "newest r i k e \<Longrightarrow> (j, k') \<noteq> (i, k) \<Longrightarrow> newest (evict j k' c r) i k e"
  unfolding newest_def by (auto simp: view_evict)

lemma newest_remove_expired:
  "registry_ok r \<Longrightarrow> newest r i k e \<Longrightarrow> now < expires_at e \<Longrightarrow> newest (remove_expired j now r) i k e"
  unfolding newest_def by (auto simp: view_remove_expired split: if_splits)

lemma newest_remove_all_expired:
  "registry_ok r \<Longrightarrow> newest r i k e \<Longrightarrow> now < expires_at e \<Longrightarrow>
     newest (remove_all_expired is now r) i k e"
  by (induction "is" now r rule: remove_all_expired.induct)
     (simp_all add: remove_expired_ok newest_remove_expired)

lemma sole_entry_store:
  assumes ok: "registry_ok r" and s: "store_at r i = Some s" and v: "view r i k = Some e"
    and sole: "\<And>k' e'. view r i k' = Some e' \<Longrightarrow> k' = k"
  shows "length (entries s) = 1" "bytes s = esize e"
proof -
  have sok: "store_ok (access r) s" using ok s by (rule registry_ok_store)
  have e: "bt_get (entries s) k = Some e" using v s by (simp add: view_def)
  have "bt_get (bt_remove k (entries s)) k' = None" for k'
    using sole [of k'] s by (auto simp: bt_get_remove view_def intro: not_None_eq [THEN iffD1, THEN exE])
  then have "bt_remove k (entries s) = []"
    by (cases "bt_remove k (entries s)") (auto, metis bt_get_Cons option.distinct(1) surj_pair)
  then show "length (entries s) = 1" "bytes s = esize e"
    using length_bt_remove [OF store_okD(1) [OF sok] e]
      bt_sum_remove [OF store_okD(1) [OF sok] e, of esize] store_okD(6) [OF sok] by simp_all
qed

lemma sole_entry_used:
  assumes ok: "registry_ok r" and v: "view r i k = Some e"
    and sole: "\<And>j k' e'. view r j k' = Some e' \<Longrightarrow> (j, k') = (i, k)"
  shows "used_bytes r = esize e"
proof -
  have "view (evict i k True r) j k' = None" for j k'
    using sole [of j k'] by (cases "view r j k'") (auto simp: view_evict)
  then have "used_bytes (evict i k True r) = 0"
    by (rule no_entries_used [OF evict_ok [OF ok]])
  then show ?thesis using evict_amounts(1) [OF ok v, of True] by simp
qed

lemma newest_trim:
  assumes "registry_ok r" "newest r i k e" "\<And>k' e'. view r i k' = Some e' \<Longrightarrow> now < expires_at e'"
    and "store_at r i = Some s" "admits (slimits s) (esize e)"
  shows "newest (trim_rounds n i now r) i k e"
  using assms
proof (induction n arbitrary: r s)
  case 0
  have "snd (oldest i now r) = r"
    using "0.prems" by (simp add: oldest_registry remove_expired_id)
  then obtain c where "oldest i now r = (c, r)" by (metis prod.collapse)
  then show ?case
    using "0.prems" by (subst trim_rounds.simps) (auto split: option.splits)
next
  case (Suc n)
  have "snd (oldest i now r) = r"
    using Suc.prems by (simp add: oldest_registry remove_expired_id)
  then obtain c where c: "oldest i now r = (c, r)" by (metis prod.collapse)
  have v: "view r i k = Some e" using Suc.prems(2) by (simp add: newest_def)
  show ?case
  proof (cases "over_local_limits s")
    case False
    then show ?thesis using Suc.prems by (subst trim_rounds.simps) simp
  next
    case over: True
    obtain a k' where x: "c = Some (a, k')"
      using oldest_None [OF Suc.prems(1), of i now r k] c v by (cases c) auto
    note o = oldest_Some [OF Suc.prems(1) c [unfolded x]]
    have "k' \<noteq> k"
    proof
      assume "k' = k"
      then have "k'' = k" if "view r i k'' = Some e''" for k'' e''
        using o(1) o(2) [OF that] Suc.prems(2) that v unfolding newest_def by fastforce
      then have "length (entries s) = 1" "bytes s = esize e"
        using sole_entry_store [OF Suc.prems(1,4) v] by auto
      then show False
        using over Suc.prems(5)
        by (auto simp: over_local_limits_def admits_def split: option.splits)
    qed
    then have n3: "newest (evict i k' True r) i k e"
      using Suc.prems(2) by (intro newest_evict) auto
    then obtain s3 where s3: "store_at (evict i k' True r) i = Some s3"
      by (auto simp: newest_def view_def split: option.splits)
    have live3: "now < expires_at e''" if "view (evict i k' True r) i k'' = Some e''" for k'' e''
      using that Suc.prems(3) by (auto simp: view_evict split: if_splits)
    have "slimits s3 = slimits s" using slimits_evict [OF s3] Suc.prems(4) by auto
    then have "newest (trim_rounds n i now (evict i k' True r)) i k e"
      using Suc.IH [OF evict_ok [OF Suc.prems(1)] n3 live3 s3] Suc.prems(5) by simp
    then show ?thesis
      using Suc.prems(4) over c x by (subst trim_rounds.simps) simp
  qed
qed

lemma newest_capacity:
  assumes "registry_ok r" "newest r i k e" "now < expires_at e" "esize e \<le> limit_bytes r"
  shows "newest (capacity_rounds n now r) i k e"
  using assms
proof (induction n arbitrary: r)
  case 0
  then show ?case by simp
next
  case (Suc n)
  let ?r1 = "remove_all_expired [0..<length (stores r)] now r"
  have n1: "newest ?r1 i k e" using Suc.prems(1-3) by (rule newest_remove_all_expired)
  have lim: "limit_bytes ?r1 = limit_bytes r"
    using remove_all_expired_frame [OF Suc.prems(1)] by blast
  show ?case
  proof (cases "used_bytes r \<le> limit_bytes r \<or> used_bytes ?r1 \<le> limit_bytes r")
    case True
    then show ?thesis
      using Suc.prems(2) n1 lim by (subst capacity_rounds.simps) (auto simp: Let_def)
  next
    case over: False
    then obtain a j k' e' where c:
      "oldest_candidate [0..<length (stores r)] now ?r1 = (Some (a, j, k'), ?r1)"
      "view ?r1 j k' = Some e'" "accessed_at e' = a"
      "\<And>j k' e'. view ?r1 j k' = Some e' \<Longrightarrow> a \<le> accessed_at e'" "registry_ok ?r1"
      using capacity_round [OF Suc.prems(1) _ refl, of now] by (metis not_le)
    have v1: "view ?r1 i k = Some e" using n1 by (simp add: newest_def)
    have ne: "(j, k') \<noteq> (i, k)"
    proof
      assume eq: "(j, k') = (i, k)"
      with c(2,3) v1 have "a = accessed_at e" by simp
      then have sole: "(j', k'') = (i, k)" if "view ?r1 j' k'' = Some e''" for j' k'' e''
        using c(4) [OF that] n1 that unfolding newest_def by (metis not_le)
      have "used_bytes ?r1 = esize e" by (rule sole_entry_used [OF c(5) v1 sole])
      with over Suc.prems(4) show False by simp
    qed
    have n3: "newest (evict j k' True ?r1) i k e" using n1 ne by (rule newest_evict)
    have "newest (capacity_rounds n now (evict j k' True ?r1)) i k e"
      using Suc.IH [OF evict_ok [OF c(5)] n3 Suc.prems(3)] Suc.prems(4) lim by simp
    then show ?thesis
      using over n3 c(1) lim by (subst capacity_rounds.simps) (simp add: Let_def)
  qed
qed

subsection \<open>Storing an answer\<close>

lemma store_at_next_access [simp]: "store_at (next_access r) i = store_at r i"
  by (simp add: next_access_def)

lemma view_next_access [simp]: "view (next_access r) = view r"
  by (simp add: view_def fun_eq_iff)

lemma view_store_entry:
  "store_at r i = Some s \<Longrightarrow>
     view (store_entry i k e s r) j k' = (if j = i \<and> k' = k then Some e else view r j k')"
  by (auto simp: view_def store_entry_def add_entry_def bt_get_insert dest: store_at_Some_lt)

text \<open>The registry just after the new entry went in, before anything is trimmed.\<close>

definition stored :: "nat \<Rightarrow> string \<Rightarrow> payload \<Rightarrow> nat \<Rightarrow> nat \<Rightarrow> nat \<Rightarrow> registry \<Rightarrow> registry \<Rightarrow> bool" where
  "stored i key pl sz ttl now r r1 \<longleftrightarrow>
     registry_ok r1 \<and> limit_bytes r1 = limit_bytes r \<and> total_entries r1 \<le> Suc (total_entries r) \<and>
     (\<exists>s e. store_at r1 i = Some s \<and> newest r1 i key e \<and> payload e = pl \<and> esize e = sz \<and>
        expires_at e = now + ttl \<and> (\<exists>s0. store_at r i = Some s0 \<and> slimits s0 = slimits s)) \<and>
     (\<forall>j k. (j, k) \<noteq> (i, key) \<longrightarrow> view r1 j k = view r j k)"

lemma total_entries_evict: "registry_ok r \<Longrightarrow> total_entries (evict i k c r) \<le> total_entries r"
proof (cases "view r i k")
  case None
  then have "evict i k c r = r" by (intro evict_absent) (auto simp: view_def split: option.splits)
  then show ?thesis by simp
next
  case (Some e)
  assume "registry_ok r"
  from evict_amounts(2) [OF this Some, of c] show ?thesis by simp
qed

lemma total_entries_store:
  assumes "store_at r i = Some s" "bt_get (entries s) k = None"
  shows "total_entries (store_entry i k e s r) = Suc (total_entries r)"
proof -
  have i: "i < length (stores r)" "stores r ! i = s"
    using assms(1) by (auto simp: store_at_def split: if_splits)
  have "length (entries s) \<le> total_entries r"
    using elem_le_sum_list [of i "map (\<lambda>s. length (entries s)) (stores r)"] i
    by (simp add: total_entries_def)
  then show ?thesis
    using i length_bt_insert_fresh [OF assms(2)]
    by (simp add: store_entry_def set_store_def add_entry_def total_entries_def map_update
        sum_list_update)
qed

lemma cache_set_stored:
  assumes ok: "registry_ok r" and i: "i < length (stores r)"
  obtains r1 where "stored i key pl sz ttl now r r1"
    "cache_set i key pl sz ttl now r =
       ensure_capacity now (trim_to_local_limits i now (remove_expired i now r1))"
proof -
  let ?r0 = "evict i key False r"
  have ok0: "registry_ok ?r0" using ok by (rule evict_ok)
  obtain s where s: "store_at ?r0 i = Some s" using i by (simp add: store_at_def)
  have fresh: "bt_get (entries s) key = None" using s ok by (rule evict_absent_after)
  let ?st = "Suc (access ?r0)"
  let ?e = "\<lparr>payload = pl, esize = sz, expires_at = now + ttl, stored_at = ?st, accessed_at = ?st\<rparr>"
  let ?r1 = "store_entry i key ?e s (next_access ?r0)"
  have view1: "view ?r1 j k = (if j = i \<and> k = key then Some ?e else view ?r0 j k)" for j k
    using s by (simp add: view_store_entry)
  have older: "accessed_at e' \<le> access ?r0" if v: "view ?r0 j k' = Some e'" for j k' e'
  proof -
    obtain s' where s': "store_at ?r0 j = Some s'" "bt_get (entries s') k' = Some e'"
      using v by (auto simp: view_def split: option.splits)
    then show ?thesis using store_okD(7) [OF registry_ok_store [OF ok0 s'(1)] s'(2)] by simp
  qed
  have "newest ?r1 i key ?e"
    unfolding newest_def using view1 older by (force split: if_splits)
  moreover have "registry_ok ?r1"
    by (rule store_entry_ok [OF ok0 s fresh]) simp_all
  moreover have "total_entries ?r1 \<le> Suc (total_entries r)"
  proof -
    have "total_entries ?r1 = Suc (total_entries (next_access ?r0))"
      using s fresh by (intro total_entries_store) simp_all
    then show ?thesis using total_entries_evict [OF ok, of i key False]
      by (simp add: total_entries_def next_access_def)
  qed
  moreover have "\<exists>s0. store_at r i = Some s0 \<and> slimits s0 = slimits s"
    by (rule slimits_evict [OF s])
  moreover have "store_at ?r1 i = Some (add_entry key ?e s)"
    using i by (simp add: store_entry_def next_access_def)
  moreover have "view ?r1 j k = view r j k" if "(j, k) \<noteq> (i, key)" for j k
    unfolding view1 using that by (auto simp: view_evict)
  ultimately have "stored i key pl sz ttl now r ?r1"
    unfolding stored_def by (auto simp: store_entry_def next_access_def add_entry_def)
  moreover have "cache_set i key pl sz ttl now r =
       ensure_capacity now (trim_to_local_limits i now (remove_expired i now ?r1))"
    using s by (simp add: cache_set_def Let_def next_access_def)
  ultimately show ?thesis by (rule that)
qed

lemma total_trim_le:
  "registry_ok r \<Longrightarrow> total_entries (trim_rounds n i now r) \<le> total_entries r \<and>
     limit_bytes (trim_rounds n i now r) = limit_bytes r"
proof (induction n arbitrary: r)
  case 0
  then show ?case
    using remove_expired_frame(2,3) [OF 0, of i now] oldest_registry [of i now r]
    by (subst (1 2) trim_rounds.simps) (auto split: option.splits prod.splits)
next
  case (Suc n)
  obtain c r' where c: "oldest i now r = (c, r')" by force
  have r': "r' = remove_expired i now r" using c oldest_registry [of i now r] by simp
  have ok': "registry_ok r'" using Suc.prems r' by (simp add: remove_expired_ok)
  have "total_entries (evict i k True r') \<le> total_entries r" for k
    using total_entries_evict [OF ok', of i k True]
      remove_expired_frame(2) [OF Suc.prems, of i now] r' by simp
  then have "total_entries (trim_rounds n i now (evict i k True r')) \<le> total_entries r" for k
    using Suc.IH [OF evict_ok [OF ok', of i k True]] le_trans by blast
  then show ?case
    using Suc.IH [OF evict_ok [OF ok']] c remove_expired_frame(2,3) [OF Suc.prems, of i now] r'
    by (subst (1 2) trim_rounds.simps) (auto split: option.splits)
qed

text \<open>After an insert: the invariant, the store's limits, the shared budget, the new entry.\<close>

lemma entry_limits_remove:
  assumes "registry_ok r" "store_at r i = Some s" "newest r i k e" "now < expires_at e"
  obtains s' where "store_at (remove_expired i now r) i = Some s'" "slimits s' = slimits s"
proof -
  have "newest (remove_expired i now r) i k e" by (rule newest_remove_expired [OF assms(1,3,4)])
  then obtain s' where s': "store_at (remove_expired i now r) i = Some s'"
    by (auto simp: newest_def view_def split: option.splits)
  with remove_expired_frame(6) [OF assms(1) s'] assms(2) that show ?thesis by auto
qed

lemma cache_set_newest:
  assumes ok: "registry_ok r" and s0: "store_at r i = Some s0" and ttl: "0 < ttl"
    and adm: "admits (slimits s0) sz" and lim: "sz \<le> limit_bytes r"
  shows "\<exists>e. newest (cache_set i key pl sz ttl now r) i key e \<and> payload e = pl \<and> esize e = sz \<and>
     expires_at e = now + ttl"
proof -
  obtain r1 where r1: "stored i key pl sz ttl now r r1"
    and eq: "cache_set i key pl sz ttl now r =
       ensure_capacity now (trim_to_local_limits i now (remove_expired i now r1))"
    using cache_set_stored [OF ok store_at_Some_lt [OF s0]] by blast
  then obtain s e where s: "store_at r1 i = Some s" "slimits s = slimits s0"
    and e: "newest r1 i key e" "payload e = pl" "esize e = sz" "expires_at e = now + ttl"
    using s0 unfolding stored_def by auto
  have ok1: "registry_ok r1" and lim1: "limit_bytes r1 = limit_bytes r"
    using r1 by (simp_all add: stored_def)
  have live: "now < expires_at e" using e(4) ttl by simp
  let ?r2 = "remove_expired i now r1"
  have ok2: "registry_ok ?r2" using ok1 by (rule remove_expired_ok)
  have n2: "newest ?r2 i key e" by (rule newest_remove_expired [OF ok1 e(1) live])
  obtain s' where s': "store_at ?r2 i = Some s'" "slimits s' = slimits s"
    using entry_limits_remove [OF ok1 s(1) e(1) live] by blast
  have "now < expires_at e'" if "view ?r2 i k' = Some e'" for k' e'
    using that by (simp add: view_remove_expired [OF ok1])
  then have n3: "newest (trim_to_local_limits i now ?r2) i key e"
    unfolding trim_to_local_limits_def
    using newest_trim [OF ok2 n2 _ s'(1)] s s'(2) adm e(3) by simp
  have "newest (cache_set i key pl sz ttl now r) i key e"
    unfolding eq ensure_capacity_def
    using n3 live lim e(3) lim1 total_trim_le [OF ok2] remove_expired_frame(3) [OF ok1]
    by (intro newest_capacity) (simp_all add: trim_rounds_ok ok2 trim_to_local_limits_def)
  with e show ?thesis by blast
qed

lemma view_trim_sub:
  "registry_ok r \<Longrightarrow> view (trim_rounds n i now r) j k = Some e \<Longrightarrow> view r j k = Some e"
proof (induction n arbitrary: r)
  case 0
  then show ?case
    using oldest_registry [of i now r]
    by (subst (asm) trim_rounds.simps)
       (auto simp: view_remove_expired split: option.splits prod.splits if_splits)
next
  case (Suc n)
  obtain c r' where c: "oldest i now r = (c, r')" by force
  have r': "r' = remove_expired i now r" using c oldest_registry [of i now r] by simp
  have ok': "registry_ok r'" using Suc.prems r' by (simp add: remove_expired_ok)
  have bck: "view r' j k = Some e \<Longrightarrow> view r j k = Some e"
    by (simp add: r' view_remove_expired [OF Suc.prems(1)] split: if_splits)
  have ev: "view (evict i k' True r') j k = Some e"
    if "view (trim_rounds n i now (evict i k' True r')) j k = Some e" for k'
    by (rule Suc.IH [OF evict_ok [OF ok'] that])
  have "view r' j k = Some e"
    if "view (trim_rounds n i now (evict i k' True r')) j k = Some e" for k'
    using ev [OF that] by (simp add: view_evict split: if_splits)
  then show ?case
    using Suc.prems(2) c bck
    by (subst (asm) trim_rounds.simps) (auto split: option.splits if_splits)
qed

end
