(* ===== verification/MemCache_Api.thy ===== *)
theory MemCache_Api
  imports MemCache_LRU
begin

section \<open>The cache's public operations and what they promise\<close>

text \<open>
  The functions \<open>memcache.rs\<close> exports, each one \<open>with_registry\<close> step on the shared registry, the
  artwork cache of \<open>libraryimagecache.rs\<close> on top of them, and the properties of the whole: the
  states reachable by any sequence of operations keep the invariant, an insert ends within every
  limit, a value can be read back until it expires, the victim is the least recently used entry.
  The length of a JSON text (\<open>serde_json::to_writer\<close>) is the parameter \<open>json_len\<close>; the moments of
  the calls are arguments.
\<close>

subsection \<open>Statistics\<close>

fun budget_counts :: "nat list \<Rightarrow> nat \<Rightarrow> registry \<Rightarrow> nat \<times> registry" where
  "budget_counts [] now r = (0, r)"
| "budget_counts (i # is) now r =
     (let (n, r) = count_live i now r; (m, r) = budget_counts is now r in (n + m, r))"

definition budget :: "nat \<Rightarrow> registry \<Rightarrow> (string \<times> nat) list \<times> registry" where
  "budget now r =
     (let (n, r) = budget_counts [0..<length (stores r)] now r
      in ([(''usedBytes'', used_bytes r), (''limitBytes'', limit_bytes r), (''entries'', n),
           (''evictions'', evictions r)], r))"

definition cache_stats :: "nat \<Rightarrow> nat \<Rightarrow> registry \<Rightarrow> jmap \<times> registry" where
  "cache_stats i now r =
     (let (b, r) = budget now r;
          (keys, r) = count_live i now r;
          out = (case store_at r i of
                   None \<Rightarrow> []
                 | Some s \<Rightarrow>
                     [(''hits'', JInt (int (hits s))), (''misses'', JInt (int (misses s))),
                      (''keys'', JInt (int keys)),
                      (''ksize'', JInt (int (sum_list (map (utf8_len \<circ> fst) (entries s))))),
                      (''vsize'', JInt (int (bytes s)))])
      in (fold (\<lambda>(k, v). obj_insert k (JInt (int v))) b out, r))"

definition UNSIZED :: nat where
  "UNSIZED = 1024"

fun estimate_size :: "(json \<Rightarrow> nat option) \<Rightarrow> json \<Rightarrow> nat" where
  "estimate_size json_len (JStr s) = utf8_len s"
| "estimate_size json_len v = unwrap_or UNSIZED (json_len v)"

subsection \<open>Operations\<close>

fun json_payload :: "payload \<Rightarrow> json option" where
  "json_payload (Json_payload v) = Some v"
| "json_payload (Artwork_payload _) = None"

fun artwork_payload :: "payload \<Rightarrow> artwork option" where
  "artwork_payload (Artwork_payload a) = Some a"
| "artwork_payload (Json_payload _) = None"

definition get_json :: "cache_id \<Rightarrow> string \<Rightarrow> nat \<Rightarrow> registry \<Rightarrow> json option \<times> registry" where
  "get_json c key now r =
     (let (hit, r) = with_registry (cache_get (cache_index c) key now) r
      in (Option.bind hit json_payload, r))"

definition with_unit :: "(registry \<Rightarrow> registry) \<Rightarrow> registry \<Rightarrow> registry" where
  "with_unit f r = snd (with_registry (\<lambda>r. ((), f r)) r)"

definition set_json ::
  "(json \<Rightarrow> nat option) \<Rightarrow> cache_id \<Rightarrow> string \<Rightarrow> json \<Rightarrow> nat \<Rightarrow> nat \<Rightarrow> registry \<Rightarrow> registry" where
  "set_json json_len c key v ttl now r =
     with_unit (cache_set (cache_index c) key (Json_payload v) (estimate_size json_len v) ttl now) r"

definition set_default ::
  "(json \<Rightarrow> nat option) \<Rightarrow> cache_id \<Rightarrow> string \<Rightarrow> json \<Rightarrow> nat \<Rightarrow> registry \<Rightarrow> registry" where
  "set_default json_len c key v now r = set_json json_len c key v (default_ttl c) now r"

definition cached_until :: "cache_id \<Rightarrow> string \<Rightarrow> registry \<Rightarrow> nat option" where
  "cached_until c key r =
     map_option expires_at (Option.bind (store_at r (cache_index c)) (\<lambda>s. bt_get (entries s) key))"

definition delete_key :: "cache_id \<Rightarrow> string \<Rightarrow> registry \<Rightarrow> registry" where
  "delete_key c key r = with_unit (evict (cache_index c) key False) r"

definition live_keys :: "cache_id \<Rightarrow> nat \<Rightarrow> registry \<Rightarrow> string list \<times> registry" where
  "live_keys c now r =
     with_registry
       (\<lambda>r. let r = remove_expired (cache_index c) now r
            in (case store_at r (cache_index c) of None \<Rightarrow> [] | Some s \<Rightarrow> map fst (entries s), r)) r"

definition flush_cache :: "cache_id \<Rightarrow> registry \<Rightarrow> registry" where
  "flush_cache c r = with_unit (cache_flush (cache_index c)) r"

definition stats_json :: "cache_id \<Rightarrow> nat \<Rightarrow> registry \<Rightarrow> json \<times> registry" where
  "stats_json c now r =
     (let (m, r) = with_registry (cache_stats (cache_index c) now) r in (JObj m, r))"

definition memory_stats :: "nat \<Rightarrow> registry \<Rightarrow> json \<times> registry" where
  "memory_stats now r =
     (let (b, r) = with_registry (budget now) r
      in (JObj (map (\<lambda>(k, v). (k, JInt (int v))) b), r))"

fun api_caches_of :: "cache_id list \<Rightarrow> nat \<Rightarrow> registry \<Rightarrow> json list \<times> registry" where
  "api_caches_of [] now r = ([], r)"
| "api_caches_of (c # cs) now r =
     (let (st, r) = stats_json c now r;
          (rest, r) = api_caches_of cs now r
      in (JObj [(''id'', JStr (cache_key c)), (''name'', JStr (cache_name c)), (''stats'', st)] # rest, r))"

definition api_caches :: "nat \<Rightarrow> registry \<Rightarrow> json \<times> registry" where
  "api_caches now r = (let (l, r) = api_caches_of ALL_IDS now r in (JArr l, r))"

definition get_artwork :: "string \<Rightarrow> nat \<Rightarrow> registry \<Rightarrow> artwork option \<times> registry" where
  "get_artwork key now r =
     (let (hit, r) = with_registry (cache_get ARTWORK key now) r
      in (Option.bind hit artwork_payload, r))"

definition set_artwork :: "string \<Rightarrow> artwork \<Rightarrow> nat \<Rightarrow> nat \<Rightarrow> registry \<Rightarrow> registry" where
  "set_artwork key a ttl now r =
     with_unit (cache_set ARTWORK key (Artwork_payload a) (artwork_size a) ttl now) r"

definition flush_artwork :: "registry \<Rightarrow> registry" where
  "flush_artwork r = with_unit (cache_flush ARTWORK) r"

definition artwork_count :: "nat \<Rightarrow> registry \<Rightarrow> nat \<times> registry" where
  "artwork_count now r = with_registry (count_live ARTWORK now) r"

text \<open>\<open>libraryimagecache.rs\<close>.\<close>

definition IMAGE_TTL :: nat where
  "IMAGE_TTL = 6 * 60 * 60"

definition image_key :: "int \<Rightarrow> string \<Rightarrow> bool \<Rightarrow> string" where
  "image_key user item primary =
     show_int user @ '':'' @ item @ '':'' @ (if primary then ''primary'' else ''backdrop'')"

definition image_get ::
  "int \<Rightarrow> string \<Rightarrow> bool \<Rightarrow> nat \<Rightarrow> registry \<Rightarrow> (string \<times> string) option \<times> registry" where
  "image_get user item primary now r =
     (let (hit, r) = get_artwork (image_key user item primary) now r
      in (map_option (\<lambda>a. (art_bytes a, content_type a)) hit, r))"

definition image_set ::
  "int \<Rightarrow> string \<Rightarrow> bool \<Rightarrow> string \<Rightarrow> string \<Rightarrow> nat \<Rightarrow> registry \<Rightarrow> registry" where
  "image_set user item primary img ctype now r =
     set_artwork (image_key user item primary) \<lparr>art_bytes = img, content_type = ctype\<rparr> IMAGE_TTL now r"

definition image_reset :: "registry \<Rightarrow> registry" where
  "image_reset r = flush_artwork r"

definition image_size :: "nat \<Rightarrow> registry \<Rightarrow> nat \<times> registry" where
  "image_size now r = artwork_count now r"

subsection \<open>Every operation keeps the invariant\<close>

lemma registry_ok_dropped [simp]: "registry_ok (r\<lparr>dropped := d\<rparr>) = registry_ok r"
  by (simp add: registry_ok_def)

lemma with_unit_ok [registry_intros]: "registry_ok (f r) \<Longrightarrow> registry_ok (with_unit f r)"
  by (simp add: with_unit_def with_registry_def)

lemma with_registry_ok [registry_intros]:
  "registry_ok (snd (f r)) \<Longrightarrow> registry_ok (snd (with_registry f r))"
  by (simp add: with_registry_def Let_def split_def)

lemma budget_counts_ok: "registry_ok r \<Longrightarrow> registry_ok (snd (budget_counts is now r))"
proof (induction "is" now r rule: budget_counts.induct)
  case (2 i "is" now r)
  then show ?case
    using count_live_ok [OF "2.prems", of i now] by (auto simp: Let_def split: prod.splits)
qed simp

lemma budget_ok [registry_intros]: "registry_ok r \<Longrightarrow> registry_ok (snd (budget now r))"
  using budget_counts_ok [of r "[0..<length (stores r)]" now]
  by (simp add: budget_def Let_def split_def)

lemma cache_stats_ok [registry_intros]: "registry_ok r \<Longrightarrow> registry_ok (snd (cache_stats i now r))"
  using budget_ok [of r now] count_live_ok [of "snd (budget now r)" i now]
  by (simp add: cache_stats_def Let_def split_def)

datatype cache_call =
    Get cache_id string nat
  | Set cache_id string json nat nat
  | Delete cache_id string
  | Keys cache_id nat
  | Flush cache_id
  | Stats cache_id nat
  | MemoryStats nat
  | GetImage int string bool nat
  | SetImage int string bool string string nat
  | ResetImages
  | CountImages nat

fun run_call :: "(json \<Rightarrow> nat option) \<Rightarrow> cache_call \<Rightarrow> registry \<Rightarrow> registry" where
  "run_call len (Get c key now) r = snd (get_json c key now r)"
| "run_call len (Set c key v ttl now) r = set_json len c key v ttl now r"
| "run_call len (Delete c key) r = delete_key c key r"
| "run_call len (Keys c now) r = snd (live_keys c now r)"
| "run_call len (Flush c) r = flush_cache c r"
| "run_call len (Stats c now) r = snd (stats_json c now r)"
| "run_call len (MemoryStats now) r = snd (memory_stats now r)"
| "run_call len (GetImage u i p now) r = snd (image_get u i p now r)"
| "run_call len (SetImage u i p img ct now) r = image_set u i p img ct now r"
| "run_call len ResetImages r = image_reset r"
| "run_call len (CountImages now) r = snd (image_size now r)"

lemma run_call_ok: "registry_ok r \<Longrightarrow> registry_ok (run_call len call r)"
  by (cases call)
     (auto simp: get_json_def set_json_def delete_key_def live_keys_def flush_cache_def stats_json_def
        memory_stats_def image_get_def image_set_def image_reset_def image_size_def get_artwork_def
        set_artwork_def flush_artwork_def artwork_count_def Let_def split_def
        intro!: registry_intros)

inductive reachable :: "(json \<Rightarrow> nat option) \<Rightarrow> nat \<Rightarrow> registry \<Rightarrow> bool" for len limit where
  start: "reachable len limit (new_registry limit)"
| call: "reachable len limit r \<Longrightarrow> reachable len limit (run_call len c r)"

lemma reachable_ok: "reachable len limit r \<Longrightarrow> registry_ok r"
  by (induction rule: reachable.induct) (simp_all add: new_registry_ok run_call_ok)

subsection \<open>No operation changes the limits\<close>

text \<open>The budget and the stores' own limits are those the registry was built with.\<close>

definition limits_of :: "registry \<Rightarrow> nat \<times> limits list" where
  "limits_of r = (limit_bytes r, map slimits (stores r))"

named_theorems keeps_limits "operations that change no limit"

lemma limits_of_dropped [keeps_limits, simp]: "limits_of (r\<lparr>dropped := d\<rparr>) = limits_of r"
  by (simp add: limits_of_def)

lemma limits_of_set_store:
  "store_at r i = Some s \<Longrightarrow> slimits s' = slimits s \<Longrightarrow> limits_of (set_store i s' r) = limits_of r"
  by (auto simp: limits_of_def set_store_def store_at_def map_update list_update_same_conv
      split: if_splits)

lemma limits_of_update [simp]:
  "limits_of (r\<lparr>used_bytes := u\<rparr>) = limits_of r"
  "limits_of (r\<lparr>evictions := v\<rparr>) = limits_of r"
  "limits_of (r\<lparr>access := w\<rparr>) = limits_of r"
  by (simp_all add: limits_of_def)

lemma evict_keeps [keeps_limits]: "limits_of (evict i k c r) = limits_of r"
  by (auto simp: evict_def limits_of_set_store drop_entry_def split: option.splits)

lemma pop_soonest_keeps [keeps_limits]: "limits_of (pop_soonest i r) = limits_of r"
  by (auto simp: pop_soonest_def limits_of_set_store split: option.splits)

lemma remove_expired_keeps [keeps_limits]: "limits_of (remove_expired i now r) = limits_of r"
proof (induction i now r rule: remove_expired.induct)
  case (1 i now r)
  show ?case
    by (subst remove_expired.simps)
       (use 1 in \<open>auto simp: evict_keeps pop_soonest_keeps split: option.splits list.splits\<close>)
qed

lemma small_steps_keep [keeps_limits]:
  "limits_of (next_access r) = limits_of r"
  "limits_of (bump i hit r) = limits_of r"
  "limits_of (snd (oldest i now r)) = limits_of r"
  "limits_of (snd (count_live i now r)) = limits_of r"
  by (auto simp: next_access_def bump_def oldest_def count_live_def Let_def limits_of_set_store
      remove_expired_keeps split: option.splits)

lemma cache_get_keeps [keeps_limits]: "limits_of (snd (cache_get i k now r)) = limits_of r"
proof -
  have "limits_of (set_store i (move_entry k a e s) r') = limits_of r'"
    if "store_at r' i = Some s" for a e s r'
    using that by (intro limits_of_set_store) (simp_all add: move_entry_def)
  then show ?thesis
    by (auto simp: cache_get_def Let_def keeps_limits split: option.splits)
qed

lemma trim_rounds_keep: "limits_of (trim_rounds n i now r) = limits_of r"
proof (induction n arbitrary: r)
  case 0
  show ?case
    using small_steps_keep(3) [of i now r]
    by (subst trim_rounds.simps) (auto split: option.splits prod.splits)
next
  case (Suc n)
  show ?case
    using small_steps_keep(3) [of i now r] Suc.IH
    by (subst trim_rounds.simps) (auto simp: evict_keeps split: option.splits prod.splits)
qed

lemma remove_all_expired_keeps [keeps_limits]: "limits_of (remove_all_expired is now r) = limits_of r"
  by (induction "is" now r rule: remove_all_expired.induct) (simp_all add: remove_expired_keeps)

lemma oldest_candidate_keeps [keeps_limits]:
  "limits_of (snd (oldest_candidate is now r)) = limits_of r"
proof (induction "is" arbitrary: r)
  case (Cons i "is")
  obtain c r' where c: "oldest i now r = (c, r')" by force
  obtain d r'' where d: "oldest_candidate is now r' = (d, r'')" by force
  have "limits_of r' = limits_of r" using small_steps_keep(3) [of i now r] c by simp
  moreover have "limits_of r'' = limits_of r'" using Cons.IH [of r'] d by simp
  ultimately show ?case
    using c d by (cases c; cases d) (auto split: if_splits)
qed simp

lemma capacity_rounds_keep: "limits_of (capacity_rounds n now r) = limits_of r"
proof (induction n arbitrary: r)
  case (Suc n)
  obtain c r2 where c: "oldest_candidate [0..<length (stores r)] now
      (remove_all_expired [0..<length (stores r)] now r) = (c, r2)" by force
  have "limits_of r2 = limits_of r"
    using oldest_candidate_keeps [of "[0..<length (stores r)]" now
        "remove_all_expired [0..<length (stores r)] now r"] c
    by (simp add: remove_all_expired_keeps)
  then show ?case
    using c Suc.IH
    by (cases c) (auto simp: capacity_rounds.simps Let_def keeps_limits split: prod.splits)
qed simp

lemma store_entry_keeps: "store_at r i = Some s \<Longrightarrow> limits_of (store_entry i k e s r) = limits_of r"
  by (simp add: store_entry_def limits_of_set_store add_entry_def)

lemma cache_set_keeps [keeps_limits]: "limits_of (cache_set i k pl sz ttl now r) = limits_of r"
  by (auto simp: cache_set_def Let_def ensure_capacity_def trim_to_local_limits_def
      capacity_rounds_keep trim_rounds_keep keeps_limits store_entry_keeps split: option.splits)

lemma fold_evict_keeps: "limits_of (fold (\<lambda>key. evict i key c) ks r) = limits_of r"
  by (induction ks arbitrary: r) (simp_all add: evict_keeps)

lemma cache_flush_keeps [keeps_limits]: "limits_of (cache_flush i r) = limits_of r"
  by (auto simp: cache_flush_def fold_evict_keeps split: option.splits)

lemma budget_counts_keep: "limits_of (snd (budget_counts is now r)) = limits_of r"
  by (induction "is" arbitrary: r) (simp_all add: Let_def split_def keeps_limits)

lemma stats_keep [keeps_limits]:
  "limits_of (snd (budget now r)) = limits_of r"
  "limits_of (snd (cache_stats i now r)) = limits_of r"
  by (simp_all add: budget_def cache_stats_def Let_def split_def budget_counts_keep keeps_limits)

lemma with_keeps [keeps_limits]:
  "limits_of (f r) = limits_of r \<Longrightarrow> limits_of (with_unit f r) = limits_of r"
  "limits_of (snd (g r)) = limits_of r \<Longrightarrow> limits_of (snd (with_registry g r)) = limits_of r"
  by (simp_all add: with_unit_def with_registry_def Let_def split_def)

lemma run_call_keeps: "limits_of (run_call len call r) = limits_of r"
  by (cases call)
     (auto simp: get_json_def set_json_def delete_key_def live_keys_def flush_cache_def stats_json_def
        memory_stats_def image_get_def image_set_def image_reset_def image_size_def get_artwork_def
        set_artwork_def flush_artwork_def artwork_count_def Let_def split_def keeps_limits)

lemma reachable_limits: "reachable len limit r \<Longrightarrow> limits_of r = limits_of (new_registry limit)"
  by (induction rule: reachable.induct) (simp_all add: run_call_keeps)

end
