(* ===== verification/MemCache_Props.thy ===== *)
theory MemCache_Props
  imports MemCache_Api
begin

section \<open>Properties of the response cache\<close>

text \<open>
  The promises of \<open>memcache.rs\<close> and \<open>libraryimagecache.rs\<close>, over the operations of
  \<open>MemCache\<close> and \<open>MemCache_Api\<close> and the lemmas of \<open>MemCache_Inv\<close> and \<open>MemCache_LRU\<close>.
\<close>

lemma store_at_new:
  "i < length (stores (new_registry limit)) \<longleftrightarrow> i \<le> ARTWORK"
  by (simp add: new_registry_def ARTWORK_def) linarith

lemma cache_index_store:
  assumes "limits_of r = limits_of (new_registry limit)"
  obtains s where "store_at r (cache_index c) = Some s" "max_bytes (slimits s) = None"
    "max_entries (slimits s) = max_entries_of c"
proof -
  have l: "map slimits (stores r) =
      map (\<lambda>c. \<lparr>max_entries = max_entries_of c, max_bytes = None\<rparr>) ALL_IDS @ [ARTWORK_LIMITS]"
    using assms by (simp add: limits_of_def new_registry_def empty_store_def comp_def)
  have len: "length (stores r) = Suc ARTWORK"
    using arg_cong [OF l, of length] by (simp add: ARTWORK_def)
  have i: "cache_index c < ARTWORK" by (rule cache_index_bound)
  have "map slimits (stores r) ! cache_index c =
      \<lparr>max_entries = max_entries_of c, max_bytes = None\<rparr>"
    unfolding l by (cases c) (simp_all add: cache_index_def ALL_IDS_def)
  then have "slimits (stores r ! cache_index c) = \<lparr>max_entries = max_entries_of c, max_bytes = None\<rparr>"
    using i len by simp
  then show ?thesis
    using that [of "stores r ! cache_index c"] i len by (simp add: store_at_def)
qed

lemma artwork_store:
  assumes "limits_of r = limits_of (new_registry limit)"
  obtains s where "store_at r ARTWORK = Some s" "slimits s = ARTWORK_LIMITS"
proof -
  have l: "map slimits (stores r) =
      map (\<lambda>c. \<lparr>max_entries = max_entries_of c, max_bytes = None\<rparr>) ALL_IDS @ [ARTWORK_LIMITS]"
    using assms by (simp add: limits_of_def new_registry_def empty_store_def comp_def)
  have len: "length (stores r) = Suc ARTWORK"
    using arg_cong [OF l, of length] by (simp add: ARTWORK_def)
  have "map slimits (stores r) ! ARTWORK = ARTWORK_LIMITS"
    unfolding l by (simp add: ARTWORK_def nth_append)
  then show ?thesis
    using that [of "stores r ! ARTWORK"] len by (simp add: store_at_def)
qed

lemma view_new [simp]: "view (new_registry limit) i k = None"
proof (cases "i < length (stores (new_registry limit))")
  case True
  then have "stores (new_registry limit) ! i \<in> set (stores (new_registry limit))" by (rule nth_mem)
  then have "entries (stores (new_registry limit) ! i) = []"
    by (auto simp: new_registry_def empty_store_def)
  then show ?thesis by (simp add: view_def store_at_def)
qed (simp add: view_def store_at_def)

lemma cache_get_hit:
  assumes "view r i key = Some e" "now < expires_at e"
  shows "fst (cache_get i key now r) = Some (payload e)"
  using assms
  by (auto simp: cache_get_def view_def Let_def next_access_def bump_def store_at_Some_lt
      split: option.splits dest: store_at_Some_lt)

lemma cache_set_then_get:
  assumes ok: "registry_ok r" and s: "store_at r i = Some s" and adm: "admits (slimits s) sz"
    and lim: "sz \<le> limit_bytes r" and t: "t < now + ttl" and t0: "now \<le> t"
  shows "fst (cache_get i key t ((cache_set i key pl sz ttl now r)\<lparr>dropped := d\<rparr>)) = Some pl"
proof -
  have "0 < ttl" using t t0 by simp
  from cache_set_newest [OF ok s this adm lim, of key pl now]
  obtain e where "newest (cache_set i key pl sz ttl now r) i key e" "payload e = pl"
    "expires_at e = now + ttl" by blast
  then show ?thesis
    using t by (subst cache_get_hit [where e = e]) (simp_all add: newest_def)
qed

text \<open>
  C17 The cache index invariant: after any sequence of public calls the recency and the expiry index
  of every store name exactly its entries and the shared byte count is the sum of their sizes.
\<close>

theorem reachable_registry_ok:
  "reachable len limit r \<Longrightarrow>
     (\<forall>s \<in> set (stores r). store_ok (access r) s) \<and> used_bytes r = sum_list (map bytes (stores r))"
  using reachable_ok [of len limit r] by (simp add: registry_ok_def)

theorem reachable_registry_ok_witness:
  "list_all (store_ok (access (new_registry 10))) (stores (new_registry 10)) \<and>
   used_bytes (new_registry 10) = sum_list (map bytes (stores (new_registry 10)))"
  unfolding list_all_iff by (rule reachable_registry_ok [OF reachable.start [of "\<lambda>_. None"]])

text \<open>
  C18 An insert leaves the store within its own limits and the registry within the shared budget,
  when the registry holds fewer entries than the round bound and none of size zero.
\<close>

theorem cache_set_within_limits:
  assumes "registry_ok r" "sized r" "0 < sz" "total_entries r < CAPACITY_ROUNDS"
    and "i < length (stores r)"
  shows "used_bytes (cache_set i key pl sz ttl now r) \<le> limit_bytes r \<and>
    (\<forall>s. store_at (cache_set i key pl sz ttl now r) i = Some s \<longrightarrow> \<not> over_local_limits s)"
proof -
  obtain r1 where r1: "stored i key pl sz ttl now r r1"
    and eq: "cache_set i key pl sz ttl now r =
       ensure_capacity now (trim_to_local_limits i now (remove_expired i now r1))"
    using cache_set_stored [OF assms(1,5)] by blast
  have ok1: "registry_ok r1" and lim1: "limit_bytes r1 = limit_bytes r"
    and cnt: "total_entries r1 \<le> CAPACITY_ROUNDS"
    using r1 assms(4) by (simp_all add: stored_def)
  have sized1: "sized r1"
    unfolding sized_def
  proof (intro allI impI)
    fix j k e assume v: "view r1 j k = Some e"
    show "0 < esize e"
    proof (cases "(j, k) = (i, key)")
      case True
      then show ?thesis using r1 v assms(3) by (auto simp: stored_def newest_def)
    next
      case False
      then show ?thesis using r1 v assms(2) by (auto simp: stored_def sized_def)
    qed
  qed
  let ?r2 = "remove_expired i now r1"
  let ?r3 = "trim_to_local_limits i now ?r2"
  have ok2: "registry_ok ?r2" by (rule remove_expired_ok [OF ok1])
  have ok3: "registry_ok ?r3" by (rule trim_ok [OF ok2])
  have "view ?r3 j k = Some e \<Longrightarrow> view r1 j k = Some e" for j k e
    using view_trim_sub [OF ok2] unfolding trim_to_local_limits_def
    by (fastforce simp: view_remove_expired [OF ok1] split: if_splits)
  then have sized3: "sized ?r3" by (rule sized_sub [OF sized1])
  have cnt3: "total_entries ?r3 \<le> CAPACITY_ROUNDS"
    using total_trim_le [OF ok2, of "entry_count ?r2 i" i now] remove_expired_frame(2) [OF ok1, of i now] cnt
    by (simp add: trim_to_local_limits_def)
  have lim3: "limit_bytes ?r3 = limit_bytes r"
    using total_trim_le [OF ok2] remove_expired_frame(3) [OF ok1] lim1
    by (simp add: trim_to_local_limits_def)
  have "fits i ?r3" using trim_within [OF ok2] by (simp add: fits_def)
  then show ?thesis
    using capacity_bound [OF ok3 sized3 cnt3, of now] fits_capacity [OF ok3, of i CAPACITY_ROUNDS now]
    by (simp add: eq ensure_capacity_def lim3 fits_def)
qed

theorem cache_set_within_limits_witness:
  "used_bytes (cache_set 1 ''k'' (Json_payload JNull) 4 60 0 (new_registry 10)) \<le> 10"
proof -
  have "sized (new_registry 10)" by (simp add: sized_def)
  moreover have "total_entries (new_registry 10) < CAPACITY_ROUNDS"
    by (simp add: new_registry_def empty_store_def total_entries_def ALL_IDS_def CAPACITY_ROUNDS_def)
  moreover have "1 < length (stores (new_registry 10))" "limit_bytes (new_registry 10) = 10"
    by (simp_all add: new_registry_def ALL_IDS_def)
  ultimately show ?thesis
    using cache_set_within_limits [OF new_registry_ok [of 10], of 4 1 "''k''" "Json_payload JNull" 60 0]
    by simp
qed

text \<open>
  A value put into a response cache is what a lookup of its key returns until it expires,
  whatever was stored before, as long as it fits the shared budget at all.
\<close>

theorem get_json_after_set_json:
  assumes "reachable len limit r" "estimate_size len v \<le> limit" "now \<le> t" "t < now + ttl"
  shows "fst (get_json c key t (set_json len c key v ttl now r)) = Some v"
proof -
  have lim: "limits_of r = limits_of (new_registry limit)" by (rule reachable_limits [OF assms(1)])
  obtain s where s: "store_at r (cache_index c) = Some s" "max_bytes (slimits s) = None"
    "max_entries (slimits s) = max_entries_of c"
    using cache_index_store [OF lim] by blast
  have "max_entries_of c \<noteq> Some 0" by (cases c) simp_all
  then have "admits (slimits s) (estimate_size len v)" using s by (simp add: admits_def)
  moreover have "limit_bytes r = limit" using lim by (simp add: limits_of_def new_registry_def)
  ultimately show ?thesis
    using cache_set_then_get [OF reachable_ok [OF assms(1)] s(1) _ _ assms(4,3)] assms(2)
    by (simp add: get_json_def set_json_def with_unit_def with_registry_def Let_def split_def)
qed

theorem get_json_after_set_json_witness:
  "fst (get_json Rt ''k'' 5 (set_json (\<lambda>_. None) Rt ''k'' (JStr ''value'') 60 0 (new_registry 10))) =
     Some (JStr ''value'')"
  by (rule get_json_after_set_json [OF reachable.start]) (simp_all add: utf8_len_def code_def)

text \<open>
  A library image put into the cache is what a lookup for the same user, item and kind returns
  for six hours, as long as it fits the artwork store and the budget.
\<close>

theorem image_get_after_set:
  assumes "reachable len limit r" "length img + utf8_len ct \<le> 64 * 1024 * 1024"
    and "length img + utf8_len ct \<le> limit" "now \<le> t" "t < now + IMAGE_TTL"
  shows "fst (image_get u item p t (image_set u item p img ct now r)) = Some (img, ct)"
proof -
  have lim: "limits_of r = limits_of (new_registry limit)" by (rule reachable_limits [OF assms(1)])
  obtain s where s: "store_at r ARTWORK = Some s" "slimits s = ARTWORK_LIMITS"
    using artwork_store [OF lim] by blast
  let ?a = "\<lparr>art_bytes = img, content_type = ct\<rparr>"
  have "admits (slimits s) (artwork_size ?a)"
    using s assms(2) by (simp add: admits_def ARTWORK_LIMITS_def artwork_size_def)
  moreover have "artwork_size ?a \<le> limit_bytes r"
    using lim assms(3) by (simp add: limits_of_def new_registry_def artwork_size_def)
  ultimately show ?thesis
    using cache_set_then_get [OF reachable_ok [OF assms(1)] s(1) _ _ assms(5,4)]
    by (simp add: image_get_def image_set_def get_artwork_def set_artwork_def with_unit_def
        with_registry_def Let_def split_def)
qed

theorem image_get_after_set_witness:
  "fst (image_get 1 ''abc'' True 21599 (image_set 1 ''abc'' True ''img'' ''image/jpeg'' 0 (new_registry 100)))
     = Some (''img'', ''image/jpeg'')"
  by (rule image_get_after_set [OF reachable.start [of "\<lambda>_. None"]])
     (simp_all add: utf8_len_def code_def IMAGE_TTL_def)

lemma prefix_upto_colon:
  assumes "CHR '':'' \<notin> set xs" "CHR '':'' \<notin> set ys" "xs @ '':'' @ a = ys @ '':'' @ b"
  shows "xs = ys \<and> a = b"
  using assms
proof (induction xs arbitrary: ys)
  case Nil
  then show ?case by (cases ys) auto
next
  case (Cons x xs)
  then show ?case by (cases ys) auto
qed

text \<open>
  The keys of the artwork cache separate users, items and image kinds: two images share a key
  only when all three agree, whatever characters the item id holds.
\<close>

theorem image_key_separates:
  "image_key u item p = image_key u' item' p' \<longleftrightarrow> u = u' \<and> item = item' \<and> p = p'"
proof
  assume eq: "image_key u item p = image_key u' item' p'"
  then have "show_int u = show_int u' \<and> item @ '':'' @ (if p then ''primary'' else ''backdrop'') =
      item' @ '':'' @ (if p' then ''primary'' else ''backdrop'')"
    unfolding image_key_def by (intro prefix_upto_colon show_int_no_colon)
  moreover have "item = item' \<and> p = p'"
    if "item @ '':'' @ (if p then ''primary'' else ''backdrop'') =
        item' @ '':'' @ (if p' then ''primary'' else ''backdrop'')"
    using arg_cong [OF that, of last] that by (cases p; cases p') auto
  ultimately show "u = u' \<and> item = item' \<and> p = p'" by (simp add: show_int_inj)
qed auto

text \<open>
  Eviction under the shared budget takes the least recently used entry over all stores: once the
  expired entries are gone and the budget is still exceeded, the candidate exists and no entry of
  any store was accessed before it.
\<close>

theorem candidate_least_recent:
  assumes "registry_ok r" "r1 = remove_all_expired [0..<length (stores r)] now r"
    and "limit_bytes r < used_bytes r1"
  shows "\<exists>a i k e. fst (oldest_candidate [0..<length (stores r)] now r1) = Some (a, i, k) \<and>
    view r1 i k = Some e \<and> accessed_at e = a \<and>
    (\<forall>j k' e'. view r1 j k' = Some e' \<longrightarrow> accessed_at e \<le> accessed_at e')"
proof -
  have "limit_bytes r < used_bytes r"
  proof (rule ccontr)
    assume "\<not> ?thesis"
    then show False using assms remove_all_expired_frame [OF assms(1), of "[0..<length (stores r)]" now]
      by simp
  qed
  from capacity_round [OF assms(1) this assms(2,3)] show ?thesis by (metis fst_conv)
qed

text \<open>A registry over its budget of three bytes with one entry of the given size, for the witnesses.\<close>

definition one_entry :: "nat \<Rightarrow> nat \<Rightarrow> registry" where
  "one_entry limit sz = store_entry 0 ''k''
     \<lparr>payload = Json_payload JNull, esize = sz, expires_at = 60, stored_at = 1, accessed_at = 1\<rparr>
     (empty_store \<lparr>max_entries = None, max_bytes = None\<rparr>) (next_access (new_registry limit))"

lemma first_store: "store_at (new_registry limit) 0 = Some (empty_store \<lparr>max_entries = None, max_bytes = None\<rparr>)"
  by (simp add: new_registry_def store_at_def ALL_IDS_def)

lemma one_entry_facts:
  "registry_ok (one_entry limit sz)" "limit_bytes (one_entry limit sz) = limit"
  "used_bytes (one_entry limit sz) = sz" "all_live 0 (one_entry limit sz)"
  "view (one_entry limit sz) i k = (if i = 0 \<and> k = ''k'' then Some
     \<lparr>payload = Json_payload JNull, esize = sz, expires_at = 60, stored_at = 1, accessed_at = 1\<rparr>
     else None)"
proof -
  show v: "view (one_entry limit sz) i k = (if i = 0 \<and> k = ''k'' then Some
     \<lparr>payload = Json_payload JNull, esize = sz, expires_at = 60, stored_at = 1, accessed_at = 1\<rparr>
     else None)" for i k
    unfolding one_entry_def by (subst view_store_entry) (simp_all add: first_store)
  show "registry_ok (one_entry limit sz)"
    unfolding one_entry_def
    by (rule store_entry_ok) (simp_all add: new_registry_ok first_store, simp_all add: empty_store_def
        new_registry_def)
  show "limit_bytes (one_entry limit sz) = limit" "used_bytes (one_entry limit sz) = sz"
    by (simp_all add: one_entry_def store_entry_def next_access_def new_registry_def)
  show "all_live 0 (one_entry limit sz)"
    unfolding all_live_def using v by (auto split: if_splits)
qed

theorem candidate_least_recent_witness:
  "\<exists>a i k e. fst (oldest_candidate [0..<length (stores (one_entry 3 4))] 0 (one_entry 3 4)) = Some (a, i, k) \<and>
    view (one_entry 3 4) i k = Some e \<and> accessed_at e = a"
proof -
  have id: "remove_all_expired is 0 (one_entry 3 4) = one_entry 3 4" for "is"
    by (induction "is") (simp_all add: remove_expired_live one_entry_facts)
  have "limit_bytes (one_entry 3 4) < used_bytes (one_entry 3 4)" by (simp add: one_entry_facts)
  from candidate_least_recent [OF one_entry_facts(1) id [symmetric] this] show ?thesis by blast
qed

text \<open>
  C38 The shared budget can stay exceeded: when the least recently used entry has size zero (a cached
  empty text), evicting it frees nothing and \<open>ensure_capacity\<close> stops, whatever else is stored.
\<close>

theorem zero_size_victim_stops:
  assumes ok: "registry_ok r" and live: "all_live now r" and over: "limit_bytes r < used_bytes r"
    and e: "view r i k = Some e" "esize e = 0"
    and oldest: "\<And>j k' e'. view r j k' = Some e' \<Longrightarrow> (j, k') = (i, k) \<or> accessed_at e < accessed_at e'"
  shows "used_bytes (ensure_capacity now r) = used_bytes r"
proof -
  let ?ix = "[0..<length (stores r)]"
  have id: "remove_all_expired is now r = r" for "is"
    by (induction "is") (simp_all add: remove_expired_live ok live)
  obtain a j k' e' where c: "oldest_candidate ?ix now r = (Some (a, j, k'), r)"
    "view r j k' = Some e'" "accessed_at e' = a" "\<And>i k e. view r i k = Some e \<Longrightarrow> a \<le> accessed_at e"
    using capacity_round [OF ok over id [of ?ix, symmetric] over] by metis
  have jk: "j = i" "k' = k" using oldest [OF c(2)] c(4) [OF e(1)] c(3) by auto
  have u: "used_bytes (evict i k True r) = used_bytes r"
    using evict_amounts [OF ok e(1)] e(2) by simp
  have "capacity_rounds (Suc n) now r = evict i k True r" for n
    using over c(1) jk u by (simp add: capacity_rounds.simps id Let_def)
  then have "ensure_capacity now r = evict i k True r"
    unfolding ensure_capacity_def CAPACITY_ROUNDS_def by (metis numeral_eq_Suc)
  with u show ?thesis by simp
qed

text \<open>The same with a second, later entry of four bytes.\<close>

definition two_entries :: registry where
  "two_entries =
     (let r = one_entry 3 0
      in store_entry 1 ''l''
           \<lparr>payload = Json_payload JNull, esize = 4, expires_at = 60, stored_at = 2, accessed_at = 2\<rparr>
           (empty_store \<lparr>max_entries = Some 2000, max_bytes = None\<rparr>) (next_access r))"

lemma second_store:
  "store_at (one_entry limit sz) 1 = Some (empty_store \<lparr>max_entries = Some 2000, max_bytes = None\<rparr>)"
  by (simp add: one_entry_def store_entry_def) (simp add: new_registry_def store_at_def ALL_IDS_def)

lemma two_entries_view:
  "view two_entries i k =
     (if i = 0 \<and> k = ''k'' then Some
        \<lparr>payload = Json_payload JNull, esize = 0, expires_at = 60, stored_at = 1, accessed_at = 1\<rparr>
      else if i = 1 \<and> k = ''l'' then Some
        \<lparr>payload = Json_payload JNull, esize = 4, expires_at = 60, stored_at = 2, accessed_at = 2\<rparr>
      else None)"
  unfolding two_entries_def Let_def
  by (subst view_store_entry) (use second_store in \<open>auto simp: one_entry_facts\<close>)

theorem zero_size_victim_stops_witness:
  "used_bytes (ensure_capacity 0 two_entries) = 4 \<and> limit_bytes two_entries = 3"
proof -
  have ok: "registry_ok two_entries"
    unfolding two_entries_def Let_def
    by (rule store_entry_ok)
       (use second_store in \<open>simp_all add: one_entry_facts\<close>, simp_all add: empty_store_def one_entry_def
        store_entry_def next_access_def new_registry_def)
  have amounts: "limit_bytes two_entries = 3" "used_bytes two_entries = 4"
    by (simp_all add: two_entries_def Let_def store_entry_def next_access_def one_entry_facts)
  have "used_bytes (ensure_capacity 0 two_entries) = used_bytes two_entries"
    by (rule zero_size_victim_stops [OF ok, of _ 0 "''k''"])
       (auto simp: all_live_def two_entries_view amounts split: if_splits)
  then show ?thesis using amounts by simp
qed

text \<open>
  A lookup: the stored payload and one more hit when the key is stored and not expired, nothing and
  one more miss otherwise; the other counters and the other entries are as they were.
\<close>

theorem cache_get_functional:
  assumes "registry_ok r" "store_at r i = Some s" "cache_get i key now r = (x, r')"
  shows "x = map_option payload (opt_filter (\<lambda>e. now < expires_at e) (view r i key)) \<and>
    (\<exists>s'. store_at r' i = Some s' \<and>
       hits s' = hits s + (if x = None then 0 else 1) \<and>
       misses s' = misses s + (if x = None then 1 else 0)) \<and>
    (\<forall>j k. map_option payload (view r' j k) =
       (if j = i \<and> k = key \<and> x = None then None else map_option payload (view r j k)))"
proof (cases "view r i key")
  case None
  then have "bt_get (entries s) key = None" using assms(2) by (simp add: view_def)
  then show ?thesis
    using assms(2,3) None
    by (auto simp: cache_get_def bump_def view_def store_at_Some_lt split: option.splits if_splits)
next
  case (Some e)
  then have e: "bt_get (entries s) key = Some e" using assms(2) by (simp add: view_def)
  show ?thesis
  proof (cases "now < expires_at e")
    case True
    have r': "x = Some (payload e)"
      "r' = set_store i (move_entry key (access (next_access r)) e (s\<lparr>hits := hits s + 1\<rparr>))
              (next_access r)"
      using assms(2,3) e True
      by (auto simp: cache_get_def Let_def bump_def next_access_def store_at_Some_lt)
    then show ?thesis
      using Some True assms(2) e
      by (auto simp: view_def move_entry_def next_access_def bt_get_insert store_at_Some_lt
          split: option.splits)
  next
    case False
    then have r': "x = None" "r' = bump i False (evict i key False r)"
      using assms(2,3) e by (auto simp: cache_get_def)
    then show ?thesis
      using Some False assms(2) e
      by (auto simp: bump_def evict_def drop_entry_def view_def bt_get_remove store_at_Some_lt
          split: option.splits)
  qed
qed

theorem cache_get_functional_witness:
  "fst (cache_get 0 ''k'' 59 (one_entry 10 4)) = Some (Json_payload JNull) \<and>
   fst (cache_get 0 ''k'' 60 (one_entry 10 4)) = None"
proof -
  obtain s where s: "store_at (one_entry 10 4) 0 = Some s"
    using one_entry_facts(5) [of 10 4 0 "''k''"] by (auto simp: view_def split: option.splits)
  show ?thesis
    using cache_get_functional [OF one_entry_facts(1) s, of "''k''" 59]
      cache_get_functional [OF one_entry_facts(1) s, of "''k''" 60]
    by (auto simp: one_entry_facts prod_eq_iff opt_filter_def)
qed

end
