(* ===== verification/Lru.thy ===== *)
theory Lru
  imports Sorted_Store
begin

section \<open>The bounded LRU cache of the mapping layer\<close>

text \<open>
  \<open>src/backend-rs/src/mappinglayer/lru.rs\<close>: entries with the stamp of their last use, and a queue of
  recency marks in which a mark whose stamp is no longer its entry's is skipped (\<open>touch\<close> only
  appends) and dropped once the marks pile up (\<open>compact\<close>). The clock \<open>Instant::now()\<close> is an argument,
  in seconds. The specification is a list of entries, least recently used first; \<open>lru_abs\<close> reads it
  off a cache and every operation of the code implements its counterpart on the list, so the stale
  marks and the compaction are invisible.
\<close>

subsection \<open>The code\<close>

record ('k, 'v) lru =
  lru_max :: nat
  lru_ttl :: "nat option"
  lru_entries :: "('k \<times> ('v \<times> nat option \<times> nat)) list"
  lru_order :: "('k \<times> nat) list"
  lru_clock :: nat

definition lru_new :: "nat \<Rightarrow> nat option \<Rightarrow> ('k, 'v) lru" where
  "lru_new m ttl = \<lparr>lru_max = m, lru_ttl = ttl, lru_entries = [], lru_order = [], lru_clock = 0\<rparr>"

definition lru_touch :: "'k \<Rightarrow> ('k, 'v) lru \<Rightarrow> ('k, 'v) lru" where
  "lru_touch key c =
     c\<lparr>lru_clock := lru_clock c + 1, lru_order := lru_order c @ [(key, lru_clock c + 1)]\<rparr>"

definition mark_current :: "('k::linorder \<times> ('v \<times> nat option \<times> nat)) list \<Rightarrow> 'k \<times> nat \<Rightarrow> bool" where
  "mark_current m p \<longleftrightarrow> (case bt_get m (fst p) of Some (_, _, s) \<Rightarrow> s = snd p | None \<Rightarrow> False)"

definition lru_compact :: "('k::linorder, 'v) lru \<Rightarrow> ('k, 'v) lru" where
  "lru_compact c =
     (if max (lru_max c * 4) 64 < length (lru_order c)
      then c\<lparr>lru_order := filter (mark_current (lru_entries c)) (lru_order c)\<rparr>
      else c)"

definition lru_get :: "'k \<Rightarrow> nat \<Rightarrow> ('k::linorder, 'v) lru \<Rightarrow> 'v option \<times> ('k, 'v) lru" where
  "lru_get key now c =
     (case bt_get (lru_entries c) key of
        None \<Rightarrow> (None, c)
      | Some (v, expires, _) \<Rightarrow>
          if (case expires of Some t \<Rightarrow> t \<le> now | None \<Rightarrow> False)
          then (None, c\<lparr>lru_entries := bt_remove key (lru_entries c)\<rparr>)
          else
            let c = lru_touch key c
            in (Some v, lru_compact (c\<lparr>lru_entries :=
                  bt_insert key (v, expires, lru_clock c) (lru_entries c)\<rparr>)))"

fun lru_trim ::
  "nat \<Rightarrow> ('k::linorder \<times> ('v \<times> nat option \<times> nat)) list \<Rightarrow> ('k \<times> nat) list
     \<Rightarrow> ('k \<times> ('v \<times> nat option \<times> nat)) list \<times> ('k \<times> nat) list" where
  "lru_trim m es [] = (es, [])"
| "lru_trim m es (p # ps) =
     (if m < length es
      then lru_trim m (if mark_current es p then bt_remove (fst p) es else es) ps
      else (es, p # ps))"

definition lru_set :: "'k \<Rightarrow> 'v \<Rightarrow> nat \<Rightarrow> ('k::linorder, 'v) lru \<Rightarrow> ('k, 'v) lru" where
  "lru_set key v now c =
     (let expires = map_option (\<lambda>ttl. now + ttl) (lru_ttl c);
          c = lru_touch key c;
          (es, ord) = lru_trim (lru_max c) (bt_insert key (v, expires, lru_clock c) (lru_entries c))
                        (lru_order c)
      in lru_compact (c\<lparr>lru_entries := es, lru_order := ord\<rparr>))"

definition lru_clear :: "('k, 'v) lru \<Rightarrow> ('k, 'v) lru" where
  "lru_clear c = c\<lparr>lru_entries := [], lru_order := []\<rparr>"

subsection \<open>The specification: a list of entries, least recently used first\<close>

type_synonym ('k, 'v) lru_list = "('k \<times> 'v \<times> nat option) list"

definition spec_get :: "'k \<Rightarrow> nat \<Rightarrow> ('k, 'v) lru_list \<Rightarrow> 'v option \<times> ('k, 'v) lru_list" where
  "spec_get key now xs =
     (let rest = filter (\<lambda>x. fst x \<noteq> key) xs
      in case find (\<lambda>x. fst x = key) xs of
           None \<Rightarrow> (None, xs)
         | Some (_, v, expires) \<Rightarrow>
             if (case expires of Some t \<Rightarrow> t \<le> now | None \<Rightarrow> False) then (None, rest)
             else (Some v, rest @ [(key, v, expires)]))"

definition spec_set ::
  "nat \<Rightarrow> nat option \<Rightarrow> 'k \<Rightarrow> 'v \<Rightarrow> nat \<Rightarrow> ('k, 'v) lru_list \<Rightarrow> ('k, 'v) lru_list" where
  "spec_set m ttl key v now xs =
     (let ys = filter (\<lambda>x. fst x \<noteq> key) xs @ [(key, v, map_option (\<lambda>t. now + t) ttl)]
      in drop (length ys - m) ys)"

definition mark_entry ::
  "('k::linorder \<times> ('v \<times> nat option \<times> nat)) list \<Rightarrow> 'k \<times> nat \<Rightarrow> ('k \<times> 'v \<times> nat option) option" where
  "mark_entry m p =
     (case bt_get m (fst p) of
        Some (v, ex, s) \<Rightarrow> if s = snd p then Some (fst p, v, ex) else None
      | None \<Rightarrow> None)"

definition marks_abs ::
  "('k::linorder \<times> ('v \<times> nat option \<times> nat)) list \<Rightarrow> ('k \<times> nat) list \<Rightarrow> ('k, 'v) lru_list" where
  "marks_abs m ps = List.map_filter (mark_entry m) ps"

definition lru_abs :: "('k::linorder, 'v) lru \<Rightarrow> ('k, 'v) lru_list" where
  "lru_abs c = marks_abs (lru_entries c) (lru_order c)"

subsection \<open>The invariant\<close>

definition marks_ok ::
  "nat \<Rightarrow> ('k::linorder \<times> ('v \<times> nat option \<times> nat)) list \<Rightarrow> ('k \<times> nat) list \<Rightarrow> bool" where
  "marks_ok clock m ps \<longleftrightarrow>
     bt_ok m \<and> sorted_wrt (<) (map snd ps) \<and> (\<forall>p \<in> set ps. snd p \<le> clock) \<and>
     (\<forall>k v ex s. bt_get m k = Some (v, ex, s) \<longrightarrow> (k, s) \<in> set ps)"

definition lru_ok :: "('k::linorder, 'v) lru \<Rightarrow> bool" where
  "lru_ok c \<longleftrightarrow> marks_ok (lru_clock c) (lru_entries c) (lru_order c) \<and>
     length (lru_entries c) \<le> lru_max c"

lemma mark_entry_current: "mark_entry m p \<noteq> None \<longleftrightarrow> mark_current m p"
  by (auto simp: mark_entry_def mark_current_def split: option.splits)

lemma mark_entry_Some:
  "mark_entry m p = Some x \<longleftrightarrow>
     (\<exists>v ex. x = (fst p, v, ex) \<and> bt_get m (fst p) = Some (v, ex, snd p))"
  by (auto simp: mark_entry_def split: option.splits)

lemma marks_abs_Nil [simp]: "marks_abs m [] = []"
  by (simp add: marks_abs_def map_filter_simps)

lemma marks_abs_Cons [simp]:
  "marks_abs m (p # ps) = (case mark_entry m p of Some x \<Rightarrow> x # marks_abs m ps | None \<Rightarrow> marks_abs m ps)"
  by (simp add: marks_abs_def map_filter_simps split: option.splits)

lemma marks_abs_append: "marks_abs m (ps @ qs) = marks_abs m ps @ marks_abs m qs"
  by (induction ps) (auto split: option.splits)

lemma in_marks_abs: "x \<in> set (marks_abs m ps) \<longleftrightarrow> (\<exists>p \<in> set ps. mark_entry m p = Some x)"
  by (induction ps) (auto split: option.splits)

lemma marks_abs_compact: "marks_abs m (filter (mark_current m) ps) = marks_abs m ps"
  by (induction ps) (auto simp: mark_entry_current [symmetric] split: option.splits)

lemma marks_abs_keys:
  assumes "marks_ok clock m ps"
  shows "(k, v, ex) \<in> set (marks_abs m ps) \<longleftrightarrow> (\<exists>s. bt_get m k = Some (v, ex, s))"
  using assms unfolding in_marks_abs marks_ok_def mark_entry_Some
  by (metis (no_types, lifting) fst_conv prod.inject snd_conv)

lemma marks_abs_distinct:
  assumes "sorted_wrt (<) (map snd ps)"
  shows "distinct (map fst (marks_abs m ps))"
  using assms
proof (induction ps)
  case (Cons p ps)
  have "fst p \<notin> fst ` set (marks_abs m ps)" if cur: "mark_current m p"
  proof
    assume "fst p \<in> fst ` set (marks_abs m ps)"
    then obtain q x where q: "q \<in> set ps" "mark_entry m q = Some x" "fst x = fst p"
      by (auto simp: in_marks_abs)
    then have "snd q = snd p"
      using cur by (auto simp: mark_entry_Some mark_current_def)
    then show False using Cons.prems q(1) by auto
  qed
  then show ?case
    using Cons mark_entry_current [of m p] by (auto simp: mark_entry_Some split: option.splits)
qed simp

lemma length_marks_abs:
  assumes "marks_ok clock m ps"
  shows "length (marks_abs m ps) = length m"
proof -
  have ok: "bt_ok m" and s: "sorted_wrt (<) (map snd ps)" using assms by (simp_all add: marks_ok_def)
  have "set (map fst (marks_abs m ps)) = set (map fst m)"
  proof (intro set_eqI)
    fix k
    have "k \<in> set (map fst (marks_abs m ps)) \<longleftrightarrow> bt_get m k \<noteq> None"
      using marks_abs_keys [OF assms, of k] by force
    then show "k \<in> set (map fst (marks_abs m ps)) \<longleftrightarrow> k \<in> set (map fst m)"
      by (simp add: bt_get_None)
  qed
  then show ?thesis
    using distinct_card [OF marks_abs_distinct [OF s, of m]] distinct_card [OF bt_ok_distinct [OF ok]]
    by simp
qed

lemma marks_ok_compact: "marks_ok clock m ps \<Longrightarrow> marks_ok clock m (filter (mark_current m) ps)"
  unfolding marks_ok_def
  by (auto simp: mark_current_def sorted_wrt_map intro: sorted_wrt_filter)

lemma mark_entry_fst: "mark_entry m p = Some x \<Longrightarrow> fst x = fst p"
  by (auto simp: mark_entry_Some)

text \<open>Removing a key filters the list; storing one under a fresh stamp moves it to the end.\<close>

lemma marks_abs_remove: "marks_abs (bt_remove k m) ps = filter (\<lambda>x. fst x \<noteq> k) (marks_abs m ps)"
proof (induction ps)
  case (Cons p ps)
  have "mark_entry (bt_remove k m) p = (if fst p = k then None else mark_entry m p)"
    by (simp add: mark_entry_def bt_get_remove)
  then show ?case
    using Cons by (cases "mark_entry m p") (auto dest: mark_entry_fst)
qed simp

lemma marks_ok_remove: "marks_ok clock m ps \<Longrightarrow> marks_ok clock (bt_remove k m) ps"
  by (auto simp: marks_ok_def bt_get_remove)

lemma marks_abs_store_old:
  assumes "\<forall>p \<in> set ps. snd p < c"
  shows "marks_abs (bt_insert k (v, ex, c) m) ps = filter (\<lambda>x. fst x \<noteq> k) (marks_abs m ps)"
  using assms
proof (induction ps)
  case (Cons p ps)
  have "mark_entry (bt_insert k (v, ex, c) m) p = (if fst p = k then None else mark_entry m p)"
    using Cons.prems by (auto simp: mark_entry_def bt_get_insert)
  then show ?case
    using Cons by (cases "mark_entry m p") (auto dest: mark_entry_fst)
qed simp

lemma marks_abs_store:
  assumes "marks_ok clock m ps"
  shows "marks_abs (bt_insert k (v, ex, Suc clock) m) (ps @ [(k, Suc clock)]) =
     filter (\<lambda>x. fst x \<noteq> k) (marks_abs m ps) @ [(k, v, ex)]"
proof -
  have "\<forall>p \<in> set ps. snd p < Suc clock" using assms by (auto simp: marks_ok_def)
  then show ?thesis
    by (simp add: marks_abs_append marks_abs_store_old mark_entry_def bt_get_insert)
qed

lemma marks_ok_store:
  "marks_ok clock m ps \<Longrightarrow> marks_ok (Suc clock) (bt_insert k (v, ex, Suc clock) m) (ps @ [(k, Suc clock)])"
  unfolding marks_ok_def
  by (auto simp: bt_get_insert sorted_wrt_append le_imp_less_Suc le_SucI split: if_splits)

text \<open>Trimming from the front of the queue drops from the front of the list.\<close>

lemma marks_ok_tail:
  assumes "marks_ok clock m (p # ps)" "\<not> mark_current m p"
  shows "marks_ok clock m ps"
  using assms unfolding marks_ok_def mark_current_def by (fastforce split: option.splits)

lemma marks_ok_tail_remove:
  assumes "marks_ok clock m (p # ps)" "mark_current m p"
  shows "marks_ok clock (bt_remove (fst p) m) ps"
proof (cases p)
  case (Pair k s)
  then show ?thesis
    using assms(1) by (auto simp: marks_ok_def bt_get_remove split: if_splits) blast
qed

lemma marks_abs_head_fresh:
  assumes "sorted_wrt (<) (map snd (p # ps))" "mark_current m p"
  shows "fst p \<notin> fst ` set (marks_abs m ps)"
proof -
  obtain x where x: "mark_entry m p = Some x" using assms(2) mark_entry_current [of m p] by blast
  then show ?thesis
    using marks_abs_distinct [OF assms(1), of m] mark_entry_fst [OF x] by simp
qed

lemma lru_trim_refines:
  assumes "marks_ok clock m ps" "lru_trim n m ps = (m', ps')"
  shows "marks_ok clock m' ps' \<and> marks_abs m' ps' = drop (length m - n) (marks_abs m ps) \<and>
     length m' = min (length m) n"
  using assms
proof (induction n m ps rule: lru_trim.induct)
  case (1 n m)
  then have "bt_get m k = None" for k by (cases "bt_get m k") (auto simp: marks_ok_def)
  then have "m = []" by (cases m) (auto simp: bt_get_None)
  with 1 show ?case by simp
next
  case (2 n m p ps)
  show ?case
  proof (cases "n < length m")
    case False
    then show ?thesis using "2.prems" by auto
  next
    case over: True
    show ?thesis
    proof (cases "mark_current m p")
      case True
      obtain x where x: "bt_get m (fst p) = Some x"
        using True by (auto simp: mark_current_def split: option.splits)
      have ok: "bt_ok m" "sorted_wrt (<) (map snd (p # ps))" using "2.prems"(1) by (auto simp: marks_ok_def)
      have len: "Suc (length (bt_remove (fst p) m)) = length m" by (rule length_bt_remove [OF ok(1) x])
      have "marks_abs (bt_remove (fst p) m) ps = marks_abs m ps"
        using marks_abs_head_fresh [OF ok(2) True] unfolding marks_abs_remove
        by (intro filter_True) force
      moreover have "\<exists>y. mark_entry m p = Some y" using True mark_entry_current [of m p] by blast
      moreover have "length m - n = Suc (length (bt_remove (fst p) m) - n)" using len over by simp
      ultimately show ?thesis
        using "2.IH" [OF over] marks_ok_tail_remove [OF "2.prems"(1) True] "2.prems"(2) over True len
        by auto
    next
      case False
      then have "mark_entry m p = None" using mark_entry_current [of m p] by blast
      then show ?thesis
        using "2.IH" [OF over] marks_ok_tail [OF "2.prems"(1) False] "2.prems"(2) over False by simp
    qed
  qed
qed

subsection \<open>The refinement\<close>

lemma lru_compact_abs: "lru_abs (lru_compact c) = lru_abs c"
  by (simp add: lru_compact_def lru_abs_def marks_abs_compact)

lemma lru_compact_ok: "lru_ok c \<Longrightarrow> lru_ok (lru_compact c)"
  by (simp add: lru_compact_def lru_ok_def marks_ok_compact)

lemma lru_new_refines: "lru_ok (lru_new m ttl)" "lru_abs (lru_new m ttl) = []"
  by (simp_all add: lru_new_def lru_ok_def lru_abs_def marks_ok_def)

lemma lru_clear_refines: "lru_ok c \<Longrightarrow> lru_ok (lru_clear c)" "lru_abs (lru_clear c) = []"
  by (simp_all add: lru_clear_def lru_ok_def lru_abs_def marks_ok_def)

lemma find_marks:
  assumes "marks_ok clock m ps"
  shows "find (\<lambda>x. fst x = k) (marks_abs m ps) = map_option (\<lambda>(v, ex, _). (k, v, ex)) (bt_get m k)"
proof (cases "bt_get m k")
  case None
  then show ?thesis
    using marks_abs_keys [OF assms, of k] by (auto simp: find_None_iff)
next
  case (Some e)
  obtain v ex s where e: "e = (v, ex, s)" by (cases e)
  have "find (\<lambda>x. fst x = k) (marks_abs m ps) \<noteq> None"
    using marks_abs_keys [OF assms, of k v ex] Some e unfolding find_None_iff by force
  then obtain y where y: "find (\<lambda>x. fst x = k) (marks_abs m ps) = Some y" by blast
  then have "y \<in> set (marks_abs m ps)" "fst y = k" by (auto simp: find_Some_iff)
  then have "fst (snd y) = v \<and> snd (snd y) = ex"
    using marks_abs_keys [OF assms, of k "fst (snd y)" "snd (snd y)"] Some e by auto
  with \<open>fst y = k\<close> have "y = (k, v, ex)" by (simp add: prod_eq_iff)
  with y Some e show ?thesis by simp
qed

text \<open>
  A lookup of the bounded cache is a lookup of the list: the same answer, the entry moved to the
  most recent end or dropped when expired, and the invariant kept; marks left behind do not show.
\<close>

theorem lru_get_refines:
  assumes "lru_ok c"
  shows "fst (lru_get key now c) = fst (spec_get key now (lru_abs c)) \<and>
    lru_abs (snd (lru_get key now c)) = snd (spec_get key now (lru_abs c)) \<and>
    lru_ok (snd (lru_get key now c))"
proof -
  have ok: "marks_ok (lru_clock c) (lru_entries c) (lru_order c)" and len: "length (lru_entries c) \<le> lru_max c"
    using assms by (simp_all add: lru_ok_def)
  note f = find_marks [OF ok, of key, folded lru_abs_def]
  show ?thesis
  proof (cases "bt_get (lru_entries c) key")
    case None
    then show ?thesis using f assms by (simp add: lru_get_def spec_get_def Let_def)
  next
    case (Some e)
    obtain v ex s where e: "e = (v, ex, s)" by (cases e)
    let ?c = "c\<lparr>lru_clock := Suc (lru_clock c), lru_order := lru_order c @ [(key, Suc (lru_clock c))],
      lru_entries := bt_insert key (v, ex, Suc (lru_clock c)) (lru_entries c)\<rparr>"
    have "length (bt_insert key (v, ex, Suc (lru_clock c)) (lru_entries c)) \<le> lru_max c"
      using len length_bt_insert [of "lru_entries c" key e] Some ok by (simp add: marks_ok_def)
    then have "lru_ok ?c" using marks_ok_store [OF ok] by (simp add: lru_ok_def)
    moreover have "lru_abs ?c = filter (\<lambda>x. fst x \<noteq> key) (lru_abs c) @ [(key, v, ex)]"
      using marks_abs_store [OF ok] by (simp add: lru_abs_def)
    moreover have "lru_ok (c\<lparr>lru_entries := bt_remove key (lru_entries c)\<rparr>)"
      using marks_ok_remove [OF ok] le_trans [OF length_bt_remove_le len] by (simp add: lru_ok_def)
    moreover have "lru_abs (c\<lparr>lru_entries := bt_remove key (lru_entries c)\<rparr>) =
        filter (\<lambda>x. fst x \<noteq> key) (lru_abs c)"
      by (simp add: lru_abs_def marks_abs_remove)
    ultimately show ?thesis
      using f Some e
      by (simp add: lru_get_def spec_get_def Let_def lru_touch_def lru_compact_abs lru_compact_ok)
  qed
qed

text \<open>
  C36 A store into the bounded cache appends to the list and drops the least recently used entries over
  the bound, and at most \<open>max\<close> entries are left.
\<close>

theorem lru_set_refines:
  assumes "lru_ok c"
  shows "lru_abs (lru_set key v now c) = spec_set (lru_max c) (lru_ttl c) key v now (lru_abs c) \<and>
    lru_ok (lru_set key v now c) \<and> length (lru_entries (lru_set key v now c)) \<le> lru_max c"
proof -
  have ok: "marks_ok (lru_clock c) (lru_entries c) (lru_order c)" using assms by (simp add: lru_ok_def)
  let ?ex = "map_option (\<lambda>ttl. now + ttl) (lru_ttl c)"
  let ?m = "bt_insert key (v, ?ex, Suc (lru_clock c)) (lru_entries c)"
  let ?ps = "lru_order c @ [(key, Suc (lru_clock c))]"
  obtain m' ps' where t: "lru_trim (lru_max c) ?m ?ps = (m', ps')" by force
  have ok1: "marks_ok (Suc (lru_clock c)) ?m ?ps" by (rule marks_ok_store [OF ok])
  have len: "length (marks_abs ?m ?ps) = length ?m" by (rule length_marks_abs [OF ok1])
  have r: "marks_ok (Suc (lru_clock c)) m' ps'"
    "marks_abs m' ps' = drop (length ?m - lru_max c) (marks_abs ?m ?ps)"
    "length m' = min (length ?m) (lru_max c)"
    using lru_trim_refines [OF ok1 t] by auto
  let ?c = "c\<lparr>lru_clock := Suc (lru_clock c), lru_entries := m', lru_order := ps'\<rparr>"
  have eq: "lru_set key v now c = lru_compact ?c"
    using t by (simp add: lru_set_def Let_def lru_touch_def)
  have a: "marks_abs ?m ?ps = filter (\<lambda>x. fst x \<noteq> key) (lru_abs c) @ [(key, v, ?ex)]"
    unfolding lru_abs_def by (rule marks_abs_store [OF ok])
  have "lru_abs (lru_set key v now c) = marks_abs m' ps'"
    by (simp add: eq lru_compact_abs) (simp add: lru_abs_def)
  also have "\<dots> = spec_set (lru_max c) (lru_ttl c) key v now (lru_abs c)"
    using r(2) len a by (simp add: spec_set_def Let_def)
  finally have "lru_abs (lru_set key v now c) = spec_set (lru_max c) (lru_ttl c) key v now (lru_abs c)" .
  moreover have "lru_ok (lru_set key v now c)"
    unfolding eq using r(1,3) by (intro lru_compact_ok) (simp add: lru_ok_def)
  moreover have "length (lru_entries (lru_set key v now c)) \<le> lru_max c"
    using r(3) by (simp add: eq lru_compact_def)
  ultimately show ?thesis by blast
qed

theorem lru_get_refines_witness:
  "lru_abs (snd (lru_get (1::nat) 0 (lru_set 2 CHR ''b'' 0 (lru_set 1 CHR ''a'' 0 (lru_new 2 None)))))
     = [(2, CHR ''b'', None), (1, CHR ''a'', None)]"
  using lru_get_refines [of "lru_set 2 CHR ''b'' 0 (lru_set (1::nat) CHR ''a'' 0 (lru_new 2 None))" 1 0]
  by (simp add: lru_set_def lru_new_def lru_touch_def lru_compact_def lru_ok_def marks_ok_def
      lru_abs_def spec_get_def mark_entry_def Let_def)

theorem lru_set_refines_witness:
  "lru_abs (lru_set (3::nat) CHR ''c'' 0 (lru_new 0 (Some 5))) = [] \<and>
   lru_abs (lru_set (3::nat) CHR ''c'' 0 (lru_new 1 (Some 5))) = [(3, CHR ''c'', Some 5)]"
  using lru_set_refines [OF lru_new_refines(1) [of 0 "Some 5"], of "3::nat" "CHR ''c''" 0]
    lru_set_refines [OF lru_new_refines(1) [of 1 "Some 5"], of "3::nat" "CHR ''c''" 0]
  by (simp add: lru_new_refines(2)) (simp add: lru_new_def spec_set_def)

end
