(* ===== verification/Calendar.thy ===== *)
theory Calendar
  imports Texts
begin

section \<open>Civil dates and the Unix clock\<close>

text \<open>
  \<open>src/backend-rs/src/clock.rs\<close>: a moment in milliseconds as UTC calendar fields and back (Howard
  Hinnant's algorithms), its two text forms and the parser of dates; and the calendar helpers of
  \<open>jobs/cron.rs\<close>. Years are \<open>int\<close>, the \<open>u32\<close> fields \<open>nat\<close> (\<open>to_u32\<close> of a negative is 0, as is
  \<open>nat\<close>); \<open>div_euclid\<close> and \<open>rem_euclid\<close> by a positive number are \<open>div\<close> and \<open>mod\<close>.
  \<open>calendar\<close> is the interface the cron search uses: what the day after a date is, and that a
  date's fields name its day. The algorithms of \<open>clock.rs\<close> are shown to provide it.
\<close>

subsection \<open>Leap years and months\<close>

definition is_leap :: "int \<Rightarrow> bool" where
  "is_leap year \<longleftrightarrow> (year mod 4 = 0 \<and> year mod 100 \<noteq> 0) \<or> year mod 400 = 0"

definition days_in :: "int \<Rightarrow> int \<Rightarrow> int" where
  "days_in year month =
     (if month = 2 \<and> is_leap year then 29
      else if month = 2 then 28
      else if month = 4 \<or> month = 6 \<or> month = 9 \<or> month = 11 then 30
      else 31)"

subsection \<open>Days and civil dates\<close>

text \<open>The date part of \<open>Utc::from_unix_millis\<close>, from days since 1970-01-01.\<close>

definition civil :: "int \<Rightarrow> int \<times> int \<times> int" where
  "civil days =
     (let z = days + 719468;
          era = z div 146097;
          doe = z mod 146097;
          yoe = (doe - doe div 1460 + doe div 36524 - doe div 146096) div 365;
          doy = doe - (365 * yoe + yoe div 4 - yoe div 100);
          mp = (5 * doy + 2) div 153;
          day = doy - (153 * mp + 2) div 5 + 1;
          month = (if mp < 10 then mp + 3 else mp - 9);
          year = yoe + era * 400 + (if month \<le> 2 then 1 else 0)
      in (year, month, day))"

definition days_from_civil :: "int \<Rightarrow> int \<Rightarrow> int \<Rightarrow> int" where
  "days_from_civil year month day =
     (let y = (if month \<le> 2 then year - 1 else year);
          era = y div 400;
          yoe = y mod 400;
          mp = (if month > 2 then month - 3 else month + 9);
          doy = (153 * mp + 2) div 5 + day - 1;
          doe = yoe * 365 + yoe div 4 - yoe div 100 + doy
      in era * 146097 + doe - 719468)"

record utc =
  year_of :: int
  month_of :: nat
  day_of :: nat
  hour_of :: nat
  minute_of :: nat
  second_of :: nat
  millis_of :: nat

definition from_unix_millis :: "int \<Rightarrow> utc" where
  "from_unix_millis ms =
     (let days = ms div 86400000;
          rem = ms mod 86400000;
          (y, m, d) = civil days
      in \<lparr>year_of = y, month_of = nat m, day_of = nat d, hour_of = nat (rem div 3600000),
          minute_of = nat (rem div 60000 mod 60), second_of = nat (rem div 1000 mod 60),
          millis_of = nat (rem mod 1000)\<rparr>)"

definition plus_years :: "utc \<Rightarrow> int \<Rightarrow> utc" where
  "plus_years u n = u\<lparr>year_of := year_of u + n\<rparr>"

subsection \<open>The year of an era\<close>

text \<open>
  Within an era of 400 years counted from March, year \<open>y\<close> starts at day \<open>year_start y\<close>. The code
  reads the year off the day with \<open>era_year\<close>; it is monotone, so checking it at the first and the
  last day of each of the 400 years is enough.
\<close>

definition year_start :: "int \<Rightarrow> int" where
  "year_start y = 365 * y + y div 4 - y div 100"

definition year_end :: "int \<Rightarrow> int" where
  "year_end y = (if y = 399 then 146097 else year_start (y + 1))"

definition skipped :: "int \<Rightarrow> int" where
  "skipped doe = doe - doe div 1460 + doe div 36524 - doe div 146096"

lemma div_step:
  fixes b k :: int
  assumes "0 < k"
  shows "(b + 1) div k = b div k + (if (b + 1) mod k = 0 then 1 else 0)"
proof -
  obtain q r where q: "b + 1 = k * q + r" "q = (b + 1) div k" "r = (b + 1) mod k"
    by (metis mult_div_mod_eq)
  have r: "0 \<le> r" "r < k" using assms q(3) by simp_all
  show ?thesis
  proof (cases "r = 0")
    case True
    have "b = k * (q - 1) + (k - 1)" using q(1) True by (simp add: right_diff_distrib)
    then have "b div k = q - 1"
      by (rule int_div_pos_eq) (use assms in auto)
    then show ?thesis using q(2,3) True by simp
  next
    case False
    have "b = k * q + (r - 1)" using q(1) by simp
    then have "b div k = q"
      by (rule int_div_pos_eq) (use False r in auto)
    then show ?thesis using q(2,3) False by simp
  qed
qed

lemma skipped_arith:
  "(A \<longrightarrow> B) \<Longrightarrow> x - p + q - r \<le> (x + 1) - (p + (if C then 1 else 0)) + (q + (if B then 1 else 0))
     - (r + (if A then 1 else 0))" for x p q r :: int
  by simp

lemma skipped_step: "skipped b \<le> skipped (b + 1)"
proof -
  have c: "(b + 1) mod 146096 = 0 \<longrightarrow> (b + 1) mod 36524 = 0"
    unfolding mod_eq_0_iff_dvd using dvd_trans [of 36524 "146096::int" "b + 1"] by force
  show ?thesis
    unfolding skipped_def
      div_step [of 1460 b, OF zero_less_numeral] div_step [of 36524 b, OF zero_less_numeral]
      div_step [of 146096 b, OF zero_less_numeral]
    by (rule skipped_arith [OF c])
qed

lemma skipped_mono: "a \<le> b \<Longrightarrow> skipped a \<le> skipped b"
proof (induction b rule: int_ge_induct)
  case (step i)
  then show ?case using skipped_step [of i] by simp
qed simp

lemma year_ends:
  assumes "0 \<le> y" "y < 400"
  shows "365 * y \<le> skipped (year_start y) \<and> skipped (year_end y - 1) < 365 * (y + 1)"
proof -
  have "list_all (\<lambda>y. 365 * y \<le> skipped (year_start y) \<and> skipped (year_end y - 1) < 365 * (y + 1)) [0..399]"
    by code_simp
  then show ?thesis using assms by (auto simp: list_all_iff)
qed

lemma era_year:
  assumes "0 \<le> y" "y < 400" "year_start y \<le> doe" "doe < year_end y"
  shows "skipped doe div 365 = y"
proof -
  have "365 * y \<le> skipped doe" "skipped doe < 365 * (y + 1)"
    using year_ends [OF assms(1,2)] skipped_mono [OF assms(3)] skipped_mono [of doe "year_end y - 1"]
      assms(4) by auto
  then show ?thesis
    by (intro int_div_pos_eq [where r = "skipped doe - 365 * y"]) auto
qed

lemma year_len: "year_end y - year_start y =
    365 + (if (y + 1) mod 4 = 0 then 1 else 0) - (if (y + 1) mod 100 = 0 then 1 else 0)
      + (if y = 399 then 1 else 0)"
  using div_step [of 4 y] div_step [of 100 y] by (simp add: year_end_def year_start_def)

lemma year_covers:
  assumes "0 \<le> doe" "doe < 146097"
  obtains y where "0 \<le> y" "y < 400" "year_start y \<le> doe" "doe < year_end y"
proof -
  have "\<exists>y. 0 \<le> y \<and> y < int n \<and> year_start y \<le> doe \<and> doe < year_end y"
    if "n \<le> 400" "0 < n" "doe < year_end (int n - 1)" for n
    using that
  proof (induction n)
    case (Suc n)
    show ?case
    proof (cases "year_start (int n) \<le> doe")
      case True
      then show ?thesis using Suc.prems by (intro exI [of _ "int n"]) simp
    next
      case False
      have n: "0 < n"
        using False assms(1) by (cases n) (auto simp: year_start_def)
      then have "year_end (int n - 1) = year_start (int n)"
        using Suc.prems(1) by (simp add: year_end_def)
      then have "\<exists>y. 0 \<le> y \<and> y < int n \<and> year_start y \<le> doe \<and> doe < year_end y"
        using Suc.IH Suc.prems(1) n False by simp
      then show ?thesis by force
    qed
  qed simp
  from this [of 400] that assms(2) show ?thesis by (auto simp: year_end_def)
qed

subsection \<open>The month of a year\<close>

definition month_index :: "int \<Rightarrow> int" where
  "month_index doy = (5 * doy + 2) div 153"

definition month_start :: "int \<Rightarrow> int" where
  "month_start mp = (153 * mp + 2) div 5"

definition month_len :: "int \<Rightarrow> int" where
  "month_len mp = (if mp = 11 then 29 else month_start (mp + 1) - month_start mp)"

lemma month_of_day:
  assumes "0 \<le> doy" "doy < 366"
  shows "0 \<le> month_index doy \<and> month_index doy \<le> 11 \<and> month_start (month_index doy) \<le> doy \<and>
    doy < month_start (month_index doy) + month_len (month_index doy)"
proof -
  have "list_all (\<lambda>doy. 0 \<le> month_index doy \<and> month_index doy \<le> 11 \<and>
      month_start (month_index doy) \<le> doy \<and>
      doy < month_start (month_index doy) + month_len (month_index doy)) [0..365]"
    by code_simp
  then show ?thesis using assms by (auto simp: list_all_iff)
qed

lemma month_of_start:
  assumes "0 \<le> mp" "mp \<le> 11" "month_start mp \<le> doy" "doy < month_start mp + month_len mp"
  shows "month_index doy = mp"
proof -
  have "list_all (\<lambda>mp. list_all (\<lambda>doy. month_index doy = mp)
      [month_start mp..month_start mp + month_len mp - 1]) [0..11]"
    by code_simp
  then show ?thesis using assms by (auto simp: list_all_iff)
qed

text \<open>The length of a month as the code's calendar has it, by the month counted from March.\<close>

definition civil_month :: "int \<Rightarrow> int" where
  "civil_month mp = (if mp < 10 then mp + 3 else mp - 9)"

lemma month_len_days_in:
  assumes "0 \<le> mp" "mp \<le> 10"
  shows "days_in y (civil_month mp) = month_len mp"
proof -
  have "list_all (\<lambda>mp. (if civil_month mp = 4 \<or> civil_month mp = 6 \<or> civil_month mp = 9 \<or>
      civil_month mp = 11 then 30 else 31) = month_len mp \<and> civil_month mp \<noteq> 2) [0..10]"
    by code_simp
  then show ?thesis using assms by (auto simp: list_all_iff days_in_def)
qed

subsection \<open>Dates and days\<close>

lemma era_mods:
  "(a + e * 400) mod 4 = a mod 4" "(a + e * 400) mod 100 = a mod 100" "(a + e * 400) mod 400 = a mod 400"
  for a e :: int
  using mod_mult_self1 [of a "e * 100" 4] mod_mult_self1 [of a "e * 4" 100] mod_mult_self1 [of a e 400]
  by (simp_all add: mult.commute)

lemma leap_year_len:
  assumes "0 \<le> y" "y < 400"
  shows "year_end y - year_start y = (if is_leap (y + 1 + e * 400) then 366 else 365)"
proof -
  have four: "(y + 1) mod 100 = 0 \<longrightarrow> (y + 1) mod 4 = 0"
    unfolding mod_eq_0_iff_dvd using dvd_trans [of 4 "100::int" "y + 1"] by force
  have last: "(y + 1) mod 400 = 0 \<longleftrightarrow> y = 399"
    using assms by (cases "y = 399") simp_all
  have "y = 399 \<longrightarrow> (y + 1) mod 100 = 0" by simp
  then show ?thesis
    using four unfolding year_len is_leap_def era_mods last by auto
qed

lemma civil_month_bounds:
  "0 \<le> mp \<Longrightarrow> mp \<le> 11 \<Longrightarrow> 1 \<le> civil_month mp \<and> civil_month mp \<le> 12 \<and>
     (civil_month mp \<le> 2 \<longleftrightarrow> 10 \<le> mp) \<and> (civil_month mp = 2 \<longleftrightarrow> mp = 11)"
  by (auto simp: civil_month_def)

lemma civil_eq:
  assumes "0 \<le> y" "y < 400" "year_start y \<le> doe" "doe < year_end y"
    and "days + 719468 = 146097 * era + doe"
  shows "civil days = (let mp = month_index (doe - year_start y) in
     (y + era * 400 + (if civil_month mp \<le> 2 then 1 else 0), civil_month mp,
      doe - year_start y - month_start mp + 1))"
proof -
  have "0 \<le> doe" using assms(1,3) by (simp add: year_start_def) 
  moreover have "doe < 146097"
  proof -
    have "list_all (\<lambda>y. year_end y \<le> 146097) [0..399]" by code_simp
    then show ?thesis using assms(1,2,4) by (force simp: list_all_iff)
  qed
  ultimately have era: "(days + 719468) div 146097 = era" "(days + 719468) mod 146097 = doe"
    using int_div_pos_eq [OF assms(5)] int_mod_pos_eq [OF assms(5)] by auto
  have "skipped doe div 365 = y" by (rule era_year [OF assms(1-4)])
  then have y: "(doe - doe div 1460 + doe div 36524 - doe div 146096) div 365 = y"
    by (simp only: skipped_def)
  show ?thesis
    unfolding civil_def era Let_def y
    by (simp only: year_start_def month_index_def month_start_def civil_month_def)
qed

text \<open>Every day has a date, and it is a valid one.\<close>

lemma civil_cases:
  obtains y era doe mp where "0 \<le> y" "y < 400" "year_start y \<le> doe" "doe < year_end y"
    "days + 719468 = 146097 * era + doe" "mp = month_index (doe - year_start y)" "0 \<le> mp" "mp \<le> 11"
    "month_start mp \<le> doe - year_start y" "doe - year_start y < month_start mp + month_len mp"
    "civil days = (y + era * 400 + (if civil_month mp \<le> 2 then 1 else 0), civil_month mp,
      doe - year_start y - month_start mp + 1)"
proof -
  define era where "era = (days + 719468) div 146097"
  define doe where "doe = (days + 719468) mod 146097"
  have e: "days + 719468 = 146097 * era + doe" by (simp add: era_def doe_def)
  have "0 \<le> doe" "doe < 146097" by (simp_all add: doe_def)
  then obtain y where y: "0 \<le> y" "y < 400" "year_start y \<le> doe" "doe < year_end y"
    by (rule year_covers)
  have "doe - year_start y < 366"
    using leap_year_len [OF y(1,2), of era] y(4) by (auto split: if_splits)
  then have m: "0 \<le> month_index (doe - year_start y) \<and> month_index (doe - year_start y) \<le> 11 \<and>
      month_start (month_index (doe - year_start y)) \<le> doe - year_start y \<and>
      doe - year_start y < month_start (month_index (doe - year_start y)) + month_len (month_index (doe - year_start y))"
    using y(3) by (intro month_of_day) auto
  show ?thesis
    by (rule that [OF y e refl]) (use m civil_eq [OF y e] in \<open>auto simp: Let_def\<close>)
qed

lemma civil_valid:
  assumes "civil days = (y, m, d)"
  shows "1 \<le> m \<and> m \<le> 12 \<and> 1 \<le> d \<and> d \<le> days_in y m"
proof (rule civil_cases [of days])
  fix y' era doe mp
  assume y: "0 \<le> y'" "y' < 400" "year_start y' \<le> doe" "doe < year_end y'"
    and mp: "0 \<le> mp" "mp \<le> 11" "month_start mp \<le> doe - year_start y'"
      "doe - year_start y' < month_start mp + month_len mp"
    and c: "civil days = (y' + era * 400 + (if civil_month mp \<le> 2 then 1 else 0), civil_month mp,
      doe - year_start y' - month_start mp + 1)"
  have "doe - year_start y' - month_start mp + 1 \<le> days_in y m"
  proof (cases "mp = 11")
    case True
    have "month_start 11 = 337" by (simp add: month_start_def)
    then show ?thesis
      using leap_year_len [OF y(1,2), of era] y(4) c assms True
      by (auto simp: days_in_def civil_month_def algebra_simps split: if_splits)
  next
    case False
    then show ?thesis
      using month_len_days_in [of mp y] mp c assms by auto
  qed
  then show ?thesis using civil_month_bounds [OF mp(1,2)] mp(3) c assms by auto
qed

lemma days_of_civil:
  "(case civil days of (y, m, d) \<Rightarrow> days_from_civil y m d) = days"
proof (rule civil_cases [of days])
  fix y era doe mp
  assume y: "0 \<le> y" "y < 400" and e: "days + 719468 = 146097 * era + doe"
    and mp: "0 \<le> mp" "mp \<le> 11"
    and c: "civil days = (y + era * 400 + (if civil_month mp \<le> 2 then 1 else 0), civil_month mp,
      doe - year_start y - month_start mp + 1)"
  have q: "(y + era * 400) div 400 = era" "(y + era * 400) mod 400 = y" using y by simp_all
  have m: "(if civil_month mp > 2 then civil_month mp - 3 else civil_month mp + 9) = mp"
    using mp by (auto simp: civil_month_def)
  have y': "(if civil_month mp \<le> 2 then y + era * 400 + (if civil_month mp \<le> 2 then 1 else 0) - 1
      else y + era * 400 + (if civil_month mp \<le> 2 then 1 else 0)) = y + era * 400" by simp
  show ?thesis
    unfolding c prod.case days_from_civil_def Let_def y' q m
    using e by (simp add: month_start_def year_start_def)
qed

lemma civil_of_days:
  assumes "1 \<le> m" "m \<le> 12" "1 \<le> d" "d \<le> days_in y m"
  shows "civil (days_from_civil y m d) = (y, m, d)"
proof -
  define y' where "y' = (if m \<le> 2 then y - 1 else y)"
  define mp where "mp = (if m > 2 then m - 3 else m + 9)"
  define yoe where "yoe = y' mod 400"
  define doe where "doe = year_start yoe + month_start mp + d - 1"
  have mp: "0 \<le> mp" "mp \<le> 11" "civil_month mp = m"
    using assms(1,2) by (auto simp: mp_def civil_month_def)
  have yoe: "0 \<le> yoe" "yoe < 400" "y' = yoe + (y' div 400) * 400" by (simp_all add: yoe_def)
  have d: "d \<le> month_len mp"
    using month_len_days_in [of mp y] mp assms(4)
    by (cases "mp = 11") (auto simp: month_len_def days_in_def civil_month_def split: if_splits)
  have "month_start mp + d - 1 < year_end yoe - year_start yoe"
  proof (cases "mp = 11")
    case True
    then have "m = 2" using mp(3) by (simp add: civil_month_def)
    then have "y = yoe + 1 + (y' div 400) * 400" using yoe(3) by (simp add: y'_def)
    then show ?thesis
      using leap_year_len [OF yoe(1,2), of "y' div 400"] assms(4) True \<open>m = 2\<close>
      by (auto simp: days_in_def month_start_def)
  next
    case False
    have "list_all (\<lambda>mp. month_start mp + month_len mp \<le> 337) [0..10]" by code_simp
    then have "month_start mp + month_len mp \<le> 337" using mp False by (auto simp: list_all_iff)
    then show ?thesis
      using leap_year_len [OF yoe(1,2), of 0] d by (auto split: if_splits)
  qed
  then have y: "year_start yoe \<le> doe" "doe < year_end yoe"
    using assms(3) mp(1) by (auto simp: doe_def month_start_def)
  have e: "days_from_civil y m d + 719468 = 146097 * (y' div 400) + doe"
    unfolding days_from_civil_def Let_def y'_def [symmetric] mp_def [symmetric] yoe_def [symmetric]
    by (simp add: doe_def year_start_def month_start_def)
  have "month_index (doe - year_start yoe) = mp"
    using mp assms(3) d by (intro month_of_start) (simp_all add: doe_def)
  then show ?thesis
    using civil_eq [OF yoe(1,2) y e] mp(3) yoe(3) assms(1,2)
    by (simp add: doe_def y'_def split: if_splits)
qed

subsection \<open>The day after\<close>

definition day_after :: "int \<times> int \<times> int \<Rightarrow> int \<times> int \<times> int" where
  "day_after = (\<lambda>(y, m, d).
     if d < days_in y m then (y, m, d + 1)
     else if m = 12 then (y + 1, 1, 1) else (y, m + 1, 1))"

definition march_year :: "int \<Rightarrow> int" where
  "march_year y = y div 400 * 146097 + year_start (y mod 400)"

lemma days_from_civil_march:
  "days_from_civil y m d = march_year (if m \<le> 2 then y - 1 else y) +
     month_start (if m > 2 then m - 3 else m + 9) + d - 1 - 719468"
  by (simp add: days_from_civil_def Let_def march_year_def year_start_def month_start_def)

lemma march_year_next: "march_year (y + 1) = march_year y + (if is_leap (y + 1) then 366 else 365)"
proof -
  define r e where "r = y mod 400" and "e = y div 400"
  have y: "y = r + e * 400" by (simp add: r_def e_def)
  have r: "0 \<le> r" "r < 400" by (simp_all add: r_def)
  have len: "year_end r - year_start r = (if is_leap (y + 1) then 366 else 365)"
  proof -
    have "y + 1 = r + 1 + e * 400" using y by simp
    then show ?thesis using leap_year_len [OF r, of e] by (simp only:)
  qed
  show ?thesis
  proof (cases "r = 399")
    case True
    then have "y + 1 = (e + 1) * 400" using y by simp
    then have "(y + 1) div 400 = e + 1" "(y + 1) mod 400 = 0" by simp_all
    then have "march_year (y + 1) = (e + 1) * 146097" by (simp add: march_year_def year_start_def)
    moreover have "march_year y = e * 146097 + year_start 399"
      using True by (simp add: march_year_def r_def e_def)
    moreover have "year_end r = 146097" using True by (simp add: year_end_def)
    ultimately show ?thesis using len True by (simp add: algebra_simps)
  next
    case False
    have s: "y + 1 = 400 * e + (r + 1)" using y by simp
    have "(y + 1) div 400 = e" "(y + 1) mod 400 = r + 1"
      by (rule int_div_pos_eq [OF s], use r False in auto) (rule int_mod_pos_eq [OF s], use r False in auto)
    then have "march_year (y + 1) = e * 146097 + year_start (r + 1)" by (simp add: march_year_def)
    moreover have "march_year y = e * 146097 + year_start r" by (simp add: march_year_def r_def e_def)
    moreover have "year_end r = year_start (r + 1)" using False by (simp add: year_end_def)
    ultimately show ?thesis using len by simp
  qed
qed

lemma next_month_start:
  assumes "1 \<le> m" "m \<le> 12"
  shows "(if m = 12 then days_from_civil (y + 1) 1 1 else days_from_civil y (m + 1) 1) =
     days_from_civil y m (days_in y m) + 1"
proof (cases "m = 2")
  case True
  then show ?thesis
    using march_year_next [of "y - 1"]
    by (simp add: days_from_civil_march days_in_def month_start_def)
next
  case False
  have "list_all (\<lambda>m. m = 2 \<or>
      month_start (if m = 12 then 10 else if m + 1 > 2 then m - 2 else m + 10) =
      month_start (if m > 2 then m - 3 else m + 9) +
      (if m = 4 \<or> m = 6 \<or> m = 9 \<or> m = 11 then 30 else 31)) [1..12]"
    by code_simp
  then show ?thesis
    using assms False
    by (cases "m = 1") (auto simp: list_all_iff days_from_civil_march days_in_def month_start_def)
qed

lemma civil_next: "civil (days + 1) = day_after (civil days)"
proof -
  obtain y m d where c: "civil days = (y, m, d)" by (cases "civil days")
  have v: "1 \<le> m" "m \<le> 12" "1 \<le> d" "d \<le> days_in y m" using civil_valid [OF c] by auto
  have n: "days = days_from_civil y m d" using days_of_civil [of days] c by simp
  show ?thesis
  proof (cases "d < days_in y m")
    case True
    have "days + 1 = days_from_civil y m (d + 1)" by (simp add: n days_from_civil_march)
    then show ?thesis
      using civil_of_days [of m "d + 1" y] v True c by (simp add: day_after_def)
  next
    case False
    then have e: "days + 1 = (if m = 12 then days_from_civil (y + 1) 1 1 else days_from_civil y (m + 1) 1)"
      using next_month_start [OF v(1,2), of y] n v(4) by simp
    have "1 \<le> days_in (y + 1) 1" "1 \<le> days_in y (m + 1)" by (simp_all add: days_in_def)
    then show ?thesis
      using False c e v civil_of_days [of 1 1 "y + 1"] civil_of_days [of "m + 1" 1 y]
      by (simp add: day_after_def split: if_splits)
  qed
qed

subsection \<open>The calendar interface\<close>

text \<open>
  What the cron search needs of a calendar on the days \<open>lo\<close> to \<open>hi\<close>: the date of the day after, the
  day of a date, and valid dates.
\<close>

locale calendar =
  fixes lo hi :: int
    and date :: "int \<Rightarrow> int \<times> int \<times> int"
    and from_ymd :: "int \<Rightarrow> int \<Rightarrow> int \<Rightarrow> int option"
  assumes date_next: "lo \<le> d \<Longrightarrow> d < hi \<Longrightarrow> date (d + 1) = day_after (date d)"
    and date_valid: "lo \<le> d \<Longrightarrow> d \<le> hi \<Longrightarrow> date d = (y, m, dd) \<Longrightarrow>
      1 \<le> m \<and> m \<le> 12 \<and> 1 \<le> dd \<and> dd \<le> days_in y m"
    and from_date: "lo \<le> d \<Longrightarrow> d \<le> hi \<Longrightarrow> date d = (y, m, dd) \<Longrightarrow> from_ymd y m dd = Some d"
begin

lemma same_month:
  assumes "lo \<le> d" "date d = (y, m, dd)" "dd + int n \<le> days_in y m" "d + int n \<le> hi"
  shows "date (d + int n) = (y, m, dd + int n)"
  using assms(3,4)
proof (induction n)
  case 0
  then show ?case using assms(2) by simp
next
  case (Suc n)
  then show ?case
    using date_next [of "d + int n"] assms(1) by (simp add: day_after_def algebra_simps)
qed

lemma month_end:
  assumes "lo \<le> d" "date d = (y, m, dd)" "d + 31 \<le> hi"
  shows "date (d + (days_in y m - dd)) = (y, m, days_in y m)"
proof -
  have v: "1 \<le> dd" "dd \<le> days_in y m" "days_in y m \<le> 31"
    using date_valid [OF assms(1) _ assms(2)] assms(3) by (auto simp: days_in_def)
  then show ?thesis
    using same_month [OF assms(1,2), of "nat (days_in y m - dd)"] assms(3) by simp
qed

lemma first_of_next_month:
  assumes "lo \<le> d" "date d = (y, m, dd)" "d + 31 \<le> hi"
  shows "date (d + (days_in y m - dd) + 1) = (if m = 12 then (y + 1, 1, 1) else (y, m + 1, 1))"
proof -
  have v: "1 \<le> dd" "dd \<le> days_in y m" "days_in y m \<le> 31"
    using date_valid [OF assms(1) _ assms(2)] assms(3) by (auto simp: days_in_def)
  then have "date (d + (days_in y m - dd) + 1) = day_after (date (d + (days_in y m - dd)))"
    using assms(1,3) by (intro date_next) auto
  then show ?thesis by (simp add: month_end [OF assms] day_after_def)
qed

lemma month_days:
  assumes "lo \<le> d" "date d = (y, m, dd)" "d + 31 \<le> hi" "d \<le> e" "e \<le> d + (days_in y m - dd)"
  shows "date e = (y, m, dd + (e - d))"
proof -
  have "days_in y m \<le> 31" by (simp add: days_in_def)
  moreover have "1 \<le> dd" using date_valid [OF assms(1) _ assms(2)] assms(3) by auto
  ultimately show ?thesis
    using same_month [OF assms(1,2), of "nat (e - d)"] assms(3-5) by simp
qed

end

interpretation unix: calendar lo hi civil "\<lambda>y m d. Some (days_from_civil y m d)"
proof
  show "civil (d + 1) = day_after (civil d)" for d by (rule civil_next)
  show "1 \<le> m \<and> m \<le> 12 \<and> 1 \<le> dd \<and> dd \<le> days_in y m" if "civil d = (y, m, dd)" for d y m dd
    using that by (rule civil_valid)
  show "Some (days_from_civil y m dd) = Some d" if "civil d = (y, m, dd)" for d y m dd
    using days_of_civil [of d] that by simp
qed

lemma civil_inverse: "civil days = (y, m, d) \<Longrightarrow> days_from_civil y m d = days"
  using days_of_civil [of days] by simp

text \<open>
  Days and civil dates are in bijection: a day is shown as a valid date whose day number it is, and
  the day number of a valid date is shown as that date.
\<close>

theorem civil_days_bijection:
  assumes "1 \<le> m" "m \<le> 12" "1 \<le> d" "d \<le> days_in y m"
  shows "civil (days_from_civil y m d) = (y, m, d) \<and>
    (case civil n of (y', m', d') \<Rightarrow> days_from_civil y' m' d' = n \<and>
       1 \<le> m' \<and> m' \<le> 12 \<and> 1 \<le> d' \<and> d' \<le> days_in y' m')"
proof -
  obtain y' m' d' where c: "civil n = (y', m', d')" by (cases "civil n")
  show ?thesis using civil_of_days [OF assms] civil_inverse [OF c] civil_valid [OF c] c by simp
qed

theorem civil_days_bijection_witness:
  "civil (days_from_civil 2024 2 29) = (2024, 2, 29)"
  by (rule civil_days_bijection [of 2 29 2024 0, THEN conjunct1]) (simp_all add: days_in_def is_leap_def)

text \<open>
  The calendar steps one day at a time: the day after a day is shown as the date after its date,
  through the ends of months, of years and of February.
\<close>

theorem civil_successor: "civil (n + 1) = day_after (civil n)"
  by (rule civil_next)

subsection \<open>Texts of moments\<close>

text \<open>\<open>{:0w}\<close> of a number: zeros between the sign and the digits up to the width.\<close>

definition show_pad :: "nat \<Rightarrow> int \<Rightarrow> string" where
  "show_pad w n =
     (let sign = (if n < 0 then ''-'' else []);
          ds = show_nat (nat \<bar>n\<bar>)
      in sign @ replicate (w - length sign - length ds) CHR ''0'' @ ds)"

definition date_text :: "utc \<Rightarrow> string" where
  "date_text u = show_pad 4 (year_of u) @ ''-'' @ show_pad 2 (int (month_of u)) @ ''-'' @
     show_pad 2 (int (day_of u))"

definition time_text :: "utc \<Rightarrow> string" where
  "time_text u = show_pad 2 (int (hour_of u)) @ '':'' @ show_pad 2 (int (minute_of u)) @ '':'' @
     show_pad 2 (int (second_of u)) @ ''.'' @ show_pad 3 (int (millis_of u))"

definition typeorm_string :: "utc \<Rightarrow> string" where
  "typeorm_string u = date_text u @ '' '' @ time_text u"

definition iso_string :: "utc \<Rightarrow> string" where
  "iso_string u = date_text u @ ''T'' @ time_text u @ ''Z''"

text \<open>\<open>split_once\<close>: the text before and after the first separator.\<close>

fun split_once :: "char \<Rightarrow> string \<Rightarrow> (string \<times> string) option" where
  "split_once c [] = None"
| "split_once c (x # xs) =
     (if x = c then Some ([], xs) else map_option (\<lambda>(a, b). (x # a, b)) (split_once c xs))"

definition strip_suffix :: "char \<Rightarrow> string \<Rightarrow> string option" where
  "strip_suffix c s = (if s \<noteq> [] \<and> last s = c then Some (butlast s) else None)"

definition parse_clock :: "string \<Rightarrow> int option" where
  "parse_clock time =
     Option.bind (strip_suffix CHR ''Z'' time) (\<lambda>clock.
       let (hms, fraction) = (case split_once CHR ''.'' clock of Some p \<Rightarrow> p | None \<Rightarrow> (clock, ''0''));
           padded = (let f = take 3 fraction in f @ replicate (3 - length f) CHR ''0'')
       in case split_on CHR '':'' hms of
            h # m # rest \<Rightarrow>
              Option.bind (parse_i64 h) (\<lambda>hour.
              Option.bind (parse_i64 m) (\<lambda>minute.
              Option.bind (case rest of [] \<Rightarrow> Some 0 | s # _ \<Rightarrow> parse_i64 s) (\<lambda>second.
                if 1 < length rest \<or> 23 < hour \<or> 59 < minute \<or> 59 < second then None
                else map_option (\<lambda>ms. hour * 3600000 + minute * 60000 + second * 1000 + ms)
                       (parse_i64 padded))))
          | _ \<Rightarrow> None)"

definition parse_date_millis :: "string \<Rightarrow> int option" where
  "parse_date_millis s =
     (let (date, time) = (case split_once CHR ''T'' s of Some (d, t) \<Rightarrow> (d, Some t) | None \<Rightarrow> (s, None))
      in case split_on CHR ''-'' date of
           y # m # d # rest \<Rightarrow>
             Option.bind (parse_i64 y) (\<lambda>year.
             Option.bind (parse_i64 m) (\<lambda>month.
             Option.bind (parse_i64 d) (\<lambda>day.
               if rest \<noteq> [] \<or> \<not> (1 \<le> month \<and> month \<le> 12) \<or> \<not> (1 \<le> day \<and> day \<le> 31) then None
               else
                 map_option (\<lambda>millis. days_from_civil year month day * 86400000 + millis)
                   (case time of None \<Rightarrow> Some 0 | Some t \<Rightarrow> parse_clock t))))
         | _ \<Rightarrow> None)"

subsection \<open>A moment written as ISO text is read back\<close>

lemma nat_of_digits_zeros: "nat_of_digits (replicate k CHR ''0'' @ ds) = nat_of_digits ds"
proof -
  have "foldl (\<lambda>acc c. 10 * acc + digit_val c) 0 (replicate k CHR ''0'') = 0"
    by (induction k) (simp_all add: digit_val_def code_def)
  then show ?thesis by (simp add: nat_of_digits_def)
qed

lemma show_pad_nat:
  assumes "0 \<le> n"
  shows "show_pad w n = replicate (w - length (show_nat (nat n))) CHR ''0'' @ show_nat (nat n)"
  using assms by (simp add: show_pad_def Let_def)

lemma show_pad_digits:
  assumes "0 \<le> n" "c \<in> set (show_pad w n)"
  shows "is_digit c"
proof -
  have "is_digit CHR ''0''" by (simp add: is_digit_def code_def)
  then show ?thesis using assms show_nat_digits [of "nat n"] by (auto simp: show_pad_nat)
qed

lemma show_pad_nonempty [simp]: "show_pad w n \<noteq> []"
  by (simp add: show_pad_def Let_def)

lemma parse_show_pad:
  assumes "0 \<le> n" "i64_ok n"
  shows "parse_i64 (show_pad w n) = Some n"
proof -
  obtain c cs where s: "show_pad w n = c # cs" by (cases "show_pad w n") auto
  have d: "\<forall>d \<in> set (show_pad w n). is_digit d" using show_pad_digits [OF assms(1)] by blast
  have "int (nat_of_digits (show_pad w n)) = n"
    using assms(1) by (simp add: show_pad_nat nat_of_digits_zeros nat_of_digits_show_nat)
  then show ?thesis
    using s d digit_not_sign [of c] assms(2) by (simp add: parse_i64_def Let_def list_all_iff)
qed

lemma length_show_nat: "n < 10 ^ k \<Longrightarrow> 0 < k \<Longrightarrow> length (show_nat n) \<le> k"
proof (induction k arbitrary: n)
  case (Suc k)
  show ?case
  proof (cases "n < 10")
    case True
    then show ?thesis by (subst show_nat.simps) simp
  next
    case False
    then have "0 < k" using Suc.prems by (cases k) auto
    moreover have "n div 10 < 10 ^ k" using Suc.prems by (simp add: less_mult_imp_div_less mult.commute)
    ultimately have "length (show_nat (n div 10)) \<le> k" using Suc.IH by blast
    then show ?thesis using False by (subst show_nat.simps) simp
  qed
qed simp

lemma length_show_pad: "0 \<le> n \<Longrightarrow> n < 10 ^ w \<Longrightarrow> 0 < w \<Longrightarrow> length (show_pad w n) = w"
  using length_show_nat [of "nat n" w] by (simp add: show_pad_nat nat_less_iff)

lemma split_once_append: "c \<notin> set a \<Longrightarrow> split_once c (a @ c # b) = Some (a, b)"
  by (induction a) auto

lemma show_pad_no: "0 \<le> n \<Longrightarrow> \<not> is_digit c \<Longrightarrow> c \<notin> set (show_pad w n)"
  using show_pad_digits by blast

lemma separators: "\<not> is_digit CHR ''-''" "\<not> is_digit CHR ''T''" "\<not> is_digit CHR '':''" "\<not> is_digit CHR ''.''"
  by (simp_all add: is_digit_def code_def)

lemma parse_clock_text:
  assumes "hour_of u < 24" "minute_of u < 60" "second_of u < 60" "millis_of u < 1000"
  shows "parse_clock (time_text u @ ''Z'') =
    Some (int (hour_of u) * 3600000 + int (minute_of u) * 60000 + int (second_of u) * 1000 + int (millis_of u))"
proof -
  let ?h = "show_pad 2 (int (hour_of u))" and ?m = "show_pad 2 (int (minute_of u))"
    and ?s = "show_pad 2 (int (second_of u))" and ?f = "show_pad 3 (int (millis_of u))"
  have strip: "strip_suffix CHR ''Z'' (time_text u @ ''Z'') = Some (time_text u)"
    by (simp add: strip_suffix_def)
  have no: "CHR ''.'' \<notin> set (?h @ '':'' @ ?m @ '':'' @ ?s)" "CHR '':'' \<notin> set ?h" "CHR '':'' \<notin> set ?m"
    "CHR '':'' \<notin> set ?s"
    using show_pad_no separators by simp_all
  have once: "split_once CHR ''.'' (time_text u) = Some (?h @ '':'' @ ?m @ '':'' @ ?s, ?f)"
    using split_once_append [OF no(1), of ?f] by (simp add: time_text_def)
  have parts: "split_on CHR '':'' (?h @ '':'' @ ?m @ '':'' @ ?s) = [?h, ?m, ?s]"
    using no(2-4) by (simp add: split_on_Cons_sep split_on_no_sep)
  have len: "length ?f = 3" using assms(4) by (intro length_show_pad) simp_all
  have small: "i64_ok (int k)" if "k < 1000" for k using that by (simp add: i64_ok_def)
  have nums: "parse_i64 ?h = Some (int (hour_of u))" "parse_i64 ?m = Some (int (minute_of u))"
    "parse_i64 ?s = Some (int (second_of u))" "parse_i64 ?f = Some (int (millis_of u))"
    using assms by (auto intro!: parse_show_pad small)
  show ?thesis
    unfolding parse_clock_def strip using once parts len nums assms by simp
qed

lemma time_of_millis:
  fixes rem :: int
  assumes "0 \<le> rem" "rem < 86400000"
  shows "rem div 3600000 * 3600000 + rem div 60000 mod 60 * 60000 + rem div 1000 mod 60 * 1000 + rem mod 1000 = rem"
proof -
  have "rem div 60000 div 60 = rem div 3600000" "rem div 1000 div 60 = rem div 60000"
    using zdiv_zmult2_eq [of 60 rem 60000] zdiv_zmult2_eq [of 60 rem 1000] by simp_all
  then have "rem div 60000 = rem div 3600000 * 60 + rem div 60000 mod 60"
    "rem div 1000 = rem div 60000 * 60 + rem div 1000 mod 60"
    using div_mult_mod_eq [of "rem div 60000" 60] div_mult_mod_eq [of "rem div 1000" 60] by simp_all
  moreover have "rem = rem div 1000 * 1000 + rem mod 1000" by simp
  ultimately show ?thesis by linarith
qed

text \<open>
  The ISO text of a moment of the years 0 to 9999 is read back as the moment: \<open>parse_date_millis\<close>
  inverts \<open>iso_string\<close>, to the millisecond.
\<close>

theorem parse_iso_string:
  assumes "0 \<le> year_of (from_unix_millis ms)" "year_of (from_unix_millis ms) \<le> 9999"
  shows "parse_date_millis (iso_string (from_unix_millis ms)) = Some ms"
proof -
  define u where "u = from_unix_millis ms"
  obtain y m d where c: "civil (ms div 86400000) = (y, m, d)" by (cases "civil (ms div 86400000)")
  have v: "1 \<le> m" "m \<le> 12" "1 \<le> d" "d \<le> days_in y m" using civil_valid [OF c] by auto
  have d31: "d \<le> 31" using v(4) by (auto simp: days_in_def split: if_splits)
  let ?r = "ms mod 86400000"
  have r: "0 \<le> ?r" "?r < 86400000" by simp_all
  have h24: "?r div 3600000 < 24" using r by linarith
  have ud: "year_of u = y" "int (month_of u) = m" "int (day_of u) = d"
    using c v by (simp_all add: u_def from_unix_millis_def Let_def)
  have ut: "int (hour_of u) = ?r div 3600000" "int (minute_of u) = ?r div 60000 mod 60"
    "int (second_of u) = ?r div 1000 mod 60" "int (millis_of u) = ?r mod 1000"
    using r by (simp_all add: u_def from_unix_millis_def Let_def c pos_imp_zdiv_nonneg_iff)
  have "int (hour_of u) < 24" "int (minute_of u) < 60" "int (second_of u) < 60" "int (millis_of u) < 1000"
    unfolding ut using h24 by simp_all
  then have "hour_of u < 24" "minute_of u < 60" "second_of u < 60" "millis_of u < 1000" by simp_all
  then have clock: "parse_clock (time_text u @ ''Z'') = Some ?r"
    using parse_clock_text [of u] time_of_millis [OF r] unfolding ut by simp
  have y: "0 \<le> y" "y \<le> 9999" using assms ud(1) by (simp_all add: u_def)
  let ?y = "show_pad 4 y" and ?m = "show_pad 2 m" and ?d = "show_pad 2 d"
  have date: "date_text u = ?y @ ''-'' @ ?m @ ''-'' @ ?d" by (simp add: date_text_def ud)
  have no: "CHR ''T'' \<notin> set (date_text u)" "CHR ''-'' \<notin> set ?y" "CHR ''-'' \<notin> set ?m" "CHR ''-'' \<notin> set ?d"
    using y v show_pad_no separators by (simp_all add: date)
  have once: "split_once CHR ''T'' (iso_string u) = Some (date_text u, time_text u @ ''Z'')"
    using split_once_append [OF no(1)] by (simp add: iso_string_def)
  have parts: "split_on CHR ''-'' (date_text u) = [?y, ?m, ?d]"
    unfolding date using no(2-4) by (simp add: split_on_Cons_sep split_on_no_sep)
  have nums: "parse_i64 ?y = Some y" "parse_i64 ?m = Some m" "parse_i64 ?d = Some d"
    using y v d31 by (auto intro!: parse_show_pad simp: i64_ok_def)
  have "days_from_civil y m d = ms div 86400000" by (rule civil_inverse [OF c])
  then show ?thesis
    unfolding u_def [symmetric] parse_date_millis_def once using parts nums clock v d31 by simp
qed

theorem parse_iso_string_witness:
  "iso_string (from_unix_millis 1791661865758) = ''2026-10-10T19:51:05.758Z'' \<and>
   parse_date_millis ''2026-10-10T19:51:05.758Z'' = Some 1791661865758"
proof -
  have "iso_string (from_unix_millis 1791661865758) = ''2026-10-10T19:51:05.758Z''" by code_simp
  moreover have "year_of (from_unix_millis 1791661865758) = 2026" by code_simp
  ultimately show ?thesis using parse_iso_string [of 1791661865758] by simp
qed

end
