(* ===== verification/Cron.thy ===== *)
theory Cron
  imports Complex_Main "HOL-Library.Multiset" Calendar
begin

section \<open>The cron parser of the job scheduler\<close>

text \<open>
  The parser of \<open>src/backend-rs/src/jobs/cron.rs\<close>: a schedule text as the values of its six fields.
  Errors are the messages of the code. Texts are over U+0000 to U+00FF. A field value is a number or
  a text holding \<open>L\<close>; the occurrence of a weekday (\<open>#n\<close>), an \<open>f64\<close>, is the rational it denotes,
  and the parser of an \<open>f64\<close> (\<open>str::parse::<f64>\<close>) is the parameter \<open>parse_f64\<close>, with \<open>None\<close> for
  what is not a finite number: the range check that follows refuses all of these alike.
\<close>

subsection \<open>Fields\<close>

datatype field = Second | Minute | Hour | DayOfMonth | Month | DayOfWeek

definition FIELDS :: "(field \<times> string) list" where
  "FIELDS = [(Second, ''0''), (Minute, ''*''), (Hour, ''*''), (DayOfMonth, ''*''), (Month, ''*''),
     (DayOfWeek, ''*'')]"

fun fmin :: "field \<Rightarrow> int" where
  "fmin f = (if f = DayOfMonth \<or> f = Month then 1 else 0)"

fun fmax :: "field \<Rightarrow> int" where
  "fmax Second = 59"
| "fmax Minute = 59"
| "fmax Hour = 23"
| "fmax DayOfMonth = 31"
| "fmax Month = 12"
| "fmax DayOfWeek = 7"

definition takes_l :: "field \<Rightarrow> bool" where
  "takes_l f \<longleftrightarrow> f = DayOfMonth \<or> f = DayOfWeek"

definition valid_char :: "field \<Rightarrow> char \<Rightarrow> bool" where
  "valid_char f c \<longleftrightarrow>
     (let standard = c \<in> set '',*/-'' \<or> is_digit c
      in case f of
           DayOfMonth \<Rightarrow> standard \<or> c \<in> set ''?L''
         | DayOfWeek \<Rightarrow> standard \<or> c \<in> set ''?L#''
         | _ \<Rightarrow> standard)"

fun aliases :: "field \<Rightarrow> (string \<times> int) list" where
  "aliases Month =
     [(''jan'', 1), (''feb'', 2), (''mar'', 3), (''apr'', 4), (''may'', 5), (''jun'', 6),
      (''jul'', 7), (''aug'', 8), (''sep'', 9), (''oct'', 10), (''nov'', 11), (''dec'', 12)]"
| "aliases DayOfWeek =
     [(''sun'', 0), (''mon'', 1), (''tue'', 2), (''wed'', 3), (''thu'', 4), (''fri'', 5), (''sat'', 6)]"
| "aliases _ = []"

subsection \<open>Values\<close>

datatype atom = Num int | Text string

datatype parsed = PList "int list" | PNum "int option" | PText string

record cron_expr =
  second_f :: "atom list"
  minute_f :: "atom list"
  hour_f :: "atom list"
  day_of_month_f :: "atom list"
  month_f :: "atom list"
  day_of_week_f :: "atom list"
  nth_day_of_week :: rat

definition js_space :: "char \<Rightarrow> bool" where
  "js_space c \<longleftrightarrow> is_ws c \<and> code c \<noteq> 133"

definition js_int :: "string \<Rightarrow> int option" where
  "js_int s =
     (if s = [] then Some 0
      else if list_all is_digit s then Some (unwrap_or (2 ^ 63 - 1) (parse_i64 s))
      else None)"

text \<open>Numbers before texts, both ascending: the order \<open>sort_atoms\<close> sorts by.\<close>

instantiation atom :: linorder
begin

fun less_eq_atom :: "atom \<Rightarrow> atom \<Rightarrow> bool" where
  "less_eq_atom (Num x) (Num y) = (x \<le> y)"
| "less_eq_atom (Num x) (Text t) = True"
| "less_eq_atom (Text s) (Num y) = False"
| "less_eq_atom (Text s) (Text t) = (s \<le> t)"

definition less_atom :: "atom \<Rightarrow> atom \<Rightarrow> bool" where
  "less_atom a b \<longleftrightarrow> a \<le> b \<and> \<not> b \<le> a"

instance
proof
  fix x y z :: atom
  show "x < y \<longleftrightarrow> x \<le> y \<and> \<not> y \<le> x" by (rule less_atom_def)
  show "x \<le> x" by (cases x) simp_all
  show "x \<le> y \<Longrightarrow> y \<le> z \<Longrightarrow> x \<le> z" by (cases x; cases y; cases z) auto
  show "x \<le> y \<Longrightarrow> y \<le> x \<Longrightarrow> x = y" by (cases x; cases y) auto
  show "x \<le> y \<or> y \<le> x" by (cases x; cases y) auto
qed

end

definition sort_atoms :: "atom list \<Rightarrow> atom list" where
  "sort_atoms atoms = sort atoms"

subsection \<open>One field\<close>

definition range_text :: "int \<Rightarrow> int \<Rightarrow> string" where
  "range_text a b = show_int a @ ''-'' @ show_int b"

definition constraint_error :: "string \<Rightarrow> field \<Rightarrow> string" where
  "constraint_error v f =
     ''Constraint error, got value '' @ v @ '' expected range '' @ range_text (fmin f) (fmax f)"

fun replace_aliases :: "field \<Rightarrow> string \<Rightarrow> (string, string) res" where
  "replace_aliases f (a # b # c # rest) =
     (if is_alpha a \<and> is_alpha b \<and> is_alpha c then
        let key = map ascii_lower [a, b, c]
        in case find (\<lambda>p. fst p = key) (aliases f) of
             None \<Rightarrow> Inl (''Validation error, cannot resolve alias '' @ [CHR 0x22] @ key @ [CHR 0x22])
           | Some (_, n) \<Rightarrow> and_then (replace_aliases f rest) (\<lambda>out. Inr (show_int n @ out))
      else and_then (replace_aliases f (b # c # rest)) (\<lambda>out. Inr (a # out)))"
| "replace_aliases f s = Inr s"

fun range_steps :: "int \<Rightarrow> int list \<Rightarrow> int list \<Rightarrow> int \<Rightarrow> int list" where
  "range_steps interval [] stack k = stack"
| "range_steps interval (i # is) stack k =
     (if i \<notin> set stack \<and> 0 < k \<and> k mod interval = 0
      then range_steps interval is (stack @ [i]) 1
      else range_steps interval is stack (k + 1))"

definition parse_range :: "field \<Rightarrow> string \<Rightarrow> string option \<Rightarrow> (string, parsed) res" where
  "parse_range f val repeat =
     (case split_on CHR ''-'' val of
        first # second # _ \<Rightarrow>
          if first = [] then
            if second = [] then Inl (''Invalid range: '' @ val)
            else Inr (PNum (map_option uminus (js_int (tl val))))
          else
            (case (js_int first, js_int second) of
               (Some lo, Some hi) \<Rightarrow>
                 if lo < fmin f \<or> fmax f < hi then
                   Inl (''Constraint error, got range '' @ range_text lo hi @ '' expected range '' @
                        range_text (fmin f) (fmax f))
                 else if hi < lo then Inl (''Invalid range: '' @ val)
                 else
                   let interval = (case repeat of None \<Rightarrow> 1 | Some r \<Rightarrow> unwrap_or 0 (js_int r))
                   in if interval \<le> 0 then
                        Inl (''Constraint error, cannot repeat at every '' @ show_int interval @ '' time.'')
                      else
                        Inr (PList (range_steps interval [lo..hi]
                          (if f = DayOfWeek \<and> hi mod 7 = 0 then [0] else []) interval))
             | _ \<Rightarrow> Inl (''Constraint error, got range NaN expected range '' @ range_text (fmin f) (fmax f)))
      | _ \<Rightarrow> Inr (case js_int val of Some n \<Rightarrow> PNum (Some n) | None \<Rightarrow> PText val))"

definition parse_repeat :: "field \<Rightarrow> string \<Rightarrow> (string, parsed) res" where
  "parse_repeat f val =
     (case split_on CHR ''/'' val of
        [first, step] \<Rightarrow>
          parse_range f (if js_int first \<noteq> None then first @ ''-'' @ show_int (fmax f) else first) (Some step)
      | [_] \<Rightarrow> parse_range f val None
      | _ \<Rightarrow> Inl (''Invalid repeat: '' @ val))"

fun push_values :: "field \<Rightarrow> int list \<Rightarrow> atom list \<Rightarrow> (string, atom list) res" where
  "push_values f [] stack = Inr stack"
| "push_values f (v # vs) stack =
     (if v < fmin f \<or> fmax f < v then Inl (constraint_error (show_int v) f)
      else push_values f vs (stack @ [Num v]))"

fun push_result :: "field \<Rightarrow> parsed \<Rightarrow> atom list \<Rightarrow> (string, atom list) res" where
  "push_result f (PList vs) stack = push_values f vs stack"
| "push_result f (PText t) stack =
     (if takes_l f \<and> CHR ''L'' \<in> set t then Inr (stack @ [Text t]) else Inl (constraint_error t f))"
| "push_result f (PNum None) stack = Inl (constraint_error ''NaN'' f)"
| "push_result f (PNum (Some n)) stack =
     (if n < fmin f \<or> fmax f < n then Inl (constraint_error (show_int n) f)
      else Inr (stack @ [Num (if f = DayOfWeek then n mod 7 else n)]))"

fun push_atoms :: "field \<Rightarrow> string list \<Rightarrow> atom list \<Rightarrow> (string, atom list) res" where
  "push_atoms f [] stack = Inr stack"
| "push_atoms f (a # as) stack =
     and_then (parse_repeat f a) (\<lambda>p. and_then (push_result f p stack) (push_atoms f as))"

definition replace_char :: "char \<Rightarrow> string \<Rightarrow> string \<Rightarrow> string" where
  "replace_char c by_text s = concat (map (\<lambda>d. if d = c then by_text else [d]) s)"

definition parse_field :: "field \<Rightarrow> string \<Rightarrow> (string, atom list) res" where
  "parse_field f val =
     and_then (if aliases f = [] then Inr val else replace_aliases f val) (\<lambda>val.
       if val = [] \<or> \<not> list_all (valid_char f) val then Inl (''Invalid characters, got value: '' @ val)
       else
         let full = range_text (fmin f) (fmax f);
             val = (if CHR ''*'' \<in> set val then replace_char CHR ''*'' full val
                    else if CHR ''?'' \<in> set val then replace_char CHR ''?'' full val
                    else val);
             atoms = split_on CHR '','' val
         in if [] \<in> set atoms then Inl ''Invalid list value format''
            else and_then (push_atoms f atoms []) (\<lambda>stack. Inr (sort_atoms stack)))"

subsection \<open>The whole expression\<close>

text \<open>\<open>js_number\<close>: \<open>+s\<close>, \<open>None\<close> for what is not a finite number.\<close>

fun radix_prefix :: "string \<Rightarrow> (string \<times> nat) option" where
  "radix_prefix (a # b # rest) =
     (if a \<noteq> CHR ''0'' then None
      else if b \<in> set ''xX'' then Some (rest, 16)
      else if b \<in> set ''oO'' then Some (rest, 8)
      else if b \<in> set ''bB'' then Some (rest, 2)
      else None)"
| "radix_prefix _ = None"

definition radix_digit :: "nat \<Rightarrow> char \<Rightarrow> nat option" where
  "radix_digit radix c =
     opt_filter (\<lambda>d. d < radix)
       (if is_digit c then Some (digit_val c)
        else if is_alpha c then Some (code (ascii_lower c) - 87) else None)"

text \<open>\<open>u32::from_str_radix\<close>: an optional plus sign, at least one digit, no overflow.\<close>

definition from_str_radix :: "string \<Rightarrow> nat \<Rightarrow> nat option" where
  "from_str_radix s radix =
     (let ds = (case s of c # cs \<Rightarrow> if c = CHR ''+'' then cs else s | [] \<Rightarrow> s)
      in if ds = [] then None
         else opt_filter (\<lambda>n. n < 2 ^ 32)
           (foldl (\<lambda>acc c. case (acc, radix_digit radix c) of
              (Some n, Some d) \<Rightarrow> Some (n * radix + d) | _ \<Rightarrow> None) (Some 0) ds))"

definition js_number :: "(string \<Rightarrow> rat option) \<Rightarrow> string \<Rightarrow> rat option" where
  "js_number parse_f64 s =
     (if s = [] then Some 0
      else if s \<in> {''Infinity'', ''+Infinity'', ''-Infinity''} then None
      else case radix_prefix s of
             Some (digits, radix) \<Rightarrow> map_option of_nat (from_str_radix digits radix)
           | None \<Rightarrow>
               if list_all (\<lambda>c. is_digit c \<or> c \<in> set ''.eE+-'') s then parse_f64 s else None)"

definition parse_nth_day :: "(string \<Rightarrow> rat option) \<Rightarrow> string \<Rightarrow> (string, string \<times> rat) res" where
  "parse_nth_day parse_f64 val =
     (let atoms = split_on CHR ''#'' val
      in if length atoms < 2 then Inr (val, 0)
         else if CHR '','' \<in> set val \<or> CHR ''/'' \<in> set val \<or> CHR ''-'' \<in> set val then
           Inl (''Constraint error, invalid dayOfWeek `#` and `,`, `/` or `-` special characters '' @
                ''are incompatible'')
         else
           case js_number parse_f64 (last atoms) of
             Some n \<Rightarrow>
               if 2 < length atoms \<or> \<not> (1 \<le> n \<and> n \<le> 5)
               then Inl ''Constraint error, invalid dayOfWeek occurrence number (#)''
               else Inr (hd atoms, n)
           | None \<Rightarrow> Inl ''Constraint error, invalid dayOfWeek occurrence number (#)'')"

definition DAYS_IN_MONTH :: "int list" where
  "DAYS_IN_MONTH = [31, 29, 31, 30, 31, 30, 31, 31, 30, 31, 30, 31]"

fun month_days :: "atom list \<Rightarrow> int option" where
  "month_days [Num m] =
     (if 1 \<le> m \<and> m \<le> 12 then Some (DAYS_IN_MONTH ! nat (m - 1)) else None)"
| "month_days _ = None"

definition expand_shortcut :: "string \<Rightarrow> string" where
  "expand_shortcut s =
     (if s = ''@yearly'' then ''0 0 1 1 *''
      else if s = ''@monthly'' then ''0 0 1 * *''
      else if s = ''@weekly'' then ''0 0 * * 0''
      else if s = ''@daily'' then ''0 0 * * *''
      else if s = ''@hourly'' then ''0 * * * *''
      else s)"

definition words :: "string \<Rightarrow> string list" where
  "words s = filter (\<lambda>w. w \<noteq> []) (split_on CHR '' '' (map (\<lambda>c. if js_space c then CHR '' '' else c) s))"

text \<open>The value of a field: its word, counted from the end, or the default.\<close>

definition field_word :: "string list \<Rightarrow> nat \<Rightarrow> string option" where
  "field_word atoms i =
     (let start = 6 - max (length atoms) 1
      in if start \<le> i \<and> i - start < length atoms then Some (atoms ! (i - start)) else None)"

definition parse_value ::
  "(string \<Rightarrow> rat option) \<Rightarrow> field \<Rightarrow> string \<Rightarrow> string option \<Rightarrow> (string, atom list \<times> rat) res" where
  "parse_value parse_f64 f dflt v =
     (case v of
        None \<Rightarrow> and_then (parse_field f dflt) (\<lambda>as. Inr (as, 0))
      | Some v \<Rightarrow>
          if f = DayOfWeek then
            and_then (parse_nth_day parse_f64 v) (\<lambda>(rest, n).
              and_then (parse_field f rest) (\<lambda>as. Inr (as, n)))
          else and_then (parse_field f v) (\<lambda>as. Inr (as, 0)))"

definition cap_days :: "cron_expr \<Rightarrow> (string, cron_expr) res" where
  "cap_days e =
     (case month_days (month_f e) of
        None \<Rightarrow> Inr e
      | Some m \<Rightarrow>
          if (case day_of_month_f e of Num d # _ \<Rightarrow> m < d | _ \<Rightarrow> False)
          then Inl ''Invalid explicit day of month definition''
          else Inr (e\<lparr>day_of_month_f :=
            sort_atoms (filter (\<lambda>a. case a of Num d \<Rightarrow> d \<le> m | Text t \<Rightarrow> t = ''L'') (day_of_month_f e))\<rparr>))"

fun parse_values ::
  "(string \<Rightarrow> rat option) \<Rightarrow> string list \<Rightarrow> nat \<Rightarrow> (field \<times> string) list \<Rightarrow>
     (string, (atom list \<times> rat) list) res" where
  "parse_values parse_f64 ws i [] = Inr []"
| "parse_values parse_f64 ws i ((f, d) # fs) =
     and_then (parse_value parse_f64 f d (field_word ws i)) (\<lambda>a.
     and_then (parse_values parse_f64 ws (Suc i) fs) (\<lambda>as. Inr (a # as)))"

definition parse_words :: "(string \<Rightarrow> rat option) \<Rightarrow> string list \<Rightarrow> (string, cron_expr) res" where
  "parse_words parse_f64 ws =
     (if 6 < length ws then Inl ''Invalid cron expression''
      else and_then (parse_values parse_f64 ws 0 FIELDS) (\<lambda>fs.
        cap_days
          \<lparr>second_f = fst (fs ! 0), minute_f = fst (fs ! 1), hour_f = fst (fs ! 2),
           day_of_month_f = fst (fs ! 3), month_f = fst (fs ! 4), day_of_week_f = fst (fs ! 5),
           nth_day_of_week = snd (fs ! 5)\<rparr>))"

definition parse_cron :: "(string \<Rightarrow> rat option) \<Rightarrow> string \<Rightarrow> (string, cron_expr) res" where
  "parse_cron parse_f64 expression = parse_words parse_f64 (words (expand_shortcut expression))"

subsection \<open>Parsed values are in bounds and sorted\<close>

definition atom_ok :: "field \<Rightarrow> atom \<Rightarrow> bool" where
  "atom_ok f a \<longleftrightarrow>
     (case a of Num n \<Rightarrow> fmin f \<le> n \<and> n \<le> fmax f | Text t \<Rightarrow> takes_l f \<and> CHR ''L'' \<in> set t)"

lemma push_values_ok:
  "push_values f vs stack = Inr as \<Longrightarrow>
     as = stack @ map Num vs \<and> (\<forall>v \<in> set vs. fmin f \<le> v \<and> v \<le> fmax f)"
  by (induction f vs stack rule: push_values.induct) (auto split: if_splits)

lemma push_result_ok:
  assumes "push_result f p stack = Inr as" "list_all (atom_ok f) stack"
  shows "list_all (atom_ok f) as"
proof (cases "(f, p, stack)" rule: push_result.cases)
  case (1 f vs stack)
  then show ?thesis
    using assms push_values_ok [of f vs stack as] by (auto simp: list_all_iff atom_ok_def)
next
  case (4 f n stack)
  have "0 \<le> n mod 7" "n mod 7 < 7" by simp_all
  then show ?thesis
    using assms 4 by (auto simp: list_all_iff atom_ok_def split: if_splits)
qed (use assms in \<open>auto simp: list_all_iff atom_ok_def split: if_splits\<close>)

lemma push_atoms_ok:
  "push_atoms f as stack = Inr out \<Longrightarrow> list_all (atom_ok f) stack \<Longrightarrow> list_all (atom_ok f) out"
  by (induction f as stack rule: push_atoms.induct) (auto simp: res_simps dest: push_result_ok)

text \<open>
  What the parser accepts for a field is a sorted list of numbers within the field's range, and of
  texts holding \<open>L\<close> where the field takes them.
\<close>

theorem parse_field_in_range:
  assumes "parse_field f s = Inr atoms"
  shows "sorted atoms \<and>
    (\<forall>n. Num n \<in> set atoms \<longrightarrow> fmin f \<le> n \<and> n \<le> fmax f) \<and>
    (\<forall>t. Text t \<in> set atoms \<longrightarrow> takes_l f \<and> CHR ''L'' \<in> set t)"
proof -
  obtain as stack where "push_atoms f as [] = Inr stack" "atoms = sort stack"
    using assms by (auto simp: parse_field_def Let_def res_simps sort_atoms_def split: if_splits)
  then show ?thesis
    using push_atoms_ok [of f as "[]" stack] by (auto simp: list_all_iff atom_ok_def)
qed

theorem parse_field_in_range_witness:
  "parse_field DayOfWeek ''sat,mon'' = Inr [Num 1, Num 6] \<and> sorted [Num 1, Num 6]"
proof -
  have "parse_field DayOfWeek ''sat,mon'' = Inr [Num 1, Num 6]" by code_simp
  with parse_field_in_range [OF this] show ?thesis by blast
qed

subsection \<open>A list of numbers is read as those numbers\<close>

lemma js_int_show:
  assumes "0 \<le> n" "i64_ok n"
  shows "js_int (show_int n) = Some n"
proof -
  have "list_all is_digit (show_int n)"
    using assms(1) show_nat_digits by (simp add: show_int_def list_all_iff)
  then show ?thesis using assms(2) by (simp add: js_int_def parse_show_int)
qed

lemma show_int_plain: "0 \<le> n \<Longrightarrow> \<forall>c \<in> set (show_int n). is_digit c"
  using show_nat_digits by (simp add: show_int_def)

lemma digit_not_special: "is_digit c \<Longrightarrow> c \<notin> set '',*/-?L#''"
  by (auto simp: is_digit_def code_def)

lemma parse_repeat_number:
  assumes "0 \<le> n" "i64_ok n"
  shows "parse_repeat f (show_int n) = Inr (PNum (Some n))"
proof -
  have "CHR ''/'' \<notin> set (show_int n)" "CHR ''-'' \<notin> set (show_int n)"
    using show_int_plain [OF assms(1)] digit_not_special [of "CHR ''/''"] digit_not_special [of "CHR ''-''"]
    by auto
  then show ?thesis
    by (simp add: parse_repeat_def parse_range_def split_on_no_sep js_int_show assms)
qed

definition field_value :: "field \<Rightarrow> int \<Rightarrow> int" where
  "field_value f n = (if f = DayOfWeek then n mod 7 else n)"

lemma field_range_i64: "fmin f \<le> n \<Longrightarrow> n \<le> fmax f \<Longrightarrow> 0 \<le> n \<and> i64_ok n"
  by (cases f) (auto simp: i64_ok_def)

lemma push_atoms_numbers:
  "\<forall>n \<in> set ns. fmin f \<le> n \<and> n \<le> fmax f \<Longrightarrow>
     push_atoms f (map show_int ns) stack = Inr (stack @ map (\<lambda>n. Num (field_value f n)) ns)"
proof (induction ns arbitrary: stack)
  case (Cons n ns)
  then have "parse_repeat f (show_int n) = Inr (PNum (Some n))"
    using field_range_i64 [of f n] by (intro parse_repeat_number) auto
  then show ?case
    using Cons by (simp add: field_value_def)
qed simp

lemma replace_aliases_digits:
  "\<forall>c \<in> set s. \<not> is_alpha c \<Longrightarrow> replace_aliases f s = Inr s"
  by (induction f s rule: replace_aliases.induct) auto

lemma set_join_with: "set (join_with c ws) \<subseteq> insert c (\<Union> (set ` set ws))"
  by (induction c ws rule: join_with.induct) auto

lemma join_with_nonempty: "ws \<noteq> [] \<Longrightarrow> [] \<notin> set ws \<Longrightarrow> join_with c ws \<noteq> []"
  by (induction c ws rule: join_with.induct) auto

lemma list_char_facts:
  assumes "c = CHR '','' \<or> is_digit c"
  shows "\<not> is_alpha c" "valid_char f c" "c \<noteq> CHR ''*'' \<and> c \<noteq> CHR ''?''"
proof -
  show "\<not> is_alpha c" using assms by (elim disjE) (simp_all add: is_digit_def is_alpha_def code_def)
  show "valid_char f c" using assms by (cases f) (auto simp: valid_char_def Let_def)
  show "c \<noteq> CHR ''*'' \<and> c \<noteq> CHR ''?''" using assms digit_not_special [of c] by auto
qed

text \<open>
  A comma-separated list of numbers within the field's range is read as exactly these numbers, in
  order (Sunday as 0 for both 0 and 7).
\<close>

theorem parse_field_numbers:
  assumes "ns \<noteq> []" "\<forall>n \<in> set ns. fmin f \<le> n \<and> n \<le> fmax f"
  shows "parse_field f (join_with CHR '','' (map show_int ns)) =
    Inr (map Num (sort (map (field_value f) ns)))"
proof -
  let ?s = "join_with CHR '','' (map show_int ns)"
  have plain: "is_digit c" if "w \<in> set (map show_int ns)" "c \<in> set w" for w c
  proof -
    obtain n where "n \<in> set ns" "w = show_int n" using \<open>w \<in> set (map show_int ns)\<close> by auto
    then show ?thesis using assms(2) field_range_i64 [of f n] show_int_plain [of n] that(2) by blast
  qed
  have dig: "\<forall>c \<in> set ?s. c = CHR '','' \<or> is_digit c"
    using set_join_with [of "CHR '',''" "map show_int ns"] plain by blast
  then have "\<forall>c \<in> set ?s. \<not> is_alpha c" using list_char_facts(1) by blast
  then have "replace_aliases f ?s = Inr ?s" by (rule replace_aliases_digits)
  then have al: "(if aliases f = [] then Inr ?s else replace_aliases f ?s) = Inr ?s" by simp
  have pieces: "[] \<notin> set (map show_int ns)" by (auto simp: show_int_nonempty [symmetric])
  have ne: "?s \<noteq> []" using assms(1) pieces by (intro join_with_nonempty) auto
  have valid: "list_all (valid_char f) ?s"
    unfolding list_all_iff by (intro ballI list_char_facts(2)) (rule bspec [OF dig])
  have no: "CHR ''*'' \<notin> set ?s" "CHR ''?'' \<notin> set ?s"
    using list_char_facts(3) [OF bspec [OF dig]] by blast+
  have sp: "split_on CHR '','' ?s = map show_int ns"
  proof (rule split_join)
    have "\<not> is_digit CHR '',''" by (simp add: is_digit_def code_def)
    then show "\<forall>w \<in> set (map show_int ns). CHR '','' \<notin> set w" using plain by blast
  qed (simp add: assms(1))
  have "sort (map (\<lambda>n. Num (field_value f n)) ns) = map Num (sort (map (field_value f) ns))"
  proof (rule properties_for_sort)
    show "mset (map Num (sort (map (field_value f) ns))) = mset (map (\<lambda>n. Num (field_value f n)) ns)"
      by (simp add: comp_def image_mset.compositionality)
    show "sorted (map Num (sort (map (field_value f) ns)))"
      using sorted_sort [of "map (field_value f) ns"] by (simp add: sorted_wrt_map)
  qed
  then show ?thesis
    unfolding parse_field_def al and_then_Inr Let_def
    using ne valid no sp pieces push_atoms_numbers [OF assms(2), of "[]"]
    by (simp add: sort_atoms_def)
qed

theorem parse_field_numbers_witness:
  "parse_field DayOfWeek ''7,5,1'' = Inr [Num 0, Num 1, Num 5]"
  using parse_field_numbers [of "[7, 5, 1]" DayOfWeek] by (simp add: field_value_def) code_simp

end
