(* ===== verification/CronNext.thy ===== *)
theory CronNext
  imports Cron
begin

section \<open>The search for the next run\<close>

text \<open>
  \<open>CronIter\<close> of \<open>src/backend-rs/src/jobs/cron.rs\<close>: a cursor walks forward a month, day, hour, minute
  or second at a time until every field matches, giving up after \<open>LOOP_LIMIT\<close> steps (the fuel of
  \<open>search\<close>). The calendar and the time zone are \<open>chrono\<close>'s and so a parameter, the record \<open>zone\<close>:
  the date of a day and the day of a date, the weekday, the supported range of timestamps, and the
  zone's offset in seconds at a moment. A \<open>NaiveDateTime\<close> is the milliseconds from 1970-01-01 to the
  wall-clock reading. Millisecond arithmetic (\<open>i64\<close>) is on \<open>int\<close>: within the supported range of
  timestamps it does not overflow.
\<close>

subsection \<open>Matching\<close>

fun at_least :: "int \<Rightarrow> atom list \<Rightarrow> bool option" where
  "at_least v [] = None"
| "at_least v (Num n # as) = (if v \<le> n then Some (n = v) else at_least v as)"
| "at_least v (Text t # as) = at_least v as"

definition match_schedule :: "int \<Rightarrow> atom list \<Rightarrow> bool" where
  "match_schedule v as =
     (case at_least v as of
        Some b \<Rightarrow> b
      | None \<Rightarrow> (case as of Num n # _ \<Rightarrow> n = v | _ \<Rightarrow> False))"

definition has_l :: "atom list \<Rightarrow> bool" where
  "has_l as \<longleftrightarrow> list_ex (\<lambda>a. case a of Text t \<Rightarrow> CHR ''L'' \<in> set t | Num _ \<Rightarrow> False) as"

text \<open>\<open>f64::EPSILON\<close>; the differences compared with it are exact in \<open>f64\<close>.\<close>

definition EPSILON :: rat where
  "EPSILON = 1 / 2 ^ 52"

definition is_nth_day_match :: "int \<Rightarrow> rat \<Rightarrow> bool" where
  "is_nth_day_match d occ \<longleftrightarrow>
     (if 6 \<le> occ then False
      else if d < 8 \<and> \<bar>occ - 1\<bar> < EPSILON then True
      else
        let off = (if d mod 7 \<noteq> 0 then 1 else 0);
            occurrence = (d - d mod 7) div 7 + off
        in \<bar>of_int occurrence - occ\<bar> < EPSILON)"

subsection \<open>Wall-clock time\<close>

record zone =
  date :: "int \<Rightarrow> int \<times> int \<times> int"
  from_ymd :: "int \<Rightarrow> int \<Rightarrow> int \<Rightarrow> int option"
  weekday :: "int \<Rightarrow> int"
  in_range :: "int \<Rightarrow> bool"
  offset :: "int \<Rightarrow> int"

definition DAY_MS :: int where
  "DAY_MS = 86400000"

definition HOUR_MS :: int where
  "HOUR_MS = 3600000"

definition LOOP_LIMIT :: nat where
  "LOOP_LIMIT = 10000"

definition l_day :: "int \<Rightarrow> int" where
  "l_day l = l div DAY_MS"

definition l_hour :: "int \<Rightarrow> int" where
  "l_hour l = l div HOUR_MS mod 24"

definition l_minute :: "int \<Rightarrow> int" where
  "l_minute l = l div 60000 mod 60"

definition l_second :: "int \<Rightarrow> int" where
  "l_second l = l div 1000 mod 60"

text \<open>\<open>and_hms_opt\<close> on a date, always given valid fields.\<close>

definition at_hms :: "int \<Rightarrow> int \<Rightarrow> int \<Rightarrow> int \<Rightarrow> int" where
  "at_hms days h m s = days * DAY_MS + h * HOUR_MS + m * 60000 + s * 1000"

definition offset_ms :: "zone \<Rightarrow> int \<Rightarrow> int" where
  "offset_ms z ms = (if in_range z ms then offset z ms * 1000 else 0)"

definition local_ms :: "zone \<Rightarrow> int \<Rightarrow> int" where
  "local_ms z ms = (let l = ms + offset_ms z ms in if in_range z l then l else 0)"

definition from_local :: "zone \<Rightarrow> int \<Rightarrow> int \<Rightarrow> int" where
  "from_local z wall guess =
     (let utc_guess = wall - guess;
          o2 = offset_ms z utc_guess
      in if o2 = guess then utc_guess
         else
           let utc_guess = utc_guess - (o2 - guess);
               o3 = offset_ms z utc_guess
           in if o2 = o3 then utc_guess else wall - min o2 o3)"

definition add_day :: "zone \<Rightarrow> int \<Rightarrow> int" where
  "add_day z ms =
     (let l = local_ms z ms
      in if \<not> in_range z ((l_day l + 1) * DAY_MS) then ms
         else
           let moved = from_local z ((l_day l + 1) * DAY_MS + l mod DAY_MS) (offset_ms z ms);
               start = at_hms (l_day (local_ms z moved)) 0 0 0
           in from_local z start (offset_ms z moved))"

definition add_month :: "zone \<Rightarrow> int \<Rightarrow> int" where
  "add_month z ms =
     (let l = local_ms z ms;
          (y, m, d) = date z (l_day l);
          (y', m') = (if m = 12 then (y + 1, 1) else (y, m + 1))
      in case from_ymd z y' m' (min d (days_in y' m')) of
           None \<Rightarrow> ms
         | Some d' \<Rightarrow>
             let moved = from_local z (d' * DAY_MS + l mod DAY_MS) (offset_ms z ms);
                 (my, mm, _) = date z (l_day (local_ms z moved))
             in case from_ymd z my mm 1 of
                  None \<Rightarrow> moved
                | Some first \<Rightarrow> from_local z (at_hms first 0 0 0) (offset_ms z moved))"

datatype cron_unit = UMonth | UDay | UHour | UMinute | USecond

definition add_time :: "zone \<Rightarrow> int \<Rightarrow> int \<Rightarrow> cron_unit \<Rightarrow> int" where
  "add_time z ms amount u =
     (let moved = ms + amount;
          l = local_ms z moved;
          (h, m, s) = (case u of
             UHour \<Rightarrow> (l_hour l, 0, 0)
           | UMinute \<Rightarrow> (l_hour l, l_minute l, 0)
           | _ \<Rightarrow> (l_hour l, l_minute l, l_second l))
      in from_local z (at_hms (l_day l) h m s) (offset_ms z moved))"

definition add_hour :: "zone \<Rightarrow> int \<Rightarrow> int" where
  "add_hour z ms =
     (let n = add_time z ms HOUR_MS UHour in if n \<le> ms then n + HOUR_MS else n)"

definition add_small :: "zone \<Rightarrow> int \<Rightarrow> cron_unit \<Rightarrow> int" where
  "add_small z ms u =
     (let n = add_time z ms (if u = UMinute then 60000 else 1000) u
      in if n < ms then n + HOUR_MS else n)"

definition subtract_hour :: "zone \<Rightarrow> int \<Rightarrow> int" where
  "subtract_hour z ms =
     (let moved = ms - HOUR_MS;
          l = local_ms z moved;
          n = from_local z (at_hms (l_day l) (l_hour l) 59 59) (offset_ms z moved)
      in if ms \<le> n then n - HOUR_MS else n)"

subsection \<open>The iterator\<close>

record cron_iter =
  expr :: cron_expr
  tz :: zone
  current :: int
  end_ms :: "int option"
  dst_start :: "int option"
  dst_end :: "int option"

definition cron_iter_new :: "cron_expr \<Rightarrow> zone \<Rightarrow> int \<Rightarrow> int option \<Rightarrow> cron_iter" where
  "cron_iter_new e z cur en =
     \<lparr>expr = e, tz = z, current = cur, end_ms = en, dst_start = None, dst_end = None\<rparr>"

definition shift :: "cron_iter \<Rightarrow> int \<Rightarrow> cron_unit \<Rightarrow> int \<times> cron_iter" where
  "shift it ms u =
     (let z = tz it
      in if u = UMonth \<or> u = UDay then
           let n = (if u = UMonth then add_month z ms else add_day z ms)
           in if n \<noteq> ms then (n, it)
              else
                let l = local_ms z n
                in if l_minute l = 0 \<and> l_second l = 0 then (add_hour z n, it)
                   else if l_minute l = 59 \<and> l_second l = 59 then (subtract_hour z n, it)
                   else (n, it)
         else
           let previous = l_hour (local_ms z ms);
               n = (if u = UHour then add_hour z ms else add_small z ms u);
               l = local_ms z n;
               h = l_hour l;
               hour_set = length (hour_f (expr it)) \<noteq> 24
           in if h - previous = 2 then (n, if hour_set then it\<lparr>dst_start := Some h\<rparr> else it)
              else if h = previous \<and> l_minute l = 0 \<and> l_second l = 0 \<and> hour_set
              then (n, it\<lparr>dst_end := Some h\<rparr>)
              else (n, it))"

text \<open>\<open>last_weekday_match\<close>, on a reading's day: some \<open>nL\<close> names this weekday, in its last week.\<close>

fun last_weekday_match :: "zone \<Rightarrow> int \<Rightarrow> atom list \<Rightarrow> (string, bool) res" where
  "last_weekday_match z d [] = Inr False"
| "last_weekday_match z d (Num _ # as) = last_weekday_match z d as"
| "last_weekday_match z d (Text t # as) =
     (case t of
        c # _ \<Rightarrow>
          if is_digit c then
            (let (y, m, dd) = date z d
             in if weekday z d = int (digit_val c) mod 7 \<and> days_in y m < dd + 7 then Inr True
                else last_weekday_match z d as)
          else Inl (''Invalid last weekday of the month expression: '' @ t)
      | [] \<Rightarrow> Inl (''Invalid last weekday of the month expression: '' @ t))"

definition skip_day :: "cron_expr \<Rightarrow> zone \<Rightarrow> int \<Rightarrow> (string, bool) res" where
  "skip_day e z d =
     (let (y, m, dd) = date z d;
          month_day_ok = match_schedule dd (day_of_month_f e) \<or>
            (has_l (day_of_month_f e) \<and> dd = days_in y m)
      in and_then
           (if match_schedule (weekday z d) (day_of_week_f e) then Inr True
            else if has_l (day_of_week_f e) then last_weekday_match z d (day_of_week_f e)
            else Inr False)
           (\<lambda>week_day_ok.
             let month_len = (if 1 \<le> m \<and> m \<le> 12 then DAYS_IN_MONTH ! nat (m - 1) else 31);
                 any_month_day = month_len \<le> int (length (day_of_month_f e));
                 any_week_day = length (day_of_week_f e) = 8
             in Inr ((\<not> month_day_ok \<and> (\<not> week_day_ok \<or> any_week_day)) \<or>
                     (any_month_day \<and> \<not> any_week_day \<and> \<not> week_day_ok) \<or>
                     (0 < nth_day_of_week e \<and> \<not> is_nth_day_match dd (nth_day_of_week e)))))"

text \<open>One turn of the loop: an error, a moved cursor, or the end of the search at the cursor.\<close>

datatype verdict = Fail string cron_iter | Move int cron_iter | Found cron_iter

definition move :: "int \<times> cron_iter \<Rightarrow> verdict" where
  "move p = Move (fst p) (snd p)"

definition visit_small :: "cron_iter \<Rightarrow> int \<Rightarrow> int \<Rightarrow> verdict" where
  "visit_small it start cur =
     (let l = local_ms (tz it) cur; e = expr it
      in if \<not> match_schedule (l_minute l) (minute_f e) then move (shift it cur UMinute)
         else if \<not> match_schedule (l_second l) (second_f e) then move (shift it cur USecond)
         else if start = cur then move (shift it cur USecond)
         else Found it)"

definition visit_hour :: "cron_iter \<Rightarrow> int \<Rightarrow> int \<Rightarrow> verdict" where
  "visit_hour it start cur =
     (let h = l_hour (local_ms (tz it) cur); e = expr it
      in if \<not> match_schedule h (hour_f e) then
           if dst_start it \<noteq> Some h then move (shift (it\<lparr>dst_start := None\<rparr>) cur UHour)
           else if \<not> match_schedule (h - 1) (hour_f e) then Move (add_hour (tz it) cur) it
           else visit_small it start cur
         else if dst_end it = Some h then move (shift (it\<lparr>dst_end := None\<rparr>) cur UHour)
         else visit_small it start cur)"

definition visit :: "cron_iter \<Rightarrow> int \<Rightarrow> int \<Rightarrow> verdict" where
  "visit it start cur =
     (if (case end_ms it of Some en \<Rightarrow> en < cur | None \<Rightarrow> False)
      then Fail ''Out of the timespan range'' it
      else
        let l = local_ms (tz it) cur; e = expr it; (y, m, d) = date (tz it) (l_day l)
        in case skip_day e (tz it) (l_day l) of
             Inl err \<Rightarrow> Fail err it
           | Inr skip \<Rightarrow>
               if skip then move (shift it cur UDay)
               else if \<not> match_schedule m (month_f e) then move (shift it cur UMonth)
               else visit_hour it start cur)"

fun search :: "nat \<Rightarrow> cron_iter \<Rightarrow> int \<Rightarrow> int \<Rightarrow> (string, int) res \<times> cron_iter" where
  "search 0 it start cur = (Inl ''Invalid expression, loop limit exceeded'', it)"
| "search (Suc n) it start cur =
     (case visit it start cur of
        Fail err it' \<Rightarrow> (Inl err, it')
      | Move cur' it' \<Rightarrow> search n it' start cur'
      | Found it' \<Rightarrow>
          if n = 0 then (Inl ''Invalid expression, loop limit exceeded'', it')
          else (Inr cur, it'\<lparr>current := cur\<rparr>))"

declare search.simps(2) [simp del]

definition next_after :: "cron_iter \<Rightarrow> (string, int) res \<times> cron_iter" where
  "next_after it = search LOOP_LIMIT it (current it) (current it)"

subsection \<open>Calendar days back\<close>

text \<open>
  \<open>local_days_before\<close> of \<open>clock.rs\<close>: the wall-clock time some calendar days earlier. An ambiguous
  reading is the earlier moment, a skipped one is read with the offset in force a day before it.
\<close>

definition from_local_wall :: "zone \<Rightarrow> int \<Rightarrow> int" where
  "from_local_wall z wall =
     (let before = offset_ms z (wall - 86400000);
          after = offset_ms z (wall + 86400000);
          shown = filter (\<lambda>utc. offset_ms z utc = wall - utc) (map (\<lambda>x. wall - x) [before, after])
      in case shown of
           [] \<Rightarrow> wall - before
         | t # ts \<Rightarrow> foldl min t ts)"

definition local_days_before :: "zone \<Rightarrow> int \<Rightarrow> int \<Rightarrow> int" where
  "local_days_before z now days =
     (if \<not> in_range z now then now - days * 86400000
      else
        let shifted = now + offset_ms z now - days * DAY_MS
        in if in_range z shifted then from_local_wall z shifted else now - days * 86400000)"

end
