(* ===== verification/CronLeast.thy ===== *)
theory CronLeast
  imports CronNext
begin

section \<open>The next run is the first moment that matches\<close>

text \<open>
  Correctness of the search of \<open>CronNext\<close>. In any zone what it returns matches every field, with the
  exception the code makes for an hour skipped by the clocks. In a zone of fixed offset, for a
  calendar that provides the \<open>calendar\<close> interface on the days the search can reach, it returns the
  first whole second after the start that matches: each move of the cursor skips only moments that
  do not.
\<close>

subsection \<open>Matching a sorted list of values\<close>

lemma at_least_None: "at_least v as = None \<Longrightarrow> Num n \<in> set as \<Longrightarrow> n < v"
  by (induction v as rule: at_least.induct) (auto split: if_splits)

lemma at_least_Some:
  "sorted as \<Longrightarrow> at_least v as = Some b \<Longrightarrow> b \<longleftrightarrow> Num v \<in> set as"
proof (induction v as rule: at_least.induct)
  case (2 v n as)
  have "v \<noteq> n \<Longrightarrow> v \<le> n \<Longrightarrow> Num v \<notin> set as"
  proof
    assume "v \<noteq> n" "v \<le> n" "Num v \<in> set as"
    then have "Num n \<le> Num v" using 2(2) by (meson sorted_wrt.simps(2))
    then show False using \<open>v \<noteq> n\<close> \<open>v \<le> n\<close> by simp
  qed
  then show ?case using 2 by (auto split: if_splits)
qed auto

text \<open>
  On the sorted values the parser returns, \<open>match_schedule\<close> holds exactly for the numbers in the
  list.
\<close>

theorem match_schedule_sorted:
  assumes "sorted as"
  shows "match_schedule v as \<longleftrightarrow> Num v \<in> set as"
proof (cases "at_least v as")
  case None
  then show ?thesis
    using at_least_None [OF None, of v]
    by (auto simp: match_schedule_def split: list.splits atom.splits)
next
  case (Some b)
  then show ?thesis using at_least_Some [OF assms Some] by (simp add: match_schedule_def)
qed

theorem match_schedule_sorted_witness:
  "match_schedule 15 [Num 0, Num 15, Text ''L''] \<and> \<not> match_schedule 16 [Num 0, Num 15, Text ''L'']"
  by (simp add: match_schedule_sorted)

subsection \<open>What is returned matches\<close>

lemma shift_frame:
  "shift it ms u = (n, it') \<Longrightarrow> expr it' = expr it \<and> tz it' = tz it \<and> end_ms it' = end_ms it"
  by (auto simp: shift_def Let_def split: if_splits)

lemma move_frame:
  "move (shift it ms u) = Move c it' \<Longrightarrow> expr it' = expr it \<and> tz it' = tz it \<and> end_ms it' = end_ms it"
  by (cases "shift it ms u") (auto simp: move_def dest: shift_frame)

lemma move_not [simp]: "move p \<noteq> Found it" "move p \<noteq> Fail e it"
  by (simp_all add: move_def)

lemma visit_small_frame:
  "visit_small it start cur = Move c it' \<Longrightarrow> expr it' = expr it \<and> tz it' = tz it \<and> end_ms it' = end_ms it"
  by (auto simp: visit_small_def Let_def dest: move_frame split: if_splits)

lemma visit_frame:
  "visit it start cur = Move c it' \<Longrightarrow> expr it' = expr it \<and> tz it' = tz it \<and> end_ms it' = end_ms it"
  by (auto simp: visit_def visit_hour_def Let_def split_def dest!: move_frame dest: visit_small_frame
      split: if_splits sum.splits)

text \<open>The tests on the reading of a moment, the hour's apart.\<close>

definition day_and_minute_match :: "cron_expr \<Rightarrow> zone \<Rightarrow> int \<Rightarrow> bool" where
  "day_and_minute_match e z l \<longleftrightarrow>
     skip_day e z (l_day l) = Inr False \<and>
     (case date z (l_day l) of (_, m, _) \<Rightarrow> match_schedule m (month_f e)) \<and>
     match_schedule (l_minute l) (minute_f e) \<and> match_schedule (l_second l) (second_f e)"

definition fires :: "cron_expr \<Rightarrow> zone \<Rightarrow> int \<Rightarrow> bool" where
  "fires e z t \<longleftrightarrow> day_and_minute_match e z (local_ms z t) \<and>
     match_schedule (l_hour (local_ms z t)) (hour_f e)"

lemma visit_Found:
  assumes "visit it start cur = Found it'"
  shows "it' = it \<and> cur \<noteq> start \<and> (\<forall>en. end_ms it = Some en \<longrightarrow> cur \<le> en) \<and>
    day_and_minute_match (expr it) (tz it) (local_ms (tz it) cur) \<and>
    (match_schedule (l_hour (local_ms (tz it) cur)) (hour_f (expr it)) \<or>
     dst_start it = Some (l_hour (local_ms (tz it) cur)) \<and>
     match_schedule (l_hour (local_ms (tz it) cur) - 1) (hour_f (expr it)))"
  using assms
  by (auto simp: visit_def visit_hour_def visit_small_def day_and_minute_match_def Let_def split_def
      split: if_splits sum.splits option.splits)

text \<open>
  Whatever the zone: a moment the search returns is not the start, is not past the end, and matches
  the schedule; its hour is one of the schedule's, or the hour after one that the clocks skipped.
\<close>

theorem search_sound:
  assumes "search n it start cur = (Inr t, it')"
  shows "t \<noteq> start \<and> current it' = t \<and> (\<forall>en. end_ms it = Some en \<longrightarrow> t \<le> en) \<and>
    day_and_minute_match (expr it) (tz it) (local_ms (tz it) t) \<and>
    (match_schedule (l_hour (local_ms (tz it) t)) (hour_f (expr it)) \<or>
     dst_start it' = Some (l_hour (local_ms (tz it) t)) \<and>
     match_schedule (l_hour (local_ms (tz it) t) - 1) (hour_f (expr it)))"
  using assms
proof (induction n arbitrary: it cur)
  case (Suc n)
  show ?case
  proof (cases "visit it start cur")
    case (Found i)
    then show ?thesis
      using Suc.prems visit_Found [OF Found] by (auto simp: search.simps(2) split: if_splits)
  next
    case (Move c i)
    then show ?thesis
      using Suc.prems Suc.IH [of i c] visit_frame [OF Move] by (simp add: search.simps(2))
  qed (use Suc.prems in \<open>simp add: search.simps(2)\<close>)
qed simp

subsection \<open>Readings of the clock\<close>

lemma hms_parts:
  "l div DAY_MS = l div HOUR_MS div 24" "l div HOUR_MS = l div 60000 div 60" "l div 60000 = l div 1000 div 60"
  by (simp_all add: DAY_MS_def HOUR_MS_def zdiv_zmult2_eq [of _ _ 24, symmetric, simplified]
      zdiv_zmult2_eq [of 60 "l" 60000, symmetric] zdiv_zmult2_eq [of 60 l 1000, symmetric])

lemma div_mod_join: "q div k * (k * c) + q mod k * c = q * c" for q k c :: int
proof -
  have "q * c = (q div k * k + q mod k) * c" by simp
  then show ?thesis by (simp only: distrib_right mult.assoc)
qed

lemma at_hms_floor:
  "at_hms (l_day l) 0 0 0 = l div DAY_MS * DAY_MS"
  "at_hms (l_day l) (l_hour l) 0 0 = l div HOUR_MS * HOUR_MS"
  "at_hms (l_day l) (l_hour l) (l_minute l) 0 = l div 60000 * 60000"
  "at_hms (l_day l) (l_hour l) (l_minute l) (l_second l) = l div 1000 * 1000"
proof -
  have dh: "DAY_MS = 24 * HOUR_MS" "HOUR_MS = 60 * 60000" by (simp_all add: DAY_MS_def HOUR_MS_def)
  have d: "l_day l * DAY_MS + l_hour l * HOUR_MS = l div HOUR_MS * HOUR_MS"
    unfolding l_day_def l_hour_def hms_parts(1) unfolding dh(1) by (rule div_mod_join)
  have h: "l div HOUR_MS * HOUR_MS + l_minute l * 60000 = l div 60000 * 60000"
    unfolding l_minute_def hms_parts(2) unfolding dh(2) by (rule div_mod_join)
  have m: "l div 60000 * 60000 + l_second l * 1000 = l div 1000 * 1000"
    using div_mod_join [of "l div 1000" 60 1000] by (simp add: l_second_def hms_parts(3) [symmetric])
  show "at_hms (l_day l) 0 0 0 = l div DAY_MS * DAY_MS" by (simp add: at_hms_def l_day_def)
  show "at_hms (l_day l) (l_hour l) 0 0 = l div HOUR_MS * HOUR_MS"
    "at_hms (l_day l) (l_hour l) (l_minute l) 0 = l div 60000 * 60000"
    "at_hms (l_day l) (l_hour l) (l_minute l) (l_second l) = l div 1000 * 1000"
    using d h m by (simp_all add: at_hms_def)
qed

lemma next_multiple:
  fixes k l :: int
  assumes "0 < k"
  shows "l < (l div k + 1) * k" "(l div k + 1) * k \<le> l + k"
proof -
  have e: "l = l div k * k + l mod k" by simp
  have m: "0 \<le> l mod k" "l mod k < k" using assms by simp_all
  have d: "(l div k + 1) * k = l div k * k + k" by (simp add: distrib_right)
  show "l < (l div k + 1) * k" "(l div k + 1) * k \<le> l + k"
    using e m unfolding d by linarith+
qed

lemma next_hour: "(q + 1) mod 24 \<noteq> q mod 24 \<and> (q + 1) mod 24 - q mod 24 \<noteq> 2" for q :: int
  by presburger

lemma div_between:
  fixes k l u :: int
  assumes "0 < k" "l \<le> u" "u < (l div k + 1) * k"
  shows "u div k = l div k"
proof -
  have "l div k \<le> u div k" using assms by (simp add: zdiv_mono1)
  moreover have "u div k < l div k + 1"
  proof (rule ccontr)
    assume "\<not> ?thesis"
    then have "(l div k + 1) * k \<le> u div k * k" using assms(1) by (intro mult_right_mono) auto
    also have "\<dots> \<le> u" using pos_mod_sign [OF assms(1), of u] div_mult_mod_eq [of u k] by linarith
    finally show False using assms(3) by simp
  qed
  ultimately show ?thesis by simp
qed

subsection \<open>A zone of fixed offset\<close>

text \<open>
  The moments whose UTC and local readings fall on the days \<open>lo\<close> to \<open>hi\<close> are in the supported range
  and have the offset \<open>off\<close>, and the calendar provides its interface on these days.
\<close>

locale steady_zone = calendar lo hi "date z" "from_ymd z" for z :: zone and lo hi :: int +
  fixes off :: int
  assumes steady: "lo \<le> l_day (t + off * 1000) \<Longrightarrow> l_day (t + off * 1000) \<le> hi \<Longrightarrow>
      in_range z t \<and> in_range z (t + off * 1000) \<and> offset z t = off"
begin

lemma read_clock:
  assumes "lo \<le> l_day (t + off * 1000)" "l_day (t + off * 1000) \<le> hi"
  shows "offset_ms z t = off * 1000" "local_ms z t = t + off * 1000"
  using steady [OF assms] by (simp_all add: offset_ms_def local_ms_def)

lemma write_clock:
  assumes "lo \<le> l_day w" "l_day w \<le> hi"
  shows "from_local z w (off * 1000) = w - off * 1000"
  using read_clock(1) [of "w - off * 1000"] assms by (simp add: from_local_def Let_def)

text \<open>A cursor with room for a month before the end of the known days.\<close>

definition roomy :: "int \<Rightarrow> bool" where
  "roomy t \<longleftrightarrow> lo \<le> l_day (t + off * 1000) \<and> l_day (t + off * 1000) + 32 \<le> hi"

lemma roomy_local: "roomy t \<Longrightarrow> local_ms z t = t + off * 1000"
  by (rule read_clock) (simp_all add: roomy_def)

lemma l_day_at: "l_day (d * DAY_MS) = d" "0 \<le> r \<Longrightarrow> r < DAY_MS \<Longrightarrow> l_day (d * DAY_MS + r) = d"
  by (simp_all add: l_day_def DAY_MS_def)

lemma time_of_day: "0 \<le> l mod DAY_MS" "l mod DAY_MS < DAY_MS" "l_day l * DAY_MS + l mod DAY_MS = l"
  by (simp_all add: l_day_def DAY_MS_def)

lemma add_day_eq:
  assumes "roomy t" and l: "l = t + off * 1000"
  shows "add_day z t = (l_day l + 1) * DAY_MS - off * 1000"
proof -
  have r: "lo \<le> l_day l" "l_day l + 32 \<le> hi" using assms by (simp_all add: roomy_def)
  have L: "local_ms z t = l" "offset_ms z t = off * 1000"
    using read_clock [of t] r l by simp_all
  let ?w = "(l_day l + 1) * DAY_MS + l mod DAY_MS"
  have dw: "l_day ?w = l_day l + 1" by (intro l_day_at(2) time_of_day)
  have moved: "from_local z ?w (off * 1000) = ?w - off * 1000"
    using dw r by (intro write_clock) auto
  have rd: "local_ms z (?w - off * 1000) = ?w" "offset_ms z (?w - off * 1000) = off * 1000"
    using read_clock [of "?w - off * 1000"] dw r by simp_all
  have start: "at_hms (l_day ?w) 0 0 0 = (l_day l + 1) * DAY_MS"
    unfolding at_hms_floor(1) using dw by (simp add: l_day_def)
  have "in_range z ((l_day l + 1) * DAY_MS)"
    using steady [of "(l_day l + 1) * DAY_MS - off * 1000"] r by (simp add: l_day_at)
  then show ?thesis
    unfolding add_day_def Let_def L moved rd start
    using r by (simp add: write_clock l_day_at)
qed

lemma add_time_eq:
  assumes "roomy t" and l: "l = t + off * 1000" and k: "0 < k" "k \<le> HOUR_MS"
    and floor: "\<And>l. (case (case u of UHour \<Rightarrow> (l_hour l, 0, 0) | UMinute \<Rightarrow> (l_hour l, l_minute l, 0)
        | _ \<Rightarrow> (l_hour l, l_minute l, l_second l)) of (h, m, s) \<Rightarrow> at_hms (l_day l) h m s) = l div k * k"
  shows "add_time z t k u = (l div k + 1) * k - off * 1000"
proof -
  have r: "lo \<le> l_day l" "l_day l + 32 \<le> hi" using assms by (simp_all add: roomy_def)
  have up: "l_day x \<le> l_day l + 1" "l_day l \<le> l_day x" if "l \<le> x" "x \<le> l + k" for x
  proof -
    have "x \<le> l + DAY_MS" using that k by (simp add: HOUR_MS_def DAY_MS_def)
    then have "x div DAY_MS \<le> (l + DAY_MS) div DAY_MS" by (simp add: zdiv_mono1 DAY_MS_def)
    then show "l_day x \<le> l_day l + 1" by (simp add: l_day_def DAY_MS_def)
    show "l_day l \<le> l_day x" using that by (simp add: l_day_def zdiv_mono1 DAY_MS_def)
  qed
  have e: "t + k + off * 1000 = l + k" using l by simp
  have m: "local_ms z (t + k) = l + k" "offset_ms z (t + k) = off * 1000"
    using read_clock [of "t + k"] up [of "l + k"] r k unfolding e by simp_all
  have q: "(l + k) div k * k = (l div k + 1) * k" using k by simp
  have "lo \<le> l_day ((l div k + 1) * k)" "l_day ((l div k + 1) * k) \<le> hi"
    using up [of "(l div k + 1) * k"] next_multiple [OF k(1), of l] r by auto
  then have w: "from_local z ((l div k + 1) * k) (off * 1000) = (l div k + 1) * k - off * 1000"
    by (rule write_clock)
  show ?thesis
    unfolding add_time_def Let_def m using floor [of "l + k"] unfolding q split_def using w
    by (simp add: split_def)
qed

lemma add_hour_eq:
  assumes "roomy t" and l: "l = t + off * 1000"
  shows "add_hour z t = (l div HOUR_MS + 1) * HOUR_MS - off * 1000"
proof -
  have "add_time z t HOUR_MS UHour = (l div HOUR_MS + 1) * HOUR_MS - off * 1000"
    by (rule add_time_eq [OF assms]) (simp_all add: at_hms_floor HOUR_MS_def)
  then show ?thesis
    using next_multiple(1) [of HOUR_MS l] l by (simp add: add_hour_def Let_def HOUR_MS_def)
qed

definition small_ms :: "cron_unit \<Rightarrow> int" where
  "small_ms u = (if u = UMinute then 60000 else 1000)"

lemma add_small_eq:
  assumes "roomy t" and l: "l = t + off * 1000" and u: "u = UMinute \<or> u = USecond"
  shows "add_small z t u = (l div small_ms u + 1) * small_ms u - off * 1000"
proof -
  have "add_time z t (small_ms u) u = (l div small_ms u + 1) * small_ms u - off * 1000"
    by (rule add_time_eq [OF assms(1,2)]) (use u in \<open>auto simp: at_hms_floor HOUR_MS_def small_ms_def\<close>)
  then show ?thesis
    using next_multiple(1) [of "small_ms u" l] l
    by (auto simp: add_small_def small_ms_def [symmetric] Let_def) (simp add: small_ms_def split: if_splits)
qed

text \<open>The first day of the next month, and every day before it in this one.\<close>

definition next_first :: "int \<Rightarrow> int" where
  "next_first d = (case date z d of (y, m, dd) \<Rightarrow> d + (days_in y m - dd) + 1)"

lemma next_first_bounds:
  assumes "lo \<le> d" "d + 32 \<le> hi"
  shows "d < next_first d" "next_first d \<le> d + 31"
proof -
  obtain y m dd where c: "date z d = (y, m, dd)" by (cases "date z d")
  have "days_in y m \<le> 31" by (simp add: days_in_def)
  then show "d < next_first d" "next_first d \<le> d + 31"
    using date_valid [OF assms(1) _ c] assms(2) c by (auto simp: next_first_def)
qed

lemma same_month_until:
  assumes "lo \<le> d" "d + 32 \<le> hi" "d \<le> e" "e < next_first d" "date z d = (y, m, dd)"
  shows "fst (snd (date z e)) = m"
  using month_days [OF assms(1,5) _ assms(3)] assms(2,4,5) by (simp add: next_first_def)

lemma add_month_eq:
  assumes "roomy t" and l: "l = t + off * 1000"
  shows "add_month z t = next_first (l_day l) * DAY_MS - off * 1000"
proof -
  have r: "lo \<le> l_day l" "l_day l + 32 \<le> hi" using assms by (simp_all add: roomy_def)
  have L: "local_ms z t = l" "offset_ms z t = off * 1000"
    using read_clock [of t] r l by simp_all
  obtain y m dd where c: "date z (l_day l) = (y, m, dd)" by (cases "date z (l_day l)")
  obtain y' m' where n: "(if m = 12 then (y + 1, 1) else (y, m + 1)) = (y', m')" by force
  let ?f = "next_first (l_day l)"
  have fb: "l_day l < ?f" "?f \<le> l_day l + 31" by (rule next_first_bounds [OF r])+
  have f: "date z ?f = (y', m', 1)"
    using first_of_next_month [OF r(1) c] r(2) n c by (auto simp: next_first_def split: if_splits)
  have v: "1 \<le> dd" "dd \<le> days_in y m" using date_valid [OF r(1) _ c] r(2) by auto
  let ?d = "min dd (days_in y' m')"
  have d1: "1 \<le> ?d" "?d \<le> days_in y' m'" using v by (auto simp: days_in_def)
  have room: "?f + (?d - 1) \<le> l_day l + 31"
  proof -
    have "days_in y m \<le> 31" by (simp add: days_in_def)
    moreover have "?d \<le> dd" by (rule min.cobounded1)
    ultimately show ?thesis using c by (simp add: next_first_def del: min.cobounded1)
  qed
  have md: "date z (?f + int (nat (?d - 1))) = (y', m', 1 + int (nat (?d - 1)))"
    using same_month [OF _ f, of "nat (?d - 1)"] fb(1) r room d1 by simp
  then have md: "date z (?f + (?d - 1)) = (y', m', ?d)" using d1 by simp
  have fy: "from_ymd z y' m' ?d = Some (?f + (?d - 1))"
    using from_date [OF _ _ md] fb r room d1 by simp
  have f1: "from_ymd z y' m' 1 = Some ?f" using from_date [OF _ _ f] fb r by simp
  let ?w = "(?f + (?d - 1)) * DAY_MS + l mod DAY_MS"
  have dw: "l_day ?w = ?f + (?d - 1)" by (intro l_day_at(2) time_of_day)
  have win: "lo \<le> l_day ?w" "l_day ?w \<le> hi" unfolding dw using fb(1) room r d1(1) by linarith+
  have rd: "local_ms z (?w - off * 1000) = ?w" "offset_ms z (?w - off * 1000) = off * 1000"
    using read_clock [of "?w - off * 1000"] win by simp_all
  have start: "at_hms ?f 0 0 0 = ?f * DAY_MS" by (simp add: at_hms_def)
  have "from_local z (?f * DAY_MS) (off * 1000) = ?f * DAY_MS - off * 1000"
    using fb r by (intro write_clock) (simp_all add: l_day_at)
  then show ?thesis
    unfolding add_month_def Let_def L c prod.case n fy option.case write_clock [OF win] rd dw md f1 start
    by simp
qed

text \<open>Where each move goes, and that the bookkeeping for the clock changes stays empty.\<close>

definition goes_to :: "cron_unit \<Rightarrow> int \<Rightarrow> int" where
  "goes_to u l =
     (case u of
        UDay \<Rightarrow> (l_day l + 1) * DAY_MS
      | UMonth \<Rightarrow> next_first (l_day l) * DAY_MS
      | UHour \<Rightarrow> (l div HOUR_MS + 1) * HOUR_MS
      | UMinute \<Rightarrow> (l div 60000 + 1) * 60000
      | USecond \<Rightarrow> (l div 1000 + 1) * 1000)"

lemma goes_to_bounds:
  assumes "lo \<le> l_day l" "l_day l + 32 \<le> hi"
  shows "l < goes_to u l" "l_day (goes_to u l) \<le> l_day l + 31" "l_day l \<le> l_day (goes_to u l)"
    "goes_to u l mod 1000 = 0"
proof -
  have n: "l_day l < next_first (l_day l)" "next_first (l_day l) \<le> l_day l + 31"
    by (rule next_first_bounds [OF assms])+
  have d: "l < d * DAY_MS" if "l_day l < d" for d
  proof -
    have "(l_day l + 1) * DAY_MS \<le> d * DAY_MS" using that by (intro mult_right_mono) (simp_all add: DAY_MS_def)
    then show ?thesis using next_multiple(1) [of DAY_MS l] by (simp add: l_day_def DAY_MS_def)
  qed
  have k: "l < (l div k + 1) * k \<and> l_day ((l div k + 1) * k) \<le> l_day l + 31"
    if "0 < k" "k \<le> HOUR_MS" for k
  proof -
    have "(l div k + 1) * k \<le> l + DAY_MS"
      using next_multiple(2) [OF that(1), of l] that by (simp add: HOUR_MS_def DAY_MS_def)
    then have "(l div k + 1) * k div DAY_MS \<le> (l + DAY_MS) div DAY_MS"
      by (rule zdiv_mono1) (simp add: DAY_MS_def)
    then show ?thesis using next_multiple(1) [OF that(1), of l] by (simp add: l_day_def DAY_MS_def)
  qed
  show less: "l < goes_to u l"
    using d [of "l_day l + 1"] d [OF n(1)] k [of HOUR_MS] k [of 60000] k [of 1000]
    by (cases u) (simp_all add: goes_to_def HOUR_MS_def)
  show "l_day (goes_to u l) \<le> l_day l + 31"
    using n(2) k [of HOUR_MS] k [of 60000] k [of 1000]
    by (cases u) (simp_all add: goes_to_def l_day_at HOUR_MS_def)
  show "l_day l \<le> l_day (goes_to u l)"
    using less by (simp add: l_day_def zdiv_mono1 DAY_MS_def)
  have m: "x * (1000 * c) mod 1000 = 0" for x c :: int by simp
  show "goes_to u l mod 1000 = 0"
    using m [of _ 86400] m [of _ 3600] m [of _ 60] m [of _ 1]
    by (cases u) (simp_all only: goes_to_def cron_unit.case DAY_MS_def HOUR_MS_def, simp_all)
qed

lemma no_clock_change:
  assumes l: "l' = (l div k + 1) * k" and k: "k = HOUR_MS \<or> k = 60000 \<or> k = 1000"
  shows "l_hour l' - l_hour l \<noteq> 2" "l_hour l' = l_hour l \<Longrightarrow> k \<noteq> HOUR_MS"
    "l_hour l' = l_hour l \<Longrightarrow> l_minute l' = 0 \<Longrightarrow> l_second l' \<noteq> 0"
proof -
  have k0: "0 < k" using k by (auto simp: HOUR_MS_def)
  have b: "l < l'" "l' \<le> l + k" using next_multiple [OF k0, of l] l by simp_all
  have "l' \<le> l + HOUR_MS" using b(2) k by (auto simp: HOUR_MS_def)
  then have "l' div HOUR_MS \<le> (l + HOUR_MS) div HOUR_MS" by (rule zdiv_mono1) (simp add: HOUR_MS_def)
  then have q: "l' div HOUR_MS = l div HOUR_MS \<or> l' div HOUR_MS = l div HOUR_MS + 1"
    using zdiv_mono1 [of l l' HOUR_MS] b(1) by (auto simp: HOUR_MS_def)
  then have h: "l' div HOUR_MS = l div HOUR_MS" if "l_hour l' = l_hour l"
    using that q next_hour [of "l div HOUR_MS"] by (auto simp: l_hour_def)
  show "l_hour l' - l_hour l \<noteq> 2"
    using q next_hour [of "l div HOUR_MS"] by (auto simp: l_hour_def)
  show "k \<noteq> HOUR_MS" if "l_hour l' = l_hour l"
    using h [OF that] l by (auto simp: HOUR_MS_def)
  show "l_second l' \<noteq> 0" if e: "l_hour l' = l_hour l" "l_minute l' = 0"
  proof
    assume s: "l_second l' = 0"
    have "l' div 1000 * 1000 = l' div 60000 * 60000"
      using div_mod_join [of "l' div 1000" 60 1000] s
      by (simp add: l_second_def hms_parts(3) [symmetric])
    moreover have "l' div 60000 * 60000 = l' div HOUR_MS * HOUR_MS"
      using div_mod_join [of "l' div 60000" 60 60000] e(2)
      by (simp add: l_minute_def hms_parts(2) [symmetric]) (simp add: HOUR_MS_def)
    moreover have "l' div 1000 * 1000 = l'"
      using l k by (auto simp: HOUR_MS_def)
    ultimately have "l' = l div HOUR_MS * HOUR_MS" using h [OF e(1)] by simp
    also have "\<dots> \<le> l" using pos_mod_sign [of HOUR_MS l] div_mult_mod_eq [of l HOUR_MS]
      by (simp add: HOUR_MS_def)
    finally show False using b(1) by simp
  qed
qed

lemma shift_eq:
  assumes "roomy t" and l: "l = t + off * 1000" and it: "tz it = z"
  shows "shift it t u = (goes_to u l - off * 1000, it)"
proof -
  have r: "lo \<le> l_day l" "l_day l + 32 \<le> hi" using assms by (simp_all add: roomy_def)
  note b = goes_to_bounds [OF r, of u]
  have L: "local_ms z t = l" using roomy_local [OF assms(1)] l by simp
  have L': "local_ms z (goes_to u l - off * 1000) = goes_to u l"
    using read_clock(2) [of "goes_to u l - off * 1000"] b(2,3) r by simp
  have ne: "goes_to u l - off * 1000 \<noteq> t" using b(1) l by simp
  have small: "shift it t u = (goes_to u l - off * 1000, it)"
    if "(if u = UHour then add_hour z t else add_small z t u) = goes_to u l - off * 1000"
      "goes_to u l = (l div k + 1) * k" "k = HOUR_MS \<or> k = 60000 \<or> k = 1000" "u \<noteq> UMonth" "u \<noteq> UDay" for k
    using no_clock_change(1,3) [OF that(2,3)] that(1,4,5) by (auto simp: shift_def Let_def it L L')
  show ?thesis
  proof (cases u)
    case UMonth
    then show ?thesis using add_month_eq [OF assms(1,2)] ne by (simp add: shift_def Let_def it goes_to_def)
  next
    case UDay
    then show ?thesis using add_day_eq [OF assms(1,2)] ne by (simp add: shift_def Let_def it goes_to_def)
  next
    case UHour
    then show ?thesis using add_hour_eq [OF assms(1,2)] by (intro small [of HOUR_MS]) (simp_all add: goes_to_def)
  next
    case UMinute
    then show ?thesis
      using add_small_eq [OF assms(1,2), of UMinute] by (intro small [of 60000]) (simp_all add: goes_to_def small_ms_def)
  next
    case USecond
    then show ?thesis
      using add_small_eq [OF assms(1,2), of USecond] by (intro small [of 1000]) (simp_all add: goes_to_def small_ms_def)
  qed
qed

text \<open>The readings a move jumps over share the field that did not match.\<close>

lemma jumped_day:
  assumes "roomy t" "t \<le> u" "u + off * 1000 < (l_day (t + off * 1000) + 1) * DAY_MS"
  shows "l_day (local_ms z u) = l_day (local_ms z t)" "local_ms z u = u + off * 1000"
proof -
  have e: "l_day (u + off * 1000) = l_day (t + off * 1000)"
    using div_between [of DAY_MS "t + off * 1000" "u + off * 1000"] assms(2,3)
    by (simp add: l_day_def DAY_MS_def)
  show "local_ms z u = u + off * 1000"
    using read_clock(2) [of u] assms(1) e by (simp add: roomy_def)
  then show "l_day (local_ms z u) = l_day (local_ms z t)"
    using e roomy_local [OF assms(1)] by simp
qed

lemma jumped_month:
  assumes "roomy t" "t \<le> u" "u + off * 1000 < next_first (l_day (t + off * 1000)) * DAY_MS"
  shows "fst (snd (date z (l_day (local_ms z u)))) = fst (snd (date z (l_day (local_ms z t))))"
proof -
  let ?d = "l_day (t + off * 1000)" let ?e = "l_day (u + off * 1000)"
  have r: "lo \<le> ?d" "?d + 32 \<le> hi" using assms(1) by (simp_all add: roomy_def)
  have e: "?d \<le> ?e" using assms(2) by (simp add: l_day_def zdiv_mono1 DAY_MS_def)
  have "?e * DAY_MS \<le> u + off * 1000" using time_of_day [of "u + off * 1000"] by linarith
  then have "?e * DAY_MS < next_first ?d * DAY_MS" using assms(3) by linarith
  then have e': "?e < next_first ?d" by (simp add: DAY_MS_def)
  have "local_ms z u = u + off * 1000"
    using read_clock(2) [of u] e e' r next_first_bounds(2) [OF r] by simp
  then show ?thesis
    using same_month_until [OF r e e'] roomy_local [OF assms(1)]
    by (cases "date z ?d") simp
qed

lemma same_hour_same_day: "a div HOUR_MS = b div HOUR_MS \<Longrightarrow> l_day a = l_day b \<and> l_hour a = l_hour b"
  by (simp add: l_day_def l_hour_def hms_parts(1))

lemma same_minute_same_hour: "a div 60000 = b div 60000 \<Longrightarrow> a div HOUR_MS = b div HOUR_MS"
  by (simp add: hms_parts(2))

lemma jumped_time:
  assumes "roomy t" "t \<le> u" "u + off * 1000 < ((t + off * 1000) div k + 1) * k"
    and k: "k = HOUR_MS \<or> k = 60000 \<or> k = 1000"
  shows "local_ms z u div k = local_ms z t div k"
proof -
  have k0: "0 < k" using k by (auto simp: HOUR_MS_def)
  have e: "(u + off * 1000) div k = (t + off * 1000) div k"
    using div_between [OF k0, of "t + off * 1000" "u + off * 1000"] assms(2,3) by simp
  have "(u + off * 1000) div HOUR_MS = (t + off * 1000) div HOUR_MS"
    using k e same_minute_same_hour hms_parts(3) by metis
  then have "l_day (u + off * 1000) = l_day (t + off * 1000)" using same_hour_same_day by blast
  then have "local_ms z u = u + off * 1000"
    using read_clock(2) [of u] assms(1) by (simp add: roomy_def)
  then show ?thesis using e roomy_local [OF assms(1)] by simp
qed

text \<open>One turn of the loop skips no moment that matches.\<close>

lemma visit_move:
  assumes t: "roomy t" and it: "tz it = z" "dst_start it = None" "dst_end it = None"
    and v: "visit it start t = Move t' it'"
  shows "it' = it \<and> (\<exists>u. t' = goes_to u (t + off * 1000) - off * 1000) \<and>
    (\<forall>u. t \<le> u \<and> u < t' \<and> u mod 1000 = 0 \<and> u \<noteq> start \<longrightarrow> \<not> fires (expr it) z u)"
proof -
  let ?l = "t + off * 1000"
  have L: "local_ms z t = ?l" by (rule roomy_local [OF t])
  have same: "it\<lparr>dst_start := None\<rparr> = it" "it\<lparr>dst_end := None\<rparr> = it" using it(2,3) by simp_all
  note go = shift_eq [OF t refl it(1)]
  obtain y m d where c: "date z (l_day ?l) = (y, m, d)" by (cases "date z (l_day ?l)")
  let ?f = "\<lambda>u. it' = it \<and> t' = goes_to u ?l - off * 1000"
  consider (day) "?f UDay" "skip_day (expr it) z (l_day ?l) \<noteq> Inr False"
    | (month) "?f UMonth" "\<not> match_schedule m (month_f (expr it))"
    | (hour) "?f UHour" "\<not> match_schedule (l_hour ?l) (hour_f (expr it))"
    | (minute) "?f UMinute" "\<not> match_schedule (l_minute ?l) (minute_f (expr it))"
    | (second) "?f USecond" "\<not> match_schedule (l_second ?l) (second_f (expr it))"
    | (start) "?f USecond" "start = t"
    using v unfolding visit_def visit_hour_def visit_small_def Let_def it same L c prod.case go move_def
    by (auto split: if_splits sum.splits)
  then show ?thesis
  proof cases
    case day
    have "\<not> fires (expr it) z u" if "t \<le> u" "u < t'" for u
      using jumped_day [OF t that(1)] that(2) day L
      by (auto simp: goes_to_def fires_def day_and_minute_match_def)
    with day show ?thesis by blast
  next
    case month
    have "\<not> fires (expr it) z u" if "t \<le> u" "u < t'" for u
      using jumped_month [OF t that(1)] that(2) month L c
      by (auto simp: goes_to_def fires_def day_and_minute_match_def split_def)
    with month show ?thesis by blast
  next
    case hour
    have "\<not> fires (expr it) z u" if "t \<le> u" "u < t'" for u
      using jumped_time [OF t that(1), of HOUR_MS] that(2) hour L
      by (auto simp: goes_to_def fires_def l_hour_def)
    with hour show ?thesis by blast
  next
    case minute
    have "\<not> fires (expr it) z u" if "t \<le> u" "u < t'" for u
      using jumped_time [OF t that(1), of 60000] that(2) minute L
      by (auto simp: goes_to_def fires_def day_and_minute_match_def l_minute_def)
    with minute show ?thesis by blast
  next
    case second
    have "\<not> fires (expr it) z u" if "t \<le> u" "u < t'" for u
      using jumped_time [OF t that(1), of 1000] that(2) second L
      by (auto simp: goes_to_def fires_def day_and_minute_match_def l_second_def)
    with second show ?thesis by blast
  next
    case start
    have only: "u = start" if "t \<le> u" "u < t'" "u mod 1000 = 0" for u
    proof -
      have "u < (t div 1000 + 1) * 1000" using start(1) that(2) by (simp add: goes_to_def)
      then have "u div 1000 = t div 1000" using that(1) by (intro div_between) simp_all
      then have "u = t div 1000 * 1000" using div_mult_mod_eq [of u 1000] that(3) by simp
      moreover have "t div 1000 * 1000 \<le> t"
        using div_mult_mod_eq [of t 1000] pos_mod_sign [of 1000 t] by linarith
      ultimately show ?thesis using that(1) start(2) by simp
    qed
    have "\<forall>u. t \<le> u \<and> u < t' \<and> u mod 1000 = 0 \<and> u \<noteq> start \<longrightarrow> \<not> fires (expr it) z u"
    proof (intro allI impI, elim conjE)
      fix u assume u: "t \<le> u" "u < t'" "u mod 1000 = 0" "u \<noteq> start"
      show "\<not> fires (expr it) z u" by (rule notE [OF u(4) only [OF u(1-3)]])
    qed
    with start(1) show ?thesis by blast
  qed
qed

lemma search_first:
  assumes "search n it start t = (Inr t', it')" "tz it = z" "dst_start it = None" "dst_end it = None"
    and "lo \<le> l_day (t + off * 1000)" "l_day (t + off * 1000) + 32 * int n \<le> hi" "start \<le> t"
  shows "start < t' \<and> t \<le> t' \<and> (t' mod 1000 = 0 \<or> t' = t) \<and> fires (expr it) z t' \<and>
    (\<forall>u. t \<le> u \<and> u < t' \<and> u mod 1000 = 0 \<and> u \<noteq> start \<longrightarrow> \<not> fires (expr it) z u)"
  using assms
proof (induction n arbitrary: t it)
  case (Suc n)
  have t: "roomy t" using Suc.prems(5,6) by (simp add: roomy_def)
  show ?case
  proof (cases "visit it start t")
    case (Found i)
    then have "t' = t" "it' = it\<lparr>current := t\<rparr>"
      using Suc.prems(1) visit_Found [OF Found] by (auto simp: search.simps(2) split: if_splits)
    then show ?thesis
      using visit_Found [OF Found] Suc.prems(2-4,7) by (auto simp: fires_def)
  next
    case (Move c i)
    then have i: "i = it" and m: "\<forall>u. t \<le> u \<and> u < c \<and> u mod 1000 = 0 \<and> u \<noteq> start \<longrightarrow> \<not> fires (expr it) z u"
      using visit_move [OF t Suc.prems(2-4) Move] by simp_all
    obtain g where c: "c = goes_to g (t + off * 1000) - off * 1000"
      using visit_move [OF t Suc.prems(2-4) Move] by blast
    have r: "lo \<le> l_day (t + off * 1000)" "l_day (t + off * 1000) + 32 \<le> hi"
      using t by (simp_all add: roomy_def)
    note b = goes_to_bounds [OF r, of g]
    have d: "c + off * 1000 = goes_to g (t + off * 1000)" using c by simp
    have less: "t < c" using b(1) c by simp
    have "off * 1000 mod 1000 = 0" by simp
    then have whole: "c mod 1000 = 0" using b(4) c by (metis mod_diff_eq diff_zero mod_0)
    have "search n i start c = (Inr t', it')" using Suc.prems(1) Move by (simp add: search.simps(2))
    moreover have "lo \<le> l_day (c + off * 1000)" "l_day (c + off * 1000) + 32 * int n \<le> hi"
      using b(2,3) r(1) Suc.prems(6) unfolding d by simp_all
    moreover have "start \<le> c" using less Suc.prems(7) by simp
    ultimately have "start < t' \<and> c \<le> t' \<and> (t' mod 1000 = 0 \<or> t' = c) \<and> fires (expr it) z t' \<and>
        (\<forall>u. c \<le> u \<and> u < t' \<and> u mod 1000 = 0 \<and> u \<noteq> start \<longrightarrow> \<not> fires (expr it) z u)"
      using Suc.IH [of i c] Suc.prems(2-4) i by simp
    then show ?thesis using m less whole by (metis le_less_linear less_imp_le order_trans)
  qed (use Suc.prems in \<open>simp add: search.simps(2)\<close>)
qed simp

end

text \<open>
  C37 In a zone of fixed offset the run \<open>next_after\<close> gives is the first whole second after the current
  moment that matches the schedule, for any moment far enough from the ends of the calendar that ten
  thousand moves of at most a month stay within it.
\<close>

theorem next_after_first:
  assumes "steady_zone z lo hi off" "tz it = z" "dst_start it = None" "dst_end it = None"
    and "lo \<le> l_day (current it + off * 1000)" "l_day (current it + off * 1000) + 320000 \<le> hi"
    and "next_after it = (Inr t, it')"
  shows "current it < t \<and> t mod 1000 = 0 \<and> fires (expr it) z t \<and>
    (\<forall>u. current it < u \<and> u < t \<and> u mod 1000 = 0 \<longrightarrow> \<not> fires (expr it) z u)"
  using steady_zone.search_first [OF assms(1), of LOOP_LIMIT it "current it" "current it" t it']
    assms(2-7) by (auto simp: next_after_def LOOP_LIMIT_def)

text \<open>The calendar of \<open>clock.rs\<close> in a zone of fixed offset provides the interface.\<close>

definition unix_zone :: "int \<Rightarrow> zone" where
  "unix_zone off =
     \<lparr>date = civil, from_ymd = (\<lambda>y m d. Some (days_from_civil y m d)), weekday = (\<lambda>d. (d + 4) mod 7),
      in_range = (\<lambda>_. True), offset = (\<lambda>_. off)\<rparr>"

interpretation unix_clock: steady_zone "unix_zone off" lo hi off
proof
  show "date (unix_zone off) (d + 1) = day_after (date (unix_zone off) d)" for d
    by (simp add: unix_zone_def civil_next)
  show "1 \<le> m \<and> m \<le> 12 \<and> 1 \<le> dd \<and> dd \<le> days_in y m" if "date (unix_zone off) d = (y, m, dd)" for d y m dd
    using civil_valid [of d y m dd] that by (simp add: unix_zone_def)
  show "from_ymd (unix_zone off) y m dd = Some d" if "date (unix_zone off) d = (y, m, dd)" for d y m dd
    using civil_inverse [of d y m dd] that by (simp add: unix_zone_def)
qed (simp add: unix_zone_def)

text \<open>Every night at three, one hour east of Greenwich, half a second after the epoch.\<close>

definition nightly :: "cron_iter" where
  "nightly = cron_iter_new
     (case parse_cron (\<lambda>_. None) ''0 0 3 * * *'' of Inr e \<Rightarrow> e | Inl _ \<Rightarrow> undefined) (unix_zone 3600) 500 None"

lemma nightly_next: "fst (next_after nightly) = Inr 7200000"
  by code_simp

theorem next_after_first_witness:
  "fst (next_after nightly) = Inr 7200000 \<and> fires (expr nightly) (unix_zone 3600) 7200000 \<and>
   \<not> fires (expr nightly) (unix_zone 3600) 3600000"
proof -
  obtain it' where n: "next_after nightly = (Inr 7200000, it')"
    using nightly_next by (cases "next_after nightly") simp
  have c: "tz nightly = unix_zone 3600" "dst_start nightly = None" "dst_end nightly = None"
    "current nightly = 500"
    by (simp_all add: nightly_def cron_iter_new_def)
  have "steady_zone (unix_zone 3600) 0 400000 3600" by (rule unix_clock.steady_zone_axioms)
  from next_after_first [OF this c(1-3) _ _ n] show ?thesis
    using nightly_next by (simp add: c l_day_def DAY_MS_def)
qed

theorem search_sound_witness:
  "day_and_minute_match (expr nightly) (unix_zone 3600) (local_ms (unix_zone 3600) 7200000)"
proof -
  obtain it' where n: "next_after nightly = (Inr 7200000, it')"
    using nightly_next by (cases "next_after nightly") simp
  have "tz nightly = unix_zone 3600" by (simp add: nightly_def cron_iter_new_def)
  then show ?thesis using search_sound [OF n [unfolded next_after_def]] by simp
qed

end
