(* ===== verification/Permissions.thy ===== *)
theory Permissions
  imports Prelude
begin

section \<open>Permission masks\<close>

text \<open>
  \<open>src/backend-rs/src/auth.rs\<close> (\<open>CurrentUser::has_permission\<close>, \<open>has_all_permissions\<close>), the checks
  \<open>has_any\<close> and \<open>has_all\<close> of \<open>routes/requestcreate.rs\<close> and \<open>viewer_bypasses\<close> of
  \<open>routes/quota.rs\<close>. A mask is an \<open>i64\<close>, so a 64-bit word, and the checks are bitwise. The interface
  \<open>permission_check\<close> states what every caller relies on: an administrator passes, holding the
  required bits passes, and granting bits never takes a permission away.
\<close>

type_synonym perms = "64 word"

definition ADMIN :: perms where "ADMIN = 2"
definition MANAGE_USERS :: perms where "MANAGE_USERS = 8"
definition MANAGE_REQUESTS :: perms where "MANAGE_REQUESTS = 16"
definition REQUEST :: perms where "REQUEST = 32"
definition AUTO_APPROVE :: perms where "AUTO_APPROVE = 128"
definition AUTO_APPROVE_MOVIE :: perms where "AUTO_APPROVE_MOVIE = 256"
definition AUTO_APPROVE_TV :: perms where "AUTO_APPROVE_TV = 512"
definition REQUEST_4K :: perms where "REQUEST_4K = 1024"
definition REQUEST_4K_MOVIE :: perms where "REQUEST_4K_MOVIE = 2048"
definition REQUEST_4K_TV :: perms where "REQUEST_4K_TV = 4096"
definition REQUEST_ADVANCED :: perms where "REQUEST_ADVANCED = 8192"
definition AUTO_APPROVE_4K :: perms where "AUTO_APPROVE_4K = 32768"
definition AUTO_APPROVE_4K_MOVIE :: perms where "AUTO_APPROVE_4K_MOVIE = 65536"
definition AUTO_APPROVE_4K_TV :: perms where "AUTO_APPROVE_4K_TV = 131072"
definition REQUEST_MOVIE :: perms where "REQUEST_MOVIE = 262144"
definition REQUEST_TV :: perms where "REQUEST_TV = 524288"

lemmas permission_bits =
  ADMIN_def MANAGE_USERS_def MANAGE_REQUESTS_def REQUEST_def AUTO_APPROVE_def
  AUTO_APPROVE_MOVIE_def AUTO_APPROVE_TV_def REQUEST_4K_def REQUEST_4K_MOVIE_def
  REQUEST_4K_TV_def REQUEST_ADVANCED_def AUTO_APPROVE_4K_def AUTO_APPROVE_4K_MOVIE_def
  AUTO_APPROVE_4K_TV_def REQUEST_MOVIE_def REQUEST_TV_def

definition has_permission :: "perms \<Rightarrow> perms \<Rightarrow> bool" where
  "has_permission p required \<longleftrightarrow> required = 0 \<or> p AND ADMIN \<noteq> 0 \<or> p AND required \<noteq> 0"

definition has_all_permissions :: "perms \<Rightarrow> perms \<Rightarrow> bool" where
  "has_all_permissions p required \<longleftrightarrow> p AND ADMIN \<noteq> 0 \<or> p AND required = required"

definition has_any :: "perms \<Rightarrow> perms \<Rightarrow> bool" where
  "has_any p bits \<longleftrightarrow> bits = 0 \<or> p AND ADMIN \<noteq> 0 \<or> p AND bits \<noteq> 0"

definition has_all :: "perms \<Rightarrow> perms \<Rightarrow> bool" where
  "has_all p bits \<longleftrightarrow> p AND ADMIN \<noteq> 0 \<or> p AND bits = bits"

definition viewer_bypasses :: "perms \<Rightarrow> bool" where
  "viewer_bypasses p \<longleftrightarrow> p AND 2 \<noteq> 0 \<or> p AND MANAGE_USERS \<noteq> 0"

subsection \<open>The interface\<close>

lemma word_or_zero_iff: "a OR b = 0 \<longleftrightarrow> a = 0 \<and> b = (0 :: 'a::len word)"
  by (auto simp: bit_eq_iff bit_simps)

lemma and_or_nonzero: "x AND z \<noteq> 0 \<Longrightarrow> (x OR y) AND z \<noteq> (0 :: 'a::len word)"
  by (simp add: bit.conj_disj_distrib2 word_or_zero_iff)

lemma or_absorb_subset: "p AND r = r \<Longrightarrow> r OR p = (p :: 'a::len word)"
  by (auto simp: bit_eq_iff bit_simps)

lemma and_or_full: "p AND r = r \<Longrightarrow> (p OR q) AND r = (r :: 'a::len word)"
  by (auto simp: bit_eq_iff bit_simps)

locale permission_check =
  fixes check :: "perms \<Rightarrow> perms \<Rightarrow> bool"
  assumes admin: "p AND ADMIN \<noteq> 0 \<Longrightarrow> check p r"
    and own: "check r r"
    and grant: "check p r \<Longrightarrow> check (p OR q) r"
begin

lemma check_superset:
  assumes "p AND r = r"
  shows "check p r"
proof -
  have "r OR p = p"
    using assms by (rule or_absorb_subset)
  moreover have "check (r OR p) r"
    by (rule grant) (rule own)
  ultimately show ?thesis by simp
qed

lemma check_all_bits: "check (- 1) r"
  by (rule check_superset) simp

lemma check_mono:
  assumes "check p r" and "p AND q = p"
  shows "check q r"
proof -
  have "q AND p = p"
    using assms(2) by (simp add: and.commute)
  then have "p OR q = q"
    by (rule or_absorb_subset)
  with grant [OF assms(1), of q] show ?thesis by simp
qed

end

interpretation any: permission_check has_any
  by unfold_locales (auto simp: has_any_def and_or_nonzero)

interpretation every: permission_check has_all
  by unfold_locales (auto simp: has_all_def and_or_nonzero and_or_full)

lemma has_permission_eq: "has_permission = has_any"
  by (simp add: fun_eq_iff has_permission_def has_any_def)

lemma has_all_permissions_eq: "has_all_permissions = has_all"
  by (simp add: fun_eq_iff has_all_permissions_def has_all_def)

lemma viewer_bypasses_eq: "viewer_bypasses p = has_any p MANAGE_USERS"
  by (simp add: viewer_bypasses_def has_any_def ADMIN_def MANAGE_USERS_def)

lemma has_any_or:
  "a \<noteq> 0 \<Longrightarrow> b \<noteq> 0 \<Longrightarrow> has_any p (a OR b) \<longleftrightarrow> has_any p a \<or> has_any p b"
  by (auto simp: has_any_def bit.conj_disj_distrib word_or_zero_iff)

lemma has_all_or: "has_all p (a OR b) \<longleftrightarrow> has_all p a \<and> has_all p b"
proof -
  have "p AND (a OR b) = a OR b \<longleftrightarrow> p AND a = a \<and> p AND b = b"
    by (auto simp: bit_eq_iff bit_simps)
  then show ?thesis by (auto simp: has_all_def)
qed

lemma has_all_imp_has_any: "has_all p r \<Longrightarrow> has_any p r"
  by (auto simp: has_all_def has_any_def)

end
