(* ===== verification/Rows.thy ===== *)
theory Rows
  imports Json Permissions Calendar
begin

section \<open>Database rows, settings and answers\<close>

text \<open>
  The row types of \<open>src/backend-rs/src/db.rs\<close> the modelled routes read and write, the tables they
  live in, and the queries of the quota. A row keeps its child rows as the loaded entity does. An
  \<open>i64\<close> column is an \<open>int\<close>, the permissions of a user a 64-bit word; a timestamp is its text. Then
  the settings file (\<open>Settings::get\<close> by JSON pointer), JavaScript truthiness, and what a route
  answers: an error with its status, the fallback a route gives for what it does not handle, or JSON.
\<close>

subsection \<open>Rows\<close>

record season_row =
  sn_id :: int
  sn_season_number :: int
  sn_status :: int
  sn_status4k :: int
  sn_created_at :: "string option"
  sn_updated_at :: "string option"
  sn_media_id :: "int option"

record media_row =
  m_id :: int
  m_media_type :: string
  m_tmdb_id :: int
  m_tvdb_id :: "int option"
  m_imdb_id :: "string option"
  m_status :: int
  m_status4k :: int
  m_created_at :: "string option"
  m_updated_at :: "string option"
  m_last_season_change :: "string option"
  m_media_added_at :: "string option"
  m_service_id :: "int option"
  m_service_id4k :: "int option"
  m_external_service_id :: "int option"
  m_external_service_id4k :: "int option"
  m_external_service_slug :: "string option"
  m_external_service_slug4k :: "string option"
  m_rating_key :: "string option"
  m_rating_key4k :: "string option"
  m_jellyfin_media_id :: "string option"
  m_jellyfin_media_id4k :: "string option"
  m_seasons :: "season_row list"

record season_request_row =
  sr_id :: int
  sr_season_number :: int
  sr_status :: int
  sr_created_at :: "string option"
  sr_updated_at :: "string option"
  sr_request_id :: "int option"

record episode_request_row =
  er_id :: int
  er_tvdb_id :: int
  er_season_number :: int
  er_episode_number :: int
  er_title :: "string option"
  er_air_date :: "string option"
  er_status :: int
  er_search_triggered_at :: "string option"
  er_monitored_at :: "string option"
  er_unmonitored_at :: "string option"
  er_created_at :: "string option"
  er_updated_at :: "string option"
  er_request_id :: "int option"

record request_row =
  r_id :: int
  r_status :: int
  r_created_at :: "string option"
  r_updated_at :: "string option"
  r_request_type :: string
  r_episode_selection_type :: "string option"
  r_episode_start_tvdb_id :: "int option"
  r_episode_end_tvdb_id :: "int option"
  r_watch_ahead_count :: "int option"
  r_watch_ahead_inactive_at :: "string option"
  r_ongoing_episode_request_key :: "string option"
  r_tv_quota_units :: int
  r_is4k :: bool
  r_server_id :: "int option"
  r_profile_id :: "int option"
  r_root_folder :: "string option"
  r_language_profile_id :: "int option"
  r_metadata_language_id :: "int option"
  r_tags :: "string option"
  r_is_auto_request :: bool
  r_ignore_quota :: bool
  r_media_id :: "int option"
  r_requested_by_id :: "int option"
  r_modified_by_id :: "int option"
  r_seasons :: "season_request_row list"
  r_episodes :: "episode_request_row list"

record override_rule_row =
  ru_id :: int
  ru_radarr_service_id :: "int option"
  ru_sonarr_service_id :: "int option"
  ru_users :: "string option"
  ru_genre :: "string option"
  ru_language :: "string option"
  ru_keywords :: "string option"
  ru_profile_id :: "int option"
  ru_root_folder :: "string option"
  ru_tags :: "string option"
  ru_created_at :: "string option"
  ru_updated_at :: "string option"

record user_record =
  u_id :: int
  u_email :: "string option"
  u_plex_username :: "string option"
  u_jellyfin_username :: "string option"
  u_username :: "string option"
  u_recovery_link_expiration_date :: "string option"
  u_user_type :: int
  u_plex_id :: "int option"
  u_jellyfin_user_id :: "string option"
  u_permissions :: perms
  u_avatar :: string
  u_avatar_etag :: "string option"
  u_avatar_version :: "string option"
  u_movie_quota_limit :: "int option"
  u_movie_quota_days :: "int option"
  u_tv_quota_limit :: "int option"
  u_tv_quota_days :: "int option"
  u_created_at :: "string option"
  u_updated_at :: "string option"
  u_request_count :: int

subsection \<open>Tables\<close>

text \<open>
  The tables with the ids the next inserts give; a season of a request that was let go (its
  \<open>requestId\<close> set to null) moves to \<open>loose_seasons\<close>.
\<close>

record db =
  media_table :: "media_row list"
  request_table :: "request_row list"
  rule_table :: "override_rule_row list"
  user_table :: "user_record list"
  loose_seasons :: "season_request_row list"
  next_media :: int
  next_request :: int
  next_season_request :: int
  next_episode_request :: int

definition user_by_id :: "db \<Rightarrow> int \<Rightarrow> user_record option" where
  "user_by_id d i = find (\<lambda>u. u_id u = i) (user_table d)"

definition request_by_id :: "db \<Rightarrow> int \<Rightarrow> request_row option" where
  "request_by_id d i = find (\<lambda>r. r_id r = i) (request_table d)"

definition media_by_id :: "db \<Rightarrow> int \<Rightarrow> media_row option" where
  "media_by_id d i = find (\<lambda>m. m_id m = i) (media_table d)"

definition media_by_tmdb :: "db \<Rightarrow> int \<Rightarrow> string \<Rightarrow> media_row option" where
  "media_by_tmdb d tmdb mt = find (\<lambda>m. m_tmdb_id m = tmdb \<and> m_media_type m = mt) (media_table d)"

definition requests_of_media :: "db \<Rightarrow> int \<Rightarrow> request_row list" where
  "requests_of_media d i = filter (\<lambda>r. r_media_id r = Some i) (request_table d)"

subsection \<open>The quota queries\<close>

text \<open>
  On SQLite, where \<open>createdAt\<close> is a text: movie requests are counted \<open>BETWEEN\<close> the start and a
  century later in the database's own format, series units are summed over rows after the start as
  ISO text. \<open>created\<close> is the stored text of a row's \<open>createdAt\<close>.
\<close>

definition counts_towards :: "int \<Rightarrow> string \<Rightarrow> request_row \<Rightarrow> bool" where
  "counts_towards uid ty r \<longleftrightarrow>
     r_requested_by_id r = Some uid \<and> r_request_type r = ty \<and> r_status r \<noteq> 3 \<and> \<not> r_ignore_quota r"

definition movie_quota_used :: "(request_row \<Rightarrow> string) \<Rightarrow> db \<Rightarrow> int \<Rightarrow> utc option \<Rightarrow> int" where
  "movie_quota_used created d uid window =
     int (length (filter (\<lambda>r. counts_towards uid ''movie'' r \<and>
       (case window of
          None \<Rightarrow> True
        | Some w \<Rightarrow> typeorm_string w \<le> created r \<and> created r \<le> typeorm_string (plus_years w 100)))
       (request_table d)))"

definition tv_quota_used :: "(request_row \<Rightarrow> string) \<Rightarrow> db \<Rightarrow> int \<Rightarrow> utc option \<Rightarrow> int" where
  "tv_quota_used created d uid window =
     sum_list (map r_tv_quota_units (filter (\<lambda>r. counts_towards uid ''tv'' r \<and>
       (case window of None \<Rightarrow> True | Some w \<Rightarrow> iso_string w < created r))
       (request_table d)))"

subsection \<open>Settings and truthiness\<close>

text \<open>\<open>truthy\<close>: JavaScript truthiness (a JSON number is never NaN).\<close>

fun truthy :: "json option \<Rightarrow> bool" where
  "truthy None = False"
| "truthy (Some JNull) = False"
| "truthy (Some (JBool b)) = b"
| "truthy (Some (JInt n)) = (n \<noteq> 0)"
| "truthy (Some (JFloat f)) = (f \<noteq> 0)"
| "truthy (Some (JStr s)) = (s \<noteq> [])"
| "truthy (Some (JArr l)) = True"
| "truthy (Some (JObj m)) = True"

definition servers_of :: "json \<Rightarrow> bool \<Rightarrow> json list" where
  "servers_of settings movie =
     unwrap_or [] (Option.bind (jpath [if movie then ''radarr'' else ''sonarr''] settings) as_array)"

subsection \<open>Answers\<close>

text \<open>
  \<open>Outcome\<close>: \<open>ctx.error\<close> gives a status and a message; \<open>Outcome::forward\<close> hands a reason to the
  fallback, which answers 500 (or the status the \<open>Fallback\<close> carries); \<open>Denied\<close> is the 403 of
  \<open>Fallback::forbidden\<close>, \<open>Reply\<close> a JSON answer.
\<close>

datatype outcome = Error nat string | Forward string | Fallback nat string | Denied string | Reply nat json

record current_user =
  cu_id :: int
  cu_permissions :: perms

definition authenticated :: "current_user option \<Rightarrow> perms \<Rightarrow> (outcome, current_user) res" where
  "authenticated viewer required =
     (case viewer of
        Some u \<Rightarrow>
          if has_permission (cu_permissions u) required then Inr u
          else Inl (Denied ''the user lacks the permission'')
      | None \<Rightarrow> Inl (Denied ''no user''))"

definition main_locale :: "json \<Rightarrow> string" where
  "main_locale settings =
     (let l = unwrap_or [] (Option.bind (jpath [''main'', ''locale''] settings) as_str)
      in if l = [] then ''en'' else l)"

text \<open>A failed step whose reason is handed on (\<open>Outcome::forward\<close>).\<close>

definition forwarding :: "(string, 'a) res \<Rightarrow> (outcome, 'a) res" where
  "forwarding x = (case x of Inl e \<Rightarrow> Inl (Forward e) | Inr a \<Rightarrow> Inr a)"

lemma forwarding_simps [simp]: "forwarding (Inl e) = Inl (Forward e)" "forwarding (Inr a) = Inr a"
  by (simp_all add: forwarding_def)

lemma forwarding_eq_Inr [res_simps]: "forwarding x = Inr a \<longleftrightarrow> x = Inr a"
  by (cases x) simp_all

definition opt_json :: "('a \<Rightarrow> json) \<Rightarrow> 'a option \<Rightarrow> json" where
  "opt_json f x = (case x of None \<Rightarrow> JNull | Some a \<Rightarrow> f a)"

text \<open>\<open>params::body_int\<close> and \<open>body_id_assign\<close>.\<close>

definition body_int :: "jmap \<Rightarrow> string \<Rightarrow> (outcome, int option) res" where
  "body_int body key =
     (case obj_get body key of
        None \<Rightarrow> Inr None
      | Some v \<Rightarrow>
          (case as_i64 v of
             Some n \<Rightarrow> Inr (Some n)
           | None \<Rightarrow> Inl (Fallback 400 (key @ '' must be an integer.''))))"

datatype assign = Keep | Clear | Set int

fun assign_value :: "assign \<Rightarrow> int option" where
  "assign_value (Set v) = Some v"
| "assign_value _ = None"

definition assign_changes :: "assign \<Rightarrow> int option \<Rightarrow> bool" where
  "assign_changes a stored \<longleftrightarrow> (case a of Keep \<Rightarrow> False | _ \<Rightarrow> assign_value a \<noteq> stored)"

definition body_id_assign :: "jmap \<Rightarrow> string \<Rightarrow> (outcome, assign) res" where
  "body_id_assign body key =
     (case obj_get body key of
        None \<Rightarrow> Inr Keep
      | Some JNull \<Rightarrow> Inr Clear
      | Some _ \<Rightarrow> and_then (body_int body key) (\<lambda>n.
          Inr (case opt_filter (\<lambda>i. 0 < i) n of None \<Rightarrow> Clear | Some i \<Rightarrow> Set i)))"

text \<open>\<open>draft::opt_text\<close> and \<open>draft::media_type\<close>.\<close>

definition opt_text :: "jmap \<Rightarrow> string \<Rightarrow> (outcome, string option) res" where
  "opt_text body key =
     (case obj_get body key of
        None \<Rightarrow> Inr None
      | Some (JStr s) \<Rightarrow> Inr (Some s)
      | Some _ \<Rightarrow> Inl (Forward (key @ '' isn't text'')))"

definition media_type :: "json option \<Rightarrow> (outcome, string) res" where
  "media_type v =
     (case Option.bind v as_str of
        Some s \<Rightarrow> if s = ''movie'' \<or> s = ''tv'' then Inr s else Inl (Forward ''mediaType isn't movie or tv'')
      | None \<Rightarrow> Inl (Forward ''mediaType isn't movie or tv''))"

end
