(* ===== verification/Draft.thy ===== *)
theory Draft
  imports Rows
begin

section \<open>Entities being built\<close>

text \<open>
  \<open>src/backend-rs/src/routes/draft.rs\<close>: an entity as the write routes build it before they print it.
  Its keys stay in the order they were assigned; a key assigned \<open>undefined\<close> keeps its place and does
  not print. \<open>after_insert\<close> is what the ORM does to the entity once its row is stored.
\<close>

type_synonym draft = "(string \<times> json option) list"

type_synonym column = "string \<times> bool \<times> bool"

definition MEDIA_COLUMNS :: "column list" where
  "MEDIA_COLUMNS =
     [(''id'', False, True), (''mediaType'', False, False), (''tmdbId'', False, False),
      (''tvdbId'', True, False), (''imdbId'', True, False), (''status'', False, True),
      (''status4k'', False, True), (''createdAt'', False, True), (''updatedAt'', False, True),
      (''lastSeasonChange'', False, True), (''mediaAddedAt'', True, True), (''serviceId'', True, False),
      (''serviceId4k'', True, False), (''externalServiceId'', True, False),
      (''externalServiceId4k'', True, False), (''externalServiceSlug'', True, False),
      (''externalServiceSlug4k'', True, False), (''ratingKey'', True, False), (''ratingKey4k'', True, False),
      (''jellyfinMediaId'', True, False), (''jellyfinMediaId4k'', True, False)]"

fun draft_set :: "string \<Rightarrow> json option \<Rightarrow> draft \<Rightarrow> draft" where
  "draft_set key value [] = [(key, value)]"
| "draft_set key value ((k, v) # d) =
     (if k = key then (k, value) # d else (k, v) # draft_set key value d)"

definition draft_put :: "string \<Rightarrow> json \<Rightarrow> draft \<Rightarrow> draft" where
  "draft_put key value d = draft_set key (Some value) d"

definition draft_defined :: "draft \<Rightarrow> string \<Rightarrow> bool" where
  "draft_defined d key = list_ex (\<lambda>(k, v). k = key \<and> v \<noteq> None) d"

definition row_value :: "jmap \<Rightarrow> string \<Rightarrow> json" where
  "row_value row key = unwrap_or JNull (obj_get row key)"

fun fill_nullable :: "column list \<Rightarrow> jmap \<Rightarrow> draft \<Rightarrow> draft" where
  "fill_nullable [] row d = d"
| "fill_nullable ((key, nullable, back) # cols) row d =
     fill_nullable cols row
       (if nullable \<and> \<not> draft_defined d key then draft_put key (row_value row key) d else d)"

fun read_back :: "column list \<Rightarrow> jmap \<Rightarrow> draft \<Rightarrow> draft" where
  "read_back [] row d = d"
| "read_back ((key, nullable, back) # cols) row d =
     read_back cols row (if back then draft_put key (row_value row key) d else d)"

definition after_insert :: "column list \<Rightarrow> jmap \<Rightarrow> draft \<Rightarrow> draft" where
  "after_insert columns row d = read_back columns row (fill_nullable columns row d)"

definition draft_json :: "draft \<Rightarrow> json" where
  "draft_json d = JObj (List.map_filter (\<lambda>(k, v). map_option (Pair k) v) d)"

definition draft_from :: "jmap \<Rightarrow> draft" where
  "draft_from m = map (\<lambda>(k, v). (k, Some v)) m"

text \<open>
  \<open>inserted_media_json\<close>: \<open>stored\<close> is the row as \<open>media_json\<close> prints it.
\<close>

definition inserted_media_json :: "json \<Rightarrow> string list \<Rightarrow> json" where
  "inserted_media_json media_json init =
     (case media_json of
        JObj stored \<Rightarrow>
          draft_json (after_insert MEDIA_COLUMNS stored
            (fold (\<lambda>key. draft_put key (row_value stored key)) init
              (draft_put ''downloadStatus4k'' (JArr []) (draft_put ''downloadStatus'' (JArr []) []))))
      | _ \<Rightarrow> JNull)"

text \<open>Body readers.\<close>

definition body_object :: "json option \<Rightarrow> (outcome, jmap) res" where
  "body_object body =
     (case body of Some (JObj m) \<Rightarrow> Inr m | _ \<Rightarrow> Inl (Forward ''a body that isn't an object''))"

definition known_keys :: "jmap \<Rightarrow> string list \<Rightarrow> (outcome, unit) res" where
  "known_keys body keys =
     (case find (\<lambda>k. k \<notin> set keys) (obj_keys body) of
        None \<Rightarrow> Inr ()
      | Some key \<Rightarrow> Inl (Forward (''an unexpected body key '' @ key)))"

definition not_found :: "string \<Rightarrow> string" where
  "not_found entity = entity @ '' not found.''"

subsection \<open>Lookups\<close>

definition draft_get :: "draft \<Rightarrow> string \<Rightarrow> json option option" where
  "draft_get d key = map_of d key"

definition draft_keys :: "draft \<Rightarrow> string list" where
  "draft_keys d = map fst d"

lemma draft_get_set: "draft_get (draft_set k v d) k' = (if k' = k then Some v else draft_get d k')"
  by (induction k v d rule: draft_set.induct) (auto simp: draft_get_def)

lemma draft_keys_set:
  "draft_keys (draft_set k v d) = (if k \<in> set (draft_keys d) then draft_keys d else draft_keys d @ [k])"
  by (induction k v d rule: draft_set.induct) (auto simp: draft_keys_def)

interpretation draft: put_store draft_get draft_set
  by unfold_locales (rule draft_get_set)

lemma draft_get_put: "draft_get (draft_put k v d) k' = (if k' = k then Some (Some v) else draft_get d k')"
  by (simp add: draft_put_def draft_get_set)

lemma draft_defined_get:
  "distinct (draft_keys d) \<Longrightarrow> draft_defined d k \<longleftrightarrow> (\<exists>v. draft_get d k = Some (Some v))"
proof (induction d)
  case Nil
  then show ?case by (simp add: draft_defined_def draft_get_def)
next
  case (Cons e d)
  have "draft_defined d k \<longrightarrow> k \<in> fst ` set d"
    by (force simp: draft_defined_def list_ex_iff)
  then show ?case
    using Cons by (cases e) (auto simp: draft_defined_def draft_get_def draft_keys_def)
qed

subsection \<open>What an insert leaves\<close>

definition undefined_columns :: "column list \<Rightarrow> draft \<Rightarrow> string list" where
  "undefined_columns cols d =
     map fst (filter (\<lambda>(key, nullable, _). nullable \<and> \<not> draft_defined d key) cols)"

definition read_columns :: "column list \<Rightarrow> string list" where
  "read_columns cols = map fst (filter (\<lambda>(_, _, back). back) cols)"

lemma distinct_draft_put: "distinct (draft_keys d) \<Longrightarrow> distinct (draft_keys (draft_put k v d))"
  by (simp add: draft_put_def draft_keys_set)

lemma draft_keys_put:
  "draft_keys (draft_put k v d) = (if k \<in> set (draft_keys d) then draft_keys d else draft_keys d @ [k])"
  by (simp add: draft_put_def draft_keys_set)

lemma draft_defined_put:
  "distinct (draft_keys d) \<Longrightarrow> draft_defined (draft_put k v d) k' \<longleftrightarrow> k' = k \<or> draft_defined d k'"
  by (simp add: draft_defined_get distinct_draft_put draft_get_put)

lemma undefined_columns_put:
  "distinct (draft_keys d) \<Longrightarrow> k \<notin> set (map fst cols) \<Longrightarrow>
     undefined_columns cols (draft_put k v d) = undefined_columns cols d"
  by (induction cols) (auto simp: undefined_columns_def draft_defined_put)

lemma fill_nullable_spec:
  assumes "distinct (draft_keys d)" "distinct (map fst cols)"
  shows "draft_get (fill_nullable cols row d) k =
      (if k \<in> set (undefined_columns cols d) then Some (Some (row_value row k)) else draft_get d k) \<and>
    draft_keys (fill_nullable cols row d) = push_unique (draft_keys d) (undefined_columns cols d)"
  using assms
proof (induction cols arbitrary: d)
  case Nil
  then show ?case by (simp add: undefined_columns_def)
next
  case (Cons c cols)
  obtain key nullable b where c: "c = (key, nullable, b)" using prod_cases3 by blast
  show ?case
  proof (cases "nullable \<and> \<not> draft_defined d key")
    case True
    have u: "undefined_columns ((key, True, b) # cols) d = key # undefined_columns cols d"
      using True c by (simp add: undefined_columns_def)
    have k: "key \<notin> set (map fst cols)" using Cons.prems(2) c by simp
    note ih = Cons.IH [of "draft_put key (row_value row key) d", OF distinct_draft_put [OF Cons.prems(1)]]
    have "distinct (map fst cols)" using Cons.prems(2) by simp
    from ih [OF this] show ?thesis
      using True c by (simp add: u undefined_columns_put [OF Cons.prems(1) k] draft_get_put draft_keys_put)
  next
    case False
    have u: "undefined_columns ((key, nullable, b) # cols) d = undefined_columns cols d"
      using False c by (auto simp: undefined_columns_def)
    have "distinct (map fst cols)" using Cons.prems(2) by simp
    from Cons.IH [OF Cons.prems(1) this] show ?thesis
      using False c by (auto simp: u)
  qed
qed

lemma read_back_spec:
  "draft_get (read_back cols row d) k =
      (if k \<in> set (read_columns cols) then Some (Some (row_value row k)) else draft_get d k) \<and>
    draft_keys (read_back cols row d) = push_unique (draft_keys d) (read_columns cols)"
proof (induction cols arbitrary: d)
  case Nil
  then show ?case by (simp add: read_columns_def)
next
  case (Cons c cols)
  obtain key n back_too where c: "c = (key, n, back_too)" using prod_cases3 by blast
  then show ?case
    using Cons by (cases back_too) (auto simp: read_columns_def draft_get_put draft_keys_put)
qed

text \<open>
  After an insert, every column read back has the stored value, every nullable column that was still
  undefined too, and every other key what it was assigned; the new keys follow the old ones, the
  undefined nullable columns first, then the read-back ones, each in column order.
\<close>

theorem after_insert_spec:
  assumes "distinct (draft_keys d)" "distinct (map fst cols)"
  shows "draft_get (after_insert cols row d) k =
      (if k \<in> set (read_columns cols) \<or> k \<in> set (undefined_columns cols d)
       then Some (Some (row_value row k)) else draft_get d k) \<and>
    draft_keys (after_insert cols row d) =
      push_unique (draft_keys d) (undefined_columns cols d @ read_columns cols)"
proof -
  have p: "push_unique acc (xs @ ys) = push_unique (push_unique acc xs) ys" for acc xs ys :: "string list"
    by (induction xs arbitrary: acc) auto
  show ?thesis
    using fill_nullable_spec [OF assms] by (simp add: after_insert_def read_back_spec p)
qed

theorem after_insert_spec_witness:
  "draft_keys (after_insert MEDIA_COLUMNS [(''id'', JInt 9)] [(''tmdbId'', Some (JInt 5)), (''tvdbId'', None)]) =
     [''tmdbId'', ''tvdbId'', ''imdbId'', ''mediaAddedAt'', ''serviceId'', ''serviceId4k'', ''externalServiceId'',
      ''externalServiceId4k'', ''externalServiceSlug'', ''externalServiceSlug4k'', ''ratingKey'', ''ratingKey4k'',
      ''jellyfinMediaId'', ''jellyfinMediaId4k'', ''id'', ''status'', ''status4k'', ''createdAt'', ''updatedAt'',
      ''lastSeasonChange'']"
proof -
  have d: "distinct (map fst MEDIA_COLUMNS)" by code_simp
  have k: "distinct (draft_keys [(''tmdbId'', Some (JInt 5)), (''tvdbId'', None)])" by code_simp
  have e: "push_unique (draft_keys [(''tmdbId'', Some (JInt 5)), (''tvdbId'', None)])
      (undefined_columns MEDIA_COLUMNS [(''tmdbId'', Some (JInt 5)), (''tvdbId'', None)] @ read_columns MEDIA_COLUMNS) =
     [''tmdbId'', ''tvdbId'', ''imdbId'', ''mediaAddedAt'', ''serviceId'', ''serviceId4k'', ''externalServiceId'',
      ''externalServiceId4k'', ''externalServiceSlug'', ''externalServiceSlug4k'', ''ratingKey'', ''ratingKey4k'',
      ''jellyfinMediaId'', ''jellyfinMediaId4k'', ''id'', ''status'', ''status4k'', ''createdAt'', ''updatedAt'',
      ''lastSeasonChange'']" by code_simp
  show ?thesis
    by (rule trans [OF after_insert_spec [OF k d, of "[(''id'', JInt 9)]", THEN conjunct2] e])
qed

end
