(* ===== verification/Rules.thy ===== *)
theory Rules
  imports Rows "HOL-Library.Multiset"
begin

section \<open>Override rules\<close>

text \<open>
  \<open>src/backend-rs/src/routes/overriderule.rs\<close>: which override rule applies to a title and a
  requester, the most specific of them first, and what it sets. The stored id lists are texts; an
  error of their parser is the error of the whole evaluation, as in the code. \<open>usize\<close> counts are
  \<open>nat\<close>. \<open>is_anime\<close> of \<open>routes/tv.rs\<close> decides whether a show is anime.
\<close>

subsection \<open>Id lists\<close>

text \<open>The \<open>{:?}\<close> form of a text of printable characters.\<close>

definition debug_text :: "string \<Rightarrow> string" where
  "debug_text s =
     [CHR 0x22] @ concat (map (\<lambda>c. if c = CHR 0x22 \<or> c = CHR 0x5C then [CHR 0x5C, c] else [c]) s) @ [CHR 0x22]"

definition rule_number :: "string \<Rightarrow> (string, int) res" where
  "rule_number piece =
     (let t = trim piece
      in if t = [] then Inr 0
         else
           let body = (case t of c # cs \<Rightarrow> if c = CHR ''-'' then cs else t | [] \<Rightarrow> t)
           in case (if list_all is_digit body then parse_i64 t else None) of
                Some n \<Rightarrow> Inr n
              | None \<Rightarrow> Inl (''an override rule id '' @ debug_text t @ '' Number() reads oddly''))"

definition rule_numbers :: "string \<Rightarrow> (string, int list) res" where
  "rule_numbers s = collect_res (map rule_number (split_on CHR '','' s))"

definition ids_of :: "json option \<Rightarrow> int list" where
  "ids_of l =
     (case Option.bind l as_array of
        None \<Rightarrow> []
      | Some items \<Rightarrow> List.map_filter (\<lambda>i. Option.bind (jget i ''id'') as_i64) items)"

subsection \<open>Anime\<close>

definition ANIME_KEYWORD_ID :: int where "ANIME_KEYWORD_ID = 210024"
definition ANIMATION_GENRE_ID :: int where "ANIMATION_GENRE_ID = 16"

text \<open>
  \<open>js_string\<close> prints numbers through \<open>jsval\<close>; the printer of a number is the parameter \<open>num\<close>.
\<close>

fun js_string :: "(json \<Rightarrow> string) \<Rightarrow> json option \<Rightarrow> string" where
  "js_string num None = ''undefined''"
| "js_string num (Some JNull) = ''null''"
| "js_string num (Some (JBool b)) = (if b then ''true'' else ''false'')"
| "js_string num (Some (JInt n)) = num (JInt n)"
| "js_string num (Some (JFloat f)) = num (JFloat f)"
| "js_string num (Some (JStr s)) = s"
| "js_string num (Some (JArr items)) = join_with CHR '','' (map (\<lambda>i. js_string num (Some i)) items)"
| "js_string num (Some (JObj m)) = ''[object Object]''"

text \<open>\<open>to_uppercase\<close> on the ASCII letters, which the country codes compared with are made of.\<close>

definition upper_char :: "char \<Rightarrow> char" where
  "upper_char c = (if 97 \<le> code c \<and> code c \<le> 122 then char_of (code c - 32) else c)"

definition keyword_list :: "json \<Rightarrow> json list" where
  "keyword_list details =
     (case jget details ''keywords'' of
        Some (JArr items) \<Rightarrow> items
      | Some (JObj m) \<Rightarrow>
          unwrap_or []
            (Option.bind (case obj_get m ''keywords'' of None \<Rightarrow> obj_get m ''results'' | v \<Rightarrow> v) as_array)
      | _ \<Rightarrow> [])"

definition is_anime :: "(json \<Rightarrow> string) \<Rightarrow> json \<Rightarrow> bool" where
  "is_anime num details =
     (let keywords = keyword_list details
      in if list_ex (\<lambda>k. Option.bind (jget k ''id'') as_i64 = Some ANIME_KEYWORD_ID) keywords then True
         else if list_ex (\<lambda>k.
             let name = js_string num (Some (unwrap_or JNull (jget k ''name'')))
             in to_lowercase (trim name) \<in> {''anime'', ''japanese animation''}) keywords then True
         else if \<not> (case Option.bind (jget details ''genres'') as_array of
             None \<Rightarrow> False
           | Some gs \<Rightarrow> list_ex (\<lambda>g. as_i64 g = Some ANIMATION_GENRE_ID \<or>
               Option.bind (jget g ''id'') as_i64 = Some ANIMATION_GENRE_ID) gs) then False
         else if to_lowercase (trim (unwrap_or [] (Option.bind (jget details ''original_language'') as_str)))
             = ''ja'' then True
         else
           let codes =
                 (case Option.bind (jget details ''origin_country'') as_array of
                    None \<Rightarrow> []
                  | Some cs \<Rightarrow> map (\<lambda>c. map upper_char (trim (js_string num (Some c))))
                      (filter (\<lambda>c. truthy (Some c)) cs)) @
                 (case Option.bind (jget details ''production_countries'') as_array of
                    None \<Rightarrow> []
                  | Some cs \<Rightarrow> List.map_filter (\<lambda>c.
                      map_option (\<lambda>code. map upper_char (trim (js_string num (Some code))))
                        (opt_filter (\<lambda>code. truthy (Some code)) (jget c ''iso_3166_1''))) cs)
           in ''JP'' \<in> set codes)"

subsection \<open>Which rule applies\<close>

definition set_text :: "string option \<Rightarrow> string option" where
  "set_text v = opt_filter (\<lambda>s. s \<noteq> []) v"

text \<open>A condition of a rule: unset, or a list of ids one of which is wanted.\<close>

definition names_one :: "string option \<Rightarrow> (int \<Rightarrow> bool) \<Rightarrow> (string, bool) res" where
  "names_one v wanted =
     (case set_text v of
        None \<Rightarrow> Inr True
      | Some s \<Rightarrow> and_then (rule_numbers s) (\<lambda>ns. Inr (list_ex wanted ns)))"

text \<open>\<open>if !... { return Ok(false) }\<close>: the first condition that fails ends the evaluation.\<close>

definition and_also :: "(string, bool) res \<Rightarrow> (string, bool) res \<Rightarrow> (string, bool) res" where
  "and_also a b = and_then a (\<lambda>x. if x then b else Inr False)"

definition rule_keywords :: "json \<Rightarrow> int list" where
  "rule_keywords details =
     ids_of (Option.bind (jget details ''keywords'')
       (\<lambda>k. opt_or (opt_filter (\<lambda>v. as_array v \<noteq> None) (jget k ''keywords'')) (jget k ''results'')))"

definition rule_applies :: "override_rule_row \<Rightarrow> json \<Rightarrow> bool \<Rightarrow> int \<Rightarrow> (string, bool) res" where
  "rule_applies rule details tv_anime uid =
     and_also
       (if tv_anime then
          (case set_text (ru_keywords rule) of
             None \<Rightarrow> Inr False
           | Some k \<Rightarrow> and_then (rule_numbers k) (\<lambda>ns. Inr (ANIME_KEYWORD_ID \<in> set ns)))
        else Inr True)
     (and_also (names_one (ru_users rule) (\<lambda>n. n = uid))
     (and_also (names_one (ru_genre rule) (\<lambda>g. g \<in> set (ids_of (jget details ''genres''))))
     (and_also
       (case set_text (ru_language rule) of
          None \<Rightarrow> Inr True
        | Some languages \<Rightarrow>
            Inr (list_ex (\<lambda>l. Some l = Option.bind (jget details ''original_language'') as_str)
                  (split_on CHR ''|'' languages)))
       (names_one (ru_keywords rule) (\<lambda>k. k \<in> set (rule_keywords details))))))"

definition specificity :: "override_rule_row \<Rightarrow> nat" where
  "specificity rule =
     length (filter (\<lambda>v. case v of Some s \<Rightarrow> trim s \<noteq> [] | None \<Rightarrow> False)
       [ru_genre rule, ru_language rule, ru_keywords rule])"

definition default_service :: "json \<Rightarrow> bool \<Rightarrow> bool \<Rightarrow> (string, int option) res" where
  "default_service settings movie is4k =
     (case Option.bind
         (find (\<lambda>s. truthy (jget s ''is4k'') = is4k \<and> truthy (jget s ''isDefault'')) (servers_of settings movie))
         (\<lambda>s. jget s ''id'') of
        None \<Rightarrow> Inr None
      | Some i \<Rightarrow>
          (case as_i64 i of
             Some n \<Rightarrow> Inr (Some n)
           | None \<Rightarrow> Inl ''a server id that isn't a whole number''))"

record rule_input =
  ri_movie :: bool
  ri_is4k :: bool
  ri_service_id :: "int option"
  ri_details :: json
  ri_anime :: bool
  ri_user_id :: int

fun applied_rules ::
  "rule_input \<Rightarrow> int \<Rightarrow> override_rule_row list \<Rightarrow> (string, override_rule_row list) res" where
  "applied_rules inp service [] = Inr []"
| "applied_rules inp service (rule # rules) =
     (if (if ri_movie inp then ru_radarr_service_id rule else ru_sonarr_service_id rule) = Some service
      then and_then (rule_applies rule (ri_details inp) (\<not> ri_movie inp \<and> ri_anime inp) (ri_user_id inp))
        (\<lambda>ok. and_then (applied_rules inp service rules)
          (\<lambda>rs. Inr (if ok then rule # rs else rs)))
      else applied_rules inp service rules)"

text \<open>The head of the stable sort by descending specificity.\<close>

definition matching_rule ::
  "json \<Rightarrow> override_rule_row list \<Rightarrow> rule_input \<Rightarrow> (string, override_rule_row option) res" where
  "matching_rule settings rules inp =
     and_then
       (case ri_service_id inp of
          Some i \<Rightarrow> Inr (Some i)
        | None \<Rightarrow> default_service settings (ri_movie inp) (ri_is4k inp))
       (\<lambda>service. case service of
          None \<Rightarrow> Inr None
        | Some i \<Rightarrow> and_then (applied_rules inp i rules) (\<lambda>applied.
            Inr (case sort_key (\<lambda>r. - int (specificity r)) applied of [] \<Rightarrow> None | r # _ \<Rightarrow> Some r)))"

record rule_result =
  rr_root_folder :: "string option"
  rr_profile_id :: "int option"
  rr_tags :: "int list option"

definition rule_result_json :: "rule_result \<Rightarrow> json" where
  "rule_result_json r =
     JObj [(''rootFolder'', opt_json JStr (rr_root_folder r)),
           (''profileId'', opt_json JInt (rr_profile_id r)),
           (''tags'', opt_json (\<lambda>t. JArr (map JInt t)) (rr_tags r))]"

text \<open>The tags already there, then the rule's, each once.\<close>

definition merge_tags :: "int list option \<Rightarrow> string \<Rightarrow> (string, int list) res" where
  "merge_tags own tags =
     and_then (rule_numbers tags) (\<lambda>ns. Inr (push_unique [] (unwrap_or [] own @ ns)))"

definition evaluate ::
  "json \<Rightarrow> override_rule_row list \<Rightarrow> rule_input \<Rightarrow> int list option \<Rightarrow> (string, rule_result) res" where
  "evaluate settings rules inp tags =
     and_then (matching_rule settings rules inp) (\<lambda>found.
       case found of
         None \<Rightarrow> Inr \<lparr>rr_root_folder = None, rr_profile_id = None, rr_tags = tags\<rparr>
       | Some rule \<Rightarrow>
           and_then
             (case set_text (ru_tags rule) of
                None \<Rightarrow> Inr tags
              | Some t \<Rightarrow> and_then (merge_tags tags t) (\<lambda>u. Inr (Some u)))
             (\<lambda>tags. Inr \<lparr>rr_root_folder = set_text (ru_root_folder rule),
                          rr_profile_id = opt_filter (\<lambda>p. p \<noteq> 0) (ru_profile_id rule),
                          rr_tags = tags\<rparr>))"

subsection \<open>The route\<close>

text \<open>
  \<open>POST /overrideRule/advancedRequest\<close>. TMDB's details are the parameters \<open>movie\<close> and \<open>tv\<close>; the
  database is readable.
\<close>

record advanced_body =
  ab_movie :: bool
  ab_tmdb_id :: int
  ab_is4k :: bool
  ab_request_id :: "int option"
  ab_request_user :: "int option"
  ab_tags :: "int list option"
  ab_service_id :: "int option"

definition opt_int :: "jmap \<Rightarrow> string \<Rightarrow> (outcome, int option) res" where
  "opt_int body key =
     (case obj_get body key of
        None \<Rightarrow> Inr None
      | Some JNull \<Rightarrow> Inr None
      | Some _ \<Rightarrow> body_int body key)"

definition parse_advanced :: "jmap \<Rightarrow> (outcome, advanced_body) res" where
  "parse_advanced body =
     and_then (case obj_get body ''mediaType'' of
         Some (JStr s) \<Rightarrow> Inr s | _ \<Rightarrow> Inl (Fallback 400 ''mediaType is required.'')) (\<lambda>mt.
     and_then (opt_int body ''tmdbId'') (\<lambda>tmdb.
     and_then (case tmdb of Some n \<Rightarrow> Inr n | None \<Rightarrow> Inl (Fallback 400 ''tmdbId is required.'')) (\<lambda>tmdb.
     and_then (case obj_get body ''is4k'' of
         None \<Rightarrow> Inr False | Some JNull \<Rightarrow> Inr False | Some (JBool b) \<Rightarrow> Inr b
       | Some _ \<Rightarrow> Inl (Fallback 400 ''is4k must be a boolean.'')) (\<lambda>is4k.
     and_then (case obj_get body ''tags'' of
         None \<Rightarrow> Inr None | Some JNull \<Rightarrow> Inr None
       | Some (JArr items) \<Rightarrow>
           if None \<in> set (map as_i64 items) then Inl (Fallback 400 ''tags must be integers.'')
           else Inr (Some (List.map_filter as_i64 items))
       | Some _ \<Rightarrow> Inl (Fallback 400 ''tags must be a list.'')) (\<lambda>tags.
     and_then (opt_int body ''requestId'') (\<lambda>rid.
     and_then (opt_int body ''requestUser'') (\<lambda>ruser.
     and_then (opt_int body ''serviceId'') (\<lambda>service.
       Inr \<lparr>ab_movie = (mt = ''movie''), ab_tmdb_id = tmdb, ab_is4k = is4k,
            ab_request_id = opt_filter (\<lambda>i. i \<noteq> 0) rid,
            ab_request_user = opt_filter (\<lambda>i. i \<noteq> 0) ruser,
            ab_tags = tags, ab_service_id = service\<rparr>))))))))"

definition may_pick_user :: "current_user \<Rightarrow> bool" where
  "may_pick_user user = has_all_permissions (cu_permissions user) (MANAGE_USERS OR MANAGE_REQUESTS)"

definition no_user_change :: outcome where
  "no_user_change = Error 403 ''You do not have permission to modify the request user.''"

definition no_rules :: outcome where
  "no_rules = Error 500 ''Unable to evaluate override rules.''"

definition rule_user :: "db \<Rightarrow> current_user \<Rightarrow> advanced_body \<Rightarrow> (outcome, int) res" where
  "rule_user d user body =
     and_then
       (case ab_request_id body of
          Some rid \<Rightarrow>
            (case request_by_id d rid of
               None \<Rightarrow> Inl (Error 404 ''Request not found.'')
             | Some request \<Rightarrow>
                 (case r_requested_by_id request of
                    None \<Rightarrow> Inl no_rules
                  | Some owner \<Rightarrow>
                      if (owner \<noteq> cu_id user \<or>
                          (ab_movie body \<and> \<not> has_permission (cu_permissions user) REQUEST_ADVANCED)) \<and>
                         \<not> has_permission (cu_permissions user) MANAGE_REQUESTS
                      then Inl (Error 403 ''You do not have permission to modify this request.'')
                      else
                        (case ab_request_user body of
                           None \<Rightarrow> Inr owner
                         | Some requested \<Rightarrow>
                             if requested \<noteq> owner \<and> \<not> may_pick_user user then Inl no_user_change
                             else Inr requested)))
        | None \<Rightarrow>
            (case opt_filter (\<lambda>i. i \<noteq> cu_id user) (ab_request_user body) of
               None \<Rightarrow> Inr (cu_id user)
             | Some requested \<Rightarrow>
                 if \<not> may_pick_user user then Inl no_user_change else Inr requested))
       (\<lambda>uid. if uid \<noteq> cu_id user \<and> user_by_id d uid = None then Inl no_rules else Inr uid)"

definition advanced_request ::
  "(json \<Rightarrow> string) \<Rightarrow> (bool \<Rightarrow> int \<Rightarrow> string \<Rightarrow> json option) \<Rightarrow> json \<Rightarrow> db \<Rightarrow> current_user option
     \<Rightarrow> jmap \<Rightarrow> outcome" where
  "advanced_request num tmdb settings d viewer raw =
     (case
        and_then (authenticated viewer (REQUEST_ADVANCED OR MANAGE_REQUESTS)) (\<lambda>user.
        and_then (parse_advanced raw) (\<lambda>body.
        and_then (case tmdb (ab_movie body) (ab_tmdb_id body) (main_locale settings) of
            Some details \<Rightarrow> Inr details | None \<Rightarrow> Inl (Error 404 ''Media not found'')) (\<lambda>details.
        and_then (rule_user d user body) (\<lambda>uid.
          case evaluate settings (rule_table d)
              \<lparr>ri_movie = ab_movie body, ri_is4k = ab_is4k body, ri_service_id = ab_service_id body,
               ri_details = details, ri_anime = is_anime num details, ri_user_id = uid\<rparr> (ab_tags body) of
            Inr r \<Rightarrow> Inr (Reply 200 (rule_result_json r))
          | Inl _ \<Rightarrow> Inl no_rules))))
      of Inl out \<Rightarrow> out | Inr out \<Rightarrow> out)"

subsection \<open>The rule that is picked\<close>

lemma applied_rules_Inr:
  "applied_rules inp service rules = Inr applied \<Longrightarrow>
     applied = filter (\<lambda>rule.
       (if ri_movie inp then ru_radarr_service_id rule else ru_sonarr_service_id rule) = Some service \<and>
       rule_applies rule (ri_details inp) (\<not> ri_movie inp \<and> ri_anime inp) (ri_user_id inp) = Inr True) rules"
  by (induction rules arbitrary: applied) (auto simp: res_simps split: if_splits)

lemma sort_key_head:
  assumes "sort_key f xs = y # ys"
  shows "y \<in> set xs \<and> (\<forall>x \<in> set xs. f y \<le> f x)"
proof -
  have s: "sorted (map f (y # ys))" using sorted_sort_key [of f xs] assms by simp
  have "set xs = set (y # ys)" using set_sort [of f xs] assms by simp
  then show ?thesis using s by auto
qed

lemma sort_key_head_first:
  assumes "sort_key f xs = y # ys"
  shows "find (\<lambda>x. f x = f y) xs = Some y"
proof -
  have "filter (\<lambda>x. f x = f y) (sort_key f xs) = filter (\<lambda>x. f x = f y) xs"
    by (rule sort_key_stable)
  then have "y # filter (\<lambda>x. f x = f y) ys = filter (\<lambda>x. f x = f y) xs" using assms by simp
  moreover have "filter p xs = z # zs \<Longrightarrow> find p xs = Some z" for p z zs
    by (induction xs) (auto split: if_splits)
  ultimately show ?thesis by metis
qed

lemma matching_rule_Some:
  assumes "matching_rule settings rules inp = Inr (Some rule)"
  shows "\<exists>service. (case ri_service_id inp of Some i \<Rightarrow> Inr (Some i)
      | None \<Rightarrow> default_service settings (ri_movie inp) (ri_is4k inp)) = Inr (Some service) \<and>
    and_then (applied_rules inp service rules) (\<lambda>applied.
       Inr (case sort_key (\<lambda>r. - int (specificity r)) applied of [] \<Rightarrow> None | r # _ \<Rightarrow> Some r))
       = Inr (Some rule)"
proof -
  let ?s = "case ri_service_id inp of Some i \<Rightarrow> Inr (Some i)
      | None \<Rightarrow> default_service settings (ri_movie inp) (ri_is4k inp)"
  show ?thesis
  proof (cases ?s)
    case (Inl e)
    then show ?thesis using assms by (simp add: matching_rule_def and_then_def)
  next
    case (Inr v)
    then show ?thesis using assms by (cases v) (simp_all add: matching_rule_def and_then_def)
  qed
qed

lemma head_of_sorted:
  assumes "and_then a (\<lambda>xs. Inr (case sort_key f xs of [] \<Rightarrow> None | r # _ \<Rightarrow> Some r)) = Inr (Some x)"
  shows "\<exists>xs rest. a = Inr xs \<and> sort_key f xs = x # rest"
proof (cases a)
  case (Inl e)
  then show ?thesis using assms by (simp add: and_then_def)
next
  case (Inr xs)
  then show ?thesis using assms by (cases "sort_key f xs") (simp_all add: and_then_def)
qed

text \<open>
  The override rule a request gets belongs to the service asked for (or the default one), applies to
  the title and the requester, and is the first of the most specific rules that do.
\<close>

theorem matching_rule_best:
  assumes "matching_rule settings rules inp = Inr (Some rule)"
  shows "\<exists>service applied.
     (case ri_service_id inp of
        Some i \<Rightarrow> service = i
      | None \<Rightarrow> default_service settings (ri_movie inp) (ri_is4k inp) = Inr (Some service)) \<and>
     applied = filter (\<lambda>r.
       (if ri_movie inp then ru_radarr_service_id r else ru_sonarr_service_id r) = Some service \<and>
       rule_applies r (ri_details inp) (\<not> ri_movie inp \<and> ri_anime inp) (ri_user_id inp) = Inr True) rules \<and>
     rule \<in> set applied \<and> (\<forall>r \<in> set applied. specificity r \<le> specificity rule) \<and>
     find (\<lambda>r. specificity r = specificity rule) applied = Some rule"
proof -
  obtain service where
    s: "(case ri_service_id inp of Some i \<Rightarrow> Inr (Some i)
      | None \<Rightarrow> default_service settings (ri_movie inp) (ri_is4k inp)) = Inr (Some service)"
    and m: "and_then (applied_rules inp service rules) (\<lambda>applied.
       Inr (case sort_key (\<lambda>r. - int (specificity r)) applied of [] \<Rightarrow> None | r # _ \<Rightarrow> Some r))
       = Inr (Some rule)"
    using matching_rule_Some [OF assms] by blast
  obtain applied rest where a: "applied_rules inp service rules = Inr applied"
    and h: "sort_key (\<lambda>r. - int (specificity r)) applied = rule # rest"
    using head_of_sorted [OF m] by blast
  have "find (\<lambda>r. specificity r = specificity rule) applied = Some rule"
    using sort_key_head_first [OF h] by simp
  moreover have "rule \<in> set applied \<and> (\<forall>r \<in> set applied. specificity r \<le> specificity rule)"
    using sort_key_head [OF h] by simp
  moreover have "case ri_service_id inp of Some i \<Rightarrow> service = i
      | None \<Rightarrow> default_service settings (ri_movie inp) (ri_is4k inp) = Inr (Some service)"
    using s by (auto split: option.splits)
  ultimately show ?thesis using applied_rules_Inr [OF a] by blast
qed

definition plain_rule :: override_rule_row where
  "plain_rule = \<lparr>ru_id = 1, ru_radarr_service_id = Some 0, ru_sonarr_service_id = None, ru_users = None,
     ru_genre = None, ru_language = None, ru_keywords = None, ru_profile_id = None,
     ru_root_folder = Some ''/any'', ru_tags = None, ru_created_at = None, ru_updated_at = None\<rparr>"

definition genre_rule :: override_rule_row where
  "genre_rule = plain_rule\<lparr>ru_id := 2, ru_genre := Some ''28'', ru_root_folder := Some ''/action''\<rparr>"

definition action_movie :: rule_input where
  "action_movie = \<lparr>ri_movie = True, ri_is4k = False, ri_service_id = Some 0,
     ri_details = JObj [(''genres'', JArr [JObj [(''id'', JInt 28)]])], ri_anime = False, ri_user_id = 3\<rparr>"

theorem matching_rule_best_witness:
  "matching_rule JNull [plain_rule, genre_rule] action_movie = Inr (Some genre_rule) \<and>
   specificity plain_rule \<le> specificity genre_rule"
proof -
  have m: "matching_rule JNull [plain_rule, genre_rule] action_movie = Inr (Some genre_rule)" by code_simp
  from matching_rule_best [OF m] obtain service applied where
    "applied = filter (\<lambda>r. ru_radarr_service_id r = Some service \<and>
       rule_applies r (ri_details action_movie) False 3 = Inr True) [plain_rule, genre_rule]"
    "service = 0" "\<forall>r \<in> set applied. specificity r \<le> specificity genre_rule"
    by (auto simp: action_movie_def)
  moreover have "rule_applies plain_rule (ri_details action_movie) False 3 = Inr True" by code_simp
  moreover have "ru_radarr_service_id plain_rule = Some 0" by (simp add: plain_rule_def)
  ultimately show ?thesis using m by simp
qed

lemma and_also_True: "and_also a b = Inr True \<longleftrightarrow> a = Inr True \<and> b = Inr True"
  by (cases a) (auto simp: and_also_def and_then_def)

lemma names_one_True:
  assumes "names_one v wanted = Inr True" "v = Some s" "s \<noteq> []"
  shows "\<exists>ns. rule_numbers s = Inr ns \<and> list_ex wanted ns"
  using assms by (cases "rule_numbers s") (simp_all add: names_one_def set_text_def opt_filter_def and_then_def)

text \<open>
  Anime routing: a rule applies to an anime series only when its keywords name the anime keyword, and
  a rule restricted to users only to those users.
\<close>

theorem rule_applies_gates:
  assumes "rule_applies rule details anime uid = Inr True"
  shows "(anime \<longrightarrow> (\<exists>k ns. ru_keywords rule = Some k \<and> rule_numbers k = Inr ns \<and> ANIME_KEYWORD_ID \<in> set ns)) \<and>
    (\<forall>users. ru_users rule = Some users \<and> users \<noteq> [] \<longrightarrow>
       (\<exists>ns. rule_numbers users = Inr ns \<and> uid \<in> set ns))"
proof -
  let ?a = "if anime then
          (case set_text (ru_keywords rule) of
             None \<Rightarrow> Inr False
           | Some k \<Rightarrow> and_then (rule_numbers k) (\<lambda>ns. Inr (ANIME_KEYWORD_ID \<in> set ns)))
        else Inr True"
  have a: "?a = Inr True" and u: "names_one (ru_users rule) (\<lambda>n. n = uid) = Inr True"
    using assms by (simp_all only: rule_applies_def and_also_True)
  have "\<exists>k ns. ru_keywords rule = Some k \<and> rule_numbers k = Inr ns \<and> ANIME_KEYWORD_ID \<in> set ns" if anime
  proof (cases "set_text (ru_keywords rule)")
    case None
    then show ?thesis using a that by simp
  next
    case (Some k)
    then have "ru_keywords rule = Some k" by (auto simp: set_text_def opt_filter_def split: option.splits if_splits)
    moreover have "\<exists>ns. rule_numbers k = Inr ns \<and> ANIME_KEYWORD_ID \<in> set ns"
      using a that Some by (cases "rule_numbers k") (simp_all add: and_then_def)
    ultimately show ?thesis by blast
  qed
  moreover have "\<exists>ns. rule_numbers users = Inr ns \<and> uid \<in> set ns"
    if "ru_users rule = Some users" "users \<noteq> []" for users
    using names_one_True [OF u that] by (auto simp: list_ex_iff)
  ultimately show ?thesis by blast
qed

theorem rule_applies_gates_witness:
  "rule_applies (plain_rule\<lparr>ru_users := Some ''3, 4'', ru_keywords := Some ''210024''\<rparr>)
     (JObj [(''keywords'', JObj [(''results'', JArr [JObj [(''id'', JInt 210024)]])])]) True 4 = Inr True \<and>
   (\<exists>ns. rule_numbers ''3, 4'' = Inr ns \<and> 4 \<in> set ns)"
proof -
  have a: "rule_applies (plain_rule\<lparr>ru_users := Some ''3, 4'', ru_keywords := Some ''210024''\<rparr>)
     (JObj [(''keywords'', JObj [(''results'', JArr [JObj [(''id'', JInt 210024)]])])]) True 4 = Inr True"
    by code_simp
  have u: "ru_users (plain_rule\<lparr>ru_users := Some ''3, 4'', ru_keywords := Some ''210024''\<rparr>) = Some ''3, 4'' \<and>
     ''3, 4'' \<noteq> []" by simp
  have "\<exists>ns. rule_numbers ''3, 4'' = Inr ns \<and> 4 \<in> set ns"
    by (rule rule_applies_gates [OF a, THEN conjunct2, rule_format, OF u])
  then show ?thesis by (rule conjI [OF a])
qed

text \<open>The tags of a result: the given ones first, each once.\<close>

lemma merge_tags_Inr:
  assumes "merge_tags own tags = Inr out"
  shows "distinct out \<and> (\<exists>ns. rule_numbers tags = Inr ns \<and> set out = set (unwrap_or [] own) \<union> set ns)"
  using assms by (auto simp: merge_tags_def res_simps distinct_push_unique)

end
