(* ===== verification/Episodes.thy ===== *)
theory Episodes
  imports Draft Rules
begin

section \<open>Episode selections\<close>

text \<open>
  \<open>src/backend-rs/src/routes/episodeselect.rs\<close> and the watch-ahead window of
  \<open>src/backend-rs/src/jobs/episode_request_sync.rs\<close>: an \<open>episodeSelection\<close> is parsed, resolved
  against the TVDB catalog of the series, reduced to what nothing else covers, and stored as the
  episode rows of a request. Parameters: \<open>pretty\<close> prints JSON (\<open>serde_json\<close>), the catalog and the
  episodes played come from TVDB and Jellyfin. A \<open>usize\<close> is a \<open>nat\<close>; a JSON number that is not an
  \<open>i64\<close> is read as the \<open>f64\<close> it is.
\<close>

subsection \<open>Selections\<close>

datatype selection = Single int | Range int int | After int | WatchAhead int

datatype refused = Invalid string | RForward string

definition MAX_SAFE :: int where "MAX_SAFE = 9007199254740991"
definition MAX_ID :: int where "MAX_ID = 2147483647"
definition M_AVAILABLE :: int where "M_AVAILABLE = 5"

definition unsafe_issue :: "string \<Rightarrow> json" where
  "unsafe_issue key =
     JObj [(''code'', JStr ''too_big''), (''maximum'', JInt MAX_SAFE),
           (''note'', JStr ''Integers must be within the safe integer range.''),
           (''origin'', JStr ''int''), (''inclusive'', JBool True), (''path'', JArr [JStr key]),
           (''message'', JStr ''Too big: expected int to be <=9007199254740991'')]"

definition too_big_issue :: "string \<Rightarrow> json" where
  "too_big_issue key =
     JObj [(''origin'', JStr ''number''), (''code'', JStr ''too_big''), (''maximum'', JInt MAX_ID),
           (''inclusive'', JBool True), (''path'', JArr [JStr key]),
           (''message'', JStr ''Too big: expected number to be <=2147483647'')]"

definition odd_id :: refused where "odd_id = RForward ''an episode id the validator rejects''"

text \<open>The number an id field holds, when it is a whole one that may be an id.\<close>

fun whole_number :: "json option \<Rightarrow> int option" where
  "whole_number (Some (JInt n)) = (if 0 \<le> n then Some n else None)"
| "whole_number (Some (JFloat f)) = (if f = of_int \<lfloor>f\<rfloor> \<and> 1 \<le> f then Some \<lfloor>f\<rfloor> else None)"
| "whole_number _ = None"

definition id_field :: "jmap \<Rightarrow> string \<Rightarrow> (refused, json list \<times> int option) res" where
  "id_field obj key =
     (case whole_number (obj_get obj key) of
        None \<Rightarrow> Inl odd_id
      | Some n \<Rightarrow>
          let issues = (if MAX_SAFE < n then [unsafe_issue key] else []) @
                (if MAX_ID < n then [too_big_issue key] else [])
          in if issues \<noteq> [] then Inr (issues, None)
             else if 1 \<le> n then Inr ([], Some n) else Inl odd_id)"

definition odd_selection :: refused where
  "odd_selection = RForward ''an episode selection the validator rejects''"

definition selection_keys :: "string option \<Rightarrow> string list option" where
  "selection_keys kind =
     (if kind = Some ''single'' then Some [''type'', ''episodeTvdbId'']
      else if kind = Some ''range'' then Some [''type'', ''startEpisodeTvdbId'', ''endEpisodeTvdbId'']
      else if kind = Some ''after'' then Some [''type'', ''startEpisodeTvdbId'']
      else if kind = Some ''watchAhead'' then Some [''type'', ''count'']
      else None)"

fun count_number :: "json option \<Rightarrow> int option" where
  "count_number (Some (JInt n)) = Some n"
| "count_number (Some (JFloat f)) = (if f = of_int \<lfloor>f\<rfloor> then Some \<lfloor>f\<rfloor> else None)"
| "count_number _ = None"

definition parse_fields ::
  "string option \<Rightarrow> jmap \<Rightarrow> (refused, json list \<times> selection option) res" where
  "parse_fields kind obj =
     (if kind = Some ''single'' then
        and_then (id_field obj ''episodeTvdbId'') (\<lambda>(issues, i). Inr (issues, map_option Single i))
      else if kind = Some ''range'' then
        and_then (id_field obj ''startEpisodeTvdbId'') (\<lambda>(issues1, s).
        and_then (id_field obj ''endEpisodeTvdbId'') (\<lambda>(issues2, e).
          Inr (issues1 @ issues2,
            case (s, e) of (Some s, Some e) \<Rightarrow> Some (Range s e) | _ \<Rightarrow> None)))
      else if kind = Some ''after'' then
        and_then (id_field obj ''startEpisodeTvdbId'') (\<lambda>(issues, i). Inr (issues, map_option After i))
      else
        (case count_number (obj_get obj ''count'') of
           Some n \<Rightarrow>
             if 1 \<le> n \<and> n \<le> 50 then Inr ([], Some (WatchAhead n))
             else Inl (RForward ''a watch-ahead count the validator rejects'')
         | None \<Rightarrow> Inl (RForward ''a watch-ahead count the validator rejects'')))"

definition parse_selection :: "(json \<Rightarrow> string) \<Rightarrow> json \<Rightarrow> (refused, selection) res" where
  "parse_selection pretty inp =
     (case as_object inp of
        None \<Rightarrow> Inl odd_selection
      | Some obj \<Rightarrow>
          let kind = Option.bind (obj_get obj ''type'') as_str
          in case selection_keys kind of
               None \<Rightarrow> Inl odd_selection
             | Some keys \<Rightarrow>
                 if length obj \<noteq> length keys \<or> \<not> list_all (\<lambda>k. obj_get obj k \<noteq> None) keys
                 then Inl odd_selection
                 else and_then (parse_fields kind obj) (\<lambda>(issues, selection).
                   case selection of
                     Some s \<Rightarrow> if issues = [] then Inr s else Inl (Invalid (pretty (JArr issues)))
                   | None \<Rightarrow> Inl (Invalid (pretty (JArr issues)))))"

definition available :: "(json \<Rightarrow> string) \<Rightarrow> json \<Rightarrow> json \<Rightarrow> bool" where
  "available num settings details \<longleftrightarrow>
     truthy (jpath [''main'', ''partialRequestsEnabled''] settings) \<and>
     unwrap_or [] (Option.bind
       (jpath [''metadataSettings'', if is_anime num details then ''anime'' else ''tv''] settings) as_str)
       = ''tvdb''"

subsection \<open>The catalog and what was played\<close>

record catalog_episode =
  ce_tvdb_id :: int
  ce_season :: int
  ce_episode :: int
  ce_title :: string
  ce_air_date :: "string option"

definition catalog_entry :: "json \<Rightarrow> catalog_episode option" where
  "catalog_entry item =
     (let int_of = (\<lambda>key. Option.bind (jget item key) as_i64)
      in case jget item ''title'' of
           Some (JStr title) \<Rightarrow>
             (case (case jget item ''airDate'' of
                      None \<Rightarrow> Some None
                    | Some (JStr date) \<Rightarrow> Some (Some date)
                    | Some _ \<Rightarrow> None) of
                None \<Rightarrow> None
              | Some air_date \<Rightarrow>
                  (case (int_of ''tvdbId'', int_of ''seasonNumber'', int_of ''episodeNumber'') of
                     (Some t, Some s, Some e) \<Rightarrow>
                       Some \<lparr>ce_tvdb_id = t, ce_season = s, ce_episode = e, ce_title = title, ce_air_date = air_date\<rparr>
                   | _ \<Rightarrow> None))
         | _ \<Rightarrow> None)"

text \<open>
  \<open>catalog\<close>: \<open>login\<close>, \<open>tmdb_tv\<close> and \<open>tvdb_episodes\<close> are the calls to TVDB and TMDB. A show without a
  TVDB id has no catalog.
\<close>

definition catalog ::
  "(string, unit) res \<Rightarrow> (int \<Rightarrow> (string, json) res) \<Rightarrow> (int \<Rightarrow> (string, json list) res) \<Rightarrow> int
     \<Rightarrow> (refused, catalog_episode list) res" where
  "catalog login tmdb_tv tvdb_episodes tv_id =
     (case login of
        Inl e \<Rightarrow> Inl (RForward (''the TVDB login failed: '' @ e))
      | Inr _ \<Rightarrow>
     (case tmdb_tv tv_id of
        Inl e \<Rightarrow> Inl (RForward (''TMDB failed: '' @ e))
      | Inr show \<Rightarrow>
     and_then
       (case jpath [''external_ids'', ''tvdb_id''] show of
          None \<Rightarrow> Inr None
        | Some JNull \<Rightarrow> Inr None
        | Some v \<Rightarrow>
            (case as_i64 v of
               None \<Rightarrow> Inl (RForward ''a TVDB id that isn't an integer'')
             | Some i \<Rightarrow> Inr (if i = - 1 then None else Some i)))
       (\<lambda>tvdb. case tvdb of
          None \<Rightarrow> Inl (Invalid ''[TVDB] TVDB ID not found for series'')
        | Some i \<Rightarrow>
            (case tvdb_episodes i of
               Inl why \<Rightarrow> Inl (RForward why)
             | Inr items \<Rightarrow>
                 collect_res (map (\<lambda>item. case catalog_entry item of
                     Some c \<Rightarrow> Inr c
                   | None \<Rightarrow> Inl (RForward ''a catalog entry with odd field types'')) items)))))"

record played_episode =
  pe_tvdb_id :: "string option"
  pe_season :: "int option"
  pe_episode :: "int option"
  pe_played :: bool

text \<open>\<open>by_number\<close>: the last regular episode inserted under its numbers.\<close>

definition by_number :: "catalog_episode list \<Rightarrow> int \<Rightarrow> int \<Rightarrow> int option" where
  "by_number cat s e =
     map_option ce_tvdb_id
       (find (\<lambda>c. 0 < ce_season c \<and> ce_season c = s \<and> ce_episode c = e) (rev cat))"

definition played_id :: "catalog_episode list \<Rightarrow> played_episode \<Rightarrow> int option" where
  "played_id cat item =
     (case opt_filter (\<lambda>i. i \<in> set (map ce_tvdb_id cat))
         (Option.bind (opt_filter (\<lambda>t. t \<noteq> []) (pe_tvdb_id item)) (\<lambda>t. parse_i64 (trim t))) of
        Some i \<Rightarrow> Some i
      | None \<Rightarrow>
          (case (pe_season item, pe_episode item) of
             (Some s, Some e) \<Rightarrow> by_number cat s e
           | _ \<Rightarrow> None))"

definition played_tvdb_ids :: "catalog_episode list \<Rightarrow> played_episode list \<Rightarrow> int set" where
  "played_tvdb_ids cat items = set (List.map_filter (played_id cat) (filter pe_played items))"

text \<open>\<open>played\<close>: \<open>items\<close> is Jellyfin's answer, none without a linked account or when it fails.\<close>

definition played_of ::
  "string option \<Rightarrow> (string \<Rightarrow> played_episode list option) \<Rightarrow> catalog_episode list \<Rightarrow> int set" where
  "played_of series items cat =
     (case opt_filter (\<lambda>s. s \<noteq> []) series of
        None \<Rightarrow> {}
      | Some s \<Rightarrow> (case items s of None \<Rightarrow> {} | Some l \<Rightarrow> played_tvdb_ids cat l))"

definition DEFAULT_WATCH_AHEAD :: int where "DEFAULT_WATCH_AHEAD = 10"
definition MIN_WATCH_AHEAD :: int where "MIN_WATCH_AHEAD = 1"
definition MAX_WATCH_AHEAD :: int where "MAX_WATCH_AHEAD = 50"

definition watch_ahead_count :: "int option \<Rightarrow> int" where
  "watch_ahead_count v =
     (case v of None \<Rightarrow> DEFAULT_WATCH_AHEAD | Some n \<Rightarrow> min MAX_WATCH_AHEAD (max MIN_WATCH_AHEAD n))"

definition watch_ahead_window :: "catalog_episode list \<Rightarrow> int \<Rightarrow> int set \<Rightarrow> catalog_episode list" where
  "watch_ahead_window cat cnt played =
     (let regular = filter (\<lambda>e. 0 < ce_season e) cat;
          last = (case rposition (\<lambda>e. ce_tvdb_id e \<in> played) regular of None \<Rightarrow> 0 | Some i \<Rightarrow> i + 1)
      in take (nat (watch_ahead_count (Some cnt))) (drop last regular))"

subsection \<open>Resolving a selection\<close>

record resolved =
  rs_kind :: string
  rs_start :: int
  rs_end :: "int option"
  rs_watch_ahead :: "int option"
  rs_episodes :: "catalog_episode list"

definition quota_units :: "catalog_episode list \<Rightarrow> int" where
  "quota_units episodes = int (card (set (map ce_season episodes)))"

definition none_left :: refused where
  "none_left = Invalid ''No episodes are available for this selection.''"

definition selection_kind :: "selection \<Rightarrow> string \<times> int" where
  "selection_kind s =
     (case s of
        Single i \<Rightarrow> (''single'', i)
      | Range i _ \<Rightarrow> (''range'', i)
      | After i \<Rightarrow> (''after'', i)
      | WatchAhead i \<Rightarrow> (''after'', i))"

definition index_of :: "catalog_episode list \<Rightarrow> int \<Rightarrow> nat option" where
  "index_of cat i = rposition (\<lambda>e. ce_tvdb_id e = i) cat"

text \<open>Where a range or an open selection ends: the index past its last episode, and its end id.\<close>

definition selection_end ::
  "selection \<Rightarrow> catalog_episode list \<Rightarrow> nat \<Rightarrow> (refused, nat \<times> int option) res" where
  "selection_end s cat start_index =
     (case s of
        Range _ e \<Rightarrow>
          (case index_of cat e of
             None \<Rightarrow> Inl (Invalid ''The selected TVDB range endpoint does not exist.'')
           | Some j \<Rightarrow>
               if ce_season (cat ! j) = 0 \<or> j < start_index
               then Inl (Invalid ''Episode range endpoints are invalid or reversed.'')
               else Inr (j + 1, Some (ce_tvdb_id (cat ! j))))
      | _ \<Rightarrow> Inr (length cat, None))"

definition resolve ::
  "selection \<Rightarrow> catalog_episode list \<Rightarrow> bool \<Rightarrow> int set \<Rightarrow> (refused, resolved) res" where
  "resolve s cat allow_specials played =
     (case s of
        WatchAhead cnt \<Rightarrow>
          (case find (\<lambda>e. 0 < ce_season e) cat of
             None \<Rightarrow> Inl none_left
           | Some first \<Rightarrow>
               let desired = watch_ahead_window cat cnt played
               in Inr \<lparr>rs_kind = ''watchAhead'',
                       rs_start = ce_tvdb_id (case desired of e # _ \<Rightarrow> e | [] \<Rightarrow> first),
                       rs_end = None, rs_watch_ahead = Some cnt, rs_episodes = desired\<rparr>)
      | _ \<Rightarrow>
          (case index_of cat (snd (selection_kind s)) of
             None \<Rightarrow> Inl (Invalid ''The selected TVDB episode does not exist.'')
           | Some i \<Rightarrow>
               let start = cat ! i
               in if ce_season start = 0 \<and> \<not> allow_specials
                  then Inl (Invalid ''Special episode requests are disabled.'')
                  else and_then
                    (case s of
                       Single _ \<Rightarrow> Inr (None, [start])
                     | _ \<Rightarrow>
                         if ce_season start = 0
                         then Inl (Invalid ''Ranges and ongoing requests cannot start with a special.'')
                         else and_then (selection_end s cat i) (\<lambda>(stop, e).
                           Inr (e, filter (\<lambda>c. 0 < ce_season c) (drop i (take stop cat)))))
                    (\<lambda>(e, episodes).
                      if episodes = [] then Inl none_left
                      else Inr \<lparr>rs_kind = fst (selection_kind s), rs_start = ce_tvdb_id start,
                                rs_end = e, rs_watch_ahead = None, rs_episodes = episodes\<rparr>)))"

subsection \<open>What is left of it\<close>

definition DECLINED :: int where "DECLINED = 3"
definition COMPLETED :: int where "COMPLETED = 5"

definition season_status :: "bool \<Rightarrow> season_row \<Rightarrow> int" where
  "season_status four_k s = (if four_k then sn_status4k s else sn_status s)"

definition uncovered ::
  "resolved \<Rightarrow> request_row list \<Rightarrow> media_row option \<Rightarrow> bool \<Rightarrow> catalog_episode list" where
  "uncovered r coverage media four_k =
     (if rs_kind r = ''after'' then rs_episodes r
      else
        let seasons = set (concat (map (\<lambda>q. map sr_season_number (r_seasons q)) coverage));
            episodes = set (concat (map (\<lambda>q. map er_tvdb_id (r_episodes q)) coverage))
        in filter (\<lambda>e. ce_season e \<notin> seasons \<and> ce_tvdb_id e \<notin> episodes \<and>
             \<not> (case media of
                  None \<Rightarrow> False
                | Some m \<Rightarrow> list_ex (\<lambda>s. sn_season_number s = ce_season e \<and>
                    season_status four_k s = M_AVAILABLE) (m_seasons m)))
             (rs_episodes r))"

definition is_active :: "bool \<Rightarrow> request_row \<Rightarrow> bool" where
  "is_active four_k r \<longleftrightarrow> r_is4k r = four_k \<and> r_status r \<noteq> DECLINED \<and> r_status r \<noteq> COMPLETED"

definition active :: "request_row list \<Rightarrow> bool option \<Rightarrow> request_row list" where
  "active requests four_k = (case four_k of None \<Rightarrow> [] | Some q \<Rightarrow> filter (is_active q) requests)"

definition lock_key :: "int \<Rightarrow> bool \<Rightarrow> string" where
  "lock_key tmdb_id four_k = show_int tmdb_id @ '':'' @ (if four_k then ''4k'' else ''sd'')"

text \<open>
  \<open>ongoing_conflict\<close>: \<open>index\<close> says how this database defines the unique index of ongoing requests:
  not at all, or over which kinds.
\<close>

datatype ongoing_index = NoIndex | OverAfter | OverRolling

definition index_kinds :: "ongoing_index \<Rightarrow> string list" where
  "index_kinds index =
     (case index of NoIndex \<Rightarrow> [] | OverAfter \<Rightarrow> [''after''] | OverRolling \<Rightarrow> [''after'', ''watchAhead''])"

definition ongoing_conflict ::
  "ongoing_index \<Rightarrow> db \<Rightarrow> string \<Rightarrow> string \<Rightarrow> int option \<Rightarrow> bool" where
  "ongoing_conflict index d key kind own_id \<longleftrightarrow>
     (let kinds = index_kinds index
      in kind \<in> set kinds \<and>
         list_ex (\<lambda>r. r_ongoing_episode_request_key r = Some key \<and>
           (case r_episode_selection_type r of None \<Rightarrow> False | Some k \<Rightarrow> k \<in> set kinds) \<and>
           r_status r \<notin> {3, 5} \<and> r_id r \<noteq> unwrap_or (- 1) own_id) (request_table d))"

subsection \<open>Episode rows\<close>

text \<open>
  \<open>insert_episodes\<close>: the rows in order, with the ids the table gives. \<open>stamp\<close> is the database's
  current time. The table holds a TVDB id once per request; a repeated one fails the statement.
\<close>

definition episode_row :: "string option \<Rightarrow> int \<Rightarrow> int \<Rightarrow> catalog_episode \<Rightarrow> int \<Rightarrow> episode_request_row" where
  "episode_row stamp request status e i =
     \<lparr>er_id = i, er_tvdb_id = ce_tvdb_id e, er_season_number = ce_season e,
      er_episode_number = ce_episode e, er_title = Some (ce_title e), er_air_date = ce_air_date e,
      er_status = status, er_search_triggered_at = None, er_monitored_at = None, er_unmonitored_at = None,
      er_created_at = stamp, er_updated_at = stamp, er_request_id = Some request\<rparr>"

fun insert_episodes ::
  "string option \<Rightarrow> int \<Rightarrow> int \<Rightarrow> catalog_episode list \<Rightarrow> episode_request_row list \<Rightarrow> int
     \<Rightarrow> (string, episode_request_row list \<times> int) res" where
  "insert_episodes stamp request status [] rows next_id = Inr (rows, next_id)"
| "insert_episodes stamp request status (e # es) rows next_id =
     (if ce_tvdb_id e \<in> set (map er_tvdb_id rows)
      then Inl ''UNIQUE constraint failed: episode_request.requestId, episode_request.tvdbId''
      else insert_episodes stamp request status es (rows @ [episode_row stamp request status e next_id])
             (next_id + 1))"

definition new_episodes_json ::
  "catalog_episode list \<Rightarrow> int \<Rightarrow> episode_request_row list \<Rightarrow> json" where
  "new_episodes_json episodes status rows =
     JArr (map (\<lambda>e.
       let row = find (\<lambda>r. er_tvdb_id r = ce_tvdb_id e) rows
       in draft_json (fold (\<lambda>(k, v). draft_put k v)
         [(''tvdbId'', JInt (ce_tvdb_id e)), (''seasonNumber'', JInt (ce_season e)),
          (''episodeNumber'', JInt (ce_episode e)), (''title'', JStr (ce_title e)),
          (''airDate'', j_text (ce_air_date e)), (''status'', JInt status),
          (''searchTriggeredAt'', JNull), (''monitoredAt'', JNull), (''unmonitoredAt'', JNull),
          (''id'', opt_json (\<lambda>r. JInt (er_id r)) row),
          (''createdAt'', opt_json (\<lambda>r. j_text (er_created_at r)) row),
          (''updatedAt'', opt_json (\<lambda>r. j_text (er_updated_at r)) row)] [])) episodes)"

end
