(* ===== verification/Episode_Props.thy ===== *)
theory Episode_Props
  imports Episodes
begin

section \<open>What episode selections promise\<close>

text \<open>
  Properties of \<open>Episodes\<close>: what the parser lets through, which episodes a resolved selection holds,
  the watch-ahead window, what remains once covered episodes are taken out, and the stored rows.
\<close>

subsection \<open>Parsing\<close>

lemma id_field_bounds:
  assumes "id_field obj key = Inr (issues, Some i)"
  shows "issues = [] \<and> 1 \<le> i \<and> i \<le> MAX_ID"
  using assms by (auto simp: id_field_def Let_def MAX_ID_def MAX_SAFE_def split: option.splits if_splits)

lemma id_field_issues:
  assumes "id_field obj key = Inr (issues, None)"
  shows "issues \<noteq> []"
  using assms by (auto simp: id_field_def Let_def split: option.splits if_splits)

definition selection_ok :: "selection \<Rightarrow> bool" where
  "selection_ok s =
     (case s of
        Single i \<Rightarrow> 1 \<le> i \<and> i \<le> MAX_ID
      | Range i j \<Rightarrow> 1 \<le> i \<and> i \<le> MAX_ID \<and> 1 \<le> j \<and> j \<le> MAX_ID
      | After i \<Rightarrow> 1 \<le> i \<and> i \<le> MAX_ID
      | WatchAhead n \<Rightarrow> 1 \<le> n \<and> n \<le> 50)"

lemma parse_fields_ok:
  assumes "parse_fields kind obj = Inr (issues, Some s)"
  shows "selection_ok s"
proof -
  consider "kind = Some ''single''" | "kind = Some ''range''" | "kind = Some ''after''"
    | "kind \<noteq> Some ''single'' \<and> kind \<noteq> Some ''range'' \<and> kind \<noteq> Some ''after''" by blast
  then show ?thesis
  proof cases
    case 1
    then show ?thesis using assms
      by (auto simp: parse_fields_def res_simps selection_ok_def dest: id_field_bounds)
  next
    case 2
    then obtain i1 x i2 y where x: "id_field obj ''startEpisodeTvdbId'' = Inr (i1, x)"
      and y: "id_field obj ''endEpisodeTvdbId'' = Inr (i2, y)"
      and s: "(case (x, y) of (Some s, Some e) \<Rightarrow> Some (Range s e) | _ \<Rightarrow> None) = Some s"
      using assms
      by (cases "id_field obj ''startEpisodeTvdbId''"; cases "id_field obj ''endEpisodeTvdbId''")
        (auto simp: parse_fields_def)
    from s obtain a b where ab: "x = Some a" "y = Some b" "s = Range a b"
      by (cases x; cases y) auto
    then show ?thesis
      using id_field_bounds x y by (simp add: selection_ok_def)
  next
    case 3
    then show ?thesis using assms
      by (auto simp: parse_fields_def res_simps selection_ok_def dest: id_field_bounds)
  next
    case 4
    then show ?thesis using assms
      by (auto simp: parse_fields_def selection_ok_def split: option.splits if_splits)
  qed
qed

text \<open>
  A selection that parses names ids from 1 to 2147483647, or a watch-ahead of 1 to 50 episodes, and
  comes from an object with exactly the keys of its kind.
\<close>

theorem parse_selection_bounds:
  assumes "parse_selection pretty inp = Inr s"
  shows "selection_ok s \<and>
    (\<exists>obj keys. inp = JObj obj \<and> selection_keys (Option.bind (obj_get obj ''type'') as_str) = Some keys \<and>
       length obj = length keys \<and> (\<forall>k \<in> set keys. obj_get obj k \<noteq> None))"
proof -
  obtain obj where o: "inp = JObj obj"
    using assms by (cases inp) (simp_all add: parse_selection_def)
  let ?kind = "Option.bind (obj_get obj ''type'') as_str"
  obtain keys where k: "selection_keys ?kind = Some keys"
    using assms by (cases "selection_keys ?kind") (simp_all add: parse_selection_def o Let_def)
  have g: "length obj = length keys \<and> list_all (\<lambda>k. obj_get obj k \<noteq> None) keys"
    using assms by (auto simp: parse_selection_def o k Let_def split: if_splits)
  obtain issues x where f: "parse_fields ?kind obj = Inr (issues, Some x)" "x = s"
    using assms g
    by (auto simp: parse_selection_def o k Let_def res_simps split: option.splits if_splits)
  show ?thesis using parse_fields_ok [OF f(1)] f(2) o k g by (auto simp: list_all_iff)
qed

theorem parse_selection_bounds_witness:
  "parse_selection (\<lambda>_. []) (JObj [(''type'', JStr ''range''), (''startEpisodeTvdbId'', JInt 5),
     (''endEpisodeTvdbId'', JInt 9)]) = Inr (Range 5 9) \<and> selection_ok (Range 5 9)"
proof -
  have p: "parse_selection (\<lambda>_. []) (JObj [(''type'', JStr ''range''), (''startEpisodeTvdbId'', JInt 5),
     (''endEpisodeTvdbId'', JInt 9)]) = Inr (Range 5 9)" by code_simp
  show ?thesis by (rule conjI [OF p parse_selection_bounds [OF p, THEN conjunct1]])
qed

subsection \<open>The watch-ahead window\<close>

lemma watch_ahead_count_bounds: "1 \<le> watch_ahead_count v \<and> watch_ahead_count v \<le> 50"
  by (auto simp: watch_ahead_count_def DEFAULT_WATCH_AHEAD_def MIN_WATCH_AHEAD_def MAX_WATCH_AHEAD_def
      split: option.splits)

lemma drop_past_last:
  assumes "n = (case rposition p xs of None \<Rightarrow> 0 | Some i \<Rightarrow> i + 1)"
  shows "(\<forall>x \<in> set (drop n xs). \<not> p x) \<and> (n \<noteq> 0 \<longrightarrow> n \<le> length xs \<and> p (xs ! (n - 1)))"
proof (cases "rposition p xs")
  case None
  then have "n = 0" using assms by simp
  then show ?thesis using None by (simp add: rposition_None)
next
  case (Some i)
  then have "i < length xs" "p (xs ! i)" "\<forall>j. i < j \<and> j < length xs \<longrightarrow> \<not> p (xs ! j)"
    by (auto simp: rposition_Some)
  then show ?thesis
    using assms Some by (auto simp: in_set_conv_nth)
qed

text \<open>
  The watch-ahead window is a run of regular episodes of the catalog, none of them played, that starts
  right after the last one played; it holds as many as asked for (between 1 and 50), or reaches the end
  of the catalog.
\<close>

theorem watch_ahead_window_unplayed:
  "\<exists>before rest.
     filter (\<lambda>e. 0 < ce_season e) cat = before @ watch_ahead_window cat n played @ rest \<and>
     (\<forall>e \<in> set (watch_ahead_window cat n played). ce_tvdb_id e \<notin> played \<and> 0 < ce_season e \<and> e \<in> set cat) \<and>
     (if before = [] then True else ce_tvdb_id (last before) \<in> played) \<and>
     length (watch_ahead_window cat n played) \<le> nat (min 50 (max 1 n)) \<and>
     (if rest = [] then True else length (watch_ahead_window cat n played) = nat (min 50 (max 1 n)))"
proof -
  let ?reg = "filter (\<lambda>e. 0 < ce_season e) cat"
  let ?p = "\<lambda>e. ce_tvdb_id e \<in> played"
  define m where "m = (case rposition ?p ?reg of None \<Rightarrow> 0 | Some i \<Rightarrow> i + 1)"
  define k where "k = nat (watch_ahead_count (Some n))"
  have kn: "k = nat (min 50 (max 1 n))"
    by (simp add: k_def watch_ahead_count_def MIN_WATCH_AHEAD_def MAX_WATCH_AHEAD_def)
  have w: "watch_ahead_window cat n played = take k (drop m ?reg)"
    by (simp add: watch_ahead_window_def Let_def m_def k_def)
  note d = drop_past_last [OF m_def]
  have split: "?reg = take m ?reg @ take k (drop m ?reg) @ drop k (drop m ?reg)"
    by (metis append_take_drop_id)
  have un: "ce_tvdb_id e \<notin> played \<and> 0 < ce_season e \<and> e \<in> set cat" if "e \<in> set (take k (drop m ?reg))" for e
  proof -
    have i: "e \<in> set (drop m ?reg)" using that in_set_takeD by metis
    then have "e \<in> set ?reg" using in_set_dropD by metis
    then show ?thesis using d i by auto
  qed
  have la: "if take m ?reg = [] then True else ce_tvdb_id (last (take m ?reg)) \<in> played"
  proof (cases "take m ?reg = []")
    case False
    then have "m \<noteq> 0" by auto
    then have "m \<le> length ?reg \<and> ?p (?reg ! (m - 1))" using d by blast
    then have "length (take m ?reg) = m" "?reg ! (m - 1) = take m ?reg ! (m - 1)"
      using \<open>m \<noteq> 0\<close> by simp_all
    then show ?thesis
      using False \<open>m \<le> length ?reg \<and> ?p (?reg ! (m - 1))\<close> last_conv_nth [OF False] by (simp only: if_False)
  qed simp
  have le: "if drop k (drop m ?reg) = [] then True else length (take k (drop m ?reg)) = k"
    by simp
  show ?thesis
    unfolding w kn [symmetric]
  proof (rule exI [of _ "take m ?reg"], rule exI [of _ "drop k (drop m ?reg)"], intro conjI ballI)
    show "?reg = take m ?reg @ take k (drop m ?reg) @ drop k (drop m ?reg)" by (rule split)
    show "length (take k (drop m ?reg)) \<le> k" by simp
  qed (use un la le in blast)+
qed

definition demo_ep :: "int \<Rightarrow> int \<Rightarrow> int \<Rightarrow> catalog_episode" where
  "demo_ep t s e = \<lparr>ce_tvdb_id = t, ce_season = s, ce_episode = e, ce_title = ''E'', ce_air_date = None\<rparr>"

definition demo_catalog :: "catalog_episode list" where
  "demo_catalog = [demo_ep 900 0 1, demo_ep 101 1 1, demo_ep 102 1 2, demo_ep 201 2 1]"

theorem watch_ahead_window_unplayed_witness:
  "\<exists>before rest.
     filter (\<lambda>e. 0 < ce_season e) demo_catalog = before @ watch_ahead_window demo_catalog 1 {101} @ rest \<and>
     (if before = [] then True else ce_tvdb_id (last before) \<in> {101}) \<and>
     length (watch_ahead_window demo_catalog 1 {101}) \<le> nat (min 50 (max 1 1))"
  using watch_ahead_window_unplayed [of demo_catalog 1 "{101}"] by blast

subsection \<open>Resolving\<close>

text \<open>
  A range resolves to the regular episodes of the catalog between its two endpoints, both of them
  regular and in order, each id read as its last entry; the end is recorded.
\<close>

theorem resolve_range:
  assumes "resolve (Range a b) cat specials played = Inr r"
  shows "\<exists>i j. i \<le> j \<and> j < length cat \<and> ce_tvdb_id (cat ! i) = a \<and> ce_tvdb_id (cat ! j) = b \<and>
    (\<forall>k. i < k \<and> k < length cat \<longrightarrow> ce_tvdb_id (cat ! k) \<noteq> a) \<and>
    (\<forall>k. j < k \<and> k < length cat \<longrightarrow> ce_tvdb_id (cat ! k) \<noteq> b) \<and>
    ce_season (cat ! i) \<noteq> 0 \<and> ce_season (cat ! j) \<noteq> 0 \<and>
    r = \<lparr>rs_kind = ''range'', rs_start = a, rs_end = Some b, rs_watch_ahead = None,
         rs_episodes = filter (\<lambda>c. 0 < ce_season c) (drop i (take (j + 1) cat))\<rparr> \<and>
    rs_episodes r \<noteq> []"
proof -
  obtain i where i: "index_of cat a = Some i"
    using assms by (cases "index_of cat a") (simp_all add: resolve_def selection_kind_def)
  obtain j where j: "index_of cat b = Some j"
    using assms by (cases "index_of cat b") (auto simp: resolve_def selection_kind_def i Let_def selection_end_def
        split: if_splits)
  have s: "ce_season (cat ! i) \<noteq> 0" "ce_season (cat ! j) \<noteq> 0" "i \<le> j"
    and e: "filter (\<lambda>c. 0 < ce_season c) (drop i (take (j + 1) cat)) \<noteq> []"
    and r: "r = \<lparr>rs_kind = ''range'', rs_start = ce_tvdb_id (cat ! i), rs_end = Some (ce_tvdb_id (cat ! j)),
         rs_watch_ahead = None, rs_episodes = filter (\<lambda>c. 0 < ce_season c) (drop i (take (j + 1) cat))\<rparr>"
    using assms by (auto simp: resolve_def selection_kind_def i j Let_def selection_end_def split: if_splits)
  have x: "i < length cat" "ce_tvdb_id (cat ! i) = a"
      "\<forall>k. i < k \<and> k < length cat \<longrightarrow> ce_tvdb_id (cat ! k) \<noteq> a"
    using i by (auto simp: index_of_def rposition_Some)
  have y: "j < length cat" "ce_tvdb_id (cat ! j) = b"
      "\<forall>k. j < k \<and> k < length cat \<longrightarrow> ce_tvdb_id (cat ! k) \<noteq> b"
    using j by (auto simp: index_of_def rposition_Some)
  show ?thesis
    by (intro exI [of _ i] exI [of _ j] conjI) (use s e r x y in auto)
qed

theorem resolve_range_witness:
  "\<exists>r. resolve (Range 101 201) demo_catalog False {} = Inr r \<and>
     map ce_tvdb_id (rs_episodes r) = [101, 102, 201] \<and> rs_end r = Some 201 \<and> rs_episodes r \<noteq> []"
proof -
  have e: "resolve (Range 101 201) demo_catalog False {} = Inr \<lparr>rs_kind = ''range'', rs_start = 101,
     rs_end = Some 201, rs_watch_ahead = None,
     rs_episodes = [demo_ep 101 1 1, demo_ep 102 1 2, demo_ep 201 2 1]\<rparr>"
    by code_simp
  from resolve_range [OF e] have "rs_episodes \<lparr>rs_kind = ''range'', rs_start = 101,
     rs_end = Some 201, rs_watch_ahead = None,
     rs_episodes = [demo_ep 101 1 1, demo_ep 102 1 2, demo_ep 201 2 1]\<rparr> \<noteq> []" by blast
  with e show ?thesis by (auto simp: demo_ep_def)
qed

text \<open>
  Only a single selection can hold a special, and only where specials are allowed; every episode of a
  resolved selection is in the catalog, and only a watch-ahead can be empty.
\<close>

theorem resolve_specials:
  assumes "resolve s cat specials played = Inr r"
  shows "set (rs_episodes r) \<subseteq> set cat \<and>
    (\<forall>e \<in> set (rs_episodes r). ce_season e \<le> 0 \<longrightarrow>
       (\<exists>i. s = Single i) \<and> (ce_season e = 0 \<longrightarrow> specials)) \<and>
    (rs_episodes r = [] \<longrightarrow> (\<exists>n. s = WatchAhead n))"
proof (cases "\<exists>n. s = WatchAhead n")
  case True
  then obtain n where n: "s = WatchAhead n" by blast
  then obtain first where "find (\<lambda>e. 0 < ce_season e) cat = Some first"
    using assms by (cases "find (\<lambda>e. 0 < ce_season e) cat") (simp_all add: resolve_def)
  then have "rs_episodes r = watch_ahead_window cat n played"
    using assms n by (auto simp: resolve_def Let_def)
  moreover have "0 < ce_season e \<and> e \<in> set cat" if "e \<in> set (watch_ahead_window cat n played)" for e
  proof -
    have "e \<in> set (filter (\<lambda>e. 0 < ce_season e) cat)"
      using that unfolding watch_ahead_window_def Let_def by (meson in_set_takeD in_set_dropD)
    then show ?thesis by simp
  qed
  ultimately show ?thesis using n by fastforce
next
  case False
  then obtain i where i: "index_of cat (snd (selection_kind s)) = Some i"
    using assms by (cases "index_of cat (snd (selection_kind s))") (auto simp: resolve_def split: selection.splits)
  have lt: "i < length cat" using i by (simp add: index_of_def rposition_lt)
  show ?thesis
  proof (cases "\<exists>a. s = Single a")
    case True
    then have "rs_episodes r = [cat ! i]" "ce_season (cat ! i) = 0 \<longrightarrow> specials"
      using assms i by (auto simp: resolve_def selection_kind_def Let_def split: if_splits)
    then show ?thesis using True lt by simp
  next
    case False
    with \<open>\<nexists>n. s = WatchAhead n\<close> have
      "\<exists>stop. rs_episodes r = filter (\<lambda>c. 0 < ce_season c) (drop i (take stop cat)) \<and> rs_episodes r \<noteq> []"
      using assms i by (cases s) (auto simp: resolve_def selection_kind_def Let_def res_simps split: if_splits)
    then obtain stop where "rs_episodes r = filter (\<lambda>c. 0 < ce_season c) (drop i (take stop cat))"
      "rs_episodes r \<noteq> []" by blast
    then show ?thesis by (auto dest: in_set_dropD in_set_takeD)
  qed
qed

theorem resolve_specials_witness:
  "\<exists>r. resolve (Single 900) demo_catalog True {} = Inr r \<and> set (rs_episodes r) \<subseteq> set demo_catalog"
proof -
  have e: "resolve (Single 900) demo_catalog True {} = Inr \<lparr>rs_kind = ''single'', rs_start = 900,
     rs_end = None, rs_watch_ahead = None, rs_episodes = [demo_ep 900 0 1]\<rparr>"
    by code_simp
  from resolve_specials [OF e, THEN conjunct1] e show ?thesis by blast
qed

subsection \<open>Coverage\<close>

definition covered_by :: "request_row list \<Rightarrow> catalog_episode \<Rightarrow> bool" where
  "covered_by coverage e \<longleftrightarrow>
     (\<exists>q \<in> set coverage. ce_season e \<in> set (map sr_season_number (r_seasons q)) \<or>
        ce_tvdb_id e \<in> set (map er_tvdb_id (r_episodes q)))"

definition in_library :: "media_row option \<Rightarrow> bool \<Rightarrow> catalog_episode \<Rightarrow> bool" where
  "in_library media four_k e \<longleftrightarrow>
     (\<exists>m s. media = Some m \<and> s \<in> set (m_seasons m) \<and> sn_season_number s = ce_season e \<and>
        (if four_k then sn_status4k s else sn_status s) = 5)"

lemma in_concat_map: "x \<in> set (concat (map f xs)) \<longleftrightarrow> (\<exists>q \<in> set xs. x \<in> set (f q))"
  by simp

text \<open>
  What is requested of a resolved selection, other than an open one, is exactly its episodes that no
  other active request covers by season or by episode and whose season the library lacks.
\<close>

theorem uncovered_exact:
  assumes "rs_kind r \<noteq> ''after''"
  shows "uncovered r coverage media four_k =
    filter (\<lambda>e. \<not> covered_by coverage e \<and> \<not> in_library media four_k e) (rs_episodes r)"
proof -
  have c: "(ce_season e \<notin> set (concat (map (\<lambda>q. map sr_season_number (r_seasons q)) coverage)) \<and>
      ce_tvdb_id e \<notin> set (concat (map (\<lambda>q. map er_tvdb_id (r_episodes q)) coverage))) =
      (\<not> covered_by coverage e)" for e
    by (simp only: in_concat_map covered_by_def) blast
  have l: "(case media of None \<Rightarrow> False
      | Some m \<Rightarrow> list_ex (\<lambda>s. sn_season_number s = ce_season e \<and> season_status four_k s = M_AVAILABLE)
          (m_seasons m)) = in_library media four_k e" for e
    by (cases media) (auto simp: in_library_def season_status_def M_AVAILABLE_def list_ex_iff)
  show ?thesis
    using assms unfolding uncovered_def Let_def l by (simp only: if_False conj_assoc [symmetric] c)
qed

theorem uncovered_exact_witness:
  "uncovered \<lparr>rs_kind = ''single'', rs_start = 101, rs_end = None, rs_watch_ahead = None,
     rs_episodes = [demo_ep 101 1 1]\<rparr> [] None False = [demo_ep 101 1 1]"
  using uncovered_exact [of "\<lparr>rs_kind = ''single'', rs_start = 101, rs_end = None, rs_watch_ahead = None,
     rs_episodes = [demo_ep 101 1 1]\<rparr>" "[]" None False]
  by (simp add: covered_by_def in_library_def)

lemma find_in: "find p xs = Some x \<Longrightarrow> x \<in> set xs \<and> p x"
  by (induction xs) (auto split: if_splits)

text \<open>
  What counts as played is in the catalog: a Jellyfin episode marks an entry by its TVDB id, or by its
  numbers when it has no id of the catalog.
\<close>

theorem played_in_catalog:
  "i \<in> played_tvdb_ids cat items \<longleftrightarrow>
     (\<exists>item \<in> set items. pe_played item \<and> played_id cat item = Some i \<and> i \<in> set (map ce_tvdb_id cat))"
proof -
  have "played_id cat item = Some i \<Longrightarrow> i \<in> set (map ce_tvdb_id cat)" for item
  proof -
    assume a: "played_id cat item = Some i"
    have n: "by_number cat s e = Some i \<Longrightarrow> i \<in> set (map ce_tvdb_id cat)" for s e
      by (auto simp: by_number_def dest: find_in)
    show ?thesis
      using a n
      by (cases "opt_filter (\<lambda>i. i \<in> set (map ce_tvdb_id cat))
         (Option.bind (opt_filter (\<lambda>t. t \<noteq> []) (pe_tvdb_id item)) (\<lambda>t. parse_i64 (trim t)))")
        (auto simp: played_id_def split: option.splits)
  qed
  then show ?thesis
    by (auto simp: played_tvdb_ids_def List.map_filter_def image_iff) 
qed

subsection \<open>Stored rows\<close>

text \<open>
  Storing the episodes of a request appends one row per episode, in order, under consecutive ids and
  with the request's status; it fails just when a TVDB id would repeat.
\<close>

theorem insert_episodes_rows:
  assumes "distinct (map er_tvdb_id rows)"
  shows "insert_episodes stamp request status es rows next_id =
    (if distinct (map er_tvdb_id rows @ map ce_tvdb_id es)
     then Inr (rows @ map (\<lambda>(e, i). episode_row stamp request status e i)
                 (zip es (map (\<lambda>k. next_id + int k) [0..<length es])), next_id + int (length es))
     else Inl ''UNIQUE constraint failed: episode_request.requestId, episode_request.tvdbId'')"
  using assms
proof (induction es arbitrary: rows next_id)
  case Nil
  then show ?case by simp
next
  case (Cons e es)
  show ?case
  proof (cases "ce_tvdb_id e \<in> set (map er_tvdb_id rows)")
    case True
    then show ?thesis by auto
  next
    case False
    let ?row = "episode_row stamp request status e next_id"
    have t: "er_tvdb_id ?row = ce_tvdb_id e" by (simp add: episode_row_def)
    have d: "distinct (map er_tvdb_id (rows @ [?row]))" using False Cons.prems t by simp
    have u: "[0..<length (e # es)] = 0 # map Suc [0..<length es]"
      by (simp add: map_Suc_upt upt_conv_Cons del: upt_Suc)
    have z: "map (\<lambda>k. next_id + int k) (map Suc [0..<length es]) =
        map (\<lambda>k. next_id + 1 + int k) [0..<length es]"
      by simp
    show ?thesis
      using False t by (simp only: insert_episodes.simps Cons.IH [OF d] u list.map z) auto
  qed
qed

theorem insert_episodes_rows_witness:
  "\<exists>rows. insert_episodes None 4 2 [demo_ep 101 1 1, demo_ep 102 1 2] [] 7 = Inr (rows, 9) \<and>
     map er_id rows = [7, 8]"
  by (subst insert_episodes_rows) (simp_all add: demo_ep_def episode_row_def upt_rec)

end
