(* ===== verification/Media.thy ===== *)
theory Media
  imports Rules
begin

section \<open>Media as JSON\<close>

text \<open>
  \<open>src/backend-rs/src/media.rs\<close>: a media row as the server prints it, with the links into Radarr,
  Sonarr, Plex, Jellyfin and Tautulli it derives from the settings. Parameters: \<open>num\<close> prints a number,
  \<open>plugin\<close> says whether the server runs as a plugin inside Jellyfin, \<open>progress\<close> are the items of the
  download tracker. \<open>build_url\<close> is of \<open>servarr.rs\<close>, \<open>plugin_link_host\<close> of \<open>runtime/mod.rs\<close>.
\<close>

type_synonym downloads = "bool \<Rightarrow> int \<Rightarrow> int \<Rightarrow> json list"

definition PLEX :: int where "PLEX = 1"
definition EMBY :: int where "EMBY = 3"

fun loose_eq :: "json option \<Rightarrow> int \<Rightarrow> bool" where
  "loose_eq (Some (JInt i)) n = (as_i64 (JInt i) = Some n)"
| "loose_eq (Some (JStr s)) n = (parse_i64 (trim s) = Some n)"
| "loose_eq (Some (JBool b)) n = ((if b then 1 else 0) = n)"
| "loose_eq _ n = False"

definition build_url :: "(json \<Rightarrow> string) \<Rightarrow> json \<Rightarrow> string \<Rightarrow> string" where
  "build_url num server path =
     (let scheme = (if truthy (jget server ''useSsl'') then ''https'' else ''http'');
          base = (case jget server ''baseUrl'' of
                    None \<Rightarrow> [] | Some JNull \<Rightarrow> [] | other \<Rightarrow> js_string num other)
      in scheme @ ''://'' @ js_string num (jget server ''hostname'') @ '':'' @
         js_string num (jget server ''port'') @ base @ path)"

definition plugin_link_host :: "(json \<Rightarrow> string) \<Rightarrow> bool \<Rightarrow> json \<Rightarrow> string option" where
  "plugin_link_host num plugin settings =
     (if \<not> plugin then None
      else Some (case jpath [''jellyfin'', ''urlBase''] settings of
        None \<Rightarrow> [] | Some JNull \<Rightarrow> [] | other \<Rightarrow> js_string num other))"

subsection \<open>Links\<close>

record links =
  li_service_url :: "string option"
  li_service_url4k :: "string option"
  li_media_url :: "string option"
  li_media_url4k :: "string option"
  li_ios_plex_url :: "string option"
  li_ios_plex_url4k :: "string option"
  li_tautulli_url :: "string option"
  li_tautulli_url4k :: "string option"

definition service_url ::
  "(json \<Rightarrow> string) \<Rightarrow> json \<Rightarrow> string \<Rightarrow> int option \<Rightarrow> string option \<Rightarrow> string option" where
  "service_url num settings mt service_id slug =
     (case (if mt = ''movie'' then Some (''radarr'', ''movie'')
            else if mt = ''tv'' then Some (''sonarr'', ''series'') else None) of
        None \<Rightarrow> None
      | Some (section, segment) \<Rightarrow>
          (case (service_id, slug) of
             (Some i, Some slug) \<Rightarrow>
               Option.bind (Option.bind (jpath [section] settings) as_array) (\<lambda>servers.
               Option.bind (find (\<lambda>s. Option.bind (jget s ''id'') as_i64 = Some i) servers) (\<lambda>server.
                 let path = ''/'' @ segment @ ''/'' @ slug;
                     external = jget server ''externalUrl''
                 in if truthy external then Some (js_string num external @ path)
                    else Some (build_url num server path)))
           | _ \<Rightarrow> None))"

text \<open>The links of one rating key: Plex web, Plex iOS, Tautulli.\<close>

definition plex_links ::
  "string \<Rightarrow> string \<Rightarrow> (json \<Rightarrow> string) \<Rightarrow> json option \<Rightarrow> string option
     \<Rightarrow> string option \<times> string option \<times> string option" where
  "plex_links web_app machine num tautulli key =
     (case opt_filter (\<lambda>k. k \<noteq> []) key of
        None \<Rightarrow> (None, None, None)
      | Some k \<Rightarrow>
          (Some (web_app @ ''#!/server/'' @ machine @ ''/details?key=%2Flibrary%2Fmetadata%2F'' @ k),
           Some (''plex://preplay/?metadataKey=%2Flibrary%2Fmetadata%2F'' @ k @ ''&server='' @ machine),
           if truthy tautulli then Some (js_string num tautulli @ ''/info?rating_key='' @ k) else None))"

definition jellyfin_link :: "string \<Rightarrow> string \<Rightarrow> string \<Rightarrow> string option \<Rightarrow> string option" where
  "jellyfin_link host page server_id key =
     map_option (\<lambda>k. host @ ''/web/index.html#!/'' @ page @ ''?id='' @ k @ ''&context=home&serverId='' @ server_id)
       (opt_filter (\<lambda>k. k \<noteq> []) key)"

definition jellyfin_host :: "(json \<Rightarrow> string) \<Rightarrow> bool \<Rightarrow> json \<Rightarrow> string" where
  "jellyfin_host num plugin settings =
     (let external = jpath [''jellyfin'', ''externalHostname''] settings;
          setting = (\<lambda>k. js_string num (jpath [''jellyfin'', k] settings))
      in if truthy external then js_string num external
         else case plugin_link_host num plugin settings of
           Some host \<Rightarrow> host
         | None \<Rightarrow>
             (if truthy (jpath [''jellyfin'', ''useSsl''] settings) then ''https'' else ''http'') @
             ''://'' @ setting ''ip'' @ '':'' @ setting ''port'' @ setting ''urlBase'')"

definition links_of :: "(json \<Rightarrow> string) \<Rightarrow> bool \<Rightarrow> media_row \<Rightarrow> json \<Rightarrow> links" where
  "links_of num plugin row settings =
     (let l = \<lparr>li_service_url = service_url num settings (m_media_type row) (m_service_id row)
                 (m_external_service_slug row),
               li_service_url4k = service_url num settings (m_media_type row) (m_service_id4k row)
                 (m_external_service_slug4k row),
               li_media_url = None, li_media_url4k = None, li_ios_plex_url = None, li_ios_plex_url4k = None,
               li_tautulli_url = None, li_tautulli_url4k = None\<rparr>;
          server_type = jpath [''main'', ''mediaServerType''] settings
      in if loose_eq server_type PLEX then
           let machine = js_string num (jpath [''plex'', ''machineId''] settings);
               web_app = jpath [''plex'', ''webAppUrl''] settings;
               web = (if truthy web_app then js_string num web_app else ''https://app.plex.tv/desktop'');
               tautulli = jpath [''tautulli'', ''externalUrl''] settings;
               (media, ios, taut) = plex_links web machine num tautulli (m_rating_key row);
               (media4k, ios4k, taut4k) = plex_links web machine num tautulli (m_rating_key4k row)
           in l\<lparr>li_media_url := media, li_ios_plex_url := ios, li_tautulli_url := taut,
                li_media_url4k := media4k, li_ios_plex_url4k := ios4k, li_tautulli_url4k := taut4k\<rparr>
         else
           let page = (if loose_eq server_type EMBY then ''item'' else ''details'');
               server_id = js_string num (jpath [''jellyfin'', ''serverId''] settings);
               host = jellyfin_host num plugin settings
           in l\<lparr>li_media_url := jellyfin_link host page server_id (m_jellyfin_media_id row),
                li_media_url4k := jellyfin_link host page server_id (m_jellyfin_media_id4k row)\<rparr>)"

definition media_url :: "(json \<Rightarrow> string) \<Rightarrow> bool \<Rightarrow> media_row \<Rightarrow> json \<Rightarrow> bool \<Rightarrow> string option" where
  "media_url num plugin row settings four_k =
     (if four_k then li_media_url4k (links_of num plugin row settings)
      else li_media_url (links_of num plugin row settings))"

subsection \<open>The answer\<close>

definition tracks_downloads :: "media_row \<Rightarrow> bool" where
  "tracks_downloads row \<longleftrightarrow> (m_media_type row = ''movie'' \<or> m_media_type row = ''tv'') \<and>
     ((m_service_id row \<noteq> None \<and> m_external_service_id row \<noteq> None) \<or>
      (m_service_id4k row \<noteq> None \<and> m_external_service_id4k row \<noteq> None))"

definition progress :: "media_row \<Rightarrow> downloads \<Rightarrow> bool \<Rightarrow> json list" where
  "progress row items four_k =
     (case (if m_media_type row = ''movie'' then Some False
            else if m_media_type row = ''tv'' then Some True else None) of
        None \<Rightarrow> []
      | Some tv \<Rightarrow>
          (case (if four_k then (m_service_id4k row, m_external_service_id4k row)
                 else (m_service_id row, m_external_service_id row)) of
             (Some service, Some external) \<Rightarrow> items tv service external
           | _ \<Rightarrow> []))"

definition insert_text :: "string \<Rightarrow> string option \<Rightarrow> jmap \<Rightarrow> jmap" where
  "insert_text key v out = (case v of None \<Rightarrow> out | Some s \<Rightarrow> obj_insert key (JStr s) out)"

definition put_entries :: "(string \<times> json) list \<Rightarrow> jmap \<Rightarrow> jmap" where
  "put_entries es out = fold (\<lambda>(k, v). obj_insert k v) es out"

definition season_json :: "season_row \<Rightarrow> json" where
  "season_json s =
     JObj (put_entries
       [(''id'', JInt (sn_id s)), (''seasonNumber'', JInt (sn_season_number s)),
        (''status'', JInt (sn_status s)), (''status4k'', JInt (sn_status4k s)),
        (''createdAt'', j_text (sn_created_at s)), (''updatedAt'', j_text (sn_updated_at s))] [])"

definition media_json :: "(json \<Rightarrow> string) \<Rightarrow> bool \<Rightarrow> media_row \<Rightarrow> json \<Rightarrow> downloads \<Rightarrow> bool \<Rightarrow> json" where
  "media_json num plugin row settings items with_seasons =
     (let l = links_of num plugin row settings;
          out = insert_text ''serviceUrl4k'' (li_service_url4k l)
            (insert_text ''serviceUrl'' (li_service_url l) []);
          out = put_entries [(''downloadStatus'', JArr (progress row items False)),
            (''downloadStatus4k'', JArr (progress row items True))] out;
          out = fold (\<lambda>(k, v). insert_text k v)
            [(''mediaUrl'', li_media_url l), (''mediaUrl4k'', li_media_url4k l),
             (''iOSPlexUrl'', li_ios_plex_url l), (''iOSPlexUrl4k'', li_ios_plex_url4k l),
             (''tautulliUrl'', li_tautulli_url l), (''tautulliUrl4k'', li_tautulli_url4k l)] out;
          out = put_entries
            [(''id'', JInt (m_id row)), (''mediaType'', JStr (m_media_type row)),
             (''tmdbId'', JInt (m_tmdb_id row)), (''tvdbId'', j_number (m_tvdb_id row)),
             (''imdbId'', j_text (m_imdb_id row)), (''status'', JInt (m_status row)),
             (''status4k'', JInt (m_status4k row)), (''createdAt'', j_text (m_created_at row)),
             (''updatedAt'', j_text (m_updated_at row)),
             (''lastSeasonChange'', j_text (m_last_season_change row)),
             (''mediaAddedAt'', j_text (m_media_added_at row)),
             (''serviceId'', j_number (m_service_id row)),
             (''serviceId4k'', j_number (m_service_id4k row)),
             (''externalServiceId'', j_number (m_external_service_id row)),
             (''externalServiceId4k'', j_number (m_external_service_id4k row)),
             (''externalServiceSlug'', j_text (m_external_service_slug row)),
             (''externalServiceSlug4k'', j_text (m_external_service_slug4k row)),
             (''ratingKey'', j_text (m_rating_key row)),
             (''ratingKey4k'', j_text (m_rating_key4k row)),
             (''jellyfinMediaId'', j_text (m_jellyfin_media_id row)),
             (''jellyfinMediaId4k'', j_text (m_jellyfin_media_id4k row))] out
      in JObj (if with_seasons then obj_insert ''seasons'' (JArr (map season_json (m_seasons row))) out else out))"

subsection \<open>What the answer carries\<close>

lemma put_entries_obj: "put_entries es out = obj.put_all es out"
  by (simp add: put_entries_def obj.put_all_def)

lemma obj_get_put_entries:
  "obj_get (put_entries es out) k = (case map_of (rev es) k of Some v \<Rightarrow> Some v | None \<Rightarrow> obj_get out k)"
  unfolding put_entries_obj by (rule obj.lookup_put_all)

lemma obj_get_insert_text:
  "obj_get (insert_text key v out) k = (if k = key \<and> v \<noteq> None then map_option JStr v else obj_get out k)"
  by (cases v) (auto simp: insert_text_def obj_get_insert)

text \<open>
  What a media row tells of itself: the statuses, ids and dates of the row; a link exactly where one
  is derived; the tracker's items of each quality; the seasons only where they were asked for.
\<close>

theorem media_json_answers:
  "jget (media_json num plugin row settings items with) ''status'' = Some (JInt (m_status row)) \<and>
   jget (media_json num plugin row settings items with) ''status4k'' = Some (JInt (m_status4k row)) \<and>
   jget (media_json num plugin row settings items with) ''tmdbId'' = Some (JInt (m_tmdb_id row)) \<and>
   jget (media_json num plugin row settings items with) ''downloadStatus'' = Some (JArr (progress row items False)) \<and>
   jget (media_json num plugin row settings items with) ''downloadStatus4k'' = Some (JArr (progress row items True)) \<and>
   jget (media_json num plugin row settings items with) ''serviceUrl'' =
     map_option JStr (service_url num settings (m_media_type row) (m_service_id row) (m_external_service_slug row)) \<and>
   jget (media_json num plugin row settings items with) ''mediaUrl'' =
     map_option JStr (media_url num plugin row settings False) \<and>
   jget (media_json num plugin row settings items with) ''mediaUrl4k'' =
     map_option JStr (media_url num plugin row settings True) \<and>
   jget (media_json num plugin row settings items with) ''seasons'' =
     (if with then Some (JArr (map season_json (m_seasons row))) else None)"
proof -
  have "li_service_url (links_of num plugin row settings) =
      service_url num settings (m_media_type row) (m_service_id row) (m_external_service_slug row)"
    by (simp add: links_of_def Let_def split_def)
  then show ?thesis
    by (simp add: media_json_def Let_def obj_get_insert obj_get_put_entries obj_get_insert_text media_url_def)
qed

end
