(* ===== verification/UserJson.thy ===== *)
theory UserJson
  imports Rows
begin

section \<open>Users as JSON\<close>

text \<open>
  \<open>src/backend-rs/src/user.rs\<close>: what the server tells of a user. \<open>public_json\<close> is the viewer's own
  profile, \<open>filtered_json\<close> any user as another user sees them, \<open>embedded_json\<close> a user inside another
  entity's answer. The settings columns stored as JSON text are read by \<open>serde_json\<close>, which is the
  parameter \<open>parse\<close> (\<open>None\<close> where it fails); permissions print as the signed value of their bits.
\<close>

record user_settings_row =
  us_locale :: string
  us_discover_region :: "string option"
  us_streaming_region :: "string option"
  us_original_language :: "string option"
  us_notification_types :: "string option"
  us_watchlist_sync_movies :: "bool option"
  us_watchlist_sync_tv :: "bool option"
  us_skipped_endings :: "bool option"
  us_skipped_threshold :: "int option"
  us_watch_ahead_episode_count :: "int option"
  us_interventions_seen_at :: "string option"
  us_discover_filter_defaults :: "string option"

record user_settings_record =
  ur_id :: int
  ur_public :: user_settings_row
  ur_pgp_key :: "string option"
  ur_discord_ids :: "string option"
  ur_pushbullet_access_token :: "string option"
  ur_pushover_application_token :: "string option"
  ur_pushover_user_key :: "string option"
  ur_pushover_sound :: "string option"
  ur_telegram_chat_id :: "string option"
  ur_telegram_message_thread_id :: "string option"
  ur_telegram_send_silently :: "bool option"
  ur_trakt_username :: "string option"
  ur_trakt_user_id :: "string option"
  ur_anilist_username :: "string option"
  ur_anilist_user_id :: "string option"
  ur_simkl_username :: "string option"
  ur_simkl_user_id :: "string option"
  ur_media_actions_trakt_enabled :: "bool option"
  ur_media_actions_anilist_enabled :: "bool option"
  ur_media_actions_simkl_enabled :: "bool option"

record user_profile =
  up_id :: int
  up_email :: "string option"
  up_username :: "string option"
  up_plex_username :: "string option"
  up_jellyfin_username :: "string option"
  up_avatar :: string
  up_permissions :: perms
  up_user_type :: int
  up_created_at :: "string option"
  up_updated_at :: "string option"
  up_plex_id :: "int option"
  up_request_count :: int
  up_settings :: "user_settings_row option"

subsection \<open>Column transformers\<close>

definition ALL_NOTIFICATIONS :: int where "ALL_NOTIFICATIONS = 57342"

definition default_notifications :: jmap where
  "default_notifications =
     [(''email'', JInt ALL_NOTIFICATIONS), (''discord'', JInt 0), (''pushbullet'', JInt 0),
      (''pushover'', JInt 0), (''slack'', JInt 0), (''telegram'', JInt 0), (''webhook'', JInt 0),
      (''webpush'', JInt ALL_NOTIFICATIONS)]"

text \<open>The stored text of a JSON column, when there is one.\<close>

definition stored_text :: "string option \<Rightarrow> string option" where
  "stored_text stored = opt_filter (\<lambda>t. t \<noteq> []) stored"

definition fill_notification :: "string \<Rightarrow> jmap \<Rightarrow> jmap" where
  "fill_notification key m =
     (if obj_get m key = None \<or> obj_get m key = Some JNull
      then obj_insert key (JInt ALL_NOTIFICATIONS) m else m)"

definition notification_types :: "(string \<Rightarrow> json option) \<Rightarrow> string option \<Rightarrow> (string, json) res" where
  "notification_types parse stored =
     (case stored_text stored of
        None \<Rightarrow> Inr (JObj default_notifications)
      | Some text \<Rightarrow>
          (case parse text of
             None \<Rightarrow> Inl ''user_settings.notificationTypes is not JSON''
           | Some JNull \<Rightarrow> Inl ''user_settings.notificationTypes is null''
           | Some (JObj m) \<Rightarrow> Inr (JObj (fill_notification ''webpush'' (fill_notification ''email'' m)))
           | Some (JArr _) \<Rightarrow> Inl ''user_settings.notificationTypes is an array''
           | Some _ \<Rightarrow> Inr (JObj default_notifications)))"

definition FILTER_BOOLEAN_KEYS :: "string list" where
  "FILTER_BOOLEAN_KEYS =
     [''ignoreWatched'', ''ignoreCollected'', ''ignoreWatchlisted'', ''hideUnmapped'', ''includeNoRating'']"

definition FILTER_STRING_KEYS :: "string list" where
  "FILTER_STRING_KEYS =
     [''language'', ''primaryReleaseDateGte'', ''primaryReleaseDateLte'', ''firstAirDateGte'',
      ''firstAirDateLte'', ''genre'', ''voteAverageGte'', ''voteAverageLte'', ''voteCountGte'',
      ''voteCountLte'', ''imdbRatingGte'', ''imdbRatingLte'', ''imdbVotesGte'', ''imdbVotesLte'',
      ''rtCriticsGte'', ''rtCriticsLte'', ''rtAudienceGte'', ''rtAudienceLte'', ''metacriticGte'',
      ''metacriticLte'', ''traktRatingGte'', ''traktRatingLte'']"

text \<open>
  The two loops over the schema keys: a missing key is skipped, a value of the wrong kind ends the
  parse.
\<close>

fun keep_keys :: "(json \<Rightarrow> bool) \<Rightarrow> jmap \<Rightarrow> string list \<Rightarrow> jmap option" where
  "keep_keys good input [] = Some []"
| "keep_keys good input (key # keys) =
     (case obj_get input key of
        None \<Rightarrow> keep_keys good input keys
      | Some v \<Rightarrow>
          if good v then map_option (\<lambda>out. (key, v) # out) (keep_keys good input keys) else None)"

fun filter_bool :: "json \<Rightarrow> bool" where
  "filter_bool (JBool b) = True"
| "filter_bool _ = False"

fun filter_text :: "json \<Rightarrow> bool" where
  "filter_text (JStr s) = (s \<noteq> [])"
| "filter_text _ = False"

definition discover_filter_defaults :: "(string \<Rightarrow> json option) \<Rightarrow> string option \<Rightarrow> json" where
  "discover_filter_defaults parse stored =
     (case Option.bind (stored_text stored) parse of
        Some (JObj input) \<Rightarrow>
          (case (keep_keys filter_bool input FILTER_BOOLEAN_KEYS,
                 keep_keys filter_text input FILTER_STRING_KEYS) of
             (Some bools, Some texts) \<Rightarrow>
               if set (obj_keys input) \<subseteq> set (FILTER_BOOLEAN_KEYS @ FILTER_STRING_KEYS)
               then JObj (bools @ texts) else JObj []
           | _ \<Rightarrow> JObj [])
      | _ \<Rightarrow> JObj [])"

definition discord_ids :: "(string \<Rightarrow> json option) \<Rightarrow> string option \<Rightarrow> json" where
  "discord_ids parse stored = unwrap_or (JArr []) (Option.bind (stored_text stored) parse)"

subsection \<open>Serializers\<close>

definition settings_json :: "(string \<Rightarrow> json option) \<Rightarrow> user_settings_row \<Rightarrow> (string, json) res" where
  "settings_json parse s =
     and_then (notification_types parse (us_notification_types s)) (\<lambda>types.
       Inr (JObj
         [(''locale'', JStr (us_locale s)),
          (''discoverRegion'', j_text (us_discover_region s)),
          (''streamingRegion'', j_text (us_streaming_region s)),
          (''originalLanguage'', j_text (us_original_language s)),
          (''notificationTypes'', types),
          (''watchlistSyncMovies'', j_flag (us_watchlist_sync_movies s)),
          (''watchlistSyncTv'', j_flag (us_watchlist_sync_tv s)),
          (''autoCompleteSkippedEpisodeEndings'', j_flag (us_skipped_endings s)),
          (''autoCompleteSkippedEpisodeThreshold'', j_number (us_skipped_threshold s)),
          (''watchAheadEpisodeCount'', j_number (us_watch_ahead_episode_count s)),
          (''servarrInterventionsSeenAt'', j_text (us_interventions_seen_at s)),
          (''discoverFilterDefaults'', discover_filter_defaults parse (us_discover_filter_defaults s))]))"

text \<open>\<open>username || plexUsername || jellyfinUsername\<close>, then the lowercased email.\<close>

definition first_name :: "string option list \<Rightarrow> string option" where
  "first_name names = Option.bind (find (\<lambda>v. stored_text v \<noteq> None) names) stored_text"

definition email_text :: "string option \<Rightarrow> string" where
  "email_text email = to_lowercase (unwrap_or [] email)"

definition public_json :: "(string \<Rightarrow> json option) \<Rightarrow> user_profile \<Rightarrow> (string, json) res" where
  "public_json parse user =
     and_then (case up_settings user of
         None \<Rightarrow> Inr []
       | Some s \<Rightarrow> and_then (settings_json parse s) (\<lambda>j. Inr [(''settings'', j)])) (\<lambda>settings.
       Inr (JObj (
         [(''id'', JInt (up_id user)),
          (''email'', JStr (email_text (up_email user))),
          (''username'', j_text (up_username user)),
          (''plexUsername'', j_text (up_plex_username user)),
          (''jellyfinUsername'', j_text (up_jellyfin_username user)),
          (''displayName'', JStr (unwrap_or (email_text (up_email user))
             (first_name [up_username user, up_plex_username user, up_jellyfin_username user]))),
          (''avatar'', JStr (up_avatar user)),
          (''permissions'', JInt (sint (up_permissions user))),
          (''userType'', JInt (up_user_type user)),
          (''createdAt'', j_text (up_created_at user)),
          (''updatedAt'', j_text (up_updated_at user)),
          (''requestCount'', JInt (up_request_count user)),
          (''warnings'', JArr []),
          (''plexId'', j_number (up_plex_id user))] @ settings)))"

definition settings_record_json ::
  "(string \<Rightarrow> json option) \<Rightarrow> user_settings_record \<Rightarrow> (string, json) res" where
  "settings_record_json parse s =
     (let p = ur_public s
      in and_then (notification_types parse (us_notification_types p)) (\<lambda>types.
       Inr (JObj
         [(''id'', JInt (ur_id s)),
          (''locale'', JStr (us_locale p)),
          (''discoverRegion'', j_text (us_discover_region p)),
          (''streamingRegion'', j_text (us_streaming_region p)),
          (''originalLanguage'', j_text (us_original_language p)),
          (''pgpKey'', j_text (ur_pgp_key s)),
          (''discordIds'', discord_ids parse (ur_discord_ids s)),
          (''pushbulletAccessToken'', j_text (ur_pushbullet_access_token s)),
          (''pushoverApplicationToken'', j_text (ur_pushover_application_token s)),
          (''pushoverUserKey'', j_text (ur_pushover_user_key s)),
          (''pushoverSound'', j_text (ur_pushover_sound s)),
          (''telegramChatId'', j_text (ur_telegram_chat_id s)),
          (''telegramMessageThreadId'', j_text (ur_telegram_message_thread_id s)),
          (''telegramSendSilently'', j_flag (ur_telegram_send_silently s)),
          (''watchlistSyncMovies'', j_flag (us_watchlist_sync_movies p)),
          (''watchlistSyncTv'', j_flag (us_watchlist_sync_tv p)),
          (''autoCompleteSkippedEpisodeEndings'', j_flag (us_skipped_endings p)),
          (''autoCompleteSkippedEpisodeThreshold'', j_number (us_skipped_threshold p)),
          (''watchAheadEpisodeCount'', j_number (us_watch_ahead_episode_count p)),
          (''servarrInterventionsSeenAt'', j_text (us_interventions_seen_at p)),
          (''traktUsername'', j_text (ur_trakt_username s)),
          (''traktUserId'', j_text (ur_trakt_user_id s)),
          (''anilistUsername'', j_text (ur_anilist_username s)),
          (''anilistUserId'', j_text (ur_anilist_user_id s)),
          (''simklUsername'', j_text (ur_simkl_username s)),
          (''simklUserId'', j_text (ur_simkl_user_id s)),
          (''mediaActionsTraktEnabled'', j_flag (ur_media_actions_trakt_enabled s)),
          (''mediaActionsAnilistEnabled'', j_flag (ur_media_actions_anilist_enabled s)),
          (''mediaActionsSimklEnabled'', j_flag (ur_media_actions_simkl_enabled s)),
          (''discoverFilterDefaults'', discover_filter_defaults parse (us_discover_filter_defaults p)),
          (''notificationTypes'', types)])))"

definition filtered_json ::
  "(string \<Rightarrow> json option) \<Rightarrow> user_record \<Rightarrow> user_settings_record option option \<Rightarrow> bool
     \<Rightarrow> (string, json) res" where
  "filtered_json parse user settings show_filtered =
     and_then
       (if show_filtered then
          (case settings of
             None \<Rightarrow> Inr []
           | Some None \<Rightarrow> Inr [(''settings'', JNull)]
           | Some (Some s) \<Rightarrow> and_then (settings_record_json parse s) (\<lambda>j. Inr [(''settings'', j)]))
        else Inr []) (\<lambda>loaded.
       Inr (JObj (
         [(''displayName'', JStr (unwrap_or (email_text (u_email user))
             (first_name [u_username user, u_plex_username user, u_jellyfin_username user]))),
          (''warnings'', JArr []),
          (''permissions'', JInt (sint (u_permissions user))),
          (''id'', JInt (u_id user))] @
         (if show_filtered then [(''email'', JStr (email_text (u_email user)))] else []) @
         [(''plexUsername'', j_text (u_plex_username user)),
          (''jellyfinUsername'', j_text (u_jellyfin_username user)),
          (''username'', j_text (u_username user)),
          (''recoveryLinkExpirationDate'', j_text (u_recovery_link_expiration_date user)),
          (''userType'', JInt (u_user_type user))] @
         (if show_filtered then [(''plexId'', j_number (u_plex_id user))] else []) @
         [(''jellyfinUserId'', j_text (u_jellyfin_user_id user)),
          (''avatar'', JStr (u_avatar user)),
          (''avatarETag'', j_text (u_avatar_etag user)),
          (''avatarVersion'', j_text (u_avatar_version user)),
          (''movieQuotaLimit'', j_number (u_movie_quota_limit user)),
          (''movieQuotaDays'', j_number (u_movie_quota_days user)),
          (''tvQuotaLimit'', j_number (u_tv_quota_limit user)),
          (''tvQuotaDays'', j_number (u_tv_quota_days user)),
          (''createdAt'', j_text (u_created_at user)),
          (''updatedAt'', j_text (u_updated_at user))] @
         loaded @
         [(''requestCount'', JInt (u_request_count user))])))"

definition embedded_json :: "(string \<Rightarrow> json option) \<Rightarrow> user_record \<Rightarrow> (string, json) res" where
  "embedded_json parse user = filtered_json parse user None True"

subsection \<open>What another user is told\<close>

text \<open>
  C40 A user who has a name is shown to others without the email, the Plex id and the settings: none of
  the three is a key of the answer, and the answer is the same whatever they are.
\<close>

theorem filtered_json_private:
  assumes "first_name [u_username user, u_plex_username user, u_jellyfin_username user] = Some name"
  shows "filtered_json parse (user\<lparr>u_email := email, u_plex_id := plex\<rparr>) loaded False =
      filtered_json parse user settings False \<and>
    (\<exists>j. filtered_json parse user settings False = Inr j \<and>
       list_all (\<lambda>k. jget j k = None) [''email'', ''plexId'', ''settings''])"
  using assms by (simp add: filtered_json_def obj_get_append)

definition plain_user :: user_record where
  "plain_user = \<lparr>u_id = 2, u_email = Some ''Ann@Home.example'', u_plex_username = None,
     u_jellyfin_username = Some [], u_username = None, u_recovery_link_expiration_date = None,
     u_user_type = 1, u_plex_id = Some 77, u_jellyfin_user_id = None, u_permissions = 32,
     u_avatar = ''/a.png'', u_avatar_etag = None, u_avatar_version = None, u_movie_quota_limit = None,
     u_movie_quota_days = None, u_tv_quota_limit = None, u_tv_quota_days = None,
     u_created_at = None, u_updated_at = None, u_request_count = 0\<rparr>"

theorem filtered_json_private_witness:
  "filtered_json (\<lambda>_. None) (plain_user\<lparr>u_username := Some ''ann'', u_email := None, u_plex_id := None\<rparr>) None False =
   filtered_json (\<lambda>_. None) (plain_user\<lparr>u_username := Some ''ann''\<rparr>) (Some None) False"
  using filtered_json_private [of "plain_user\<lparr>u_username := Some ''ann''\<rparr>" "''ann''" "\<lambda>_. None" None None
      None "Some None"]
  by (simp add: first_name_def stored_text_def)

text \<open>
  A user without any name is shown to everybody, the filtered form included, under the lowercased
  email as the display name.
\<close>

theorem filtered_json_email_fallback:
  assumes "first_name [u_username user, u_plex_username user, u_jellyfin_username user] = None"
  shows "\<exists>j. filtered_json parse user settings False = Inr j \<and>
    jget j ''displayName'' = Some (JStr (to_lowercase (unwrap_or [] (u_email user))))"
  using assms by (simp add: filtered_json_def email_text_def)

theorem filtered_json_email_fallback_witness:
  "\<exists>j. filtered_json (\<lambda>_. None) plain_user None False = Inr j \<and>
     jget j ''displayName'' = Some (JStr ''ann@home.example'')"
proof -
  have "first_name [u_username plain_user, u_plex_username plain_user, u_jellyfin_username plain_user] = None"
    by (simp add: first_name_def stored_text_def plain_user_def)
  from filtered_json_email_fallback [OF this, of "\<lambda>_. None" None] obtain j where
    "filtered_json (\<lambda>_. None) plain_user None False = Inr j"
    "jget j ''displayName'' = Some (JStr (to_lowercase (unwrap_or [] (u_email plain_user))))" by blast
  moreover have "to_lowercase (unwrap_or [] (u_email plain_user)) = ''ann@home.example''" by code_simp
  ultimately show ?thesis by simp
qed

subsection \<open>Column transformers, closed\<close>

lemma obj_get_fill:
  "obj_get (fill_notification key m) k =
     (if k = key \<and> (obj_get m key = None \<or> obj_get m key = Some JNull)
      then Some (JInt ALL_NOTIFICATIONS) else obj_get m k)"
  by (simp add: fill_notification_def obj_get_insert)

text \<open>
  A stored object of notification types comes back with every value it has, the email and the web
  push types filled in where they are missing or null.
\<close>

theorem notification_types_fill:
  assumes "parse text = Some (JObj m)" "text \<noteq> []"
  shows "\<exists>out. notification_types parse (Some text) = Inr (JObj out) \<and>
    (\<forall>k. obj_get out k =
      (if k \<in> {''email'', ''webpush''} \<and> obj_get m k \<in> {None, Some JNull}
       then Some (JInt 57342) else obj_get m k))"
  using assms
  by (auto simp: notification_types_def stored_text_def obj_get_fill ALL_NOTIFICATIONS_def)

theorem notification_types_fill_witness:
  "\<exists>out. notification_types (\<lambda>_. Some (JObj [(''email'', JNull), (''slack'', JInt 4)])) (Some ''{}'') = Inr (JObj out) \<and>
     obj_get out ''email'' = Some (JInt 57342) \<and> obj_get out ''slack'' = Some (JInt 4)"
  using notification_types_fill [of "\<lambda>_. Some (JObj [(''email'', JNull), (''slack'', JInt 4)])" "''{}''"
      "[(''email'', JNull), (''slack'', JInt 4)]"]
  by fastforce

lemma keep_keys_get:
  "keep_keys good input keys = Some out \<Longrightarrow> obj_get out k = (if k \<in> set keys then obj_get input k else None)"
  by (induction keys arbitrary: out) (auto split: option.splits if_splits)

lemma keep_keys_good:
  "keep_keys good input keys = Some out \<Longrightarrow> obj_get out k = Some v \<Longrightarrow> good v"
  by (induction keys arbitrary: out) (auto split: option.splits if_splits)

lemma keep_keys_keys:
  "keep_keys good input keys = Some out \<Longrightarrow> set (obj_keys out) \<subseteq> set keys"
  by (induction keys arbitrary: out) (fastforce simp: obj_keys_def split: option.splits if_splits)+

lemma keep_keys_cong:
  "\<forall>k \<in> set keys. obj_get a k = obj_get b k \<Longrightarrow> keep_keys good a keys = keep_keys good b keys"
  by (induction keys) (auto split: option.splits)

lemma filter_keys_disjoint: "set FILTER_BOOLEAN_KEYS \<inter> set FILTER_STRING_KEYS = {}"
  by code_simp

lemma keep_keys_again:
  assumes b: "keep_keys filter_bool input FILTER_BOOLEAN_KEYS = Some bools"
    and t: "keep_keys filter_text input FILTER_STRING_KEYS = Some texts"
  shows "keep_keys filter_bool (bools @ texts) FILTER_BOOLEAN_KEYS = Some bools"
    and "keep_keys filter_text (bools @ texts) FILTER_STRING_KEYS = Some texts"
    and "set (obj_keys (bools @ texts)) \<subseteq> set (FILTER_BOOLEAN_KEYS @ FILTER_STRING_KEYS)"
proof -
  have "\<forall>k \<in> set FILTER_BOOLEAN_KEYS. obj_get (bools @ texts) k = obj_get input k"
    using keep_keys_get [OF b] keep_keys_get [OF t] filter_keys_disjoint
    by (auto simp: obj_get_append split: option.splits)
  from keep_keys_cong [OF this] show "keep_keys filter_bool (bools @ texts) FILTER_BOOLEAN_KEYS = Some bools"
    using b by simp
  have "\<forall>k \<in> set FILTER_STRING_KEYS. obj_get (bools @ texts) k = obj_get input k"
    using keep_keys_get [OF b] keep_keys_get [OF t] filter_keys_disjoint
    by (auto simp: obj_get_append split: option.splits)
  from keep_keys_cong [OF this] show "keep_keys filter_text (bools @ texts) FILTER_STRING_KEYS = Some texts"
    using t by simp
  show "set (obj_keys (bools @ texts)) \<subseteq> set (FILTER_BOOLEAN_KEYS @ FILTER_STRING_KEYS)"
    using keep_keys_keys [OF b] keep_keys_keys [OF t] by (auto simp: obj_keys_def)
qed

lemma discover_filter_again:
  assumes "keep_keys filter_bool input FILTER_BOOLEAN_KEYS = Some bools"
    and "keep_keys filter_text input FILTER_STRING_KEYS = Some texts"
    and "parse text = Some (JObj (bools @ texts))" "text \<noteq> []"
  shows "discover_filter_defaults parse (Some text) = JObj (bools @ texts)"
  using keep_keys_again [OF assms(1,2)] assms(3,4)
  by (simp add: discover_filter_defaults_def stored_text_def)

lemma keep_keys_empty: "keep_keys good [] keys = Some []"
  by (induction keys) auto

lemma discover_filter_cases:
  "discover_filter_defaults parse stored = JObj [] \<or>
   (\<exists>input bools texts. keep_keys filter_bool input FILTER_BOOLEAN_KEYS = Some bools \<and>
      keep_keys filter_text input FILTER_STRING_KEYS = Some texts \<and>
      discover_filter_defaults parse stored = JObj (bools @ texts))"
  by (auto simp: discover_filter_defaults_def split: option.splits json.splits)

text \<open>
  The discover filters read from a column are a normal form: every key is a known one with a value of
  its kind, and storing the result and reading it again gives it back.
\<close>

theorem discover_filter_normal:
  assumes "parse text' = Some (discover_filter_defaults parse stored)" "text' \<noteq> []"
  shows "discover_filter_defaults parse (Some text') = discover_filter_defaults parse stored \<and>
    (\<exists>m. discover_filter_defaults parse stored = JObj m \<and>
      (\<forall>k v. obj_get m k = Some v \<longrightarrow>
         (k \<in> set FILTER_BOOLEAN_KEYS \<and> filter_bool v) \<or> (k \<in> set FILTER_STRING_KEYS \<and> filter_text v)))"
  using discover_filter_cases [of parse stored]
proof
  assume e: "discover_filter_defaults parse stored = JObj []"
  then have "discover_filter_defaults parse (Some text') = JObj []"
    using assms by (simp add: discover_filter_defaults_def stored_text_def keep_keys_empty)
  then show ?thesis using e by simp
next
  assume "\<exists>input bools texts. keep_keys filter_bool input FILTER_BOOLEAN_KEYS = Some bools \<and>
      keep_keys filter_text input FILTER_STRING_KEYS = Some texts \<and>
      discover_filter_defaults parse stored = JObj (bools @ texts)"
  then obtain input bools texts where
    b: "keep_keys filter_bool input FILTER_BOOLEAN_KEYS = Some bools" and
    t: "keep_keys filter_text input FILTER_STRING_KEYS = Some texts" and
    out: "discover_filter_defaults parse stored = JObj (bools @ texts)" by blast
  have "discover_filter_defaults parse (Some text') = JObj (bools @ texts)"
    using discover_filter_again [OF b t] assms out by simp
  moreover have "(k \<in> set FILTER_BOOLEAN_KEYS \<and> filter_bool v) \<or> (k \<in> set FILTER_STRING_KEYS \<and> filter_text v)"
    if "obj_get (bools @ texts) k = Some v" for k v
    using that keep_keys_get [OF b, of k] keep_keys_get [OF t, of k]
      keep_keys_good [OF b, of k v] keep_keys_good [OF t, of k v]
    by (auto simp: obj_get_append split: option.splits if_splits)
  ultimately show ?thesis using out by auto
qed

theorem discover_filter_normal_witness:
  "discover_filter_defaults (\<lambda>_. Some (JObj [(''genre'', JStr ''28'')])) (Some ''x'') =
     JObj [(''genre'', JStr ''28'')]"
proof -
  have "discover_filter_defaults (\<lambda>_. Some (JObj [(''genre'', JStr ''28'')])) (Some ''y'') =
     JObj [(''genre'', JStr ''28'')]"
    by code_simp
  then show ?thesis
    using discover_filter_normal [of "\<lambda>_. Some (JObj [(''genre'', JStr ''28'')])" "''x''" "Some ''y''"] by simp
qed

end
