(* ===== verification/Quota.thy ===== *)
theory Quota
  imports Rows CronLeast
begin

section \<open>Request quotas\<close>

text \<open>
  The quota of \<open>src/backend-rs/src/routes/quota.rs\<close> (\<open>GET /user/:id/quota\<close>) and the one request
  admission counts with (\<open>Quota\<close>, \<open>default_quota\<close> and \<open>quotas\<close> of
  \<open>src/backend-rs/src/routes/requestcreate.rs\<close>, \<open>QuotaWindow\<close> of \<open>db.rs\<close>). The time zone of the
  server, the current time and the stored text of a row's \<open>createdAt\<close> are parameters; the database is
  readable. Limits and counts are \<open>int\<close>s: a stored limit and a count of rows are far from the ends of
  \<open>i64\<close>.
\<close>

subsection \<open>The window\<close>

definition days_before :: "zone \<Rightarrow> int \<Rightarrow> int option \<Rightarrow> utc option" where
  "days_before z now days =
     map_option (\<lambda>d. from_unix_millis (local_days_before z now d)) (opt_filter (\<lambda>d. d \<noteq> 0) days)"

subsection \<open>Limits\<close>

text \<open>A default of the settings file: a whole number or nothing.\<close>

definition default_quota :: "json \<Rightarrow> string list \<Rightarrow> (string, int option) res" where
  "default_quota settings path =
     (case jpath ([''main'', ''defaultQuotas''] @ path) settings of
        None \<Rightarrow> Inr None
      | Some JNull \<Rightarrow> Inr None
      | Some (JInt n) \<Rightarrow> if i64_ok n then Inr (Some n) else Inl ''a fractional quota default''
      | Some (JFloat _) \<Rightarrow> Inl ''a fractional quota default''
      | Some _ \<Rightarrow> Inl ''a quota default that is not a number'')"

definition own_or_default :: "json \<Rightarrow> int option \<Rightarrow> string list \<Rightarrow> (string, int option) res" where
  "own_or_default settings own path =
     (case own of Some v \<Rightarrow> Inr (Some v) | None \<Rightarrow> default_quota settings path)"

subsection \<open>The quota that is reported\<close>

record shown_quota =
  sq_days :: "int option"
  sq_limit :: "int option"
  sq_used :: int

definition shown_quota_json :: "shown_quota \<Rightarrow> json" where
  "shown_quota_json q =
     (let limit = unwrap_or 0 (sq_limit q)
      in JObj (
        (case sq_days q of Some d \<Rightarrow> [(''days'', JInt d)] | None \<Rightarrow> []) @
        (case sq_limit q of Some l \<Rightarrow> [(''limit'', JInt l)] | None \<Rightarrow> []) @
        [(''used'', JInt (sq_used q))] @
        (if limit \<noteq> 0 then [(''remaining'', JInt (max 0 (limit - sq_used q)))] else []) @
        [(''restricted'', JBool (limit \<noteq> 0 \<and> limit - sq_used q \<le> 0))]))"

type_synonym limits = "int option \<times> int option \<times> int option \<times> int option"

definition quota_limits :: "json \<Rightarrow> user_record \<Rightarrow> (string, limits) res" where
  "quota_limits settings user =
     and_then (own_or_default settings (u_movie_quota_limit user) [''movie'', ''quotaLimit'']) (\<lambda>ml.
     and_then (own_or_default settings (u_movie_quota_days user) [''movie'', ''quotaDays'']) (\<lambda>md.
     and_then (own_or_default settings (u_tv_quota_limit user) [''tv'', ''quotaLimit'']) (\<lambda>sl.
     and_then (own_or_default settings (u_tv_quota_days user) [''tv'', ''quotaDays'']) (\<lambda>td.
       Inr (ml, md, sl, td)))))"

definition quota_route ::
  "zone \<Rightarrow> int \<Rightarrow> (request_row \<Rightarrow> string) \<Rightarrow> json \<Rightarrow> db \<Rightarrow> current_user option \<Rightarrow> int \<Rightarrow> outcome" where
  "quota_route z now created settings d viewer uid =
     (case
       and_then (authenticated viewer 0) (\<lambda>viewer.
       and_then (ensure (uid = cu_id viewer \<or>
           has_all_permissions (cu_permissions viewer) (MANAGE_USERS OR MANAGE_REQUESTS))
         (Error 403 ''You do not have permission to view this user's request limits.'')) (\<lambda>_.
       and_then (case user_by_id d uid of Some u \<Rightarrow> Inr u | None \<Rightarrow> Inl (Error 404 ''User not found.'')) (\<lambda>user.
       and_then (forwarding (quota_limits settings user)) (\<lambda>(ml, md, sl, td).
         let bypass = viewer_bypasses (u_permissions user);
             ml = (if bypass then Some 0 else ml);
             sl = (if bypass then Some 0 else sl);
             movie_used = (if unwrap_or 0 ml \<noteq> 0 then movie_quota_used created d uid (days_before z now md) else 0);
             tv_used = (if unwrap_or 0 sl \<noteq> 0 then tv_quota_used created d uid (days_before z now td) else 0)
         in Inr (Reply 200 (JObj
           [(''movie'', shown_quota_json \<lparr>sq_days = md, sq_limit = ml, sq_used = movie_used\<rparr>),
            (''tv'', shown_quota_json \<lparr>sq_days = td, sq_limit = sl, sq_used = tv_used\<rparr>)]))))))
      of Inl out \<Rightarrow> out | Inr out \<Rightarrow> out)"

subsection \<open>The quota requests are admitted with\<close>

record quota =
  q_limit :: int
  q_remaining :: "int option"
  q_restricted :: bool
  q_window_start :: "int option"

definition make_quota :: "zone \<Rightarrow> int \<Rightarrow> int \<Rightarrow> int \<Rightarrow> int option \<Rightarrow> quota" where
  "make_quota z now limit used days =
     \<lparr>q_limit = limit,
      q_remaining = (if limit \<noteq> 0 then Some (max 0 (limit - used)) else None),
      q_restricted = (limit \<noteq> 0 \<and> limit - used \<le> 0),
      q_window_start = map_option (local_days_before z now) (opt_filter (\<lambda>d. d \<noteq> 0) days)\<rparr>"

definition quotas ::
  "zone \<Rightarrow> int \<Rightarrow> (request_row \<Rightarrow> string) \<Rightarrow> json \<Rightarrow> db \<Rightarrow> user_record \<Rightarrow> (string, quota \<times> quota) res" where
  "quotas z now created settings d u =
     (let bypass = has_any (u_permissions u) MANAGE_USERS
      in and_then (if bypass then Inr 0 else
             and_then (own_or_default settings (u_movie_quota_limit u) [''movie'', ''quotaLimit''])
               (\<lambda>l. Inr (unwrap_or 0 l))) (\<lambda>movie_limit.
         and_then (own_or_default settings (u_movie_quota_days u) [''movie'', ''quotaDays'']) (\<lambda>movie_days.
         and_then (if bypass then Inr 0 else
             and_then (own_or_default settings (u_tv_quota_limit u) [''tv'', ''quotaLimit''])
               (\<lambda>l. Inr (unwrap_or 0 l))) (\<lambda>tv_limit.
         and_then (own_or_default settings (u_tv_quota_days u) [''tv'', ''quotaDays'']) (\<lambda>tv_days.
           let movie_used = (if movie_limit = 0 then 0
                 else movie_quota_used created d (u_id u) (days_before z now movie_days));
               tv_used = (if tv_limit = 0 then 0
                 else tv_quota_used created d (u_id u) (days_before z now tv_days))
           in Inr (make_quota z now movie_limit movie_used movie_days,
                   make_quota z now tv_limit tv_used tv_days))))))"

text \<open>\<open>Quota::held_units\<close> and \<open>Quota::edit_exceeds\<close>, the checks of an edit.\<close>

definition held_units :: "quota \<Rightarrow> bool \<Rightarrow> string option \<Rightarrow> int \<Rightarrow> int" where
  "held_units q owner_changing created_at units =
     (let in_window =
            (case q_window_start q of
               None \<Rightarrow> True
             | Some start \<Rightarrow>
                 (case Option.bind created_at parse_date_millis of
                    None \<Rightarrow> False
                  | Some created \<Rightarrow> start < created))
      in if \<not> owner_changing \<and> in_window then units else 0)"

definition edit_exceeds :: "quota \<Rightarrow> bool \<Rightarrow> int \<Rightarrow> int \<Rightarrow> bool" where
  "edit_exceeds q ignore_quota units held \<longleftrightarrow>
     \<not> ignore_quota \<and> q_limit q \<noteq> 0 \<and> unwrap_or 0 (q_remaining q) + held < units"

subsection \<open>What the two agree on\<close>

lemma own_or_default_cases [res_simps]:
  "own_or_default settings (Some v) path = Inr (Some v)"
  by (simp add: own_or_default_def)

definition quota_matches :: "quota \<Rightarrow> json \<Rightarrow> bool" where
  "quota_matches q j \<longleftrightarrow>
     jget j ''remaining'' = map_option JInt (q_remaining q) \<and>
     jget j ''restricted'' = Some (JBool (q_restricted q))"

lemma shown_matches:
  assumes "unwrap_or 0 x = l" "l = 0 \<or> used = used'"
  shows "quota_matches (make_quota z now l used days)
     (shown_quota_json \<lparr>sq_days = md, sq_limit = x, sq_used = used'\<rparr>)"
  using assms
  by (auto simp: quota_matches_def make_quota_def shown_quota_json_def Let_def obj_get_append split: option.splits)

lemma user_by_id_id: "user_by_id d i = Some u \<Longrightarrow> u_id u = i"
  by (auto simp: user_by_id_def find_Some_iff)

lemma quota_limits_Inr:
  "quota_limits settings u = Inr (ml, md, sl, td) \<longleftrightarrow>
     own_or_default settings (u_movie_quota_limit u) [''movie'', ''quotaLimit''] = Inr ml \<and>
     own_or_default settings (u_movie_quota_days u) [''movie'', ''quotaDays''] = Inr md \<and>
     own_or_default settings (u_tv_quota_limit u) [''tv'', ''quotaLimit''] = Inr sl \<and>
     own_or_default settings (u_tv_quota_days u) [''tv'', ''quotaDays''] = Inr td"
  by (auto simp: quota_limits_def res_simps)

lemma authenticated_any: "authenticated (Some u) 0 = Inr u"
  by (simp add: authenticated_def has_permission_def)

text \<open>The limit counted with: none for those who manage users.\<close>

definition limit_of :: "user_record \<Rightarrow> int option \<Rightarrow> int" where
  "limit_of u l = (if viewer_bypasses (u_permissions u) then 0 else unwrap_or 0 l)"

lemma quotas_of_limits:
  assumes "quota_limits settings u = Inr (ml, md, sl, td)"
  shows "quotas z now created settings d u =
    Inr (make_quota z now (limit_of u ml)
           (if limit_of u ml = 0 then 0 else movie_quota_used created d (u_id u) (days_before z now md)) md,
         make_quota z now (limit_of u sl)
           (if limit_of u sl = 0 then 0 else tv_quota_used created d (u_id u) (days_before z now td)) td)"
  using assms
  by (cases "has_any (u_permissions u) MANAGE_USERS")
    (simp_all add: quota_limits_Inr quotas_def Let_def limit_of_def viewer_bypasses_eq)

text \<open>
  C39 The quota a user is shown is the one their requests are admitted with: the same units remain and the
  same restriction holds, for movies and for series, for whoever may see it.
\<close>

theorem quota_route_agrees:
  assumes "quota_limits settings u = Inr limits" "user_by_id d uid = Some u"
    and "cu_id viewer = uid \<or> has_all_permissions (cu_permissions viewer) (MANAGE_USERS OR MANAGE_REQUESTS)"
  shows "\<exists>mq tq m t. quotas z now created settings d u = Inr (mq, tq) \<and>
      quota_route z now created settings d (Some viewer) uid = Reply 200 (JObj [(''movie'', m), (''tv'', t)]) \<and>
      quota_matches mq m \<and> quota_matches tq t"
proof -
  obtain ml md sl td where l: "limits = (ml, md, sl, td)" by (metis prod_cases4)
  note lim = assms(1) [unfolded l]
  have i: "u_id u = uid" using assms(2) by (rule user_by_id_id)
  let ?b = "viewer_bypasses (u_permissions u)"
  let ?ml = "if ?b then Some 0 else ml" and ?sl = "if ?b then Some 0 else sl"
  have m: "unwrap_or 0 ?ml = limit_of u ml" and t: "unwrap_or 0 ?sl = limit_of u sl"
    by (simp_all add: limit_of_def)
  let ?mu = "if limit_of u ml \<noteq> 0 then movie_quota_used created d uid (days_before z now md) else 0"
  let ?tu = "if limit_of u sl \<noteq> 0 then tv_quota_used created d uid (days_before z now td) else 0"
  have g: "ensure (uid = cu_id viewer \<or>
      has_all_permissions (cu_permissions viewer) (MANAGE_USERS OR MANAGE_REQUESTS)) e = Inr ()" for e :: outcome
    using assms(3) by (auto simp: ensure_def)
  have r: "quota_route z now created settings d (Some viewer) uid = Reply 200 (JObj
      [(''movie'', shown_quota_json \<lparr>sq_days = md, sq_limit = ?ml, sq_used = ?mu\<rparr>),
       (''tv'', shown_quota_json \<lparr>sq_days = td, sq_limit = ?sl, sq_used = ?tu\<rparr>)])"
    by (simp add: quota_route_def authenticated_any g assms(2) lim Let_def m t)
  show ?thesis
    by (intro exI conjI, rule quotas_of_limits [OF lim], rule r)
      (rule shown_matches [OF m], simp add: i, rule shown_matches [OF t], simp add: i)
qed

definition quota_user :: user_record where
  "quota_user = \<lparr>u_id = 2, u_email = None, u_plex_username = None, u_jellyfin_username = None,
     u_username = Some ''ann'', u_recovery_link_expiration_date = None, u_user_type = 1, u_plex_id = None,
     u_jellyfin_user_id = None, u_permissions = 32, u_avatar = [], u_avatar_etag = None,
     u_avatar_version = None, u_movie_quota_limit = Some 3, u_movie_quota_days = None,
     u_tv_quota_limit = None, u_tv_quota_days = None, u_created_at = None, u_updated_at = None,
     u_request_count = 0\<rparr>"

definition quota_db :: db where
  "quota_db = \<lparr>media_table = [], request_table = [], rule_table = [], user_table = [quota_user],
     loose_seasons = [], next_media = 1, next_request = 1, next_season_request = 1,
     next_episode_request = 1\<rparr>"

theorem quota_route_agrees_witness:
  "\<exists>mq sq m t. quotas (unix_zone 0) 0 (\<lambda>_. []) JNull quota_db quota_user = Inr (mq, sq) \<and>
      quota_route (unix_zone 0) 0 (\<lambda>_. []) JNull quota_db (Some \<lparr>cu_id = 2, cu_permissions = 32\<rparr>) 2 =
        Reply 200 (JObj [(''movie'', m), (''tv'', t)]) \<and>
      quota_matches mq m \<and> quota_matches sq t"
proof -
  have l: "quota_limits JNull quota_user = Inr (Some 3, None, None, None)"
    by (simp add: quota_limits_Inr quota_user_def own_or_default_def default_quota_def)
  have u: "user_by_id quota_db 2 = Some quota_user"
    by (simp add: user_by_id_def quota_db_def quota_user_def)
  show ?thesis by (rule quota_route_agrees [OF l u]) simp
qed

subsection \<open>Edits\<close>

text \<open>
  An edit that passes the quota check never takes its owner past their limit: with the units the
  request already holds taken out and the new ones in, the count stays within it.
\<close>

theorem edit_within_limit:
  assumes "\<not> edit_exceeds (make_quota z now limit used days) False units held"
    and "limit \<noteq> 0" "used \<le> limit"
  shows "used - held + units \<le> limit"
  using assms by (simp add: edit_exceeds_def make_quota_def)

theorem edit_within_limit_witness: "(3::int) - held_units (make_quota (unix_zone 0) 0 5 3 None) False None 2 + 4 \<le> 5"
proof -
  have h: "held_units (make_quota (unix_zone 0) 0 5 3 None) False None 2 = 2"
    by (simp add: held_units_def make_quota_def)
  show ?thesis
    unfolding h by (rule edit_within_limit [of "unix_zone 0" 0 5 3 None]) (simp_all add: edit_exceeds_def make_quota_def)
qed

text \<open>
  The units an edit may take again are the request's own, and only when its owner stays and it was
  created after the window opened.
\<close>

theorem held_units_exact:
  "held_units q owner_changing created units =
     (if \<not> owner_changing \<and>
         (q_window_start q = None \<or>
          (\<exists>start made. q_window_start q = Some start \<and> Option.bind created parse_date_millis = Some made \<and> start < made))
      then units else 0)"
  by (auto simp: held_units_def Let_def split: option.splits)

end
