(* ===== verification/Requests.thy ===== *)
theory Requests
  imports Episodes Quota
begin

section \<open>Creating requests\<close>

text \<open>
  \<open>src/backend-rs/src/routes/requestcreate.rs\<close>: what \<open>POST /request\<close> decides before it writes. The
  body is read, the requester and their permission are settled, quotas, the blocklist and duplicates
  are checked, the routing is chosen, and the seasons or episodes left to request are planned. The
  result is a \<open>prepared\<close> request or the answer that refuses it.

  What the handler reads of its surroundings is the record \<open>env\<close>: the settings, the server's zone and
  clock, and the answers of TMDB, TVDB and Jellyfin. The handler runs under one lock; reading the
  database succeeds.
\<close>

record env =
  e_settings :: json
  e_zone :: zone
  e_now :: int
  e_stamp :: "string option"
  e_created :: "request_row \<Rightarrow> string"
  e_num :: "json \<Rightarrow> string"
  e_pretty :: "json \<Rightarrow> string"
  e_tmdb :: "bool \<Rightarrow> int \<Rightarrow> string \<Rightarrow> (string, json) res"
  e_login :: "(string, unit) res"
  e_tvdb :: "int \<Rightarrow> (string, json list) res"
  e_played :: "int \<Rightarrow> string \<Rightarrow> played_episode list option"
  e_index :: ongoing_index

definition PENDING :: int where "PENDING = 1"
definition APPROVED :: int where "APPROVED = 2"
definition M_UNKNOWN :: int where "M_UNKNOWN = 1"
definition M_PENDING :: int where "M_PENDING = 2"
definition M_PROCESSING :: int where "M_PROCESSING = 3"
definition M_BLOCKLISTED :: int where "M_BLOCKLISTED = 6"
definition M_DELETED :: int where "M_DELETED = 7"

subsection \<open>The body\<close>

datatype seasons_wanted = AllSeasons | SeasonList "int list"

record request_body =
  rb_media_type :: string
  rb_media_id :: int
  rb_tvdb_id :: "int option"
  rb_seasons :: "seasons_wanted option"
  rb_is4k :: bool
  rb_is4k_given :: bool
  rb_server_id :: "int option"
  rb_profile_id :: "int option"
  rb_root_folder :: "string option"
  rb_language_profile_id :: "int option"
  rb_metadata_language_id :: "int option"
  rb_user_id :: "int option"
  rb_ignore_quota :: "bool option"
  rb_tags :: "int list option"
  rb_is_auto_request :: bool
  rb_episode_selection :: "json option"

definition is_movie :: "request_body \<Rightarrow> bool" where
  "is_movie body \<longleftrightarrow> rb_media_type body = ''movie''"

definition int_list :: "json \<Rightarrow> string \<Rightarrow> (string, int list) res" where
  "int_list v what =
     (case as_array v of
        None \<Rightarrow> Inl (what @ '' isn't a list'')
      | Some items \<Rightarrow>
          collect_res (map (\<lambda>i. case as_i64 i of
              Some n \<Rightarrow> Inr n | None \<Rightarrow> Inl (what @ '' has a non-integer'')) items))"

definition parse_seasons :: "jmap \<Rightarrow> (outcome, seasons_wanted option) res" where
  "parse_seasons body =
     (case obj_get body ''seasons'' of
        None \<Rightarrow> Inr None
      | Some v \<Rightarrow>
          if v = JStr ''all'' then Inr (Some AllSeasons)
          else and_then (forwarding (int_list v ''seasons'')) (\<lambda>l.
            if list_ex (\<lambda>n. n < 0) l then Inl (Forward ''a negative season; the validator answers'')
            else Inr (Some (SeasonList l))))"

definition opt_flag :: "jmap \<Rightarrow> string \<Rightarrow> string \<Rightarrow> (outcome, bool option) res" where
  "opt_flag body key why =
     (case obj_get body key of
        None \<Rightarrow> Inr None
      | Some (JBool b) \<Rightarrow> Inr (Some b)
      | Some _ \<Rightarrow> Inl (Forward why))"

definition parse_body :: "jmap \<Rightarrow> (outcome, request_body) res" where
  "parse_body body =
     and_then (parse_seasons body) (\<lambda>seasons.
     and_then (case obj_get body ''userId'' of
         None \<Rightarrow> Inr None | Some JNull \<Rightarrow> Inr None | Some _ \<Rightarrow> body_int body ''userId'') (\<lambda>user_id.
     and_then (opt_flag body ''ignoreQuota'' ''ignoreQuota isn't a boolean'') (\<lambda>ignore_quota.
     and_then (opt_flag body ''is4k'' ''is4k isn't a boolean; the validator's to check'') (\<lambda>is4k.
     and_then (media_type (obj_get body ''mediaType'')) (\<lambda>mt.
     and_then (body_int body ''mediaId'') (\<lambda>mi.
     and_then (case mi of Some i \<Rightarrow> Inr i | None \<Rightarrow> Inl (Fallback 400 ''mediaId is required.'')) (\<lambda>media_id.
     and_then (body_int body ''tvdbId'') (\<lambda>tvdb_id.
     and_then (body_int body ''serverId'') (\<lambda>server_id.
     and_then (body_int body ''profileId'') (\<lambda>profile_id.
     and_then (opt_text body ''rootFolder'') (\<lambda>root_folder.
     and_then (body_int body ''languageProfileId'') (\<lambda>language_profile_id.
     and_then (body_id_assign body ''metadataLanguageId'') (\<lambda>metadata_language.
     and_then (case obj_get body ''tags'' of
         None \<Rightarrow> Inr None
       | Some v \<Rightarrow> and_then (forwarding (int_list v ''tags'')) (\<lambda>l. Inr (Some l))) (\<lambda>tags.
       Inr \<lparr>rb_media_type = mt, rb_media_id = media_id, rb_tvdb_id = tvdb_id, rb_seasons = seasons,
            rb_is4k = unwrap_or False is4k, rb_is4k_given = (is4k \<noteq> None), rb_server_id = server_id,
            rb_profile_id = profile_id, rb_root_folder = root_folder,
            rb_language_profile_id = language_profile_id,
            rb_metadata_language_id = assign_value metadata_language,
            rb_user_id = opt_filter (\<lambda>i. i \<noteq> 0) user_id, rb_ignore_quota = ignore_quota, rb_tags = tags,
            rb_is_auto_request = False,
            rb_episode_selection = obj_get body ''episodeSelection''\<rparr>))))))))))))))"

subsection \<open>The requester\<close>

definition needed_permission :: "bool \<Rightarrow> bool \<Rightarrow> perms" where
  "needed_permission movie four_k =
     (if movie then if four_k then REQUEST_4K OR REQUEST_4K_MOVIE else REQUEST OR REQUEST_MOVIE
      else if four_k then REQUEST_4K OR REQUEST_4K_TV else REQUEST OR REQUEST_TV)"

definition request_user ::
  "db \<Rightarrow> current_user \<Rightarrow> request_body \<Rightarrow> user_record \<Rightarrow> (outcome, user_record) res" where
  "request_user d user body actor =
     and_then
       (case rb_user_id body of
          None \<Rightarrow> Inr actor
        | Some uid \<Rightarrow>
            if \<not> has_all (cu_permissions user) (MANAGE_USERS OR MANAGE_REQUESTS)
            then Inl (Error 403 ''You do not have permission to modify the request user.'')
            else (case user_by_id d uid of
                    Some rel \<Rightarrow> Inr rel
                  | None \<Rightarrow> Inl (Error 500 ''User not found.'')))
       (\<lambda>request_user.
          if \<not> has_any (u_permissions request_user) (needed_permission (is_movie body) (rb_is4k body))
          then Inl (Error 403 (''You do not have permission to make '' @ (if rb_is4k body then ''4K '' else []) @
            (if is_movie body then ''movie'' else ''series'') @ '' requests.''))
          else Inr request_user)"

definition quota_checks :: "current_user \<Rightarrow> request_body \<Rightarrow> quota \<Rightarrow> (string, bool) res" where
  "quota_checks user body q =
     (let can_bypass = has_permission (cu_permissions user) MANAGE_REQUESTS;
          ignore_quota = (rb_ignore_quota body = Some True \<and> can_bypass \<and> 0 < q_limit q)
      in if \<not> ignore_quota then
           if rb_ignore_quota body = Some True \<and> \<not> can_bypass
           then Inl ''You do not have permission to bypass user quota limits.''
           else if q_restricted q
           then Inl (if is_movie body then ''Movie Quota exceeded.'' else ''Series Quota exceeded.'')
           else Inr ignore_quota
         else Inr ignore_quota)"

definition auto_approved :: "current_user \<Rightarrow> bool \<Rightarrow> bool \<Rightarrow> bool" where
  "auto_approved actor movie four_k =
     (let general = (if four_k then AUTO_APPROVE_4K else AUTO_APPROVE);
          specific = (if movie then if four_k then AUTO_APPROVE_4K_MOVIE else AUTO_APPROVE_MOVIE
                      else if four_k then AUTO_APPROVE_4K_TV else AUTO_APPROVE_TV)
      in has_permission (cu_permissions actor) (general OR specific OR MANAGE_REQUESTS))"

subsection \<open>Routing\<close>

record routing =
  ro_server_id :: "int option"
  ro_profile_id :: "int option"
  ro_root_folder :: "string option"
  ro_language_profile_id :: "int option"
  ro_metadata_language_id :: "int option"
  ro_tags :: "int list option"

definition requested_server :: "json \<Rightarrow> request_body \<Rightarrow> bool \<Rightarrow> int option" where
  "requested_server settings body advanced =
     (case opt_filter (\<lambda>i. advanced \<and> 0 \<le> i) (rb_server_id body) of
        None \<Rightarrow> None
      | Some i \<Rightarrow>
          (case Option.bind (jpath [if is_movie body then ''radarr'' else ''sonarr''] settings) as_array of
             None \<Rightarrow> None
           | Some servers \<Rightarrow>
               if list_ex (\<lambda>s. Option.bind (jget s ''id'') as_i64 = Some i \<and>
                    Option.bind (jget s ''is4k'') as_bool = Some (rb_is4k body)) servers
               then Some i else None))"

definition requested_routing :: "request_body \<Rightarrow> bool \<Rightarrow> int option \<Rightarrow> routing" where
  "requested_routing body advanced server_id =
     (let asked_for_server = (advanced \<and> (case rb_server_id body of Some i \<Rightarrow> 0 \<le> i | None \<Rightarrow> False));
          allowed = (advanced \<and> (\<not> asked_for_server \<or> server_id \<noteq> None))
      in \<lparr>ro_server_id = server_id,
          ro_profile_id = opt_filter (\<lambda>_. allowed) (rb_profile_id body),
          ro_root_folder = opt_filter (\<lambda>_. allowed) (rb_root_folder body),
          ro_language_profile_id = opt_filter (\<lambda>_. allowed) (rb_language_profile_id body),
          ro_metadata_language_id =
            opt_filter (\<lambda>_. allowed \<and> \<not> is_movie body) (rb_metadata_language_id body),
          ro_tags = opt_filter (\<lambda>_. allowed) (rb_tags body)\<rparr>)"

definition apply_rule :: "override_rule_row \<Rightarrow> bool \<Rightarrow> routing \<Rightarrow> (string, routing) res" where
  "apply_rule rule advanced r =
     (let keep_root = (advanced \<and> set_text (ro_root_folder r) \<noteq> None);
          keep_profile = (advanced \<and> opt_filter (\<lambda>p. p \<noteq> 0) (ro_profile_id r) \<noteq> None);
          keep_tags = (advanced \<and> ro_tags r \<noteq> None);
          root = opt_filter (\<lambda>t. \<not> keep_root \<and> t \<noteq> []) (ru_root_folder rule);
          profile = opt_filter (\<lambda>p. \<not> keep_profile \<and> p \<noteq> 0) (ru_profile_id rule);
          tags = opt_filter (\<lambda>t. \<not> keep_tags \<and> t \<noteq> []) (ru_tags rule);
          r = (case root of Some t \<Rightarrow> r\<lparr>ro_root_folder := Some t\<rparr> | None \<Rightarrow> r);
          r = (case profile of Some p \<Rightarrow> r\<lparr>ro_profile_id := Some p\<rparr> | None \<Rightarrow> r)
      in case tags of
           None \<Rightarrow> Inr r
         | Some t \<Rightarrow> and_then (rule_numbers t) (\<lambda>ns.
             Inr (r\<lparr>ro_tags := Some (push_unique [] (unwrap_or [] (ro_tags r) @ ns))\<rparr>)))"

definition setting_int :: "json \<Rightarrow> string \<Rightarrow> (string, int option) res" where
  "setting_int server key =
     (case jget server key of
        None \<Rightarrow> Inr None
      | Some JNull \<Rightarrow> Inr None
      | Some v \<Rightarrow>
          (case as_i64 v of
             Some n \<Rightarrow> Inr (Some n)
           | None \<Rightarrow> Inl (''sonarr '' @ key @ '' isn't a whole number'')))"

definition pick_sonarr :: "json list \<Rightarrow> request_body \<Rightarrow> int option \<Rightarrow> json option" where
  "pick_sonarr servers body server_id =
     (case server_id of
        None \<Rightarrow> find (\<lambda>s. truthy (jget s ''isDefault'') \<and>
          Option.bind (jget s ''is4k'') as_bool = Some (rb_is4k body)) servers
      | Some i \<Rightarrow> find (\<lambda>s. Option.bind (jget s ''id'') as_i64 = Some i) servers)"

definition anime_or :: "json \<Rightarrow> bool \<Rightarrow> string \<Rightarrow> string \<Rightarrow> string" where
  "anime_or server anime anime_key key =
     (if anime \<and> truthy (jget server anime_key) then anime_key else key)"

definition sonarr_directory :: "json \<Rightarrow> string \<Rightarrow> (string, string option) res" where
  "sonarr_directory server key =
     (case jget server key of
        None \<Rightarrow> Inr None
      | Some JNull \<Rightarrow> Inr None
      | Some (JStr s) \<Rightarrow> Inr (Some s)
      | Some _ \<Rightarrow> Inl ''a sonarr directory that isn't text'')"

definition sonarr_tags :: "json \<Rightarrow> bool \<Rightarrow> (string, int list) res" where
  "sonarr_tags server anime =
     (case jget server (if anime then ''animeTags'' else ''tags'') of
        Some v \<Rightarrow> if truthy (Some v) then int_list v ''sonarr tags'' else Inr []
      | None \<Rightarrow> Inr [])"

definition sonarr_defaults ::
  "json \<Rightarrow> request_body \<Rightarrow> bool \<Rightarrow> routing \<Rightarrow> (string, routing) res" where
  "sonarr_defaults settings body anime r =
     (let servers = unwrap_or [] (Option.bind (jpath [''sonarr''] settings) as_array)
      in case pick_sonarr servers body (ro_server_id r) of
           None \<Rightarrow> Inr r
         | Some server \<Rightarrow>
             and_then (case ro_server_id r of Some i \<Rightarrow> Inr (Some i) | None \<Rightarrow> setting_int server ''id'') (\<lambda>sid.
             and_then (case ro_profile_id r of
                 Some i \<Rightarrow> Inr (Some i)
               | None \<Rightarrow> setting_int server (anime_or server anime ''activeAnimeProfileId'' ''activeProfileId'')) (\<lambda>pid.
             and_then (case set_text (ro_root_folder r) of
                 Some t \<Rightarrow> Inr (Some t)
               | None \<Rightarrow> sonarr_directory server
                   (anime_or server anime ''activeAnimeDirectory'' ''activeDirectory'')) (\<lambda>root.
             and_then (case ro_language_profile_id r of
                 Some i \<Rightarrow> Inr (Some i)
               | None \<Rightarrow> setting_int server
                   (anime_or server anime ''activeAnimeLanguageProfileId'' ''activeLanguageProfileId'')) (\<lambda>lid.
             and_then (case ro_tags r of
                 Some t \<Rightarrow> Inr t | None \<Rightarrow> sonarr_tags server anime) (\<lambda>tags.
               Inr (r\<lparr>ro_server_id := sid, ro_profile_id := pid, ro_root_folder := root,
                      ro_language_profile_id := lid, ro_tags := Some tags\<rparr>)))))))"

subsection \<open>The title and its other requests\<close>

text \<open>The request rows of the title in the same quality, each with its media row, by id.\<close>

definition same_title :: "db \<Rightarrow> int \<Rightarrow> request_body \<Rightarrow> (request_row \<times> media_row) list" where
  "same_title d tmdb_id body =
     (if \<not> rb_is4k_given body then []
      else List.map_filter (\<lambda>r.
        case Option.bind (r_media_id r) (media_by_id d) of
          None \<Rightarrow> None
        | Some m \<Rightarrow>
            if r_is4k r = rb_is4k body \<and> m_tmdb_id m = tmdb_id \<and> m_media_type m = rb_media_type body
            then Some (r, m) else None) (request_table d))"

definition duplicate :: "(request_row \<times> media_row) list \<Rightarrow> request_body \<Rightarrow> int \<Rightarrow> string option" where
  "duplicate rows body user_id =
     (if is_movie body \<and> (case rows of
           [] \<Rightarrow> False
         | (r, _) # _ \<Rightarrow> \<not> (r_status r = DECLINED \<or> r_status r = COMPLETED))
      then Some ''Request for this media already exists.''
      else if list_ex (\<lambda>(r, m). r_requested_by_id r = Some user_id \<and> r_is_auto_request r \<and>
             (if rb_is4k body then m_status4k m else m_status m) \<noteq> M_DELETED) rows
      then Some ''Auto-request for this media and user already exists.''
      else None)"

record media_plan =
  mp_existing :: "media_row option"
  mp_status :: "int \<times> int"
  mp_tmdb_id :: int
  mp_tvdb_id :: "int option"

definition plan_media :: "media_row option \<Rightarrow> request_body \<Rightarrow> json \<Rightarrow> (string, media_plan) res" where
  "plan_media existing body details =
     (let found = unwrap_or (rb_media_id body) (Option.bind (jget details ''id'') as_i64);
          tvdb = opt_or (rb_tvdb_id body)
            (Option.bind (jpath [''external_ids'', ''tvdb_id''] details) as_i64)
      in case existing of
           None \<Rightarrow>
             let pending = (\<lambda>four_k. if four_k = rb_is4k body then M_PENDING else M_UNKNOWN)
             in Inr \<lparr>mp_existing = None, mp_status = (pending False, pending True),
                     mp_tmdb_id = found, mp_tvdb_id = tvdb\<rparr>
         | Some media \<Rightarrow>
             if m_status media = M_BLOCKLISTED then Inl ''This media is blocklisted.''
             else
               let bump = (\<lambda>status four_k.
                     if four_k = rb_is4k body \<and> (status = M_UNKNOWN \<or> status = M_DELETED)
                     then M_PENDING else status)
               in Inr \<lparr>mp_existing = Some media,
                       mp_status = (bump (m_status media) False, bump (m_status4k media) True),
                       mp_tmdb_id = found, mp_tvdb_id = tvdb\<rparr>)"

subsection \<open>Seasons\<close>

definition active_seasons :: "request_row list \<Rightarrow> int list" where
  "active_seasons requests = concat (map (\<lambda>r. map sr_season_number (r_seasons r)) requests)"

definition active_episode_seasons :: "request_row list \<Rightarrow> int list" where
  "active_episode_seasons requests = concat (map (\<lambda>r. map er_season_number (r_episodes r)) requests)"

definition library_seasons :: "media_row option \<Rightarrow> int list \<Rightarrow> bool \<Rightarrow> int list" where
  "library_seasons media episode_seasons four_k =
     (case media of
        None \<Rightarrow> []
      | Some m \<Rightarrow> map sn_season_number (filter (\<lambda>s.
          season_status four_k s = M_AVAILABLE \<or>
          (season_status four_k s = M_PROCESSING \<and> sn_season_number s \<notin> set episode_seasons)) (m_seasons m)))"

definition plan_seasons ::
  "int list \<Rightarrow> media_row option \<Rightarrow> request_row list \<Rightarrow> bool \<Rightarrow> int list" where
  "plan_seasons requested media requests four_k =
     (let act = filter (is_active four_k) requests;
          covered = active_seasons act @ library_seasons media (active_episode_seasons act) four_k
      in filter (\<lambda>s. s \<notin> set covered) requested)"

definition requested_seasons :: "json \<Rightarrow> request_body \<Rightarrow> json \<Rightarrow> (string, int list) res" where
  "requested_seasons settings body details =
     and_then
       (case rb_seasons body of
          Some (SeasonList l) \<Rightarrow> Inr l
        | Some AllSeasons \<Rightarrow>
            (case Option.bind (jget details ''seasons'') as_array of
               None \<Rightarrow> Inl ''TMDB lists no seasons''
             | Some items \<Rightarrow>
                 collect_res (map (\<lambda>s. case Option.bind (jget s ''season_number'') as_i64 of
                     Some n \<Rightarrow> Inr n | None \<Rightarrow> Inl ''a season number that isn't whole'')
                   (filter (\<lambda>s. Option.bind (jget s ''season_number'') as_i64 \<noteq> Some 0 \<and>
                      0 < unwrap_or 0 (Option.bind (jget s ''episode_count'') as_i64)) items)))
        | None \<Rightarrow> Inl ''a series request needs seasons'')
       (\<lambda>l. Inr (if truthy (jpath [''main'', ''enableSpecialEpisodes''] settings) then l
                else filter (\<lambda>s. 0 < s) l))"

subsection \<open>Episode selections\<close>

definition refused_outcome :: "refused \<Rightarrow> outcome" where
  "refused_outcome r = (case r of Invalid message \<Rightarrow> Error 400 message | RForward why \<Rightarrow> Forward why)"

definition refusing :: "(refused, 'a) res \<Rightarrow> (outcome, 'a) res" where
  "refusing x = (case x of Inl r \<Rightarrow> Inl (refused_outcome r) | Inr a \<Rightarrow> Inr a)"

lemma refusing_eq_Inr [res_simps]: "refusing x = Inr a \<longleftrightarrow> x = Inr a"
  by (cases x) (simp_all add: refusing_def)

definition specials :: "json \<Rightarrow> bool" where
  "specials settings = truthy (jpath [''main'', ''enableSpecialEpisodes''] settings)"

definition env_catalog :: "env \<Rightarrow> int \<Rightarrow> (outcome, catalog_episode list) res" where
  "env_catalog env tv_id =
     refusing (catalog (e_login env) (\<lambda>i. e_tmdb env False i ''eng'') (e_tvdb env) tv_id)"

definition early_selection ::
  "env \<Rightarrow> request_body \<Rightarrow> json \<Rightarrow> (outcome, (selection \<times> resolved option) option) res" where
  "early_selection env body details =
     (case rb_episode_selection body of
        None \<Rightarrow> Inr None
      | Some raw \<Rightarrow>
          if rb_media_type body \<noteq> ''tv'' \<or> rb_seasons body \<noteq> None
          then Inl (Error 400 ''Episode selections are only valid for TV requests and cannot be combined with seasons.'')
          else if \<not> available (e_num env) (e_settings env) details
          then Inl (Error 409 ''Episode requests require partial requests and the TVDB metadata provider.'')
          else and_then (refusing (parse_selection (e_pretty env) raw)) (\<lambda>s.
            case s of
              WatchAhead _ \<Rightarrow> Inr (Some (s, None))
            | _ \<Rightarrow>
                and_then (env_catalog env (rb_media_id body)) (\<lambda>cat.
                and_then (refusing (resolve s cat (specials (e_settings env)) {})) (\<lambda>r.
                  Inr (Some (s, Some r))))))"

definition resolve_watch_ahead ::
  "env \<Rightarrow> request_body \<Rightarrow> media_plan \<Rightarrow> selection \<Rightarrow> int \<Rightarrow> (outcome, resolved) res" where
  "resolve_watch_ahead env body plan s uid =
     and_then (env_catalog env (rb_media_id body)) (\<lambda>cat.
       let series = Option.bind (mp_existing plan)
             (\<lambda>m. if rb_is4k body then m_jellyfin_media_id4k m else m_jellyfin_media_id m);
           played = played_of series (e_played env uid) cat
       in refusing (resolve s cat (specials (e_settings env)) played))"

record episode_plan =
  ep_resolved :: resolved
  ep_episodes :: "catalog_episode list"
  ep_units :: int
  ep_key :: "string option"
  ep_replace :: "request_row option"

definition is_rolling :: "string option \<Rightarrow> bool" where
  "is_rolling kind \<longleftrightarrow> kind = Some ''after'' \<or> kind = Some ''watchAhead''"

definition plan_episodes ::
  "current_user \<Rightarrow> int \<Rightarrow> request_body \<Rightarrow> media_plan \<Rightarrow> request_row list \<Rightarrow> quota \<Rightarrow> bool \<Rightarrow> resolved
     \<Rightarrow> (outcome, episode_plan) res" where
  "plan_episodes user uid body plan media_requests tv_quota ignore_quota r =
     (let act = active media_requests (if rb_is4k_given body then Some (rb_is4k body) else None);
          rolling = is_rolling (Some (rs_kind r));
          existing_rolling = find (\<lambda>q. is_rolling (r_episode_selection_type q)) act
      in and_then
        (case (rolling, existing_rolling) of
           (True, Some existing) \<Rightarrow>
             if r_requested_by_id existing \<noteq> Some uid \<and>
                \<not> has_permission (cu_permissions user) MANAGE_REQUESTS
             then Inl (Error 409 ''An ongoing episode request already exists for this series.'')
             else Inr (Some existing)
         | _ \<Rightarrow> Inr None)
        (\<lambda>replace.
          let coverage = filter (\<lambda>q. Some (r_id q) \<noteq> map_option r_id replace) act;
              episodes = uncovered r coverage (mp_existing plan) (rb_is4k body);
              units = quota_units episodes;
              remaining = unwrap_or 0 (q_remaining tv_quota) +
                (case replace of None \<Rightarrow> 0 | Some q \<Rightarrow> r_tv_quota_units q)
          in if episodes = [] \<and> rs_kind r \<noteq> ''watchAhead''
             then Inl (Error 202 ''No episodes available to request'')
             else if \<not> ignore_quota \<and> q_limit tv_quota \<noteq> 0 \<and> remaining < units
             then Inl (Error 403 ''Series Quota exceeded.'')
             else Inr \<lparr>ep_resolved = r, ep_episodes = episodes, ep_units = units,
                       ep_key = (if rolling then Some (lock_key (mp_tmdb_id plan) (rb_is4k body)) else None),
                       ep_replace = replace\<rparr>))"

subsection \<open>The whole decision\<close>

record prepared =
  p_actor :: user_record
  p_request_user :: user_record
  p_plan :: media_plan
  p_routing :: routing
  p_approved :: bool
  p_ignore_quota :: bool
  p_seasons :: "int list"
  p_media_requests :: "request_row list"
  p_episodes :: "episode_plan option"

text \<open>The routing: the requester's own, then the override rule, then Sonarr's defaults.\<close>

definition choose_routing ::
  "env \<Rightarrow> db \<Rightarrow> current_user \<Rightarrow> request_body \<Rightarrow> json \<Rightarrow> int \<Rightarrow> (string, routing) res" where
  "choose_routing env d user body details uid =
     (let anime = is_anime (e_num env) details;
          advanced = has_permission (cu_permissions user) (MANAGE_REQUESTS OR REQUEST_ADVANCED);
          server_id = requested_server (e_settings env) body advanced;
          r = requested_routing body advanced server_id
      in and_then (matching_rule (e_settings env) (rule_table d)
             \<lparr>ri_movie = is_movie body, ri_is4k = rb_is4k body, ri_service_id = server_id,
              ri_details = details, ri_anime = anime, ri_user_id = uid\<rparr>) (\<lambda>rule.
         and_then (case rule of None \<Rightarrow> Inr r | Some rule \<Rightarrow> apply_rule rule advanced r) (\<lambda>r.
           if is_movie body then Inr r else sonarr_defaults (e_settings env) body anime r)))"

text \<open>The seasons or episodes of a request, within the quota.\<close>

definition plan_parts ::
  "env \<Rightarrow> current_user \<Rightarrow> int \<Rightarrow> request_body \<Rightarrow> json \<Rightarrow> media_plan \<Rightarrow> request_row list \<Rightarrow> quota \<Rightarrow> bool
     \<Rightarrow> resolved option \<Rightarrow> (outcome, int list \<times> episode_plan option) res" where
  "plan_parts env user uid body details plan media_requests tv_quota ignore_quota r =
     (if is_movie body then Inr ([], None)
      else case r of
        Some r \<Rightarrow>
          and_then (plan_episodes user uid body plan media_requests tv_quota ignore_quota r) (\<lambda>ep.
            Inr ([], Some ep))
      | None \<Rightarrow>
          and_then (forwarding (requested_seasons (e_settings env) body details)) (\<lambda>requested.
            let compared = (if rb_is4k_given body then media_requests else []);
                seasons = plan_seasons requested (mp_existing plan) compared (rb_is4k body)
            in if seasons = [] then Inl (Error 202 ''No seasons available to request'')
               else if \<not> ignore_quota \<and> q_limit tv_quota \<noteq> 0 \<and>
                       unwrap_or 0 (q_remaining tv_quota) < int (length seasons)
               then Inl (Error 403 ''Series Quota exceeded.'')
               else Inr (seasons, None)))"

definition tmdb_details :: "env \<Rightarrow> request_body \<Rightarrow> (outcome, json) res" where
  "tmdb_details env body =
     (case e_tmdb env (is_movie body) (rb_media_id body) (main_locale (e_settings env)) of
        Inr details \<Rightarrow> Inr details
      | Inl message \<Rightarrow> Inl (Error 500 (''[TMDB] Failed to fetch '' @
          (if is_movie body then ''movie'' else ''TV show'') @ '' details: '' @ message)))"

definition error403 :: "(string, 'a) res \<Rightarrow> (outcome, 'a) res" where
  "error403 x = (case x of Inl m \<Rightarrow> Inl (Error 403 m) | Inr a \<Rightarrow> Inr a)"

lemma error403_eq_Inr [res_simps]: "error403 x = Inr a \<longleftrightarrow> x = Inr a"
  by (cases x) (simp_all add: error403_def)

definition prepare :: "env \<Rightarrow> db \<Rightarrow> current_user \<Rightarrow> request_body \<Rightarrow> (outcome, prepared) res" where
  "prepare env d user body =
     and_then (case user_by_id d (cu_id user) of
         Some u \<Rightarrow> Inr u | None \<Rightarrow> Inl (Forward ''the signed-in user vanished'')) (\<lambda>actor.
     and_then (request_user d user body actor) (\<lambda>requester.
     and_then (forwarding (quotas (e_zone env) (e_now env) (e_created env) (e_settings env) d requester))
       (\<lambda>(movie_quota, tv_quota).
     and_then (error403 (quota_checks user body (if is_movie body then movie_quota else tv_quota)))
       (\<lambda>ignore_quota.
     and_then (tmdb_details env body) (\<lambda>details.
     and_then (early_selection env body details) (\<lambda>early.
     and_then (error403 (plan_media (media_by_tmdb d (rb_media_id body) (rb_media_type body)) body details))
       (\<lambda>plan.
     and_then (case early of
         Some (_, Some r) \<Rightarrow> Inr (Some r)
       | Some (s, None) \<Rightarrow>
           and_then (resolve_watch_ahead env body plan s (u_id requester)) (\<lambda>r. Inr (Some r))
       | None \<Rightarrow> Inr None) (\<lambda>r.
     and_then (case duplicate (same_title d (mp_tmdb_id plan) body) body (u_id requester) of
         Some message \<Rightarrow> Inl (Error 409 message) | None \<Rightarrow> Inr ()) (\<lambda>_.
     and_then (forwarding (choose_routing env d user body details (u_id requester))) (\<lambda>routing.
       let media_requests = (case mp_existing plan of None \<Rightarrow> [] | Some m \<Rightarrow> requests_of_media d (m_id m))
       in and_then (plan_parts env user (u_id requester) body details plan media_requests tv_quota
              ignore_quota r) (\<lambda>(seasons, episodes).
         Inr \<lparr>p_actor = actor, p_request_user = requester, p_plan = plan, p_routing = routing,
              p_approved = auto_approved user (is_movie body) (rb_is4k body),
              p_ignore_quota = ignore_quota, p_seasons = seasons,
              p_media_requests = media_requests, p_episodes = episodes\<rparr>)))))))))))"

end
