(* ===== verification/Request_Write.thy ===== *)
theory Request_Write
  imports Requests
begin

section \<open>Writing requests\<close>

text \<open>
  The writes of \<open>src/backend-rs/src/routes/requestcreate.rs\<close> (\<open>write\<close>, \<open>replace_writes\<close>,
  \<open>replace_request\<close>'s column changes) and \<open>episode_columns\<close> of \<open>routes/requestepisodes.rs\<close>. A
  transaction is a function from the tables to the tables: a statement that fails leaves them as they
  were. \<open>admit\<close> is \<open>create_request\<close> up to its commit: the insert hooks and the answer come after it.
\<close>

subsection \<open>Media rows\<close>

text \<open>\<open>free_tvdb_id\<close> of \<open>dbtx.rs\<close>: a TVDB id another row holds is left out.\<close>

definition free_tvdb_id :: "db \<Rightarrow> int option \<Rightarrow> int option" where
  "free_tvdb_id d wanted =
     (case wanted of
        None \<Rightarrow> None
      | Some i \<Rightarrow> if list_ex (\<lambda>m. m_tvdb_id m = Some i) (media_table d) then None else Some i)"

definition new_media_row ::
  "string option \<Rightarrow> int \<Rightarrow> string \<Rightarrow> int \<Rightarrow> int option \<Rightarrow> int \<times> int \<Rightarrow> media_row" where
  "new_media_row stamp i mt tmdb_id tvdb_id status =
     \<lparr>m_id = i, m_media_type = mt, m_tmdb_id = tmdb_id, m_tvdb_id = tvdb_id, m_imdb_id = None,
      m_status = fst status, m_status4k = snd status, m_created_at = stamp, m_updated_at = stamp,
      m_last_season_change = stamp, m_media_added_at = stamp, m_service_id = None, m_service_id4k = None,
      m_external_service_id = None, m_external_service_id4k = None, m_external_service_slug = None,
      m_external_service_slug4k = None, m_rating_key = None, m_rating_key4k = None,
      m_jellyfin_media_id = None, m_jellyfin_media_id4k = None, m_seasons = []\<rparr>"

definition insert_media :: "string option \<Rightarrow> db \<Rightarrow> string \<Rightarrow> int \<Rightarrow> int option \<Rightarrow> int \<times> int \<Rightarrow> db \<times> int" where
  "insert_media stamp d mt tmdb_id tvdb_id status =
     (let i = next_media d;
          row = new_media_row stamp i mt tmdb_id (free_tvdb_id d tvdb_id) status
      in (d\<lparr>media_table := media_table d @ [row], next_media := i + 1\<rparr>, i))"

definition save_media_status :: "string option \<Rightarrow> db \<Rightarrow> media_row \<Rightarrow> int \<times> int \<Rightarrow> db" where
  "save_media_status stamp d m status =
     (if (m_status m, m_status4k m) = status then d
      else d\<lparr>media_table := map (\<lambda>x. if m_id x = m_id m
             then x\<lparr>m_status := fst status, m_status4k := snd status, m_updated_at := stamp\<rparr> else x)
             (media_table d)\<rparr>)"

subsection \<open>A new request\<close>

definition tags_text :: "int list \<Rightarrow> string" where
  "tags_text tags =
     (let joined = join_with CHR '','' (map show_int tags)
      in if joined = [] then ''none'' else joined)"

definition season_row_of :: "string option \<Rightarrow> int \<Rightarrow> int \<Rightarrow> int \<Rightarrow> int \<Rightarrow> season_request_row" where
  "season_row_of stamp request status season i =
     \<lparr>sr_id = i, sr_season_number = season, sr_status = status, sr_created_at = stamp,
      sr_updated_at = stamp, sr_request_id = Some request\<rparr>"

fun insert_seasons ::
  "string option \<Rightarrow> int \<Rightarrow> int \<Rightarrow> int list \<Rightarrow> int \<Rightarrow> season_request_row list \<times> int" where
  "insert_seasons stamp request status [] next_id = ([], next_id)"
| "insert_seasons stamp request status (s # ss) next_id =
     (let (rows, n) = insert_seasons stamp request status ss (next_id + 1)
      in (season_row_of stamp request status s next_id # rows, n))"

definition planned_units :: "prepared \<Rightarrow> int" where
  "planned_units p =
     (case p_episodes p of None \<Rightarrow> int (length (p_seasons p)) | Some e \<Rightarrow> ep_units e)"

definition new_request_row ::
  "string option \<Rightarrow> request_body \<Rightarrow> prepared \<Rightarrow> int \<Rightarrow> int option \<Rightarrow> int \<Rightarrow> int
     \<Rightarrow> season_request_row list \<Rightarrow> episode_request_row list \<Rightarrow> request_row" where
  "new_request_row stamp body p status modified_by i media_id season_rows episode_rows =
     (let r = p_routing p;
          res = map_option ep_resolved (p_episodes p)
      in \<lparr>r_id = i, r_status = status, r_created_at = stamp, r_updated_at = stamp,
          r_request_type = rb_media_type body,
          r_episode_selection_type = map_option rs_kind res,
          r_episode_start_tvdb_id = map_option rs_start res,
          r_episode_end_tvdb_id = Option.bind res rs_end,
          r_watch_ahead_count = Option.bind res rs_watch_ahead,
          r_watch_ahead_inactive_at = None,
          r_ongoing_episode_request_key = Option.bind (p_episodes p) ep_key,
          r_tv_quota_units = planned_units p, r_is4k = rb_is4k body,
          r_server_id = ro_server_id r, r_profile_id = ro_profile_id r, r_root_folder = ro_root_folder r,
          r_language_profile_id = ro_language_profile_id r,
          r_metadata_language_id = ro_metadata_language_id r,
          r_tags = map_option tags_text (ro_tags r), r_is_auto_request = rb_is_auto_request body,
          r_ignore_quota = p_ignore_quota p, r_media_id = Some media_id,
          r_requested_by_id = Some (u_id (p_request_user p)), r_modified_by_id = modified_by,
          r_seasons = season_rows, r_episodes = episode_rows\<rparr>)"

definition write_request ::
  "env \<Rightarrow> db \<Rightarrow> request_body \<Rightarrow> prepared \<Rightarrow> int \<Rightarrow> int option \<Rightarrow> (string, db \<times> int \<times> int) res" where
  "write_request env d body p status modified_by =
     (let stamp = e_stamp env;
          plan = p_plan p;
          (d1, media_id) =
            (case mp_existing plan of
               None \<Rightarrow> insert_media stamp d (rb_media_type body) (mp_tmdb_id plan) (mp_tvdb_id plan) (mp_status plan)
             | Some m \<Rightarrow> (save_media_status stamp d m (mp_status plan), m_id m));
          i = next_request d1
      in and_then
        (case p_episodes p of
           None \<Rightarrow> Inr ([], next_episode_request d1)
         | Some e \<Rightarrow> insert_episodes stamp i status (ep_episodes e) [] (next_episode_request d1))
        (\<lambda>(episode_rows, next_episode).
          let (season_rows, next_season) =
                insert_seasons stamp i status (p_seasons p) (next_season_request d1);
              row = new_request_row stamp body p status modified_by i media_id season_rows episode_rows
          in Inr (d1\<lparr>request_table := request_table d1 @ [row], next_request := i + 1,
                     next_season_request := next_season, next_episode_request := next_episode\<rparr>,
                  i, media_id)))"

subsection \<open>Replacing an ongoing request\<close>

datatype bind = BInt int | BOptInt "int option" | BText string

definition episode_columns :: "request_row \<Rightarrow> resolved \<Rightarrow> string option \<Rightarrow> (string \<times> bind) list" where
  "episode_columns row r key =
     (if r_episode_selection_type row \<noteq> Some (rs_kind r)
      then [(''episodeSelectionType'', BText (rs_kind r))] else []) @
     (if r_episode_start_tvdb_id row \<noteq> Some (rs_start r)
      then [(''episodeStartTvdbId'', BInt (rs_start r))] else []) @
     (case opt_filter (\<lambda>e. r_episode_end_tvdb_id row \<noteq> Some e) (rs_end r) of
        Some e \<Rightarrow> [(''episodeEndTvdbId'', BInt e)] | None \<Rightarrow> []) @
     (case opt_filter (\<lambda>n. r_watch_ahead_count row \<noteq> Some n) (rs_watch_ahead r) of
        Some n \<Rightarrow> [(''watchAheadCount'', BInt n)] | None \<Rightarrow> []) @
     (if r_tv_quota_units row \<noteq> quota_units (rs_episodes r)
      then [(''tvQuotaUnits'', BInt (quota_units (rs_episodes r)))] else []) @
     (case opt_filter (\<lambda>k. r_ongoing_episode_request_key row \<noteq> Some k) key of
        Some k \<Rightarrow> [(''ongoingEpisodeRequestKey'', BText k)] | None \<Rightarrow> [])"

definition changed :: "string \<Rightarrow> ('a \<Rightarrow> bind) \<Rightarrow> 'a option \<Rightarrow> 'a option \<Rightarrow> (string \<times> bind) list" where
  "changed column f new old =
     (case opt_filter (\<lambda>v. old \<noteq> Some v) new of Some v \<Rightarrow> [(column, f v)] | None \<Rightarrow> [])"

definition replace_status :: "prepared \<Rightarrow> request_row \<Rightarrow> int" where
  "replace_status p old =
     (if r_status old = APPROVED then APPROVED else if p_approved p then APPROVED else PENDING)"

definition replace_sets ::
  "current_user \<Rightarrow> prepared \<Rightarrow> episode_plan \<Rightarrow> request_row \<Rightarrow> (string \<times> bind) list" where
  "replace_sets user p plan old =
     (let r = p_routing p;
          uid = u_id (p_request_user p)
      in changed ''serverId'' BInt (ro_server_id r) (r_server_id old) @
         changed ''profileId'' BInt (ro_profile_id r) (r_profile_id old) @
         changed ''rootFolder'' BText (ro_root_folder r) (r_root_folder old) @
         changed ''languageProfileId'' BInt (ro_language_profile_id r) (r_language_profile_id old) @
         (if ro_metadata_language_id r \<noteq> r_metadata_language_id old
          then [(''metadataLanguageId'', BOptInt (ro_metadata_language_id r))] else []) @
         changed ''tags'' BText (map_option tags_text (ro_tags r)) (r_tags old) @
         (if r_requested_by_id old \<noteq> Some uid then [(''requestedById'', BInt uid)] else []) @
         (if r_status old \<noteq> replace_status p old then [(''status'', BInt (replace_status p old))] else []) @
         (if p_approved p
          then if r_modified_by_id old \<noteq> Some (cu_id user) then [(''modifiedById'', BInt (cu_id user))] else []
          else if r_modified_by_id old = None then [(''modifiedById'', BOptInt None)] else []) @
         episode_columns old ((ep_resolved plan)\<lparr>rs_episodes := ep_episodes plan\<rparr>) (ep_key plan))"

text \<open>One \<open>SET\<close> of an \<open>UPDATE\<close>; the code sets no other columns.\<close>

definition bound_int :: "bind \<Rightarrow> int option" where
  "bound_int b = (case b of BInt n \<Rightarrow> Some n | BOptInt n \<Rightarrow> n | BText _ \<Rightarrow> None)"

definition bound_text :: "bind \<Rightarrow> string option" where
  "bound_text b = (case b of BText s \<Rightarrow> Some s | _ \<Rightarrow> None)"

definition set_column :: "string \<times> bind \<Rightarrow> request_row \<Rightarrow> request_row" where
  "set_column s row =
     (let (column, b) = s
      in if column = ''serverId'' then row\<lparr>r_server_id := bound_int b\<rparr>
         else if column = ''profileId'' then row\<lparr>r_profile_id := bound_int b\<rparr>
         else if column = ''rootFolder'' then row\<lparr>r_root_folder := bound_text b\<rparr>
         else if column = ''languageProfileId'' then row\<lparr>r_language_profile_id := bound_int b\<rparr>
         else if column = ''metadataLanguageId'' then row\<lparr>r_metadata_language_id := bound_int b\<rparr>
         else if column = ''tags'' then row\<lparr>r_tags := bound_text b\<rparr>
         else if column = ''requestedById'' then row\<lparr>r_requested_by_id := bound_int b\<rparr>
         else if column = ''status'' then row\<lparr>r_status := unwrap_or (r_status row) (bound_int b)\<rparr>
         else if column = ''modifiedById'' then row\<lparr>r_modified_by_id := bound_int b\<rparr>
         else if column = ''episodeSelectionType'' then row\<lparr>r_episode_selection_type := bound_text b\<rparr>
         else if column = ''episodeStartTvdbId'' then row\<lparr>r_episode_start_tvdb_id := bound_int b\<rparr>
         else if column = ''episodeEndTvdbId'' then row\<lparr>r_episode_end_tvdb_id := bound_int b\<rparr>
         else if column = ''watchAheadCount'' then row\<lparr>r_watch_ahead_count := bound_int b\<rparr>
         else if column = ''tvQuotaUnits'' then row\<lparr>r_tv_quota_units := unwrap_or (r_tv_quota_units row) (bound_int b)\<rparr>
         else if column = ''ongoingEpisodeRequestKey'' then row\<lparr>r_ongoing_episode_request_key := bound_text b\<rparr>
         else row)"

definition update_request ::
  "string option \<Rightarrow> (string \<times> bind) list \<Rightarrow> request_row \<Rightarrow> request_row" where
  "update_request stamp sets row =
     (if sets = [] then row else (fold set_column sets row)\<lparr>r_updated_at := stamp\<rparr>)"

definition replace_writes ::
  "env \<Rightarrow> db \<Rightarrow> prepared \<Rightarrow> request_row \<Rightarrow> (string \<times> bind) list \<Rightarrow> catalog_episode list \<Rightarrow> int
     \<Rightarrow> (string, db) res" where
  "replace_writes env d p old sets episodes status =
     (let stamp = e_stamp env;
          d = (case mp_existing (p_plan p) of
                 None \<Rightarrow> d | Some m \<Rightarrow> save_media_status stamp d m (mp_status (p_plan p)))
      in and_then (insert_episodes stamp (r_id old) status episodes [] (next_episode_request d))
        (\<lambda>(rows, next_episode).
          Inr (d\<lparr>request_table := map (\<lambda>r. if r_id r = r_id old
                   then (update_request stamp sets r)\<lparr>r_episodes := rows, r_seasons := []\<rparr> else r)
                   (request_table d),
                 loose_seasons := loose_seasons d @
                   map (\<lambda>s. s\<lparr>sr_request_id := None, sr_updated_at := stamp\<rparr>) (r_seasons old),
                 next_episode_request := next_episode\<rparr>)))"

subsection \<open>Admission\<close>

datatype admitted = Created int int | Replaced int

definition admit ::
  "env \<Rightarrow> db \<Rightarrow> current_user \<Rightarrow> request_body \<Rightarrow> (outcome, db \<times> admitted) res" where
  "admit env d user body =
     and_then (prepare env d user body) (\<lambda>p.
       let status = (if p_approved p then APPROVED else PENDING);
           created = (case write_request env d body p status (if p_approved p then Some (cu_id user) else None) of
               Inl e \<Rightarrow> Inl (Error 500 e)
             | Inr (d', i, m) \<Rightarrow> Inr (d', Created i m))
       in case p_episodes p of
            None \<Rightarrow> created
          | Some plan \<Rightarrow>
              (case ep_replace plan of
                 Some old \<Rightarrow>
                   (case replace_writes env d p old (replace_sets user p plan old) (ep_episodes plan)
                           (replace_status p old) of
                      Inl e \<Rightarrow> Inl (Error 500 e)
                    | Inr d' \<Rightarrow> Inr (d', Replaced (r_id old)))
               | None \<Rightarrow>
                   (case ep_key plan of
                      None \<Rightarrow> created
                    | Some key \<Rightarrow>
                        if ongoing_conflict (e_index env) d key (rs_kind (ep_resolved plan)) None
                        then Inl (Error 409 ''An ongoing episode request already exists for this series.'')
                        else created)))"

end
