(* ===== verification/Request_Json.thy ===== *)
theory Request_Json
  imports Media UserJson Draft Request_Write
begin

section \<open>Requests as JSON\<close>

text \<open>
  What the request routes print: the columns of a request and its child rows (\<open>columns\<close>, \<open>tags_json\<close>,
  \<open>seasons_json\<close>, \<open>episodes_json\<close> and \<open>count_of\<close> of \<open>src/backend-rs/src/routes/request.rs\<close>), the rows a
  page points at (\<open>routes/related.rs\<close>), and the answers of a created and of a replaced request
  (\<open>request_json\<close>, \<open>after_save_media_json\<close>, \<open>existing_media_json\<close> and the end of \<open>replace_request\<close> of
  \<open>routes/requestcreate.rs\<close>).

  \<open>printing\<close> holds what printing rests on: the number printer of \<open>jsval\<close>, the plugin flag, the
  download tracker, the reader of stored JSON and the reader of a decimal \<open>f64\<close> (as the JSON number it
  prints as, none where it is not finite).
\<close>

record printing =
  pr_num :: "json \<Rightarrow> string"
  pr_plugin :: bool
  pr_downloads :: downloads
  pr_parse :: "string \<Rightarrow> json option"
  pr_float :: "string \<Rightarrow> json option"

subsection \<open>Columns\<close>

text \<open>\<open>js_number\<close> of \<open>request.rs\<close>.\<close>

definition tag_number :: "(string \<Rightarrow> json option) \<Rightarrow> string \<Rightarrow> json" where
  "tag_number float text =
     (let t = trim text
      in if t = [] then JInt 0
         else case parse_i64 t of
           Some n \<Rightarrow> JInt n
         | None \<Rightarrow> unwrap_or JNull (float t))"

definition tags_json :: "(string \<Rightarrow> json option) \<Rightarrow> string option \<Rightarrow> json" where
  "tags_json float stored =
     (case stored of
        None \<Rightarrow> JNull
      | Some l \<Rightarrow>
          if l = [] then JNull
          else if l = ''none'' then JArr []
          else JArr (map (tag_number float) (split_on CHR '','' l)))"

definition columns :: "(string \<Rightarrow> json option) \<Rightarrow> request_row \<Rightarrow> jmap \<Rightarrow> jmap" where
  "columns float r out =
     put_entries
       [(''id'', JInt (r_id r)), (''status'', JInt (r_status r)),
        (''createdAt'', j_text (r_created_at r)), (''updatedAt'', j_text (r_updated_at r)),
        (''type'', JStr (r_request_type r)),
        (''episodeSelectionType'', j_text (r_episode_selection_type r)),
        (''episodeStartTvdbId'', j_number (r_episode_start_tvdb_id r)),
        (''episodeEndTvdbId'', j_number (r_episode_end_tvdb_id r)),
        (''watchAheadCount'', j_number (r_watch_ahead_count r)),
        (''watchAheadInactiveAt'', j_text (r_watch_ahead_inactive_at r)),
        (''ongoingEpisodeRequestKey'', j_text (r_ongoing_episode_request_key r)),
        (''tvQuotaUnits'', JInt (r_tv_quota_units r)), (''is4k'', JBool (r_is4k r)),
        (''serverId'', j_number (r_server_id r)), (''profileId'', j_number (r_profile_id r)),
        (''rootFolder'', j_text (r_root_folder r)),
        (''languageProfileId'', j_number (r_language_profile_id r)),
        (''metadataLanguageId'', j_number (r_metadata_language_id r)),
        (''tags'', tags_json float (r_tags r)), (''isAutoRequest'', JBool (r_is_auto_request r)),
        (''ignoreQuota'', JBool (r_ignore_quota r))] out"

definition season_request_json :: "season_request_row \<Rightarrow> json" where
  "season_request_json s =
     JObj (put_entries
       [(''id'', JInt (sr_id s)), (''seasonNumber'', JInt (sr_season_number s)),
        (''status'', JInt (sr_status s)), (''createdAt'', j_text (sr_created_at s)),
        (''updatedAt'', j_text (sr_updated_at s))] [])"

definition seasons_json :: "season_request_row list \<Rightarrow> json" where
  "seasons_json seasons = JArr (map season_request_json seasons)"

definition episodes_json :: "episode_request_row list \<Rightarrow> json" where
  "episodes_json episodes =
     JArr (map (\<lambda>e. JObj (put_entries
       [(''id'', JInt (er_id e)), (''tvdbId'', JInt (er_tvdb_id e)),
        (''seasonNumber'', JInt (er_season_number e)), (''episodeNumber'', JInt (er_episode_number e)),
        (''title'', j_text (er_title e)), (''airDate'', j_text (er_air_date e)),
        (''status'', JInt (er_status e)), (''searchTriggeredAt'', j_text (er_search_triggered_at e)),
        (''monitoredAt'', j_text (er_monitored_at e)), (''unmonitoredAt'', j_text (er_unmonitored_at e)),
        (''createdAt'', j_text (er_created_at e)), (''updatedAt'', j_text (er_updated_at e))] [])) episodes)"

definition count_of :: "'a list \<Rightarrow> json" where
  "count_of seasons = JInt (int (length seasons))"

subsection \<open>What a page points at\<close>

record related =
  rel_media :: "media_row list"
  rel_users :: "user_record list"
  rel_downloads :: downloads

definition no_downloads :: downloads where
  "no_downloads = (\<lambda>_ _ _. [])"

definition load_related :: "printing \<Rightarrow> db \<Rightarrow> int list \<Rightarrow> int list \<Rightarrow> related" where
  "load_related pr d media_ids user_ids =
     (let media = filter (\<lambda>m. m_id m \<in> set media_ids) (media_table d)
      in \<lparr>rel_media = media, rel_users = List.map_filter (user_by_id d) (push_unique [] user_ids),
          rel_downloads = (if list_ex tracks_downloads media then pr_downloads pr else no_downloads)\<rparr>)"

definition related_media_json :: "printing \<Rightarrow> json \<Rightarrow> related \<Rightarrow> int option \<Rightarrow> bool \<Rightarrow> json" where
  "related_media_json pr settings rel i with_seasons =
     (case Option.bind i (\<lambda>i. find (\<lambda>m. m_id m = i) (rel_media rel)) of
        None \<Rightarrow> JNull
      | Some m \<Rightarrow> media_json (pr_num pr) (pr_plugin pr) m settings (rel_downloads rel) with_seasons)"

definition related_user :: "related \<Rightarrow> int option \<Rightarrow> user_record option" where
  "related_user rel i = Option.bind i (\<lambda>i. find (\<lambda>u. u_id u = i) (rel_users rel))"

definition related_user_json :: "printing \<Rightarrow> related \<Rightarrow> int option \<Rightarrow> (string, json) res" where
  "related_user_json pr rel i =
     (case related_user rel i of None \<Rightarrow> Inr JNull | Some u \<Rightarrow> embedded_json (pr_parse pr) u)"

definition public_user_json :: "printing \<Rightarrow> related \<Rightarrow> int option \<Rightarrow> (string, json) res" where
  "public_user_json pr rel i =
     (case related_user rel i of
        None \<Rightarrow> Inr JNull
      | Some u \<Rightarrow> filtered_json (pr_parse pr) u None False)"

subsection \<open>A created request\<close>

definition REQUEST_COLUMNS :: "column list" where
  "REQUEST_COLUMNS =
     [(''id'', False, True), (''status'', False, False), (''createdAt'', False, True),
      (''updatedAt'', False, True), (''type'', False, False), (''episodeSelectionType'', True, False),
      (''episodeStartTvdbId'', True, False), (''episodeEndTvdbId'', True, False),
      (''watchAheadCount'', True, False), (''watchAheadInactiveAt'', True, False),
      (''ongoingEpisodeRequestKey'', True, False), (''tvQuotaUnits'', False, True),
      (''is4k'', False, True), (''serverId'', True, False), (''profileId'', True, False),
      (''rootFolder'', True, False), (''languageProfileId'', True, False),
      (''metadataLanguageId'', True, False), (''tags'', True, False), (''isAutoRequest'', False, True),
      (''ignoreQuota'', False, True)]"

text \<open>The media with its requests before the save; other users' emails stay out.\<close>

definition existing_media_json ::
  "printing \<Rightarrow> json \<Rightarrow> db \<Rightarrow> media_row option \<Rightarrow> request_row list \<Rightarrow> (string, jmap option) res" where
  "existing_media_json pr settings d media requests =
     (case media of
        None \<Rightarrow> Inr None
      | Some m \<Rightarrow>
          let user_ids = concat (map (\<lambda>r.
                (case r_requested_by_id r of None \<Rightarrow> [] | Some i \<Rightarrow> [i]) @
                (case r_modified_by_id r of None \<Rightarrow> [] | Some i \<Rightarrow> [i])) requests);
              rel = load_related pr d [m_id m] user_ids
          in case media_json (pr_num pr) (pr_plugin pr) m settings (rel_downloads rel) False of
               JObj out \<Rightarrow>
                 and_then (collect_res (map (\<lambda>r.
                   and_then (public_user_json pr rel (r_requested_by_id r)) (\<lambda>requested_by.
                   and_then (public_user_json pr rel (r_modified_by_id r)) (\<lambda>modified_by.
                     Inr (JObj (put_entries
                       [(''media'', related_media_json pr settings rel (r_media_id r) False),
                        (''requestedBy'', requested_by), (''modifiedBy'', modified_by),
                        (''seasons'', seasons_json (r_seasons r)), (''episodes'', episodes_json (r_episodes r)),
                        (''seasonCount'', count_of (r_seasons r))] (columns (pr_float pr) r []))))))
                   requests)) (\<lambda>list.
                 Inr (Some (put_entries
                   [(''requests'', JArr list), (''seasons'', JArr (map season_json (m_seasons m)))] out)))
             | _ \<Rightarrow> Inl ''media_json is not an object'')"

definition after_save_media_json :: "printing \<Rightarrow> json \<Rightarrow> jmap option \<Rightarrow> media_row \<Rightarrow> json" where
  "after_save_media_json pr settings head media_now =
     (case head of
        None \<Rightarrow> inserted_media_json
          (media_json (pr_num pr) (pr_plugin pr) media_now settings no_downloads False)
          [''tmdbId'', ''tvdbId'', ''status'', ''status4k'', ''mediaType'']
      | Some head \<Rightarrow> JObj (put_entries
          [(''status'', JInt (m_status media_now)), (''status4k'', JInt (m_status4k media_now)),
           (''updatedAt'', j_text (m_updated_at media_now))] head))"

definition int_tags :: "int list option \<Rightarrow> json option" where
  "int_tags tags = map_option (\<lambda>t. JArr (map JInt t)) tags"

text \<open>\<open>request_json\<close> of \<open>requestcreate.rs\<close>: what was assigned, then what the insert reads back.\<close>

definition created_json ::
  "printing \<Rightarrow> draft \<Rightarrow> request_row \<Rightarrow> request_body \<Rightarrow> prepared \<Rightarrow> (episode_plan \<times> json) option \<Rightarrow> json" where
  "created_json pr dr row body p episodes =
     (let r = p_routing p;
          dr = fold (\<lambda>(k, v). draft_set k v)
            [(''is4k'', Some (JBool (rb_is4k body))), (''serverId'', map_option JInt (ro_server_id r)),
             (''profileId'', map_option JInt (ro_profile_id r)),
             (''rootFolder'', map_option JStr (ro_root_folder r)),
             (''languageProfileId'', map_option JInt (ro_language_profile_id r)),
             (''metadataLanguageId'', map_option JInt (ro_metadata_language_id r)),
             (''tags'', int_tags (ro_tags r)), (''isAutoRequest'', Some (JBool (rb_is_auto_request body))),
             (''ignoreQuota'', Some (JBool (p_ignore_quota p)))] dr;
          dr = (case episodes of
              Some (plan, list) \<Rightarrow>
                let s = ep_resolved plan
                in fold (\<lambda>(k, v). draft_set k v)
                  [(''seasons'', Some (JArr [])), (''episodes'', Some list),
                   (''episodeSelectionType'', Some (JStr (rs_kind s))),
                   (''episodeStartTvdbId'', Some (JInt (rs_start s))),
                   (''episodeEndTvdbId'', map_option JInt (rs_end s)),
                   (''watchAheadCount'', map_option JInt (rs_watch_ahead s)),
                   (''ongoingEpisodeRequestKey'', map_option JStr (ep_key plan)),
                   (''tvQuotaUnits'', Some (JInt (ep_units plan)))] dr
            | None \<Rightarrow>
                if rb_media_type body = ''tv'' then
                  fold (\<lambda>(k, v). draft_put k v)
                    [(''seasons'', JArr (map (\<lambda>s. JObj (put_entries
                        [(''seasonNumber'', JInt (sr_season_number s)), (''status'', JInt (sr_status s)),
                         (''id'', JInt (sr_id s)), (''createdAt'', j_text (sr_created_at s)),
                         (''updatedAt'', j_text (sr_updated_at s))] [])) (r_seasons row))),
                     (''episodes'', JArr []), (''tvQuotaUnits'', JInt (r_tv_quota_units row))] dr
                else dr)
      in draft_json (after_insert REQUEST_COLUMNS (columns (pr_float pr) row []) dr))"

subsection \<open>A replaced request\<close>

text \<open>\<open>assign\<close> of \<open>requestepisodes.rs\<close>, which \<open>replace_request\<close> writes out.\<close>

definition assign_json :: "string \<Rightarrow> json option \<Rightarrow> bool \<Rightarrow> jmap \<Rightarrow> jmap" where
  "assign_json key v updated out =
     (case v of
        Some j \<Rightarrow> obj_insert key j out
      | None \<Rightarrow> if updated then obj_insert key JNull out else obj_remove key out)"

definition given_json :: "string \<Rightarrow> json option \<Rightarrow> jmap \<Rightarrow> jmap" where
  "given_json key v out = (case v of Some j \<Rightarrow> obj_insert key j out | None \<Rightarrow> out)"

definition replaced_json ::
  "printing \<Rightarrow> prepared \<Rightarrow> episode_plan \<Rightarrow> request_row \<Rightarrow> request_row \<Rightarrow> bool \<Rightarrow> int \<Rightarrow> json
     \<Rightarrow> json \<Rightarrow> json option \<Rightarrow> json" where
  "replaced_json pr p plan old fresh updated status media requested_by modified_by =
     (let r = p_routing p;
          s = ep_resolved plan;
          out = obj_insert ''status'' (JInt status) (columns (pr_float pr) old []);
          out = (if updated then obj_insert ''updatedAt'' (j_text (r_updated_at fresh)) out else out);
          out = put_entries [(''episodeSelectionType'', JStr (rs_kind s)),
            (''episodeStartTvdbId'', JInt (rs_start s))] out;
          out = fold (\<lambda>(k, v). assign_json k v updated)
            [(''episodeEndTvdbId'', map_option JInt (rs_end s)),
             (''watchAheadCount'', map_option JInt (rs_watch_ahead s)),
             (''ongoingEpisodeRequestKey'', map_option JStr (ep_key plan))] out;
          out = obj_insert ''tvQuotaUnits'' (JInt (ep_units plan)) out;
          out = fold (\<lambda>(k, v). given_json k v)
            [(''serverId'', map_option JInt (ro_server_id r)), (''profileId'', map_option JInt (ro_profile_id r)),
             (''rootFolder'', map_option JStr (ro_root_folder r)),
             (''languageProfileId'', map_option JInt (ro_language_profile_id r)),
             (''metadataLanguageId'', Some (j_number (ro_metadata_language_id r))),
             (''tags'', int_tags (ro_tags r))] out;
          out = put_entries
            [(''media'', media), (''requestedBy'', requested_by), (''seasons'', JArr []),
             (''episodes'', new_episodes_json (ep_episodes plan) status (r_episodes fresh)),
             (''seasonCount'', count_of (r_seasons old))] out
      in JObj (given_json ''modifiedBy'' modified_by out))"

end
