(* ===== verification/Request_Edit.thy ===== *)
theory Request_Edit
  imports Request_Json
begin

section \<open>Editing requests\<close>

text \<open>
  \<open>PUT /request/{id}\<close> of \<open>src/backend-rs/src/routes/requestedit.rs\<close> (movies and whole seasons) and of
  \<open>routes/requestepisodes.rs\<close> (episode selections). An edit is a function from the tables to the tables
  and the answer, or to the answer that refuses it; its statements run in one transaction under the lock
  of request creation.
\<close>

subsection \<open>The request as loaded\<close>

text \<open>\<open>Lc::load\<close>: the row, its episodes by number, with the relations.\<close>

record entity =
  en_row :: request_row
  en_media :: "media_row option"
  en_requested_by :: "user_record option"
  en_modified_by :: "user_record option"

definition loaded_row :: "request_row \<Rightarrow> request_row" where
  "loaded_row r = r\<lparr>r_episodes :=
     sort_key er_season_number (sort_key er_episode_number (sort_key er_id (r_episodes r)))\<rparr>"

definition load_entity :: "db \<Rightarrow> int \<Rightarrow> entity option" where
  "load_entity d i =
     map_option (\<lambda>r. \<lparr>en_row = loaded_row r, en_media = Option.bind (r_media_id r) (media_by_id d),
       en_requested_by = Option.bind (r_requested_by_id r) (user_by_id d),
       en_modified_by = Option.bind (r_modified_by_id r) (user_by_id d)\<rparr>) (request_by_id d i)"

subsection \<open>The body\<close>

record edit_body =
  eb_media_type :: string
  eb_seasons :: "int list option"
  eb_server_id :: "int option"
  eb_profile_id :: "int option"
  eb_root_folder :: "string option"
  eb_language_profile_id :: "int option"
  eb_metadata_language_id :: assign
  eb_user_id :: "int option"
  eb_tags :: "int list option"
  eb_episode_selection :: "json option"
  eb_routing :: bool

definition keep_routing :: "edit_body \<Rightarrow> edit_body" where
  "keep_routing b = b\<lparr>eb_server_id := None, eb_profile_id := None, eb_root_folder := None,
     eb_language_profile_id := None, eb_metadata_language_id := Keep, eb_tags := None, eb_routing := False\<rparr>"

definition EDIT_KEYS :: "string list" where
  "EDIT_KEYS = [''mediaType'', ''seasons'', ''is4k'', ''serverId'', ''profileId'', ''rootFolder'',
     ''languageProfileId'', ''metadataLanguageId'', ''userId'', ''tags'', ''episodeSelection'']"

definition opt_int_list :: "jmap \<Rightarrow> string \<Rightarrow> (outcome, int list option) res" where
  "opt_int_list body key =
     (case obj_get body key of
        None \<Rightarrow> Inr None
      | Some v \<Rightarrow> and_then (forwarding (int_list v key)) (\<lambda>l. Inr (Some l)))"

definition parse_edit :: "json option \<Rightarrow> (outcome, edit_body) res" where
  "parse_edit raw =
     and_then (body_object raw) (\<lambda>body.
     and_then (known_keys body EDIT_KEYS) (\<lambda>_.
     and_then (case Option.bind (obj_get body ''mediaType'') as_str of
         Some t \<Rightarrow> if t = ''movie'' \<or> t = ''tv'' then Inr t else Inl (Forward ''mediaType is the validator's'')
       | None \<Rightarrow> Inl (Forward ''mediaType is the validator's'')) (\<lambda>mt.
     and_then (opt_flag body ''is4k'' ''is4k isn't a boolean'') (\<lambda>_.
     and_then (opt_int_list body ''seasons'') (\<lambda>seasons.
     and_then (ensure (\<not> list_ex (\<lambda>n. n < 0) (unwrap_or [] seasons))
       (Forward ''a negative season; the validator answers'')) (\<lambda>_.
     and_then (case obj_get body ''userId'' of
         None \<Rightarrow> Inr None | Some JNull \<Rightarrow> Inr None | Some _ \<Rightarrow> body_int body ''userId'') (\<lambda>user_id.
     and_then (body_int body ''serverId'') (\<lambda>server_id.
     and_then (body_int body ''profileId'') (\<lambda>profile_id.
     and_then (opt_text body ''rootFolder'') (\<lambda>root_folder.
     and_then (body_int body ''languageProfileId'') (\<lambda>language_profile_id.
     and_then (body_id_assign body ''metadataLanguageId'') (\<lambda>metadata_language_id.
     and_then (opt_int_list body ''tags'') (\<lambda>tags.
       Inr \<lparr>eb_media_type = mt, eb_seasons = seasons, eb_server_id = server_id, eb_profile_id = profile_id,
            eb_root_folder = root_folder, eb_language_profile_id = language_profile_id,
            eb_metadata_language_id = metadata_language_id, eb_user_id = opt_filter (\<lambda>i. i \<noteq> 0) user_id,
            eb_tags = tags, eb_episode_selection = obj_get body ''episodeSelection'',
            eb_routing = True\<rparr>)))))))))))))"

subsection \<open>The columns that change\<close>

definition changed_columns :: "request_row \<Rightarrow> edit_body \<Rightarrow> bool \<Rightarrow> int \<Rightarrow> (string \<times> bind) list" where
  "changed_columns row body tv requested_by =
     changed ''serverId'' BInt (eb_server_id body) (r_server_id row) @
     changed ''profileId'' BInt (eb_profile_id body) (r_profile_id row) @
     changed ''rootFolder'' BText (eb_root_folder body) (r_root_folder row) @
     (if tv then
        changed ''languageProfileId'' BInt (eb_language_profile_id body) (r_language_profile_id row) @
        (if assign_changes (eb_metadata_language_id body) (r_metadata_language_id row)
         then [(''metadataLanguageId'', BOptInt (assign_value (eb_metadata_language_id body)))] else [])
      else []) @
     changed ''tags'' BText (map_option tags_text (eb_tags body)) (r_tags row) @
     (if r_requested_by_id row \<noteq> Some requested_by then [(''requestedById'', BInt requested_by)] else []) @
     (if r_modified_by_id row = None then [(''modifiedById'', BOptInt None)] else [])"

subsection \<open>Seasons\<close>

record season_edit =
  se_keep :: "season_request_row list"
  se_add :: "int list"
  se_orphaned :: "int list"
  se_units :: int

definition plan_season_edit ::
  "int list \<Rightarrow> int list \<Rightarrow> season_request_row list \<Rightarrow> int list \<Rightarrow> season_edit option" where
  "plan_season_edit requested elsewhere present covered =
     (let held = map sr_season_number present;
          filtered = filter (\<lambda>s. s \<notin> set elsewhere) requested;
          kept = length (filter (\<lambda>s. s \<in> set held) filtered);
          add = filter (\<lambda>s. s \<notin> set held \<and> s \<notin> set covered) filtered;
          units = kept + length add
      in if units = 0 then None
         else Some \<lparr>se_keep = filter (\<lambda>s. sr_season_number s \<in> set filtered) present, se_add = add,
           se_orphaned = map sr_id (filter (\<lambda>s. sr_season_number s \<notin> set filtered) present),
           se_units = int units\<rparr>)"

definition season_edit_of :: "db \<Rightarrow> entity \<Rightarrow> int list \<Rightarrow> (outcome, season_edit) res" where
  "season_edit_of d e requested =
     (let row = en_row e;
          tmdb_id = (case en_media e of None \<Rightarrow> 0 | Some m \<Rightarrow> m_tmdb_id m)
      in case media_by_tmdb d tmdb_id ''tv'' of
           None \<Rightarrow> Inl (Forward ''the request could not be loaded'')
         | Some media \<Rightarrow>
             let others = requests_of_media d (m_id media);
                 existing = concat (map (\<lambda>r. map sr_season_number (r_seasons r))
                   (filter (\<lambda>r. r_is4k r = r_is4k row \<and> r_id r \<noteq> r_id row \<and>
                      r_status r \<noteq> DECLINED \<and> r_status r \<noteq> COMPLETED) others));
                 covered = map sn_season_number (filter (\<lambda>s.
                   let status = season_status (r_is4k row) s
                   in status \<noteq> M_UNKNOWN \<and> status \<noteq> M_DELETED) (m_seasons media))
             in (case plan_season_edit requested existing (r_seasons row) covered of
                   Some edit \<Rightarrow> Inr edit
                 | None \<Rightarrow> Inl (Error 202 ''No seasons available to request'')))"

subsection \<open>The save\<close>

text \<open>
  \<open>save_rows\<close>: new seasons, the row, the seasons let go. \<open>modify_request\<close> rewrites the row with an id.
\<close>

definition modify_request :: "int \<Rightarrow> (request_row \<Rightarrow> request_row) \<Rightarrow> db \<Rightarrow> db" where
  "modify_request i f d = d\<lparr>request_table := map (\<lambda>r. if r_id r = i then f r else r) (request_table d)\<rparr>"

definition release_seasons ::
  "string option \<Rightarrow> int list \<Rightarrow> season_request_row list \<Rightarrow> season_request_row list" where
  "release_seasons stamp ids seasons =
     map (\<lambda>s. s\<lparr>sr_request_id := None, sr_updated_at := stamp\<rparr>) (filter (\<lambda>s. sr_id s \<in> set ids) seasons)"

definition save_rows ::
  "string option \<Rightarrow> db \<Rightarrow> request_row \<Rightarrow> (string \<times> bind) list \<Rightarrow> season_edit option \<Rightarrow> db \<times> int list" where
  "save_rows stamp d row sets seasons =
     (let i = r_id row;
          (added, next_season) = insert_seasons stamp i PENDING
            (case seasons of None \<Rightarrow> [] | Some edit \<Rightarrow> se_add edit) (next_season_request d);
          orphaned = (case seasons of None \<Rightarrow> [] | Some edit \<Rightarrow> se_orphaned edit)
      in ((modify_request i (\<lambda>r. (update_request stamp sets r)
             \<lparr>r_seasons := filter (\<lambda>s. sr_id s \<notin> set orphaned) (r_seasons r) @ added\<rparr>) d)
           \<lparr>next_season_request := next_season,
            loose_seasons := loose_seasons d @ release_seasons stamp orphaned (r_seasons row)\<rparr>,
          map sr_id added))"

text \<open>\<open>save\<close>: the entity afterwards has the row's new date and only the seasons added.\<close>

definition save_edit ::
  "string option \<Rightarrow> db \<Rightarrow> entity \<Rightarrow> (string \<times> bind) list \<Rightarrow> season_edit option \<Rightarrow> db \<times> entity" where
  "save_edit stamp d e sets seasons =
     (let (d', added) = save_rows stamp d (en_row e) sets seasons
      in (d', case request_by_id d' (r_id (en_row e)) of
           None \<Rightarrow> e
         | Some reloaded \<Rightarrow> e\<lparr>en_row := (en_row e)
             \<lparr>r_updated_at := (if sets = [] then r_updated_at (en_row e) else r_updated_at reloaded),
              r_seasons := filter (\<lambda>s. sr_id s \<in> set added) (r_seasons reloaded)\<rparr>\<rparr>))"

subsection \<open>The answer\<close>

definition loaded_json :: "printing \<Rightarrow> json \<Rightarrow> entity \<Rightarrow> user_record \<Rightarrow> (outcome, jmap) res" where
  "loaded_json pr settings e requested_by =
     (let row = en_row e;
          items = (case en_media e of
            None \<Rightarrow> no_downloads
          | Some m \<Rightarrow> if tracks_downloads m then pr_downloads pr else no_downloads)
      in forwarding
        (and_then (embedded_json (pr_parse pr) requested_by) (\<lambda>requester.
         and_then (case en_modified_by e of
             None \<Rightarrow> Inr JNull | Some u \<Rightarrow> embedded_json (pr_parse pr) u) (\<lambda>modifier.
           Inr (put_entries
             [(''media'', case en_media e of
                 None \<Rightarrow> JNull
               | Some m \<Rightarrow> media_json (pr_num pr) (pr_plugin pr) m settings items True),
              (''requestedBy'', requester), (''modifiedBy'', modifier),
              (''seasons'', seasons_json (r_seasons row)), (''episodes'', episodes_json (r_episodes row)),
              (''seasonCount'', count_of (r_seasons row))] (columns (pr_float pr) row [])))))) "

definition edited_json :: "jmap \<Rightarrow> entity \<Rightarrow> edit_body \<Rightarrow> bool \<Rightarrow> season_edit option \<Rightarrow> json" where
  "edited_json out e body tv seasons =
     (let row = en_row e;
          out = (if eb_routing body then put_entries
            [(''serverId'', j_number (eb_server_id body)), (''profileId'', j_number (eb_profile_id body)),
             (''rootFolder'', j_text (eb_root_folder body)),
             (''tags'', unwrap_or JNull (int_tags (eb_tags body)))] out else out);
          out = obj_insert ''updatedAt'' (j_text (r_updated_at row)) out;
          out = (if tv then
            let out = (if eb_routing body
                  then obj_insert ''languageProfileId'' (j_number (eb_language_profile_id body)) out else out);
                out = (if eb_metadata_language_id body \<noteq> Keep
                  then obj_insert ''metadataLanguageId'' (j_number (assign_value (eb_metadata_language_id body))) out
                  else out)
            in obj_insert ''ongoingEpisodeRequestKey'' JNull out else out)
      in JObj (case seasons of
           None \<Rightarrow> out
         | Some edit \<Rightarrow> put_entries
             [(''tvQuotaUnits'', JInt (se_units edit)),
              (''seasons'', JArr (map season_request_json (se_keep edit) @
                map (\<lambda>s. JObj (put_entries
                  [(''seasonNumber'', JInt (sr_season_number s)), (''status'', JInt (sr_status s)),
                   (''id'', JInt (sr_id s)), (''createdAt'', j_text (sr_created_at s)),
                   (''updatedAt'', j_text (sr_updated_at s))] [])) (r_seasons row)))] out))"

subsection \<open>Episode selections\<close>

definition edit_preconditions :: "env \<Rightarrow> entity \<Rightarrow> edit_body \<Rightarrow> (outcome, selection) res" where
  "edit_preconditions env e body =
     (let tmdb_id = (case en_media e of None \<Rightarrow> 0 | Some m \<Rightarrow> m_tmdb_id m)
      in and_then (case e_tmdb env False tmdb_id (main_locale (e_settings env)) of
           Inr details \<Rightarrow> Inr details
         | Inl message \<Rightarrow> Inl (Error 500 (''[TMDB] Failed to fetch TV show details: '' @ message))) (\<lambda>details.
         if \<not> available (e_num env) (e_settings env) details
         then Inl (Error 400 ''Episode requests require partial requests and the TVDB metadata provider.'')
         else case opt_filter (\<lambda>s. s \<noteq> JNull \<and> eb_seasons body = None) (eb_episode_selection body) of
           None \<Rightarrow> Inl (Error 400 ''Episode requests require an episode selection and cannot include seasons.'')
         | Some raw \<Rightarrow> refusing (parse_selection (e_pretty env) raw)))"

definition resolve_edit :: "env \<Rightarrow> entity \<Rightarrow> selection \<Rightarrow> int \<Rightarrow> (outcome, resolved) res" where
  "resolve_edit env e s uid =
     (let tmdb_id = (case en_media e of None \<Rightarrow> 0 | Some m \<Rightarrow> m_tmdb_id m)
      in and_then (env_catalog env tmdb_id) (\<lambda>cat.
        let played = (case s of
              WatchAhead _ \<Rightarrow>
                played_of (Option.bind (en_media e)
                    (\<lambda>m. if r_is4k (en_row e) then m_jellyfin_media_id4k m else m_jellyfin_media_id m))
                  (e_played env uid) cat
            | _ \<Rightarrow> {})
        in refusing (resolve s cat (specials (e_settings env)) played)))"

text \<open>\<open>save\<close> of \<open>requestepisodes.rs\<close>: the old episodes out, the row, the new episodes, the seasons let go.\<close>

definition save_episodes ::
  "string option \<Rightarrow> db \<Rightarrow> request_row \<Rightarrow> (string \<times> bind) list \<Rightarrow> resolved \<Rightarrow> (string, db) res" where
  "save_episodes stamp d row sets r =
     and_then (insert_episodes stamp (r_id row) PENDING (rs_episodes r) [] (next_episode_request d))
       (\<lambda>(rows, next_episode).
         Inr ((modify_request (r_id row) (\<lambda>q. (update_request stamp sets q)
                \<lparr>r_episodes := rows, r_seasons := filter (\<lambda>s. sr_id s \<notin> set (map sr_id (r_seasons row))) (r_seasons q)\<rparr>) d)
              \<lparr>next_episode_request := next_episode,
               loose_seasons := loose_seasons d @ release_seasons stamp (map sr_id (r_seasons row)) (r_seasons row)\<rparr>))"

definition edited_episodes_json ::
  "jmap \<Rightarrow> edit_body \<Rightarrow> resolved \<Rightarrow> string option \<Rightarrow> request_row \<Rightarrow> bool \<Rightarrow> json" where
  "edited_episodes_json out body r key reloaded updated =
     (let out = (if eb_routing body then fold (\<lambda>(k, v). assign_json k v updated)
            [(''serverId'', map_option JInt (eb_server_id body)), (''profileId'', map_option JInt (eb_profile_id body)),
             (''rootFolder'', map_option JStr (eb_root_folder body)),
             (''languageProfileId'', map_option JInt (eb_language_profile_id body)),
             (''tags'', int_tags (eb_tags body))] out else out);
          out = (if eb_metadata_language_id body \<noteq> Keep
            then obj_insert ''metadataLanguageId'' (j_number (assign_value (eb_metadata_language_id body))) out
            else out);
          out = put_entries
            [(''episodes'', new_episodes_json (rs_episodes r) PENDING (r_episodes reloaded)),
             (''seasons'', JArr []), (''episodeSelectionType'', JStr (rs_kind r)),
             (''episodeStartTvdbId'', JInt (rs_start r))] out;
          out = fold (\<lambda>(k, v). assign_json k v updated)
            [(''episodeEndTvdbId'', map_option JInt (rs_end r)),
             (''watchAheadCount'', map_option JInt (rs_watch_ahead r))] out;
          out = obj_insert ''tvQuotaUnits'' (JInt (quota_units (rs_episodes r))) out;
          out = assign_json ''ongoingEpisodeRequestKey'' (map_option JStr key) updated out
      in JObj (obj_insert ''updatedAt'' (j_text (r_updated_at reloaded)) out))"

definition edit_episodes ::
  "printing \<Rightarrow> env \<Rightarrow> db \<Rightarrow> entity \<Rightarrow> edit_body \<Rightarrow> user_record \<Rightarrow> (outcome, db \<times> json) res" where
  "edit_episodes pr env d e body requester =
     (let row = en_row e
      in and_then (edit_preconditions env e body) (\<lambda>s.
         and_then (resolve_edit env e s (u_id requester)) (\<lambda>r.
         and_then (forwarding (quotas (e_zone env) (e_now env) (e_created env) (e_settings env) d requester))
           (\<lambda>(_, tv_quota).
         let units = quota_units (rs_episodes r);
             held = held_units tv_quota (r_requested_by_id row \<noteq> Some (u_id requester))
               (r_created_at row) (r_tv_quota_units row)
         in if edit_exceeds tv_quota (r_ignore_quota row) units held
            then Inl (Error 403 ''Series Quota exceeded.'')
            else
              let tmdb_id = (case en_media e of None \<Rightarrow> 0 | Some m \<Rightarrow> m_tmdb_id m);
                  key = (if is_rolling (Some (rs_kind r)) then Some (lock_key tmdb_id (r_is4k row)) else None)
              in if (case key of None \<Rightarrow> False
                     | Some k \<Rightarrow> ongoing_conflict (e_index env) d k (rs_kind r) (Some (r_id row)))
                 then Inl (Error 409 ''An ongoing episode request already exists for this series.'')
                 else
                   let sets = changed_columns row body True (u_id requester) @ episode_columns row r key
                   in and_then (loaded_json pr (e_settings env) e requester) (\<lambda>loaded.
                      case save_episodes (e_stamp env) d row sets r of
                        Inl message \<Rightarrow> Inl (Error 500 message)
                      | Inr d' \<Rightarrow>
                          (case request_by_id d' (r_id row) of
                             None \<Rightarrow> Inl (Error 500 ''the request vanished'')
                           | Some reloaded \<Rightarrow>
                               Inr (d', edited_episodes_json loaded body r key reloaded (sets \<noteq> []))))))))"

subsection \<open>The whole edit\<close>

definition edit_requester ::
  "db \<Rightarrow> current_user \<Rightarrow> edit_body \<Rightarrow> entity \<Rightarrow> int \<Rightarrow> (outcome, user_record) res" where
  "edit_requester d user body e owner =
     and_then
       (case eb_user_id body of
          None \<Rightarrow> Inr (en_requested_by e)
        | Some uid \<Rightarrow>
            if uid \<noteq> owner \<and> \<not> has_all (cu_permissions user) (MANAGE_USERS OR MANAGE_REQUESTS)
            then Inl (Error 403 ''You do not have permission to modify the request user.'')
            else (case user_by_id d uid of
                    Some rel \<Rightarrow> Inr (Some rel)
                  | None \<Rightarrow> Inl (Error 500 ''User not found.'')))
       (\<lambda>u. case u of
          Some u \<Rightarrow> Inr u
        | None \<Rightarrow> Inl (Forward ''the requester is gone''))"

text \<open>The checks of the handler up to the requester: who may edit what.\<close>

definition edit_allowed :: "current_user \<Rightarrow> edit_body \<Rightarrow> entity \<Rightarrow> (outcome, string \<times> int) res" where
  "edit_allowed user body e =
     (case en_media e of
        None \<Rightarrow> Inl (Forward ''the request has no media'')
      | Some m \<Rightarrow>
          if eb_media_type body \<noteq> m_media_type m
          then Inl (Error 400 ''A request cannot change its media type.'')
          else (case r_requested_by_id (en_row e) of
            None \<Rightarrow> Inl (Forward ''the request has no requester'')
          | Some owner \<Rightarrow>
              let tv = (m_media_type m = ''tv'')
              in if (owner \<noteq> cu_id user \<or> (\<not> tv \<and> \<not> has_permission (cu_permissions user) REQUEST_ADVANCED)) \<and>
                    \<not> has_permission (cu_permissions user) MANAGE_REQUESTS
                 then Inl (Error 403 ''You do not have permission to modify this request.'')
                 else if r_status (en_row e) \<noteq> PENDING
                 then Inl (Error 409 ''Only pending requests can be modified.'')
                 else Inr (m_media_type m, owner)))"

definition is_episodic :: "edit_body \<Rightarrow> entity \<Rightarrow> bool" where
  "is_episodic body e \<longleftrightarrow>
     opt_filter (\<lambda>t. t \<noteq> []) (r_episode_selection_type (en_row e)) \<noteq> None \<or>
     opt_filter (\<lambda>s. s \<noteq> JNull) (eb_episode_selection body) \<noteq> None"

text \<open>The seasons a series edit ends up with, or the movie quota of a new owner.\<close>

definition edit_seasons ::
  "env \<Rightarrow> db \<Rightarrow> edit_body \<Rightarrow> entity \<Rightarrow> bool \<Rightarrow> int \<Rightarrow> user_record \<Rightarrow> (outcome, season_edit option) res" where
  "edit_seasons env d body e tv owner requester =
     (let row = en_row e;
          owner_changing = (u_id requester \<noteq> owner);
          the_quotas = forwarding (quotas (e_zone env) (e_now env) (e_created env) (e_settings env) d requester)
      in if tv then
           (case opt_filter (\<lambda>s. s \<noteq> []) (eb_seasons body) of
              None \<Rightarrow> Inl (Error 400
                ''Missing seasons. If you want to cancel a series request, use the DELETE method.'')
            | Some requested \<Rightarrow>
                and_then (season_edit_of d e requested) (\<lambda>edit.
                and_then the_quotas (\<lambda>(_, tv_quota).
                  let held = held_units tv_quota owner_changing (r_created_at row) (r_tv_quota_units row)
                  in if edit_exceeds tv_quota (r_ignore_quota row) (se_units edit) held
                     then Inl (Error 403 ''Series Quota exceeded.'')
                     else Inr (Some edit))))
         else if owner_changing \<and> \<not> r_ignore_quota row then
           and_then the_quotas (\<lambda>(movie_quota, _).
             if q_restricted movie_quota then Inl (Error 403 ''Movie Quota exceeded.'') else Inr None)
         else Inr None)"

definition edit_sets ::
  "edit_body \<Rightarrow> entity \<Rightarrow> bool \<Rightarrow> user_record \<Rightarrow> season_edit option \<Rightarrow> (string \<times> bind) list" where
  "edit_sets body e tv requester seasons =
     changed_columns (en_row e) body tv (u_id requester) @
     (case seasons of
        None \<Rightarrow> []
      | Some edit \<Rightarrow>
          if se_units edit \<noteq> r_tv_quota_units (en_row e) then [(''tvQuotaUnits'', BInt (se_units edit))] else [])"

definition edit_request ::
  "printing \<Rightarrow> env \<Rightarrow> db \<Rightarrow> current_user option \<Rightarrow> int \<Rightarrow> json option \<Rightarrow> (outcome, db \<times> json) res" where
  "edit_request pr env d viewer i raw =
     and_then (authenticated viewer 0) (\<lambda>user.
     and_then (parse_edit raw) (\<lambda>body.
     and_then (case load_entity d i of
         Some e \<Rightarrow> Inr e | None \<Rightarrow> Inl (Error 404 ''Request not found.'')) (\<lambda>e.
     and_then (edit_allowed user body e) (\<lambda>(mt, owner).
       let tv = (mt = ''tv'');
           body = (if tv \<and> \<not> has_permission (cu_permissions user) (MANAGE_REQUESTS OR REQUEST_ADVANCED)
                   then keep_routing body else body)
       in and_then (edit_requester d user body e owner) (\<lambda>requester.
          if tv \<and> is_episodic body e then edit_episodes pr env d e body requester
          else and_then (edit_seasons env d body e tv owner requester) (\<lambda>seasons.
            let sets = edit_sets body e tv requester seasons;
                seasons_change = (case seasons of None \<Rightarrow> False
                  | Some s \<Rightarrow> se_add s \<noteq> [] \<or> se_orphaned s \<noteq> [])
            in and_then (loaded_json pr (e_settings env) e requester) (\<lambda>loaded.
               if sets = [] \<and> \<not> seasons_change
               then Inr (d, edited_json loaded e body tv seasons)
               else let (d', e') = save_edit (e_stamp env) d e sets seasons
                    in Inr (d', edited_json loaded e' body tv seasons))))))))"

end
