(* ===== verification/Lifecycle.thy ===== *)
theory Lifecycle
  imports Request_Edit
begin

section \<open>Around the save of a request\<close>

text \<open>
  The database side of \<open>src/backend-rs/src/lifecycle.rs\<close>: what a save writes (\<open>write_request\<close>,
  \<open>write_rows\<close>, \<open>reload_dates\<close>), how a media row follows the status of its requests
  (\<open>update_parent_status\<close>, \<open>after_remove\<close>), and where the episodes and seasons of a request stand
  (\<open>episodes_done\<close>, \<open>season_left_out\<close>, \<open>series_ready\<close>). \<open>remove_request\<close> is \<open>DELETE /request/{id}\<close> of
  \<open>routes/requestedit.rs\<close>. Reads of the database succeed; deleting a request takes its season and
  episode rows along (\<open>ON DELETE CASCADE\<close>).
\<close>

definition FAILED :: int where "FAILED = 4"
definition M_PARTIAL :: int where "M_PARTIAL = 4"

definition status_of :: "media_row \<Rightarrow> bool \<Rightarrow> int" where
  "status_of m four_k = (if four_k then m_status4k m else m_status m)"

subsection \<open>Statements\<close>

definition modify_media :: "int \<Rightarrow> (media_row \<Rightarrow> media_row) \<Rightarrow> db \<Rightarrow> db" where
  "modify_media i f d = d\<lparr>media_table := map (\<lambda>m. if m_id m = i then f m else m) (media_table d)\<rparr>"

definition modify_season :: "int \<Rightarrow> (season_row \<Rightarrow> season_row) \<Rightarrow> db \<Rightarrow> db" where
  "modify_season i f d = d\<lparr>media_table := map (\<lambda>m. m\<lparr>m_seasons :=
     map (\<lambda>s. if sn_id s = i then f s else s) (m_seasons m)\<rparr>) (media_table d)\<rparr>"

definition modify_season_request :: "int \<Rightarrow> (season_request_row \<Rightarrow> season_request_row) \<Rightarrow> db \<Rightarrow> db" where
  "modify_season_request i f d =
     (let g = map (\<lambda>s. if sr_id s = i then f s else s)
      in d\<lparr>request_table := map (\<lambda>r. r\<lparr>r_seasons := g (r_seasons r)\<rparr>) (request_table d),
           loose_seasons := g (loose_seasons d)\<rparr>)"

definition modify_episode :: "int \<Rightarrow> (episode_request_row \<Rightarrow> episode_request_row) \<Rightarrow> db \<Rightarrow> db" where
  "modify_episode i f d = d\<lparr>request_table := map (\<lambda>r. r\<lparr>r_episodes :=
     map (\<lambda>e. if er_id e = i then f e else e) (r_episodes r)\<rparr>) (request_table d)\<rparr>"

definition with_status :: "bool \<Rightarrow> int \<Rightarrow> media_row \<Rightarrow> media_row" where
  "with_status four_k status m =
     (if four_k then m\<lparr>m_status4k := status\<rparr> else m\<lparr>m_status := status\<rparr>)"

definition set_media_status :: "string option \<Rightarrow> int \<Rightarrow> bool \<Rightarrow> int \<Rightarrow> db \<Rightarrow> db" where
  "set_media_status stamp i four_k status =
     modify_media i (\<lambda>m. (with_status four_k status m)\<lparr>m_updated_at := stamp\<rparr>)"

definition set_season_status :: "string option \<Rightarrow> int \<Rightarrow> bool \<Rightarrow> int \<Rightarrow> db \<Rightarrow> db" where
  "set_season_status stamp i four_k status =
     modify_season i (\<lambda>s. if four_k then s\<lparr>sn_status4k := status, sn_updated_at := stamp\<rparr>
       else s\<lparr>sn_status := status, sn_updated_at := stamp\<rparr>)"

subsection \<open>A save\<close>

definition write_season_statuses :: "string option \<Rightarrow> request_row \<Rightarrow> request_row \<Rightarrow> db \<Rightarrow> db" where
  "write_season_statuses stamp row stored d =
     fold (\<lambda>s d.
       if (case find (\<lambda>b. sr_id b = sr_id s) (r_seasons stored) of
             None \<Rightarrow> False | Some b \<Rightarrow> sr_status b \<noteq> sr_status s)
       then modify_season_request (sr_id s) (\<lambda>x. x\<lparr>sr_status := sr_status s, sr_updated_at := stamp\<rparr>) d
       else d) (r_seasons row) d"

definition write_episode_statuses :: "string option \<Rightarrow> request_row \<Rightarrow> request_row \<Rightarrow> db \<Rightarrow> db" where
  "write_episode_statuses stamp row stored d =
     fold (\<lambda>e d.
       if (case find (\<lambda>b. er_id b = er_id e) (r_episodes stored) of
             None \<Rightarrow> False
           | Some b \<Rightarrow> er_status b \<noteq> er_status e \<or> er_search_triggered_at b \<noteq> er_search_triggered_at e)
       then modify_episode (er_id e) (\<lambda>x. x\<lparr>er_status := er_status e,
              er_search_triggered_at := (if er_search_triggered_at e = None then None else stamp),
              er_updated_at := stamp\<rparr>) d
       else d) (r_episodes row) d"

definition write_rows ::
  "string option \<Rightarrow> db \<Rightarrow> request_row \<Rightarrow> request_row \<Rightarrow> bool \<Rightarrow> db \<times> bool" where
  "write_rows stamp d row stored with_row =
     (let row_changed = (with_row \<and>
            (r_status stored \<noteq> r_status row \<or> r_modified_by_id stored \<noteq> r_modified_by_id row));
          d = (if row_changed
               then modify_request (r_id row) (\<lambda>r. r\<lparr>r_status := r_status row,
                      r_modified_by_id := r_modified_by_id row, r_updated_at := stamp\<rparr>) d
               else d)
      in (write_episode_statuses stamp row stored (write_season_statuses stamp row stored d), row_changed))"

definition reload_dates :: "db \<Rightarrow> request_row \<Rightarrow> bool \<Rightarrow> request_row" where
  "reload_dates d row with_row =
     (case request_by_id d (r_id row) of
        None \<Rightarrow> row
      | Some f \<Rightarrow>
          row\<lparr>r_updated_at := (if with_row then r_updated_at f else r_updated_at row),
              r_seasons := map (\<lambda>s. case find (\<lambda>x. sr_id x = sr_id s) (r_seasons f) of
                  None \<Rightarrow> s | Some x \<Rightarrow> s\<lparr>sr_updated_at := sr_updated_at x\<rparr>) (r_seasons row),
              r_episodes := map (\<lambda>e. case find (\<lambda>x. er_id x = er_id e) (r_episodes f) of
                  None \<Rightarrow> e
                | Some x \<Rightarrow> e\<lparr>er_updated_at := er_updated_at x,
                    er_search_triggered_at := er_search_triggered_at x\<rparr>) (r_episodes row)\<rparr>)"

definition save_request :: "string option \<Rightarrow> db \<Rightarrow> request_row \<Rightarrow> bool \<Rightarrow> db \<times> request_row \<times> bool" where
  "save_request stamp d row with_row =
     (case request_by_id d (r_id row) of
        None \<Rightarrow> (d, row, False)
      | Some stored \<Rightarrow>
          let (d', row_changed) = write_rows stamp d row stored with_row
          in (d', reload_dates d' row with_row, row_changed))"

subsection \<open>The media follows\<close>

text \<open>The other pending requests of a title, and the other active requests that hold a season.\<close>

definition other_pending :: "db \<Rightarrow> int \<Rightarrow> request_row \<Rightarrow> bool" where
  "other_pending d media_id row \<longleftrightarrow>
     list_ex (\<lambda>r. r_media_id r = Some media_id \<and> r_status r = PENDING \<and> r_is4k r = r_is4k row \<and>
       r_id r \<noteq> r_id row) (request_table d)"

definition season_wanted :: "db \<Rightarrow> int \<Rightarrow> request_row \<Rightarrow> int \<Rightarrow> bool" where
  "season_wanted d media_id row number \<longleftrightarrow>
     list_ex (\<lambda>r. r_media_id r = Some media_id \<and> r_id r \<noteq> r_id row \<and> r_is4k r = r_is4k row \<and>
       r_status r \<notin> {3, 5} \<and> list_ex (\<lambda>s. sr_season_number s = number) (r_seasons r)) (request_table d)"

definition decline_season :: "string option \<Rightarrow> int \<Rightarrow> media_row \<Rightarrow> request_row \<Rightarrow> season_request_row \<Rightarrow> db \<Rightarrow> db" where
  "decline_season stamp media_id media row season d =
     (case find (\<lambda>s. sn_season_number s = sr_season_number season) (m_seasons media) of
        None \<Rightarrow> d
      | Some actual \<Rightarrow>
          if season_status (r_is4k row) actual = M_PENDING \<and>
             \<not> season_wanted d media_id row (sr_season_number season)
          then set_season_status stamp (sn_id actual) (r_is4k row) M_UNKNOWN d else d)"

definition with_child_status :: "int \<Rightarrow> request_row \<Rightarrow> request_row" where
  "with_child_status status row =
     row\<lparr>r_seasons := map (\<lambda>s. s\<lparr>sr_status := status\<rparr>) (r_seasons row),
         r_episodes := map (\<lambda>e. e\<lparr>er_status := status\<rparr>) (r_episodes row)\<rparr>"

definition update_parent_status :: "string option \<Rightarrow> db \<Rightarrow> request_row \<Rightarrow> db \<times> request_row" where
  "update_parent_status stamp d row =
     (case r_media_id row of
        None \<Rightarrow> (d, row)
      | Some media_id \<Rightarrow>
          (case media_by_id d media_id of
             None \<Rightarrow> (d, row)
           | Some media \<Rightarrow>
               let four = r_is4k row;
                   now = status_of media four;
                   movie = (m_media_type media = ''movie'');
                   tv = (m_media_type media = ''tv'');
                   declined = (r_status row = DECLINED);
                   approved = (r_status row = APPROVED);
                   stored = (if tv \<and> (declined \<or> approved) then request_by_id d (r_id row) else None);
                   d = (if approved \<and> now \<notin> {M_AVAILABLE, M_PARTIAL, M_PROCESSING}
                        then set_media_status stamp media_id four M_PROCESSING d else d);
                   d = (if movie \<and> declined \<and> now \<noteq> M_DELETED
                        then set_media_status stamp media_id four M_UNKNOWN d else d);
                   d = (if tv \<and> declined then
                          fold (decline_season stamp media_id media row) (r_seasons row)
                            (if now = M_PENDING \<and> \<not> other_pending d media_id row
                             then set_media_status stamp media_id four M_UNKNOWN d else d)
                        else d);
                   row = (if tv \<and> declined then with_child_status DECLINED row
                          else if tv \<and> approved then with_child_status APPROVED row else row)
               in (case stored of
                     None \<Rightarrow> (d, row)
                   | Some stored \<Rightarrow>
                       let d' = fst (write_rows stamp d row stored False)
                       in (d', reload_dates d' row False))))"

subsection \<open>After a removal\<close>

datatype media_write = SetMedia "int option" "int option" | SetSeason bool int int

definition is_open :: "request_row \<Rightarrow> bool" where
  "is_open r \<longleftrightarrow> r_status r \<noteq> COMPLETED \<and> r_status r \<noteq> DECLINED"

definition fallback_status :: "request_row list \<Rightarrow> bool \<Rightarrow> int \<Rightarrow> int option" where
  "fallback_status requests four_k now =
     (if list_ex (\<lambda>r. r_is4k r = four_k \<and> is_open r) requests \<or> now = M_AVAILABLE \<or> now = M_PARTIAL then None
      else Some (if list_ex (\<lambda>r. r_is4k r = four_k \<and> r_status r = COMPLETED) requests
                 then M_DELETED else M_UNKNOWN))"

definition child_seasons :: "request_row \<Rightarrow> int list" where
  "child_seasons r = map sr_season_number (r_seasons r) @ map er_season_number (r_episodes r)"

definition after_remove :: "db \<Rightarrow> request_row \<Rightarrow> int list \<Rightarrow> (string, media_write list) res" where
  "after_remove d row removed =
     (case Option.bind (r_media_id row) (media_by_id d) of
        None \<Rightarrow> Inl ''Media data not found''
      | Some media \<Rightarrow>
          let requests = filter (\<lambda>r. r_id r \<noteq> r_id row \<and> r_id r \<notin> set removed) (requests_of_media d (m_id media));
              status = opt_filter (\<lambda>s. s \<noteq> m_status media) (fallback_status requests False (m_status media));
              status4k = opt_filter (\<lambda>s. s \<noteq> m_status4k media) (fallback_status requests True (m_status4k media));
              four = r_is4k row;
              numbers = child_seasons row;
              still_active = concat (map child_seasons (filter (\<lambda>r. r_is4k r = four \<and> is_open r) requests))
          in Inr ((if status \<noteq> None \<or> status4k \<noteq> None then [SetMedia status status4k] else []) @
               (if m_media_type media = ''tv'' then
                  map (\<lambda>s. SetSeason four (sn_id s) M_UNKNOWN) (filter (\<lambda>s.
                    sn_season_number s \<in> set numbers \<and> sn_season_number s \<notin> set still_active \<and>
                    (season_status four s = M_PENDING \<or> season_status four s = M_PROCESSING)) (m_seasons media))
                else [])))"

definition apply_write :: "string option \<Rightarrow> int \<Rightarrow> media_write \<Rightarrow> db \<Rightarrow> db" where
  "apply_write stamp media_id w =
     (case w of
        SetMedia status status4k \<Rightarrow> modify_media media_id (\<lambda>m.
          m\<lparr>m_status := unwrap_or (m_status m) status, m_status4k := unwrap_or (m_status4k m) status4k,
            m_updated_at := stamp\<rparr>)
      | SetSeason four i status \<Rightarrow> set_season_status stamp i four status)"

definition delete_request :: "int \<Rightarrow> db \<Rightarrow> db" where
  "delete_request i d = d\<lparr>request_table := filter (\<lambda>r. r_id r \<noteq> i) (request_table d)\<rparr>"

definition remove_with_hook :: "string option \<Rightarrow> db \<Rightarrow> request_row \<Rightarrow> (string, db) res" where
  "remove_with_hook stamp d row =
     and_then (after_remove d row [r_id row]) (\<lambda>writes.
       Inr (fold (apply_write stamp (unwrap_or 0 (r_media_id row))) writes (delete_request (r_id row) d)))"

definition remove_request :: "string option \<Rightarrow> db \<Rightarrow> current_user option \<Rightarrow> int \<Rightarrow> (outcome, db) res" where
  "remove_request stamp d viewer i =
     and_then (authenticated viewer 0) (\<lambda>user.
       case load_entity d i of
         None \<Rightarrow> Inl (Error 404 ''Request not found.'')
       | Some e \<Rightarrow>
           and_then
             (if has_permission (cu_permissions user) MANAGE_REQUESTS then Inr ()
              else (case r_requested_by_id (en_row e) of
                None \<Rightarrow> Inl (Error 404 ''Request not found.'')
              | Some owner \<Rightarrow>
                  if owner = cu_id user \<and> r_status (en_row e) = PENDING then Inr ()
                  else Inl (Error 401 ''You do not have permission to delete this request.'')))
             (\<lambda>_. if en_media e = None then Inl (Error 404 ''Request not found.'')
                 else (case remove_with_hook stamp d (en_row e) of
                         Inl _ \<Rightarrow> Inl (Error 404 ''Request not found.'')
                       | Inr d' \<Rightarrow> Inr d')))"

subsection \<open>Where a request stands\<close>

datatype episodes_done = Pending | Complete | AllFailed

definition episodes_done :: "episode_request_row list \<Rightarrow> episodes_done" where
  "episodes_done episodes =
     (if episodes \<noteq> [] \<and> list_all (\<lambda>e. er_status e = FAILED) episodes then AllFailed
      else if list_all (\<lambda>e. er_status e = COMPLETED \<or> er_status e = FAILED) episodes then Complete
      else Pending)"

definition season_left_out :: "int list \<Rightarrow> int list \<Rightarrow> bool" where
  "season_left_out mapped left_out \<longleftrightarrow> mapped \<noteq> [] \<and> list_all (\<lambda>s. s \<in> set left_out) mapped"

definition series_ready :: "request_row \<Rightarrow> int list \<Rightarrow> bool" where
  "series_ready row avail =
     (if r_episodes row = [] then
        (let wanted = filter (\<lambda>s. sr_status s \<noteq> FAILED) (r_seasons row)
         in wanted \<noteq> [] \<and> list_all (\<lambda>s. sr_season_number s \<in> set avail) wanted)
      else episodes_done (r_episodes row) = Complete)"

definition fail_season_rows :: "string option \<Rightarrow> db \<Rightarrow> int list \<Rightarrow> db" where
  "fail_season_rows stamp d ids =
     fold (\<lambda>i. modify_season_request i (\<lambda>s. if sr_status s = APPROVED
       then s\<lparr>sr_status := FAILED, sr_updated_at := stamp\<rparr> else s)) ids d"

text \<open>The server a request goes to, and whether its own settings apply there.\<close>

definition pick_server :: "json list \<Rightarrow> int option \<Rightarrow> bool \<Rightarrow> (json \<times> bool) option" where
  "pick_server servers server_id four_k =
     (let same_quality = (\<lambda>s. Option.bind (jget s ''is4k'') as_bool = Some four_k);
          default_server = find (\<lambda>s. truthy (jget s ''isDefault'') \<and> same_quality s) servers
      in case opt_filter (\<lambda>i. 0 \<le> i) server_id of
           None \<Rightarrow> map_option (\<lambda>s. (s, True)) default_server
         | Some i \<Rightarrow>
             let has_id = (\<lambda>s. Option.bind (jget s ''id'') as_i64 = Some i)
             in if (case default_server of None \<Rightarrow> False | Some s \<Rightarrow> has_id s)
                then map_option (\<lambda>s. (s, True)) default_server
                else (case find (\<lambda>s. has_id s \<and> same_quality s) servers of
                        Some server \<Rightarrow> Some (server, True)
                      | None \<Rightarrow> map_option (\<lambda>s. (s, False)) default_server))"

end
