(* ===== verification/Lifecycle_Send.thy ===== *)
theory Lifecycle_Send
  imports Lifecycle
begin

section \<open>Sending requests on\<close>

text \<open>
  The hooks of \<open>src/backend-rs/src/lifecycle.rs\<close> around the save of a request: \<open>after_insert\<close>,
  \<open>after_update\<close>, \<open>send_to_radarr\<close>, \<open>send_to_sonarr\<close>, and what follows the background adds. What goes
  out (a notification, a movie for Radarr, a series for Sonarr) is an \<open>effect\<close>; the background work an
  add starts is a step of its own, later (\<open>movie_added\<close>, \<open>series_added\<close>).

  \<open>outside\<close> holds what the hooks ask for: Radarr's and Sonarr's tags, Sonarr's series lookup, the season
  mapping of \<open>mapping.rs\<close> (none where the database fails), and Unicode's decomposition.
\<close>

record outside =
  o_tags :: "json \<Rightarrow> (string, json list) res"
  o_create_tag :: "json \<Rightarrow> string \<Rightarrow> (string, json) res"
  o_series_by_tmdb :: "json \<Rightarrow> int \<Rightarrow> (string, json list) res"
  o_seasons :: "int \<Rightarrow> int list \<Rightarrow> int list option"
  o_nfd :: "string \<Rightarrow> string"
  o_float :: "string \<Rightarrow> json option"

datatype note_kind =
    MediaPending | MediaApproved | MediaAvailable | MediaFailed | MediaDeclined
  | MediaAutoApproved | MediaAutoRequested

record movie_options =
  mo_quality_profile :: json
  mo_root_folder :: json
  mo_minimum_availability :: json
  mo_title :: json
  mo_tmdb_id :: int
  mo_year :: json
  mo_tags :: "json list"
  mo_search_now :: bool

record series_options =
  so_quality_profile :: json
  so_language_profile :: json
  so_metadata_language :: "int option"
  so_root_folder :: json
  so_title :: json
  so_tvdb_id :: int
  so_seasons :: "int list"
  so_episode_tvdb_ids :: "int list option"
  so_season_folder :: json
  so_series_type :: json
  so_tags :: "json list"
  so_monitor_new_items :: json
  so_search_now :: bool

datatype effect =
    Notify note_kind int
  | AddMovie json movie_options
  | AddSeries json series_options

subsection \<open>Notifications\<close>

definition notify_approved_or_declined :: "entity \<Rightarrow> bool \<Rightarrow> effect list" where
  "notify_approved_or_declined e by_itself =
     (let row = en_row e;
          approved = (r_status row = APPROVED)
      in if \<not> approved \<and> r_status row \<noteq> DECLINED then []
         else (case en_media e of
           None \<Rightarrow> []
         | Some media \<Rightarrow>
             if approved \<and> status_of media (r_is4k row) = M_AVAILABLE then [Notify MediaAvailable (r_id row)]
             else [Notify (if approved then if by_itself then MediaAutoApproved else MediaApproved
                           else MediaDeclined) (r_id row)] @
                  (if approved \<and> by_itself \<and> r_is_auto_request row
                   then [Notify MediaAutoRequested (r_id row)] else [])))"

text \<open>A completed request is told available once its media, or what it asked of a series, is.\<close>

definition notify_available :: "env \<Rightarrow> db \<Rightarrow> entity \<Rightarrow> effect list" where
  "notify_available env d e =
     (let row = en_row e;
          tv = (case en_media e of None \<Rightarrow> False | Some m \<Rightarrow> m_media_type m = ''tv'')
      in case Option.bind (r_media_id row) (media_by_id d) of
           None \<Rightarrow> []
         | Some latest \<Rightarrow>
             let tmdb_id = (case en_media e of None \<Rightarrow> m_tmdb_id latest | Some m \<Rightarrow> m_tmdb_id m);
                 ready = (if tv then series_ready row (map sn_season_number (filter
                            (\<lambda>s. season_status (r_is4k row) s = M_AVAILABLE) (m_seasons latest)))
                          else status_of latest (r_is4k row) = M_AVAILABLE)
             in if \<not> ready then []
                else (case e_tmdb env (\<not> tv) tmdb_id (main_locale (e_settings env)) of
                        Inl _ \<Rightarrow> [] | Inr _ \<Rightarrow> [Notify MediaAvailable (r_id row)]))"

subsection \<open>A request that is settled\<close>

text \<open>
  \<open>after_update\<close> of a request that is not approved sends nothing on: only the notifications and the
  media are left. Marking a request failed or completed saves it this way.
\<close>

definition settled_update :: "env \<Rightarrow> db \<Rightarrow> entity \<Rightarrow> db \<times> entity \<times> effect list" where
  "settled_update env d e =
     (let told = notify_approved_or_declined e False;
          (d', row) = update_parent_status (e_stamp env) d (en_row e);
          e' = e\<lparr>en_row := row\<rparr>
      in (d', e', told @ (if r_status row = COMPLETED then notify_available env d' e' else [])))"

definition save_settled :: "env \<Rightarrow> db \<Rightarrow> entity \<Rightarrow> db \<times> entity \<times> effect list" where
  "save_settled env d e =
     (let (d', row, row_changed) = save_request (e_stamp env) d (en_row e) True;
          e' = e\<lparr>en_row := row\<rparr>
      in if row_changed then settled_update env d' e' else (d', e', []))"

definition with_request_status :: "int \<Rightarrow> entity \<Rightarrow> entity" where
  "with_request_status status e = e\<lparr>en_row := (en_row e)\<lparr>r_status := status\<rparr>\<rparr>"

subsection \<open>Tags\<close>

text \<open>\<open>Person::from_records\<close>'s display name, and \<open>sanitize_display_name\<close> on decomposed ASCII text.\<close>

definition display_name :: "user_record \<Rightarrow> string" where
  "display_name u = unwrap_or (email_text (u_email u))
     (first_name [u_username u, u_plex_username u, u_jellyfin_username u])"

fun hyphenate :: "string \<Rightarrow> bool \<Rightarrow> string" where
  "hyphenate [] last_space = []"
| "hyphenate (c # cs) last_space =
     (if is_ws c then (if last_space then [] else ''-'') @ hyphenate cs True
      else if is_alpha c \<or> is_digit c \<or> c = CHR ''-'' then c # hyphenate cs False
      else hyphenate cs False)"

fun collapse_hyphens :: "string \<Rightarrow> string" where
  "collapse_hyphens (a # b # cs) =
     (if a = CHR ''-'' \<and> b = CHR ''-'' then collapse_hyphens (b # cs) else a # collapse_hyphens (b # cs))"
| "collapse_hyphens cs = cs"

definition trim_hyphens :: "string \<Rightarrow> string" where
  "trim_hyphens s = rev (dropWhile (\<lambda>c. c = CHR ''-'') (rev (dropWhile (\<lambda>c. c = CHR ''-'') s)))"

definition sanitize_display_name :: "(string \<Rightarrow> string) \<Rightarrow> string \<Rightarrow> string" where
  "sanitize_display_name nfd name = trim_hyphens (collapse_hyphens (hyphenate (nfd name) False))"

definition starts_with :: "string \<Rightarrow> string \<Rightarrow> bool" where
  "starts_with p s \<longleftrightarrow> take (length p) s = p"

definition requester_tag :: "outside \<Rightarrow> json \<Rightarrow> entity \<Rightarrow> json list \<Rightarrow> (string, json list) res" where
  "requester_tag out server e tags =
     (case en_requested_by e of
        None \<Rightarrow> Inr tags
      | Some user \<Rightarrow>
          and_then (o_tags out server) (\<lambda>existing.
            let uid = show_int (u_id user);
                label_of = (\<lambda>t. unwrap_or [] (Option.bind (jget t ''label'') as_str));
                labelled = (\<lambda>p. find (\<lambda>t. starts_with p (label_of t)) existing)
            in and_then
              (case opt_or (labelled (uid @ '' - '')) (labelled (uid @ ''-'')) of
                 Some t \<Rightarrow> Inr t
               | None \<Rightarrow> o_create_tag out server
                   (uid @ ''-'' @ sanitize_display_name (o_nfd out) (display_name user)))
              (\<lambda>tag. Inr (case opt_filter (\<lambda>v. truthy (Some v)) (jget tag ''id'') of
                 None \<Rightarrow> tags
               | Some i \<Rightarrow> if i \<in> set tags then tags else tags @ [i]))))"

definition json_field :: "json \<Rightarrow> string \<Rightarrow> json" where
  "json_field v key = unwrap_or JNull (jget v key)"

definition json_list :: "json \<Rightarrow> string \<Rightarrow> json list" where
  "json_list v key = unwrap_or [] (Option.bind (jget v key) as_array)"

text \<open>The tags of a request where they apply and differ from the server's.\<close>

definition routed_tags :: "outside \<Rightarrow> request_row \<Rightarrow> bool \<Rightarrow> json list option \<Rightarrow> json list \<Rightarrow> json list" where
  "routed_tags out row overrides stored tags =
     (case tags_json (o_float out) (r_tags row) of
        JArr request_tags \<Rightarrow> if overrides \<and> Some request_tags \<noteq> stored then request_tags else tags
      | _ \<Rightarrow> tags)"

subsection \<open>Radarr\<close>

definition js_year :: "string \<Rightarrow> json" where
  "js_year released =
     (let head = trim (take 4 released)
      in if head = [] then JInt 0
         else (case parse_i64 head of Some n \<Rightarrow> JInt n | None \<Rightarrow> JNull))"

type_synonym sent = "db \<times> entity \<times> effect list \<times> string option"

definition radarr_options ::
  "outside \<Rightarrow> json \<Rightarrow> bool \<Rightarrow> request_row \<Rightarrow> int \<Rightarrow> json \<Rightarrow> json list \<Rightarrow> string \<Rightarrow> movie_options" where
  "radarr_options out server overrides row tmdb_id movie tags release =
     \<lparr>mo_quality_profile =
        (case opt_filter (\<lambda>p. overrides \<and> p \<noteq> 0) (r_profile_id row) of
           Some p \<Rightarrow> if Option.bind (jget server ''activeProfileId'') as_i64 \<noteq> Some p then JInt p
                     else json_field server ''activeProfileId''
         | None \<Rightarrow> json_field server ''activeProfileId''),
      mo_root_folder =
        (case opt_filter (\<lambda>r. overrides \<and> r \<noteq> []) (r_root_folder row) of
           Some r \<Rightarrow> if Some r \<noteq> Option.bind (jget server ''activeDirectory'') as_str then JStr r
                     else json_field server ''activeDirectory''
         | None \<Rightarrow> json_field server ''activeDirectory''),
      mo_minimum_availability = json_field server ''minimumAvailability'',
      mo_title = json_field movie ''title'',
      mo_tmdb_id = unwrap_or tmdb_id (Option.bind (jget movie ''id'') as_i64),
      mo_year = js_year release, mo_tags = tags,
      mo_search_now = (\<not> truthy (jget server ''preventSearch''))\<rparr>"

definition send_to_radarr_inner :: "outside \<Rightarrow> env \<Rightarrow> db \<Rightarrow> entity \<Rightarrow> sent" where
  "send_to_radarr_inner out env d e =
     (let servers = unwrap_or [] (Option.bind (jpath [''radarr''] (e_settings env)) as_array);
          row = en_row e
      in if servers = [] then (d, e, [], None)
         else (case pick_server servers (r_server_id row) (r_is4k row) of
           None \<Rightarrow> (d, e, [], None)
         | Some (server, overrides) \<Rightarrow>
             (case r_media_id row of
                None \<Rightarrow> (d, e, [], Some ''media data not found'')
              | Some media_id \<Rightarrow>
                  (case media_by_id d media_id of
                     None \<Rightarrow> (d, e, [], None)
                   | Some media \<Rightarrow>
                       if status_of media (r_is4k row) = M_AVAILABLE then
                         (let (d', e', fx) = save_settled env d (with_request_status COMPLETED e)
                          in (d', e', fx, None))
                       else
                         let tmdb_id = (case en_media e of None \<Rightarrow> m_tmdb_id media | Some m \<Rightarrow> m_tmdb_id m);
                             tags = routed_tags out row overrides (Option.bind (jget server ''tags'') as_array)
                               (json_list server ''tags'')
                         in (case e_tmdb env True tmdb_id (main_locale (e_settings env)) of
                               Inl err \<Rightarrow> (d, e, [], Some err)
                             | Inr movie \<Rightarrow>
                                 (case (if truthy (jget server ''tagRequests'')
                                        then requester_tag out server e tags else Inr tags) of
                                    Inl err \<Rightarrow> (d, e, [], Some err)
                                  | Inr tags \<Rightarrow>
                                      (case Option.bind (jget movie ''release_date'') as_str of
                                         None \<Rightarrow> (d, e, [], Some ''release_date'')
                                       | Some release \<Rightarrow>
                                           (d, e, [AddMovie server
                                              (radarr_options out server overrides row tmdb_id movie tags release)],
                                            None))))))))"

definition send_to_radarr :: "outside \<Rightarrow> env \<Rightarrow> db \<Rightarrow> entity \<Rightarrow> db \<times> entity \<times> effect list" where
  "send_to_radarr out env d e =
     (if r_status (en_row e) \<noteq> APPROVED \<or> r_request_type (en_row e) \<noteq> ''movie'' then (d, e, [])
      else (case send_to_radarr_inner out env d e of
        (d, e, fx, None) \<Rightarrow> (d, e, fx)
      | (d, e, fx, Some err) \<Rightarrow>
          (case Option.bind (r_media_id (en_row e)) (media_by_id d) of
             None \<Rightarrow> (d, e, fx)
           | Some media \<Rightarrow>
               let (d', e', fx') = save_settled env d (with_request_status FAILED e)
               in (d', e', fx @ fx' @ [Notify MediaFailed (r_id (en_row e'))]))))"

subsection \<open>Sonarr\<close>

definition first_tvdb_id :: "json list \<Rightarrow> int option" where
  "first_tvdb_id found =
     (case List.map_filter (\<lambda>s. opt_filter (\<lambda>i. 0 < i) (Option.bind (jget s ''tvdbId'') as_i64)) found of
        [] \<Rightarrow> None | i # _ \<Rightarrow> Some i)"

definition chosen_metadata_language :: "json \<Rightarrow> bool \<Rightarrow> int option \<Rightarrow> int option" where
  "chosen_metadata_language server anime request =
     (let setting = (\<lambda>key. opt_filter (\<lambda>i. 0 < i) (Option.bind (jget server key) as_i64))
      in opt_or (opt_filter (\<lambda>i. 0 < i) request)
           (opt_or (if anime then setting ''animeMetadataLanguageId'' else None) (setting ''metadataLanguageId'')))"

definition servers_in :: "env \<Rightarrow> string \<Rightarrow> json list" where
  "servers_in env section = unwrap_or [] (Option.bind (jpath [section] (e_settings env)) as_array)"

definition tvdb_from_sonarr :: "outside \<Rightarrow> env \<Rightarrow> entity \<Rightarrow> int \<Rightarrow> int option" where
  "tvdb_from_sonarr out env e tmdb_id =
     (case pick_server (servers_in env ''sonarr'') (r_server_id (en_row e)) (r_is4k (en_row e)) of
        None \<Rightarrow> None
      | Some (server, _) \<Rightarrow>
          (case o_series_by_tmdb out server tmdb_id of Inl _ \<Rightarrow> None | Inr found \<Rightarrow> first_tvdb_id found))"

definition remember_tvdb_id :: "int \<Rightarrow> int \<Rightarrow> db \<Rightarrow> db" where
  "remember_tvdb_id media_id tvdb_id d =
     (if list_ex (\<lambda>m. m_tvdb_id m = Some tvdb_id) (media_table d) then d
      else modify_media media_id
        (\<lambda>m. if m_tvdb_id m = None then m\<lparr>m_tvdb_id := Some tvdb_id\<rparr> else m) d)"

definition delete_media :: "int \<Rightarrow> db \<Rightarrow> db" where
  "delete_media i d =
     d\<lparr>media_table := filter (\<lambda>m. m_id m \<noteq> i) (media_table d),
       request_table := filter (\<lambda>r. r_media_id r \<noteq> Some i) (request_table d)\<rparr>"

definition has_selection :: "request_row \<Rightarrow> bool" where
  "has_selection row \<longleftrightarrow>
     opt_filter (\<lambda>t. t \<noteq> []) (r_episode_selection_type row) \<noteq> None \<or> r_episodes row \<noteq> []"

definition series_type_of :: "json \<Rightarrow> bool \<Rightarrow> json" where
  "series_type_of server anime =
     (if anime then unwrap_or (JStr ''anime'') (opt_filter (\<lambda>v. v \<noteq> JNull) (jget server ''animeSeriesType''))
      else unwrap_or (JStr ''standard'') (opt_filter (\<lambda>v. v \<noteq> JNull) (jget server ''seriesType'')))"

definition sonarr_options ::
  "outside \<Rightarrow> json \<Rightarrow> bool \<Rightarrow> bool \<Rightarrow> request_row \<Rightarrow> json \<Rightarrow> int \<Rightarrow> int \<Rightarrow> json list \<Rightarrow> series_options" where
  "sonarr_options out server overrides anime row series tmdb_id tvdb_id tags =
     (let pick = (\<lambda>anime_key key. json_field server (anime_or server anime anime_key key));
          root = pick ''activeAnimeDirectory'' ''activeDirectory'';
          profile = pick ''activeAnimeProfileId'' ''activeProfileId'';
          language = pick ''activeAnimeLanguageProfileId'' ''activeLanguageProfileId'';
          numbers = map sr_season_number (r_seasons row);
          selection = has_selection row
      in \<lparr>so_quality_profile = (case opt_filter (\<lambda>p. overrides \<and> p \<noteq> 0) (r_profile_id row) of
            Some p \<Rightarrow> if as_i64 profile \<noteq> Some p then JInt p else profile | None \<Rightarrow> profile),
          so_language_profile = (case opt_filter (\<lambda>p. overrides \<and> p \<noteq> 0) (r_language_profile_id row) of
            Some p \<Rightarrow> if as_i64 language \<noteq> Some p then JInt p else language | None \<Rightarrow> language),
          so_metadata_language = chosen_metadata_language server anime
            (opt_filter (\<lambda>_. overrides) (r_metadata_language_id row)),
          so_root_folder = (case opt_filter (\<lambda>r. overrides \<and> r \<noteq> []) (r_root_folder row) of
            Some r \<Rightarrow> if Some r \<noteq> as_str root then JStr r else root | None \<Rightarrow> root),
          so_title = json_field series ''name'', so_tvdb_id = tvdb_id,
          so_seasons = (if selection then [] else unwrap_or numbers (o_seasons out tmdb_id numbers)),
          so_episode_tvdb_ids = (if selection then Some (map er_tvdb_id (r_episodes row)) else None),
          so_season_folder = json_field server ''enableSeasonFolders'',
          so_series_type = series_type_of server anime, so_tags = tags,
          so_monitor_new_items = (if selection then JStr ''none'' else json_field server ''monitorNewItems''),
          so_search_now = (\<not> truthy (jget server ''preventSearch''))\<rparr>)"

definition complete_children :: "entity \<Rightarrow> entity" where
  "complete_children e = e\<lparr>en_row := with_child_status COMPLETED ((en_row e)\<lparr>r_status := COMPLETED\<rparr>)\<rparr>"

text \<open>The tail of \<open>send_to_sonarr_inner\<close>, once the series has a TVDB id.\<close>

definition add_to_sonarr :: "outside \<Rightarrow> env \<Rightarrow> db \<Rightarrow> entity \<Rightarrow> json \<Rightarrow> int \<Rightarrow> int \<Rightarrow> sent" where
  "add_to_sonarr out env d e series tmdb_id tvdb_id =
     (let row = en_row e;
          anime = is_anime (e_num env) series
      in case pick_server (servers_in env ''sonarr'') (r_server_id row) (r_is4k row) of
           None \<Rightarrow> (d, e, [], None)
         | Some (server, overrides) \<Rightarrow>
             let stored = json_list server (if anime then ''animeTags'' else ''tags'');
                 tags = routed_tags out row overrides (Some stored) stored
             in (case (if truthy (jget server ''tagRequests'') then requester_tag out server e tags else Inr tags) of
                   Inl err \<Rightarrow> (d, e, [], Some err)
                 | Inr tags \<Rightarrow>
                     (d, e, [AddSeries server
                        (sonarr_options out server overrides anime row series tmdb_id tvdb_id tags)], None)))"

definition send_to_sonarr_inner :: "outside \<Rightarrow> env \<Rightarrow> db \<Rightarrow> entity \<Rightarrow> sent" where
  "send_to_sonarr_inner out env d e =
     (let row = en_row e
      in if servers_in env ''sonarr'' = [] then (d, e, [], None)
         else (case r_media_id row of
           None \<Rightarrow> (d, e, [], Some ''Media data not found'')
         | Some media_id \<Rightarrow>
             (case media_by_id d media_id of
                None \<Rightarrow> (d, e, [], Some ''Media data not found'')
              | Some media \<Rightarrow>
                  if status_of media (r_is4k row) = M_AVAILABLE \<and> \<not> has_selection row then
                    (let (d', e', fx) = save_settled env d (complete_children e) in (d', e', fx, None))
                  else
                    (case e_tmdb env False (m_tmdb_id media) (main_locale (e_settings env)) of
                       Inl err \<Rightarrow> (d, e, [], Some err)
                     | Inr series \<Rightarrow>
                         (case opt_or (Option.bind (jpath [''external_ids'', ''tvdb_id''] series) as_i64)
                                 (m_tvdb_id media) of
                            Some tvdb_id \<Rightarrow> add_to_sonarr out env d e series (m_tmdb_id media) tvdb_id
                          | None \<Rightarrow>
                              (case tvdb_from_sonarr out env e (m_tmdb_id media) of
                                 Some tvdb_id \<Rightarrow>
                                   add_to_sonarr out env (remember_tvdb_id media_id tvdb_id d) e series
                                     (m_tmdb_id media) tvdb_id
                               | None \<Rightarrow>
                                   (delete_request (r_id row) (delete_media media_id d), e, [],
                                    Some ''TVDB ID not found'')))))))"

definition mark_failed_quietly :: "string option \<Rightarrow> int \<Rightarrow> db \<Rightarrow> db" where
  "mark_failed_quietly stamp i = modify_request i (\<lambda>r. r\<lparr>r_status := FAILED, r_updated_at := stamp\<rparr>)"

definition send_to_sonarr :: "outside \<Rightarrow> env \<Rightarrow> db \<Rightarrow> entity \<Rightarrow> db \<times> entity \<times> effect list" where
  "send_to_sonarr out env d e =
     (if r_status (en_row e) \<noteq> APPROVED \<or> r_request_type (en_row e) \<noteq> ''tv'' then (d, e, [])
      else (case send_to_sonarr_inner out env d e of
        (d, e, fx, None) \<Rightarrow> (d, e, fx)
      | (d, e, fx, Some err) \<Rightarrow>
          (case Option.bind (r_media_id (en_row e)) (media_by_id d) of
             None \<Rightarrow> (d, e, fx)
           | Some media \<Rightarrow>
               (mark_failed_quietly (e_stamp env) (r_id (en_row e)) d, with_request_status FAILED e,
                fx @ [Notify MediaFailed (r_id (en_row e))]))))"

subsection \<open>The hooks\<close>

definition after_update :: "outside \<Rightarrow> env \<Rightarrow> db \<Rightarrow> entity \<Rightarrow> db \<times> entity \<times> effect list" where
  "after_update out env d e =
     (let told = notify_approved_or_declined e False;
          (d, e, radarr) = send_to_radarr out env d e;
          (d, e, sonarr) = send_to_sonarr out env d e;
          (d, row) = update_parent_status (e_stamp env) d (en_row e);
          e = e\<lparr>en_row := row\<rparr>
      in (d, e, told @ radarr @ sonarr @
            (if r_status row = COMPLETED then notify_available env d e else [])))"

definition save_entity :: "outside \<Rightarrow> env \<Rightarrow> db \<Rightarrow> entity \<Rightarrow> db \<times> entity \<times> effect list" where
  "save_entity out env d e =
     (let (d', row, row_changed) = save_request (e_stamp env) d (en_row e) True;
          e' = e\<lparr>en_row := row\<rparr>
      in if row_changed then after_update out env d' e' else (d', e', []))"

definition lc_after_insert :: "outside \<Rightarrow> env \<Rightarrow> db \<Rightarrow> entity \<Rightarrow> db \<times> entity \<times> effect list" where
  "lc_after_insert out env d e =
     (let row = en_row e;
          told = (if r_status row = PENDING then
              (case en_media e of
                 None \<Rightarrow> []
               | Some _ \<Rightarrow> [Notify MediaPending (r_id row)] @
                   (if r_is_auto_request row then [Notify MediaAutoRequested (r_id row)] else []))
            else []) @ (if r_status row = APPROVED then notify_approved_or_declined e True else []);
          (d, e, radarr) = send_to_radarr out env d e;
          (d, e, sonarr) = send_to_sonarr out env d e;
          (d, row) = update_parent_status (e_stamp env) d (en_row e)
      in (d, e\<lparr>en_row := row\<rparr>, told @ radarr @ sonarr))"

text \<open>
  The saves inside the hooks are those of \<open>save\<close>: a request that is failed or completed is not approved,
  and what is not approved is not sent.
\<close>

lemma settled_update_eq: "r_status (en_row e) \<noteq> APPROVED \<Longrightarrow> after_update out env d e = settled_update env d e"
  by (simp add: after_update_def settled_update_def send_to_radarr_def send_to_sonarr_def Let_def split: prod.split)

lemma reload_dates_status [simp]: "r_status (reload_dates d row w) = r_status row"
  by (simp add: reload_dates_def split: option.splits)

lemma save_settled_eq:
  assumes "r_status (en_row e) \<noteq> APPROVED"
  shows "save_entity out env d e = save_settled env d e"
proof -
  have "r_status (fst (snd (save_request (e_stamp env) d (en_row e) True))) = r_status (en_row e)"
    by (simp add: save_request_def Let_def split_def split: option.split)
  then show ?thesis
    using assms by (simp add: save_entity_def save_settled_def Let_def split_def settled_update_eq)
qed

subsection \<open>After the background adds\<close>

text \<open>\<open>record_service\<close>: the media row learns its server, id and slug.\<close>

definition record_service :: "string option \<Rightarrow> db \<Rightarrow> request_row \<Rightarrow> json \<Rightarrow> json \<Rightarrow> (string, db) res" where
  "record_service stamp d row server added =
     (case r_media_id row of
        None \<Rightarrow> Inl ''Media data not found''
      | Some media_id \<Rightarrow>
          let i = Option.bind (jget added ''id'') as_i64;
              slug = Option.bind (jget added ''titleSlug'') as_str;
              service = Option.bind (jget server ''id'') as_i64
          in Inr (modify_media media_id (\<lambda>m.
               (if r_is4k row
                then m\<lparr>m_external_service_id4k := i, m_external_service_slug4k := slug, m_service_id4k := service\<rparr>
                else m\<lparr>m_external_service_id := i, m_external_service_slug := slug, m_service_id := service\<rparr>)
               \<lparr>m_updated_at := stamp\<rparr>) d))"

definition movie_added :: "env \<Rightarrow> db \<Rightarrow> entity \<Rightarrow> json \<Rightarrow> (string, json) res \<Rightarrow> db \<times> effect list" where
  "movie_added env d snapshot server answer =
     (case answer of
        Inr added \<Rightarrow>
          ((case record_service (e_stamp env) d (en_row snapshot) server added of Inl _ \<Rightarrow> d | Inr d' \<Rightarrow> d'), [])
      | Inl _ \<Rightarrow>
          let (d', fx) = (if r_status (en_row snapshot) \<noteq> FAILED then
                let (d', e', fx) = save_settled env d (with_request_status FAILED snapshot) in (d', fx)
              else (d, []))
          in (d', fx @ [Notify MediaFailed (r_id (en_row snapshot))]))"

definition fail_left_out_seasons :: "outside \<Rightarrow> env \<Rightarrow> db \<Rightarrow> request_row \<Rightarrow> int \<Rightarrow> int list \<Rightarrow> db" where
  "fail_left_out_seasons out env d row tmdb_id left_out =
     fail_season_rows (e_stamp env) d (map sr_id (filter (\<lambda>s.
       season_left_out (unwrap_or [sr_season_number s] (o_seasons out tmdb_id [sr_season_number s])) left_out)
       (r_seasons row)))"

definition aired :: "json \<Rightarrow> int \<Rightarrow> bool" where
  "aired episode now =
     (case Option.bind (jget episode ''airDateUtc'') as_str of
        None \<Rightarrow> True
      | Some text \<Rightarrow> if text = [] then True
          else (case parse_date_millis text of None \<Rightarrow> False | Some t \<Rightarrow> t \<le> now))"

definition listed_episode :: "json list \<Rightarrow> bool \<Rightarrow> int \<Rightarrow> episode_request_row \<Rightarrow> episode_request_row" where
  "listed_episode episodes prevent now child =
     (case find (\<lambda>x. Option.bind (jget x ''tvdbId'') as_i64 = Some (er_tvdb_id child)) episodes of
        None \<Rightarrow> child\<lparr>er_status := APPROVED\<rparr>
      | Some found \<Rightarrow>
          let has_file = truthy (jget found ''hasFile'');
              child = child\<lparr>er_status := (if has_file then COMPLETED else APPROVED)\<rparr>
          in if \<not> prevent \<and> \<not> has_file \<and> aired found now
             then child\<lparr>er_search_triggered_at := Some (iso_string (from_unix_millis now))\<rparr> else child)"

definition may_complete :: "request_row \<Rightarrow> json \<Rightarrow> (json \<Rightarrow> string) \<Rightarrow> bool" where
  "may_complete row added num \<longleftrightarrow>
     \<not> is_rolling (r_episode_selection_type row) \<or>
     (r_episode_selection_type row = Some ''after'' \<and>
      to_lowercase (js_string num (jget added ''status'')) = ''ended'')"

text \<open>
  What follows \<open>addSeries\<close>: \<open>answer\<close> is the series Sonarr has and the seasons its order leaves out,
  \<open>episodes\<close> its episode list, asked for when the request holds episodes and the series has an id.
\<close>

definition series_steps ::
  "outside \<Rightarrow> env \<Rightarrow> db \<Rightarrow> entity \<Rightarrow> json \<Rightarrow> int \<Rightarrow> json \<Rightarrow> int list \<Rightarrow> (string, json list) res
     \<Rightarrow> db \<times> effect list \<times> string option" where
  "series_steps out env d snapshot server tmdb_id added left_out episodes =
     (let row = en_row snapshot
      in case record_service (e_stamp env) d row server added of
           Inl err \<Rightarrow> (d, [], Some err)
         | Inr d \<Rightarrow>
             let d = (if left_out \<noteq> [] then fail_left_out_seasons out env d row tmdb_id left_out else d)
             in if r_episodes row = [] \<or> \<not> truthy (jget added ''id'') then (d, [], None)
                else (case episodes of
                  Inl err \<Rightarrow> (d, [], Some err)
                | Inr list \<Rightarrow>
                    let row = row\<lparr>r_episodes := map (listed_episode list (truthy (jget server ''preventSearch''))
                              (e_now env)) (r_episodes row)\<rparr>;
                        (d, row, _) = save_request (e_stamp env) d row False
                    in if may_complete row added (e_num env) \<and> episodes_done (r_episodes row) = Complete
                       then let (d, _, fx) = save_settled env d
                                  (with_request_status COMPLETED (snapshot\<lparr>en_row := row\<rparr>)) in (d, fx, None)
                       else (d, [], None)))"

definition series_added ::
  "outside \<Rightarrow> env \<Rightarrow> db \<Rightarrow> entity \<Rightarrow> json \<Rightarrow> int \<Rightarrow> (string, json \<times> int list) res \<Rightarrow> (string, json list) res
     \<Rightarrow> db \<times> effect list" where
  "series_added out env d snapshot server tmdb_id answer episodes =
     (let failed = (\<lambda>d fx. ((if r_status (en_row snapshot) \<noteq> FAILED
              then mark_failed_quietly (e_stamp env) (r_id (en_row snapshot)) d else d),
            fx @ [Notify MediaFailed (r_id (en_row snapshot))]))
      in case answer of
           Inl _ \<Rightarrow> failed d []
         | Inr (added, left_out) \<Rightarrow>
             (case series_steps out env d snapshot server tmdb_id added left_out episodes of
                (d, fx, None) \<Rightarrow> (d, fx)
              | (d, fx, Some _) \<Rightarrow> failed d fx))"

end
