(* ===== verification/Request_Routes.thy ===== *)
theory Request_Routes
  imports Lifecycle_Send
begin

section \<open>The request routes\<close>

text \<open>
  The routes that change requests, from body to answer: \<open>POST /request\<close> (\<open>create_request\<close> and
  \<open>replace_request\<close> of \<open>src/backend-rs/src/routes/requestcreate.rs\<close>) with the hooks that follow the
  write, and \<open>POST /request/{id}/{status}\<close> (\<open>routes/requestwrite.rs\<close>). A route yields the tables, the
  answer and what goes out, or the answer of its refusal; what was written before a later failure stays
  written and is part of the result.
\<close>

type_synonym replied = "db \<times> outcome \<times> effect list"

subsection \<open>Creating\<close>

definition failing :: "db \<Rightarrow> string \<Rightarrow> replied" where
  "failing d message = (d, Error 500 message, [])"

text \<open>\<open>create_request\<close> once the request is written.\<close>

definition finish_created ::
  "printing \<Rightarrow> outside \<Rightarrow> env \<Rightarrow> db \<Rightarrow> request_body \<Rightarrow> prepared \<Rightarrow> int \<Rightarrow> int \<Rightarrow> jmap option
     \<Rightarrow> json \<Rightarrow> json option \<Rightarrow> replied" where
  "finish_created pr out env d body p i media_id head requested_by modified_by =
     (case media_by_id d media_id of
        None \<Rightarrow> failing d ''the media row vanished''
      | Some media_now \<Rightarrow>
          let media = after_save_media_json pr (e_settings env) head media_now;
              media = (case (mp_existing (p_plan p),
                          opt_filter (\<lambda>t. m_tvdb_id media_now = Some t) (mp_tvdb_id (p_plan p)), media) of
                  (None, Some tvdb, JObj m) \<Rightarrow> JObj (obj_insert ''tvdbId'' (JInt tvdb) m)
                | _ \<Rightarrow> media)
          in (case load_entity d i of
               None \<Rightarrow> failing d ''the new request vanished''
             | Some e \<Rightarrow>
                 let r = p_routing p;
                     episode_rows = r_episodes (en_row e);
                     e = e\<lparr>en_row := (en_row e)\<lparr>r_server_id := ro_server_id r, r_profile_id := ro_profile_id r,
                            r_language_profile_id := ro_language_profile_id r,
                            r_metadata_language_id := ro_metadata_language_id r\<rparr>,
                          en_media := Some media_now, en_requested_by := Some (p_request_user p),
                          en_modified_by := (if p_approved p then Some (p_actor p) else None)\<rparr>;
                     (d, e, fx) = lc_after_insert out env d e;
                     row = en_row e;
                     dr = draft_put ''status'' (JInt (r_status row)) (draft_put ''requestedBy'' requested_by
                       (draft_put ''media'' media (draft_put ''type'' (JStr (rb_media_type body)) [])));
                     dr = (case modified_by of None \<Rightarrow> dr | Some m \<Rightarrow> draft_put ''modifiedBy'' m dr);
                     episodes = map_option (\<lambda>plan. (plan, new_episodes_json (ep_episodes plan)
                       (if p_approved p then APPROVED else PENDING) episode_rows)) (p_episodes p)
                 in (d, Reply 201 (created_json pr dr row body p episodes), fx)))"

definition finish_replaced ::
  "printing \<Rightarrow> outside \<Rightarrow> env \<Rightarrow> db \<Rightarrow> current_user \<Rightarrow> prepared \<Rightarrow> episode_plan \<Rightarrow> request_row \<Rightarrow> jmap option
     \<Rightarrow> json \<Rightarrow> json option \<Rightarrow> replied" where
  "finish_replaced pr out env d user p plan old head requested_by modified_by =
     (case media_by_id d (unwrap_or 0 (r_media_id old)) of
        None \<Rightarrow> failing d ''the media row vanished''
      | Some media_now \<Rightarrow>
          let media = after_save_media_json pr (e_settings env) head media_now;
              updated = (replace_sets user p plan old \<noteq> [])
          in (case load_entity d (r_id old) of
               None \<Rightarrow> failing d ''the request vanished''
             | Some e \<Rightarrow>
                 let r = p_routing p;
                     reloaded = en_row e;
                     e = e\<lparr>en_row := (en_row e)\<lparr>
                            r_server_id := opt_or (ro_server_id r) (r_server_id (en_row e)),
                            r_profile_id := opt_or (ro_profile_id r) (r_profile_id (en_row e)),
                            r_language_profile_id := opt_or (ro_language_profile_id r) (r_language_profile_id (en_row e)),
                            r_metadata_language_id := ro_metadata_language_id r\<rparr>,
                          en_media := Some media_now\<rparr>;
                     (d, fx) = (if updated then let (d, _, fx) = after_update out env d e in (d, fx) else (d, []))
                 in (d, Reply 201 (replaced_json pr p plan old reloaded updated (replace_status p old) media
                          requested_by modified_by), fx)))"

definition refused_as :: "db \<Rightarrow> outcome \<Rightarrow> replied" where
  "refused_as d answer = (d, answer, [])"

definition create_request ::
  "printing \<Rightarrow> outside \<Rightarrow> env \<Rightarrow> db \<Rightarrow> current_user \<Rightarrow> request_body \<Rightarrow> replied" where
  "create_request pr out env d user body =
     (case
        and_then (prepare env d user body) (\<lambda>p.
        and_then (forwarding (existing_media_json pr (e_settings env) d (mp_existing (p_plan p)) (p_media_requests p)))
          (\<lambda>head.
        and_then (forwarding (embedded_json (pr_parse pr) (p_request_user p))) (\<lambda>requested_by.
        and_then (if p_approved p
            then and_then (forwarding (embedded_json (pr_parse pr) (p_actor p))) (\<lambda>j. Inr (Some j))
            else Inr None) (\<lambda>modified_by.
        and_then (admit env d user body) (\<lambda>(d', admitted).
          Inr (p, head, requested_by, modified_by, d', admitted))))))
      of
        Inl answer \<Rightarrow> refused_as d answer
      | Inr (p, head, requested_by, modified_by, d', Created i media_id) \<Rightarrow>
          finish_created pr out env d' body p i media_id head requested_by modified_by
      | Inr (p, head, requested_by, modified_by, d', Replaced i) \<Rightarrow>
          (case p_episodes p of
             None \<Rightarrow> failing d' ''the request vanished''
           | Some plan \<Rightarrow>
               (case ep_replace plan of
                  None \<Rightarrow> failing d' ''the request vanished''
                | Some old \<Rightarrow> finish_replaced pr out env d' user p plan old head requested_by modified_by)))"

text \<open>\<open>POST /request\<close>: a request without a query, by a signed-in user, with a readable body.\<close>

definition create ::
  "printing \<Rightarrow> outside \<Rightarrow> env \<Rightarrow> db \<Rightarrow> current_user option \<Rightarrow> json option \<Rightarrow> replied" where
  "create pr out env d viewer raw =
     (case
        and_then (authenticated viewer 0) (\<lambda>user.
        and_then (body_object raw) (\<lambda>obj.
        and_then (parse_body obj) (\<lambda>body. Inr (user, body))))
      of
        Inl answer \<Rightarrow> refused_as d answer
      | Inr (user, body) \<Rightarrow> create_request pr out env d user body)"

definition create_auto_request ::
  "printing \<Rightarrow> outside \<Rightarrow> env \<Rightarrow> db \<Rightarrow> current_user option \<Rightarrow> jmap \<Rightarrow> replied" where
  "create_auto_request pr out env d viewer raw =
     (case
        and_then (authenticated viewer 0) (\<lambda>user.
        and_then (parse_body raw) (\<lambda>body. Inr (user, body)))
      of
        Inl answer \<Rightarrow> refused_as d answer
      | Inr (user, body) \<Rightarrow> create_request pr out env d user (body\<lparr>rb_is_auto_request := True\<rparr>))"

subsection \<open>Approving, declining, retrying\<close>

text \<open>The action's statuses, before and after, and the answer when the request is not in the former.\<close>

definition status_action :: "string \<Rightarrow> (int \<times> int \<times> string) option" where
  "status_action action =
     (if action = ''approve'' then
        Some (PENDING, APPROVED, ''Only pending requests can be approved or declined.'')
      else if action = ''decline'' then
        Some (PENDING, DECLINED, ''Only pending requests can be approved or declined.'')
      else if action = ''retry'' then Some (FAILED, APPROVED, ''Only failed requests can be retried.'')
      else None)"

definition entity_json :: "printing \<Rightarrow> json \<Rightarrow> entity \<Rightarrow> downloads \<Rightarrow> (string, json) res" where
  "entity_json pr settings e items =
     (let row = en_row e;
          user = (\<lambda>rel. case rel of None \<Rightarrow> Inr JNull | Some u \<Rightarrow> embedded_json (pr_parse pr) u)
      in and_then (user (en_requested_by e)) (\<lambda>requested_by.
         and_then (user (en_modified_by e)) (\<lambda>modified_by.
           Inr (JObj (put_entries
             [(''requestedBy'', requested_by), (''modifiedBy'', modified_by),
              (''media'', case en_media e of
                 None \<Rightarrow> JNull | Some m \<Rightarrow> media_json (pr_num pr) (pr_plugin pr) m settings items True),
              (''seasons'', seasons_json (r_seasons row)), (''episodes'', episodes_json (r_episodes row)),
              (''seasonCount'', count_of (r_seasons row))] (columns (pr_float pr) row []))))))"

definition status_checks ::
  "printing \<Rightarrow> db \<Rightarrow> current_user option \<Rightarrow> int \<Rightarrow> string \<Rightarrow> (outcome, entity) res" where
  "status_checks pr d viewer i action =
     and_then (authenticated viewer MANAGE_REQUESTS) (\<lambda>user.
     and_then (case status_action action of
         Some a \<Rightarrow> Inr a | None \<Rightarrow> Inl (Forward ''the validator rejects other statuses'')) (\<lambda>(before, after, conflict).
     and_then (case load_entity d i of
         Some e \<Rightarrow> Inr e | None \<Rightarrow> Inl (Error 404 ''Request not found.'')) (\<lambda>e.
     and_then (case user_by_id d (cu_id user) of
         Some u \<Rightarrow> Inr u | None \<Rightarrow> Inl (Forward ''the viewer vanished'')) (\<lambda>viewer.
     if r_status (en_row e) \<noteq> before then Inl (Error 409 conflict)
     else
       and_then (case en_requested_by e of
           None \<Rightarrow> Inr JNull | Some u \<Rightarrow> forwarding (embedded_json (pr_parse pr) u)) (\<lambda>_.
       and_then (forwarding (embedded_json (pr_parse pr) viewer)) (\<lambda>_.
         Inr (e\<lparr>en_row := (en_row e)\<lparr>r_status := after, r_modified_by_id := Some (cu_id user)\<rparr>,
                en_modified_by := Some viewer\<rparr>)))))))"

definition change_status ::
  "printing \<Rightarrow> outside \<Rightarrow> env \<Rightarrow> db \<Rightarrow> current_user option \<Rightarrow> int \<Rightarrow> string \<Rightarrow> replied" where
  "change_status pr out env d viewer i action =
     (case status_checks pr d viewer i action of
        Inl answer \<Rightarrow> refused_as d answer
      | Inr e \<Rightarrow>
          let items = (case en_media e of
                None \<Rightarrow> no_downloads
              | Some m \<Rightarrow> if tracks_downloads m then pr_downloads pr else no_downloads);
              (d', e', fx) = save_entity out env d e
          in (case entity_json pr (e_settings env) e' items of
               Inl why \<Rightarrow> (d', Error 500 why, fx)
             | Inr j \<Rightarrow> (d', Reply 200 j, fx)))"

end
