(* ===== verification/Request_Props.thy ===== *)
theory Request_Props
  imports Request_Write
begin

section \<open>What an accepted request promises\<close>

text \<open>
  Properties of \<open>Requests\<close> and \<open>Request_Write\<close>: who may request what, the quota after a request was
  written, titles and seasons already covered, the routing of users without the advanced permission,
  and the invariants of the tables.
\<close>

lemma and_then_InrE:
  assumes "and_then r f = Inr b"
  obtains a where "r = Inr a" "f a = Inr b"
  using assms by (cases r) auto

subsection \<open>The steps of a preparation\<close>

lemma prepare_steps:
  assumes "prepare env d user body = Inr p"
  obtains mq sq details r where
    "user_by_id d (cu_id user) = Some (p_actor p)"
    "request_user d user body (p_actor p) = Inr (p_request_user p)"
    "quotas (e_zone env) (e_now env) (e_created env) (e_settings env) d (p_request_user p) = Inr (mq, sq)"
    "quota_checks user body (if is_movie body then mq else sq) = Inr (p_ignore_quota p)"
    "plan_media (media_by_tmdb d (rb_media_id body) (rb_media_type body)) body details = Inr (p_plan p)"
    "duplicate (same_title d (mp_tmdb_id (p_plan p)) body) body (u_id (p_request_user p)) = None"
    "choose_routing env d user body details (u_id (p_request_user p)) = Inr (p_routing p)"
    "p_media_requests p = (case mp_existing (p_plan p) of None \<Rightarrow> [] | Some m \<Rightarrow> requests_of_media d (m_id m))"
    "plan_parts env user (u_id (p_request_user p)) body details (p_plan p) (p_media_requests p) sq
       (p_ignore_quota p) r = Inr (p_seasons p, p_episodes p)"
    "p_approved p = auto_approved user (is_movie body) (rb_is4k body)"
proof -
  from assms show ?thesis
    unfolding prepare_def Let_def split_def
    apply (elim and_then_InrE)
    subgoal for actor requester qs ig details early plan r u ro parts
      by (rule that [of "fst qs" "snd qs" details r])
        (auto simp: forwarding_eq_Inr error403_eq_Inr split: option.splits)
    done
qed

subsection \<open>Who may request\<close>

lemma request_user_cases:
  assumes "request_user d user body actor = Inr u"
  shows "has_any (u_permissions u) (needed_permission (is_movie body) (rb_is4k body)) \<and>
    (case rb_user_id body of
       None \<Rightarrow> u = actor
     | Some uid \<Rightarrow> has_all (cu_permissions user) (MANAGE_USERS OR MANAGE_REQUESTS) \<and> user_by_id d uid = Some u)"
  using assms
  by (cases "rb_user_id body") (auto simp: request_user_def res_simps split: if_splits option.splits)

lemma quota_checks_cases:
  assumes "quota_checks user body q = Inr ig"
  shows "(ig \<longrightarrow> rb_ignore_quota body = Some True \<and> has_permission (cu_permissions user) MANAGE_REQUESTS) \<and>
    (\<not> ig \<longrightarrow> \<not> q_restricted q)"
  using assms by (auto simp: quota_checks_def Let_def split: if_splits)

text \<open>
  A request is only prepared for a user who may make requests of its kind and quality; somebody else's
  only by those who manage users and requests, and past the quota only by those who manage requests and
  ask for it.
\<close>

theorem prepare_permission:
  assumes "prepare env d user body = Inr p"
  shows "has_any (u_permissions (p_request_user p)) (needed_permission (is_movie body) (rb_is4k body)) \<and>
    (u_id (p_request_user p) \<noteq> cu_id user \<longrightarrow>
       rb_user_id body = Some (u_id (p_request_user p)) \<and>
       has_all (cu_permissions user) (MANAGE_USERS OR MANAGE_REQUESTS)) \<and>
    (p_ignore_quota p \<longrightarrow> rb_ignore_quota body = Some True \<and> has_any (cu_permissions user) MANAGE_REQUESTS)"
  using assms
proof (rule prepare_steps)
  fix mq sq details r
  assume a: "user_by_id d (cu_id user) = Some (p_actor p)"
    and u: "request_user d user body (p_actor p) = Inr (p_request_user p)"
    and q: "quota_checks user body (if is_movie body then mq else sq) = Inr (p_ignore_quota p)"
  have i: "u_id (p_actor p) = cu_id user" by (rule user_by_id_id [OF a])
  have "u_id (p_request_user p) = uid" if "rb_user_id body = Some uid" for uid
    using request_user_cases [OF u] that user_by_id_id by auto
  then show ?thesis
    using request_user_cases [OF u] quota_checks_cases [OF q] i
    by (cases "rb_user_id body") (auto simp: has_permission_eq)
qed

subsection \<open>The row that is written\<close>

lemma insert_seasons_rows:
  "insert_seasons stamp request status ss n = (rows, n') \<Longrightarrow>
     map sr_season_number rows = ss \<and> n' = n + int (length ss) \<and> map sr_id rows = map (\<lambda>k. n + int k) [0..<length ss]"
proof (induction ss arbitrary: n rows n')
  case Nil
  then show ?case by simp
next
  case (Cons s ss)
  obtain rs m where r: "insert_seasons stamp request status ss (n + 1) = (rs, m)" by force
  have "[0..<length (s # ss)] = 0 # map Suc [0..<length ss]"
    by (simp add: map_Suc_upt upt_conv_Cons del: upt_Suc)
  then show ?case
    using Cons.IH [OF r] Cons.prems r by (auto simp: season_row_of_def)
qed

definition media_step :: "env \<Rightarrow> db \<Rightarrow> request_body \<Rightarrow> media_plan \<Rightarrow> db \<times> int" where
  "media_step env d body plan =
     (case mp_existing plan of
        None \<Rightarrow> insert_media (e_stamp env) d (rb_media_type body) (mp_tmdb_id plan) (mp_tvdb_id plan) (mp_status plan)
      | Some m \<Rightarrow> (save_media_status (e_stamp env) d m (mp_status plan), m_id m))"

lemma media_step_frame:
  assumes "media_step env d body plan = (d1, mid)"
  shows "request_table d1 = request_table d" "next_request d1 = next_request d"
    "next_season_request d1 = next_season_request d" "next_episode_request d1 = next_episode_request d"
    "user_table d1 = user_table d" "rule_table d1 = rule_table d" "loose_seasons d1 = loose_seasons d"
  using assms
  by (auto simp: media_step_def insert_media_def save_media_status_def Let_def split: option.splits if_splits)

lemma write_request_steps:
  assumes "write_request env d body p status mb = Inr (d', i, mid)"
  obtains d1 season_rows episode_rows next_season next_episode where
    "media_step env d body (p_plan p) = (d1, mid)"
    "i = next_request d"
    "insert_seasons (e_stamp env) i status (p_seasons p) (next_season_request d) = (season_rows, next_season)"
    "(case p_episodes p of
        None \<Rightarrow> Inr ([], next_episode_request d)
      | Some e \<Rightarrow> insert_episodes (e_stamp env) i status (ep_episodes e) [] (next_episode_request d)) =
      Inr (episode_rows, next_episode)"
    "d' = d1\<lparr>request_table := request_table d @
         [new_request_row (e_stamp env) body p status mb i mid season_rows episode_rows],
       next_request := i + 1, next_season_request := next_season, next_episode_request := next_episode\<rparr>"
proof -
  obtain d1 m where s: "media_step env d body (p_plan p) = (d1, m)" by force
  note f = media_step_frame [OF s]
  from assms show ?thesis
    unfolding write_request_def Let_def media_step_def [symmetric] s prod.case f
    apply (elim and_then_InrE)
    subgoal for eps
      by (cases eps; cases "insert_seasons (e_stamp env) (next_request d) status (p_seasons p) (next_season_request d)")
        (use s in \<open>auto intro!: that\<close>)
    done
qed

lemma write_request_appends:
  assumes "write_request env d body p status mb = Inr (d', i, mid)"
  shows "\<exists>ss es. request_table d' = request_table d @
    [new_request_row (e_stamp env) body p status mb i mid ss es]"
proof (rule write_request_steps [OF assms])
  fix d1 ss es ns ne
  assume "d' = d1\<lparr>request_table := request_table d @ [new_request_row (e_stamp env) body p status mb i mid ss es],
       next_request := i + 1, next_season_request := ns, next_episode_request := ne\<rparr>"
  then have "request_table d' = request_table d @ [new_request_row (e_stamp env) body p status mb i mid ss es]"
    by simp
  then show ?thesis by blast
qed

subsection \<open>The quota\<close>

lemma movie_used_append:
  assumes "request_table d' = request_table d @ [row]"
  shows "movie_quota_used created d' uid w \<le> movie_quota_used created d uid w + 1"
  using assms by (simp add: movie_quota_used_def)

lemma tv_used_append:
  assumes "request_table d' = request_table d @ [row]"
  shows "tv_quota_used created d' uid w \<le> tv_quota_used created d uid w + max 0 (r_tv_quota_units row)"
  using assms by (simp add: tv_quota_used_def)

lemma plan_parts_units:
  assumes "plan_parts env user uid body details plan reqs q ig r = Inr (seasons, episodes)"
    and "\<not> is_movie body" "\<not> ig" "q_limit q \<noteq> 0"
    and "case episodes of None \<Rightarrow> True | Some e \<Rightarrow> ep_replace e = None"
  shows "(case episodes of None \<Rightarrow> int (length seasons) | Some e \<Rightarrow> ep_units e) \<le> unwrap_or 0 (q_remaining q)"
proof (cases r)
  case None
  then show ?thesis
    using assms by (auto simp: plan_parts_def res_simps Let_def split: if_splits)
next
  case (Some res)
  then obtain e where e: "episodes = Some e" "plan_episodes user uid body plan reqs q ig res = Inr e"
    using assms(1,2) by (auto simp: plan_parts_def res_simps)
  from e(2) have "ep_units e \<le> unwrap_or 0 (q_remaining q) +
      (case ep_replace e of None \<Rightarrow> 0 | Some x \<Rightarrow> r_tv_quota_units x)"
    using assms(3,4) unfolding plan_episodes_def Let_def
    by (elim and_then_InrE) (auto split: if_splits)
  then show ?thesis using e assms(5) by simp
qed

lemma admit_created:
  assumes "admit env d user body = Inr (d', Created i m)"
  obtains p where "prepare env d user body = Inr p"
    "write_request env d body p (if p_approved p then APPROVED else PENDING)
       (if p_approved p then Some (cu_id user) else None) = Inr (d', i, m)"
    "case p_episodes p of None \<Rightarrow> True | Some e \<Rightarrow> ep_replace e = None \<and>
       (case ep_key e of None \<Rightarrow> True
        | Some k \<Rightarrow> \<not> ongoing_conflict (e_index env) d k (rs_kind (ep_resolved e)) None)"
proof -
  from assms obtain p where p: "prepare env d user body = Inr p"
    unfolding admit_def by (elim and_then_InrE)
  let ?w = "write_request env d body p (if p_approved p then APPROVED else PENDING)
       (if p_approved p then Some (cu_id user) else None)"
  show ?thesis
    using assms by (intro that [OF p]; cases ?w) (auto simp: admit_def p Let_def split: option.splits sum.splits if_splits)
qed

lemma quota_counts:
  assumes "quota_limits (e_settings env) u = Inr (ml, md, sl, sd)"
    and "quotas (e_zone env) (e_now env) (e_created env) (e_settings env) d u = Inr (mq, sq)"
  shows "limit_of u ml \<noteq> 0 \<longrightarrow> \<not> q_restricted mq \<longrightarrow>
      movie_quota_used (e_created env) d (u_id u) (days_before (e_zone env) (e_now env) md) < limit_of u ml"
    and "limit_of u sl \<noteq> 0 \<longrightarrow> q_limit sq \<noteq> 0 \<and>
      (\<not> q_restricted sq \<longrightarrow>
        tv_quota_used (e_created env) d (u_id u) (days_before (e_zone env) (e_now env) sd) < limit_of u sl \<and>
        unwrap_or 0 (q_remaining sq) = limit_of u sl -
          tv_quota_used (e_created env) d (u_id u) (days_before (e_zone env) (e_now env) sd))"
  using assms(2) unfolding quotas_of_limits [OF assms(1)] by (auto simp: make_quota_def)

lemma new_row_fields:
  "r_tv_quota_units (new_request_row stamp body p status mb i mid ss es) = planned_units p"
  "r_requested_by_id (new_request_row stamp body p status mb i mid ss es) = Some (u_id (p_request_user p))"
  "r_media_id (new_request_row stamp body p status mb i mid ss es) = Some mid"
  "r_id (new_request_row stamp body p status mb i mid ss es) = i"
  "r_is4k (new_request_row stamp body p status mb i mid ss es) = rb_is4k body"
  "r_status (new_request_row stamp body p status mb i mid ss es) = status"
  "r_seasons (new_request_row stamp body p status mb i mid ss es) = ss"
  "r_episodes (new_request_row stamp body p status mb i mid ss es) = es"
  by (simp_all add: new_request_row_def Let_def)

text \<open>
  C14 The quota holds after admission: a new request that does not ignore the quota leaves its
  requester's count, movies or season units, within their limit.
\<close>

theorem admitted_within_quota:
  assumes adm: "admit env d user body = Inr (d', Created i m)"
    and p: "prepare env d user body = Inr p" and ig: "\<not> p_ignore_quota p"
    and lim: "quota_limits (e_settings env) (p_request_user p) = Inr (ml, md, sl, sd)"
  shows "(is_movie body \<longrightarrow> limit_of (p_request_user p) ml \<noteq> 0 \<longrightarrow>
      movie_quota_used (e_created env) d' (u_id (p_request_user p)) (days_before (e_zone env) (e_now env) md)
        \<le> limit_of (p_request_user p) ml) \<and>
    (\<not> is_movie body \<longrightarrow> limit_of (p_request_user p) sl \<noteq> 0 \<longrightarrow>
      tv_quota_used (e_created env) d' (u_id (p_request_user p)) (days_before (e_zone env) (e_now env) sd)
        \<le> limit_of (p_request_user p) sl)"
proof -
  obtain mq sq details r where
    q: "quotas (e_zone env) (e_now env) (e_created env) (e_settings env) d (p_request_user p) = Inr (mq, sq)"
    and c: "quota_checks user body (if is_movie body then mq else sq) = Inr (p_ignore_quota p)"
    and parts: "plan_parts env user (u_id (p_request_user p)) body details (p_plan p) (p_media_requests p) sq
       (p_ignore_quota p) r = Inr (p_seasons p, p_episodes p)"
    using prepare_steps [OF p] by metis
  obtain status mb where w: "write_request env d body p status mb = Inr (d', i, m)"
    and rep: "case p_episodes p of None \<Rightarrow> True | Some e \<Rightarrow> ep_replace e = None"
  proof (rule admit_created [OF adm])
    fix p'
    assume a: "prepare env d user body = Inr p'"
      "write_request env d body p' (if p_approved p' then APPROVED else PENDING)
         (if p_approved p' then Some (cu_id user) else None) = Inr (d', i, m)"
      "case p_episodes p' of None \<Rightarrow> True | Some e \<Rightarrow> ep_replace e = None \<and>
         (case ep_key e of None \<Rightarrow> True
          | Some k \<Rightarrow> \<not> ongoing_conflict (e_index env) d k (rs_kind (ep_resolved e)) None)"
    have "p' = p" using a(1) p by simp
    then show thesis using a(2,3) by (intro that) (auto split: option.splits)
  qed
  obtain ss es where
    rows: "request_table d' = request_table d @ [new_request_row (e_stamp env) body p status mb i m ss es]"
    using write_request_appends [OF w] by blast
  note counts = quota_counts [OF lim q]
  have nr: "\<not> q_restricted (if is_movie body then mq else sq)" using quota_checks_cases [OF c] ig by simp
  show ?thesis
  proof (intro conjI impI)
    assume "is_movie body" "limit_of (p_request_user p) ml \<noteq> 0"
    then show "movie_quota_used (e_created env) d' (u_id (p_request_user p)) (days_before (e_zone env) (e_now env) md)
        \<le> limit_of (p_request_user p) ml"
      using counts(1) nr
        movie_used_append [OF rows, of "e_created env" "u_id (p_request_user p)" "days_before (e_zone env) (e_now env) md"]
      by simp
  next
    assume tv: "\<not> is_movie body" and l: "limit_of (p_request_user p) sl \<noteq> 0"
    have u: "planned_units p \<le> unwrap_or 0 (q_remaining sq)"
      using plan_parts_units [OF parts tv ig _ rep] counts(2) l by (simp add: planned_units_def)
    have "tv_quota_used (e_created env) d' (u_id (p_request_user p)) (days_before (e_zone env) (e_now env) sd)
        \<le> tv_quota_used (e_created env) d (u_id (p_request_user p)) (days_before (e_zone env) (e_now env) sd)
          + max 0 (planned_units p)"
      using tv_used_append [OF rows] by (simp only: new_row_fields)
    then show "tv_quota_used (e_created env) d' (u_id (p_request_user p)) (days_before (e_zone env) (e_now env) sd)
        \<le> limit_of (p_request_user p) sl"
      using counts(2) l nr tv u by auto
  qed
qed

subsection \<open>A concrete run\<close>

definition demo_env :: env where
  "demo_env = \<lparr>e_settings = JNull, e_zone = unix_zone 0, e_now = 0, e_stamp = None, e_created = (\<lambda>_. []),
     e_num = (\<lambda>_. []), e_pretty = (\<lambda>_. []), e_tmdb = (\<lambda>_ _ _. Inr (JObj [])), e_login = Inr (),
     e_tvdb = (\<lambda>_. Inr []), e_played = (\<lambda>_ _. None), e_index = OverRolling\<rparr>"

definition demo_viewer :: current_user where
  "demo_viewer = \<lparr>cu_id = 2, cu_permissions = 32\<rparr>"

definition demo_movie :: request_body where
  "demo_movie = \<lparr>rb_media_type = ''movie'', rb_media_id = 603, rb_tvdb_id = None, rb_seasons = None,
     rb_is4k = False, rb_is4k_given = True, rb_server_id = None, rb_profile_id = None, rb_root_folder = None,
     rb_language_profile_id = None, rb_metadata_language_id = None, rb_user_id = None,
     rb_ignore_quota = None, rb_tags = None, rb_is_auto_request = False, rb_episode_selection = None\<rparr>"

definition demo_prepared :: prepared where
  "demo_prepared = \<lparr>p_actor = quota_user, p_request_user = quota_user,
     p_plan = \<lparr>mp_existing = None, mp_status = (2, 1), mp_tmdb_id = 603, mp_tvdb_id = None\<rparr>,
     p_routing = \<lparr>ro_server_id = None, ro_profile_id = None, ro_root_folder = None,
       ro_language_profile_id = None, ro_metadata_language_id = None, ro_tags = None\<rparr>,
     p_approved = False, p_ignore_quota = False, p_seasons = [], p_media_requests = [], p_episodes = None\<rparr>"

lemma demo_prepare: "prepare demo_env quota_db demo_viewer demo_movie = Inr demo_prepared"
  by code_simp

definition demo_after :: db where
  "demo_after = (case write_request demo_env quota_db demo_movie demo_prepared 1 None of
     Inr (d', _) \<Rightarrow> d' | Inl _ \<Rightarrow> quota_db)"

lemma demo_admit: "admit demo_env quota_db demo_viewer demo_movie = Inr (demo_after, Created 1 1)"
  by code_simp

lemma demo_limits: "quota_limits JNull quota_user = Inr (Some 3, None, None, None)"
  by (simp add: quota_limits_Inr quota_user_def own_or_default_def default_quota_def)

theorem admitted_within_quota_witness:
  "movie_quota_used (\<lambda>_. []) demo_after 2 None \<le> 3 \<and> length (request_table demo_after) = 1"
proof -
  have e: "e_settings demo_env = JNull" "e_created demo_env = (\<lambda>_. [])" by (simp_all add: demo_env_def)
  have u: "p_request_user demo_prepared = quota_user" "\<not> p_ignore_quota demo_prepared"
    by (simp_all add: demo_prepared_def)
  have l: "limit_of quota_user (Some 3) = 3" by code_simp
  have n: "length (request_table demo_after) = 1" by code_simp
  have w: "days_before (e_zone demo_env) (e_now demo_env) None = None" by (simp add: days_before_def)
  have i: "u_id quota_user = 2" "is_movie demo_movie" by (simp_all add: quota_user_def is_movie_def demo_movie_def)
  have lim: "quota_limits (e_settings demo_env) (p_request_user demo_prepared) = Inr (Some 3, None, None, None)"
    using demo_limits by (simp add: e u)
  show ?thesis
    using admitted_within_quota [OF demo_admit demo_prepare u(2) lim] n by (simp add: e u l w i)
qed

theorem prepare_permission_witness:
  "has_any (u_permissions quota_user) (REQUEST OR REQUEST_MOVIE)"
  using prepare_permission [OF demo_prepare]
  by (simp add: demo_prepared_def needed_permission_def is_movie_def demo_movie_def)

end
