(* ===== verification/Request_Inv.thy ===== *)
theory Request_Inv
  imports Request_Props
begin

section \<open>What the tables keep\<close>

text \<open>
  Invariants of the tables that every admission keeps: ids are distinct and below the next one, child
  rows name their request, requests name a media row that exists; and no two active requests of a
  title in one quality hold the same season.
\<close>

subsection \<open>Fresh ids\<close>

definition fresh :: "('a \<Rightarrow> int) \<Rightarrow> int \<Rightarrow> 'a list \<Rightarrow> bool" where
  "fresh f n xs \<longleftrightarrow> distinct (map f xs) \<and> (\<forall>x\<in>set xs. f x < n)"

lemma fresh_append:
  assumes "fresh f n xs" "map f ys = map (\<lambda>k. n + int k) [0..<length ys]"
  shows "fresh f (n + int (length ys)) (xs @ ys)"
proof -
  have s: "f ` set ys = (\<lambda>k. n + int k) ` {0..<length ys}"
    using arg_cong [OF assms(2), of set] by simp
  have d: "distinct (map f ys)"
    unfolding assms(2) by (simp add: distinct_map inj_on_def)
  have b: "n \<le> f y \<and> f y < n + int (length ys)" if "y \<in> set ys" for y
    using s that by (metis (no_types, lifting) atLeastLessThan_iff imageE image_eqI le_add_same_cancel1 of_nat_0_le_iff
      add_strict_left_mono of_nat_less_iff)
  show ?thesis
    using assms(1) d b unfolding fresh_def by (fastforce simp: image_iff)
qed

lemma fresh_snoc: "fresh f n xs \<Longrightarrow> f y = n \<Longrightarrow> fresh f (n + 1) (xs @ [y])"
  using fresh_append [of f n xs "[y]"] by simp

lemma fresh_subset_mset:
  assumes "fresh f n xs" "mset ys \<subseteq># mset xs"
  shows "fresh f n ys"
proof -
  obtain zs where "mset xs = mset (ys @ zs)"
    using assms(2) by (metis ex_mset mset_append subset_mset.add_diff_inverse)
  then have "mset (map f xs) = mset (map f (ys @ zs))" and s: "set xs = set (ys @ zs)"
    by (simp, metis set_mset_mset)
  then have "distinct (map f (ys @ zs))"
    using assms(1) by (metis fresh_def mset_eq_imp_distinct_iff)
  then show ?thesis using assms(1) s by (auto simp: fresh_def)
qed

lemma fresh_map_cong: "fresh f n xs \<Longrightarrow> map f ys = map f xs \<Longrightarrow> fresh f n ys"
  unfolding fresh_def by (metis (no_types, lifting) image_eqI image_iff list.set_map)

subsection \<open>The invariant\<close>

definition all_seasons :: "db \<Rightarrow> season_request_row list" where
  "all_seasons d = loose_seasons d @ concat (map r_seasons (request_table d))"

definition all_episodes :: "db \<Rightarrow> episode_request_row list" where
  "all_episodes d = concat (map r_episodes (request_table d))"

definition ids_ok :: "db \<Rightarrow> bool" where
  "ids_ok d \<longleftrightarrow> fresh m_id (next_media d) (media_table d) \<and> fresh r_id (next_request d) (request_table d) \<and>
     fresh sr_id (next_season_request d) (all_seasons d) \<and> fresh er_id (next_episode_request d) (all_episodes d)"

definition linked :: "db \<Rightarrow> request_row \<Rightarrow> bool" where
  "linked d r \<longleftrightarrow> list_all (\<lambda>s. sr_request_id s = Some (r_id r)) (r_seasons r) \<and>
     list_all (\<lambda>e. er_request_id e = Some (r_id r)) (r_episodes r) \<and>
     distinct (map er_tvdb_id (r_episodes r)) \<and>
     (case r_media_id r of None \<Rightarrow> True | Some i \<Rightarrow> i \<in> set (map m_id (media_table d)))"

definition links_ok :: "db \<Rightarrow> bool" where
  "links_ok d \<longleftrightarrow> list_all (linked d) (request_table d) \<and>
     list_all (\<lambda>s. sr_request_id s = None) (loose_seasons d)"

definition apart :: "request_row \<Rightarrow> request_row \<Rightarrow> bool" where
  "apart r q \<longleftrightarrow> r_media_id r = None \<or> r_media_id r \<noteq> r_media_id q \<or> r_is4k r \<noteq> r_is4k q \<or>
     \<not> is_active (r_is4k r) r \<or> \<not> is_active (r_is4k q) q \<or>
     set (map sr_season_number (r_seasons r)) \<inter> set (map sr_season_number (r_seasons q)) = {}"

definition seasons_apart :: "db \<Rightarrow> bool" where
  "seasons_apart d \<longleftrightarrow> sorted_wrt apart (request_table d)"

subsection \<open>The cases of an admission\<close>

lemma plan_episodes_replace:
  assumes "plan_episodes user uid body plan reqs q ig res = Inr e" "ep_replace e = Some old"
  shows "old \<in> set reqs \<and> is_active (rb_is4k body) old \<and> rb_is4k_given body"
  using assms(1)
  unfolding plan_episodes_def Let_def
proof (elim and_then_InrE)
  fix rep
  let ?act = "active reqs (if rb_is4k_given body then Some (rb_is4k body) else None)"
  assume a: "(case (is_rolling (Some (rs_kind res)), find (\<lambda>q. is_rolling (r_episode_selection_type q)) ?act) of
       (True, Some existing) \<Rightarrow>
         if r_requested_by_id existing \<noteq> Some uid \<and> \<not> has_permission (cu_permissions user) MANAGE_REQUESTS
         then Inl (Error 409 ''An ongoing episode request already exists for this series.'')
         else Inr (Some existing)
     | _ \<Rightarrow> Inr None) = Inr rep"
    and b: "(if uncovered res (filter (\<lambda>q. Some (r_id q) \<noteq> map_option r_id rep) ?act) (mp_existing plan) (rb_is4k body) = [] \<and>
         rs_kind res \<noteq> ''watchAhead''
       then Inl (Error 202 ''No episodes available to request'')
       else if \<not> ig \<and> q_limit q \<noteq> 0 \<and> unwrap_or 0 (q_remaining q) +
           (case rep of None \<Rightarrow> 0 | Some q \<Rightarrow> r_tv_quota_units q)
         < quota_units (uncovered res (filter (\<lambda>q. Some (r_id q) \<noteq> map_option r_id rep) ?act) (mp_existing plan) (rb_is4k body))
       then Inl (Error 403 ''Series Quota exceeded.'')
       else Inr \<lparr>ep_resolved = res, ep_episodes =
             uncovered res (filter (\<lambda>q. Some (r_id q) \<noteq> map_option r_id rep) ?act) (mp_existing plan) (rb_is4k body),
           ep_units = quota_units (uncovered res (filter (\<lambda>q. Some (r_id q) \<noteq> map_option r_id rep) ?act) (mp_existing plan) (rb_is4k body)),
           ep_key = (if is_rolling (Some (rs_kind res)) then Some (lock_key (mp_tmdb_id plan) (rb_is4k body)) else None),
           ep_replace = rep\<rparr>) = Inr e"
  have "rep = Some old" using b assms(2) by (auto split: if_splits)
  then have "find (\<lambda>q. is_rolling (r_episode_selection_type q)) ?act = Some old"
    using a by (auto split: bool.splits option.splits if_splits)
  then have "old \<in> set ?act" by (auto simp: find_Some_iff)
  then show ?thesis by (auto simp: active_def split: if_splits option.splits)
qed

lemma plan_parts_replace:
  assumes "plan_parts env user uid body details plan reqs q ig r = Inr (ss, Some e)" "ep_replace e = Some old"
  shows "old \<in> set reqs \<and> is_active (rb_is4k body) old \<and> rb_is4k_given body"
proof -
  obtain res where "r = Some res" "plan_episodes user uid body plan reqs q ig res = Inr e"
    using assms(1) by (auto simp: plan_parts_def res_simps Let_def split: if_splits option.splits)
  then show ?thesis using plan_episodes_replace assms(2) by blast
qed

lemma admit_cases:
  assumes "admit env d user body = Inr (d', a)"
  obtains (created) p i m where "prepare env d user body = Inr p" "a = Created i m"
      "write_request env d body p (if p_approved p then APPROVED else PENDING)
         (if p_approved p then Some (cu_id user) else None) = Inr (d', i, m)"
  | (replaced) p plan old where "prepare env d user body = Inr p" "a = Replaced (r_id old)"
      "p_episodes p = Some plan" "ep_replace plan = Some old" "old \<in> set (p_media_requests p)"
      "is_active (rb_is4k body) old"
      "replace_writes env d p old (replace_sets user p plan old) (ep_episodes plan) (replace_status p old) = Inr d'"
proof -
  from assms obtain p where p: "prepare env d user body = Inr p"
    unfolding admit_def by (elim and_then_InrE)
  let ?w = "write_request env d body p (if p_approved p then APPROVED else PENDING)
       (if p_approved p then Some (cu_id user) else None)"
  show ?thesis
  proof (cases "\<exists>plan old. p_episodes p = Some plan \<and> ep_replace plan = Some old")
    case True
    then obtain plan old where e: "p_episodes p = Some plan" "ep_replace plan = Some old" by blast
    have "old \<in> set (p_media_requests p) \<and> is_active (rb_is4k body) old"
      by (rule prepare_steps [OF p]) (use plan_parts_replace e in metis)
    moreover have "replace_writes env d p old (replace_sets user p plan old) (ep_episodes plan) (replace_status p old) = Inr d'
        \<and> a = Replaced (r_id old)"
      using assms by (auto simp: admit_def p e Let_def split: sum.splits)
    ultimately show ?thesis using replaced [OF p _ e] by blast
  next
    case False
    then have "?w = Inr (d', case a of Created i m \<Rightarrow> (i, m) | Replaced i \<Rightarrow> (i, i)) \<and> (\<exists>i m. a = Created i m)"
      using assms by (cases ?w) (auto simp: admit_def p Let_def split: option.splits sum.splits if_splits)
    then show ?thesis using created [OF p] by auto
  qed
qed

subsection \<open>What a preparation says of the title\<close>

lemma plan_media_cases:
  assumes "plan_media existing body details = Inr plan"
  shows "mp_existing plan = existing \<and>
    (case existing of None \<Rightarrow> True | Some m \<Rightarrow> m_status m \<noteq> M_BLOCKLISTED)"
  using assms by (auto simp: plan_media_def Let_def split: option.splits if_splits)

lemma prepared_title:
  assumes "prepare env d user body = Inr p"
  shows "mp_existing (p_plan p) = media_by_tmdb d (rb_media_id body) (rb_media_type body)"
    "p_media_requests p = (case mp_existing (p_plan p) of None \<Rightarrow> [] | Some m \<Rightarrow> requests_of_media d (m_id m))"
  by (rule prepare_steps [OF assms]; use plan_media_cases in blast)+

lemma prepared_media:
  assumes "prepare env d user body = Inr p" "mp_existing (p_plan p) = Some m"
  shows "m \<in> set (media_table d)"
  using assms(2) unfolding prepared_title(1) [OF assms(1)] media_by_tmdb_def by (auto simp: find_Some_iff)

lemma prepared_seasons_apart:
  assumes p: "prepare env d user body = Inr p" and g: "rb_is4k_given body"
    and r: "r \<in> set (p_media_requests p)" "is_active (rb_is4k body) r"
  shows "set (map sr_season_number (r_seasons r)) \<inter> set (p_seasons p) = {}"
proof (rule prepare_steps [OF p])
  fix mq sq details res
  assume a: "plan_parts env user (u_id (p_request_user p)) body details (p_plan p) (p_media_requests p) sq
      (p_ignore_quota p) res = Inr (p_seasons p, p_episodes p)"
  have "p_seasons p = [] \<or> (\<exists>req.
      plan_seasons req (mp_existing (p_plan p)) (p_media_requests p) (rb_is4k body) = p_seasons p)"
    using a g by (auto simp: plan_parts_def res_simps Let_def split: if_splits option.splits)
  moreover have "set (map sr_season_number (r_seasons r)) \<inter>
      set (plan_seasons req (mp_existing (p_plan p)) (p_media_requests p) (rb_is4k body)) = {}" for req
    using r by (auto simp: plan_seasons_def active_seasons_def Let_def)
  ultimately show ?thesis by (metis empty_set inf_bot_right)
qed

subsection \<open>Updates keep their row\<close>

lemma set_column_keeps:
  "r_id (set_column c r) = r_id r" "r_media_id (set_column c r) = r_media_id r"
  "r_is4k (set_column c r) = r_is4k r" "r_seasons (set_column c r) = r_seasons r"
  "r_episodes (set_column c r) = r_episodes r" "r_request_type (set_column c r) = r_request_type r"
  "r_ignore_quota (set_column c r) = r_ignore_quota r" "r_created_at (set_column c r) = r_created_at r"
  by (cases c; simp add: set_column_def)+

lemma fold_keeps:
  assumes "\<And>c r. f (g c r) = f r"
  shows "f (fold g cs r) = f r"
  by (induction cs arbitrary: r) (simp_all add: assms)

lemma update_request_keeps [simp]:
  "r_id (update_request stamp cs r) = r_id r" "r_media_id (update_request stamp cs r) = r_media_id r"
  "r_is4k (update_request stamp cs r) = r_is4k r" "r_request_type (update_request stamp cs r) = r_request_type r"
  "r_ignore_quota (update_request stamp cs r) = r_ignore_quota r"
  "r_created_at (update_request stamp cs r) = r_created_at r"
  by (simp_all add: update_request_def fold_keeps [of r_id] fold_keeps [of r_media_id] fold_keeps [of r_is4k]
      fold_keeps [of r_request_type] fold_keeps [of r_ignore_quota] fold_keeps [of r_created_at] set_column_keeps)

subsection \<open>Inserted children\<close>

lemma inserted_episodes:
  assumes "insert_episodes stamp i status es rows n = Inr (rows', n')"
  obtains new where "rows' = rows @ new" "n' = n + int (length new)"
    "map er_id new = map (\<lambda>k. n + int k) [0..<length new]" "list_all (\<lambda>e. er_request_id e = Some i) new"
    "map er_tvdb_id new = map ce_tvdb_id es" "distinct (map er_tvdb_id rows) \<longrightarrow> distinct (map er_tvdb_id rows')"
  using assms
proof (induction es arbitrary: rows n thesis)
  case Nil
  then show ?case by simp
next
  case (Cons e es)
  let ?row = "episode_row stamp i status e n"
  have row: "er_id ?row = n" "er_request_id ?row = Some i" "er_tvdb_id ?row = ce_tvdb_id e"
    by (simp_all add: episode_row_def)
  have c: "ce_tvdb_id e \<notin> set (map er_tvdb_id rows)"
    and i: "insert_episodes stamp i status es (rows @ [?row]) (n + 1) = Inr (rows', n')"
    using Cons.prems(2) by (auto split: if_splits)
  show ?case
  proof (rule Cons.IH [OF _ i])
    fix new
    assume a: "rows' = (rows @ [?row]) @ new" "n' = n + 1 + int (length new)"
      "map er_id new = map (\<lambda>k. n + 1 + int k) [0..<length new]" "list_all (\<lambda>e. er_request_id e = Some i) new"
      "map er_tvdb_id new = map ce_tvdb_id es"
      "distinct (map er_tvdb_id (rows @ [?row])) \<longrightarrow> distinct (map er_tvdb_id rows')"
    have "[0..<length (?row # new)] = 0 # map Suc [0..<length new]"
      by (simp add: map_Suc_upt upt_conv_Cons del: upt_Suc)
    then show thesis
      using a c row by (intro Cons.prems(1) [of "?row # new"]) auto
  qed
qed

lemma insert_seasons_linked:
  "insert_seasons stamp i status ss n = (rows, n') \<Longrightarrow> list_all (\<lambda>s. sr_request_id s = Some i) rows"
  by (induction ss arbitrary: n rows n') (auto simp: season_row_of_def split: prod.splits)

subsection \<open>A created request\<close>

lemma media_step_media:
  assumes "media_step env d body plan = (d1, mid)"
    and "\<And>m. mp_existing plan = Some m \<Longrightarrow> m \<in> set (media_table d)"
  shows "fresh m_id (next_media d) (media_table d) \<Longrightarrow> fresh m_id (next_media d1) (media_table d1)"
    "set (map m_id (media_table d)) \<subseteq> set (map m_id (media_table d1))"
    "mid \<in> set (map m_id (media_table d1))"
proof -
  consider m where "mp_existing plan = Some m" "m \<in> set (media_table d)" "mid = m_id m"
      "next_media d1 = next_media d" "map m_id (media_table d1) = map m_id (media_table d)"
    | row where "media_table d1 = media_table d @ [row]" "m_id row = next_media d" "mid = next_media d"
      "next_media d1 = next_media d + 1"
  proof (cases "mp_existing plan")
    case None
    let ?row = "new_media_row (e_stamp env) (next_media d) (rb_media_type body) (mp_tmdb_id plan)
      (free_tvdb_id d (mp_tvdb_id plan)) (mp_status plan)"
    have "d1 = d\<lparr>media_table := media_table d @ [?row], next_media := next_media d + 1\<rparr> \<and> mid = next_media d"
      using assms(1) None by (auto simp: media_step_def insert_media_def Let_def)
    then show thesis by (intro that(2) [of ?row]) (simp_all add: new_media_row_def)
  next
    case (Some m)
    have e: "d1 = save_media_status (e_stamp env) d m (mp_status plan)" "mid = m_id m"
      using assms(1) Some by (auto simp: media_step_def)
    have "next_media d1 = next_media d" "map m_id (media_table d1) = map m_id (media_table d)"
      unfolding e save_media_status_def by simp_all
    then show thesis by (intro that(1) [of m] Some assms(2) e(2))
  qed
  note c = this
  show "fresh m_id (next_media d) (media_table d) \<Longrightarrow> fresh m_id (next_media d1) (media_table d1)"
  proof (cases rule: c)
    case (1 m)
    assume "fresh m_id (next_media d) (media_table d)"
    then show ?thesis unfolding 1(4) by (rule fresh_map_cong) (rule 1(5))
  next
    case (2 row)
    assume "fresh m_id (next_media d) (media_table d)"
    then show ?thesis using 2 by (simp add: fresh_snoc)
  qed
  have "set (map m_id (media_table d)) \<subseteq> set (map m_id (media_table d1)) \<and> mid \<in> set (map m_id (media_table d1))"
  proof (cases rule: c)
    case (1 m)
    then have "set (map m_id (media_table d1)) = set (map m_id (media_table d))" by (simp only:)
    then show ?thesis using 1(2,3) by auto
  next
    case (2 row)
    then show ?thesis by auto
  qed
  then show "set (map m_id (media_table d)) \<subseteq> set (map m_id (media_table d1))"
    "mid \<in> set (map m_id (media_table d1))" by simp_all
qed

lemma linked_mono:
  assumes "linked d r" "set (map m_id (media_table d)) \<subseteq> set (map m_id (media_table d'))"
  shows "linked d' r"
  using assms by (auto simp: linked_def split: option.splits)

lemma created_rows:
  assumes w: "write_request env d body p status mb = Inr (d', i, mid)"
    and m: "\<And>m. mp_existing (p_plan p) = Some m \<Longrightarrow> m \<in> set (media_table d)"
  obtains d1 ss es where "media_step env d body (p_plan p) = (d1, mid)" "i = next_request d"
    "media_table d' = media_table d1" "next_media d' = next_media d1" "user_table d' = user_table d"
    "rule_table d' = rule_table d" "loose_seasons d' = loose_seasons d" "next_request d' = i + 1"
    "request_table d' = request_table d @ [new_request_row (e_stamp env) body p status mb i mid ss es]"
    "map sr_season_number ss = p_seasons p" "list_all (\<lambda>s. sr_request_id s = Some i) ss"
    "list_all (\<lambda>e. er_request_id e = Some i) es" "distinct (map er_tvdb_id es)"
    "fresh sr_id (next_season_request d) xs \<longrightarrow> fresh sr_id (next_season_request d') (xs @ ss)"
    "fresh er_id (next_episode_request d) ys \<longrightarrow> fresh er_id (next_episode_request d') (ys @ es)"
proof (rule write_request_steps [OF w])
  fix d1 ss es ns ne
  assume s: "media_step env d body (p_plan p) = (d1, mid)" and i: "i = next_request d"
    and ss: "insert_seasons (e_stamp env) i status (p_seasons p) (next_season_request d) = (ss, ns)"
    and es: "(case p_episodes p of
        None \<Rightarrow> Inr ([], next_episode_request d)
      | Some e \<Rightarrow> insert_episodes (e_stamp env) i status (ep_episodes e) [] (next_episode_request d)) = Inr (es, ne)"
    and d': "d' = d1\<lparr>request_table := request_table d @ [new_request_row (e_stamp env) body p status mb i mid ss es],
       next_request := i + 1, next_season_request := ns, next_episode_request := ne\<rparr>"
  note f = media_step_frame [OF s]
  have sr: "map sr_season_number ss = p_seasons p \<and> ns = next_season_request d + int (length (p_seasons p)) \<and>
      map sr_id ss = map (\<lambda>k. next_season_request d + int k) [0..<length (p_seasons p)]"
    by (rule insert_seasons_rows [OF ss])
  then have n: "length ss = length (p_seasons p)" by (metis length_map)
  have sf: "fresh sr_id (next_season_request d) xs \<longrightarrow> fresh sr_id ns (xs @ ss)"
    using fresh_append [of sr_id _ xs ss] sr n by simp
  obtain "ne = next_episode_request d + int (length es)"
    "map er_id es = map (\<lambda>k. next_episode_request d + int k) [0..<length es]"
    "list_all (\<lambda>e. er_request_id e = Some i) es" "distinct (map er_tvdb_id es)"
  proof (cases "p_episodes p")
    case None
    then show thesis using es that by simp
  next
    case (Some e)
    then have e: "insert_episodes (e_stamp env) i status (ep_episodes e) [] (next_episode_request d) = Inr (es, ne)"
      using es by simp
    show thesis by (rule inserted_episodes [OF e]) (simp add: that)
  qed
  note e = this
  have ef: "fresh er_id (next_episode_request d) ys \<longrightarrow> fresh er_id ne (ys @ es)"
    using fresh_append [of er_id _ ys es] e by simp
  show thesis
    by (rule that [of d1 ss es]) (use s i f d' sr insert_seasons_linked [OF ss] e sf ef in simp_all)
qed

lemma created_ids_ok:
  assumes w: "write_request env d body p status mb = Inr (d', i, mid)" and ok: "ids_ok d"
    and m: "\<And>m. mp_existing (p_plan p) = Some m \<Longrightarrow> m \<in> set (media_table d)"
  shows "ids_ok d'"
proof (rule created_rows [OF w m, of "all_seasons d" "all_episodes d"])
  fix d1 ss es
  assume s: "media_step env d body (p_plan p) = (d1, mid)" and i: "i = next_request d"
    and md: "media_table d' = media_table d1" "next_media d' = next_media d1" "loose_seasons d' = loose_seasons d"
    and n: "next_request d' = i + 1"
    and r: "request_table d' = request_table d @ [new_request_row (e_stamp env) body p status mb i mid ss es]"
    and fs: "fresh sr_id (next_season_request d) (all_seasons d) \<longrightarrow>
      fresh sr_id (next_season_request d') (all_seasons d @ ss)"
    and fe: "fresh er_id (next_episode_request d) (all_episodes d) \<longrightarrow>
      fresh er_id (next_episode_request d') (all_episodes d @ es)"
  have "all_seasons d' = all_seasons d @ ss" "all_episodes d' = all_episodes d @ es"
    by (simp_all add: all_seasons_def all_episodes_def r md new_row_fields)
  moreover have "fresh r_id (next_request d') (request_table d')"
    using ok i n unfolding r ids_ok_def by (auto intro!: fresh_snoc simp: new_row_fields)
  moreover have "fresh m_id (next_media d') (media_table d')"
    using media_step_media(1) [OF s m] ok md by (simp add: ids_ok_def)
  ultimately show ?thesis using fs fe ok by (simp add: ids_ok_def)
qed

lemma created_links_ok:
  assumes w: "write_request env d body p status mb = Inr (d', i, mid)" and ok: "links_ok d"
    and m: "\<And>m. mp_existing (p_plan p) = Some m \<Longrightarrow> m \<in> set (media_table d)"
  shows "links_ok d'"
proof (rule created_rows [OF w m, of "[]" "[]"])
  fix d1 ss es
  assume s: "media_step env d body (p_plan p) = (d1, mid)"
    and md: "media_table d' = media_table d1" "loose_seasons d' = loose_seasons d"
    and r: "request_table d' = request_table d @ [new_request_row (e_stamp env) body p status mb i mid ss es]"
    and ls: "list_all (\<lambda>s. sr_request_id s = Some i) ss" "list_all (\<lambda>e. er_request_id e = Some i) es"
      "distinct (map er_tvdb_id es)"
  have "linked d' (new_request_row (e_stamp env) body p status mb i mid ss es)"
    using ls media_step_media(3) [OF s m] by (simp add: linked_def new_row_fields md)
  moreover have "list_all (linked d') (request_table d)"
    using ok media_step_media(2) [OF s m] linked_mono [of d _ d']
    by (auto simp: links_ok_def list_all_iff md)
  ultimately show ?thesis using ok by (simp add: links_ok_def r md)
qed

subsection \<open>A replaced request\<close>

lemma fresh_mset:
  assumes "fresh f n xs" "mset (map f ys) = mset (map f xs)"
  shows "fresh f n ys"
proof -
  have "f ` set ys = f ` set xs" "distinct (map f ys) = distinct (map f xs)"
    using assms(2) by (metis list.set_map set_mset_mset, rule mset_eq_imp_distinct_iff)
  then show ?thesis using assms(1) unfolding fresh_def by (metis (no_types, lifting) image_iff)
qed

definition replaced_row ::
  "string option \<Rightarrow> (string \<times> bind) list \<Rightarrow> episode_request_row list \<Rightarrow> request_row \<Rightarrow> request_row" where
  "replaced_row stamp sets rows r = (update_request stamp sets r)\<lparr>r_episodes := rows, r_seasons := []\<rparr>"

lemma replaced_row_simps [simp]:
  "r_id (replaced_row stamp sets rows r) = r_id r" "r_media_id (replaced_row stamp sets rows r) = r_media_id r"
  "r_is4k (replaced_row stamp sets rows r) = r_is4k r" "r_seasons (replaced_row stamp sets rows r) = []"
  "r_episodes (replaced_row stamp sets rows r) = rows"
  by (simp_all add: replaced_row_def)

lemma save_media_status_frame:
  "request_table (save_media_status stamp d m st) = request_table d"
  "map m_id (media_table (save_media_status stamp d m st)) = map m_id (media_table d)"
  "next_media (save_media_status stamp d m st) = next_media d"
  "next_request (save_media_status stamp d m st) = next_request d"
  "next_season_request (save_media_status stamp d m st) = next_season_request d"
  "next_episode_request (save_media_status stamp d m st) = next_episode_request d"
  "loose_seasons (save_media_status stamp d m st) = loose_seasons d"
  "user_table (save_media_status stamp d m st) = user_table d"
  "rule_table (save_media_status stamp d m st) = rule_table d"
  by (simp_all add: save_media_status_def)

lemma replaced_rows:
  assumes w: "replace_writes env d p old sets episodes status = Inr d'"
    and old: "old \<in> set (request_table d)" and ids: "distinct (map r_id (request_table d))"
  obtains xs ys rows where
    "request_table d = xs @ old # ys"
    "request_table d' = xs @ replaced_row (e_stamp env) sets rows old # ys"
    "loose_seasons d' = loose_seasons d @ map (\<lambda>s. s\<lparr>sr_request_id := None, sr_updated_at := e_stamp env\<rparr>) (r_seasons old)"
    "map m_id (media_table d') = map m_id (media_table d)" "next_media d' = next_media d"
    "next_request d' = next_request d" "next_season_request d' = next_season_request d"
    "list_all (\<lambda>e. er_request_id e = Some (r_id old)) rows" "distinct (map er_tvdb_id rows)"
    "map er_tvdb_id rows = map ce_tvdb_id episodes"
    "\<forall>zs. fresh er_id (next_episode_request d) zs \<longrightarrow> fresh er_id (next_episode_request d') (zs @ rows)"
proof -
  define d1 where "d1 = (case mp_existing (p_plan p) of
      None \<Rightarrow> d | Some m \<Rightarrow> save_media_status (e_stamp env) d m (mp_status (p_plan p)))"
  have d1: "request_table d1 = request_table d" "map m_id (media_table d1) = map m_id (media_table d)"
    "next_media d1 = next_media d" "next_request d1 = next_request d"
    "next_season_request d1 = next_season_request d" "next_episode_request d1 = next_episode_request d"
    "loose_seasons d1 = loose_seasons d"
    by (cases "mp_existing (p_plan p)"; simp add: d1_def save_media_status_frame)+
  from old obtain xs ys where t: "request_table d = xs @ old # ys" by (meson split_list)
  have "r_id old \<notin> r_id ` (set xs \<union> set ys)" using ids by (auto simp: t)
  then have ne: "r_id r \<noteq> r_id old" if "r \<in> set xs \<union> set ys" for r using that by (metis image_eqI)
  obtain rows n where r: "insert_episodes (e_stamp env) (r_id old) status episodes [] (next_episode_request d) = Inr (rows, n)"
    and d': "d' = d1\<lparr>request_table := map (\<lambda>r. if r_id r = r_id old
          then replaced_row (e_stamp env) sets rows r else r) (request_table d),
        loose_seasons := loose_seasons d @ map (\<lambda>s. s\<lparr>sr_request_id := None, sr_updated_at := e_stamp env\<rparr>) (r_seasons old),
        next_episode_request := n\<rparr>"
    using w unfolding replace_writes_def Let_def d1_def [symmetric] replaced_row_def [symmetric]
    by (elim and_then_InrE) (auto simp: d1)
  have m: "map (\<lambda>r. if r_id r = r_id old then replaced_row (e_stamp env) sets rows r else r) (request_table d) =
      xs @ replaced_row (e_stamp env) sets rows old # ys"
    using ne by (simp add: t map_idI)
  show thesis
  proof (rule inserted_episodes [OF r])
    fix new
    assume "rows = [] @ new" "n = next_episode_request d + int (length new)"
      "map er_id new = map (\<lambda>k. next_episode_request d + int k) [0..<length new]"
      "list_all (\<lambda>e. er_request_id e = Some (r_id old)) new" "map er_tvdb_id new = map ce_tvdb_id episodes"
      "distinct (map er_tvdb_id []) \<longrightarrow> distinct (map er_tvdb_id rows)"
    then have "\<forall>zs. fresh er_id (next_episode_request d) zs \<longrightarrow> fresh er_id n (zs @ rows)"
      and "list_all (\<lambda>e. er_request_id e = Some (r_id old)) rows" "distinct (map er_tvdb_id rows)"
        "map er_tvdb_id rows = map ce_tvdb_id episodes"
      by (auto intro: fresh_append)
    then show thesis
      by (intro that [OF t]) (simp_all add: d' d1 m)
  qed
qed

lemma replaced_ids_ok:
  assumes w: "replace_writes env d p old sets episodes status = Inr d'"
    and old: "old \<in> set (request_table d)" and ok: "ids_ok d"
  shows "ids_ok d'"
proof -
  have "distinct (map r_id (request_table d))" using ok by (simp add: ids_ok_def fresh_def)
  then show ?thesis
  proof (rule replaced_rows [OF w old])
    fix xs ys :: "request_row list" and rows
    let ?zs = "concat (map r_episodes xs) @ concat (map r_episodes ys)"
    assume t: "request_table d = xs @ old # ys"
      and t': "request_table d' = xs @ replaced_row (e_stamp env) sets rows old # ys"
      and l: "loose_seasons d' = loose_seasons d @
        map (\<lambda>s. s\<lparr>sr_request_id := None, sr_updated_at := e_stamp env\<rparr>) (r_seasons old)"
      and n: "map m_id (media_table d') = map m_id (media_table d)" "next_media d' = next_media d"
        "next_request d' = next_request d" "next_season_request d' = next_season_request d"
      and e: "\<forall>zs. fresh er_id (next_episode_request d) zs \<longrightarrow>
        fresh er_id (next_episode_request d') (zs @ rows)"
    have fr: "fresh r_id (next_request d) (request_table d')"
      by (rule fresh_map_cong [of _ _ "request_table d"]) (use ok in \<open>simp_all add: ids_ok_def t t'\<close>)
    have "map sr_id (map (\<lambda>s. s\<lparr>sr_request_id := None, sr_updated_at := e_stamp env\<rparr>) (r_seasons old)) =
        map sr_id (r_seasons old)"
      by simp
    then have "mset (map sr_id (all_seasons d')) = mset (map sr_id (all_seasons d))"
      unfolding all_seasons_def t t' l by (simp del: map_map)
    moreover have "fresh sr_id (next_season_request d) (all_seasons d)" using ok by (simp add: ids_ok_def)
    ultimately have fs: "fresh sr_id (next_season_request d) (all_seasons d')" by (rule fresh_mset [rotated])
    have "mset ?zs \<subseteq># mset (all_episodes d)" unfolding all_episodes_def t by simp
    moreover have "fresh er_id (next_episode_request d) (all_episodes d)" using ok by (simp add: ids_ok_def)
    ultimately have "fresh er_id (next_episode_request d) ?zs" by (rule fresh_subset_mset [rotated])
    then have "fresh er_id (next_episode_request d') (?zs @ rows)" using e by blast
    moreover have "mset (map er_id (all_episodes d')) = mset (map er_id (?zs @ rows))"
      by (simp add: all_episodes_def t')
    ultimately have fe: "fresh er_id (next_episode_request d') (all_episodes d')" by (rule fresh_mset)
    have "fresh m_id (next_media d) (media_table d')"
      by (rule fresh_map_cong [OF _ n(1)]) (use ok in \<open>simp add: ids_ok_def\<close>)
    then show ?thesis using fr fs fe by (simp add: ids_ok_def n)
  qed
qed

lemma replaced_links_ok:
  assumes w: "replace_writes env d p old sets episodes status = Inr d'"
    and old: "old \<in> set (request_table d)" and ids: "ids_ok d" and ok: "links_ok d"
  shows "links_ok d'"
proof -
  have "distinct (map r_id (request_table d))" using ids by (simp add: ids_ok_def fresh_def)
  then show ?thesis
  proof (rule replaced_rows [OF w old])
    fix xs ys rows
    assume t: "request_table d = xs @ old # ys"
      and t': "request_table d' = xs @ replaced_row (e_stamp env) sets rows old # ys"
      and l: "loose_seasons d' = loose_seasons d @
        map (\<lambda>s. s\<lparr>sr_request_id := None, sr_updated_at := e_stamp env\<rparr>) (r_seasons old)"
      and m: "map m_id (media_table d') = map m_id (media_table d)"
      and r: "list_all (\<lambda>e. er_request_id e = Some (r_id old)) rows" "distinct (map er_tvdb_id rows)"
    have k: "linked d' r" if "r \<in> set (request_table d)" for r
      using ok that linked_mono [of d r d'] arg_cong [OF m, of set] by (auto simp: links_ok_def list_all_iff)
    have "linked d' (replaced_row (e_stamp env) sets rows old)"
      using k [OF old] r by (simp add: linked_def)
    then show ?thesis
      using k ok unfolding links_ok_def t t' l by (auto simp: list_all_iff)
  qed
qed

subsection \<open>Seasons stay apart\<close>

lemma apart_no_seasons: "r_seasons q = [] \<Longrightarrow> apart r q" "r_seasons q = [] \<Longrightarrow> apart q r"
  by (simp_all add: apart_def)

lemma created_seasons_apart:
  assumes p: "prepare env d user body = Inr p"
    and w: "write_request env d body p status mb = Inr (d', i, mid)"
    and ok: "seasons_apart d" and ids: "ids_ok d" and links: "links_ok d" and g: "rb_is4k_given body"
  shows "seasons_apart d'"
proof (rule created_rows [OF w prepared_media [OF p], of "[]" "[]"])
  fix d1 ss es
  let ?row = "new_request_row (e_stamp env) body p status mb i mid ss es"
  assume s: "media_step env d body (p_plan p) = (d1, mid)"
    and r: "request_table d' = request_table d @ [?row]"
    and ss: "map sr_season_number ss = p_seasons p"
  have "apart q ?row" if q: "q \<in> set (request_table d)" for q
  proof (cases "r_media_id q = Some mid \<and> is_active (rb_is4k body) q")
    case True
    show ?thesis
    proof (cases "mp_existing (p_plan p)")
      case None
      then have "mid = next_media d" using s by (auto simp: media_step_def insert_media_def Let_def)
      moreover have "mid \<in> set (map m_id (media_table d))"
        using links q True by (auto simp: links_ok_def list_all_iff linked_def)
      ultimately show ?thesis using ids by (auto simp: ids_ok_def fresh_def)
    next
      case (Some m)
      then have "q \<in> set (p_media_requests p)"
        using s q True by (auto simp: prepared_title(2) [OF p] media_step_def requests_of_media_def)
      then have "set (map sr_season_number (r_seasons q)) \<inter> set (p_seasons p) = {}"
        using prepared_seasons_apart [OF p g] True by blast
      then show ?thesis by (simp add: apart_def new_row_fields ss flip: set_map)
    qed
  next
    case False
    then show ?thesis by (auto simp: apart_def new_row_fields is_active_def)
  qed
  then show ?thesis using ok by (simp add: seasons_apart_def r sorted_wrt_append)
qed

lemma replaced_seasons_apart:
  assumes w: "replace_writes env d p old sets episodes status = Inr d'"
    and old: "old \<in> set (request_table d)" and ids: "ids_ok d" and ok: "seasons_apart d"
  shows "seasons_apart d'"
proof -
  have "distinct (map r_id (request_table d))" using ids by (simp add: ids_ok_def fresh_def)
  then show ?thesis
    by (rule replaced_rows [OF w old])
      (use ok in \<open>simp add: seasons_apart_def sorted_wrt_append apart_no_seasons\<close>)
qed

subsection \<open>Every admission\<close>

lemma prepared_request_row:
  assumes "prepare env d user body = Inr p" "old \<in> set (p_media_requests p)"
  shows "old \<in> set (request_table d)"
  using assms(2) unfolding prepared_title(2) [OF assms(1)]
  by (auto simp: requests_of_media_def split: option.splits)

lemma admit_ids_links:
  assumes adm: "admit env d user body = Inr (d', a)" and ok: "ids_ok d" "links_ok d"
  shows "ids_ok d' \<and> links_ok d'"
  using adm
proof (cases rule: admit_cases)
  case (created p i m)
  show ?thesis
    using created_ids_ok [OF created(3) ok(1) prepared_media [OF created(1)]]
      created_links_ok [OF created(3) ok(2) prepared_media [OF created(1)]] by simp
next
  case (replaced p plan old)
  note old = prepared_request_row [OF replaced(1,5)]
  show ?thesis
    using replaced_ids_ok [OF replaced(7) old ok(1)] replaced_links_ok [OF replaced(7) old ok] by simp
qed

lemma admit_seasons_apart:
  assumes adm: "admit env d user body = Inr (d', a)" and ok: "ids_ok d" "links_ok d" "seasons_apart d"
    and g: "rb_is4k_given body"
  shows "seasons_apart d'"
  using adm
proof (cases rule: admit_cases)
  case (created p i m)
  then show ?thesis using created_seasons_apart [OF created(1,3) ok(3,1,2) g] by simp
next
  case (replaced p plan old)
  then show ?thesis
    using replaced_seasons_apart [OF replaced(7) prepared_request_row [OF replaced(1,5)] ok(1,3)] by simp
qed

text \<open>
  The tables some sequence of accepted requests leads to, whoever made them and whatever the settings
  and services answered. \<open>stated\<close> says whether every body named its quality (\<open>is4k\<close>).
\<close>

inductive requested :: "bool \<Rightarrow> db \<Rightarrow> db \<Rightarrow> bool" for stated :: bool where
  none: "requested stated d d"
| more: "requested stated d d1 \<Longrightarrow> admit env d1 user body = Inr (d2, a) \<Longrightarrow>
    stated \<longrightarrow> rb_is4k_given body \<Longrightarrow> requested stated d d2"

lemma requested_ids_links: "requested st d d' \<Longrightarrow> ids_ok d \<and> links_ok d \<Longrightarrow> ids_ok d' \<and> links_ok d'"
  by (induction rule: requested.induct) (auto dest: admit_ids_links)

text \<open>
  Over any sequence of accepted requests, created or replacing an ongoing one, the tables stay
  well formed: ids are never given twice, season and episode rows name the request that holds them,
  an episode appears once in a request, and every request names a media row that exists.
\<close>

theorem requests_keep_tables:
  "requested stated d d' \<Longrightarrow> ids_ok d \<Longrightarrow> links_ok d \<Longrightarrow> ids_ok d' \<and> links_ok d'"
  by (rule requested_ids_links) simp_all

text \<open>
  Over any sequence of accepted requests that state their quality, no two active requests of one
  title and quality hold the same season.
\<close>

theorem requests_keep_seasons_apart:
  assumes "requested True d d'" "ids_ok d" "links_ok d" "seasons_apart d"
  shows "seasons_apart d'"
  using assms
proof (induction rule: requested.induct)
  case (none d)
  then show ?case by simp
next
  case (more d d1 env user body d2 a)
  then show ?case
    using requested_ids_links [OF more.hyps(1)] by (blast intro: admit_seasons_apart)
qed

lemma demo_requested: "requested st quota_db demo_after"
  by (rule requested.more [OF requested.none demo_admit]) (simp add: demo_movie_def)

theorem requests_keep_tables_witness: "ids_ok demo_after \<and> links_ok demo_after"
proof -
  have "ids_ok quota_db" "links_ok quota_db" by code_simp+
  then show ?thesis by (rule requests_keep_tables [OF demo_requested])
qed

subsection \<open>Two requests for one series\<close>

definition demo_show :: "int list \<Rightarrow> request_body" where
  "demo_show seasons = demo_movie\<lparr>rb_media_type := ''tv'', rb_media_id := 1396,
     rb_seasons := Some (SeasonList seasons)\<rparr>"

definition admit_tables :: "env \<Rightarrow> db \<Rightarrow> current_user \<Rightarrow> request_body \<Rightarrow> db" where
  "admit_tables env d user body = (case admit env d user body of Inr (d', _) \<Rightarrow> d' | Inl _ \<Rightarrow> d)"

definition demo_first :: db where
  "demo_first = admit_tables demo_env quota_db demo_viewer (demo_show [1])"

definition demo_second :: db where
  "demo_second = admit_tables demo_env demo_first demo_viewer (demo_show [1, 2])"

lemma demo_first: "admit demo_env quota_db demo_viewer (demo_show [1]) = Inr (demo_first, Created 1 1)"
  by code_simp

lemma demo_second: "admit demo_env demo_first demo_viewer (demo_show [1, 2]) = Inr (demo_second, Created 2 1)"
  by code_simp

lemma demo_shows: "requested True quota_db demo_second"
  by (rule requested.more [OF requested.more [OF requested.none demo_first] demo_second])
    (simp_all add: demo_show_def demo_movie_def)

theorem requests_keep_seasons_apart_witness:
  "seasons_apart demo_second \<and>
   map (\<lambda>r. map sr_season_number (r_seasons r)) (request_table demo_second) = [[1], [2]]"
proof
  have "ids_ok quota_db" "links_ok quota_db" "seasons_apart quota_db" by code_simp+
  then show "seasons_apart demo_second" by (rule requests_keep_seasons_apart [OF demo_shows])
  show "map (\<lambda>r. map sr_season_number (r_seasons r)) (request_table demo_second) = [[1], [2]]" by code_simp
qed

end
