(* ===== verification/Request_Steps.thy ===== *)
theory Request_Steps
  imports Request_Routes Request_Inv
begin

section \<open>Requests over time\<close>

text \<open>
  The routes that change requests as steps on the tables, and what every sequence of them keeps: well
  formed tables, and active requests of a title that share no season. Statements that touch statuses,
  dates and media only are \<open>tables_quiet\<close>; everything the hooks write is made of them and of deletions.
\<close>

subsection \<open>Quiet changes\<close>

definition season_key :: "season_request_row \<Rightarrow> int \<times> int \<times> int option" where
  "season_key s = (sr_id s, sr_season_number s, sr_request_id s)"

definition episode_key :: "episode_request_row \<Rightarrow> int \<times> int \<times> int option" where
  "episode_key e = (er_id e, er_tvdb_id e, er_request_id e)"

definition row_quiet :: "request_row \<Rightarrow> request_row \<Rightarrow> bool" where
  "row_quiet r q \<longleftrightarrow> r_id q = r_id r \<and> r_media_id q = r_media_id r \<and> r_is4k q = r_is4k r \<and>
     map season_key (r_seasons q) = map season_key (r_seasons r) \<and>
     map episode_key (r_episodes q) = map episode_key (r_episodes r) \<and>
     (is_open q \<longrightarrow> is_open r)"

definition tables_quiet :: "db \<Rightarrow> db \<Rightarrow> bool" where
  "tables_quiet d d' \<longleftrightarrow> list_all2 row_quiet (request_table d) (request_table d') \<and>
     map m_id (media_table d') = map m_id (media_table d) \<and>
     map season_key (loose_seasons d') = map season_key (loose_seasons d) \<and>
     next_media d' = next_media d \<and> next_request d' = next_request d \<and>
     next_season_request d' = next_season_request d \<and> next_episode_request d' = next_episode_request d"

lemma row_quiet_refl [simp]: "row_quiet r r"
  by (simp add: row_quiet_def)

lemma row_quiet_trans: "row_quiet r q \<Longrightarrow> row_quiet q p \<Longrightarrow> row_quiet r p"
  by (simp add: row_quiet_def)

lemma tables_quiet_refl [simp]: "tables_quiet d d"
  by (simp add: tables_quiet_def list_all2_same)

lemma tables_quiet_trans: "tables_quiet d d1 \<Longrightarrow> tables_quiet d1 d2 \<Longrightarrow> tables_quiet d d2"
  unfolding tables_quiet_def
  using list_all2_trans [of row_quiet row_quiet row_quiet "request_table d" "request_table d1" "request_table d2"] row_quiet_trans
  by simp

lemma tables_quiet_rows:
  assumes "\<And>r. r \<in> set (request_table d) \<Longrightarrow> row_quiet r (f r)"
    and "map m_id (media_table d') = map m_id (media_table d)"
    and "map season_key (loose_seasons d') = map season_key (loose_seasons d)"
    and "request_table d' = map f (request_table d)" "next_media d' = next_media d" "next_request d' = next_request d"
    and "next_season_request d' = next_season_request d" "next_episode_request d' = next_episode_request d"
  shows "tables_quiet d d'"
  using assms by (simp add: tables_quiet_def list_all2_map2 list_all2_same)

lemma quiet_media: "(\<And>m. m_id (f m) = m_id m) \<Longrightarrow> tables_quiet d (modify_media i f d)"
  by (rule tables_quiet_rows [of _ "\<lambda>r. r"]) (simp_all add: modify_media_def)

lemma quiet_season: "tables_quiet d (modify_season i f d)"
  by (rule tables_quiet_rows [of _ "\<lambda>r. r"]) (simp_all add: modify_season_def)

lemma quiet_set_media [simp]: "tables_quiet d (set_media_status stamp i four s d)"
  unfolding set_media_status_def by (rule quiet_media) (simp add: with_status_def)

lemma quiet_set_season [simp]: "tables_quiet d (set_season_status stamp i four s d)"
  unfolding set_season_status_def by (rule quiet_season)

lemma quiet_season_request:
  assumes "\<And>s. season_key (f s) = season_key s"
  shows "tables_quiet d (modify_season_request i f d)"
proof -
  have k: "map season_key (map (\<lambda>s. if sr_id s = i then f s else s) ss) = map season_key ss" for ss
    by (simp add: assms)
  show ?thesis
    unfolding modify_season_request_def Let_def
    by (rule tables_quiet_rows [of _ "\<lambda>r. r\<lparr>r_seasons := map (\<lambda>s. if sr_id s = i then f s else s) (r_seasons r)\<rparr>"])
      (use k in \<open>simp_all add: row_quiet_def is_open_def del: map_map\<close>)
qed

lemma quiet_episode:
  assumes "\<And>e. episode_key (f e) = episode_key e"
  shows "tables_quiet d (modify_episode i f d)"
proof -
  have k: "map episode_key (map (\<lambda>s. if er_id s = i then f s else s) ss) = map episode_key ss" for ss
    by (simp add: assms)
  show ?thesis
    unfolding modify_episode_def
    by (rule tables_quiet_rows [of _ "\<lambda>r. r\<lparr>r_episodes := map (\<lambda>s. if er_id s = i then f s else s) (r_episodes r)\<rparr>"])
      (use k in \<open>simp_all add: row_quiet_def is_open_def del: map_map\<close>)
qed

lemma quiet_request:
  assumes "\<And>r. r \<in> set (request_table d) \<Longrightarrow> r_id r = i \<Longrightarrow> row_quiet r (f r)"
  shows "tables_quiet d (modify_request i f d)"
  by (rule tables_quiet_rows [of _ "\<lambda>r. if r_id r = i then f r else r"]) (use assms in \<open>simp_all add: modify_request_def\<close>)

lemma quiet_fold:
  assumes "\<And>x d. tables_quiet d (f x d)"
  shows "tables_quiet d (fold f xs d)"
  by (induction xs arbitrary: d) (auto intro: tables_quiet_trans assms)

subsection \<open>What quiet changes and deletions keep\<close>

lemma list_all2_map_eq:
  assumes "list_all2 P xs ys" "\<And>x y. P x y \<Longrightarrow> f y = f x"
  shows "map f ys = map f xs"
  using assms(1) by (induction rule: list_all2_induct) (simp_all add: assms(2))

lemma map_keys:
  "map season_key ss = map season_key ss' \<Longrightarrow> map sr_id ss = map sr_id ss' \<and>
     map sr_season_number ss = map sr_season_number ss' \<and> map sr_request_id ss = map sr_request_id ss'"
  "map episode_key es = map episode_key es' \<Longrightarrow> map er_id es = map er_id es' \<and>
     map er_tvdb_id es = map er_tvdb_id es' \<and> map er_request_id es = map er_request_id es'"
proof -
  have "sr_id = fst \<circ> season_key" "sr_season_number = fst \<circ> snd \<circ> season_key" "sr_request_id = snd \<circ> snd \<circ> season_key"
    "er_id = fst \<circ> episode_key" "er_tvdb_id = fst \<circ> snd \<circ> episode_key" "er_request_id = snd \<circ> snd \<circ> episode_key"
    by (simp_all add: fun_eq_iff season_key_def episode_key_def)
  then show "map season_key ss = map season_key ss' \<Longrightarrow> map sr_id ss = map sr_id ss' \<and>
     map sr_season_number ss = map sr_season_number ss' \<and> map sr_request_id ss = map sr_request_id ss'"
    "map episode_key es = map episode_key es' \<Longrightarrow> map er_id es = map er_id es' \<and>
     map er_tvdb_id es = map er_tvdb_id es' \<and> map er_request_id es = map er_request_id es'"
    by (metis list.map_comp)+
qed

lemma row_quiet_keys:
  assumes "row_quiet r q"
  shows "map sr_id (r_seasons q) = map sr_id (r_seasons r)"
    "map sr_season_number (r_seasons q) = map sr_season_number (r_seasons r)"
    "map sr_request_id (r_seasons q) = map sr_request_id (r_seasons r)"
    "map er_id (r_episodes q) = map er_id (r_episodes r)"
    "map er_tvdb_id (r_episodes q) = map er_tvdb_id (r_episodes r)"
    "map er_request_id (r_episodes q) = map er_request_id (r_episodes r)"
proof -
  have s: "map season_key (r_seasons q) = map season_key (r_seasons r)"
    and e: "map episode_key (r_episodes q) = map episode_key (r_episodes r)"
    using assms by (simp_all only: row_quiet_def)
  note k = map_keys(1) [OF s] and l = map_keys(2) [OF e]
  from k show "map sr_id (r_seasons q) = map sr_id (r_seasons r)" by blast
  from k show "map sr_season_number (r_seasons q) = map sr_season_number (r_seasons r)" by blast
  from k show "map sr_request_id (r_seasons q) = map sr_request_id (r_seasons r)" by blast
  from l show "map er_id (r_episodes q) = map er_id (r_episodes r)" by blast
  from l show "map er_tvdb_id (r_episodes q) = map er_tvdb_id (r_episodes r)" by blast
  from l show "map er_request_id (r_episodes q) = map er_request_id (r_episodes r)" by blast
qed

lemma quiet_ids_ok:
  assumes q: "tables_quiet d d'" and ok: "ids_ok d"
  shows "ids_ok d'"
proof -
  from q have rows: "list_all2 row_quiet (request_table d) (request_table d')"
    and m: "map m_id (media_table d') = map m_id (media_table d)"
    and loose: "map season_key (loose_seasons d') = map season_key (loose_seasons d)"
    and n: "next_media d' = next_media d" "next_request d' = next_request d"
      "next_season_request d' = next_season_request d" "next_episode_request d' = next_episode_request d"
    by (simp_all only: tables_quiet_def)
  from ok have o: "fresh m_id (next_media d) (media_table d)" "fresh r_id (next_request d) (request_table d)"
    "fresh sr_id (next_season_request d) (all_seasons d)" "fresh er_id (next_episode_request d) (all_episodes d)"
    by (simp_all only: ids_ok_def)
  have ids: "map r_id (request_table d') = map r_id (request_table d)"
    by (rule list_all2_map_eq [OF rows]) (simp add: row_quiet_def)
  have s: "map (\<lambda>r. map sr_id (r_seasons r)) (request_table d') = map (\<lambda>r. map sr_id (r_seasons r)) (request_table d)"
    by (rule list_all2_map_eq [OF rows]) (rule row_quiet_keys(1))
  have e: "map (\<lambda>r. map er_id (r_episodes r)) (request_table d') = map (\<lambda>r. map er_id (r_episodes r)) (request_table d)"
    by (rule list_all2_map_eq [OF rows]) (rule row_quiet_keys(4))
  have l: "map sr_id (loose_seasons d') = map sr_id (loose_seasons d)" using map_keys(1) [OF loose] by blast
  have a: "map sr_id (all_seasons d') = map sr_id (all_seasons d)"
    using s l by (simp add: all_seasons_def map_concat o_def)
  have b: "map er_id (all_episodes d') = map er_id (all_episodes d)"
    using e by (simp add: all_episodes_def map_concat o_def)
  show ?thesis
    unfolding ids_ok_def n
    by (intro conjI; rule fresh_map_cong; (rule o | rule m | rule ids | rule a | rule b))
qed

lemma list_all_key:
  assumes "map f ys = map f xs" "list_all (\<lambda>x. f x = c) xs"
  shows "list_all (\<lambda>y. f y = c) ys"
proof -
  have "set (map f ys) \<subseteq> {c}" using assms by (simp only: list_all_iff) auto
  then show ?thesis by (auto simp: list_all_iff)
qed

lemma quiet_linked:
  assumes q: "row_quiet r q" and m: "map m_id (media_table d') = map m_id (media_table d)" and l: "linked d r"
  shows "linked d' q"
proof -
  have i: "r_id q = r_id r" "r_media_id q = r_media_id r" using q by (simp_all add: row_quiet_def)
  note k = row_quiet_keys [OF q]
  have l': "list_all (\<lambda>s. sr_request_id s = Some (r_id r)) (r_seasons r)"
    "list_all (\<lambda>e. er_request_id e = Some (r_id r)) (r_episodes r)" "distinct (map er_tvdb_id (r_episodes r))"
    "case r_media_id r of None \<Rightarrow> True | Some i \<Rightarrow> i \<in> set (map m_id (media_table d))"
    using l by (simp_all only: linked_def)
  show ?thesis
    unfolding linked_def i k(5) m
    using list_all_key [OF k(3) l'(1)] list_all_key [OF k(6) l'(2)] l'(3,4) by (intro conjI)
qed

lemma quiet_links_ok:
  assumes q: "tables_quiet d d'" and ok: "links_ok d"
  shows "links_ok d'"
proof -
  from q have rows: "list_all2 row_quiet (request_table d) (request_table d')"
    and m: "map m_id (media_table d') = map m_id (media_table d)"
    and loose: "map season_key (loose_seasons d') = map season_key (loose_seasons d)"
    by (simp_all only: tables_quiet_def)
  have "list_all (linked d') (request_table d')"
    unfolding list_all_iff
  proof
    fix q
    assume "q \<in> set (request_table d')"
    then obtain r where "r \<in> set (request_table d)" "row_quiet r q"
      using rows by (metis in_set_conv_nth list_all2_conv_all_nth)
    then show "linked d' q" using ok quiet_linked [OF _ m] by (auto simp: links_ok_def list_all_iff)
  qed
  moreover have "list_all (\<lambda>s. sr_request_id s = None) (loose_seasons d')"
    by (rule list_all_key [of sr_request_id _ "loose_seasons d"])
      (use map_keys(1) [OF loose] ok in \<open>simp_all add: links_ok_def\<close>)
  ultimately show ?thesis by (simp add: links_ok_def)
qed

lemma is_active_open: "is_active k r \<longleftrightarrow> r_is4k r = k \<and> is_open r"
  by (auto simp: is_active_def is_open_def)

lemma quiet_apart:
  assumes "row_quiet r r'" "row_quiet q q'" "apart r q"
  shows "apart r' q'"
proof -
  have "r_media_id r' = r_media_id r" "r_media_id q' = r_media_id q" "r_is4k r' = r_is4k r" "r_is4k q' = r_is4k q"
    "is_open r' \<longrightarrow> is_open r" "is_open q' \<longrightarrow> is_open q"
    using assms(1,2) by (simp_all add: row_quiet_def)
  then show ?thesis
    using assms(3) unfolding apart_def is_active_open row_quiet_keys(2) [OF assms(1)] row_quiet_keys(2) [OF assms(2)]
    by auto
qed

lemma quiet_seasons_apart:
  assumes q: "tables_quiet d d'" and ok: "seasons_apart d"
  shows "seasons_apart d'"
proof -
  from q have rows: "list_all2 row_quiet (request_table d) (request_table d')"
    by (simp only: tables_quiet_def)
  show ?thesis
    unfolding seasons_apart_def sorted_wrt_iff_nth_less
  proof (intro allI impI)
    fix i j
    assume ij: "i < j" "j < length (request_table d')"
    then have "row_quiet (request_table d ! i) (request_table d' ! i)" "row_quiet (request_table d ! j) (request_table d' ! j)"
      and "apart (request_table d ! i) (request_table d ! j)"
      using rows ok list_all2_lengthD [OF rows]
      by (auto simp: list_all2_conv_all_nth seasons_apart_def sorted_wrt_iff_nth_less)
    then show "apart (request_table d' ! i) (request_table d' ! j)" by (rule quiet_apart)
  qed
qed

text \<open>\<open>good\<close>: what the steps keep; the seasons stay apart where every body states its quality.\<close>

definition good :: "bool \<Rightarrow> db \<Rightarrow> bool" where
  "good stated d \<longleftrightarrow> ids_ok d \<and> links_ok d \<and> (stated \<longrightarrow> seasons_apart d)"

lemma quiet_good: "tables_quiet d d' \<Longrightarrow> good st d \<Longrightarrow> good st d'"
  using quiet_ids_ok quiet_links_ok quiet_seasons_apart unfolding good_def by blast

lemma sorted_wrt_filter: "sorted_wrt P xs \<Longrightarrow> sorted_wrt P (filter Q xs)"
  by (induction xs) auto

lemma fresh_filter: "fresh f n xs \<Longrightarrow> fresh f n (filter P xs)"
  by (auto simp: fresh_def distinct_map_filter)

lemma mset_concat_filter: "mset (concat (map f (filter P xs))) \<subseteq># mset (concat (map f xs))"
  by (induction xs) (auto intro: subset_mset.add_mono subset_mset.add_increasing)

lemma shrink_ids_ok:
  assumes "ids_ok d" "request_table d' = filter P (request_table d)" "media_table d' = filter Q (media_table d)"
    "loose_seasons d' = loose_seasons d" "next_media d' = next_media d" "next_request d' = next_request d"
    "next_season_request d' = next_season_request d" "next_episode_request d' = next_episode_request d"
  shows "ids_ok d'"
proof -
  have "mset (all_seasons d') \<subseteq># mset (all_seasons d)" "mset (all_episodes d') \<subseteq># mset (all_episodes d)"
    using mset_concat_filter by (simp_all add: all_seasons_def all_episodes_def assms)
  then show ?thesis
    using assms(1) by (simp add: ids_ok_def assms fresh_filter) (blast intro: fresh_subset_mset)
qed

lemma shrink_good:
  assumes good: "good st d" and r: "request_table d' = filter P (request_table d)"
    and m: "media_table d' = filter Q (media_table d)"
    and "loose_seasons d' = loose_seasons d" "next_media d' = next_media d" "next_request d' = next_request d"
    "next_season_request d' = next_season_request d" "next_episode_request d' = next_episode_request d"
    and keep: "\<And>r m. P r \<Longrightarrow> r_media_id r = Some (m_id m) \<Longrightarrow> Q m"
  shows "good st d'"
proof -
  have "linked d' q" if q: "q \<in> set (request_table d')" for q
  proof -
    have l: "linked d q" "P q" using good q by (auto simp: good_def links_ok_def list_all_iff r)
    have "i \<in> set (map m_id (media_table d'))" if "r_media_id q = Some i" for i
      using l that keep by (auto simp: linked_def m)
    then show ?thesis using l by (auto simp: linked_def split: option.splits)
  qed
  then have "links_ok d'" using good by (simp add: good_def links_ok_def list_all_iff assms(4))
  moreover have "ids_ok d'" using good shrink_ids_ok [OF _ r m assms(4-8)] by (simp add: good_def)
  moreover have "st \<longrightarrow> seasons_apart d'"
    using good by (simp add: good_def seasons_apart_def r sorted_wrt_filter)
  ultimately show ?thesis by (simp add: good_def)
qed

lemma delete_request_good: "good st d \<Longrightarrow> good st (delete_request i d)"
  by (rule shrink_good [of st d _ "\<lambda>r. r_id r \<noteq> i" "\<lambda>m. True"]) (simp_all add: delete_request_def)

lemma delete_media_good: "good st d \<Longrightarrow> good st (delete_media i d)"
  by (rule shrink_good [of st d _ "\<lambda>r. r_media_id r \<noteq> Some i" "\<lambda>m. m_id m \<noteq> i"]) (auto simp: delete_media_def)

subsection \<open>The writes of the hooks\<close>

text \<open>A row whose request is open in the tables may be written with any status.\<close>

definition open_at :: "db \<Rightarrow> int \<Rightarrow> bool" where
  "open_at d i \<longleftrightarrow> list_all (\<lambda>r. r_id r = i \<longrightarrow> is_open r) (request_table d)"

lemma quiet_if: "tables_quiet d a \<Longrightarrow> tables_quiet d b \<Longrightarrow> tables_quiet d (if c then a else b)"
  by simp

lemma quiet_fold_after:
  "(\<And>x d. tables_quiet d (f x d)) \<Longrightarrow> tables_quiet d d1 \<Longrightarrow> tables_quiet d (fold f xs d1)"
  by (rule tables_quiet_trans [OF _ quiet_fold])

lemma quiet_set_media_after: "tables_quiet d d1 \<Longrightarrow> tables_quiet d (set_media_status stamp i four s d1)"
  by (rule tables_quiet_trans [OF _ quiet_set_media])

lemma quiet_decline: "tables_quiet d (decline_season stamp i media row s d)"
  by (simp add: decline_season_def split: option.split)

lemma quiet_write_seasons: "tables_quiet d d1 \<Longrightarrow> tables_quiet d (write_season_statuses stamp row stored d1)"
  unfolding write_season_statuses_def
  by (intro quiet_fold_after quiet_if quiet_season_request tables_quiet_refl) (simp_all add: season_key_def)

lemma quiet_write_episodes: "tables_quiet d d1 \<Longrightarrow> tables_quiet d (write_episode_statuses stamp row stored d1)"
  unfolding write_episode_statuses_def
  by (intro quiet_fold_after quiet_if quiet_episode tables_quiet_refl) (simp_all add: episode_key_def)

lemma quiet_write_row:
  assumes "is_open row \<Longrightarrow> open_at d (r_id row)"
  shows "tables_quiet d (modify_request (r_id row) (\<lambda>r. r\<lparr>r_status := r_status row,
      r_modified_by_id := r_modified_by_id row, r_updated_at := stamp\<rparr>) d)"
proof (rule quiet_request)
  fix r
  assume r: "r \<in> set (request_table d)" "r_id r = r_id row"
  have "is_open row \<Longrightarrow> is_open r" using assms r by (simp only: open_at_def list_all_iff)
  then show "row_quiet r (r\<lparr>r_status := r_status row, r_modified_by_id := r_modified_by_id row, r_updated_at := stamp\<rparr>)"
    by (simp add: row_quiet_def is_open_def)
qed

lemma quiet_write_rows:
  assumes "with_row \<Longrightarrow> is_open row \<Longrightarrow> open_at d (r_id row)"
  shows "tables_quiet d (fst (write_rows stamp d row stored with_row))"
proof (cases with_row)
  case True
  then show ?thesis
    unfolding write_rows_def Let_def fst_conv
    by (intro quiet_write_episodes quiet_write_seasons quiet_if tables_quiet_refl quiet_write_row assms)
next
  case False
  then show ?thesis
    by (simp add: write_rows_def Let_def quiet_write_episodes quiet_write_seasons)
qed

lemma quiet_write_children:
  assumes "tables_quiet d d1"
  shows "tables_quiet d (fst (case x of None \<Rightarrow> (d1, r) | Some stored \<Rightarrow>
    (fst (write_rows stamp d1 r stored False), reload_dates (fst (write_rows stamp d1 r stored False)) r False)))"
  using assms quiet_write_rows [of False r d1 stamp] by (auto split: option.split intro: tables_quiet_trans)

lemma quiet_update_parent: "tables_quiet d (fst (update_parent_status stamp d row))"
proof (cases "Option.bind (r_media_id row) (media_by_id d)")
  case None
  then show ?thesis by (cases "r_media_id row") (simp_all add: update_parent_status_def)
next
  case (Some media)
  then obtain i where i: "r_media_id row = Some i" "media_by_id d i = Some media" by (auto split: bind_splits)
  show ?thesis
    unfolding update_parent_status_def i option.case Let_def
    by (intro quiet_write_children quiet_if quiet_fold_after quiet_decline quiet_set_media_after tables_quiet_refl)
qed

lemma save_request_rows:
  assumes "save_request stamp d row with_row = (d', row', c)"
    and "with_row \<Longrightarrow> is_open row \<Longrightarrow> open_at d (r_id row)"
  shows "tables_quiet d d' \<and> r_id row' = r_id row \<and> r_status row' = r_status row \<and>
    r_media_id row' = r_media_id row \<and> r_request_type row' = r_request_type row"
proof -
  have "tables_quiet d (fst (save_request stamp d row with_row))"
    using quiet_write_rows [OF assms(2)] by (simp add: save_request_def Let_def split_def split: option.split)
  then show ?thesis
    using assms(1)
    by (auto simp: save_request_def reload_dates_def Let_def split_def split: option.splits)
qed

end
