(* ===== verification/Request_Reach.thy ===== *)
theory Request_Reach
  imports Request_Steps
begin

section \<open>The hooks keep the tables\<close>

text \<open>
  What the insert, update and remove hooks of \<open>src/backend-rs/src/lifecycle.rs\<close> write, as changes
  relative to the tables a route started from (\<open>d0\<close>): a request that was open there may be written with
  any status, so no hook opens one that was closed.
\<close>

subsection \<open>Writes relative to a start\<close>

lemma quiet_request_at:
  assumes q: "tables_quiet d0 d"
    and f: "\<And>r0 r. r0 \<in> set (request_table d0) \<Longrightarrow> r_id r0 = i \<Longrightarrow> row_quiet r0 r \<Longrightarrow> row_quiet r0 (f r)"
  shows "tables_quiet d0 (modify_request i f d)"
proof -
  have rows: "list_all2 row_quiet (request_table d0) (request_table d)" using q by (simp only: tables_quiet_def)
  have "list_all2 row_quiet (request_table d0) (map (\<lambda>r. if r_id r = i then f r else r) (request_table d))"
    unfolding list_all2_conv_all_nth
  proof (intro conjI allI impI)
    show l: "length (request_table d0) = length (map (\<lambda>r. if r_id r = i then f r else r) (request_table d))"
      using list_all2_lengthD [OF rows] by simp
    fix k
    assume k: "k < length (request_table d0)"
    then have k': "k < length (request_table d)" using l by simp
    have r: "row_quiet (request_table d0 ! k) (request_table d ! k)" using rows k by (rule list_all2_nthD)
    then have i: "r_id (request_table d ! k) = r_id (request_table d0 ! k)" by (simp only: row_quiet_def)
    show "row_quiet (request_table d0 ! k) (map (\<lambda>r. if r_id r = i then f r else r) (request_table d) ! k)"
      using f [OF nth_mem [OF k] _ r] r by (simp only: nth_map [OF k'] i split: if_split) blast
  qed
  then show ?thesis using q by (simp add: tables_quiet_def modify_request_def)
qed

lemma quiet_status_at:
  assumes q: "tables_quiet d0 d" and o: "s \<noteq> COMPLETED \<Longrightarrow> s \<noteq> DECLINED \<Longrightarrow> open_at d0 i"
    and f: "\<And>r. r_id (f r) = r_id r \<and> r_media_id (f r) = r_media_id r \<and> r_is4k (f r) = r_is4k r \<and>
      r_seasons (f r) = r_seasons r \<and> r_episodes (f r) = r_episodes r \<and> r_status (f r) = s"
  shows "tables_quiet d0 (modify_request i f d)"
proof (rule quiet_request_at [OF q])
  fix r0 r
  assume r: "r0 \<in> set (request_table d0)" "r_id r0 = i" "row_quiet r0 r"
  have "is_open (f r) \<Longrightarrow> is_open r0"
    using o r(1,2) f [of r] by (simp add: is_open_def open_at_def list_all_iff)
  then show "row_quiet r0 (f r)"
    using r(3) f [of r] by (simp add: row_quiet_def)
qed

lemma quiet_rows_at:
  assumes q: "tables_quiet d0 d" and o: "with_row \<Longrightarrow> is_open row \<Longrightarrow> open_at d0 (r_id row)"
  shows "tables_quiet d0 (fst (write_rows stamp d row stored with_row))"
proof (cases with_row)
  case True
  have w: "tables_quiet d0 (modify_request (r_id row) (\<lambda>r. r\<lparr>r_status := r_status row,
      r_modified_by_id := r_modified_by_id row, r_updated_at := stamp\<rparr>) d)"
    by (rule quiet_status_at [OF q, of "r_status row"]) (use o True in \<open>simp_all add: is_open_def\<close>)
  show ?thesis
    unfolding write_rows_def Let_def fst_conv
    by (intro quiet_write_episodes quiet_write_seasons quiet_if w q)
next
  case False
  then show ?thesis by (simp add: write_rows_def Let_def quiet_write_episodes quiet_write_seasons q)
qed

lemma reload_dates_fields [simp]:
  "r_id (reload_dates d row w) = r_id row" "r_media_id (reload_dates d row w) = r_media_id row"
  "r_request_type (reload_dates d row w) = r_request_type row"
  by (simp_all add: reload_dates_def split: option.split)

lemma save_request_at:
  assumes "save_request stamp d row w = (d', row', c)" "tables_quiet d0 d"
    and "w \<Longrightarrow> is_open row \<Longrightarrow> open_at d0 (r_id row)"
  shows "tables_quiet d0 d' \<and> r_id row' = r_id row \<and> r_status row' = r_status row"
proof -
  have "tables_quiet d0 (fst (save_request stamp d row w))"
    using quiet_rows_at [OF assms(2,3)] assms(2) by (simp add: save_request_def Let_def split_def split: option.split)
  then show ?thesis
    using assms(1) by (auto simp: save_request_def Let_def split_def split: option.splits)
qed

lemma update_parent_row:
  assumes "update_parent_status stamp d row = (d', row')"
  shows "r_id row' = r_id row \<and> r_status row' = r_status row"
proof -
  have "r_id (snd (update_parent_status stamp d row)) = r_id row \<and> r_status (snd (update_parent_status stamp d row)) = r_status row"
    by (simp add: update_parent_status_def Let_def with_child_status_def split: option.split)
  then show ?thesis using assms by simp
qed

lemma update_parent_at:
  assumes "update_parent_status stamp d row = (d', row')" "tables_quiet d0 d"
  shows "tables_quiet d0 d'"
  using assms tables_quiet_trans [OF assms(2) quiet_update_parent [of d stamp row]] by simp

subsection \<open>Settling, and sending to Radarr\<close>

text \<open>\<open>keeps d0 e (d, e')\<close>: quiet since \<open>d0\<close>, and the entity still of the same request.\<close>

definition keeps :: "db \<Rightarrow> entity \<Rightarrow> db \<Rightarrow> entity \<Rightarrow> bool" where
  "keeps d0 e d e' \<longleftrightarrow> tables_quiet d0 d \<and> r_id (en_row e') = r_id (en_row e)"

lemma settled_update_keeps:
  assumes "settled_update env d e = (d', e', fx)" "tables_quiet d0 d"
  shows "keeps d0 e d' e'"
proof -
  obtain d1 row where u: "update_parent_status (e_stamp env) d (en_row e) = (d1, row)" by (metis surj_pair)
  then have "d' = d1" "e' = e\<lparr>en_row := row\<rparr>" using assms(1) by (simp_all add: settled_update_def Let_def)
  then show ?thesis using update_parent_at [OF u assms(2)] update_parent_row [OF u] by (simp add: keeps_def)
qed

lemma save_settled_keeps:
  assumes s: "save_settled env d e = (d', e', fx)" and q: "tables_quiet d0 d"
    and o: "is_open (en_row e) \<Longrightarrow> open_at d0 (r_id (en_row e))"
  shows "keeps d0 e d' e'"
proof -
  obtain d1 row c where w: "save_request (e_stamp env) d (en_row e) True = (d1, row, c)" by (metis prod_cases3)
  note k = save_request_at [OF w q o]
  show ?thesis
  proof (cases c)
    case True
    then have "settled_update env d1 (e\<lparr>en_row := row\<rparr>) = (d', e', fx)" using s w by (simp add: save_settled_def)
    then show ?thesis using settled_update_keeps k by (fastforce simp: keeps_def)
  next
    case False
    then show ?thesis using s w k by (auto simp: save_settled_def keeps_def)
  qed
qed

lemma radarr_inner_keeps:
  assumes "send_to_radarr_inner out env d e = (d', e', fx, err)" "tables_quiet d0 d"
  shows "keeps d0 e d' e'"
proof (cases "d' = d \<and> e' = e")
  case True
  then show ?thesis using assms(2) by (simp add: keeps_def)
next
  case False
  obtain d1 e1 fx1 where s: "save_settled env d (with_request_status COMPLETED e) = (d1, e1, fx1)" by (metis prod_cases3)
  have "d' = d1 \<and> e' = e1"
    using False assms(1)
    by (auto simp: send_to_radarr_inner_def Let_def s split: if_splits option.splits sum.splits)
  moreover have "keeps d0 (with_request_status COMPLETED e) d1 e1"
    by (rule save_settled_keeps [OF s assms(2)]) (simp add: is_open_def with_request_status_def)
  ultimately show ?thesis by (simp add: keeps_def with_request_status_def)
qed

lemma send_to_radarr_keeps:
  assumes s: "send_to_radarr out env d e = (d', e', fx)" and q: "tables_quiet d0 d"
    and o: "r_status (en_row e) = APPROVED \<Longrightarrow> open_at d0 (r_id (en_row e))"
  shows "keeps d0 e d' e'"
proof (cases "r_status (en_row e) \<noteq> APPROVED \<or> r_request_type (en_row e) \<noteq> ''movie''")
  case True
  then show ?thesis using s q by (auto simp: send_to_radarr_def keeps_def)
next
  case False
  obtain d1 e1 fx1 err where i: "send_to_radarr_inner out env d e = (d1, e1, fx1, err)" by (metis prod_cases4)
  note k = radarr_inner_keeps [OF i q]
  obtain d2 e2 fx2 where f: "save_settled env d1 (with_request_status FAILED e1) = (d2, e2, fx2)" by (metis prod_cases3)
  have "keeps d0 (with_request_status FAILED e1) d2 e2"
    by (rule save_settled_keeps [OF f]) (use k o False in \<open>simp_all add: keeps_def with_request_status_def\<close>)
  then have k2: "keeps d0 e d2 e2" using k by (simp add: keeps_def with_request_status_def)
  have "d' = d1 \<and> e' = e1 \<or> d' = d2 \<and> e' = e2"
    using s False by (auto simp: send_to_radarr_def i f split: option.splits)
  then show ?thesis using k k2 by blast
qed

subsection \<open>Sending to Sonarr\<close>

text \<open>
  What is left of the tables: quiet changes, or a request and its media taken out (a series without a
  TVDB id).
\<close>

definition ended :: "db \<Rightarrow> db \<Rightarrow> bool" where
  "ended d0 d \<longleftrightarrow> tables_quiet d0 d \<or>
     (\<exists>d1 i m. tables_quiet d0 d1 \<and> d = delete_request i (delete_media m d1))"

lemma ended_good: "ended d0 d \<Longrightarrow> good st d0 \<Longrightarrow> good st d"
  by (auto simp: ended_def intro: quiet_good delete_request_good delete_media_good)

lemma keeps_ended: "keeps d0 e d e' \<Longrightarrow> ended d0 d"
  by (simp add: keeps_def ended_def)

lemma quiet_remember: "tables_quiet d0 d \<Longrightarrow> tables_quiet d0 (remember_tvdb_id m t d)"
  unfolding remember_tvdb_id_def by (rule tables_quiet_trans, assumption) (intro quiet_if tables_quiet_refl quiet_media, simp)

lemma add_to_sonarr_same: "add_to_sonarr out env d e series i t = (d', e', fx, err) \<Longrightarrow> d' = d \<and> e' = e"
  by (auto simp: add_to_sonarr_def Let_def split: option.splits sum.splits prod.splits)

lemma sonarr_inner_cases:
  assumes "send_to_sonarr_inner out env d e = (d', e', fx, err)"
  obtains (same) "d' = d" "e' = e"
  | (tvdb) m t where "d' = remember_tvdb_id m t d" "e' = e"
  | (complete) fx' where "save_settled env d (complete_children e) = (d', e', fx')"
  | (deleted) m where "r_media_id (en_row e) = Some m" "e' = e"
      "d' = delete_request (r_id (en_row e)) (delete_media m d)"
proof -
  have "d' = d \<and> e' = e \<or> (\<exists>m t. d' = remember_tvdb_id m t d \<and> e' = e) \<or>
    (\<exists>fx'. save_settled env d (complete_children e) = (d', e', fx')) \<or>
    (\<exists>m. r_media_id (en_row e) = Some m \<and> e' = e \<and> d' = delete_request (r_id (en_row e)) (delete_media m d))"
    using assms unfolding send_to_sonarr_inner_def Let_def
    by (simp split: if_split_asm option.split_asm sum.split_asm prod.split_asm) (blast dest: add_to_sonarr_same)+
  then show ?thesis using that by blast
qed

lemma sonarr_inner_keeps:
  assumes s: "send_to_sonarr_inner out env d e = (d', e', fx, err)" and q: "tables_quiet d0 d"
  shows "keeps d0 e d' e' \<or> (\<exists>m. r_media_id (en_row e) = Some m \<and> e' = e \<and>
    d' = delete_request (r_id (en_row e)) (delete_media m d))"
  using s
proof (cases rule: sonarr_inner_cases)
  case same
  then show ?thesis using q by (simp add: keeps_def)
next
  case (tvdb m t)
  then show ?thesis using quiet_remember [OF q] by (simp add: keeps_def)
next
  case (complete fx')
  have "keeps d0 (complete_children e) d' e'"
    by (rule save_settled_keeps [OF complete q]) (simp add: is_open_def complete_children_def with_child_status_def)
  then show ?thesis by (simp add: keeps_def complete_children_def with_child_status_def)
next
  case (deleted m)
  then show ?thesis by blast
qed

lemma deleted_media_gone: "media_by_id (delete_request i (delete_media m d)) m = None"
  by (simp add: media_by_id_def delete_request_def delete_media_def find_None_iff)

lemma send_to_sonarr_ended:
  assumes s: "send_to_sonarr out env d e = (d', e', fx)" and q: "tables_quiet d0 d"
    and o: "r_status (en_row e) = APPROVED \<Longrightarrow> open_at d0 (r_id (en_row e))"
  shows "ended d0 d'"
proof (cases "r_status (en_row e) \<noteq> APPROVED \<or> r_request_type (en_row e) \<noteq> ''tv''")
  case True
  then show ?thesis using s q by (auto simp: send_to_sonarr_def ended_def)
next
  case False
  obtain d1 e1 fx1 err where i: "send_to_sonarr_inner out env d e = (d1, e1, fx1, err)" by (metis prod_cases4)
  have d': "d' = d1 \<or> d' = mark_failed_quietly (e_stamp env) (r_id (en_row e1)) d1 \<and>
      Option.bind (r_media_id (en_row e1)) (media_by_id d1) \<noteq> None"
    using s False by (auto simp: send_to_sonarr_def i split: option.splits)
  from sonarr_inner_keeps [OF i q] show ?thesis
  proof (elim disjE exE conjE)
    assume k: "keeps d0 e d1 e1"
    then have "tables_quiet d0 (mark_failed_quietly (e_stamp env) (r_id (en_row e1)) d1)"
      unfolding mark_failed_quietly_def
      by (intro quiet_status_at [of d0 d1 FAILED]) (use o False in \<open>simp_all add: keeps_def\<close>)
    then show ?thesis using d' k by (auto simp: ended_def keeps_def)
  next
    fix m
    assume m: "r_media_id (en_row e) = Some m" "e1 = e" and d1: "d1 = delete_request (r_id (en_row e)) (delete_media m d)"
    have "Option.bind (r_media_id (en_row e1)) (media_by_id d1) = None" using m by (simp add: d1 deleted_media_gone)
    then show ?thesis using d' d1 q by (auto simp: ended_def)
  qed
qed

subsection \<open>The hooks\<close>

lemma quiet_hook_good:
  assumes "ended d0 d" "good st d0" "update_parent_status stamp d row = (d', row')"
  shows "good st d'"
  using quiet_good [OF _ ended_good [OF assms(1,2)]] update_parent_at [OF assms(3) tables_quiet_refl] by blast

lemma hooks_good:
  assumes q: "tables_quiet d0 d" and g: "good st d0"
    and o: "r_status (en_row e) = APPROVED \<Longrightarrow> open_at d0 (r_id (en_row e))"
    and r: "send_to_radarr out env d e = (d1, e1, fx1)" and s: "send_to_sonarr out env d1 e1 = (d2, e2, fx2)"
    and u: "update_parent_status stamp d2 (en_row e2) = (d3, row)"
  shows "good st d3"
proof -
  have k: "keeps d0 e d1 e1" by (rule send_to_radarr_keeps [OF r q o])
  have "ended d0 d2"
  proof (cases "r_status (en_row e) = APPROVED")
    case True
    then show ?thesis using k o by (intro send_to_sonarr_ended [OF s]) (simp_all add: keeps_def)
  next
    case False
    then have "d1 = d" "e1 = e" using r by (simp_all add: send_to_radarr_def)
    then have "d2 = d" using s False by (simp add: send_to_sonarr_def)
    then show ?thesis using q by (simp add: ended_def)
  qed
  then show ?thesis by (rule quiet_hook_good [OF _ g u])
qed

lemma after_update_good:
  assumes a: "after_update out env d e = (d', e', fx)" and q: "tables_quiet d0 d" and g: "good st d0"
    and o: "r_status (en_row e) = APPROVED \<Longrightarrow> open_at d0 (r_id (en_row e))"
  shows "good st d'"
proof -
  obtain d1 e1 f1 where r: "send_to_radarr out env d e = (d1, e1, f1)" by (metis prod_cases3)
  obtain d2 e2 f2 where s: "send_to_sonarr out env d1 e1 = (d2, e2, f2)" by (metis prod_cases3)
  obtain d3 row where u: "update_parent_status (e_stamp env) d2 (en_row e2) = (d3, row)" by (metis surj_pair)
  have "d' = d3" using a by (simp add: after_update_def Let_def r s u)
  then show ?thesis using hooks_good [OF q g o r s u] by simp
qed

lemma after_insert_good:
  assumes a: "lc_after_insert out env d e = (d', e', fx)" and g: "good st d"
    and o: "r_status (en_row e) = APPROVED \<Longrightarrow> open_at d (r_id (en_row e))"
  shows "good st d'"
proof -
  obtain d1 e1 f1 where r: "send_to_radarr out env d e = (d1, e1, f1)" by (metis prod_cases3)
  obtain d2 e2 f2 where s: "send_to_sonarr out env d1 e1 = (d2, e2, f2)" by (metis prod_cases3)
  obtain d3 row where u: "update_parent_status (e_stamp env) d2 (en_row e2) = (d3, row)" by (metis surj_pair)
  have "d' = d3" using a by (simp add: lc_after_insert_def Let_def r s u)
  then show ?thesis using hooks_good [OF tables_quiet_refl g o r s u] by simp
qed

lemma save_entity_good:
  assumes s: "save_entity out env d e = (d', e', fx)" and g: "good st d"
    and o: "is_open (en_row e) \<Longrightarrow> open_at d (r_id (en_row e))"
  shows "good st d'"
proof -
  obtain d1 row c where w: "save_request (e_stamp env) d (en_row e) True = (d1, row, c)" by (metis prod_cases3)
  note k = save_request_at [OF w tables_quiet_refl o]
  show ?thesis
  proof (cases c)
    case True
    then have "after_update out env d1 (e\<lparr>en_row := row\<rparr>) = (d', e', fx)" using s w by (simp add: save_entity_def)
    then show ?thesis
      by (rule after_update_good [OF _ _ g]) (use k o in \<open>simp_all add: is_open_def APPROVED_def COMPLETED_def DECLINED_def\<close>)
  next
    case False
    then have "d' = d1" using s w by (simp add: save_entity_def)
    then show ?thesis using k g quiet_good by blast
  qed
qed

subsection \<open>The routes\<close>

lemma loaded_row_fields [simp]:
  "r_id (loaded_row r) = r_id r" "r_status (loaded_row r) = r_status r" "r_media_id (loaded_row r) = r_media_id r"
  "r_is4k (loaded_row r) = r_is4k r" "r_seasons (loaded_row r) = r_seasons r"
  by (simp_all add: loaded_row_def)

lemma load_entity_row:
  assumes "load_entity d i = Some e"
  obtains r where "request_by_id d i = Some r" "en_row e = loaded_row r" "en_media e = Option.bind (r_media_id r) (media_by_id d)"
  using assms by (auto simp: load_entity_def)

lemma loaded_open:
  assumes "load_entity d i = Some e" "good st d" "is_open (en_row e)"
  shows "open_at d (r_id (en_row e))"
proof -
  obtain r where r: "request_by_id d i = Some r" "en_row e = loaded_row r" by (rule load_entity_row [OF assms(1)])
  have "distinct (map r_id (request_table d))" using assms(2) by (simp add: good_def ids_ok_def fresh_def)
  moreover have "r \<in> set (request_table d)" using r(1) by (auto simp: request_by_id_def find_Some_iff)
  moreover have "is_open r" using assms(3) by (simp add: r(2) is_open_def)
  ultimately show ?thesis
    by (simp add: open_at_def list_all_iff r(2)) (metis distinct_map inj_onD)
qed

lemma approved_open: "r_status row = APPROVED \<Longrightarrow> is_open row"
  by (simp add: is_open_def APPROVED_def COMPLETED_def DECLINED_def)

lemma status_checks_loaded:
  assumes "status_checks pr d viewer i action = Inr e"
  obtains e0 b a c user where "load_entity d i = Some e0" "status_action action = Some (b, a, c)"
    "r_status (en_row e0) = b" "authenticated viewer MANAGE_REQUESTS = Inr user"
    "en_row e = (en_row e0)\<lparr>r_status := a, r_modified_by_id := Some (cu_id user)\<rparr>" "en_media e = en_media e0"
  using assms unfolding status_checks_def
  by (elim and_then_InrE) (auto split: option.splits prod.splits if_splits elim!: and_then_InrE intro: that)

lemma status_action_before: "status_action action = Some (b, a, c) \<Longrightarrow> (b = PENDING \<or> b = FAILED) \<and> (a = APPROVED \<or> a = DECLINED)"
  by (auto simp: status_action_def split: if_splits)

lemma change_status_good:
  assumes c: "change_status pr out env d viewer i action = (d', answer, fx)" and g: "good st d"
  shows "good st d'"
proof (cases "status_checks pr d viewer i action")
  case (Inl a)
  then show ?thesis using c g by (simp add: change_status_def refused_as_def)
next
  case (Inr e)
  obtain d1 e1 fx1 where s: "save_entity out env d e = (d1, e1, fx1)" by (metis prod_cases3)
  obtain e0 b a w user where l: "load_entity d i = Some e0" "status_action action = Some (b, a, w)"
    "r_status (en_row e0) = b" "authenticated viewer MANAGE_REQUESTS = Inr user"
    "en_row e = (en_row e0)\<lparr>r_status := a, r_modified_by_id := Some (cu_id user)\<rparr>" "en_media e = en_media e0"
    by (rule status_checks_loaded [OF Inr]) (rule that)
  have "is_open (en_row e0)"
    using status_action_before [OF l(2)] l(3)
    by (auto simp: is_open_def PENDING_def FAILED_def COMPLETED_def DECLINED_def)
  then have "open_at d (r_id (en_row e))" using loaded_open [OF l(1) g] l(5) by simp
  then have "good st d1" using save_entity_good [OF s g] by simp
  moreover have "d' = d1" using c by (simp add: change_status_def Inr s Let_def split: sum.splits)
  ultimately show ?thesis by simp
qed

lemma finish_created_good:
  assumes f: "finish_created pr out env d body p i m head who by_whom = (d', answer, fx)" and g: "good st d"
  shows "good st d'"
proof (cases "d' = d")
  case False
  then obtain e media where l: "load_entity d i = Some e"
    using f by (auto simp: finish_created_def failing_def Let_def split: option.splits)
  then obtain e1 d1 e2 fx1 where h: "lc_after_insert out env d e1 = (d1, e2, fx1)" "d' = d1"
      and r: "r_id (en_row e1) = r_id (en_row e)" "r_status (en_row e1) = r_status (en_row e)"
    using f False
    by (auto simp: finish_created_def failing_def Let_def split: option.splits prod.splits)
  have "r_status (en_row e1) = APPROVED \<Longrightarrow> open_at d (r_id (en_row e1))"
    using loaded_open [OF l g] approved_open r by simp
  then show ?thesis using after_insert_good [OF h(1) g] h(2) by blast
qed (use g in simp)

lemma finish_replaced_good:
  assumes f: "finish_replaced pr out env d user p plan old head who by_whom = (d', answer, fx)" and g: "good st d"
  shows "good st d'"
proof (cases "d' = d")
  case False
  then obtain e where l: "load_entity d (r_id old) = Some e"
    using f by (auto simp: finish_replaced_def failing_def Let_def split: option.splits)
  then obtain e1 d1 e2 fx1 where h: "after_update out env d e1 = (d1, e2, fx1)" "d' = d1"
      and r: "r_id (en_row e1) = r_id (en_row e)" "r_status (en_row e1) = r_status (en_row e)"
    using f False
    by (auto simp: finish_replaced_def failing_def Let_def split: option.splits prod.splits if_splits)
  have "r_status (en_row e1) = APPROVED \<Longrightarrow> open_at d (r_id (en_row e1))"
    using loaded_open [OF l g] approved_open r by simp
  then show ?thesis using after_update_good [OF h(1) tables_quiet_refl g] h(2) by blast
qed (use g in simp)

lemma admit_good:
  assumes "admit env d user body = Inr (d', a)" "good st d" "st \<longrightarrow> rb_is4k_given body"
  shows "good st d'"
  using assms admit_ids_links [OF assms(1)] admit_seasons_apart [OF assms(1)] by (auto simp: good_def)

lemma create_request_good:
  assumes c: "create_request pr out env d user body = (d', answer, fx)" and g: "good st d"
    and st: "st \<longrightarrow> rb_is4k_given body"
  shows "good st d'"
proof (cases "d' = d")
  case False
  then obtain p head who by_whom d1 a where x: "and_then (prepare env d user body) (\<lambda>p.
        and_then (forwarding (existing_media_json pr (e_settings env) d (mp_existing (p_plan p)) (p_media_requests p)))
          (\<lambda>head.
        and_then (forwarding (embedded_json (pr_parse pr) (p_request_user p))) (\<lambda>requested_by.
        and_then (if p_approved p
            then and_then (forwarding (embedded_json (pr_parse pr) (p_actor p))) (\<lambda>j. Inr (Some j))
            else Inr None) (\<lambda>modified_by.
        and_then (admit env d user body) (\<lambda>(d', admitted).
          Inr (p, head, requested_by, modified_by, d', admitted)))))) = Inr (p, head, who, by_whom, d1, a)"
    using c unfolding create_request_def refused_as_def by (auto split: sum.split_asm)
  have adm: "admit env d user body = Inr (d1, a)"
    using x by (elim and_then_InrE) (auto split: prod.splits)
  have g1: "good st d1" by (rule admit_good [OF adm g st])
  show ?thesis
    using c g1 unfolding create_request_def x
    by (auto simp: failing_def split: admitted.splits option.splits
        intro: finish_created_good [OF _ g1] finish_replaced_good [OF _ g1])
qed (use g in simp)

lemma quiet_apply_write: "tables_quiet d (apply_write stamp m w d)"
  by (cases w) (simp_all add: apply_write_def quiet_media)

lemma remove_request_cases:
  assumes "remove_request stamp d viewer i = Inr d'"
  obtains e user where "authenticated viewer 0 = Inr user" "load_entity d i = Some e"
    "has_permission (cu_permissions user) MANAGE_REQUESTS \<or>
       r_requested_by_id (en_row e) = Some (cu_id user) \<and> r_status (en_row e) = PENDING"
    "remove_with_hook stamp d (en_row e) = Inr d'"
proof -
  obtain user e where u: "authenticated viewer 0 = Inr user" and e: "load_entity d i = Some e"
    using assms unfolding remove_request_def
    by (elim and_then_InrE) (auto split: option.splits)
  have p: "has_permission (cu_permissions user) MANAGE_REQUESTS \<or>
       r_requested_by_id (en_row e) = Some (cu_id user) \<and> r_status (en_row e) = PENDING"
    and w: "remove_with_hook stamp d (en_row e) = Inr d'"
    using assms unfolding remove_request_def u e
    by (auto simp: res_simps split: option.splits if_splits sum.splits)
  show ?thesis by (rule that [OF u e p w])
qed

lemma remove_with_hook_good:
  assumes "remove_with_hook stamp d row = Inr d'" "good st d"
  shows "good st d'"
proof -
  obtain ws where "d' = fold (apply_write stamp (unwrap_or 0 (r_media_id row))) ws (delete_request (r_id row) d)"
    using assms(1) by (auto simp: remove_with_hook_def elim!: and_then_InrE)
  then show ?thesis using quiet_good [OF quiet_fold [OF quiet_apply_write] delete_request_good [OF assms(2)]] by simp
qed

end
