(* ===== verification/Request_Edits.thy ===== *)
theory Request_Edits
  imports Request_Reach
begin

section \<open>Edits keep the tables\<close>

text \<open>
  What an edit of a request writes (\<open>save_rows\<close> of \<open>src/backend-rs/src/routes/requestedit.rs\<close> and
  \<open>save\<close> of \<open>routes/requestepisodes.rs\<close>): one row changes in place, keeps some of its seasons, gains new
  ones, and lets the others go.
\<close>

subsection \<open>One row in its place\<close>

lemma apart_sym: "apart r q \<longleftrightarrow> apart q r"
  by (auto simp: apart_def)

lemma mset_filter_split: "mset (map f (filter P xs)) + mset (map f (filter (\<lambda>x. \<not> P x) xs)) = mset (map f xs)"
  by (induction xs) simp_all

text \<open>
  \<open>row_edit d d' xs ys old q P added\<close>: \<open>old\<close>, between \<open>xs\<close> and \<open>ys\<close>, becomes \<open>q\<close>; the seasons outside \<open>P\<close>
  are let go and \<open>added\<close> ones come, with fresh ids; the episodes stay or are new.
\<close>

definition let_go :: "string option \<Rightarrow> season_request_row \<Rightarrow> season_request_row" where
  "let_go stamp s = s\<lparr>sr_request_id := None, sr_updated_at := stamp\<rparr>"

definition row_edit :: "string option \<Rightarrow> db \<Rightarrow> db \<Rightarrow> request_row list \<Rightarrow> request_row list \<Rightarrow> request_row \<Rightarrow>
    request_row \<Rightarrow> (season_request_row \<Rightarrow> bool) \<Rightarrow> season_request_row list \<Rightarrow> bool" where
  "row_edit stamp d d' xs ys old q P added \<longleftrightarrow>
     request_table d = xs @ old # ys \<and> request_table d' = xs @ q # ys \<and>
     (r_id q = r_id old \<and> r_media_id q = r_media_id old \<and> r_is4k q = r_is4k old) \<and>
     r_seasons q = filter P (r_seasons old) @ added \<and>
     loose_seasons d' = loose_seasons d @ map (let_go stamp) (filter (\<lambda>s. \<not> P s) (r_seasons old)) \<and>
     map sr_id added = map (\<lambda>k. next_season_request d + int k) [0..<length added] \<and>
     list_all (\<lambda>s. sr_request_id s = Some (r_id old)) added \<and>
     (next_season_request d' = next_season_request d + int (length added) \<and>
       next_media d' = next_media d \<and> next_request d' = next_request d) \<and>
     map m_id (media_table d') = map m_id (media_table d) \<and>
     (list_all (\<lambda>e. er_request_id e = Some (r_id old)) (r_episodes old) \<longrightarrow>
       list_all (\<lambda>e. er_request_id e = Some (r_id old)) (r_episodes q)) \<and>
     (distinct (map er_tvdb_id (r_episodes old)) \<longrightarrow> distinct (map er_tvdb_id (r_episodes q))) \<and>
     (\<forall>zs. fresh er_id (next_episode_request d) (zs @ r_episodes old) \<longrightarrow>
       fresh er_id (next_episode_request d') (zs @ r_episodes q))"

lemma row_editD:
  assumes "row_edit stamp d d' xs ys old q P added"
  shows "request_table d = xs @ old # ys" "request_table d' = xs @ q # ys"
    "r_id q = r_id old \<and> r_media_id q = r_media_id old \<and> r_is4k q = r_is4k old"
    "r_seasons q = filter P (r_seasons old) @ added"
    "loose_seasons d' = loose_seasons d @ map (let_go stamp) (filter (\<lambda>s. \<not> P s) (r_seasons old))"
    "map sr_id added = map (\<lambda>k. next_season_request d + int k) [0..<length added]"
    "list_all (\<lambda>s. sr_request_id s = Some (r_id old)) added"
    "next_season_request d' = next_season_request d + int (length added) \<and>
       next_media d' = next_media d \<and> next_request d' = next_request d"
    "map m_id (media_table d') = map m_id (media_table d)"
    "list_all (\<lambda>e. er_request_id e = Some (r_id old)) (r_episodes old) \<longrightarrow>
       list_all (\<lambda>e. er_request_id e = Some (r_id old)) (r_episodes q)"
    "distinct (map er_tvdb_id (r_episodes old)) \<longrightarrow> distinct (map er_tvdb_id (r_episodes q))"
    "fresh er_id (next_episode_request d) (zs @ r_episodes old) \<longrightarrow>
       fresh er_id (next_episode_request d') (zs @ r_episodes q)"
  using assms unfolding row_edit_def by blast+

lemma let_go_fields [simp]: "sr_id (let_go stamp s) = sr_id s" "sr_request_id (let_go stamp s) = None"
  by (simp_all add: let_go_def)

lemma row_edit_season_ids:
  assumes e: "row_edit stamp d d' xs ys old q P added"
  shows "mset (map sr_id (all_seasons d')) = mset (map sr_id (all_seasons d @ added))"
proof -
  note before = row_editD(1) [OF e] and after = row_editD(2) [OF e] and seasons = row_editD(4) [OF e]
    and loose = row_editD(5) [OF e]
  have r: "map sr_id (map (let_go stamp) ss) = map sr_id ss" for ss by simp
  show ?thesis
    using mset_filter_split [of sr_id P "r_seasons old"]
    by (simp add: all_seasons_def before after seasons loose r add.commute del: map_map)
qed

lemma row_edit_ids:
  assumes e: "row_edit stamp d d' xs ys old q P added" and "ids_ok d"
  shows "ids_ok d'"
proof -
  note before = row_editD(1) [OF e] and after = row_editD(2) [OF e] and row = row_editD(3) [OF e]
    and added_ids = row_editD(6) [OF e] and nexts = row_editD(8) [OF e] and media = row_editD(9) [OF e]
    and episodes_fresh = row_editD(12) [OF e]
  have o: "fresh m_id (next_media d) (media_table d)" "fresh r_id (next_request d) (request_table d)"
    "fresh sr_id (next_season_request d) (all_seasons d)" "fresh er_id (next_episode_request d) (all_episodes d)"
    using assms(2) by (simp_all only: ids_ok_def)
  have s: "fresh sr_id (next_season_request d') (all_seasons d')"
    by (rule fresh_mset [OF fresh_append [OF o(3) added_ids, folded nexts [THEN conjunct1]] row_edit_season_ids [OF e]])
  have r: "fresh r_id (next_request d') (request_table d')"
    using fresh_map_cong [OF o(2), of "request_table d'"] by (simp add: before after row nexts)
  have m: "fresh m_id (next_media d') (media_table d')"
    using fresh_map_cong [OF o(1) media] by (simp add: nexts)
  let ?zs = "concat (map r_episodes xs) @ concat (map r_episodes ys)"
  have "fresh er_id (next_episode_request d) (?zs @ r_episodes old)"
    by (rule fresh_mset [OF o(4)]) (simp add: all_episodes_def before)
  then have "fresh er_id (next_episode_request d') (?zs @ r_episodes q)" using episodes_fresh by blast
  then have "fresh er_id (next_episode_request d') (all_episodes d')"
    by (rule fresh_mset) (simp add: all_episodes_def after)
  then show ?thesis using s r m by (simp add: ids_ok_def)
qed

lemma row_edit_links:
  assumes e: "row_edit stamp d d' xs ys old q P added" and "links_ok d"
  shows "links_ok d'"
proof -
  note before = row_editD(1) [OF e] and after = row_editD(2) [OF e] and row = row_editD(3) [OF e]
    and seasons = row_editD(4) [OF e] and loose = row_editD(5) [OF e] and added_to = row_editD(7) [OF e]
    and media = row_editD(9) [OF e] and episodes_to = row_editD(10) [OF e]
    and episodes_once = row_editD(11) [OF e]
  have k: "linked d' r" if "r \<in> set (request_table d)" for r
    using assms that linked_mono [of d r d'] arg_cong [OF media, of set] by (auto simp: links_ok_def list_all_iff)
  have o: "linked d' old" by (rule k) (simp add: before)
  then have "list_all (\<lambda>s. sr_request_id s = Some (r_id old)) (r_seasons q)"
    using added_to by (auto simp: linked_def seasons list_all_iff)
  then have "linked d' q"
    using o episodes_to episodes_once by (simp add: linked_def row)
  then have "list_all (linked d') (request_table d')" using k by (auto simp: list_all_iff before after)
  moreover have "list_all (\<lambda>s. sr_request_id s = None) (loose_seasons d')"
    using assms by (auto simp: links_ok_def loose list_all_iff)
  ultimately show ?thesis by (simp add: links_ok_def)
qed

lemma row_edit_apart_kept:
  assumes e: "row_edit stamp d d' xs ys old q P added" and a: "apart r old" and act: "is_active (r_is4k old) old"
    and new: "r_media_id r = r_media_id old \<Longrightarrow> r_is4k r = r_is4k old \<Longrightarrow> is_active (r_is4k old) r \<Longrightarrow>
      set (map sr_season_number added) \<inter> set (map sr_season_number (r_seasons r)) = {}"
  shows "apart r q"
proof (cases "r_media_id r = r_media_id old \<and> r_media_id r \<noteq> None \<and> r_is4k r = r_is4k old \<and> is_active (r_is4k old) r")
  case True
  note seasons = row_editD(4) [OF e]
  have "set (map sr_season_number (r_seasons r)) \<inter> set (map sr_season_number (r_seasons old)) = {}"
    using True a act unfolding apart_def by auto
  moreover have "set (map sr_season_number (r_seasons q)) \<subseteq>
      set (map sr_season_number (r_seasons old)) \<union> set (map sr_season_number added)"
    by (auto simp: seasons)
  ultimately show ?thesis using new True unfolding apart_def by blast
next
  case False
  have row: "r_media_id q = r_media_id old" "r_is4k q = r_is4k old" using row_editD(3) [OF e] by simp_all
  show ?thesis using False unfolding apart_def row by (cases "r_is4k r"; cases "r_is4k old") auto
qed

lemma row_edit_seasons_stay_apart:
  assumes e: "row_edit stamp d d' xs ys old q P added" and ok: "seasons_apart d" and act: "is_active (r_is4k old) old"
    and new: "\<And>r. r \<in> set xs \<union> set ys \<Longrightarrow> r_media_id r = r_media_id old \<Longrightarrow> r_is4k r = r_is4k old \<Longrightarrow>
      is_active (r_is4k old) r \<Longrightarrow> set (map sr_season_number added) \<inter> set (map sr_season_number (r_seasons r)) = {}"
  shows "seasons_apart d'"
proof -
  note before = row_editD(1) [OF e] and after = row_editD(2) [OF e]
  have "apart r q" if "r \<in> set xs" for r
    by (rule row_edit_apart_kept [OF e _ act]) (use ok that new in \<open>auto simp: seasons_apart_def before sorted_wrt_append\<close>)
  moreover have "apart q r" if "r \<in> set ys" for r
    unfolding apart_sym [of q]
    by (rule row_edit_apart_kept [OF e _ act])
      (use ok that new in \<open>auto simp: seasons_apart_def before sorted_wrt_append apart_sym [of r]\<close>)
  ultimately show ?thesis using ok by (auto simp: seasons_apart_def before after sorted_wrt_append)
qed

subsection \<open>The two saves\<close>

lemma set_column_other:
  "fst c \<noteq> ''status'' \<Longrightarrow> r_status (set_column c r) = r_status r"
  "fst c \<noteq> ''requestedById'' \<Longrightarrow> r_requested_by_id (set_column c r) = r_requested_by_id r"
  by (cases c; simp add: set_column_def)+

lemma fold_set_column_other:
  "''status'' \<notin> fst ` set cs \<Longrightarrow> r_status (fold set_column cs r) = r_status r"
  "''requestedById'' \<notin> fst ` set cs \<Longrightarrow> r_requested_by_id (fold set_column cs r) = r_requested_by_id r"
  by (induction cs arbitrary: r) (auto simp: set_column_other)

lemma update_request_other:
  "''status'' \<notin> fst ` set cs \<Longrightarrow> r_status (update_request stamp cs r) = r_status r"
  "''requestedById'' \<notin> fst ` set cs \<Longrightarrow> r_requested_by_id (update_request stamp cs r) = r_requested_by_id r"
  by (simp_all add: update_request_def fold_set_column_other)

lemma changed_columns_keys:
  "''status'' \<notin> fst ` set (changed_columns row body tv uid)"
  "''requestedById'' \<in> fst ` set (changed_columns row body tv uid) \<Longrightarrow> r_requested_by_id row \<noteq> Some uid"
  by (auto simp: changed_columns_def changed_def split: option.splits if_splits)

lemma episode_columns_keys:
  "''status'' \<notin> fst ` set (episode_columns row r key)" "''requestedById'' \<notin> fst ` set (episode_columns row r key)"
  by (auto simp: episode_columns_def Let_def changed_def split: option.splits if_splits)

lemma edit_sets_keys:
  "''status'' \<notin> fst ` set (edit_sets body e tv requester seasons)"
  "''requestedById'' \<in> fst ` set (edit_sets body e tv requester seasons) \<Longrightarrow> r_requested_by_id (en_row e) \<noteq> Some (u_id requester)"
proof -
  let ?units = "case seasons of None \<Rightarrow> [] | Some edit \<Rightarrow>
    if se_units edit \<noteq> r_tv_quota_units (en_row e) then [(''tvQuotaUnits'', BInt (se_units edit))] else []"
  have u: "''status'' \<notin> fst ` set ?units" "''requestedById'' \<notin> fst ` set ?units"
    by (auto split: option.splits)
  note keys = edit_sets_def set_append image_Un Un_iff
  show "''status'' \<notin> fst ` set (edit_sets body e tv requester seasons)"
    unfolding keys using u(1) changed_columns_keys(1) by blast
  show "''requestedById'' \<in> fst ` set (edit_sets body e tv requester seasons) \<Longrightarrow>
      r_requested_by_id (en_row e) \<noteq> Some (u_id requester)"
    unfolding keys using u(2) changed_columns_keys(2) by blast
qed

text \<open>\<open>sets_ok\<close>: a save leaves the status alone, and the requester unless they change.\<close>

definition sets_ok :: "(string \<times> bind) list \<Rightarrow> request_row \<Rightarrow> int \<Rightarrow> bool" where
  "sets_ok sets row uid \<longleftrightarrow> ''status'' \<notin> fst ` set sets \<and>
     (''requestedById'' \<in> fst ` set sets \<longrightarrow> r_requested_by_id row \<noteq> Some uid)"

lemma update_request_children [simp]:
  "r_seasons (update_request stamp cs r) = r_seasons r" "r_episodes (update_request stamp cs r) = r_episodes r"
  by (simp_all add: update_request_def fold_keeps [of r_seasons] fold_keeps [of r_episodes] set_column_keeps)

lemma modify_request_split:
  assumes "request_table d = xs @ old # ys" "distinct (map r_id (request_table d))"
  shows "request_table (modify_request (r_id old) f d) = xs @ f old # ys"
proof -
  have "r_id r \<noteq> r_id old" if "r \<in> set xs \<union> set ys" for r
    using that assms(2) by (auto simp: assms(1)) (metis image_eqI)+
  then have "map (\<lambda>r. if r_id r = r_id old then f r else r) xs = xs" "map (\<lambda>r. if r_id r = r_id old then f r else r) ys = ys"
    by (auto intro!: map_idI)
  then show ?thesis by (simp add: modify_request_def assms(1))
qed

lemma release_seasons_let_go:
  "release_seasons stamp ids ss = map (let_go stamp) (filter (\<lambda>s. \<not> sr_id s \<notin> set ids) ss)"
  by (simp add: release_seasons_def let_go_def)

lemma save_rows_edit:
  assumes w: "save_rows stamp d (loaded_row old) sets seasons = (d', ids)"
    and t: "request_table d = xs @ old # ys" and distinct: "distinct (map r_id (request_table d))"
  obtains q P added where "row_edit stamp d d' xs ys old q P added"
    "r_status q = r_status (update_request stamp sets old)"
    "r_requested_by_id q = r_requested_by_id (update_request stamp sets old)"
    "map sr_season_number added = (case seasons of None \<Rightarrow> [] | Some edit \<Rightarrow> se_add edit)"
proof -
  define add where "add = (case seasons of None \<Rightarrow> [] | Some edit \<Rightarrow> se_add edit)"
  define orphaned where "orphaned = (case seasons of None \<Rightarrow> [] | Some edit \<Rightarrow> se_orphaned edit)"
  define P where "P = (\<lambda>s :: season_request_row. sr_id s \<notin> set orphaned)"
  obtain added n where i: "insert_seasons stamp (r_id old) PENDING add (next_season_request d) = (added, n)"
    by (metis surj_pair)
  define q where "q = (update_request stamp sets old)\<lparr>r_seasons := filter P (r_seasons old) @ added\<rparr>"
  note rows = insert_seasons_rows [OF i]
  have len: "length added = length add" using rows by (metis length_map)
  have d': "d' = (modify_request (r_id old) (\<lambda>r. (update_request stamp sets r)\<lparr>r_seasons := filter P (r_seasons r) @ added\<rparr>) d)
      \<lparr>next_season_request := n,
       loose_seasons := loose_seasons d @ map (let_go stamp) (filter (\<lambda>s. \<not> P s) (r_seasons old))\<rparr>"
    using w by (simp add: save_rows_def flip: add_def orphaned_def) (simp add: i release_seasons_let_go P_def)
  have t': "request_table d' = xs @ q # ys"
    unfolding d' q_def using modify_request_split [OF t distinct] by simp
  have "row_edit stamp d d' xs ys old q P added"
    unfolding row_edit_def t'
    using rows len insert_seasons_linked [OF i] by (simp add: t q_def) (simp add: d' modify_request_def)
  then show thesis using that rows by (simp add: add_def q_def)
qed

lemma save_episodes_edit:
  assumes w: "save_episodes stamp d (loaded_row old) sets r = Inr d'"
    and t: "request_table d = xs @ old # ys" and distinct: "distinct (map r_id (request_table d))"
  obtains q P where "row_edit stamp d d' xs ys old q P []"
    "r_status q = r_status (update_request stamp sets old)"
    "r_requested_by_id q = r_requested_by_id (update_request stamp sets old)"
proof -
  define P where "P = (\<lambda>s :: season_request_row. sr_id s \<notin> set (map sr_id (r_seasons old)))"
  obtain rows n where i: "insert_episodes stamp (r_id old) PENDING (rs_episodes r) [] (next_episode_request d) = Inr (rows, n)"
    and d': "d' = (modify_request (r_id old) (\<lambda>q. (update_request stamp sets q)\<lparr>r_episodes := rows, r_seasons := filter P (r_seasons q)\<rparr>) d)
      \<lparr>next_episode_request := n,
       loose_seasons := loose_seasons d @ map (let_go stamp) (filter (\<lambda>s. \<not> P s) (r_seasons old))\<rparr>"
    using w unfolding save_episodes_def P_def
    by (elim and_then_InrE) (auto simp: release_seasons_let_go split: prod.splits)
  define q where "q = (update_request stamp sets old)\<lparr>r_episodes := rows, r_seasons := filter P (r_seasons old)\<rparr>"
  have t': "request_table d' = xs @ q # ys"
    unfolding d' q_def using modify_request_split [OF t distinct] by simp
  obtain new where e: "rows = [] @ new" "n = next_episode_request d + int (length new)"
    "map er_id new = map (\<lambda>k. next_episode_request d + int k) [0..<length new]"
    "list_all (\<lambda>e. er_request_id e = Some (r_id old)) new"
    "distinct (map er_tvdb_id rows)"
    by (rule inserted_episodes [OF i]) (rule that; simp)
  have "fresh er_id n (zs @ rows)" if "fresh er_id (next_episode_request d) (zs @ r_episodes old)" for zs
  proof -
    have "fresh er_id (next_episode_request d) zs" by (rule fresh_subset_mset [OF that]) simp
    then show ?thesis using fresh_append [of er_id _ zs new] e by simp
  qed
  then have "row_edit stamp d d' xs ys old q P []"
    unfolding row_edit_def t' using e by (simp add: t q_def) (simp add: d' modify_request_def)
  then show thesis by (rule that) (simp_all add: q_def)
qed

subsection \<open>The route\<close>

text \<open>
  An edit looks the title's requests up by TMDB id: they are those of its media row where no other media
  row has the same id and type (\<open>titles_ok\<close>).
\<close>

definition titles_ok :: "db \<Rightarrow> bool" where
  "titles_ok d \<longleftrightarrow> list_all (\<lambda>m. media_by_tmdb d (m_tmdb_id m) (m_media_type m) = Some m) (media_table d)"

lemma edit_episodes_saves:
  assumes "edit_episodes pr env d e body requester = Inr (d', j)"
  obtains r key where "save_episodes (e_stamp env) d (en_row e)
    (changed_columns (en_row e) body True (u_id requester) @ episode_columns (en_row e) r key) r = Inr d'"
proof -
  have "\<exists>r key. save_episodes (e_stamp env) d (en_row e)
    (changed_columns (en_row e) body True (u_id requester) @ episode_columns (en_row e) r key) r = Inr d'"
    using assms unfolding edit_episodes_def Let_def
    by (elim and_then_InrE) (auto split: prod.splits if_splits sum.splits option.splits elim!: and_then_InrE; blast)
  then show thesis using that by blast
qed

lemma edit_request_cases:
  assumes "edit_request pr env d viewer i raw = Inr (d', j)"
  obtains (common) e user body mt owner where
      "authenticated viewer 0 = Inr user" "parse_edit raw = Inr body" "load_entity d i = Some e"
      "edit_allowed user body e = Inr (mt, owner)" "d' = d"
  | (seasons) e user body mt owner requester body' sets seasons e' where
      "authenticated viewer 0 = Inr user" "parse_edit raw = Inr body" "load_entity d i = Some e"
      "edit_allowed user body e = Inr (mt, owner)"
      "edit_seasons env d body' e (mt = ''tv'') owner requester = Inr seasons"
      "edit_requester d user body' e owner = Inr requester" "sets_ok sets (en_row e) (u_id requester)"
      "save_edit (e_stamp env) d e sets seasons = (d', e')"
  | (episodes) e user body mt owner requester body' sets r where
      "authenticated viewer 0 = Inr user" "parse_edit raw = Inr body" "load_entity d i = Some e"
      "edit_allowed user body e = Inr (mt, owner)"
      "edit_requester d user body' e owner = Inr requester" "sets_ok sets (en_row e) (u_id requester)"
      "save_episodes (e_stamp env) d (en_row e) sets r = Inr d'"
proof -
  obtain user body e mt owner where u: "authenticated viewer 0 = Inr user" and b: "parse_edit raw = Inr body"
    and e: "load_entity d i = Some e" and a: "edit_allowed user body e = Inr (mt, owner)"
    using assms unfolding edit_request_def
    by (elim and_then_InrE) (auto split: option.splits elim!: and_then_InrE)
  define body' where "body' = (if mt = ''tv'' \<and> \<not> has_permission (cu_permissions user) (MANAGE_REQUESTS OR REQUEST_ADVANCED)
                   then keep_routing body else body)"
  obtain requester where r: "edit_requester d user body' e owner = Inr requester"
    using assms u b e a by (auto simp: edit_request_def res_simps Let_def body'_def)
  note x = assms [unfolded edit_request_def u b e a and_then_Inr option.case prod.case Let_def,
      folded body'_def, unfolded r and_then_Inr]
  show thesis
  proof (cases "mt = ''tv'' \<and> is_episodic body' e")
    case True
    then have "edit_episodes pr env d e body' requester = Inr (d', j)"
      using x by simp
    then obtain res key where "save_episodes (e_stamp env) d (en_row e)
        (changed_columns (en_row e) body' True (u_id requester) @ episode_columns (en_row e) res key) res = Inr d'"
      by (rule edit_episodes_saves)
    moreover have "sets_ok (changed_columns (en_row e) body' True (u_id requester) @ episode_columns (en_row e) res key)
        (en_row e) (u_id requester)"
      unfolding sets_ok_def set_append image_Un Un_iff using changed_columns_keys episode_columns_keys by blast
    ultimately show thesis by (intro episodes [OF u b e a r])
  next
    case False
    then obtain seasons where s: "edit_seasons env d body' e (mt = ''tv'') owner requester = Inr seasons"
      and w: "d' = d \<or> (\<exists>e'. save_edit (e_stamp env) d e
          (edit_sets body' e (mt = ''tv'') requester seasons) seasons = (d', e'))"
      using x by (auto simp: res_simps split: if_splits prod.splits)
    have "sets_ok (edit_sets body' e (mt = ''tv'') requester seasons) (en_row e) (u_id requester)"
      using edit_sets_keys unfolding sets_ok_def by blast
    then show thesis using w common [OF u b e a] seasons [OF u b e a s r] by blast
  qed
qed

lemma edit_allowed_pending:
  assumes "edit_allowed user body e = Inr (mt, owner)"
  obtains m where "en_media e = Some m" "m_media_type m = mt" "eb_media_type body = mt"
    "r_requested_by_id (en_row e) = Some owner" "r_status (en_row e) = PENDING"
    "owner = cu_id user \<and> (mt = ''tv'' \<or> has_permission (cu_permissions user) REQUEST_ADVANCED) \<or>
       has_permission (cu_permissions user) MANAGE_REQUESTS"
  using assms by (auto simp: edit_allowed_def Let_def split: option.splits if_splits)

lemma plan_season_edit_elsewhere:
  "plan_season_edit req elsewhere present covered = Some edit \<Longrightarrow> set (se_add edit) \<inter> set elsewhere = {}"
  by (auto simp: plan_season_edit_def Let_def split: if_splits)

lemma season_edit_apart:
  assumes s: "season_edit_of d e wanted = Inr edit" and m: "en_media e = Some m" "m_media_type m = ''tv''"
    and t: "media_by_tmdb d (m_tmdb_id m) (m_media_type m) = Some m"
    and r: "r \<in> set (request_table d)" "r_media_id r = Some (m_id m)" "r_id r \<noteq> r_id (en_row e)"
      "r_is4k r = r_is4k (en_row e)" "is_open r"
  shows "set (se_add edit) \<inter> set (map sr_season_number (r_seasons r)) = {}"
proof -
  obtain elsewhere present covered where p: "plan_season_edit wanted elsewhere present covered = Some edit"
    and e: "elsewhere = concat (map (\<lambda>r. map sr_season_number (r_seasons r))
                   (filter (\<lambda>r. r_is4k r = r_is4k (en_row e) \<and> r_id r \<noteq> r_id (en_row e) \<and>
                      r_status r \<noteq> DECLINED \<and> r_status r \<noteq> COMPLETED) (requests_of_media d (m_id m))))"
    using s t m unfolding season_edit_of_def Let_def by (auto split: option.splits)
  have "set (map sr_season_number (r_seasons r)) \<subseteq> set elsewhere"
    unfolding e using r by (auto simp: requests_of_media_def is_open_def)
  then show ?thesis using plan_season_edit_elsewhere [OF p] by blast
qed

lemma edit_seasons_edit:
  assumes "edit_seasons env d body e tv owner requester = Inr (Some edit)"
  shows "tv \<and> (\<exists>wanted. season_edit_of d e wanted = Inr edit)"
  using assms unfolding edit_seasons_def Let_def
  by (auto split: if_splits option.splits prod.splits elim!: and_then_InrE)

lemma row_edit_good:
  assumes e: "row_edit stamp d d' xs ys old q P added" and g: "good st d"
    and a: "st \<Longrightarrow> seasons_apart d \<Longrightarrow> seasons_apart d'"
  shows "good st d'"
  using row_edit_ids [OF e] row_edit_links [OF e] g a by (simp add: good_def)

lemma media_by_id_SomeD: "media_by_id d i = Some m \<Longrightarrow> m_id m = i \<and> m \<in> set (media_table d)"
  by (auto simp: media_by_id_def find_Some_iff)

lemma edit_request_good:
  assumes ed: "edit_request pr env d viewer i raw = Inr (d', j)" and g: "good st d"
    and st: "st \<longrightarrow> titles_ok d"
  shows "good st d'"
proof -
  have dist: "distinct (map r_id (request_table d))" using g by (simp add: good_def ids_ok_def fresh_def)
  have split: "\<exists>old xs ys. en_row e = loaded_row old \<and> en_media e = Option.bind (r_media_id old) (media_by_id d) \<and>
      request_table d = xs @ old # ys" if "load_entity d i = Some e" for e
    using load_entity_row [OF that] by (metis request_by_id_def find_Some_iff nth_mem split_list)
  have act: "is_active (r_is4k old) old" if "r_status (loaded_row old) = PENDING" for old
    using that by (simp add: is_active_def PENDING_def DECLINED_def COMPLETED_def)
  from ed show ?thesis
  proof (cases rule: edit_request_cases)
    case common
    then show ?thesis using g by simp
  next
    case (seasons e user body mt owner requester body' sets edit e')
    obtain old xs ys where o: "en_row e = loaded_row old" "en_media e = Option.bind (r_media_id old) (media_by_id d)"
      and t: "request_table d = xs @ old # ys" using split [OF seasons(3)] by blast
    obtain m where m: "en_media e = Some m" "m_media_type m = mt" "r_status (en_row e) = PENDING"
      by (rule edit_allowed_pending [OF seasons(4)])
    obtain ids where w: "save_rows (e_stamp env) d (loaded_row old) sets edit = (d', ids)"
      using seasons(8) by (auto simp: save_edit_def o split: prod.splits)
    obtain q P added where r: "row_edit (e_stamp env) d d' xs ys old q P added"
      and added: "map sr_season_number added = (case edit of None \<Rightarrow> [] | Some edit \<Rightarrow> se_add edit)"
      by (rule save_rows_edit [OF w t dist])
    have mid: "r_media_id old = Some (m_id m)" "m \<in> set (media_table d)"
      using o(2) m(1) media_by_id_SomeD by (auto split: bind_splits)
    have "seasons_apart d'" if "st" "seasons_apart d"
    proof (rule row_edit_seasons_stay_apart [OF r that(2)])
      show "is_active (r_is4k old) old" using act m(3) o(1) by simp
    next
      fix r
      assume r: "r \<in> set xs \<union> set ys" "r_media_id r = r_media_id old" "r_is4k r = r_is4k old" "is_active (r_is4k old) r"
      have ne: "r_id r \<noteq> r_id old" using r(1) dist by (auto simp: t) (metis image_eqI)+
      show "set (map sr_season_number added) \<inter> set (map sr_season_number (r_seasons r)) = {}"
      proof (cases edit)
        case (Some se)
        then obtain wanted where s: "season_edit_of d e wanted = Inr se" and tv: "mt = ''tv''"
          using edit_seasons_edit seasons(5) by blast
        have "media_by_tmdb d (m_tmdb_id m) (m_media_type m) = Some m"
          using st that(1) mid(2) by (simp add: titles_ok_def list_all_iff)
        then show ?thesis
          using season_edit_apart [OF s m(1), of r] r mid ne added Some tv m(2) o(1)
          by (auto simp: t is_active_open)
      qed (use added in simp)
    qed
    then show ?thesis by (rule row_edit_good [OF r g])
  next
    case (episodes e user body mt owner requester body' sets res)
    obtain old xs ys where o: "en_row e = loaded_row old" and t: "request_table d = xs @ old # ys"
      using split [OF episodes(3)] by blast
    obtain q P where r: "row_edit (e_stamp env) d d' xs ys old q P []"
      using save_episodes_edit [OF _ t dist] episodes(7) o by metis
    have "is_active (r_is4k old) old"
      using edit_allowed_pending [OF episodes(4)] act o by metis
    then show ?thesis
      by (intro row_edit_good [OF r g] row_edit_seasons_stay_apart [OF r]) simp_all
  qed
qed

end
