(* ===== verification/Request_Checks.thy ===== *)
theory Request_Checks
  imports Request_Inv
begin

section \<open>Titles already requested, and routing\<close>

text \<open>
  What the checks of a request say of the title it asks for, where they fall short, and who decides
  where a request goes: the requester's own choice counts only with the advanced permission, and an
  override rule does not replace it.
\<close>

subsection \<open>The title\<close>

lemma duplicate_None:
  assumes "duplicate rows body uid = None"
  shows "(is_movie body \<longrightarrow> rows \<noteq> [] \<longrightarrow> r_status (fst (hd rows)) \<in> {DECLINED, COMPLETED}) \<and>
    (\<forall>(r, m)\<in>set rows. r_requested_by_id r = Some uid \<longrightarrow> r_is_auto_request r \<longrightarrow>
       (if rb_is4k body then m_status4k m else m_status m) = M_DELETED)"
  using assms
  by (cases rows) (auto simp: duplicate_def list_ex_iff split: if_splits prod.splits)

text \<open>The requests of the asked title in the asked quality, in the order of the table.\<close>

definition asks_same :: "db \<Rightarrow> int \<Rightarrow> request_body \<Rightarrow> request_row \<Rightarrow> bool" where
  "asks_same d tmdb_id body r \<longleftrightarrow> r_is4k r = rb_is4k body \<and>
     (case Option.bind (r_media_id r) (media_by_id d) of
        None \<Rightarrow> False | Some m \<Rightarrow> m_tmdb_id m = tmdb_id \<and> m_media_type m = rb_media_type body)"

lemma map_filter_find:
  "case find (\<lambda>x. f x \<noteq> None) xs of
     None \<Rightarrow> List.map_filter f xs = []
   | Some x \<Rightarrow> \<exists>y ys. f x = Some y \<and> List.map_filter f xs = y # ys"
  by (induction xs) (auto simp: List.map_filter_simps split: option.splits)

lemma same_title_first:
  assumes "rb_is4k_given body" "find (asks_same d tmdb_id body) (request_table d) = Some r"
  shows "\<exists>m rows. same_title d tmdb_id body = (r, m) # rows"
proof -
  let ?f = "\<lambda>r. case Option.bind (r_media_id r) (media_by_id d) of
      None \<Rightarrow> None
    | Some m \<Rightarrow> if r_is4k r = rb_is4k body \<and> m_tmdb_id m = tmdb_id \<and> m_media_type m = rb_media_type body
               then Some (r, m) else None"
  have f: "?f r \<noteq> None \<longleftrightarrow> asks_same d tmdb_id body r" for r
    by (simp add: asks_same_def split: option.split)
  have "find (\<lambda>r. ?f r \<noteq> None) (request_table d) = Some r" unfolding f by (rule assms(2))
  then obtain y ys where y: "?f r = Some y" "List.map_filter ?f (request_table d) = y # ys"
    using map_filter_find [of ?f "request_table d"] by auto
  have "fst y = r" using y(1) by (auto split: option.splits if_splits)
  then show ?thesis using y(2) assms(1) by (cases y) (simp add: same_title_def)
qed

lemma same_title_rows:
  assumes "rb_is4k_given body" "r \<in> set (request_table d)" "asks_same d tmdb_id body r"
    "Option.bind (r_media_id r) (media_by_id d) = Some m"
  shows "(r, m) \<in> set (same_title d tmdb_id body)"
  using assms by (auto simp: same_title_def asks_same_def map_filter_def image_iff intro!: bexI [of _ r])

text \<open>
  C15 No request is prepared for a blocklisted title. When the body states its quality, neither is one for a film
  whose first request in that quality is still open (neither declined nor completed), nor for a title of which the
  requester holds an auto-request in that quality, unless the title was deleted there. A body without \<open>is4k\<close>
  passes both duplicate checks unlooked at, so for it only the first part holds.
\<close>

theorem prepare_title_free:
  assumes p: "prepare env d user body = Inr p"
  shows "(case media_by_tmdb d (rb_media_id body) (rb_media_type body) of
      None \<Rightarrow> True | Some m \<Rightarrow> m_status m \<noteq> M_BLOCKLISTED) \<and>
    (rb_is4k_given body \<longrightarrow>
      (is_movie body \<longrightarrow>
        (case find (asks_same d (mp_tmdb_id (p_plan p)) body) (request_table d) of
           None \<Rightarrow> True | Some r \<Rightarrow> r_status r \<in> {DECLINED, COMPLETED})) \<and>
      (\<forall>r\<in>set (request_table d). \<forall>m. asks_same d (mp_tmdb_id (p_plan p)) body r \<longrightarrow>
        Option.bind (r_media_id r) (media_by_id d) = Some m \<longrightarrow>
        r_requested_by_id r = Some (u_id (p_request_user p)) \<longrightarrow> r_is_auto_request r \<longrightarrow>
        (if rb_is4k body then m_status4k m else m_status m) = M_DELETED))"
proof -
  let ?t = "mp_tmdb_id (p_plan p)" and ?u = "u_id (p_request_user p)"
  have free: "duplicate (same_title d ?t body) body ?u = None" by (rule prepare_steps [OF p])
  note dup = duplicate_None [OF free]
  have first: "case find (asks_same d ?t body) (request_table d) of None \<Rightarrow> True | Some r \<Rightarrow> r_status r \<in> {DECLINED, COMPLETED}"
    if g: "rb_is4k_given body" "is_movie body"
  proof (cases "find (asks_same d ?t body) (request_table d)")
    case (Some r)
    then obtain m rows where "same_title d ?t body = (r, m) # rows" using same_title_first [OF g(1)] by blast
    then show ?thesis using dup g(2) Some by auto
  qed simp
  have auto: "(if rb_is4k body then m_status4k m else m_status m) = M_DELETED"
    if "rb_is4k_given body" "r \<in> set (request_table d)" "asks_same d ?t body r"
      "Option.bind (r_media_id r) (media_by_id d) = Some m" "r_requested_by_id r = Some ?u" "r_is_auto_request r" for r m
    using dup same_title_rows [OF that(1-4)] that(5,6) by fastforce
  have "case media_by_tmdb d (rb_media_id body) (rb_media_type body) of None \<Rightarrow> True | Some m \<Rightarrow> m_status m \<noteq> M_BLOCKLISTED"
    by (rule prepare_steps [OF p]) (drule plan_media_cases, simp)
  then show ?thesis using first auto by blast
qed

theorem prepare_title_free_witness:
  "find (asks_same demo_first 1396 (demo_show [1, 2])) (request_table demo_first) \<noteq> None \<and>
   \<not> (\<exists>r\<in>set (request_table demo_first). asks_same demo_first 1396 (demo_show [1, 2]) r \<and>
       r_requested_by_id r = Some 2 \<and> r_is_auto_request r \<and> r_media_id r = Some 1)"
proof
  show "find (asks_same demo_first 1396 (demo_show [1, 2])) (request_table demo_first) \<noteq> None" by code_simp
  obtain p where p: "prepare demo_env demo_first demo_viewer (demo_show [1, 2]) = Inr p"
    using demo_second by (auto elim: admit_cases)
  have "case prepare demo_env demo_first demo_viewer (demo_show [1, 2]) of
      Inr p \<Rightarrow> mp_tmdb_id (p_plan p) = 1396 \<and> u_id (p_request_user p) = 2 | Inl _ \<Rightarrow> False"
    by code_simp
  then have k: "mp_tmdb_id (p_plan p) = 1396" "u_id (p_request_user p) = 2" by (simp_all add: p)
  have g: "rb_is4k_given (demo_show [1, 2])" "\<not> rb_is4k (demo_show [1, 2])" by (simp_all add: demo_show_def demo_movie_def)
  have m: "case media_by_id demo_first 1 of Some m \<Rightarrow> m_status m \<noteq> M_DELETED | None \<Rightarrow> False" by code_simp
  show "\<not> (\<exists>r\<in>set (request_table demo_first). asks_same demo_first 1396 (demo_show [1, 2]) r \<and>
       r_requested_by_id r = Some 2 \<and> r_is_auto_request r \<and> r_media_id r = Some 1)"
    using prepare_title_free [OF p] g m by (auto simp: k split: option.splits)
qed

subsection \<open>Routing\<close>

lemma advanced_only:
  "requested_server settings body False = None"
    "requested_routing body False s = \<lparr>ro_server_id = s, ro_profile_id = None, ro_root_folder = None,
       ro_language_profile_id = None, ro_metadata_language_id = None, ro_tags = None\<rparr>"
  by (simp_all add: requested_server_def requested_routing_def opt_filter_def split: option.splits)

lemma sonarr_defaults_cong:
  assumes "rb_is4k body = rb_is4k body'"
  shows "sonarr_defaults settings body anime r = sonarr_defaults settings body' anime r"
  unfolding sonarr_defaults_def pick_sonarr_def assms ..

text \<open>
  C16 Where a request goes is not the requester's choice without the advanced permission: two bodies
  that ask for the same kind of title in the same quality are routed alike, whatever server, profile,
  folder, languages and tags they name.
\<close>

theorem routing_needs_permission:
  assumes "\<not> has_permission (cu_permissions user) (MANAGE_REQUESTS OR REQUEST_ADVANCED)"
    and "is_movie body = is_movie body'" "rb_is4k body = rb_is4k body'"
  shows "choose_routing env d user body details uid = choose_routing env d user body' details uid"
proof -
  have s: "requested_server (e_settings env) body False = requested_server (e_settings env) body' False"
    and r: "requested_routing body False s = requested_routing body' False s" for s
    by (simp_all add: advanced_only)
  have n: "has_permission (cu_permissions user) (MANAGE_REQUESTS OR REQUEST_ADVANCED) = False"
    using assms(1) by simp
  show ?thesis
    unfolding choose_routing_def Let_def n s r assms(2,3) sonarr_defaults_cong [OF assms(3)] ..
qed

theorem routing_needs_permission_witness:
  "choose_routing demo_env quota_db demo_viewer demo_movie (JObj []) 2 =
   choose_routing demo_env quota_db demo_viewer (demo_movie\<lparr>rb_server_id := Some 7, rb_tags := Some [1]\<rparr>) (JObj []) 2"
  by (rule routing_needs_permission) (code_simp, simp_all add: is_movie_def)

text \<open>
  An override rule does not replace what a requester with the advanced permission chose: their
  profile, root folder and tags stand, and a rule never touches server and languages.
\<close>

theorem rule_keeps_choices:
  assumes "apply_rule rule True r = Inr r'"
  shows "(ro_tags r \<noteq> None \<longrightarrow> ro_tags r' = ro_tags r) \<and>
    (set_text (ro_root_folder r) \<noteq> None \<longrightarrow> ro_root_folder r' = ro_root_folder r) \<and>
    (ro_profile_id r \<noteq> None \<longrightarrow> ro_profile_id r \<noteq> Some 0 \<longrightarrow> ro_profile_id r' = ro_profile_id r) \<and>
    ro_server_id r' = ro_server_id r \<and> ro_language_profile_id r' = ro_language_profile_id r \<and>
    ro_metadata_language_id r' = ro_metadata_language_id r"
  using assms
  by (auto simp: apply_rule_def Let_def res_simps opt_filter_def split: option.splits if_splits)

definition demo_rule :: override_rule_row where
  "demo_rule = \<lparr>ru_id = 1, ru_radarr_service_id = Some 0, ru_sonarr_service_id = None, ru_users = None,
     ru_genre = None, ru_language = None, ru_keywords = None, ru_profile_id = Some 4,
     ru_root_folder = Some ''/anime'', ru_tags = Some ''5,6'', ru_created_at = None, ru_updated_at = None\<rparr>"

definition demo_routing :: routing where
  "demo_routing = \<lparr>ro_server_id = Some 1, ro_profile_id = Some 9, ro_root_folder = None,
     ro_language_profile_id = None, ro_metadata_language_id = None, ro_tags = Some [2]\<rparr>"

theorem rule_keeps_choices_witness:
  "\<exists>r'. apply_rule demo_rule True demo_routing = Inr r' \<and> ro_tags r' = Some [2] \<and>
     ro_profile_id r' = Some 9 \<and> ro_root_folder r' = Some ''/anime'' \<and> ro_server_id r' = Some 1"
proof -
  obtain r' where r: "apply_rule demo_rule True demo_routing = Inr r'"
    and t: "ro_root_folder r' = Some ''/anime''"
    by (rule that [of "demo_routing\<lparr>ro_root_folder := Some ''/anime''\<rparr>"]) (code_simp, simp)
  show ?thesis
    using r t rule_keeps_choices [OF r] by (intro exI [of _ r']) (simp add: demo_routing_def)
qed

subsection \<open>Where the checks fall short\<close>

text \<open>A movie first declined, then requested again: \<open>demo_again\<close> holds a declined and a pending request.\<close>

definition demo_declined :: db where
  "demo_declined = demo_after\<lparr>request_table := map (\<lambda>r. r\<lparr>r_status := DECLINED\<rparr>) (request_table demo_after)\<rparr>"

definition demo_again :: db where
  "demo_again = admit_tables demo_env demo_declined demo_viewer demo_movie"

definition demo_thrice :: db where
  "demo_thrice = admit_tables demo_env demo_again demo_viewer demo_movie"

text \<open>
  Only the first request of a title is looked at for a duplicate: once it was declined, the same
  user can have two pending requests for one movie.
\<close>

lemma declined_hides_duplicates:
  "admit demo_env demo_declined demo_viewer demo_movie = Inr (demo_again, Created 2 1) \<and>
   admit demo_env demo_again demo_viewer demo_movie = Inr (demo_thrice, Created 3 1) \<and>
   map (\<lambda>r. (r_media_id r, r_status r)) (request_table demo_thrice) =
     [(Some 1, DECLINED), (Some 1, PENDING), (Some 1, PENDING)]"
  by (intro conjI; code_simp)

definition demo_unstated :: request_body where
  "demo_unstated = demo_movie\<lparr>rb_is4k_given := False\<rparr>"

text \<open>
  A body without \<open>is4k\<close> skips every duplicate check: the pending movie is requested once more in
  the same quality.
\<close>

lemma unstated_quality_skips_duplicates:
  "case admit demo_env demo_after demo_viewer demo_unstated of
     Inl _ \<Rightarrow> False
   | Inr (d', _) \<Rightarrow> map (\<lambda>r. (r_media_id r, r_is4k r, r_status r)) (request_table d') =
       [(Some 1, False, PENDING), (Some 1, False, PENDING)]"
  by code_simp

subsection \<open>Replacing somebody else's request\<close>

text \<open>
  Ann (2, two season units in total) requested a season, Bob (3) everything of another series from an
  episode on; an administrator (1) asks for that series in Ann's name.
\<close>

definition series_env :: env where
  "series_env = demo_env\<lparr>
     e_settings := JObj [(''main'', JObj [(''partialRequestsEnabled'', JBool True)]),
       (''metadataSettings'', JObj [(''tv'', JStr ''tvdb'')])],
     e_tmdb := (\<lambda>_ i _. Inr (JObj [(''id'', JInt i), (''external_ids'', JObj [(''tvdb_id'', JInt 81189)])])),
     e_tvdb := (\<lambda>_. Inr (map (\<lambda>(t, s, e). JObj [(''title'', JStr ''E''), (''tvdbId'', JInt t),
       (''seasonNumber'', JInt s), (''episodeNumber'', JInt e)]) [(101, 1, 1), (102, 1, 2), (201, 2, 1)]))\<rparr>"

definition series_users :: db where
  "series_users = quota_db\<lparr>user_table := [quota_user\<lparr>u_id := 1, u_permissions := 2\<rparr>,
     quota_user\<lparr>u_tv_quota_limit := Some 2\<rparr>, quota_user\<lparr>u_id := 3\<rparr>]\<rparr>"

definition series_body :: "int \<Rightarrow> request_body" where
  "series_body title = demo_movie\<lparr>rb_media_type := ''tv'', rb_media_id := title,
     rb_episode_selection := Some (JObj [(''type'', JStr ''after''), (''startEpisodeTvdbId'', JInt 101)])\<rparr>"

definition series_ann :: db where
  "series_ann = admit_tables series_env series_users \<lparr>cu_id = 2, cu_permissions = 32\<rparr> (demo_show [1])"

definition series_bob :: db where
  "series_bob = admit_tables series_env series_ann \<lparr>cu_id = 3, cu_permissions = 32\<rparr> (series_body 1399)"

definition holdings :: "db \<Rightarrow> (int option \<times> int \<times> bool) list" where
  "holdings d = map (\<lambda>r. (r_requested_by_id r, r_tv_quota_units r, r_ignore_quota r)) (request_table d)"

text \<open>
  A replacement credits its requester with the season units of the request it replaces, whoever
  holds that: taking over Bob's request puts Ann past her limit though nobody asked to ignore the
  quota, while the edit of a request credits only units its owner holds (\<open>held_units\<close>).
\<close>

lemma replacement_passes_limit:
  "holdings series_bob = [(Some 2, 1, False), (Some 3, 2, False)] \<and>
   (case admit series_env series_bob \<lparr>cu_id = 1, cu_permissions = 2\<rparr> ((series_body 1399)\<lparr>rb_user_id := Some 2\<rparr>) of
      Inr (d', a) \<Rightarrow> a = Replaced 2 \<and> holdings d' = [(Some 2, 1, False), (Some 2, 2, False)] \<and>
        map_option u_tv_quota_limit (user_by_id d' 2) = Some (Some 2) \<and> tv_quota_used (\<lambda>_. []) d' 2 None = 3
    | Inl _ \<Rightarrow> False)"
  by (rule conjI; code_simp)

end
