(* ===== verification/Request_Json_Props.thy ===== *)
theory Request_Json_Props
  imports Request_Json Request_Checks
begin

section \<open>What the answers say\<close>

text \<open>
  The stored tags read back as they were chosen, and the answer of a replaced request against the row
  the replacement leaves.
\<close>

lemma join_show_ints:
  assumes "tags \<noteq> []"
  shows "join_with CHR '','' (map show_int tags) \<noteq> []" "join_with CHR '','' (map show_int tags) \<noteq> ''none''"
proof -
  obtain t ts where t: "tags = t # ts" using assms by (cases tags) auto
  have c: "\<exists>c cs. join_with CHR '','' (map show_int tags) = c # cs \<and> (c = CHR ''-'' \<or> is_digit c)"
    using show_int_chars [of _ t] by (cases ts; cases "show_int t") (auto simp: t dest: show_int_nonempty [THEN notE])
  then show "join_with CHR '','' (map show_int tags) \<noteq> []" by auto
  have "\<not> is_digit (CHR ''n'')" by code_simp
  then show "join_with CHR '','' (map show_int tags) \<noteq> ''none''" using c by auto
qed

text \<open>
  Tags survive their column: what is stored for a list of tags reads back as exactly those numbers,
  the empty list too.
\<close>

theorem tags_round_trip:
  assumes "list_all i64_ok tags"
  shows "tags_json float (Some (tags_text tags)) = JArr (map JInt tags)"
proof (cases "tags = []")
  case True
  then show ?thesis by (simp add: tags_text_def tags_json_def)
next
  case False
  have "split_on CHR '','' (join_with CHR '','' (map show_int tags)) = map show_int tags"
    using False by (intro split_join) (auto dest: show_int_clean)
  moreover have "tag_number float (show_int t) = JInt t" if "t \<in> set tags" for t
    using assms that by (simp add: tag_number_def parse_show_int list_all_iff)
  ultimately show ?thesis
    using join_show_ints [OF False] False by (simp add: tags_text_def tags_json_def Let_def)
qed

theorem tags_round_trip_witness:
  "tags_json (\<lambda>_. None) (Some (tags_text [7, - 3])) = JArr [JInt 7, JInt (- 3)]"
  using tags_round_trip [of "[7, - 3]" "\<lambda>_. None"] by (simp add: i64_ok_def)

subsection \<open>A replacement and its answer\<close>

lemma set_column_watch_ahead:
  "fst c \<noteq> ''watchAheadCount'' \<Longrightarrow> r_watch_ahead_count (set_column c r) = r_watch_ahead_count r"
  by (cases c) (simp add: set_column_def)

lemma fold_set_column_watch_ahead:
  "''watchAheadCount'' \<notin> fst ` set cs \<Longrightarrow> r_watch_ahead_count (fold set_column cs r) = r_watch_ahead_count r"
  by (induction cs arbitrary: r) (auto simp: set_column_watch_ahead)

lemma replace_sets_no_watch_ahead:
  assumes "rs_watch_ahead (ep_resolved plan) = None"
  shows "''watchAheadCount'' \<notin> fst ` set (replace_sets user p plan old)"
  using assms
  by (auto simp: replace_sets_def episode_columns_def Let_def changed_def split: if_splits option.splits)

lemma obj_get_given: "obj_get (given_json key v out) k = (if k = key \<and> v \<noteq> None then v else obj_get out k)"
  by (cases v) (auto simp: given_json_def obj_get_insert)

lemma obj_get_assign:
  "obj_get (assign_json key v updated out) k =
     (if k \<noteq> key then obj_get out k else case v of Some j \<Rightarrow> Some j | None \<Rightarrow> if updated then Some JNull else None)"
  by (cases v) (auto simp: assign_json_def obj_get_insert obj_get_remove)

text \<open>
  A replacement by a selection without a watch-ahead count keeps the old count in the row, while the
  answer says null: a request turned from watch-ahead to ongoing is told without a count and read back
  with one.
\<close>

theorem replaced_answer_drops_count:
  assumes "rs_watch_ahead (ep_resolved plan) = None"
  shows "r_watch_ahead_count (update_request stamp (replace_sets user p plan old) old) = r_watch_ahead_count old \<and>
    jget (replaced_json pr p plan old reloaded True status media requested_by modified_by) ''watchAheadCount'' = Some JNull"
proof
  show "r_watch_ahead_count (update_request stamp (replace_sets user p plan old) old) = r_watch_ahead_count old"
    using fold_set_column_watch_ahead [OF replace_sets_no_watch_ahead [OF assms]] by (simp add: update_request_def)
  show "jget (replaced_json pr p plan old reloaded True status media requested_by modified_by) ''watchAheadCount'' = Some JNull"
    using assms
    by (simp add: replaced_json_def Let_def obj_get_given obj_get_assign obj_get_insert obj_get_put_entries)
qed

definition demo_printing :: printing where
  "demo_printing = \<lparr>pr_num = (\<lambda>_. ''0''), pr_plugin = False, pr_downloads = no_downloads,
     pr_parse = (\<lambda>_. None), pr_float = (\<lambda>_. None)\<rparr>"

definition demo_rolling :: episode_plan where
  "demo_rolling = \<lparr>ep_resolved = \<lparr>rs_kind = ''after'', rs_start = 101, rs_end = None, rs_watch_ahead = None, rs_episodes = []\<rparr>,
     ep_episodes = [], ep_units = 0, ep_key = None, ep_replace = None\<rparr>"

definition demo_ahead :: request_row where
  "demo_ahead = (hd (request_table demo_after))\<lparr>r_request_type := ''tv'',
     r_episode_selection_type := Some ''watchAhead'', r_watch_ahead_count := Some 10\<rparr>"

theorem replaced_answer_drops_count_witness:
  "r_watch_ahead_count (update_request None (replace_sets demo_viewer demo_prepared demo_rolling demo_ahead) demo_ahead)
     = Some 10 \<and>
   jget (replaced_json demo_printing demo_prepared demo_rolling demo_ahead demo_ahead True PENDING JNull JNull None)
     ''watchAheadCount'' = Some JNull"
  using replaced_answer_drops_count [of demo_rolling None demo_viewer demo_prepared demo_ahead demo_printing
      demo_ahead PENDING JNull JNull None]
  by (simp add: demo_rolling_def demo_ahead_def)

end
