(* ===== verification/Request_Life.thy ===== *)
theory Request_Life
  imports Request_Edits Request_Json_Props
begin

section \<open>The life of requests\<close>

text \<open>
  The routes and background steps that change requests (\<open>POST /request\<close>, \<open>PUT\<close> and \<open>DELETE
  /request/{id}\<close>, \<open>POST /request/{id}/{status}\<close>, and what follows an add to Radarr or Sonarr) as one
  step relation, and what any sequence of them keeps.
\<close>

subsection \<open>The background steps\<close>

lemma quiet_record_service: "record_service stamp d row server added = Inr d' \<Longrightarrow> tables_quiet d d'"
  by (auto simp: record_service_def Let_def split: option.splits intro: quiet_media)

text \<open>
  The tables with every request opened: whatever a step writes to a status is quiet against them, so the ids and
  links of the tables stay well formed also when an add ends after its request was closed.
\<close>

definition reopened :: "db \<Rightarrow> db" where
  "reopened d = d\<lparr>request_table := map (\<lambda>r. r\<lparr>r_status := PENDING\<rparr>) (request_table d)\<rparr>"

lemma reopened_open [simp]: "open_at (reopened d) i"
  by (simp add: reopened_def open_at_def list_all_iff is_open_def PENDING_def COMPLETED_def DECLINED_def)

lemma reopened_quiet: "tables_quiet (reopened d) d"
  by (simp add: reopened_def tables_quiet_def row_quiet_def list_all2_map1 list_all2_same is_open_def PENDING_def
      COMPLETED_def DECLINED_def)

lemma reopened_good: "good False (reopened d) = good False d"
proof -
  have "linked (reopened d) (r\<lparr>r_status := s\<rparr>) = linked d r" for r s
    by (simp add: linked_def reopened_def split: option.split)
  then have "links_ok (reopened d) = links_ok d" by (simp add: links_ok_def reopened_def list.pred_map comp_def)
  moreover have "fresh r_id n (map (\<lambda>r. r\<lparr>r_status := s\<rparr>) rs) = fresh r_id n rs" for n s and rs :: "request_row list"
    by (simp add: fresh_def comp_def)
  then have "ids_ok (reopened d) = ids_ok d"
    by (simp add: ids_ok_def all_seasons_def all_episodes_def reopened_def comp_def)
  ultimately show ?thesis by (simp add: good_def)
qed

text \<open>
  A step that is quiet against any start in which request \<open>i\<close> is open: it keeps the tables, and the seasons
  apart where the request is open.
\<close>

lemma quiet_step_good:
  assumes q: "\<And>d0. tables_quiet d0 d \<Longrightarrow> open_at d0 i \<Longrightarrow> tables_quiet d0 d'" and g: "good st d"
    and o: "st \<longrightarrow> open_at d i"
  shows "good st d'"
proof (cases st)
  case True
  then show ?thesis using quiet_good [OF q [OF tables_quiet_refl]] g o by simp
next
  case False
  then show ?thesis using quiet_good [OF q [OF reopened_quiet reopened_open], of False] g reopened_good by simp
qed

lemma movie_added_good:
  assumes m: "movie_added env d snapshot server answer = (d', fx)" and g: "good st d"
    and o: "st \<longrightarrow> open_at d (r_id (en_row snapshot))"
  shows "good st d'"
proof (rule quiet_step_good [OF _ g o])
  fix d0
  assume q: "tables_quiet d0 d" and o: "open_at d0 (r_id (en_row snapshot))"
  obtain d1 e1 fx1 where s: "save_settled env d (with_request_status FAILED snapshot) = (d1, e1, fx1)" by (metis prod_cases3)
  have "keeps d0 (with_request_status FAILED snapshot) d1 e1"
    by (rule save_settled_keeps [OF s q]) (use o in \<open>simp add: with_request_status_def\<close>)
  then have "tables_quiet d0 d1" by (simp add: keeps_def)
  then show "tables_quiet d0 d'"
    using m tables_quiet_trans [OF q quiet_record_service] s q
    by (auto simp: movie_added_def Let_def split: sum.splits if_splits)
qed

lemma quiet_fail_seasons: "tables_quiet d (fail_season_rows stamp d ids)"
  unfolding fail_season_rows_def by (intro quiet_fold quiet_season_request) (simp add: season_key_def)

lemma quiet_mark_failed: "open_at d0 i \<Longrightarrow> tables_quiet d0 d \<Longrightarrow> tables_quiet d0 (mark_failed_quietly stamp i d)"
  unfolding mark_failed_quietly_def by (rule quiet_status_at [of _ _ FAILED]) simp_all

lemma series_steps_quiet:
  assumes s: "series_steps out env d snapshot server tmdb_id added left_out episodes = (d', fx, err)"
  shows "tables_quiet d d'"
proof (cases "record_service (e_stamp env) d (en_row snapshot) server added")
  case (Inl err)
  then show ?thesis using s by (simp add: series_steps_def)
next
  case (Inr d1)
  define d2 where "d2 = (if left_out \<noteq> [] then fail_left_out_seasons out env d1 (en_row snapshot) tmdb_id left_out else d1)"
  have q2: "tables_quiet d d2"
    unfolding d2_def fail_left_out_seasons_def
    using tables_quiet_trans [OF quiet_record_service [OF Inr] quiet_fail_seasons] quiet_record_service [OF Inr] by simp
  show ?thesis
  proof (cases "r_episodes (en_row snapshot) = [] \<or> \<not> truthy (jget added ''id'')")
    case True
    then show ?thesis using s q2 by (simp add: series_steps_def Inr Let_def flip: d2_def)
  next
    case no: False
    show ?thesis
    proof (cases episodes)
      case (Inl err)
      then show ?thesis using s q2 no by (simp add: series_steps_def Inr \<open>record_service _ _ _ _ _ = _\<close> Let_def flip: d2_def)
    next
      case (Inr listed)
      define row where "row = (en_row snapshot)\<lparr>r_episodes := map (listed_episode listed (truthy (jget server ''preventSearch''))
                              (e_now env)) (r_episodes (en_row snapshot))\<rparr>"
      obtain d3 row3 c where w: "save_request (e_stamp env) d2 row False = (d3, row3, c)" by (metis prod_cases3)
      have q3: "tables_quiet d d3" using save_request_at [OF w q2] by simp
      obtain d4 e4 fx4 where f: "save_settled env d3 (with_request_status COMPLETED (snapshot\<lparr>en_row := row3\<rparr>)) = (d4, e4, fx4)"
        by (metis prod_cases3)
      have "keeps d (with_request_status COMPLETED (snapshot\<lparr>en_row := row3\<rparr>)) d4 e4"
        by (rule save_settled_keeps [OF f q3]) (simp add: is_open_def with_request_status_def)
      then have q4: "tables_quiet d d4" by (simp add: keeps_def)
      have "d' = d3 \<or> d' = d4"
        using s no by (auto simp: series_steps_def \<open>record_service _ _ _ _ _ = _\<close> Inr Let_def f w split: if_splits
            simp flip: d2_def row_def)
      then show ?thesis using q3 q4 by blast
    qed
  qed
qed

lemma series_added_good:
  assumes s: "series_added out env d snapshot server tmdb_id answer episodes = (d', fx)" and g: "good st d"
    and o: "st \<longrightarrow> open_at d (r_id (en_row snapshot))"
  shows "good st d'"
proof (rule quiet_step_good [OF _ g o])
  fix d0
  assume q: "tables_quiet d0 d" and o: "open_at d0 (r_id (en_row snapshot))"
  have f: "tables_quiet d0 (if r_status (en_row snapshot) \<noteq> FAILED
      then mark_failed_quietly (e_stamp env) (r_id (en_row snapshot)) x else x)" if "tables_quiet d0 x" for x
    using that quiet_mark_failed [OF o that] by simp
  show "tables_quiet d0 d'"
    using s f [OF q] tables_quiet_trans [OF q series_steps_quiet] f [OF tables_quiet_trans [OF q series_steps_quiet]]
    by (auto simp: series_added_def Let_def split: sum.splits prod.splits option.splits)
qed

subsection \<open>Every step\<close>

text \<open>
  \<open>lived stated d d'\<close>: some sequence of steps leads from \<open>d\<close> to \<open>d'\<close>, whoever took them and whatever
  settings and services answered; a background add may end when its request was changed, closed or removed
  meanwhile. \<open>stated\<close> narrows the courses to those in which every new request names its quality, a request is
  edited while no two media rows have one TMDB id and type, and an add ends while its request is open.
\<close>

inductive lived :: "bool \<Rightarrow> db \<Rightarrow> db \<Rightarrow> bool" for stated :: bool where
  start: "lived stated d d"
| created: "lived stated d d1 \<Longrightarrow> create_request pr out env d1 user body = (d2, answer, fx) \<Longrightarrow>
    stated \<longrightarrow> rb_is4k_given body \<Longrightarrow> lived stated d d2"
| edited: "lived stated d d1 \<Longrightarrow> edit_request pr env d1 viewer i raw = Inr (d2, j) \<Longrightarrow>
    stated \<longrightarrow> titles_ok d1 \<Longrightarrow> lived stated d d2"
| changed: "lived stated d d1 \<Longrightarrow> change_status pr out env d1 viewer i action = (d2, answer, fx) \<Longrightarrow> lived stated d d2"
| removed: "lived stated d d1 \<Longrightarrow> remove_request stamp d1 viewer i = Inr d2 \<Longrightarrow> lived stated d d2"
| movie: "lived stated d d1 \<Longrightarrow> movie_added env d1 snapshot server response = (d2, fx) \<Longrightarrow>
    stated \<longrightarrow> open_at d1 (r_id (en_row snapshot)) \<Longrightarrow> lived stated d d2"
| series: "lived stated d d1 \<Longrightarrow> series_added out env d1 snapshot server tmdb_id added episodes = (d2, fx) \<Longrightarrow>
    stated \<longrightarrow> open_at d1 (r_id (en_row snapshot)) \<Longrightarrow> lived stated d d2"

lemma lived_good: "lived st d d' \<Longrightarrow> good st d \<Longrightarrow> good st d'"
proof (induction rule: lived.induct)
  case (removed d d1 stamp viewer i d2)
  then show ?case by (blast elim: remove_request_cases intro: remove_with_hook_good)
qed (blast intro: create_request_good edit_request_good change_status_good movie_added_good series_added_good)+

subsection \<open>An example\<close>

definition demo_outside :: outside where
  "demo_outside = \<lparr>o_tags = (\<lambda>_. Inr []), o_create_tag = (\<lambda>_ _. Inl ''no Sonarr''), o_series_by_tmdb = (\<lambda>_ _. Inr []),
     o_seasons = (\<lambda>_ _. None), o_nfd = (\<lambda>s. s), o_float = (\<lambda>_. None)\<rparr>"

definition demo_admin :: current_user where
  "demo_admin = \<lparr>cu_id = 1, cu_permissions = 2\<rparr>"

definition demo_other :: current_user where
  "demo_other = \<lparr>cu_id = 3, cu_permissions = 32\<rparr>"

definition demo_life :: "db \<times> db" where
  "demo_life =
     (let made = create_request demo_printing demo_outside demo_env series_users demo_viewer demo_movie;
          declined = change_status demo_printing demo_outside demo_env (fst made) (Some demo_admin) 1 ''decline''
      in (fst made, fst declined))"

lemma demo_lived: "lived st series_users (snd demo_life)"
proof -
  obtain d1 a1 f1 where c: "create_request demo_printing demo_outside demo_env series_users demo_viewer demo_movie = (d1, a1, f1)"
    by (metis prod_cases3)
  obtain d2 a2 f2 where s: "change_status demo_printing demo_outside demo_env d1 (Some demo_admin) 1 ''decline'' = (d2, a2, f2)"
    by (metis prod_cases3)
  have "lived st series_users d1" by (rule lived.created [OF lived.start c]) (simp add: demo_movie_def)
  then show ?thesis using lived.changed [OF _ s] by (simp add: demo_life_def c s)
qed

text \<open>The tables of the example: a pending movie request, then declined.\<close>

definition made_media :: media_row where
  "made_media = \<lparr>m_id = 1, m_media_type = ''movie'', m_tmdb_id = 603, m_tvdb_id = None, m_imdb_id = None,
     m_status = M_PENDING, m_status4k = M_UNKNOWN, m_created_at = None, m_updated_at = None,
     m_last_season_change = None, m_media_added_at = None, m_service_id = None, m_service_id4k = None,
     m_external_service_id = None, m_external_service_id4k = None, m_external_service_slug = None,
     m_external_service_slug4k = None, m_rating_key = None, m_rating_key4k = None, m_jellyfin_media_id = None,
     m_jellyfin_media_id4k = None, m_seasons = []\<rparr>"

definition made_request :: request_row where
  "made_request = \<lparr>r_id = 1, r_status = PENDING, r_created_at = None, r_updated_at = None,
     r_request_type = ''movie'', r_episode_selection_type = None, r_episode_start_tvdb_id = None,
     r_episode_end_tvdb_id = None, r_watch_ahead_count = None, r_watch_ahead_inactive_at = None,
     r_ongoing_episode_request_key = None, r_tv_quota_units = 0, r_is4k = False, r_server_id = None,
     r_profile_id = None, r_root_folder = None, r_language_profile_id = None, r_metadata_language_id = None,
     r_tags = None, r_is_auto_request = False, r_ignore_quota = False, r_media_id = Some 1,
     r_requested_by_id = Some 2, r_modified_by_id = None, r_seasons = [], r_episodes = []\<rparr>"

definition made_db :: db where
  "made_db = series_users\<lparr>media_table := [made_media], request_table := [made_request],
     next_media := 2, next_request := 2\<rparr>"

definition declined_db :: db where
  "declined_db = made_db\<lparr>media_table := [made_media\<lparr>m_status := M_UNKNOWN\<rparr>],
     request_table := [made_request\<lparr>r_status := DECLINED, r_modified_by_id := Some 1\<rparr>]\<rparr>"

lemma demo_life_tables [simp]: "demo_life = (made_db, declined_db)"
  by code_simp

definition demo_shows :: "db \<times> db" where
  "demo_shows =
     (let one = create_request demo_printing demo_outside demo_env series_users demo_viewer (demo_show [1]);
          two = create_request demo_printing demo_outside demo_env (fst one) demo_other (demo_show [1, 2])
      in (fst one, fst two))"

lemma demo_shows_lived: "lived True series_users (snd demo_shows)"
proof -
  obtain d1 a1 f1 where c: "create_request demo_printing demo_outside demo_env series_users demo_viewer (demo_show [1]) = (d1, a1, f1)"
    by (metis prod_cases3)
  obtain d2 a2 f2 where s: "create_request demo_printing demo_outside demo_env d1 demo_other (demo_show [1, 2]) = (d2, a2, f2)"
    by (metis prod_cases3)
  have "lived True series_users d1" by (rule lived.created [OF lived.start c]) (simp add: demo_show_def demo_movie_def)
  then have "lived True series_users d2" by (rule lived.created [OF _ s]) (simp add: demo_show_def demo_movie_def)
  then show ?thesis by (simp add: demo_shows_def c s)
qed

text \<open>Two requests of one series, the second only for the season the first left.\<close>

definition show_media :: media_row where
  "show_media = made_media\<lparr>m_media_type := ''tv'', m_tmdb_id := 1396\<rparr>"

definition show_request :: "int \<Rightarrow> int \<Rightarrow> int \<Rightarrow> request_row" where
  "show_request i season user = made_request\<lparr>r_id := i, r_request_type := ''tv'', r_tv_quota_units := 1,
     r_requested_by_id := Some user, r_seasons := [\<lparr>sr_id = i, sr_season_number = season, sr_status = PENDING,
       sr_created_at = None, sr_updated_at = None, sr_request_id = Some i\<rparr>]\<rparr>"

definition show_db :: db where
  "show_db = series_users\<lparr>media_table := [show_media], request_table := [show_request 1 1 2],
     next_media := 2, next_request := 2, next_season_request := 2\<rparr>"

definition shows_db :: db where
  "shows_db = show_db\<lparr>request_table := [show_request 1 1 2, show_request 2 2 3],
     next_request := 3, next_season_request := 3\<rparr>"

lemma demo_shows_tables [simp]: "demo_shows = (show_db, shows_db)"
  by code_simp

end
