(* ===== verification/Request_Guards.thy ===== *)
theory Request_Guards
  imports Request_Life
begin

section \<open>Which statuses a request takes\<close>

text \<open>
  \<open>moves i S d d'\<close>: every request of \<open>d'\<close> is one of \<open>d\<close>, for the same title and quality, with its
  status, or with a status of \<open>S\<close> where its id is \<open>i\<close>.
\<close>

definition asked_for :: "request_row \<Rightarrow> int \<times> int option \<times> bool" where
  "asked_for r = (r_id r, r_media_id r, r_is4k r)"

definition moves :: "int \<Rightarrow> int set \<Rightarrow> db \<Rightarrow> db \<Rightarrow> bool" where
  "moves i S d d' \<longleftrightarrow> (\<forall>r'\<in>set (request_table d'). \<exists>r\<in>set (request_table d). asked_for r = asked_for r' \<and>
     (r_status r' = r_status r \<or> r_id r' = i \<and> r_status r' \<in> S))"

named_theorems moves_intros

lemma moves_refl [simp, moves_intros]: "moves i S d d"
  by (auto simp: moves_def)

lemma moves_trans: "moves i S d d1 \<Longrightarrow> moves i S d1 d2 \<Longrightarrow> moves i S d d2"
proof (unfold moves_def, rule ballI)
  fix r'
  assume a: "\<forall>r'\<in>set (request_table d1). \<exists>r\<in>set (request_table d). asked_for r = asked_for r' \<and>
      (r_status r' = r_status r \<or> r_id r' = i \<and> r_status r' \<in> S)"
    and b: "\<forall>r'\<in>set (request_table d2). \<exists>r\<in>set (request_table d1). asked_for r = asked_for r' \<and>
      (r_status r' = r_status r \<or> r_id r' = i \<and> r_status r' \<in> S)" and r': "r' \<in> set (request_table d2)"
  obtain r1 where r1: "r1 \<in> set (request_table d1)" "asked_for r1 = asked_for r'"
    "r_status r' = r_status r1 \<or> r_id r' = i \<and> r_status r' \<in> S" using b r' by blast
  obtain r where "r \<in> set (request_table d)" "asked_for r = asked_for r1"
    "r_status r1 = r_status r \<or> r_id r1 = i \<and> r_status r1 \<in> S" using a r1(1) by blast
  then show "\<exists>r\<in>set (request_table d). asked_for r = asked_for r' \<and>
      (r_status r' = r_status r \<or> r_id r' = i \<and> r_status r' \<in> S)"
    using r1(2,3) by (intro bexI [of _ r]) (auto simp: asked_for_def)
qed

lemma moves_mono: "moves i S d d' \<Longrightarrow> S \<subseteq> T \<Longrightarrow> moves i T d d'"
  unfolding moves_def by blast

lemma moves_same:
  assumes "request_table d' = map f (request_table d)" "\<And>r. asked_for (f r) = asked_for r \<and> r_status (f r) = r_status r"
  shows "moves i S d d'"
  by (auto simp: moves_def assms)

lemma moves_subset: "set (request_table d') \<subseteq> set (request_table d) \<Longrightarrow> moves i S d d'"
  by (auto simp: moves_def)

lemma moves_fold: "(\<And>x d. moves i S d (f x d)) \<Longrightarrow> moves i S d1 d2 \<Longrightarrow> moves i S d1 (fold f xs d2)"
  by (induction xs arbitrary: d2) (simp_all, metis moves_trans)

lemma moves_media [moves_intros]: "moves i S d1 d2 \<Longrightarrow> moves i S d1 (modify_media m f d2)"
  by (rule moves_trans, assumption) (simp add: moves_subset modify_media_def)

lemma moves_season [moves_intros]: "moves i S d1 d2 \<Longrightarrow> moves i S d1 (modify_season m f d2)"
  by (rule moves_trans, assumption) (simp add: moves_subset modify_season_def)

lemma moves_season_request [moves_intros]: "moves i S d1 d2 \<Longrightarrow> moves i S d1 (modify_season_request m f d2)"
  by (rule moves_trans, assumption) (rule moves_same [of _ "\<lambda>r. r\<lparr>r_seasons := map (\<lambda>s. if sr_id s = m then f s else s) (r_seasons r)\<rparr>"],
    simp_all add: modify_season_request_def Let_def asked_for_def)

lemma moves_episode [moves_intros]: "moves i S d1 d2 \<Longrightarrow> moves i S d1 (modify_episode m f d2)"
  by (rule moves_trans, assumption) (rule moves_same [of _ "\<lambda>r. r\<lparr>r_episodes := map (\<lambda>s. if er_id s = m then f s else s) (r_episodes r)\<rparr>"],
    simp_all add: modify_episode_def asked_for_def)

lemma moves_set_media [moves_intros]: "moves i S d1 d2 \<Longrightarrow> moves i S d1 (set_media_status stamp m four s d2)"
  unfolding set_media_status_def by (rule moves_media)

lemma moves_set_season [moves_intros]: "moves i S d1 d2 \<Longrightarrow> moves i S d1 (set_season_status stamp m four s d2)"
  unfolding set_season_status_def by (rule moves_season)

lemma moves_request:
  assumes "moves i S d1 d2" "\<And>r. asked_for (f r) = asked_for r" "\<And>r. r_status (f r) \<in> S"
  shows "moves i S d1 (modify_request i f d2)"
proof (rule moves_trans [OF assms(1)])
  have "r_id (f r) = r_id r" for r using assms(2) [of r] by (simp add: asked_for_def)
  then show "moves i S d2 (modify_request i f d2)"
    using assms(3) by (auto simp: moves_def modify_request_def assms(2))
qed

lemma moves_if: "moves i S d a \<Longrightarrow> moves i S d b \<Longrightarrow> moves i S d (if c then a else b)"
  by simp

lemma moves_write_seasons: "moves i S d1 d2 \<Longrightarrow> moves i S d1 (write_season_statuses stamp row stored d2)"
  unfolding write_season_statuses_def by (intro moves_fold moves_if moves_intros)

lemma moves_write_episodes: "moves i S d1 d2 \<Longrightarrow> moves i S d1 (write_episode_statuses stamp row stored d2)"
  unfolding write_episode_statuses_def by (intro moves_fold moves_if moves_intros)

lemma moves_write_rows:
  assumes "moves i S d1 d2" "w \<Longrightarrow> r_id row = i \<and> r_status row \<in> S"
  shows "moves i S d1 (fst (write_rows stamp d2 row stored w))"
proof (cases w)
  case True
  have "moves i S d1 (modify_request (r_id row) (\<lambda>r. r\<lparr>r_status := r_status row,
      r_modified_by_id := r_modified_by_id row, r_updated_at := stamp\<rparr>) d2)"
    using assms True moves_request [OF assms(1)] by (simp add: asked_for_def)
  then show ?thesis
    unfolding write_rows_def Let_def fst_conv
    by (intro moves_write_episodes moves_write_seasons moves_if assms(1))
next
  case False
  then show ?thesis
    by (simp add: write_rows_def Let_def moves_write_episodes moves_write_seasons assms(1))
qed

lemma moves_decline: "moves i S d1 d2 \<Longrightarrow> moves i S d1 (decline_season stamp m media row s d2)"
  by (simp add: decline_season_def moves_set_season split: option.split)

lemma moves_children:
  assumes "moves i S d d1"
  shows "moves i S d (fst (case x of None \<Rightarrow> (d1, r) | Some stored \<Rightarrow>
    (fst (write_rows stamp d1 r stored False), reload_dates (fst (write_rows stamp d1 r stored False)) r False)))"
  using assms moves_write_rows [OF assms, of False] by (simp split: option.split)

lemma moves_update_parent: "moves i S d1 d2 \<Longrightarrow> moves i S d1 (fst (update_parent_status stamp d2 row))"
proof (cases "Option.bind (r_media_id row) (media_by_id d2)")
  case None
  then show "moves i S d1 d2 \<Longrightarrow> ?thesis" by (cases "r_media_id row") (simp_all add: update_parent_status_def)
next
  case (Some media)
  then obtain m where m: "r_media_id row = Some m" "media_by_id d2 m = Some media" by (auto split: bind_splits)
  show "moves i S d1 d2 \<Longrightarrow> ?thesis"
    unfolding update_parent_status_def m option.case Let_def
    by (intro moves_children moves_if moves_fold moves_decline moves_set_media moves_refl)
qed

subsection \<open>Saves and sends\<close>

lemma save_request_moves:
  assumes "save_request stamp d row w = (d', row', c)"
  shows "moves (r_id row) {r_status row} d d' \<and> r_id row' = r_id row \<and> r_status row' = r_status row"
proof -
  have "moves (r_id row) {r_status row} d (fst (save_request stamp d row w))"
    by (simp add: save_request_def Let_def split_def moves_write_rows split: option.split)
  then show ?thesis
    using assms by (auto simp: save_request_def Let_def split_def split: option.splits)
qed

lemma save_settled_moves:
  assumes s: "save_settled env d e = (d', e', fx)"
  shows "moves (r_id (en_row e)) {r_status (en_row e)} d d' \<and> r_id (en_row e') = r_id (en_row e)"
proof -
  obtain d1 row c where w: "save_request (e_stamp env) d (en_row e) True = (d1, row, c)" by (metis prod_cases3)
  obtain d2 row2 where u: "update_parent_status (e_stamp env) d1 row = (d2, row2)" by (metis surj_pair)
  note k = save_request_moves [OF w] and p = update_parent_row [OF u]
  have m: "moves (r_id (en_row e)) {r_status (en_row e)} d d2"
    using moves_update_parent [of "r_id (en_row e)" "{r_status (en_row e)}" d d1 "e_stamp env" row] k u by simp
  show ?thesis
    using s k p m by (cases c) (auto simp: save_settled_def settled_update_def w u Let_def)
qed

lemma radarr_moves:
  assumes s: "send_to_radarr out env d e = (d', e', fx)"
  shows "moves (r_id (en_row e)) (if r_status (en_row e) = APPROVED then {COMPLETED, FAILED} else {}) d d' \<and>
    r_id (en_row e') = r_id (en_row e)"
proof (cases "r_status (en_row e) \<noteq> APPROVED \<or> r_request_type (en_row e) \<noteq> ''movie''")
  case True
  then show ?thesis using s by (auto simp: send_to_radarr_def)
next
  case False
  obtain d1 e1 fx1 err where i: "send_to_radarr_inner out env d e = (d1, e1, fx1, err)" by (metis prod_cases4)
  obtain d2 e2 fx2 where c: "save_settled env d (with_request_status COMPLETED e) = (d2, e2, fx2)" by (metis prod_cases3)
  have "d1 = d \<and> e1 = e \<or> d1 = d2 \<and> e1 = e2"
    using i by (auto simp: send_to_radarr_inner_def Let_def c split: if_splits option.splits sum.splits)
  then have m1: "moves (r_id (en_row e)) {COMPLETED, FAILED} d d1" "r_id (en_row e1) = r_id (en_row e)"
    using save_settled_moves [OF c] by (auto simp: with_request_status_def intro: moves_mono)
  obtain d3 e3 fx3 where f: "save_settled env d1 (with_request_status FAILED e1) = (d3, e3, fx3)" by (metis prod_cases3)
  have m3: "moves (r_id (en_row e)) {COMPLETED, FAILED} d d3" "r_id (en_row e3) = r_id (en_row e)"
    using save_settled_moves [OF f] m1 by (auto simp: with_request_status_def intro: moves_mono moves_trans)
  have "d' = d1 \<and> e' = e1 \<or> d' = d3 \<and> e' = e3"
    using s False by (auto simp: send_to_radarr_def i f split: option.splits)
  then show ?thesis using m1 m3 False by auto
qed

lemma sonarr_moves:
  assumes s: "send_to_sonarr out env d e = (d', e', fx)"
  shows "moves (r_id (en_row e)) (if r_status (en_row e) = APPROVED then {COMPLETED, FAILED} else {}) d d'"
proof (cases "r_status (en_row e) \<noteq> APPROVED \<or> r_request_type (en_row e) \<noteq> ''tv''")
  case True
  then show ?thesis using s by (auto simp: send_to_sonarr_def)
next
  case False
  let ?i = "r_id (en_row e)" and ?S = "{COMPLETED, FAILED}"
  obtain d1 e1 fx1 err where i: "send_to_sonarr_inner out env d e = (d1, e1, fx1, err)" by (metis prod_cases4)
  have "moves ?i ?S d d1 \<and> r_id (en_row e1) = ?i"
    using i
  proof (cases rule: sonarr_inner_cases)
    case (complete fx')
    then show ?thesis
      using save_settled_moves [OF complete]
      by (auto simp: complete_children_def with_child_status_def intro: moves_mono)
  next
    case (deleted m)
    then show ?thesis by (auto simp: delete_request_def delete_media_def intro: moves_subset)
  qed (simp_all add: remember_tvdb_id_def moves_media)
  then have "moves ?i ?S d d1 \<and> moves ?i ?S d (mark_failed_quietly (e_stamp env) (r_id (en_row e1)) d1)"
    unfolding mark_failed_quietly_def by (auto intro!: moves_request simp: asked_for_def)
  moreover have "d' = d1 \<or> d' = mark_failed_quietly (e_stamp env) (r_id (en_row e1)) d1"
    using s False by (auto simp: send_to_sonarr_def i split: option.splits)
  ultimately show ?thesis using False by auto
qed

lemma after_update_moves:
  assumes a: "after_update out env d e = (d', e', fx)"
  shows "moves (r_id (en_row e)) (if r_status (en_row e) = APPROVED then {COMPLETED, FAILED} else {}) d d'"
proof (cases "r_status (en_row e) = APPROVED")
  case True
  let ?i = "r_id (en_row e)" and ?S = "{COMPLETED, FAILED}"
  obtain d1 e1 f1 where r: "send_to_radarr out env d e = (d1, e1, f1)" by (metis prod_cases3)
  obtain d2 e2 f2 where s: "send_to_sonarr out env d1 e1 = (d2, e2, f2)" by (metis prod_cases3)
  obtain d3 row where u: "update_parent_status (e_stamp env) d2 (en_row e2) = (d3, row)" by (metis surj_pair)
  have d': "d' = d3" using a by (simp add: after_update_def Let_def r s u)
  have m1: "moves ?i ?S d d1" "r_id (en_row e1) = ?i" using radarr_moves [OF r] True by simp_all
  have "moves ?i ?S d1 d2"
    using sonarr_moves [OF s] m1(2) by (auto intro: moves_mono split: if_splits)
  then have "moves ?i ?S d d2" by (rule moves_trans [OF m1(1)])
  then have "moves ?i ?S d d3" using moves_update_parent [of ?i ?S d d2 "e_stamp env" "en_row e2"] u by simp
  then show ?thesis using True d' by simp
next
  case False
  then have "settled_update env d e = (d', e', fx)" using a settled_update_eq by simp
  then have "d' = fst (update_parent_status (e_stamp env) d (en_row e))"
    by (auto simp: settled_update_def Let_def split: prod.splits)
  then show ?thesis using False moves_update_parent [of _ _ d d] by simp
qed

lemma save_entity_moves:
  assumes s: "save_entity out env d e = (d', e', fx)"
  shows "moves (r_id (en_row e)) (insert (r_status (en_row e))
    (if r_status (en_row e) = APPROVED then {COMPLETED, FAILED} else {})) d d'"
proof -
  let ?i = "r_id (en_row e)" and ?T = "if r_status (en_row e) = APPROVED then {COMPLETED, FAILED} else {}"
  obtain d1 row c where w: "save_request (e_stamp env) d (en_row e) True = (d1, row, c)" by (metis prod_cases3)
  note k = save_request_moves [OF w]
  have m1: "moves ?i (insert (r_status (en_row e)) ?T) d d1" using k by (auto intro: moves_mono)
  show ?thesis
  proof (cases c)
    case True
    then have a: "after_update out env d1 (e\<lparr>en_row := row\<rparr>) = (d', e', fx)" using s w by (simp add: save_entity_def)
    have "moves ?i ?T d1 d'" using after_update_moves [OF a] k by simp
    then have "moves ?i (insert (r_status (en_row e)) ?T) d1 d'" by (rule moves_mono) blast
    then show ?thesis by (rule moves_trans [OF m1])
  next
    case False
    then show ?thesis using s w m1 by (simp add: save_entity_def)
  qed
qed

lemma request_by_id_unique:
  assumes "ids_ok d" "request_by_id d i = Some r" "q \<in> set (request_table d)" "r_id q = i"
  shows "q = r"
proof -
  have "r \<in> set (request_table d)" "r_id r = i" using assms(2) by (auto simp: request_by_id_def find_Some_iff)
  moreover have "distinct (map r_id (request_table d))" using assms(1) by (simp add: ids_ok_def fresh_def)
  ultimately show ?thesis using assms(3,4) by (metis distinct_map inj_onD)
qed

text \<open>
  C9 How an approval, decline or retry moves requests: only somebody who manages requests moves one, and
  only the one asked for; a pending one is declined, or approved and then perhaps completed or failed by
  what its approval sends; a failed one is retried; every other request keeps its status.
\<close>

theorem change_status_moves:
  assumes c: "change_status pr out env d viewer i action = (d', answer, fx)" and ok: "ids_ok d"
    and r': "r' \<in> set (request_table d')"
  shows "\<exists>r\<in>set (request_table d). r_id r = r_id r' \<and>
    (r_status r' = r_status r \<or>
     r_id r' = i \<and> (\<exists>user. viewer = Some user \<and> has_permission (cu_permissions user) MANAGE_REQUESTS) \<and>
     (action = ''decline'' \<and> r_status r = PENDING \<and> r_status r' = DECLINED \<or>
      action = ''approve'' \<and> r_status r = PENDING \<and> r_status r' \<in> {APPROVED, COMPLETED, FAILED} \<or>
      action = ''retry'' \<and> r_status r = FAILED \<and> r_status r' \<in> {APPROVED, COMPLETED, FAILED}))"
proof (cases "status_checks pr d viewer i action")
  case (Inl a)
  then have "d' = d" using c by (simp add: change_status_def refused_as_def)
  then show ?thesis using r' by blast
next
  case (Inr e)
  obtain e0 b a w user where l: "load_entity d i = Some e0" "status_action action = Some (b, a, w)"
    "r_status (en_row e0) = b" "authenticated viewer MANAGE_REQUESTS = Inr user"
    "en_row e = (en_row e0)\<lparr>r_status := a, r_modified_by_id := Some (cu_id user)\<rparr>" "en_media e = en_media e0"
    by (rule status_checks_loaded [OF Inr]) (rule that)
  obtain r0 where r0: "request_by_id d i = Some r0" "en_row e0 = loaded_row r0" by (rule load_entity_row [OF l(1)])
  have i: "r_id r0 = i" using r0(1) by (auto simp: request_by_id_def find_Some_iff)
  obtain d1 e1 fx1 where s: "save_entity out env d e = (d1, e1, fx1)" by (metis prod_cases3)
  have "d' = d1" using c by (simp add: change_status_def Inr s Let_def split: sum.splits)
  moreover have "moves i (insert a (if a = APPROVED then {COMPLETED, FAILED} else {})) d d1"
    using save_entity_moves [OF s] l(5) r0(2) i by simp
  ultimately obtain r where r: "r \<in> set (request_table d)" "r_id r = r_id r'"
    "r_status r' = r_status r \<or> r_id r' = i \<and> r_status r' \<in> insert a (if a = APPROVED then {COMPLETED, FAILED} else {})"
    using r' unfolding moves_def asked_for_def by blast
  have "\<exists>user. viewer = Some user \<and> has_permission (cu_permissions user) MANAGE_REQUESTS"
    using l(4) by (auto simp: authenticated_def split: option.splits if_splits)
  moreover have "r_status r = b" if "r_id r' = i"
    using request_by_id_unique [OF ok r0(1) r(1)] that r(2) r0(2) l(3) by simp
  ultimately show ?thesis
    using r l(2) by (intro bexI [OF _ r(1)]) (auto simp: status_action_def DECLINED_def APPROVED_def split: if_splits)
qed

subsection \<open>Editing\<close>

lemma user_by_id_SomeD: "user_by_id d i = Some u \<Longrightarrow> u_id u = i"
  by (auto simp: user_by_id_def find_Some_iff)

lemma request_by_id_SomeD: "request_by_id d i = Some r \<Longrightarrow> r_id r = i \<and> r \<in> set (request_table d)"
  by (auto simp: request_by_id_def find_Some_iff)

lemma loaded_id: "load_entity d i = Some e \<Longrightarrow> r_id (en_row e) = i"
  by (auto simp: load_entity_def dest: request_by_id_SomeD)

lemma edit_requester_change:
  assumes r: "edit_requester d user body e owner = Inr requester" and e: "load_entity d i = Some e"
    and o: "r_requested_by_id (en_row e) = Some owner" and ne: "u_id requester \<noteq> owner"
  shows "has_all (cu_permissions user) (MANAGE_USERS OR MANAGE_REQUESTS)"
proof (cases "eb_user_id body")
  case None
  then have "en_requested_by e = Some requester"
    using r by (auto simp: edit_requester_def split: option.splits)
  moreover obtain r0 where "en_requested_by e = Option.bind (r_requested_by_id r0) (user_by_id d)" "en_row e = loaded_row r0"
    using e by (auto simp: load_entity_def)
  ultimately have "user_by_id d owner = Some requester" using o by (simp add: loaded_row_def)
  then have "u_id requester = owner" by (rule user_by_id_SomeD)
  then show ?thesis using ne by simp
next
  case (Some uid)
  then have "uid = owner \<or> has_all (cu_permissions user) (MANAGE_USERS OR MANAGE_REQUESTS)" "user_by_id d uid = Some requester"
    using r by (auto simp: edit_requester_def split: option.splits if_splits)
  moreover have "u_id requester = uid" using calculation(2) by (rule user_by_id_SomeD)
  ultimately show ?thesis using ne by auto
qed

text \<open>\<open>edits user i old q\<close>: \<open>q\<close> may stand for \<open>old\<close> after an edit by \<open>user\<close>.\<close>

definition edits :: "current_user \<Rightarrow> int \<Rightarrow> request_row \<Rightarrow> request_row \<Rightarrow> bool" where
  "edits user i old q \<longleftrightarrow>
     r_id old = i \<and> r_id q = i \<and> r_media_id q = r_media_id old \<and> r_is4k q = r_is4k old \<and>
     r_status old = PENDING \<and> r_status q = PENDING \<and>
     (r_requested_by_id old = Some (cu_id user) \<or> has_permission (cu_permissions user) MANAGE_REQUESTS) \<and>
     (r_requested_by_id q = r_requested_by_id old \<or> has_all (cu_permissions user) (MANAGE_USERS OR MANAGE_REQUESTS))"

lemma row_edit_edits:
  assumes row: "row_edit stamp d d' xs ys old q P added"
    and status: "r_status q = r_status (update_request stamp2 sets old)"
    and whose: "r_requested_by_id q = r_requested_by_id (update_request stamp2 sets old)"
    and sets: "sets_ok sets (loaded_row old) (u_id requester)"
    and e: "load_entity d i = Some e" "en_row e = loaded_row old"
    and a: "edit_allowed user body e = Inr (mt, owner)"
    and r: "edit_requester d user body' e owner = Inr requester"
  shows "edits user i old q"
proof -
  obtain m where m: "r_requested_by_id (en_row e) = Some owner" "r_status (en_row e) = PENDING"
    "owner = cu_id user \<and> (mt = ''tv'' \<or> has_permission (cu_permissions user) REQUEST_ADVANCED) \<or>
       has_permission (cu_permissions user) MANAGE_REQUESTS"
    by (rule edit_allowed_pending [OF a])
  have i: "r_id old = i" using loaded_id [OF e(1)] e(2) by simp
  have l: "r_requested_by_id old = Some owner" "r_status old = PENDING"
    using m(1,2) e(2) by (simp_all add: loaded_row_def)
  have "r_requested_by_id q = r_requested_by_id old \<or> has_all (cu_permissions user) (MANAGE_USERS OR MANAGE_REQUESTS)"
  proof (cases "''requestedById'' \<in> fst ` set sets")
    case True
    then have "r_requested_by_id (loaded_row old) \<noteq> Some (u_id requester)" using sets unfolding sets_ok_def by blast
    then have "u_id requester \<noteq> owner" using l by (simp add: loaded_row_def)
    then show ?thesis using edit_requester_change [OF r e(1) m(1)] by simp
  next
    case False
    then show ?thesis using whose update_request_other(2) by simp
  qed
  moreover have "r_status q = PENDING" using status sets l update_request_other(1) unfolding sets_ok_def by metis
  ultimately show ?thesis using row_editD(3) [OF row] m(3) i l by (auto simp: edits_def)
qed

text \<open>
  C10 An edit touches one request: it was pending and the editor's own, or the editor manages requests; it
  keeps its place, id, title, quality and status, it changes hands only where the editor manages users
  and requests, and every other request stays as it was.
\<close>

theorem edit_request_frame:
  assumes ed: "edit_request pr env d viewer i raw = Inr (d', j)" and ok: "ids_ok d"
  shows "\<exists>user xs old q ys. viewer = Some user \<and> edits user i old q \<and>
    request_table d = xs @ old # ys \<and> request_table d' = xs @ q # ys"
proof -
  have dist: "distinct (map r_id (request_table d))" using ok by (simp add: ids_ok_def fresh_def)
  have split: "\<exists>old xs ys. en_row e = loaded_row old \<and> request_table d = xs @ old # ys" if "load_entity d i = Some e" for e
    using load_entity_row [OF that] by (metis request_by_id_def find_Some_iff nth_mem split_list)
  have viewer: "viewer = Some user" if "authenticated viewer 0 = Inr user" for user
    using that by (auto simp: authenticated_def split: option.splits if_splits)
  from ed show ?thesis
  proof (cases rule: edit_request_cases)
    case (common e user body mt owner)
    obtain old xs ys where o: "en_row e = loaded_row old" and t: "request_table d = xs @ old # ys" using split [OF common(3)] by blast
    have "r_id old = i" using loaded_id [OF common(3)] o by simp
    moreover obtain m where "r_requested_by_id (en_row e) = Some owner" "r_status (en_row e) = PENDING"
      "owner = cu_id user \<and> (mt = ''tv'' \<or> has_permission (cu_permissions user) REQUEST_ADVANCED) \<or>
         has_permission (cu_permissions user) MANAGE_REQUESTS"
      by (rule edit_allowed_pending [OF common(4)])
    ultimately have "edits user i old old" using o by (auto simp: edits_def loaded_row_def)
    then show ?thesis using viewer [OF common(1)] t common(5) by blast
  next
    case (seasons e user body mt owner requester body' sets edit e')
    obtain old xs ys where o: "en_row e = loaded_row old" and t: "request_table d = xs @ old # ys" using split [OF seasons(3)] by blast
    obtain ids where w: "save_rows (e_stamp env) d (loaded_row old) sets edit = (d', ids)"
      using seasons(8) by (auto simp: save_edit_def o split: prod.splits)
    obtain q P added where r: "row_edit (e_stamp env) d d' xs ys old q P added"
      "r_status q = r_status (update_request (e_stamp env) sets old)"
      "r_requested_by_id q = r_requested_by_id (update_request (e_stamp env) sets old)"
      by (rule save_rows_edit [OF w t dist])
    have "edits user i old q"
      by (rule row_edit_edits [OF r seasons(7) [unfolded o] seasons(3) o seasons(4,6)])
    then show ?thesis using viewer [OF seasons(1)] row_editD(1,2) [OF r(1)] by blast
  next
    case (episodes e user body mt owner requester body' sets res)
    obtain old xs ys where o: "en_row e = loaded_row old" and t: "request_table d = xs @ old # ys" using split [OF episodes(3)] by blast
    obtain q P where r: "row_edit (e_stamp env) d d' xs ys old q P []"
      "r_status q = r_status (update_request (e_stamp env) sets old)"
      "r_requested_by_id q = r_requested_by_id (update_request (e_stamp env) sets old)"
      by (rule save_episodes_edit [OF episodes(7) [unfolded o] t dist])
    have "edits user i old q"
      by (rule row_edit_edits [OF r episodes(6) [unfolded o] episodes(3) o episodes(4,5)])
    then show ?thesis using viewer [OF episodes(1)] row_editD(1,2) [OF r(1)] by blast
  qed
qed

subsection \<open>An example\<close>

definition demo_edit :: "(outcome, db \<times> json) res" where
  "demo_edit = edit_request demo_printing demo_env show_db (Some demo_viewer) 1
     (Some (JObj [(''mediaType'', JStr ''tv''), (''seasons'', JArr [JInt 1, JInt 2])]))"

lemma demo_edit_seasons:
  "case demo_edit of Inl _ \<Rightarrow> False | Inr (d', j) \<Rightarrow> map (\<lambda>r. map sr_season_number (r_seasons r)) (request_table d') = [[1, 2]]"
  by code_simp

theorem edit_request_frame_witness:
  "\<exists>q. edits demo_viewer 1 (show_request 1 1 2) q \<and> map sr_season_number (r_seasons q) = [1, 2]"
proof -
  have ok: "ids_ok show_db" by code_simp
  obtain d' j where e: "demo_edit = Inr (d', j)"
    and two: "map (\<lambda>r. map sr_season_number (r_seasons r)) (request_table d') = [[1, 2]]"
    using demo_edit_seasons by (auto split: sum.splits)
  obtain user xs old q ys where f: "Some demo_viewer = Some user" "edits user 1 old q"
    "request_table show_db = xs @ old # ys" "request_table d' = xs @ q # ys"
    using edit_request_frame [OF e [unfolded demo_edit_def] ok] by blast
  have "xs = []" "ys = []" "old = show_request 1 1 2"
    using f(3) by (auto simp: show_db_def append_eq_Cons_conv Cons_eq_append_conv)
  then show ?thesis using f two by (intro exI [of _ q]) simp
qed

theorem change_status_moves_witness:
  "\<exists>r\<in>set (request_table made_db). r_id r = 1 \<and> r_status r = PENDING \<and>
     (\<exists>r'\<in>set (request_table declined_db). r_id r' = 1 \<and> r_status r' = DECLINED)"
proof -
  obtain answer fx where c: "change_status demo_printing demo_outside demo_env (fst demo_life) (Some demo_admin) 1 ''decline''
      = (snd demo_life, answer, fx)"
    unfolding demo_life_def Let_def by (simp only: fst_conv snd_conv) (metis prod.collapse)
  define r' where "r' = made_request\<lparr>r_status := DECLINED, r_modified_by_id := Some 1\<rparr>"
  have r': "r' \<in> set (request_table declined_db)" "r_id r' = 1" "r_status r' = DECLINED"
    by (simp_all add: r'_def declined_db_def made_request_def)
  have ok: "ids_ok made_db" by code_simp
  obtain r where "r \<in> set (request_table made_db)" "r_id r = 1" "r_status r = PENDING"
    using change_status_moves [OF c [simplified] ok r'(1)] r'
    by (auto simp: made_db_def made_request_def PENDING_def)
  then show ?thesis using r' by blast
qed

end
