(* ===== verification/Media_Save.thy ===== *)
theory Media_Save
  imports Lifecycle_Send
begin

section \<open>Saving a title\<close>

text \<open>
  \<open>src/backend-rs/src/routes/mediasave.rs\<close>: what a save of a media row writes, the approvals before it
  (\<open>before_update\<close>) and the completions after it (\<open>after_update\<close>, \<open>complete_related\<close>,
  \<open>settle_seasons\<close>). The request saves inside are \<open>save_entity\<close>. On SQLite; the statements of the
  transaction succeed. A \<open>library\<close> is the tables with the id the next season of a title gets; the
  statements for a title that is gone by then touch no row. Inserts into \<open>season\<close> append to the seasons
  of the title, which the queries list by id.
\<close>

record library =
  tables :: db
  next_season :: int

record fresh_season =
  fs_index :: nat
  fs_four_k :: bool

record media_edit =
  me_before :: media_row
  me_after :: media_row
  me_fresh :: "fresh_season list"

definition new_edit :: "media_row \<Rightarrow> media_edit" where
  "new_edit row = \<lparr>me_before = row, me_after = row, me_fresh = []\<rparr>"

definition with_season :: "bool \<Rightarrow> int \<Rightarrow> season_row \<Rightarrow> season_row" where
  "with_season four_k status s = (if four_k then s\<lparr>sn_status4k := status\<rparr> else s\<lparr>sn_status := status\<rparr>)"

text \<open>The first season of the number is changed, or a season is created behind the others.\<close>

definition edit_season :: "int \<Rightarrow> bool \<Rightarrow> int \<Rightarrow> media_edit \<Rightarrow> media_edit" where
  "edit_season number four_k status edit =
     (let after = me_after edit;
          seasons = m_seasons after
      in if list_ex (\<lambda>s. sn_season_number s = number) seasons
         then edit\<lparr>me_after := after\<lparr>m_seasons :=
                set_first (\<lambda>s. sn_season_number s = number) (with_season four_k status) seasons\<rparr>\<rparr>
         else edit\<lparr>me_fresh := me_fresh edit @ [\<lparr>fs_index = length seasons, fs_four_k = four_k\<rparr>],
                me_after := after\<lparr>m_seasons := seasons @ [with_season four_k status
                  \<lparr>sn_id = 0, sn_season_number = number, sn_status = 1, sn_status4k = 1, sn_created_at = None,
                   sn_updated_at = None, sn_media_id = Some (m_id after)\<rparr>]\<rparr>\<rparr>)"

definition reset_service_data :: "media_row \<Rightarrow> bool option \<Rightarrow> media_row" where
  "reset_service_data m four_k =
     (let m = (if four_k \<noteq> Some True
               then m\<lparr>m_service_id := None, m_external_service_id := None, m_external_service_slug := None,
                      m_rating_key := None, m_jellyfin_media_id := None\<rparr> else m)
      in if four_k \<noteq> Some False
         then m\<lparr>m_service_id4k := None, m_external_service_id4k := None, m_external_service_slug4k := None,
                m_rating_key4k := None, m_jellyfin_media_id4k := None\<rparr> else m)"

subsection \<open>What a save writes\<close>

datatype column_value = IntColumn "int option" | TextColumn "string option"

definition int_change :: "string \<Rightarrow> int option \<Rightarrow> int option \<Rightarrow> (string \<times> column_value) list" where
  "int_change col before after = (if after \<noteq> before then [(col, IntColumn after)] else [])"

definition text_change :: "string \<Rightarrow> string option \<Rightarrow> string option \<Rightarrow> (string \<times> column_value) list" where
  "text_change col before after = (if after \<noteq> before then [(col, TextColumn after)] else [])"

definition media_changes :: "media_row \<Rightarrow> media_row \<Rightarrow> (string \<times> column_value) list" where
  "media_changes b a =
     int_change ''status'' (Some (m_status b)) (Some (m_status a)) @
     int_change ''status4k'' (Some (m_status4k b)) (Some (m_status4k a)) @
     int_change ''serviceId'' (m_service_id b) (m_service_id a) @
     int_change ''serviceId4k'' (m_service_id4k b) (m_service_id4k a) @
     int_change ''externalServiceId'' (m_external_service_id b) (m_external_service_id a) @
     int_change ''externalServiceId4k'' (m_external_service_id4k b) (m_external_service_id4k a) @
     text_change ''externalServiceSlug'' (m_external_service_slug b) (m_external_service_slug a) @
     text_change ''externalServiceSlug4k'' (m_external_service_slug4k b) (m_external_service_slug4k a) @
     text_change ''imdbId'' (m_imdb_id b) (m_imdb_id a) @
     text_change ''lastSeasonChange'' (m_last_season_change b) (m_last_season_change a) @
     text_change ''mediaAddedAt'' (m_media_added_at b) (m_media_added_at a) @
     text_change ''ratingKey'' (m_rating_key b) (m_rating_key a) @
     text_change ''ratingKey4k'' (m_rating_key4k b) (m_rating_key4k a) @
     text_change ''jellyfinMediaId'' (m_jellyfin_media_id b) (m_jellyfin_media_id a) @
     text_change ''jellyfinMediaId4k'' (m_jellyfin_media_id4k b) (m_jellyfin_media_id4k a)"

text \<open>
  A date is bound as TypeORM writes it and read back by \<open>sqlite_datetime_to_iso\<close>; \<open>stored_date\<close> is
  what the row has then (every date the code sets is an ISO text, which comes back as it is).
\<close>

definition date_bind :: "string \<Rightarrow> string" where
  "date_bind text =
     (case parse_date_millis text of None \<Rightarrow> text | Some ms \<Rightarrow> typeorm_string (from_unix_millis ms))"

definition digits_or :: "char \<Rightarrow> nat \<Rightarrow> string \<Rightarrow> bool" where
  "digits_or sep len s \<longleftrightarrow> length s = len \<and> list_all (\<lambda>c. is_digit c \<or> c = sep) s"

definition split_at :: "(char \<Rightarrow> bool) \<Rightarrow> string \<Rightarrow> (string \<times> string) option" where
  "split_at p s = (case dropWhile (\<lambda>c. \<not> p c) s of
     [] \<Rightarrow> None | _ # rest \<Rightarrow> Some (takeWhile (\<lambda>c. \<not> p c) s, rest))"

definition sqlite_datetime_to_iso :: "string \<Rightarrow> string option" where
  "sqlite_datetime_to_iso text =
     (case split_at (\<lambda>c. c = CHR '' '' \<or> c = CHR ''T'') text of
        None \<Rightarrow> None
      | Some (day, time) \<Rightarrow>
          if \<not> digits_or CHR ''-'' 10 day then None
          else (let (clock, millis) = (case split_at (\<lambda>c. c = CHR ''.'') time of
                      None \<Rightarrow> (time, ''000'') | Some (c, m) \<Rightarrow> (c, m))
                in if \<not> digits_or CHR ''.'' 3 millis then None
                   else if digits_or CHR '':'' 5 clock
                   then Some (day @ ''T'' @ clock @ '':00'' @ ''.'' @ millis @ ''Z'')
                   else if digits_or CHR '':'' 8 clock
                   then Some (day @ ''T'' @ clock @ ''.'' @ millis @ ''Z'')
                   else None))"

definition stored_date :: "string option \<Rightarrow> string option" where
  "stored_date t = (case t of None \<Rightarrow> None
     | Some x \<Rightarrow> Some (unwrap_or x (sqlite_datetime_to_iso (date_bind x))))"

definition int_value :: "column_value \<Rightarrow> int option" where
  "int_value v = (case v of IntColumn x \<Rightarrow> x | TextColumn _ \<Rightarrow> None)"

definition text_value :: "column_value \<Rightarrow> string option" where
  "text_value v = (case v of TextColumn x \<Rightarrow> x | IntColumn _ \<Rightarrow> None)"

definition write_column :: "string \<times> column_value \<Rightarrow> media_row \<Rightarrow> media_row" where
  "write_column c m =
     (let (col, v) = c
      in if col = ''status'' then m\<lparr>m_status := unwrap_or (m_status m) (int_value v)\<rparr>
         else if col = ''status4k'' then m\<lparr>m_status4k := unwrap_or (m_status4k m) (int_value v)\<rparr>
         else if col = ''serviceId'' then m\<lparr>m_service_id := int_value v\<rparr>
         else if col = ''serviceId4k'' then m\<lparr>m_service_id4k := int_value v\<rparr>
         else if col = ''externalServiceId'' then m\<lparr>m_external_service_id := int_value v\<rparr>
         else if col = ''externalServiceId4k'' then m\<lparr>m_external_service_id4k := int_value v\<rparr>
         else if col = ''externalServiceSlug'' then m\<lparr>m_external_service_slug := text_value v\<rparr>
         else if col = ''externalServiceSlug4k'' then m\<lparr>m_external_service_slug4k := text_value v\<rparr>
         else if col = ''imdbId'' then m\<lparr>m_imdb_id := text_value v\<rparr>
         else if col = ''lastSeasonChange'' then m\<lparr>m_last_season_change := stored_date (text_value v)\<rparr>
         else if col = ''mediaAddedAt'' then m\<lparr>m_media_added_at := stored_date (text_value v)\<rparr>
         else if col = ''ratingKey'' then m\<lparr>m_rating_key := text_value v\<rparr>
         else if col = ''ratingKey4k'' then m\<lparr>m_rating_key4k := text_value v\<rparr>
         else if col = ''jellyfinMediaId'' then m\<lparr>m_jellyfin_media_id := text_value v\<rparr>
         else if col = ''jellyfinMediaId4k'' then m\<lparr>m_jellyfin_media_id4k := text_value v\<rparr>
         else m)"

text \<open>The created seasons get their rows and ids, in the order they were created.\<close>

fun insert_fresh ::
  "string option \<Rightarrow> int \<Rightarrow> fresh_season list \<Rightarrow> library \<Rightarrow> season_row list \<Rightarrow> library \<times> season_row list" where
  "insert_fresh stamp media_id [] lib seasons = (lib, seasons)"
| "insert_fresh stamp media_id (f # fs) lib seasons =
     (if length seasons \<le> fs_index f then insert_fresh stamp media_id fs lib seasons
      else let s = seasons ! fs_index f;
               i = next_season lib;
               row = \<lparr>sn_id = i, sn_season_number = sn_season_number s, sn_status = sn_status s,
                      sn_status4k = sn_status4k s, sn_created_at = stamp, sn_updated_at = stamp,
                      sn_media_id = Some media_id\<rparr>
           in insert_fresh stamp media_id fs
                \<lparr>tables = modify_media media_id (\<lambda>m. m\<lparr>m_seasons := m_seasons m @ [row]\<rparr>) (tables lib),
                 next_season = i + 1\<rparr>
                (seasons[fs_index f := s\<lparr>sn_id := i\<rparr>]))"

definition season_change :: "season_row list \<Rightarrow> season_row \<Rightarrow> season_row option" where
  "season_change before s =
     (case find (\<lambda>b. sn_id b = sn_id s) before of
        None \<Rightarrow> None
      | Some b \<Rightarrow> if sn_status b = sn_status s \<and> sn_status4k b = sn_status4k s then None else Some b)"

text \<open>Only the status columns that differ are set.\<close>

definition update_season :: "string option \<Rightarrow> season_row \<Rightarrow> season_row \<Rightarrow> db \<Rightarrow> db" where
  "update_season stamp b s =
     modify_season (sn_id s) (\<lambda>x. x\<lparr>
       sn_status := (if sn_status b \<noteq> sn_status s then sn_status s else sn_status x),
       sn_status4k := (if sn_status4k b \<noteq> sn_status4k s then sn_status4k s else sn_status4k x),
       sn_updated_at := stamp\<rparr>)"

definition update_seasons :: "string option \<Rightarrow> season_row list \<Rightarrow> season_row list \<Rightarrow> db \<Rightarrow> db" where
  "update_seasons stamp before after d =
     fold (\<lambda>s d. case season_change before s of None \<Rightarrow> d | Some b \<Rightarrow> update_season stamp b s d) after d"

definition detach_season :: "int \<Rightarrow> db \<Rightarrow> db" where
  "detach_season i d = d\<lparr>media_table := map (\<lambda>m. m\<lparr>m_seasons :=
     filter (\<lambda>s. sn_id s \<noteq> i) (m_seasons m)\<rparr>) (media_table d)\<rparr>"

definition write_media_rows ::
  "string option \<Rightarrow> library \<Rightarrow> media_edit \<Rightarrow> (string \<times> column_value) list \<Rightarrow> int list
     \<Rightarrow> library \<times> media_edit \<times> int list" where
  "write_media_rows stamp lib edit changes orphans =
     (let media_id = m_id (me_after edit);
          (lib, seasons) = insert_fresh stamp media_id (me_fresh edit) lib (m_seasons (me_after edit));
          edit = edit\<lparr>me_after := (me_after edit)\<lparr>m_seasons := seasons\<rparr>\<rparr>;
          d = (if changes = [] then tables lib
               else modify_media media_id (\<lambda>m. (fold write_column changes m)\<lparr>m_updated_at := stamp\<rparr>) (tables lib));
          before = m_seasons (me_before edit);
          touched = List.map_filter (\<lambda>f. if fs_index f < length seasons then Some (sn_id (seasons ! fs_index f)) else None)
                (me_fresh edit) @
              map sn_id (filter (\<lambda>s. season_change before s \<noteq> None) seasons);
          d = fold detach_season orphans (update_seasons stamp before seasons d)
      in (lib\<lparr>tables := d\<rparr>, edit, touched))"

definition reload_season :: "season_row list \<Rightarrow> int list \<Rightarrow> season_row \<Rightarrow> season_row" where
  "reload_season stored touched s =
     (if sn_id s \<notin> set touched then s
      else (case find (\<lambda>x. sn_id x = sn_id s) stored of
        None \<Rightarrow> s
      | Some x \<Rightarrow>
          let s = s\<lparr>sn_updated_at := sn_updated_at x\<rparr>
          in if sn_created_at s = None
             then s\<lparr>sn_created_at := sn_created_at x, sn_status := sn_status x, sn_status4k := sn_status4k x\<rparr>
             else s))"

definition write_media ::
  "string option \<Rightarrow> library \<Rightarrow> media_edit \<Rightarrow> (string \<times> column_value) list \<Rightarrow> int list \<Rightarrow> library \<times> media_edit" where
  "write_media stamp lib edit changes orphans =
     (let (lib, edit, touched) = write_media_rows stamp lib edit changes orphans
      in if changes = [] \<and> touched = [] then (lib, edit)
         else (case media_by_id (tables lib) (m_id (me_after edit)) of
           None \<Rightarrow> (lib, edit)
         | Some stored \<Rightarrow>
             let after = me_after edit;
                 after = (if changes \<noteq> [] then after\<lparr>m_updated_at := m_updated_at stored\<rparr> else after)
             in (lib, edit\<lparr>me_after := after\<lparr>m_seasons :=
                  map (reload_season (m_seasons stored) touched) (m_seasons after)\<rparr>\<rparr>)))"

subsection \<open>The hooks of the save\<close>

definition load_requests :: "db \<Rightarrow> int \<Rightarrow> (request_row \<Rightarrow> bool) \<Rightarrow> entity list" where
  "load_requests d media_id p =
     List.map_filter (load_entity d) (map r_id (sort_key r_id (filter p (requests_of_media d media_id))))"

fun save_entities :: "outside \<Rightarrow> env \<Rightarrow> entity list \<Rightarrow> db \<Rightarrow> db \<times> effect list" where
  "save_entities out env [] d = (d, [])"
| "save_entities out env (e # es) d =
     (let (d, _, fx) = save_entity out env d e;
          (d, fx') = save_entities out env es d
      in (d, fx @ fx'))"

definition approve_children :: "outside \<Rightarrow> env \<Rightarrow> int \<Rightarrow> bool \<Rightarrow> db \<Rightarrow> db \<times> effect list" where
  "approve_children out env media_id four_k d =
     save_entities out env (map (with_request_status APPROVED)
       (filter (\<lambda>e. r_is4k (en_row e) = four_k \<and> r_status (en_row e) = PENDING)
         (load_requests d media_id (\<lambda>_. True)))) d"

definition approve_quality :: "outside \<Rightarrow> env \<Rightarrow> media_edit \<Rightarrow> bool \<Rightarrow> db \<Rightarrow> db \<times> effect list" where
  "approve_quality out env edit four_k d =
     (if status_of (me_after edit) four_k = M_AVAILABLE \<and> status_of (me_before edit) four_k = M_PENDING
      then approve_children out env (m_id (me_after edit)) four_k d else (d, []))"

definition media_before_update ::
  "outside \<Rightarrow> env \<Rightarrow> media_edit \<Rightarrow> db \<Rightarrow> db \<times> season_row list \<times> effect list" where
  "media_before_update out env edit d =
     (let (d, fx) = approve_quality out env edit False d;
          (d, fx') = approve_quality out env edit True d
      in (d, (case media_by_id d (m_id (me_after edit)) of None \<Rightarrow> [] | Some m \<Rightarrow> m_seasons m), fx @ fx'))"

text \<open>One requested season: the row, whether it is ready, and whether it turned completed.\<close>

definition settle_season ::
  "season_row list \<Rightarrow> season_row list \<Rightarrow> bool \<Rightarrow> season_request_row \<Rightarrow> season_request_row \<times> bool \<times> bool" where
  "settle_season after before key s =
     (if sr_status s = FAILED then (s, True, False)
      else (case find (\<lambda>x. sn_season_number x = sr_season_number s) after of
        None \<Rightarrow> (s, False, False)
      | Some this \<Rightarrow>
          let previous = map_option (season_status key) (find (\<lambda>x. sn_season_number x = sr_season_number s) before);
              now = season_status key this
          in if (Some now \<noteq> previous \<or> sr_status s = COMPLETED) \<and> (now = M_AVAILABLE \<or> now = M_DELETED)
             then (s\<lparr>sr_status := COMPLETED\<rparr>, True, sr_status s \<noteq> COMPLETED)
             else (s, False, False)))"

definition settle_seasons ::
  "season_request_row list \<Rightarrow> season_row list \<Rightarrow> season_row list \<Rightarrow> bool \<Rightarrow> season_request_row list \<times> bool \<times> bool" where
  "settle_seasons asked after before key =
     (let all_failed = (asked \<noteq> [] \<and> list_all (\<lambda>s. sr_status s = FAILED) asked);
          each = map (settle_season after before key) asked
      in (map fst each, \<not> all_failed \<and> list_all (\<lambda>(_, ready, _). ready) each, list_ex (\<lambda>(_, _, touched). touched) each))"

datatype settled = Leave | Store entity | Finish entity

definition settle_entity :: "media_row \<Rightarrow> season_row list \<Rightarrow> entity \<Rightarrow> settled" where
  "settle_entity after before e =
     (let key = r_is4k (en_row e)
      in if (status_of after key = M_AVAILABLE \<or> status_of after key = M_DELETED) \<and> m_media_type after = ''movie''
         then Finish (with_request_status COMPLETED e)
         else if m_media_type after = ''tv'' \<and> r_episodes (en_row e) = [] then
           let (seasons, ready, touched) = settle_seasons (r_seasons (en_row e)) (m_seasons after) before key;
               e = e\<lparr>en_row := (en_row e)\<lparr>r_seasons := seasons\<rparr>\<rparr>
           in if ready then Finish (with_request_status COMPLETED e)
              else if touched then Store e else Leave
         else Leave)"

text \<open>The loop of \<open>complete_related\<close>: what is settled in part is saved at once, what is done is collected.\<close>

fun settle_entities ::
  "outside \<Rightarrow> env \<Rightarrow> media_row \<Rightarrow> season_row list \<Rightarrow> entity list \<Rightarrow> db \<Rightarrow> db \<times> entity list \<times> effect list" where
  "settle_entities out env after before [] d = (d, [], [])"
| "settle_entities out env after before (e # es) d =
     (case settle_entity after before e of
        Leave \<Rightarrow> settle_entities out env after before es d
      | Store e' \<Rightarrow>
          (let (d, _, fx) = save_entity out env d e';
               (d, done', fx') = settle_entities out env after before es d
           in (d, done', fx @ fx'))
      | Finish e' \<Rightarrow>
          (let (d, done', fx) = settle_entities out env after before es d in (d, e' # done', fx)))"

definition complete_related ::
  "outside \<Rightarrow> env \<Rightarrow> media_row \<Rightarrow> season_row list \<Rightarrow> bool \<Rightarrow> db \<Rightarrow> db \<times> effect list" where
  "complete_related out env after before four_k d =
     (let entities = load_requests d (m_id after)
            (\<lambda>r. (r_status r = APPROVED \<or> r_status r = FAILED) \<and> r_is4k r = four_k);
          (d, done', fx) = settle_entities out env after before entities d;
          (d, fx') = save_entities out env done' d
      in (d, fx @ fx'))"

definition seasons_changed :: "bool \<Rightarrow> season_row list \<Rightarrow> season_row list \<Rightarrow> bool" where
  "seasons_changed four_k after before \<longleftrightarrow>
     list_ex (\<lambda>(i, s). Some (season_status four_k s) \<noteq>
       (if i < length before then Some (season_status four_k (before ! i)) else None)) (List.enumerate 0 after)"

definition complete_quality ::
  "outside \<Rightarrow> env \<Rightarrow> media_edit \<Rightarrow> season_row list \<Rightarrow> bool \<Rightarrow> db \<Rightarrow> db \<times> effect list" where
  "complete_quality out env edit before four_k d =
     (let after = me_after edit;
          changed = (status_of after four_k \<noteq> status_of (me_before edit) four_k);
          now = status_of after four_k
      in if (changed \<or> (m_media_type after = ''tv'' \<and> seasons_changed four_k (m_seasons after) before)) \<and>
            (now = M_PARTIAL \<or> now = M_AVAILABLE \<or> now = M_DELETED)
         then complete_related out env after before four_k d else (d, []))"

definition media_after_update ::
  "outside \<Rightarrow> env \<Rightarrow> media_edit \<Rightarrow> season_row list \<Rightarrow> db \<Rightarrow> db \<times> effect list" where
  "media_after_update out env edit before d =
     (let (d, fx) = complete_quality out env edit before False d;
          (d, fx') = complete_quality out env edit before True d
      in (d, fx @ fx'))"

definition save_media ::
  "outside \<Rightarrow> env \<Rightarrow> library \<Rightarrow> media_edit \<Rightarrow> int list \<Rightarrow> library \<times> media_edit \<times> effect list" where
  "save_media out env lib edit orphans =
     (let changes = media_changes (me_before edit) (me_after edit);
          (d, seasons, fx) = (if changes \<noteq> [] then media_before_update out env edit (tables lib)
                              else (tables lib, [], []));
          (lib, edit) = write_media (e_stamp env) (lib\<lparr>tables := d\<rparr>) edit changes orphans;
          (d, fx') = (if changes \<noteq> [] then media_after_update out env edit seasons (tables lib)
                      else (tables lib, []))
      in (lib\<lparr>tables := d\<rparr>, edit, fx @ fx'))"

subsection \<open>The answer\<close>

definition fresh_season_json :: "season_row \<Rightarrow> bool \<Rightarrow> json" where
  "fresh_season_json s four_k =
     JObj (put_entries
       ([(''seasonNumber'', JInt (sn_season_number s))] @
        (if four_k then [(''status4k'', JInt (sn_status4k s)), (''id'', JInt (sn_id s)), (''status'', JInt (sn_status s))]
         else [(''status'', JInt (sn_status s)), (''id'', JInt (sn_id s)), (''status4k'', JInt (sn_status4k s))]) @
        [(''createdAt'', j_text (sn_created_at s)), (''updatedAt'', j_text (sn_updated_at s))]) [])"

definition saved_json :: "(json \<Rightarrow> string) \<Rightarrow> bool \<Rightarrow> media_edit \<Rightarrow> json \<Rightarrow> downloads \<Rightarrow> json" where
  "saved_json num plugin edit settings items =
     (let json = media_json num plugin (me_after edit) settings items True;
          seasons = map (\<lambda>(i, s). case find (\<lambda>f. fs_index f = i) (me_fresh edit) of
            None \<Rightarrow> season_json s | Some f \<Rightarrow> fresh_season_json s (fs_four_k f))
            (List.enumerate 0 (m_seasons (me_after edit)))
      in case json of JObj obj \<Rightarrow> JObj (obj_insert ''seasons'' (JArr seasons) obj) | _ \<Rightarrow> json)"

end
