(* ===== verification/Media_Save_Props.thy ===== *)
theory Media_Save_Props
  imports Request_Guards Media_Save
begin

section \<open>What saving a title does to its requests\<close>

text \<open>
  \<open>standings\<close>: of every request the title and quality it asks for, and its status. Saves of requests that
  are not approved change just the status of their own row, so the completions of a title's save can be
  told exactly; for its approvals the moves of \<open>Request_Guards\<close> are enough.
\<close>

definition standings :: "db \<Rightarrow> ((int \<times> int option \<times> bool) \<times> int) list" where
  "standings d = map (\<lambda>r. (asked_for r, r_status r)) (request_table d)"

definition restate :: "int set \<Rightarrow> int \<Rightarrow> (int \<times> int option \<times> bool) \<times> int \<Rightarrow> (int \<times> int option \<times> bool) \<times> int" where
  "restate ids status x = (if fst (fst x) \<in> ids then (fst x, status) else x)"

definition one_each :: "db \<Rightarrow> bool" where
  "one_each d \<longleftrightarrow> distinct (map r_id (request_table d))"

lemma one_each_standings: "one_each d \<longleftrightarrow> distinct (map (fst \<circ> fst) (standings d))"
  by (simp add: one_each_def standings_def comp_def asked_for_def)

lemma ids_ok_one_each: "ids_ok d \<Longrightarrow> one_each d"
  by (simp add: ids_ok_def fresh_def one_each_def)

lemma find_distinct: "distinct (map f xs) \<Longrightarrow> x \<in> set xs \<Longrightarrow> find (\<lambda>y. f y = f x) xs = Some x"
  by (induction xs) (auto intro: rev_image_eqI)

lemma one_each_found: "one_each d \<Longrightarrow> r \<in> set (request_table d) \<Longrightarrow> request_by_id d (r_id r) = Some r"
  unfolding one_each_def request_by_id_def by (rule find_distinct)

lemma one_each_same:
  assumes "one_each d" "q \<in> set (request_table d)" "r \<in> set (request_table d)" "r_id q = r_id r"
  shows "q = r"
  using assms unfolding one_each_def distinct_map by (blast dest: inj_onD)

lemma standings_map:
  "request_table d' = map f (request_table d) \<Longrightarrow> (\<And>r. asked_for (f r) = asked_for r \<and> r_status (f r) = r_status r) \<Longrightarrow>
    standings d' = standings d"
  by (simp add: standings_def)

lemma standings_media [simp]: "standings (modify_media i f d) = standings d"
  by (simp add: standings_def modify_media_def)

lemma standings_season [simp]: "standings (modify_season i f d) = standings d"
  by (simp add: standings_def modify_season_def)

lemma standings_season_request [simp]: "standings (modify_season_request i f d) = standings d"
  by (rule standings_map [of _ "\<lambda>r. r\<lparr>r_seasons := map (\<lambda>s. if sr_id s = i then f s else s) (r_seasons r)\<rparr>"])
    (simp_all add: modify_season_request_def Let_def asked_for_def)

lemma standings_episode [simp]: "standings (modify_episode i f d) = standings d"
  by (rule standings_map [of _ "\<lambda>r. r\<lparr>r_episodes := map (\<lambda>s. if er_id s = i then f s else s) (r_episodes r)\<rparr>"])
    (simp_all add: modify_episode_def asked_for_def)

lemma standings_fold: "(\<And>x d. standings (f x d) = standings d) \<Longrightarrow> standings (fold f xs d) = standings d"
  by (induction xs arbitrary: d) simp_all

lemma standings_set_media [simp]: "standings (set_media_status stamp m four s d) = standings d"
  by (simp add: set_media_status_def)

lemma standings_set_season [simp]: "standings (set_season_status stamp m four s d) = standings d"
  by (simp add: set_season_status_def)

lemma standings_write_seasons [simp]: "standings (write_season_statuses stamp row stored d) = standings d"
  unfolding write_season_statuses_def by (rule standings_fold) simp

lemma standings_write_episodes [simp]: "standings (write_episode_statuses stamp row stored d) = standings d"
  unfolding write_episode_statuses_def by (rule standings_fold) simp

lemma standings_write_children [simp]: "standings (fst (write_rows stamp d row stored False)) = standings d"
  by (simp add: write_rows_def Let_def)

lemma standings_decline [simp]: "standings (decline_season stamp m media row s d) = standings d"
  by (simp add: decline_season_def split: option.split)

lemma standings_children:
  assumes "standings d1 = standings d"
  shows "standings (fst (case x of None \<Rightarrow> (d1, r) | Some stored \<Rightarrow>
    (fst (write_rows stamp d1 r stored False), reload_dates (fst (write_rows stamp d1 r stored False)) r False))) = standings d"
  using assms by (simp split: option.split)

lemma standings_if: "standings a = standings d \<Longrightarrow> standings b = standings d \<Longrightarrow> standings (if c then a else b) = standings d"
  by simp

lemma standings_update_parent: "standings (fst (update_parent_status stamp d row)) = standings d"
proof (cases "Option.bind (r_media_id row) (media_by_id d)")
  case None
  then show ?thesis by (cases "r_media_id row") (simp_all add: update_parent_status_def)
next
  case (Some media)
  then obtain m where m: "r_media_id row = Some m" "media_by_id d m = Some media" by (auto split: bind_splits)
  have declined: "standings (fold (decline_season stamp i media row) xs d1) = standings d1" for i xs d1
    by (rule standings_fold) simp
  show ?thesis
    unfolding update_parent_status_def m option.case Let_def
    by (intro standings_children standings_if) (simp_all add: declined)
qed

subsection \<open>One save\<close>

lemma standings_modify:
  assumes "\<And>r. asked_for (f r) = asked_for r \<and> r_status (f r) = s"
  shows "standings (modify_request i f d) = map (restate {i} s) (standings d)"
  using assms by (simp add: standings_def modify_request_def restate_def asked_for_def)

lemma restate_idle:
  assumes "\<And>r. r \<in> set (request_table d) \<Longrightarrow> r_id r \<in> ids \<Longrightarrow> r_status r = s"
  shows "map (restate ids s) (standings d) = standings d"
  by (auto simp: standings_def restate_def asked_for_def intro!: assms [symmetric] dest: assms)

lemma save_request_standings:
  assumes s: "save_request stamp d row True = (d', row', c)" and one: "one_each d"
  shows "standings d' = map (restate {r_id row} (r_status row)) (standings d)"
proof (cases "request_by_id d (r_id row)")
  case None
  then have "r_id r \<noteq> r_id row" if "r \<in> set (request_table d)" for r
    using that by (auto simp: request_by_id_def find_None_iff)
  then show ?thesis using s None restate_idle [of d "{r_id row}"] by (auto simp: save_request_def)
next
  case (Some stored)
  have same: "r = stored" if "r \<in> set (request_table d)" "r_id r = r_id row" for r
    using one_each_found [OF one that(1)] that(2) Some by simp
  have d': "d' = fst (write_rows stamp d row stored True)"
    using s Some by (auto simp: save_request_def Let_def split_def)
  show ?thesis
  proof (cases "r_status stored \<noteq> r_status row \<or> r_modified_by_id stored \<noteq> r_modified_by_id row")
    case True
    then show ?thesis
      by (simp add: d' write_rows_def Let_def) (rule standings_modify, simp add: asked_for_def)
  next
    case False
    then have "standings d' = standings d" by (simp add: d' write_rows_def Let_def)
    moreover have "map (restate {r_id row} (r_status row)) (standings d) = standings d"
      by (rule restate_idle) (use same False in auto)
    ultimately show ?thesis by simp
  qed
qed

lemma save_settled_standings:
  assumes s: "save_settled env d e = (d', e', fx)" and one: "one_each d"
  shows "standings d' = map (restate {r_id (en_row e)} (r_status (en_row e))) (standings d)"
proof -
  obtain d1 row c where w: "save_request (e_stamp env) d (en_row e) True = (d1, row, c)" by (metis prod_cases3)
  note k = save_request_standings [OF w one]
  have "standings d' = standings d1"
    using s standings_update_parent
    by (cases c) (auto simp: save_settled_def settled_update_def w Let_def split_def split: prod.splits)
  then show ?thesis using k by simp
qed

lemma restate_one_each:
  assumes "standings d' = map (restate ids s) (standings d)" "one_each d"
  shows "one_each d'"
proof -
  have "map (fst \<circ> fst) (standings d') = map (fst \<circ> fst) (standings d)"
    by (auto simp: assms(1) restate_def)
  then show ?thesis using assms(2) by (simp only: one_each_standings)
qed

lemma restate_restate: "restate J s (restate I s x) = restate (I \<union> J) s x"
  by (auto simp: restate_def)

lemma save_entities_standings:
  assumes "save_entities out env es d = (d', fx)" "\<forall>e\<in>set es. r_status (en_row e) = s" "s \<noteq> APPROVED" "one_each d"
  shows "standings d' = map (restate (set (map (\<lambda>e. r_id (en_row e)) es)) s) (standings d)"
  using assms(1,2,4)
proof (induction es arbitrary: d d' fx)
  case Nil
  then show ?case using restate_idle [of d "{}"] by simp
next
  case (Cons e es)
  obtain d1 e1 f1 where a: "save_entity out env d e = (d1, e1, f1)" by (metis prod_cases3)
  obtain d2 f2 where b: "save_entities out env es d1 = (d2, f2)" by (metis surj_pair)
  have d': "d' = d2" using Cons.prems(1) by (simp add: a b)
  have "r_status (en_row e) \<noteq> APPROVED" using Cons.prems(2) assms(3) by simp
  then have "save_settled env d e = (d1, e1, f1)" using a save_settled_eq by simp
  note one = save_settled_standings [OF this Cons.prems(3)]
  have r: "r_status (en_row e) = s" using Cons.prems(2) by simp
  have "standings d2 = map (restate (set (map (\<lambda>e. r_id (en_row e)) es)) s) (standings d1)"
    by (rule Cons.IH [OF b]) (use Cons.prems(2) restate_one_each [OF one Cons.prems(3)] in auto)
  then show ?case by (simp add: d' one r restate_restate)
qed

subsection \<open>The requests a save loads\<close>

lemma load_requests_rows:
  assumes one: "one_each d" and e: "e \<in> set (load_requests d m p)"
  obtains r where "r \<in> set (request_table d)" "r_media_id r = Some m" "p r" "en_row e = loaded_row r"
proof -
  obtain r where r: "r \<in> set (request_table d)" "r_media_id r = Some m" "p r" "load_entity d (r_id r) = Some e"
    using e by (auto simp: load_requests_def requests_of_media_def List.map_filter_def)
  obtain r' where "request_by_id d (r_id r) = Some r'" "en_row e = loaded_row r'" by (rule load_entity_row [OF r(4)])
  then have "en_row e = loaded_row r" using one_each_found [OF one r(1)] by simp
  then show ?thesis using that r by blast
qed

lemma load_requests_ids:
  assumes one: "one_each d"
  shows "set (map (\<lambda>e. r_id (en_row e)) (load_requests d m p)) = {i. \<exists>r\<in>set (request_table d). r_id r = i \<and> r_media_id r = Some m \<and> p r}"
proof -
  have "\<exists>e\<in>set (load_requests d m p). r_id (en_row e) = r_id r"
    if "r \<in> set (request_table d)" "r_media_id r = Some m" "p r" for r
  proof -
    have "request_by_id d (r_id r) = Some r" by (rule one_each_found [OF one that(1)])
    then obtain e where e: "load_entity d (r_id r) = Some e" "en_row e = loaded_row r" by (simp add: load_entity_def)
    then show ?thesis
      using that by (intro bexI [of _ e]) (force simp: load_requests_def requests_of_media_def List.map_filter_def)+
  qed
  note found = this
  show ?thesis
  proof (intro set_eqI iffI)
    fix i assume "i \<in> set (map (\<lambda>e. r_id (en_row e)) (load_requests d m p))"
    then obtain e where e: "e \<in> set (load_requests d m p)" "i = r_id (en_row e)" by auto
    obtain r where "r \<in> set (request_table d)" "r_media_id r = Some m" "p r" "en_row e = loaded_row r"
      by (rule load_requests_rows [OF one e(1)])
    then show "i \<in> {i. \<exists>r\<in>set (request_table d). r_id r = i \<and> r_media_id r = Some m \<and> p r}" using e(2) by auto
  next
    fix i assume "i \<in> {i. \<exists>r\<in>set (request_table d). r_id r = i \<and> r_media_id r = Some m \<and> p r}"
    then obtain r where "r \<in> set (request_table d)" "r_media_id r = Some m" "p r" "r_id r = i" by auto
    then show "i \<in> set (map (\<lambda>e. r_id (en_row e)) (load_requests d m p))" using found [of r] by (auto intro: rev_image_eqI)
  qed
qed

subsection \<open>Films\<close>

lemma settle_films:
  assumes "m_media_type after = ''movie''"
    and "\<forall>e\<in>set es. status_of after (r_is4k (en_row e)) = M_AVAILABLE \<or> status_of after (r_is4k (en_row e)) = M_DELETED"
  shows "settle_entities out env after before es d = (d, map (with_request_status COMPLETED) es, [])"
  using assms(2) by (induction es) (simp_all add: settle_entity_def assms(1))

text \<open>The completions of one quality: exactly the approved and the failed requests of the title.\<close>

lemma complete_film:
  assumes c: "complete_related out env after before k d = (d', fx)" and one: "one_each d"
    and m: "m_media_type after = ''movie''" "status_of after k = M_AVAILABLE \<or> status_of after k = M_DELETED"
  shows "standings d' = map (\<lambda>x. if snd (fst x) = (Some (m_id after), k) \<and> (snd x = APPROVED \<or> snd x = FAILED)
    then (fst x, COMPLETED) else x) (standings d)"
proof -
  define p where "p r = ((r_status r = APPROVED \<or> r_status r = FAILED) \<and> r_is4k r = k)" for r :: request_row
  define es where "es = load_requests d (m_id after) p"
  define ids where "ids = set (map (\<lambda>e. r_id (en_row e)) es)"
  have quality: "r_is4k (en_row e) = k" if "e \<in> set es" for e
    by (rule load_requests_rows [OF one that [unfolded es_def]]) (simp add: p_def)
  have settled: "settle_entities out env after before es d = (d, map (with_request_status COMPLETED) es, [])"
    by (rule settle_films [OF m(1)]) (use quality m(2) in auto)
  have saved: "save_entities out env (map (with_request_status COMPLETED) es) d = (d', fx)"
    using c settled unfolding complete_related_def Let_def p_def [symmetric, abs_def] es_def [symmetric]
    by (simp split: prod.splits)
  have "standings d' = map (restate ids COMPLETED) (standings d)"
    using save_entities_standings [OF saved _ _ one, of COMPLETED]
    by (simp add: with_request_status_def ids_def comp_def COMPLETED_def APPROVED_def)
  moreover have "restate ids COMPLETED (asked_for r, r_status r) =
      (if r_media_id r = Some (m_id after) \<and> r_is4k r = k \<and> (r_status r = APPROVED \<or> r_status r = FAILED)
       then (asked_for r, COMPLETED) else (asked_for r, r_status r))" if r: "r \<in> set (request_table d)" for r
  proof -
    have "r_id r \<in> ids \<longleftrightarrow> r_media_id r = Some (m_id after) \<and> p r"
    proof
      assume "r_id r \<in> ids"
      then obtain q where q: "q \<in> set (request_table d)" "r_id q = r_id r" "r_media_id q = Some (m_id after)" "p q"
        unfolding ids_def es_def load_requests_ids [OF one] mem_Collect_eq by (elim bexE conjE)
      have "q = r" by (rule one_each_same [OF one q(1) r q(2)])
      then show "r_media_id r = Some (m_id after) \<and> p r" using q by simp
    next
      assume "r_media_id r = Some (m_id after) \<and> p r"
      then show "r_id r \<in> ids"
        unfolding ids_def es_def load_requests_ids [OF one] mem_Collect_eq by (intro bexI [OF _ r]) simp
    qed
    then show ?thesis by (auto simp: restate_def asked_for_def p_def)
  qed
  ultimately show ?thesis by (auto simp: standings_def asked_for_def)
qed

text \<open>\<open>film_done edit k\<close>: what the save of a film leaves of one standing of quality \<open>k\<close>.\<close>

definition turns_done :: "media_edit \<Rightarrow> bool \<Rightarrow> bool" where
  "turns_done edit k \<longleftrightarrow> status_of (me_after edit) k \<noteq> status_of (me_before edit) k \<and>
     status_of (me_after edit) k \<in> {M_AVAILABLE, M_DELETED}"

definition film_done ::
  "media_edit \<Rightarrow> bool \<Rightarrow> (int \<times> int option \<times> bool) \<times> int \<Rightarrow> (int \<times> int option \<times> bool) \<times> int" where
  "film_done edit k x =
     (if turns_done edit k \<and> snd (fst x) = (Some (m_id (me_after edit)), k) \<and> (snd x = APPROVED \<or> snd x = FAILED)
      then (fst x, COMPLETED) else x)"

lemma settle_partial_film:
  assumes "m_media_type after = ''movie''" "status_of after k \<notin> {M_AVAILABLE, M_DELETED}" "\<forall>e\<in>set es. r_is4k (en_row e) = k"
  shows "settle_entities out env after before es d = (d, [], [])"
  using assms(3) by (induction es) (use assms(1,2) in \<open>auto simp: settle_entity_def\<close>)

lemma complete_film_quality:
  assumes c: "complete_quality out env edit before k d = (d', fx)" and one: "one_each d"
    and m: "m_media_type (me_after edit) = ''movie''"
  shows "standings d' = map (film_done edit k) (standings d)"
proof (cases "turns_done edit k")
  case True
  then have "complete_related out env (me_after edit) before k d = (d', fx)"
    using c by (auto simp: complete_quality_def turns_done_def)
  note complete_film [OF this one m]
  moreover have "status_of (me_after edit) k = M_AVAILABLE \<or> status_of (me_after edit) k = M_DELETED"
    using True by (auto simp: turns_done_def)
  moreover have "film_done edit k = (\<lambda>x. if snd (fst x) = (Some (m_id (me_after edit)), k) \<and> (snd x = APPROVED \<or> snd x = FAILED)
      then (fst x, COMPLETED) else x)"
    using True by (auto simp: film_done_def)
  ultimately show ?thesis by simp
next
  case False
  have "d' = d"
  proof (cases "complete_quality out env edit before k d = complete_related out env (me_after edit) before k d")
    case True
    define es where "es = load_requests d (m_id (me_after edit))
      (\<lambda>r. (r_status r = APPROVED \<or> r_status r = FAILED) \<and> r_is4k r = k)"
    have q: "\<forall>e\<in>set es. r_is4k (en_row e) = k"
      unfolding es_def by (intro ballI, erule load_requests_rows [OF one]) simp
    show ?thesis
    proof (cases "status_of (me_after edit) k = status_of (me_before edit) k")
      case True
      then show ?thesis using c by (simp add: complete_quality_def m)
    next
      case neq: False
      have "settle_entities out env (me_after edit) before es d = (d, [], [])"
        by (rule settle_partial_film [OF m _ q]) (use False neq in \<open>simp add: turns_done_def\<close>)
      then show ?thesis
        using c True by (simp add: complete_related_def es_def [symmetric])
    qed
  next
    case False
    then show ?thesis using c by (auto simp: complete_quality_def Let_def split: if_splits)
  qed
  moreover have "film_done edit k = id" using False by (auto simp: film_done_def)
  ultimately show ?thesis by simp
qed

subsection \<open>The approvals before the save\<close>

lemma standings_subset:
  assumes "standings d' = map (restate {i} s) (standings d)" "r' \<in> set (request_table d')"
  shows "\<exists>r\<in>set (request_table d). asked_for r = asked_for r' \<and> r_status r' = (if r_id r' = i then s else r_status r)"
proof -
  have "(asked_for r', r_status r') \<in> set (standings d')" using assms(2) by (auto simp: standings_def)
  then obtain r where "r \<in> set (request_table d)" "(asked_for r', r_status r') = restate {i} s (asked_for r, r_status r)"
    by (auto simp: assms(1)) (auto simp: standings_def)
  then show ?thesis by (intro bexI [of _ r]) (auto simp: restate_def asked_for_def split: if_splits)
qed

lemma approve_one:
  assumes s: "save_entity out env d e = (d', e', fx)" and a: "r_status (en_row e) = APPROVED"
    and g: "good st d" and o: "open_at d (r_id (en_row e))"
    and p: "\<forall>r\<in>set (request_table d). r_id r = r_id (en_row e) \<longrightarrow> r_status r = PENDING"
  shows "good st d' \<and> (\<forall>r'\<in>set (request_table d'). \<exists>r\<in>set (request_table d). asked_for r = asked_for r' \<and>
    (if r_id r' = r_id (en_row e) then r_status r' \<in> {APPROVED, COMPLETED, FAILED} else r_status r' = r_status r))"
proof
  let ?i = "r_id (en_row e)"
  show "good st d'" by (rule save_entity_good [OF s g o])
  have one: "one_each d" using g by (simp add: good_def ids_ok_one_each)
  obtain d1 row c where w: "save_request (e_stamp env) d (en_row e) True = (d1, row, c)" by (metis prod_cases3)
  note k = save_request_standings [OF w one] and row = save_request_moves [OF w]
  have m: "moves ?i {COMPLETED, FAILED} d1 d'"
  proof (cases c)
    case True
    then have "after_update out env d1 (e\<lparr>en_row := row\<rparr>) = (d', e', fx)" using s w by (simp add: save_entity_def)
    from after_update_moves [OF this] show ?thesis using row a by simp
  next
    case False
    then show ?thesis using s w by (simp add: save_entity_def)
  qed
  show "\<forall>r'\<in>set (request_table d'). \<exists>r\<in>set (request_table d). asked_for r = asked_for r' \<and>
    (if r_id r' = ?i then r_status r' \<in> {APPROVED, COMPLETED, FAILED} else r_status r' = r_status r)"
  proof
    fix r' assume "r' \<in> set (request_table d')"
    then obtain r1 where r1: "r1 \<in> set (request_table d1)" "asked_for r1 = asked_for r'"
        "r_status r' = r_status r1 \<or> r_id r' = ?i \<and> r_status r' \<in> {COMPLETED, FAILED}"
      using m unfolding moves_def by blast
    obtain r where r: "r \<in> set (request_table d)" "asked_for r = asked_for r1"
        "r_status r1 = (if r_id r1 = ?i then r_status (en_row e) else r_status r)"
      using standings_subset [OF k r1(1)] by blast
    have "r_id r1 = r_id r'" using r1(2) by (simp add: asked_for_def)
    then show "\<exists>r\<in>set (request_table d). asked_for r = asked_for r' \<and>
        (if r_id r' = ?i then r_status r' \<in> {APPROVED, COMPLETED, FAILED} else r_status r' = r_status r)"
      using r r1 a by (intro bexI [OF _ r(1)]) auto
  qed
qed

text \<open>\<open>approved d d' ids\<close>: the requests of \<open>ids\<close> were approved, and perhaps more; the others stand as before.\<close>

definition approved_all :: "db \<Rightarrow> db \<Rightarrow> int set \<Rightarrow> bool" where
  "approved_all d d' ids \<longleftrightarrow> (\<forall>r'\<in>set (request_table d'). \<exists>r\<in>set (request_table d). asked_for r = asked_for r' \<and>
    (if r_id r' \<in> ids then r_status r' \<in> {APPROVED, COMPLETED, FAILED} else r_status r' = r_status r))"

lemma approved_all_none [simp]: "approved_all d d {}"
  by (auto simp: approved_all_def)

lemma approved_all_trans: "approved_all d d1 I \<Longrightarrow> approved_all d1 d2 J \<Longrightarrow> approved_all d d2 (I \<union> J)"
  unfolding approved_all_def
proof
  fix r'
  assume 1: "\<forall>r'\<in>set (request_table d1). \<exists>r\<in>set (request_table d). asked_for r = asked_for r' \<and>
      (if r_id r' \<in> I then r_status r' \<in> {APPROVED, COMPLETED, FAILED} else r_status r' = r_status r)"
    and 2: "\<forall>r'\<in>set (request_table d2). \<exists>r\<in>set (request_table d1). asked_for r = asked_for r' \<and>
      (if r_id r' \<in> J then r_status r' \<in> {APPROVED, COMPLETED, FAILED} else r_status r' = r_status r)"
    and r': "r' \<in> set (request_table d2)"
  obtain r1 where r1: "r1 \<in> set (request_table d1)" "asked_for r1 = asked_for r'"
      "if r_id r' \<in> J then r_status r' \<in> {APPROVED, COMPLETED, FAILED} else r_status r' = r_status r1"
    using 2 r' by blast
  obtain r where r: "r \<in> set (request_table d)" "asked_for r = asked_for r1"
      "if r_id r1 \<in> I then r_status r1 \<in> {APPROVED, COMPLETED, FAILED} else r_status r1 = r_status r"
    using 1 r1(1) by blast
  have "r_id r1 = r_id r'" using r1(2) by (simp add: asked_for_def)
  then show "\<exists>r\<in>set (request_table d). asked_for r = asked_for r' \<and>
      (if r_id r' \<in> I \<union> J then r_status r' \<in> {APPROVED, COMPLETED, FAILED} else r_status r' = r_status r)"
    using r r1 by (intro bexI [OF _ r(1)]) (auto split: if_splits)
qed

definition pending_at :: "db \<Rightarrow> int \<Rightarrow> bool" where
  "pending_at d i \<longleftrightarrow> (\<forall>r\<in>set (request_table d). r_id r = i \<longrightarrow> r_status r = PENDING)"

lemma pending_open: "pending_at d i \<Longrightarrow> open_at d i"
  by (auto simp: pending_at_def open_at_def list_all_iff is_open_def PENDING_def COMPLETED_def DECLINED_def)

lemma pending_still:
  assumes "approved_all d d' {j}" "pending_at d i" "i \<noteq> j"
  shows "pending_at d' i"
  unfolding pending_at_def
proof (intro ballI impI)
  fix r' assume r': "r' \<in> set (request_table d')" "r_id r' = i"
  then obtain r where r: "r \<in> set (request_table d)" "asked_for r = asked_for r'" "r_status r' = r_status r"
    using assms(1,3) unfolding approved_all_def by fastforce
  then have "r_id r = i" using r'(2) by (simp add: asked_for_def)
  then show "r_status r' = PENDING" using r assms(2) by (simp add: pending_at_def)
qed

lemma approve_entities:
  assumes "save_entities out env es d = (d', fx)" "\<forall>e\<in>set es. r_status (en_row e) = APPROVED"
    "distinct (map (\<lambda>e. r_id (en_row e)) es)" "good st d" "\<forall>e\<in>set es. pending_at d (r_id (en_row e))"
  shows "good st d' \<and> approved_all d d' (set (map (\<lambda>e. r_id (en_row e)) es))"
  using assms
proof (induction es arbitrary: d d' fx)
  case Nil
  then show ?case by simp
next
  case (Cons e es)
  obtain d1 e1 f1 where a: "save_entity out env d e = (d1, e1, f1)" by (metis prod_cases3)
  obtain d2 f2 where b: "save_entities out env es d1 = (d2, f2)" by (metis surj_pair)
  have d': "d' = d2" using Cons.prems(1) by (simp add: a b)
  have "good st d1 \<and> approved_all d d1 {r_id (en_row e)}"
    using approve_one [OF a _ Cons.prems(4)] Cons.prems(2,5) pending_open
    by (simp add: approved_all_def pending_at_def)
  then have one: "good st d1" "approved_all d d1 {r_id (en_row e)}" by simp_all
  have "\<forall>x\<in>set es. pending_at d1 (r_id (en_row x))"
    using Cons.prems(3,5) pending_still [OF one(2)] by (auto simp: image_iff)
  then have "good st d2 \<and> approved_all d1 d2 (set (map (\<lambda>e. r_id (en_row e)) es))"
    using Cons.IH [OF b] Cons.prems(2,3) one(1) by simp
  then show ?case using approved_all_trans [OF one(2)] d' by simp
qed

lemma map_filter_ids:
  assumes "\<forall>i\<in>set is. \<exists>e. load_entity d i = Some e \<and> r_id (en_row e) = i"
  shows "map (\<lambda>e. r_id (en_row e)) (List.map_filter (load_entity d) is) = is"
  using assms by (induction "is") (auto simp: List.map_filter_simps)

lemma load_requests_in_order:
  assumes one: "one_each d"
  shows "map (\<lambda>e. r_id (en_row e)) (load_requests d m p) = map r_id (sort_key r_id (filter p (requests_of_media d m)))"
  unfolding load_requests_def
proof (rule map_filter_ids, intro ballI)
  fix i assume "i \<in> set (map r_id (sort_key r_id (filter p (requests_of_media d m))))"
  then obtain r where "r \<in> set (request_table d)" "i = r_id r" by (auto simp: requests_of_media_def)
  then have "request_by_id d i = Some r" using one_each_found [OF one] by simp
  then show "\<exists>e. load_entity d i = Some e \<and> r_id (en_row e) = i"
    by (auto simp: load_entity_def dest: request_by_id_SomeD)
qed

lemma load_requests_distinct: "one_each d \<Longrightarrow> distinct (map (\<lambda>e. r_id (en_row e)) (load_requests d m p))"
proof -
  assume one: "one_each d"
  have "distinct (map r_id (filter p (requests_of_media d m)))"
    using one unfolding one_each_def requests_of_media_def filter_filter by (rule distinct_map_filter)
  then show ?thesis unfolding load_requests_in_order [OF one] by (simp add: distinct_map)
qed

definition pending_ids :: "db \<Rightarrow> int \<Rightarrow> bool \<Rightarrow> int set" where
  "pending_ids d m k =
     {i. \<exists>r\<in>set (request_table d). r_id r = i \<and> r_media_id r = Some m \<and> r_is4k r = k \<and> r_status r = PENDING}"

lemma approve_children_all:
  assumes a: "approve_children out env m k d = (d', fx)" and g: "good st d"
  shows "good st d' \<and> approved_all d d' (pending_ids d m k)"
proof -
  have one: "one_each d" using g by (simp add: good_def ids_ok_one_each)
  define es where "es = filter (\<lambda>e. r_is4k (en_row e) = k \<and> r_status (en_row e) = PENDING) (load_requests d m (\<lambda>_. True))"
  define as where "as = map (with_request_status APPROVED) es"
  have ids: "map (\<lambda>e. r_id (en_row e)) as = map (\<lambda>e. r_id (en_row e)) es"
    by (simp add: as_def with_request_status_def)
  have row: "\<exists>r\<in>set (request_table d). r_id r = r_id (en_row e) \<and> r_media_id r = Some m \<and> r_is4k r = k \<and> r_status r = PENDING"
    if "e \<in> set es" for e
  proof -
    have e: "e \<in> set (load_requests d m (\<lambda>_. True))" "r_is4k (en_row e) = k" "r_status (en_row e) = PENDING"
      using that by (simp_all add: es_def)
    obtain r where "r \<in> set (request_table d)" "r_media_id r = Some m" "en_row e = loaded_row r"
      by (rule load_requests_rows [OF one e(1)])
    then show ?thesis using e(2,3) by (intro bexI [of _ r]) simp_all
  qed
  have pend: "pending_at d (r_id (en_row e))" if e: "e \<in> set as" for e
  proof -
    have "r_id (en_row e) \<in> set (map (\<lambda>e. r_id (en_row e)) es)" using e unfolding ids [symmetric] by simp
    then obtain x where x: "x \<in> set es" "r_id (en_row e) = r_id (en_row x)" by auto
    obtain r where r: "r \<in> set (request_table d)" "r_id r = r_id (en_row e)" "r_status r = PENDING"
      using row [OF x(1)] x(2) by auto
    have "q = r" if "q \<in> set (request_table d)" "r_id q = r_id (en_row e)" for q
      by (rule one_each_same [OF one that(1) r(1)]) (simp add: that(2) r(2))
    then show ?thesis using r(3) by (auto simp: pending_at_def)
  qed
  have "distinct (map (\<lambda>e. r_id (en_row e)) as)"
    unfolding ids unfolding es_def by (rule distinct_map_filter [OF load_requests_distinct [OF one]])
  moreover have "save_entities out env as d = (d', fx)" using a by (simp add: approve_children_def as_def es_def)
  moreover have "\<forall>e\<in>set as. r_status (en_row e) = APPROVED" by (simp add: as_def with_request_status_def)
  ultimately have r: "good st d' \<and> approved_all d d' (set (map (\<lambda>e. r_id (en_row e)) as))"
    using approve_entities [OF _ _ _ g] pend by blast
  have "set (map (\<lambda>e. r_id (en_row e)) as) = pending_ids d m k"
  proof (intro set_eqI iffI)
    fix i assume "i \<in> set (map (\<lambda>e. r_id (en_row e)) as)"
    then show "i \<in> pending_ids d m k" unfolding ids using row by (auto simp: pending_ids_def)
  next
    fix i assume "i \<in> pending_ids d m k"
    then obtain r where r: "r \<in> set (request_table d)" "r_id r = i" "r_media_id r = Some m" "r_is4k r = k" "r_status r = PENDING"
      by (auto simp: pending_ids_def)
    have "i \<in> set (map (\<lambda>e. r_id (en_row e)) (load_requests d m (\<lambda>_. True)))"
      unfolding load_requests_ids [OF one] mem_Collect_eq by (intro bexI [OF _ r(1)]) (simp add: r)
    then obtain e where e: "e \<in> set (load_requests d m (\<lambda>_. True))" "r_id (en_row e) = i" by auto
    obtain q where q: "q \<in> set (request_table d)" "en_row e = loaded_row q" by (rule load_requests_rows [OF one e(1)])
    have "q = r" by (rule one_each_same [OF one q(1) r(1)]) (use q(2) e(2) r(2) in simp)
    then have "e \<in> set es" using e q r by (simp add: es_def)
    then show "i \<in> set (map (\<lambda>e. r_id (en_row e)) as)" unfolding ids using e(2) by auto
  qed
  then show ?thesis using r by simp
qed

lemma approve_quality_all:
  assumes a: "approve_quality out env edit k d = (d', fx)" and g: "good st d"
  shows "good st d' \<and> approved_all d d' (if status_of (me_after edit) k = M_AVAILABLE \<and> status_of (me_before edit) k = M_PENDING
    then pending_ids d (m_id (me_after edit)) k else {})"
  using a approve_children_all [OF _ g] g by (auto simp: approve_quality_def split: if_splits)

subsection \<open>The statements of the save\<close>

lemma request_table_media [simp]: "request_table (modify_media i f d) = request_table d"
  by (simp add: modify_media_def)

lemma request_table_season [simp]: "request_table (modify_season i f d) = request_table d"
  by (simp add: modify_season_def)

lemma quiet_insert_fresh:
  assumes "insert_fresh stamp m fs lib seasons = (lib', seasons')"
  shows "tables_quiet (tables lib) (tables lib') \<and> request_table (tables lib') = request_table (tables lib)"
  using assms
proof (induction stamp m fs lib seasons rule: insert_fresh.induct)
  case (2 stamp m f fs lib seasons)
  have q: "tables_quiet (tables lib) (modify_media m (\<lambda>x. x\<lparr>m_seasons := m_seasons x @ [row]\<rparr>) (tables lib))" for row
    by (rule quiet_media) simp
  show ?case
  proof (cases "length seasons \<le> fs_index f")
    case True
    then show ?thesis using 2 by simp
  next
    case False
    then show ?thesis using 2(2,3) tables_quiet_trans [OF q] by (simp add: Let_def) blast
  qed
qed simp

lemma quiet_detach: "tables_quiet d (detach_season i d)"
  by (simp add: tables_quiet_def detach_season_def list_all2_refl)

lemma write_column_id [simp]: "m_id (write_column c m) = m_id m"
  by (simp add: write_column_def split: prod.split)

lemma write_columns_id [simp]: "m_id (fold write_column cs m) = m_id m"
  by (induction cs arbitrary: m) simp_all

lemma rows_fold:
  assumes "\<And>x d. tables_quiet d (f x d) \<and> request_table (f x d) = request_table d"
  shows "tables_quiet d (fold f xs d) \<and> request_table (fold f xs d) = request_table d"
proof (induction xs arbitrary: d)
  case (Cons x xs)
  then show ?case using assms tables_quiet_trans by fastforce
qed simp

lemma update_seasons_rows:
  "tables_quiet d (update_seasons stamp before after d) \<and> request_table (update_seasons stamp before after d) = request_table d"
  unfolding update_seasons_def
  by (rule rows_fold) (simp add: update_season_def quiet_season split: option.split)

lemma detach_rows:
  "tables_quiet d (fold detach_season is d) \<and> request_table (fold detach_season is d) = request_table d"
  by (rule rows_fold) (simp add: quiet_detach, simp add: detach_season_def)

lemma write_media_frame:
  assumes w: "write_media stamp lib edit changes orphans = (lib', edit')"
  shows "tables_quiet (tables lib) (tables lib') \<and> request_table (tables lib') = request_table (tables lib) \<and>
    me_before edit' = me_before edit \<and> m_id (me_after edit') = m_id (me_after edit) \<and>
    m_media_type (me_after edit') = m_media_type (me_after edit) \<and>
    (\<forall>k. status_of (me_after edit') k = status_of (me_after edit) k)"
proof -
  obtain lib1 edit1 touched where r: "write_media_rows stamp lib edit changes orphans = (lib1, edit1, touched)"
    by (metis prod_cases3)
  obtain lib0 seasons where f: "insert_fresh stamp (m_id (me_after edit)) (me_fresh edit) lib (m_seasons (me_after edit)) = (lib0, seasons)"
    by (metis surj_pair)
  define d0 where "d0 = (if changes = [] then tables lib0 else modify_media (m_id (me_after edit))
    (\<lambda>m. (fold write_column changes m)\<lparr>m_updated_at := stamp\<rparr>) (tables lib0))"
  have d0: "tables_quiet (tables lib0) d0 \<and> request_table d0 = request_table (tables lib0)"
    by (simp add: d0_def quiet_media)
  define d1 where "d1 = update_seasons stamp (m_seasons (me_before edit)) seasons d0"
  have t: "tables lib1 = fold detach_season orphans d1"
    and e: "edit1 = edit\<lparr>me_after := (me_after edit)\<lparr>m_seasons := seasons\<rparr>\<rparr>"
    using r by (auto simp: write_media_rows_def Let_def f d0_def [symmetric] d1_def [symmetric])
  have q: "tables_quiet (tables lib) (tables lib1)" "request_table (tables lib1) = request_table (tables lib)"
    using quiet_insert_fresh [OF f] d0 update_seasons_rows [of d0 stamp] detach_rows [of d1 orphans] tables_quiet_trans
    by (simp_all add: t d1_def) blast
  have "lib' = lib1" "me_before edit' = me_before edit" "m_id (me_after edit') = m_id (me_after edit)"
    "m_media_type (me_after edit') = m_media_type (me_after edit)" "status_of (me_after edit') k = status_of (me_after edit) k" for k
    using w by (auto simp: write_media_def r e Let_def status_of_def split: if_splits option.splits)
  then show ?thesis using q by simp
qed

subsection \<open>The saves inside\<close>

lemma moves_open:
  assumes "moves j S d d'" "i \<noteq> j" "open_at d i"
  shows "open_at d' i"
  unfolding open_at_def list_all_iff
proof (intro ballI impI)
  fix r' assume r': "r' \<in> set (request_table d')" "r_id r' = i"
  then obtain r where r: "r \<in> set (request_table d)" "asked_for r = asked_for r'" "r_status r' = r_status r"
    using assms(1,2) unfolding moves_def by fastforce
  then have "is_open r" using assms(3) r'(2) by (simp add: open_at_def list_all_iff asked_for_def)
  then show "is_open r'" using r(3) by (simp add: is_open_def)
qed

definition saves_open :: "db \<Rightarrow> entity list \<Rightarrow> bool" where
  "saves_open d es \<longleftrightarrow> (\<forall>e\<in>set es. is_open (en_row e) \<longrightarrow> open_at d (r_id (en_row e)))"

lemma save_entity_keeps_open:
  assumes s: "save_entity out env d e = (d', e', fx)" and o: "saves_open d es"
    and d: "r_id (en_row e) \<notin> set (map (\<lambda>e. r_id (en_row e)) es)"
  shows "saves_open d' es"
  unfolding saves_open_def
proof (intro ballI impI)
  fix x assume x: "x \<in> set es" "is_open (en_row x)"
  then have "open_at d (r_id (en_row x))" using o by (simp add: saves_open_def)
  moreover have "r_id (en_row x) \<noteq> r_id (en_row e)"
  proof
    assume "r_id (en_row x) = r_id (en_row e)"
    then show False using x(1) d by (auto simp: image_iff)
  qed
  ultimately show "open_at d' (r_id (en_row x))" using moves_open [OF save_entity_moves [OF s]] by blast
qed

lemma save_entities_good:
  assumes "save_entities out env es d = (d', fx)" "good st d" "saves_open d es" "distinct (map (\<lambda>e. r_id (en_row e)) es)"
  shows "good st d'"
  using assms
proof (induction es arbitrary: d d' fx)
  case (Cons e es)
  obtain d1 e1 f1 where a: "save_entity out env d e = (d1, e1, f1)" by (metis prod_cases3)
  obtain d2 f2 where b: "save_entities out env es d1 = (d2, f2)" by (metis surj_pair)
  have "good st d1" by (rule save_entity_good [OF a Cons.prems(2)]) (use Cons.prems(3) in \<open>simp add: saves_open_def\<close>)
  moreover have "saves_open d1 es"
    by (rule save_entity_keeps_open [OF a]) (use Cons.prems(3,4) in \<open>simp_all add: saves_open_def\<close>)
  ultimately have "good st d2" using Cons.IH [OF b] Cons.prems(4) by simp
  then show ?case using Cons.prems(1) by (simp add: a b)
qed simp

lemma settle_entity_id:
  "settle_entity after before e = Store e' \<Longrightarrow> r_id (en_row e') = r_id (en_row e) \<and> r_status (en_row e') = r_status (en_row e)"
  "settle_entity after before e = Finish e' \<Longrightarrow> r_id (en_row e') = r_id (en_row e) \<and> r_status (en_row e') = COMPLETED"
  by (auto simp: settle_entity_def Let_def with_request_status_def split: prod.splits if_splits)

lemma settle_entities_good:
  assumes "settle_entities out env after before es d = (d', done', fx)" "good st d" "saves_open d es"
    "distinct (map (\<lambda>e. r_id (en_row e)) es)"
  shows "good st d' \<and> (\<forall>e\<in>set done'. r_status (en_row e) = COMPLETED) \<and> distinct (map (\<lambda>e. r_id (en_row e)) done') \<and>
    set (map (\<lambda>e. r_id (en_row e)) done') \<subseteq> set (map (\<lambda>e. r_id (en_row e)) es)"
  using assms
proof (induction es arbitrary: d d' done' fx)
  case (Cons e es)
  have o: "saves_open d es" and dist: "distinct (map (\<lambda>e. r_id (en_row e)) es)" "r_id (en_row e) \<notin> set (map (\<lambda>e. r_id (en_row e)) es)"
    using Cons.prems(3,4) by (simp_all add: saves_open_def comp_def)
  obtain d2 x2 f2 where b: "settle_entities out env after before es d = (d2, x2, f2)" by (metis prod_cases3)
  note k = Cons.IH [OF b Cons.prems(2) o dist(1)]
  show ?case
  proof (cases "settle_entity after before e")
    case Leave
    then show ?thesis using Cons.prems(1) b k by auto
  next
    case (Store e1)
    note i = settle_entity_id(1) [OF Store]
    obtain d3 e3 f3 where a: "save_entity out env d e1 = (d3, e3, f3)" by (metis prod_cases3)
    obtain d4 x4 f4 where c: "settle_entities out env after before es d3 = (d4, x4, f4)" by (metis prod_cases3)
    have "good st d3"
      by (rule save_entity_good [OF a Cons.prems(2)]) (use i Cons.prems(3) in \<open>simp add: saves_open_def is_open_def\<close>)
    moreover have "saves_open d3 es" by (rule save_entity_keeps_open [OF a o]) (use i dist(2) in simp)
    ultimately have "good st d4 \<and> (\<forall>e\<in>set x4. r_status (en_row e) = COMPLETED) \<and> distinct (map (\<lambda>e. r_id (en_row e)) x4) \<and>
        set (map (\<lambda>e. r_id (en_row e)) x4) \<subseteq> set (map (\<lambda>e. r_id (en_row e)) es)"
      by (rule Cons.IH [OF c _ _ dist(1)])
    then show ?thesis using Cons.prems(1) Store a c by auto
  next
    case (Finish e1)
    note i = settle_entity_id(2) [OF Finish]
    have r: "d' = d2" "done' = e1 # x2" using Cons.prems(1) Finish b by simp_all
    have sub: "set (map (\<lambda>e. r_id (en_row e)) x2) \<subseteq> set (map (\<lambda>e. r_id (en_row e)) es)" using k by blast
    then have "r_id (en_row e1) \<notin> set (map (\<lambda>e. r_id (en_row e)) x2)" using dist(2) i by auto
    then show ?thesis using k sub i by (simp add: r subset_insertI2)
  qed
qed simp

lemma complete_related_good:
  assumes c: "complete_related out env after before k d = (d', fx)" and g: "good st d"
  shows "good st d'"
proof -
  have one: "one_each d" using g by (simp add: good_def ids_ok_one_each)
  define es where "es = load_requests d (m_id after) (\<lambda>r. (r_status r = APPROVED \<or> r_status r = FAILED) \<and> r_is4k r = k)"
  obtain d1 x f where s: "settle_entities out env after before es d = (d1, x, f)" by (metis prod_cases3)
  obtain d2 f' where e2: "save_entities out env x d1 = (d2, f')" by (metis surj_pair)
  have "d2 = d'" using c by (simp add: complete_related_def es_def [symmetric] s e2)
  with e2 have e: "save_entities out env x d1 = (d', f')" by simp
  have "saves_open d es"
    unfolding saves_open_def
  proof (intro ballI impI)
    fix e assume e: "e \<in> set es" "is_open (en_row e)"
    obtain r where r: "r \<in> set (request_table d)" "en_row e = loaded_row r"
      by (rule load_requests_rows [OF one e(1) [unfolded es_def]])
    have "q = r" if "q \<in> set (request_table d)" "r_id q = r_id r" for q
      by (rule one_each_same [OF one that(1) r(1)]) (simp add: that(2))
    moreover have "is_open r" using e(2) r(2) by (simp add: is_open_def)
    ultimately show "open_at d (r_id (en_row e))" unfolding open_at_def list_all_iff r(2) loaded_row_fields by blast
  qed
  moreover have "distinct (map (\<lambda>e. r_id (en_row e)) es)" unfolding es_def by (rule load_requests_distinct [OF one])
  ultimately have k: "good st d1" "\<forall>e\<in>set x. r_status (en_row e) = COMPLETED" "distinct (map (\<lambda>e. r_id (en_row e)) x)"
    using settle_entities_good [OF s g] by simp_all
  show ?thesis
    by (rule save_entities_good [OF e k(1) _ k(3)]) (use k(2) in \<open>auto simp: saves_open_def is_open_def\<close>)
qed

lemma save_media_cases:
  assumes s: "save_media out env lib edit orphans = (lib', edit', fx)"
  obtains (same) lib1 where "media_changes (me_before edit) (me_after edit) = []"
      "write_media (e_stamp env) lib edit [] orphans = (lib1, edit')" "lib' = lib1"
  | (changed) d1 f1 d2 f2 lib3 d4 f4 d5 f5 seasons where
      "approve_quality out env edit False (tables lib) = (d1, f1)" "approve_quality out env edit True d1 = (d2, f2)"
      "write_media (e_stamp env) (lib\<lparr>tables := d2\<rparr>) edit (media_changes (me_before edit) (me_after edit)) orphans = (lib3, edit')"
      "complete_quality out env edit' seasons False (tables lib3) = (d4, f4)"
      "complete_quality out env edit' seasons True d4 = (d5, f5)" "tables lib' = d5"
proof (cases "media_changes (me_before edit) (me_after edit) = []")
  case True
  then show ?thesis using s same by (auto simp: save_media_def split: prod.splits)
next
  case False
  obtain d1 f1 where 1: "approve_quality out env edit False (tables lib) = (d1, f1)" by (metis surj_pair)
  obtain d2 f2 where 2: "approve_quality out env edit True d1 = (d2, f2)" by (metis surj_pair)
  obtain lib3 e3 where 3: "write_media (e_stamp env) (lib\<lparr>tables := d2\<rparr>) edit
      (media_changes (me_before edit) (me_after edit)) orphans = (lib3, e3)" by (metis surj_pair)
  define seasons where "seasons = (case media_by_id d2 (m_id (me_after edit)) of None \<Rightarrow> [] | Some m \<Rightarrow> m_seasons m)"
  obtain d4 f4 where 4: "complete_quality out env e3 seasons False (tables lib3) = (d4, f4)" by (metis surj_pair)
  obtain d5 f5 where 5: "complete_quality out env e3 seasons True d4 = (d5, f5)" by (metis surj_pair)
  have "e3 = edit'" "tables lib' = d5"
    using s False
    by (auto simp: save_media_def media_before_update_def media_after_update_def Let_def 1 2 3 4 5 seasons_def [symmetric])
  then show ?thesis using changed 1 2 3 4 5 by blast
qed

lemma save_media_good:
  assumes s: "save_media out env lib edit orphans = (lib', edit', fx)" and g: "good st (tables lib)"
  shows "good st (tables lib')"
  using s
proof (cases rule: save_media_cases)
  case (same lib1)
  then show ?thesis using write_media_frame [OF same(2)] quiet_good g by blast
next
  case (changed d1 f1 d2 f2 lib3 d4 f4 d5 f5 seasons)
  have quality: "good st b" if "complete_quality out env edit' seasons k a = (b, f)" "good st a" for k a b f
    using that complete_related_good by (auto simp: complete_quality_def Let_def split: if_splits)
  have "good st d2" using approve_quality_all [OF changed(2)] approve_quality_all [OF changed(1) g] by simp
  then have "good st (tables lib3)" using write_media_frame [OF changed(3)] quiet_good by auto
  then show ?thesis using quality [OF changed(4)] quality [OF changed(5)] changed(6) by simp
qed

subsection \<open>A film that comes in\<close>

lemma film_done_rows:
  assumes "standings d' = map (film_done edit k) (standings d)" "r' \<in> set (request_table d')"
  obtains r where "r \<in> set (request_table d)" "asked_for r = asked_for r'"
    "r_status r' = (if turns_done edit k \<and> r_media_id r' = Some (m_id (me_after edit)) \<and> r_is4k r' = k \<and>
       r_status r \<in> {APPROVED, FAILED} then COMPLETED else r_status r)"
proof -
  have "(asked_for r', r_status r') \<in> set (standings d')" using assms(2) by (auto simp: standings_def)
  then obtain r where r: "r \<in> set (request_table d)" "(asked_for r', r_status r') = film_done edit k (asked_for r, r_status r)"
    unfolding assms(1) by (auto simp: standings_def)
  then have a: "asked_for r = asked_for r'" by (auto simp: film_done_def split: if_splits)
  then have "r_media_id r' = r_media_id r" "r_is4k r' = r_is4k r" by (simp_all add: asked_for_def)
  then have "r_status r' = (if turns_done edit k \<and> r_media_id r' = Some (m_id (me_after edit)) \<and> r_is4k r' = k \<and>
       r_status r \<in> {APPROVED, FAILED} then COMPLETED else r_status r)"
    using r(2) by (auto simp: film_done_def asked_for_def split: if_splits)
  then show ?thesis using that [OF r(1) a] by blast
qed

lemma film_done_one_each: "standings d' = map (film_done edit k) (standings d) \<Longrightarrow> one_each d \<Longrightarrow> one_each d'"
  unfolding one_each_standings by (simp add: comp_def film_done_def if_distrib cong: if_cong)

lemma approved_rows:
  assumes "approved_all d d' ids" "r' \<in> set (request_table d')"
  obtains r where "r \<in> set (request_table d)" "asked_for r = asked_for r'"
    "if r_id r' \<in> ids then r_status r' \<in> {APPROVED, COMPLETED, FAILED} else r_status r' = r_status r"
  using assms unfolding approved_all_def by blast

lemma pending_ids_iff:
  assumes "one_each d" "r \<in> set (request_table d)"
  shows "r_id r \<in> pending_ids d m k \<longleftrightarrow> r_media_id r = Some m \<and> r_is4k r = k \<and> r_status r = PENDING"
  using assms one_each_same unfolding pending_ids_def by blast

lemma approve_rows:
  assumes a: "approve_quality out env edit k d = (d', fx)" and g: "good st d" and r': "r' \<in> set (request_table d')"
  obtains r where "r \<in> set (request_table d)" "asked_for r = asked_for r'"
    "if status_of (me_after edit) k = M_AVAILABLE \<and> status_of (me_before edit) k = M_PENDING \<and>
        r_media_id r' = Some (m_id (me_after edit)) \<and> r_is4k r' = k \<and> r_status r = PENDING
     then r_status r' \<in> {APPROVED, COMPLETED, FAILED} else r_status r' = r_status r"
proof -
  let ?c = "status_of (me_after edit) k = M_AVAILABLE \<and> status_of (me_before edit) k = M_PENDING"
  have one: "one_each d" using g by (simp add: good_def ids_ok_one_each)
  have all: "approved_all d d' (if ?c then pending_ids d (m_id (me_after edit)) k else {})"
    using approve_quality_all [OF a g] by blast
  obtain r where r: "r \<in> set (request_table d)" "asked_for r = asked_for r'"
    "if r_id r' \<in> (if ?c then pending_ids d (m_id (me_after edit)) k else {})
     then r_status r' \<in> {APPROVED, COMPLETED, FAILED} else r_status r' = r_status r"
    by (rule approved_rows [OF all r'])
  have same: "r_id r' = r_id r" "r_media_id r' = r_media_id r" "r_is4k r' = r_is4k r" using r(2) by (simp_all add: asked_for_def)
  show ?thesis
    using that [OF r(1,2)] r(3) unfolding same pending_ids_iff [OF one r(1)] if_distrib [of "\<lambda>S. r_id r \<in> S"]
    by (cases ?c) auto
qed

text \<open>
  A film that turns available or deleted takes its requests along: whoever asked for it in that quality
  and was approved, or failed, has it now as completed, and when the title went from pending to available
  those still pending are approved and completed too; declined and completed requests stay as they are,
  and no request appears.
\<close>

theorem film_save_completes:
  assumes s: "save_media out env lib edit orphans = (lib', edit', fx)" and g: "ids_ok (tables lib)" "links_ok (tables lib)"
    and m: "m_media_type (me_after edit) = ''movie''"
    and t: "status_of (me_after edit) k \<noteq> status_of (me_before edit) k" "status_of (me_after edit) k \<in> {M_AVAILABLE, M_DELETED}"
    and r': "r' \<in> set (request_table (tables lib'))" "r_media_id r' = Some (m_id (me_after edit))" "r_is4k r' = k"
  shows "\<exists>r\<in>set (request_table (tables lib)). r_id r = r_id r' \<and>
    r_media_id r = Some (m_id (me_after edit)) \<and> r_is4k r = k \<and>
    (r_status r = APPROVED \<or> r_status r = FAILED \<longrightarrow> r_status r' = COMPLETED) \<and>
    (r_status r = PENDING \<longrightarrow> r_status r' = (if status_of (me_after edit) k = M_AVAILABLE \<and>
       status_of (me_before edit) k = M_PENDING then COMPLETED else PENDING)) \<and>
    (r_status r = COMPLETED \<or> r_status r = DECLINED \<longrightarrow> r_status r' = r_status r)"
proof -
  have c: "media_changes (me_before edit) (me_after edit) \<noteq> []"
    using t(1) by (auto simp: media_changes_def int_change_def status_of_def split: if_splits)
  have good0: "good False (tables lib)" using g by (simp add: good_def)
  obtain d1 f1 d2 f2 lib3 d4 f4 d5 f5 seasons where x:
      "approve_quality out env edit False (tables lib) = (d1, f1)" "approve_quality out env edit True d1 = (d2, f2)"
      "write_media (e_stamp env) (lib\<lparr>tables := d2\<rparr>) edit (media_changes (me_before edit) (me_after edit)) orphans = (lib3, edit')"
      "complete_quality out env edit' seasons False (tables lib3) = (d4, f4)"
      "complete_quality out env edit' seasons True d4 = (d5, f5)" "tables lib' = d5"
  proof (rule save_media_cases [OF s])
    fix lib1
    assume "media_changes (me_before edit) (me_after edit) = []"
    then show thesis using c by simp
  qed (rule that)
  have good1: "good False d1" and good2: "good False d2"
    using approve_quality_all [OF x(1) good0] approve_quality_all [OF x(2)] by simp_all
  have e: "me_before edit' = me_before edit" "m_id (me_after edit') = m_id (me_after edit)" "m_media_type (me_after edit') = ''movie''"
    "status_of (me_after edit') j = status_of (me_after edit) j" "request_table (tables lib3) = request_table d2" for j
    using write_media_frame [OF x(3)] m by simp_all
  have one3: "one_each (tables lib3)" using good2 e(5) by (simp add: one_each_def good_def ids_ok_def fresh_def)
  note done4 = complete_film_quality [OF x(4) one3 e(3)]
  note done5 = complete_film_quality [OF x(5) film_done_one_each [OF done4 one3] e(3)]
  obtain r4 where r4: "r4 \<in> set (request_table d4)" "asked_for r4 = asked_for r'"
    "r_status r' = (if turns_done edit' True \<and> r_media_id r' = Some (m_id (me_after edit')) \<and> r_is4k r' = True \<and>
       r_status r4 \<in> {APPROVED, FAILED} then COMPLETED else r_status r4)"
    using film_done_rows [OF done5] r'(1) x(6) by blast
  obtain r3 where r3: "r3 \<in> set (request_table d2)" "asked_for r3 = asked_for r4"
    "r_status r4 = (if turns_done edit' False \<and> r_media_id r4 = Some (m_id (me_after edit')) \<and> r_is4k r4 = False \<and>
       r_status r3 \<in> {APPROVED, FAILED} then COMPLETED else r_status r3)"
    using film_done_rows [OF done4 r4(1)] e(5) by auto
  obtain r1 where r1: "r1 \<in> set (request_table d1)" "asked_for r1 = asked_for r3"
    "if status_of (me_after edit) True = M_AVAILABLE \<and> status_of (me_before edit) True = M_PENDING \<and>
        r_media_id r3 = Some (m_id (me_after edit)) \<and> r_is4k r3 = True \<and> r_status r1 = PENDING
     then r_status r3 \<in> {APPROVED, COMPLETED, FAILED} else r_status r3 = r_status r1"
    by (rule approve_rows [OF x(2) good1 r3(1)])
  obtain r where r: "r \<in> set (request_table (tables lib))" "asked_for r = asked_for r1"
    "if status_of (me_after edit) False = M_AVAILABLE \<and> status_of (me_before edit) False = M_PENDING \<and>
        r_media_id r1 = Some (m_id (me_after edit)) \<and> r_is4k r1 = False \<and> r_status r = PENDING
     then r_status r1 \<in> {APPROVED, COMPLETED, FAILED} else r_status r1 = r_status r"
    by (rule approve_rows [OF x(1) good0 r1(1)])
  have same: "r_media_id r4 = Some (m_id (me_after edit))" "r_media_id r3 = Some (m_id (me_after edit))"
    "r_media_id r1 = Some (m_id (me_after edit))" "r_is4k r4 = k" "r_is4k r3 = k" "r_is4k r1 = k" "r_id r = r_id r'"
    "r_media_id r = Some (m_id (me_after edit))" "r_is4k r = k"
    using r4(2) r3(2) r1(2) r(2) r'(2,3) by (simp_all add: asked_for_def)
  have done': "turns_done edit' k" using t by (simp add: turns_done_def e)
  have s4: "r_status r' = (if k \<and> r_status r4 \<in> {APPROVED, FAILED} then COMPLETED else r_status r4)"
    using r4(3) r'(2,3) done' e(2) by (cases k) simp_all
  have s3: "r_status r4 = (if \<not> k \<and> r_status r3 \<in> {APPROVED, FAILED} then COMPLETED else r_status r3)"
    using r3(3) same(1,4) done' e(2) by (cases k) simp_all
  have last: "r_status r' = (if r_status r3 \<in> {APPROVED, FAILED} then COMPLETED else r_status r3)"
    using s3 s4 by (cases k) simp_all
  have first: "if status_of (me_after edit) k = M_AVAILABLE \<and> status_of (me_before edit) k = M_PENDING \<and> r_status r = PENDING
     then r_status r3 \<in> {APPROVED, COMPLETED, FAILED} else r_status r3 = r_status r"
    using r1(3) r(3) same by (cases k) (auto split: if_splits)
  have "(r_status r = APPROVED \<or> r_status r = FAILED \<longrightarrow> r_status r' = COMPLETED) \<and>
    (r_status r = PENDING \<longrightarrow> r_status r' = (if status_of (me_after edit) k = M_AVAILABLE \<and>
       status_of (me_before edit) k = M_PENDING then COMPLETED else PENDING)) \<and>
    (r_status r = COMPLETED \<or> r_status r = DECLINED \<longrightarrow> r_status r' = r_status r)"
    using first last
    by (auto simp: PENDING_def APPROVED_def COMPLETED_def FAILED_def DECLINED_def split: if_splits)
  then show ?thesis using r(1) same(7-9) by blast
qed

end
