(* ===== verification/Scan_Status.thy ===== *)
theory Scan_Status
  imports Media_Save Sorted_Store
begin

section \<open>Where a scan leaves a title\<close>

text \<open>
  The decisions of \<open>src/backend-rs/src/jobs/scanmedia.rs\<close>: the status of a scanned film
  (\<open>apply_movie\<close>, \<open>new_movie\<close>) and of a scanned series, season by season (\<open>next_season_status\<close>) and as a whole
  (\<open>rollup_show_status\<close>, \<open>apply_show\<close>, \<open>new_show\<close>), and what becomes of requests for seasons Sonarr stopped
  pursuing (\<open>plan_season_resets\<close>). A \<open>BTreeSet\<close> is an ascending list, a \<open>BTreeMap\<close> one with its keys.
\<close>

record scanned_season =
  ps_season_number :: int
  ps_total_episodes :: int
  ps_episodes :: int
  ps_episodes4k :: int
  ps_is4k_override :: bool
  ps_processing :: bool

record resets =
  rs_media :: "(int \<times> bool) list"
  rs_seasons :: "((int \<times> bool) \<times> (int list \<times> scanned_season list)) list"

record season_reset_plan =
  rp_decline :: "int list"
  rp_trim :: "(int \<times> int list \<times> int \<times> bool) list"

definition no_resets :: resets where
  "no_resets = \<lparr>rs_media = [], rs_seasons = []\<rparr>"

text \<open>The approved requests of a title whose seasons \<open>abandoned\<close> Sonarr stopped pursuing.\<close>

definition reset_request :: "int list \<Rightarrow> bool \<Rightarrow> request_row \<Rightarrow> season_reset_plan \<Rightarrow> season_reset_plan" where
  "reset_request abandoned title_unknown r plan =
     (let gone = (\<lambda>s. sr_season_number s \<in> set abandoned);
          affected = list_ex gone (r_seasons r);
          all_gone = (affected \<and> list_all gone (r_seasons r))
      in if title_unknown \<or> all_gone then plan\<lparr>rp_decline := rp_decline plan @ [r_id r]\<rparr>
         else if affected then
           let kept = filter (\<lambda>s. \<not> gone s) (r_seasons r)
           in plan\<lparr>rp_trim := rp_trim plan @ [(r_id r, map sr_id (filter gone (r_seasons r)),
                int (length kept), list_all (\<lambda>s. sr_status s = COMPLETED) kept)]\<rparr>
         else plan)"

definition plan_season_resets :: "request_row list \<Rightarrow> int list \<Rightarrow> bool \<Rightarrow> season_reset_plan" where
  "plan_season_resets requests abandoned title_unknown =
     fold (reset_request abandoned title_unknown) requests \<lparr>rp_decline = [], rp_trim = []\<rparr>"

subsection \<open>Seasons\<close>

definition next_season_status :: "int option \<Rightarrow> int \<Rightarrow> int \<Rightarrow> bool \<Rightarrow> bool \<Rightarrow> bool \<Rightarrow> int" where
  "next_season_status previous listed present can_be_available processing_for_quality processing =
     (if can_be_available \<and> listed = present \<and> 0 < present then M_AVAILABLE
      else if previous = Some M_AVAILABLE then M_AVAILABLE
      else if can_be_available \<and> 0 < present then M_PARTIAL
      else if processing_for_quality \<and> processing \<and> previous \<noteq> Some M_DELETED then M_PROCESSING
      else if previous = Some M_PROCESSING \<and> processing_for_quality \<and> \<not> processing \<and> present = 0 then M_UNKNOWN
      else unwrap_or M_UNKNOWN previous)"

definition counts_for_show :: "scanned_season list \<Rightarrow> bool \<Rightarrow> season_row \<Rightarrow> bool" where
  "counts_for_show scanned four_k s \<longleftrightarrow> sn_season_number s \<noteq> 0 \<and>
     (case find (\<lambda>i. ps_season_number i = sn_season_number s) scanned of
        None \<Rightarrow> season_status four_k s \<noteq> M_UNKNOWN
      | Some i \<Rightarrow> 0 < ps_total_episodes i)"

definition rollup_show_status ::
  "season_row list \<Rightarrow> scanned_season list \<Rightarrow> bool \<Rightarrow> int option \<Rightarrow> bool \<Rightarrow> int" where
  "rollup_show_status seasons scanned four_k previous enabled =
     (let rollup = filter (counts_for_show scanned four_k) seasons;
          all_available = (rollup \<noteq> [] \<and> list_all (\<lambda>s. season_status four_k s = M_AVAILABLE) rollup)
      in if enabled \<and> all_available then M_AVAILABLE
         else if enabled \<and> list_ex (\<lambda>s. season_status four_k s \<in> {M_PARTIAL, M_AVAILABLE}) seasons then M_PARTIAL
         else if (scanned = [] \<and> previous \<noteq> Some M_DELETED) \<or>
                 list_ex (\<lambda>s. season_status four_k s = M_PROCESSING) seasons then M_PROCESSING
         else if previous = Some M_DELETED then M_DELETED
         else M_UNKNOWN)"

text \<open>A season the provider lists as empty has its counts zeroed.\<close>

definition counted :: "scanned_season \<Rightarrow> int \<times> int" where
  "counted s = (if 0 < ps_total_episodes s then (ps_episodes s, ps_episodes4k s) else (0, 0))"

definition scanned_statuses :: "(int \<times> int) option \<Rightarrow> scanned_season \<Rightarrow> bool \<Rightarrow> int \<times> int" where
  "scanned_statuses previous s enable4k =
     (let (episodes, episodes4k) = counted s
      in (next_season_status (map_option fst previous) (ps_total_episodes s) episodes True
            (\<not> ps_is4k_override s) (ps_processing s),
          next_season_status (map_option snd previous) (ps_total_episodes s) episodes4k enable4k
            (ps_is4k_override s) (ps_processing s)))"

subsection \<open>Films\<close>

record movie_opts =
  mv_is4k :: bool
  mv_media_added_at :: "int option"
  mv_rating_key :: "string option"
  mv_jellyfin_media_id :: "string option"
  mv_imdb_id :: "string option"
  mv_service_id :: "int option"
  mv_external_service_id :: "int option"
  mv_external_service_slug :: "string option"
  mv_processing :: bool
  mv_has_file :: bool

record show_opts =
  sw_media_added_at :: "int option"
  sw_rating_key :: "string option"
  sw_jellyfin_media_id :: "string option"
  sw_service_id :: "int option"
  sw_external_service_id :: "int option"
  sw_external_service_slug :: "string option"
  sw_is4k :: bool

definition new_movie_opts :: movie_opts where
  "new_movie_opts = \<lparr>mv_is4k = False, mv_media_added_at = None, mv_rating_key = None, mv_jellyfin_media_id = None,
     mv_imdb_id = None, mv_service_id = None, mv_external_service_id = None, mv_external_service_slug = None,
     mv_processing = False, mv_has_file = True\<rparr>"

definition iso_of :: "int \<Rightarrow> string" where
  "iso_of ms = iso_string (from_unix_millis ms)"

definition non_empty :: "string option \<Rightarrow> string option" where
  "non_empty = opt_filter (\<lambda>s. s \<noteq> [])"

text \<open>\<open>set_if_differs\<close>: a column that is given and differs is set, and the row has changed.\<close>

definition set_if_differs ::
  "(media_row \<Rightarrow> 'a option) \<Rightarrow> ('a option \<Rightarrow> media_row \<Rightarrow> media_row) \<Rightarrow> 'a option
     \<Rightarrow> media_row \<times> bool \<Rightarrow> media_row \<times> bool" where
  "set_if_differs column put given mc =
     (case given of
        None \<Rightarrow> mc
      | Some v \<Rightarrow> if column (fst mc) = Some v then mc else (put (Some v) (fst mc), True))"

definition set_services ::
  "bool \<Rightarrow> int option \<Rightarrow> int option \<Rightarrow> string option \<Rightarrow> media_row \<times> bool \<Rightarrow> media_row \<times> bool" where
  "set_services four_k service_id external_id slug mc =
     (if four_k then
        set_if_differs m_external_service_slug4k (\<lambda>v m. m\<lparr>m_external_service_slug4k := v\<rparr>) slug
          (set_if_differs m_external_service_id4k (\<lambda>v m. m\<lparr>m_external_service_id4k := v\<rparr>) external_id
            (set_if_differs m_service_id4k (\<lambda>v m. m\<lparr>m_service_id4k := v\<rparr>) service_id mc))
      else
        set_if_differs m_external_service_slug (\<lambda>v m. m\<lparr>m_external_service_slug := v\<rparr>) slug
          (set_if_differs m_external_service_id (\<lambda>v m. m\<lparr>m_external_service_id := v\<rparr>) external_id
            (set_if_differs m_service_id (\<lambda>v m. m\<lparr>m_service_id := v\<rparr>) service_id mc)))"

definition movie_reset_deferred :: "media_row \<Rightarrow> movie_opts \<Rightarrow> bool \<Rightarrow> bool" where
  "movie_reset_deferred m opts defer \<longleftrightarrow>
     defer \<and> \<not> mv_processing opts \<and> \<not> mv_has_file opts \<and> status_of m (mv_is4k opts) = M_PROCESSING"

definition next_movie_status :: "movie_opts \<Rightarrow> int \<Rightarrow> int" where
  "next_movie_status opts previous =
     (if \<not> mv_processing opts \<and> mv_has_file opts then M_AVAILABLE
      else if \<not> mv_processing opts \<and> \<not> mv_has_file opts \<and> previous = M_PROCESSING then M_UNKNOWN
      else if mv_processing opts then (if previous = M_DELETED then M_DELETED else M_PROCESSING)
      else previous)"

definition set_added_at :: "int option \<Rightarrow> media_row \<Rightarrow> media_row" where
  "set_added_at added m = (case added of None \<Rightarrow> m | Some t \<Rightarrow> m\<lparr>m_media_added_at := Some (iso_of t)\<rparr>)"

definition apply_movie :: "media_row \<Rightarrow> movie_opts \<Rightarrow> bool \<Rightarrow> media_row \<times> bool" where
  "apply_movie existing opts defer =
     (let k = mv_is4k opts;
          previous = status_of existing k;
          deferred = movie_reset_deferred existing opts defer;
          next = next_movie_status opts previous;
          (m, changed) = (if previous \<noteq> M_AVAILABLE \<and> \<not> deferred
             then (let m = with_status k next existing
                   in if next \<noteq> previous then (set_added_at (mv_media_added_at opts) m, True) else (m, False))
             else (existing, False));
          (m, changed) = (if \<not> changed \<and> m_media_added_at m = None
             then (set_added_at (mv_media_added_at opts) m, mv_media_added_at opts \<noteq> None) else (m, changed));
          mc = (if k then set_if_differs m_rating_key4k (\<lambda>v m. m\<lparr>m_rating_key4k := v\<rparr>)
                       (non_empty (mv_rating_key opts)) (m, changed)
                else set_if_differs m_rating_key (\<lambda>v m. m\<lparr>m_rating_key := v\<rparr>)
                       (non_empty (mv_rating_key opts)) (m, changed));
          mc = (if k then set_if_differs m_jellyfin_media_id4k (\<lambda>v m. m\<lparr>m_jellyfin_media_id4k := v\<rparr>)
                       (non_empty (mv_jellyfin_media_id opts)) mc
                else set_if_differs m_jellyfin_media_id (\<lambda>v m. m\<lparr>m_jellyfin_media_id := v\<rparr>)
                       (non_empty (mv_jellyfin_media_id opts)) mc);
          mc = (case non_empty (mv_imdb_id opts) of
             None \<Rightarrow> mc
           | Some imdb \<Rightarrow> if non_empty (m_imdb_id (fst mc)) = None
                          then ((fst mc)\<lparr>m_imdb_id := Some imdb\<rparr>, True) else mc)
      in if deferred then mc
         else set_services k (mv_service_id opts) (mv_external_service_id opts) (mv_external_service_slug opts) mc)"

text \<open>\<open>MediaRow::default()\<close> with the columns a scan gives a new title; the id comes with the insert.\<close>

definition blank_media :: "string \<Rightarrow> int \<Rightarrow> media_row" where
  "blank_media mt tmdb_id =
     \<lparr>m_id = 0, m_media_type = mt, m_tmdb_id = tmdb_id, m_tvdb_id = None, m_imdb_id = None, m_status = 0,
      m_status4k = 0, m_created_at = None, m_updated_at = None, m_last_season_change = None,
      m_media_added_at = None, m_service_id = None, m_service_id4k = None, m_external_service_id = None,
      m_external_service_id4k = None, m_external_service_slug = None, m_external_service_slug4k = None,
      m_rating_key = None, m_rating_key4k = None, m_jellyfin_media_id = None, m_jellyfin_media_id4k = None,
      m_seasons = []\<rparr>"

definition new_movie :: "int \<Rightarrow> movie_opts \<Rightarrow> bool \<Rightarrow> media_row option" where
  "new_movie tmdb_id opts enable4k =
     (if \<not> mv_processing opts \<and> \<not> mv_has_file opts then None
      else let k = mv_is4k opts;
               pick = (\<lambda>b v. if b then v else None);
               m = (blank_media ''movie'' tmdb_id)\<lparr>m_imdb_id := mv_imdb_id opts,
                 m_status := (if k then M_UNKNOWN else if mv_processing opts then M_PROCESSING else M_AVAILABLE),
                 m_status4k := (if k \<and> enable4k then (if mv_processing opts then M_PROCESSING else M_AVAILABLE)
                                else M_UNKNOWN),
                 m_media_added_at := map_option iso_of (mv_media_added_at opts)\<rparr>;
               m = fst (set_services k (mv_service_id opts) (mv_external_service_id opts)
                     (mv_external_service_slug opts) (m, False));
               m = (if non_empty (mv_rating_key opts) \<noteq> None
                    then m\<lparr>m_rating_key := pick (\<not> k) (mv_rating_key opts),
                           m_rating_key4k := pick (k \<and> enable4k) (mv_rating_key opts)\<rparr> else m);
               m = (if non_empty (mv_jellyfin_media_id opts) \<noteq> None
                    then m\<lparr>m_jellyfin_media_id := pick (\<not> k) (mv_jellyfin_media_id opts),
                           m_jellyfin_media_id4k := pick (k \<and> enable4k) (mv_jellyfin_media_id opts)\<rparr> else m)
           in Some m)"

subsection \<open>Series\<close>

record show_update =
  su_after :: media_row
  su_fresh :: "fresh_season list"
  su_more_available :: "nat \<times> nat"
  su_deferred_seasons :: "(int \<times> bool) list"
  su_status_resets :: "bool list"

definition available_count :: "season_row list \<Rightarrow> bool \<Rightarrow> nat" where
  "available_count seasons four_k = length (filter (\<lambda>s. season_status four_k s = M_AVAILABLE) seasons)"

definition opt_set :: "('a option \<Rightarrow> media_row \<Rightarrow> media_row) \<Rightarrow> 'a option \<Rightarrow> media_row \<Rightarrow> media_row" where
  "opt_set put v m = (if v = None then m else put v m)"

definition claim_keys :: "show_opts \<Rightarrow> bool \<Rightarrow> scanned_season \<Rightarrow> media_row \<Rightarrow> media_row" where
  "claim_keys opts enable4k s m =
     (let (episodes, episodes4k) = counted s;
          m = (if 0 < episodes
               then opt_set (\<lambda>v m. m\<lparr>m_jellyfin_media_id := v\<rparr>) (sw_jellyfin_media_id opts)
                      (opt_set (\<lambda>v m. m\<lparr>m_rating_key := v\<rparr>) (sw_rating_key opts) m) else m)
      in if 0 < episodes4k \<and> enable4k
         then opt_set (\<lambda>v m. m\<lparr>m_jellyfin_media_id4k := v\<rparr>) (sw_jellyfin_media_id opts)
                (opt_set (\<lambda>v m. m\<lparr>m_rating_key4k := v\<rparr>) (sw_rating_key opts) m) else m)"

definition abandoned_season :: "bool \<Rightarrow> scanned_season \<Rightarrow> int \<Rightarrow> int \<Rightarrow> bool" where
  "abandoned_season defer s episodes status \<longleftrightarrow>
     defer \<and> \<not> ps_processing s \<and> episodes = 0 \<and> status = M_PROCESSING"

text \<open>A stored season after the scan, and whether its reset was put off (standard, 4K).\<close>

definition scan_season :: "bool \<Rightarrow> bool \<Rightarrow> scanned_season \<Rightarrow> season_row \<Rightarrow> season_row \<times> bool \<times> bool" where
  "scan_season enable4k defer s stored =
     (let defer_standard = (\<not> ps_is4k_override s \<and> abandoned_season defer s (ps_episodes s) (sn_status stored));
          defer_4k = (ps_is4k_override s \<and> abandoned_season defer s (ps_episodes4k s) (sn_status4k stored));
          (status, status4k) = scanned_statuses (Some (sn_status stored, sn_status4k stored)) s enable4k
      in (stored\<lparr>sn_status := (if defer_standard then sn_status stored else status),
                 sn_status4k := (if defer_4k then sn_status4k stored else status4k)\<rparr>,
          defer_standard, defer_4k))"

definition new_season :: "bool \<Rightarrow> scanned_season \<Rightarrow> int option \<Rightarrow> season_row" where
  "new_season enable4k s media_id =
     (let (status, status4k) = scanned_statuses None s enable4k
      in \<lparr>sn_id = 0, sn_season_number = ps_season_number s, sn_status = status, sn_status4k = status4k,
          sn_created_at = None, sn_updated_at = None, sn_media_id = media_id\<rparr>)"

type_synonym scan_acc = "media_row \<times> fresh_season list \<times> (int \<times> bool) list"

definition scan_step :: "show_opts \<Rightarrow> bool \<Rightarrow> bool \<Rightarrow> nat \<Rightarrow> scanned_season \<Rightarrow> scan_acc \<Rightarrow> scan_acc" where
  "scan_step opts enable4k defer loaded s acc =
     (let (m, created, deferred) = acc;
          m = claim_keys opts enable4k s m;
          seasons = m_seasons m
      in case find (\<lambda>i. sn_season_number (seasons ! i) = ps_season_number s) [0..<loaded] of
           Some i \<Rightarrow>
             let (row, standard, uhd) = scan_season enable4k defer s (seasons ! i)
             in (m\<lparr>m_seasons := seasons[i := row]\<rparr>, created,
                 if standard \<or> uhd then deferred @ [(ps_season_number s, uhd)] else deferred)
         | None \<Rightarrow>
             (m\<lparr>m_seasons := seasons @ [new_season enable4k s (Some (m_id m))]\<rparr>,
              created @ [\<lparr>fs_index = length seasons, fs_four_k = False\<rparr>], deferred))"

definition apply_show ::
  "media_row \<Rightarrow> scanned_season list \<Rightarrow> show_opts \<Rightarrow> bool \<Rightarrow> int \<Rightarrow> bool \<Rightarrow> show_update" where
  "apply_show media scanned opts enable4k now_ms defer =
     (let (m, created, deferred) = fold (scan_step opts enable4k defer (length (m_seasons media))) scanned (media, [], []);
          more_standard = available_count (m_seasons m) False - available_count (m_seasons media) False;
          more_4k = available_count (m_seasons m) True - available_count (m_seasons media) True;
          m = (if 0 < more_standard
               then set_added_at (sw_media_added_at opts) (m\<lparr>m_last_season_change := Some (iso_of now_ms)\<rparr>) else m);
          m = (if 0 < more_4k then m\<lparr>m_last_season_change := Some (iso_of now_ms)\<rparr> else m);
          m = (if m_media_added_at m = None
               then m\<lparr>m_media_added_at := map_option iso_of (sw_media_added_at opts)\<rparr> else m);
          quality_status = status_of media (sw_is4k opts);
          abandoned_entry = (defer \<and> quality_status = M_PROCESSING \<and>
            \<not> list_ex (\<lambda>s. ps_processing s \<or> 0 < (if sw_is4k opts then ps_episodes4k s else ps_episodes s)) scanned);
          m = (if abandoned_entry then m
               else fst (set_services (sw_is4k opts) (sw_service_id opts) (sw_external_service_id opts)
                      (sw_external_service_slug opts) (m, False)));
          m = m\<lparr>m_status := rollup_show_status (m_seasons m) scanned False (Some (m_status media)) True\<rparr>;
          m = m\<lparr>m_status4k := rollup_show_status (m_seasons m) scanned True (Some (m_status4k media)) enable4k\<rparr>
      in \<lparr>su_after = m, su_fresh = created, su_more_available = (more_standard, more_4k),
          su_deferred_seasons = deferred,
          su_status_resets = (if defer then
            (if m_status media = M_PROCESSING \<and> m_status m = M_UNKNOWN then [False] else []) @
            (if m_status4k media = M_PROCESSING \<and> m_status4k m = M_UNKNOWN then [True] else []) else [])\<rparr>)"

definition new_show :: "int \<Rightarrow> int option \<Rightarrow> scanned_season list \<Rightarrow> show_opts \<Rightarrow> bool \<Rightarrow> media_row" where
  "new_show tmdb_id tvdb scanned opts enable4k =
     (let seasons = map (\<lambda>s. new_season enable4k s None) scanned;
          any = (\<lambda>k. list_ex (\<lambda>s. season_status k s \<in> {M_PARTIAL, M_AVAILABLE}) seasons);
          standard = any False;
          uhd = (enable4k \<and> any True);
          m = (blank_media ''tv'' tmdb_id)\<lparr>m_tvdb_id := tvdb,
            m_media_added_at := map_option iso_of (sw_media_added_at opts),
            m_rating_key := opt_filter (\<lambda>_. standard) (sw_rating_key opts),
            m_rating_key4k := opt_filter (\<lambda>_. uhd) (sw_rating_key opts),
            m_jellyfin_media_id := opt_filter (\<lambda>_. standard) (sw_jellyfin_media_id opts),
            m_jellyfin_media_id4k := opt_filter (\<lambda>_. uhd) (sw_jellyfin_media_id opts),
            m_status := rollup_show_status seasons scanned False None True,
            m_status4k := rollup_show_status seasons scanned True None enable4k\<rparr>;
          m = fst (set_services (sw_is4k opts) (sw_service_id opts) (sw_external_service_id opts)
                (sw_external_service_slug opts) (m, False))
      in m\<lparr>m_seasons := seasons\<rparr>)"

definition record_show_resets :: "int \<Rightarrow> show_update \<Rightarrow> scanned_season list \<Rightarrow> resets \<Rightarrow> resets" where
  "record_show_resets media_id update scanned rs =
     rs\<lparr>rs_media := fold (\<lambda>k. insort_insert (media_id, k)) (su_status_resets update) (rs_media rs),
        rs_seasons := fold (\<lambda>(number, k) store.
            let numbers = (case bt_get store (media_id, k) of None \<Rightarrow> [] | Some (ns, _) \<Rightarrow> ns)
            in bt_insert (media_id, k) (insort_insert number numbers, scanned) store)
          (su_deferred_seasons update) (rs_seasons rs)\<rparr>"

end
