(* ===== verification/Scan_Media.thy ===== *)
theory Scan_Media
  imports Scan_Status
begin

section \<open>Scanned titles and their requests\<close>

text \<open>
  The scans of \<open>src/backend-rs/src/jobs/scanmedia.rs\<close> on the tables: \<open>process_movie\<close> and \<open>process_show\<close> save a
  scanned title with the hooks of \<open>Media_Save\<close> or insert it, and \<open>resolve_resets\<close> settles at the end of a run
  what the scan found abandoned. A title is locked while it is processed, so each is one step. The tables and
  the resets a run has noted make up its state; \<open>abandoned\<close> is what the scan asks every server.
\<close>

record scan =
  sc_defer :: bool
  sc_enable4k_movie :: bool
  sc_enable4k_show :: bool

definition any_4k :: "json \<Rightarrow> string \<Rightarrow> bool" where
  "any_4k settings key \<longleftrightarrow>
     list_ex (\<lambda>s. truthy (jget s ''is4k'')) (unwrap_or [] (Option.bind (jpath [key] settings) as_array))"

definition start_scan :: "env \<Rightarrow> bool \<Rightarrow> scan" where
  "start_scan env defer =
     \<lparr>sc_defer = defer, sc_enable4k_movie = any_4k (e_settings env) ''radarr'',
      sc_enable4k_show = any_4k (e_settings env) ''sonarr''\<rparr>"

type_synonym scan_state = "library \<times> resets"

subsection \<open>New titles\<close>

definition written_date :: "string \<Rightarrow> string" where
  "written_date text = typeorm_string (from_unix_millis (unwrap_or 0 (parse_date_millis text)))"

fun insert_scanned_seasons ::
  "string option \<Rightarrow> int \<Rightarrow> season_row list \<Rightarrow> int \<Rightarrow> season_row list \<times> int" where
  "insert_scanned_seasons stamp media_id [] i = ([], i)"
| "insert_scanned_seasons stamp media_id (s # ss) i =
     (let (rows, j) = insert_scanned_seasons stamp media_id ss (i + 1)
      in (s\<lparr>sn_id := i, sn_created_at := stamp, sn_updated_at := stamp, sn_media_id := Some media_id\<rparr> # rows, j))"

definition insert_scanned :: "string option \<Rightarrow> library \<Rightarrow> media_row \<Rightarrow> library" where
  "insert_scanned stamp lib m =
     (let d = tables lib;
          i = next_media d;
          (seasons, j) = insert_scanned_seasons stamp i (m_seasons m) (next_season lib);
          row = m\<lparr>m_id := i, m_tvdb_id := free_tvdb_id d (m_tvdb_id m), m_created_at := stamp,
            m_updated_at := stamp, m_last_season_change := stamp,
            m_media_added_at := (case m_media_added_at m of
               None \<Rightarrow> stamp | Some t \<Rightarrow> sqlite_datetime_to_iso (written_date t)),
            m_seasons := seasons\<rparr>
      in \<lparr>tables = d\<lparr>media_table := media_table d @ [row], next_media := i + 1\<rparr>, next_season = j\<rparr>)"

subsection \<open>A scanned title\<close>

definition process_movie ::
  "outside \<Rightarrow> env \<Rightarrow> scan \<Rightarrow> int \<Rightarrow> movie_opts \<Rightarrow> scan_state \<Rightarrow> scan_state \<times> effect list" where
  "process_movie out env sc tmdb_id opts st =
     (let (lib, rs) = st
      in case media_by_tmdb (tables lib) tmdb_id ''movie'' of
           Some existing \<Rightarrow>
             let rs = (if movie_reset_deferred existing opts (sc_defer sc)
                       then rs\<lparr>rs_media := insort_insert (m_id existing, mv_is4k opts) (rs_media rs)\<rparr> else rs);
                 (after, changed) = apply_movie existing opts (sc_defer sc)
             in if changed
                then (let (lib, _, fx) = save_media out env lib
                            \<lparr>me_before = existing, me_after = after, me_fresh = []\<rparr> []
                      in ((lib, rs), fx))
                else ((lib, rs), [])
         | None \<Rightarrow>
             (case new_movie tmdb_id opts (sc_enable4k_movie sc) of
                None \<Rightarrow> ((lib, rs), [])
              | Some row \<Rightarrow> ((insert_scanned (e_stamp env) lib row, rs), [])))"

definition process_show ::
  "outside \<Rightarrow> env \<Rightarrow> scan \<Rightarrow> int \<Rightarrow> int option \<Rightarrow> scanned_season list \<Rightarrow> show_opts \<Rightarrow> scan_state
     \<Rightarrow> scan_state \<times> effect list" where
  "process_show out env sc tmdb_id tvdb seasons opts st =
     (let (lib, rs) = st
      in case media_by_tmdb (tables lib) tmdb_id ''tv'' of
           Some media \<Rightarrow>
             let update = apply_show media seasons opts (sc_enable4k_show sc) (e_now env) (sc_defer sc);
                 rs = record_show_resets (m_id media) update seasons rs;
                 (lib, _, fx) = save_media out env lib
                   \<lparr>me_before = media, me_after = su_after update, me_fresh = su_fresh update\<rparr> []
             in ((lib, rs), fx)
         | None \<Rightarrow>
             ((insert_scanned (e_stamp env) lib (new_show tmdb_id tvdb seasons opts (sc_enable4k_show sc)), rs), []))"

subsection \<open>The end of a run\<close>

definition approved_requests :: "db \<Rightarrow> int \<Rightarrow> bool \<Rightarrow> int list" where
  "approved_requests d media_id four_k =
     map r_id (sort_key r_id (filter (\<lambda>r. r_is4k r = four_k \<and> r_status r = APPROVED) (requests_of_media d media_id)))"

fun decline_requests :: "outside \<Rightarrow> env \<Rightarrow> int list \<Rightarrow> db \<Rightarrow> db \<times> effect list" where
  "decline_requests out env [] d = (d, [])"
| "decline_requests out env (i # is) d =
     (case load_entity d i of
        None \<Rightarrow> decline_requests out env is d
      | Some e \<Rightarrow>
          let (d, _, fx) = save_entity out env d (with_request_status DECLINED e);
              (d, fx') = decline_requests out env is d
          in (d, fx @ fx'))"

definition resolve_media ::
  "outside \<Rightarrow> env \<Rightarrow> (int \<Rightarrow> bool \<Rightarrow> int option \<Rightarrow> bool) \<Rightarrow> int \<times> bool \<Rightarrow> library \<Rightarrow> library \<times> effect list" where
  "resolve_media out env abandoned key lib =
     (let (media_id, four_k) = key
      in case media_by_id (tables lib) media_id of
           None \<Rightarrow> (lib, [])
         | Some found \<Rightarrow>
             if \<not> abandoned (m_tmdb_id found) four_k None then (lib, [])
             else let status = status_of found four_k;
                      decline = (\<lambda>lib fx.
                        let (d, fx') = decline_requests out env (approved_requests (tables lib) media_id four_k) (tables lib)
                        in (lib\<lparr>tables := d\<rparr>, fx @ fx'))
                  in if m_media_type found = ''movie'' \<and> status = M_PROCESSING then
                       (let (lib, _, fx) = save_media out env lib
                              \<lparr>me_before = found, me_after = with_status four_k M_UNKNOWN found, me_fresh = []\<rparr> []
                        in decline lib fx)
                     else if status = M_UNKNOWN then decline lib []
                     else (lib, []))"

text \<open>The seasons of a title that fall back: the row with them, those gone, and whether one was reset.\<close>

definition reset_seasons ::
  "(int \<Rightarrow> bool \<Rightarrow> int option \<Rightarrow> bool) \<Rightarrow> bool \<Rightarrow> int list \<Rightarrow> media_row \<Rightarrow> media_row \<times> int list \<times> bool" where
  "reset_seasons abandoned four_k numbers media =
     (let hit = (\<lambda>s. sn_season_number s \<in> set numbers \<and>
            abandoned (m_tmdb_id media) four_k (Some (sn_season_number s)));
          falls = (\<lambda>s. hit s \<and> season_status four_k s = M_PROCESSING)
      in (media\<lparr>m_seasons := map (\<lambda>s. if falls s then with_season four_k M_UNKNOWN s else s) (m_seasons media)\<rparr>,
          map sn_season_number (filter (\<lambda>s. hit s \<and>
            (season_status four_k s = M_PROCESSING \<or> season_status four_k s = M_UNKNOWN)) (m_seasons media)),
          list_ex falls (m_seasons media)))"

definition delete_season_request :: "int \<Rightarrow> db \<Rightarrow> db" where
  "delete_season_request i d =
     (let g = filter (\<lambda>s. sr_id s \<noteq> i)
      in d\<lparr>request_table := map (\<lambda>r. r\<lparr>r_seasons := g (r_seasons r)\<rparr>) (request_table d),
           loose_seasons := g (loose_seasons d)\<rparr>)"

definition trim_request ::
  "outside \<Rightarrow> env \<Rightarrow> int \<times> int list \<times> int \<times> bool \<Rightarrow> db \<Rightarrow> db \<times> effect list" where
  "trim_request out env t d =
     (let (request_id, removed, kept, completed) = t;
          d = modify_request request_id (\<lambda>r. r\<lparr>r_tv_quota_units := kept\<rparr>) (fold delete_season_request removed d)
      in if completed then
           (case load_entity d request_id of
              None \<Rightarrow> (d, [])
            | Some e \<Rightarrow>
                let (d, _, fx) = save_entity out env d (with_request_status COMPLETED e) in (d, fx))
         else (d, []))"

fun trim_requests ::
  "outside \<Rightarrow> env \<Rightarrow> (int \<times> int list \<times> int \<times> bool) list \<Rightarrow> db \<Rightarrow> db \<times> effect list" where
  "trim_requests out env [] d = (d, [])"
| "trim_requests out env (t # ts) d =
     (let (d, fx) = trim_request out env t d;
          (d, fx') = trim_requests out env ts d
      in (d, fx @ fx'))"

definition resolve_season_resets ::
  "outside \<Rightarrow> env \<Rightarrow> scan \<Rightarrow> (int \<Rightarrow> bool \<Rightarrow> int option \<Rightarrow> bool)
     \<Rightarrow> (int \<times> bool) \<times> (int list \<times> scanned_season list) \<Rightarrow> library \<Rightarrow> library \<times> effect list" where
  "resolve_season_resets out env sc abandoned entry lib =
     (let ((media_id, four_k), (numbers, scanned)) = entry
      in case media_by_id (tables lib) media_id of
           None \<Rightarrow> (lib, [])
         | Some media \<Rightarrow>
             let (after, gone, reset) = reset_seasons abandoned four_k numbers media
             in if gone = [] then (lib, [])
                else let after = (if reset then with_status four_k
                             (rollup_show_status (m_seasons after) scanned four_k (Some (status_of media four_k))
                               (\<not> four_k \<or> sc_enable4k_show sc)) after else after);
                         title_unknown = (status_of after four_k = M_UNKNOWN);
                         requests = filter (\<lambda>r. r_is4k r = four_k \<and> r_status r = APPROVED)
                           (requests_of_media (tables lib) media_id);
                         plan = plan_season_resets requests gone title_unknown;
                         (d, fx) = trim_requests out env (rp_trim plan) (tables lib);
                         lib = lib\<lparr>tables := d\<rparr>;
                         (lib, fx') = (if reset
                           then (let (lib, _, fx') = save_media out env lib
                                       \<lparr>me_before = media, me_after = after, me_fresh = []\<rparr> [] in (lib, fx'))
                           else (lib, []));
                         (d, fx'') = decline_requests out env (rp_decline plan) (tables lib)
                     in (lib\<lparr>tables := d\<rparr>, fx @ fx' @ fx''))"

fun resolve_each ::
  "('a \<Rightarrow> library \<Rightarrow> library \<times> effect list) \<Rightarrow> 'a list \<Rightarrow> library \<Rightarrow> library \<times> effect list" where
  "resolve_each f [] lib = (lib, [])"
| "resolve_each f (x # xs) lib =
     (let (lib, fx) = f x lib;
          (lib, fx') = resolve_each f xs lib
      in (lib, fx @ fx'))"

definition resolve_resets ::
  "outside \<Rightarrow> env \<Rightarrow> scan \<Rightarrow> (int \<Rightarrow> bool \<Rightarrow> int option \<Rightarrow> bool) \<Rightarrow> scan_state \<Rightarrow> scan_state \<times> effect list" where
  "resolve_resets out env sc abandoned st =
     (let (lib, rs) = st;
          (lib, fx) = resolve_each (resolve_media out env abandoned) (rs_media rs) lib;
          (lib, fx') = resolve_each (resolve_season_resets out env sc abandoned) (rs_seasons rs) lib
      in ((lib, no_resets), fx @ fx'))"

end
