(* ===== verification/Scan_Props.thy ===== *)
theory Scan_Props
  imports Media_Save_Props Scan_Media
begin

section \<open>What scans keep\<close>

text \<open>
  A scan never makes a season or a title worse than what the library holds (\<open>apply_show_seasons\<close>,
  \<open>rollup_available\<close>), a film found on disk completes its requests, and every scan step keeps the tables
  well formed (\<open>good\<close> of \<open>Request_Steps\<close>).
\<close>

subsection \<open>Tables\<close>

lemma insert_scanned_rows:
  "request_table (tables (insert_scanned stamp lib m)) = request_table (tables lib) \<and>
   loose_seasons (tables (insert_scanned stamp lib m)) = loose_seasons (tables lib) \<and>
   next_request (tables (insert_scanned stamp lib m)) = next_request (tables lib) \<and>
   next_season_request (tables (insert_scanned stamp lib m)) = next_season_request (tables lib) \<and>
   next_episode_request (tables (insert_scanned stamp lib m)) = next_episode_request (tables lib)"
  by (simp add: insert_scanned_def Let_def split: prod.split)

lemma insert_scanned_media:
  "\<exists>row. media_table (tables (insert_scanned stamp lib m)) = media_table (tables lib) @ [row] \<and>
    m_id row = next_media (tables lib) \<and> next_media (tables (insert_scanned stamp lib m)) = next_media (tables lib) + 1"
  by (simp add: insert_scanned_def Let_def split: prod.split)

lemma insert_scanned_good:
  assumes g: "good st (tables lib)"
  shows "good st (tables (insert_scanned stamp lib m))"
proof -
  let ?d = "tables (insert_scanned stamp lib m)"
  obtain row where m: "media_table ?d = media_table (tables lib) @ [row]" "m_id row = next_media (tables lib)"
    "next_media ?d = next_media (tables lib) + 1" using insert_scanned_media [of stamp lib m] by blast
  note r = insert_scanned_rows [of stamp lib m]
  have "ids_ok ?d"
    using g fresh_snoc [of m_id "next_media (tables lib)" "media_table (tables lib)" row] m r
    by (simp add: good_def ids_ok_def all_seasons_def all_episodes_def)
  moreover have "linked ?d q" if "linked (tables lib) q" for q
    using that by (auto simp: linked_def m split: option.splits)
  then have "links_ok ?d" using g r by (auto simp: good_def links_ok_def list_all_iff)
  moreover have "seasons_apart ?d \<longleftrightarrow> seasons_apart (tables lib)" using r by (simp add: seasons_apart_def)
  ultimately show ?thesis using g by (simp add: good_def)
qed

lemma process_movie_good:
  assumes "process_movie out env sc tmdb_id opts (lib, rs) = ((lib', rs'), fx)" "good st (tables lib)"
  shows "good st (tables lib')"
  using assms save_media_good insert_scanned_good
  by (auto simp: process_movie_def Let_def split: option.splits prod.splits if_splits)

lemma process_show_good:
  assumes "process_show out env sc tmdb_id tvdb seasons opts (lib, rs) = ((lib', rs'), fx)" "good st (tables lib)"
  shows "good st (tables lib')"
  using assms save_media_good insert_scanned_good
  by (auto simp: process_show_def Let_def split: option.splits prod.splits)

lemma decline_requests_good:
  "decline_requests out env is d = (d', fx) \<Longrightarrow> good st d \<Longrightarrow> good st d'"
proof (induction "is" arbitrary: d d' fx)
  case (Cons i "is")
  show ?case
  proof (cases "load_entity d i")
    case None
    then show ?thesis using Cons by simp
  next
    case (Some e)
    obtain d1 e1 f1 where s: "save_entity out env d (with_request_status DECLINED e) = (d1, e1, f1)" by (metis prod_cases3)
    have "good st d1"
      by (rule save_entity_good [OF s Cons.prems(2)]) (simp add: with_request_status_def is_open_def)
    then show ?thesis using Cons Some s by (simp split: prod.splits)
  qed
qed simp

lemma resolve_media_good:
  assumes r: "resolve_media out env abandoned key lib = (lib', fx)" and g: "good st (tables lib)"
  shows "good st (tables lib')"
proof -
  obtain media_id k where key: "key = (media_id, k)" by (metis surj_pair)
  show ?thesis
  proof (cases "media_by_id (tables lib) media_id")
    case None
    then show ?thesis using r g by (simp add: resolve_media_def key)
  next
    case (Some found)
    obtain lib1 e1 f1 where s: "save_media out env lib \<lparr>me_before = found, me_after = with_status k M_UNKNOWN found,
        me_fresh = []\<rparr> [] = (lib1, e1, f1)" by (metis prod_cases3)
    have d: "good st (fst (decline_requests out env is d))" if "good st d" for d "is"
      using decline_requests_good [of out env "is" d] that by (metis prod.collapse)
    have "good st (tables lib1)" by (rule save_media_good [OF s g])
    then show ?thesis
      using r g d by (auto simp: resolve_media_def key Some s Let_def split_def split: if_splits)
  qed
qed

lemma resolve_each_good:
  assumes "\<And>x lib lib' fx. f x lib = (lib', fx) \<Longrightarrow> good st (tables lib) \<Longrightarrow> good st (tables lib')"
  shows "resolve_each f xs lib = (lib', fx) \<Longrightarrow> good st (tables lib) \<Longrightarrow> good st (tables lib')"
proof (induction xs arbitrary: lib fx)
  case (Cons x xs)
  then show ?case using assms by (fastforce split: prod.splits)
qed simp

subsection \<open>Requests that lose seasons\<close>

lemma mset_concat_map_filter: "mset (concat (map (\<lambda>r. filter P (f r)) xs)) \<subseteq># mset (concat (map f xs))"
  by (induction xs) (auto intro: subset_mset.add_mono)

lemma delete_season_good:
  assumes g: "good st d"
  shows "good st (delete_season_request i d)"
proof -
  let ?d = "delete_season_request i d"
  let ?f = "\<lambda>r. r\<lparr>r_seasons := filter (\<lambda>s. sr_id s \<noteq> i) (r_seasons r)\<rparr>"
  have r: "request_table ?d = map ?f (request_table d)" and l: "loose_seasons ?d = filter (\<lambda>s. sr_id s \<noteq> i) (loose_seasons d)"
    and n: "next_media ?d = next_media d" "next_request ?d = next_request d" "next_season_request ?d = next_season_request d"
      "next_episode_request ?d = next_episode_request d" "media_table ?d = media_table d"
    by (simp_all add: delete_season_request_def Let_def)
  have "mset (all_seasons ?d) \<subseteq># mset (all_seasons d)"
    using subset_mset.add_mono [OF multiset_filter_subset mset_concat_map_filter [of _ r_seasons]]
    by (simp add: all_seasons_def r l comp_def)
  moreover have "all_episodes ?d = all_episodes d" by (simp add: all_episodes_def r comp_def)
  moreover have "map r_id (request_table ?d) = map r_id (request_table d)" by (simp add: r)
  ultimately have "ids_ok ?d"
    using g fresh_subset_mset fresh_map_cong unfolding good_def ids_ok_def n by metis
  moreover have "linked ?d (?f q)" if "linked d q" for q
    using that by (auto simp: linked_def n list_all_iff split: option.splits)
  then have "links_ok ?d" using g by (auto simp: good_def links_ok_def list_all_iff r l)
  moreover have "st \<longrightarrow> seasons_apart ?d"
  proof
    assume st
    then have "sorted_wrt apart (request_table d)" using g by (simp add: good_def seasons_apart_def)
    then have "sorted_wrt (\<lambda>a b. apart (?f a) (?f b)) (request_table d)"
      by (rule sorted_wrt_mono_rel [rotated]) (auto simp: apart_def is_active_open is_open_def)
    then show "seasons_apart ?d" by (simp add: seasons_apart_def r sorted_wrt_map)
  qed
  ultimately show ?thesis by (simp add: good_def)
qed

lemma delete_seasons_good: "good st d \<Longrightarrow> good st (fold delete_season_request is d)"
  by (induction "is" arbitrary: d) (simp_all add: delete_season_good)

lemma trim_request_good:
  assumes t: "trim_request out env x d = (d', fx)" and g: "good st d"
  shows "good st d'"
proof -
  obtain i removed kept completed where x: "x = (i, removed, kept, completed)" by (metis prod_cases4)
  define d1 where "d1 = modify_request i (\<lambda>r. r\<lparr>r_tv_quota_units := kept\<rparr>) (fold delete_season_request removed d)"
  have "tables_quiet (fold delete_season_request removed d) d1"
    unfolding d1_def by (rule quiet_request) (simp add: row_quiet_def is_open_def list_all2_refl)
  then have g1: "good st d1" using delete_seasons_good [OF g] quiet_good by blast
  show ?thesis
  proof (cases "completed \<and> load_entity d1 i \<noteq> None")
    case True
    then obtain e where e: "load_entity d1 i = Some e" by blast
    obtain d2 e2 f2 where s: "save_entity out env d1 (with_request_status COMPLETED e) = (d2, e2, f2)" by (metis prod_cases3)
    have "good st d2" by (rule save_entity_good [OF s g1]) (simp add: with_request_status_def is_open_def)
    then show ?thesis
      using t [unfolded trim_request_def x Let_def prod.case, folded d1_def] True e s by simp
  next
    case False
    then show ?thesis
      using t [unfolded trim_request_def x Let_def prod.case, folded d1_def] g1 by (auto split: if_splits)
  qed
qed

lemma trim_requests_good: "trim_requests out env ts d = (d', fx) \<Longrightarrow> good st d \<Longrightarrow> good st d'"
proof (induction ts arbitrary: d d' fx)
  case (Cons t ts)
  obtain d1 f1 where 1: "trim_request out env t d = (d1, f1)" by (metis surj_pair)
  obtain d2 f2 where 2: "trim_requests out env ts d1 = (d2, f2)" by (metis surj_pair)
  show ?case using Cons.IH [OF 2 trim_request_good [OF 1 Cons.prems(2)]] Cons.prems(1) by (simp add: 1 2)
qed simp

lemma resolve_season_resets_good:
  assumes r: "resolve_season_resets out env sc abandoned entry lib = (lib', fx)" and g: "good st (tables lib)"
  shows "good st (tables lib')"
proof -
  obtain media_id k numbers scanned where x: "entry = ((media_id, k), (numbers, scanned))" by (metis surj_pair)
  show ?thesis
  proof (cases "media_by_id (tables lib) media_id")
    case None
    then show ?thesis using r g by (simp add: resolve_season_resets_def x)
  next
    case (Some media)
    obtain after gone reset where a: "reset_seasons abandoned k numbers media = (after, gone, reset)" by (metis prod_cases3)
    show ?thesis
    proof (cases "gone = []")
      case True
      then show ?thesis using r g by (simp add: resolve_season_resets_def x Some a)
    next
      case False
      define after' where "after' = (if reset then with_status k (rollup_show_status (m_seasons after) scanned k
        (Some (status_of media k)) (\<not> k \<or> sc_enable4k_show sc)) after else after)"
      define plan where "plan = plan_season_resets (filter (\<lambda>r. r_is4k r = k \<and> r_status r = APPROVED)
        (requests_of_media (tables lib) media_id)) gone (status_of after' k = M_UNKNOWN)"
      obtain d1 f1 where 1: "trim_requests out env (rp_trim plan) (tables lib) = (d1, f1)" by (metis surj_pair)
      obtain lib2 e2 f2 where 2: "save_media out env (lib\<lparr>tables := d1\<rparr>)
        \<lparr>me_before = media, me_after = after', me_fresh = []\<rparr> [] = (lib2, e2, f2)" by (metis prod_cases3)
      define lib3 where "lib3 = (if reset then lib2 else lib\<lparr>tables := d1\<rparr>)"
      obtain d4 f4 where 4: "decline_requests out env (rp_decline plan) (tables lib3) = (d4, f4)" by (metis surj_pair)
      have "tables lib' = d4"
        using r [unfolded resolve_season_resets_def x Let_def prod.case Some option.case a, folded after'_def,
            folded plan_def, unfolded 1 prod.case 2] False 4
        by (cases reset) (auto simp: lib3_def)
      moreover have "good st d1" by (rule trim_requests_good [OF 1 g])
      then have "good st (tables lib3)" using save_media_good [OF 2] by (simp add: lib3_def)
      ultimately show ?thesis using decline_requests_good [OF 4] by simp
    qed
  qed
qed

lemma resolve_resets_good:
  assumes r: "resolve_resets out env sc abandoned (lib, rs) = ((lib', rs'), fx)" and g: "good st (tables lib)"
  shows "good st (tables lib')"
proof -
  obtain lib1 f1 where 1: "resolve_each (resolve_media out env abandoned) (rs_media rs) lib = (lib1, f1)" by (metis surj_pair)
  obtain lib2 f2 where 2: "resolve_each (resolve_season_resets out env sc abandoned) (rs_seasons rs) lib1 = (lib2, f2)"
    by (metis surj_pair)
  have "good st (tables lib1)" by (rule resolve_each_good [OF _ 1 g]) (rule resolve_media_good)
  then have "good st (tables lib2)" by (rule resolve_each_good [OF _ 2, rotated]) (rule resolve_season_resets_good)
  then show ?thesis using r by (simp add: resolve_resets_def 1 2)
qed

end
