(* ===== verification/Request_Outcomes.thy ===== *)
theory Request_Outcomes
  imports Request_Guards
begin

section \<open>What removals, edits and approvals come to\<close>

text \<open>
  The exact outcome of a removal (\<open>remove\<close> of \<open>src/backend-rs/src/routes/requestedit.rs\<close> with the
  remove hook of \<open>lifecycle.rs\<close>), of a season edit, and where an approved request is sent.
\<close>

subsection \<open>Removing\<close>

definition statuses :: "media_row \<Rightarrow> int \<times> int \<times> int" where
  "statuses m = (m_id m, m_status m, m_status4k m)"

lemma set_season_statuses:
  "map statuses (media_table (set_season_status stamp i four s d)) = map statuses (media_table d)"
  "request_table (set_season_status stamp i four s d) = request_table d"
  by (simp_all add: set_season_status_def modify_season_def statuses_def)

lemma apply_seasons_statuses:
  "map statuses (media_table (fold (apply_write stamp i) (map (\<lambda>s. SetSeason four (f s) x) ss) d)) = map statuses (media_table d)"
  by (induction ss arbitrary: d) (simp_all add: apply_write_def set_season_statuses)

lemma apply_write_requests: "request_table (fold (apply_write stamp i) ws d) = request_table d"
  by (induction ws arbitrary: d)
    (auto simp: apply_write_def set_season_statuses modify_media_def split: media_write.split)

text \<open>
  The status a media row is left with in one quality once a request of its title is gone, given the others: its own
  while one of them is open there or the title is there, else deleted where one was completed, else unknown.
\<close>

definition settled_status :: "request_row list \<Rightarrow> bool \<Rightarrow> int \<Rightarrow> int" where
  "settled_status others four now =
     (if (\<exists>r\<in>set others. r_is4k r = four \<and> r_status r \<notin> {COMPLETED, DECLINED}) \<or> now \<in> {M_PARTIAL, M_AVAILABLE}
      then now
      else if \<exists>r\<in>set others. r_is4k r = four \<and> r_status r = COMPLETED then M_DELETED
      else M_UNKNOWN)"

lemma settled_fallback: "settled_status others four now = unwrap_or now (fallback_status others four now)"
  by (auto simp: settled_status_def fallback_status_def is_open_def list_ex_iff)

definition settled_media :: "request_row list \<Rightarrow> int option \<Rightarrow> media_row \<Rightarrow> int \<times> int \<times> int" where
  "settled_media others title m =
     (if title = Some (m_id m)
      then (m_id m, settled_status others False (m_status m), settled_status others True (m_status4k m))
      else statuses m)"

lemma media_by_id_unique:
  assumes "ids_ok d" "media_by_id d i = Some m" "q \<in> set (media_table d)" "m_id q = i"
  shows "q = m"
  using assms media_by_id_SomeD [OF assms(2)]
  by (metis distinct_map fresh_def ids_ok_def inj_onD)

lemma remove_with_hook_exact:
  assumes w: "remove_with_hook stamp d row = Inr d'" and ok: "ids_ok d"
  shows "request_table d' = filter (\<lambda>q. r_id q \<noteq> r_id row) (request_table d) \<and>
    map statuses (media_table d') = map (settled_media (filter (\<lambda>q. r_media_id q = r_media_id row \<and> r_id q \<noteq> r_id row)
      (request_table d)) (r_media_id row)) (media_table d)"
proof -
  obtain ws where a: "after_remove d row [r_id row] = Inr ws"
    and d': "d' = fold (apply_write stamp (unwrap_or 0 (r_media_id row))) ws (delete_request (r_id row) d)"
    using w by (auto simp: remove_with_hook_def elim!: and_then_InrE)
  obtain i media where m: "r_media_id row = Some i" "media_by_id d i = Some media" "m_id media = i"
    using a media_by_id_SomeD by (auto simp: after_remove_def split: option.splits bind_splits)
  define others where "others = filter (\<lambda>q. r_media_id q = r_media_id row \<and> r_id q \<noteq> r_id row) (request_table d)"
  have reqs: "filter (\<lambda>r. r_id r \<noteq> r_id row \<and> r_id r \<notin> set [r_id row]) (requests_of_media d i) = others"
    by (auto simp: others_def requests_of_media_def m(1) intro: filter_cong)
  define st where "st = opt_filter (\<lambda>s. s \<noteq> m_status media) (fallback_status others False (m_status media))"
  define st4k where "st4k = opt_filter (\<lambda>s. s \<noteq> m_status4k media) (fallback_status others True (m_status4k media))"
  have new: "unwrap_or (m_status media) st = settled_status others False (m_status media)"
    "unwrap_or (m_status4k media) st4k = settled_status others True (m_status4k media)"
    by (simp_all add: st_def st4k_def settled_fallback opt_filter_def split: option.split)
  define four numbers held where "four = r_is4k row" and "numbers = child_seasons row"
    and "held = concat (map child_seasons (filter (\<lambda>r. r_is4k r = four \<and> is_open r) others))"
  define ss where "ss = (if m_media_type media = ''tv'' then filter (\<lambda>s.
                  sn_season_number s \<in> set numbers \<and> sn_season_number s \<notin> set held \<and>
                  (season_status four s = M_PENDING \<or> season_status four s = M_PROCESSING)) (m_seasons media) else [])"
  have ws: "ws = (if st \<noteq> None \<or> st4k \<noteq> None then [SetMedia st st4k] else []) @
      map (\<lambda>s. SetSeason four (sn_id s) M_UNKNOWN) ss"
    using a unfolding after_remove_def m(1) Option.bind.simps m(2) option.case Let_def m(3) reqs
      sum.inject st_def [symmetric] st4k_def [symmetric] four_def [symmetric] numbers_def [symmetric] held_def [symmetric]
    unfolding ss_def by (cases "m_media_type media = ''tv''") (simp_all only: if_True if_False list.map simp_thms)
  define d1 where "d1 = fold (apply_write stamp i) (if st \<noteq> None \<or> st4k \<noteq> None then [SetMedia st st4k] else [])
      (delete_request (r_id row) d)"
  have "map statuses (media_table d1) = map (settled_media others (Some i)) (media_table d)"
  proof (cases "st \<noteq> None \<or> st4k \<noteq> None")
    case True
    then have t: "media_table d1 = map (\<lambda>m. if m_id m = i then m\<lparr>m_status := unwrap_or (m_status m) st,
        m_status4k := unwrap_or (m_status4k m) st4k, m_updated_at := stamp\<rparr> else m) (media_table d)"
      by (simp add: d1_def apply_write_def modify_media_def delete_request_def)
    show ?thesis
      unfolding t map_map
      using media_by_id_unique [OF ok m(2)] new by (auto simp: statuses_def settled_media_def)
  next
    case False
    then have "media_table d1 = media_table d" by (simp add: d1_def delete_request_def)
    moreover have "settled_media others (Some i) q = statuses q" if "q \<in> set (media_table d)" for q
      using media_by_id_unique [OF ok m(2) that] new False by (auto simp: statuses_def settled_media_def)
    ultimately show ?thesis by simp
  qed
  then have "map statuses (media_table d') = map (settled_media others (Some i)) (media_table d)"
    unfolding d' ws m(1) unwrap_or_simps fold_append o_apply apply_seasons_statuses d1_def [symmetric] .
  moreover have "request_table d' = filter (\<lambda>q. r_id q \<noteq> r_id row) (request_table d)"
    unfolding d' apply_write_requests by (simp add: delete_request_def)
  ultimately show ?thesis unfolding others_def m(1) [symmetric] by (intro conjI)
qed

text \<open>
  C11 A removal takes exactly one request away: it was the remover's own pending one, or they manage
  requests. Its title's media row falls back in each quality with no open request left (unless it is
  available or partly available there): to deleted where a completed request remains, else to unknown, whatever it
  was; in the other qualities it keeps its status, and no other media row changes its own.
\<close>

theorem remove_request_exact:
  assumes r: "remove_request stamp d viewer i = Inr d'" and ok: "ids_ok d"
  shows "\<exists>user row. viewer = Some user \<and> row \<in> set (request_table d) \<and> r_id row = i \<and>
    (has_permission (cu_permissions user) MANAGE_REQUESTS \<or>
       r_requested_by_id row = Some (cu_id user) \<and> r_status row = PENDING) \<and>
    request_table d' = filter (\<lambda>q. r_id q \<noteq> i) (request_table d) \<and>
    map statuses (media_table d') = map (settled_media (filter (\<lambda>q. r_media_id q = r_media_id row \<and> r_id q \<noteq> i)
      (request_table d)) (r_media_id row)) (media_table d)"
  using r
proof (rule remove_request_cases)
  fix e user
  assume u: "authenticated viewer 0 = Inr user" and e: "load_entity d i = Some e"
    and p: "has_permission (cu_permissions user) MANAGE_REQUESTS \<or>
       r_requested_by_id (en_row e) = Some (cu_id user) \<and> r_status (en_row e) = PENDING"
    and w: "remove_with_hook stamp d (en_row e) = Inr d'"
  obtain row where row: "request_by_id d i = Some row" "en_row e = loaded_row row" by (rule load_entity_row [OF e])
  have "viewer = Some user" using u by (auto simp: authenticated_def split: option.splits if_splits)
  then show ?thesis
    using request_by_id_SomeD [OF row(1)] p remove_with_hook_exact [OF w ok] row(2)
    by (intro exI [of _ user] exI [of _ row]) (simp add: loaded_row_def)
qed

subsection \<open>Editing seasons\<close>


subsection \<open>Where an approved request is sent\<close>

definition only_notes :: "effect list \<Rightarrow> bool" where
  "only_notes fx \<longleftrightarrow> list_all (\<lambda>x. case x of Notify _ _ \<Rightarrow> True | _ \<Rightarrow> False) fx"

lemma only_notes_simps [simp]:
  "only_notes []" "only_notes (Notify k i # fx) = only_notes fx" "only_notes (fx @ fx') \<longleftrightarrow> only_notes fx \<and> only_notes fx'"
  by (simp_all add: only_notes_def)

lemma only_notes_adds: "only_notes fx \<Longrightarrow> AddMovie s o1 \<notin> set fx \<and> AddSeries s o2 \<notin> set fx"
  by (force simp: only_notes_def list_all_iff)

lemma notify_only_notes [simp]: "only_notes (notify_approved_or_declined e b)" "only_notes (notify_available env d e)"
  by (simp_all add: notify_approved_or_declined_def notify_available_def Let_def split: option.split sum.split)

lemma save_settled_notes: "save_settled env d e = (d', e', fx) \<Longrightarrow> only_notes fx"
  by (auto simp: save_settled_def settled_update_def Let_def split: prod.splits if_splits)

lemma save_settled_type:
  "save_settled env d e = (d', e', fx) \<Longrightarrow> r_request_type (en_row e') = r_request_type (en_row e)"
proof -
  assume s: "save_settled env d e = (d', e', fx)"
  have u: "r_request_type (snd (update_parent_status st x row)) = r_request_type row" for st x row
    by (simp add: update_parent_status_def Let_def with_child_status_def split: option.split)
  have w: "r_request_type (fst (snd (save_request st x row b))) = r_request_type row" for st x row b
    by (simp add: save_request_def Let_def split_def split: option.split)
  show ?thesis
    using s w [of "e_stamp env" d "en_row e" True] u
    by (auto simp: save_settled_def settled_update_def Let_def split: prod.splits if_splits) (metis snd_conv)+
qed

text \<open>\<open>fits env four section server\<close>: a configured server of the section with the quality.\<close>

definition fits :: "env \<Rightarrow> bool \<Rightarrow> string \<Rightarrow> json \<Rightarrow> bool" where
  "fits env four section server \<longleftrightarrow>
     server \<in> set (servers_in env section) \<and> Option.bind (jget server ''is4k'') as_bool = Some four"

lemma pick_server_fits: "pick_server (servers_in env section) i four = Some (server, own) \<Longrightarrow> fits env four section server"
  by (auto simp: pick_server_def fits_def Let_def find_Some_iff split: option.splits if_splits)

lemma radarr_inner_adds:
  assumes "send_to_radarr_inner out env d e = (d', e', fx, err)"
  shows "only_notes fx \<or> (\<exists>server options. fx = [AddMovie server options] \<and> e' = e \<and> fits env (r_is4k (en_row e)) ''radarr'' server)"
proof -
  obtain d1 e1 fx1 where c: "save_settled env d (with_request_status COMPLETED e) = (d1, e1, fx1)" by (metis prod_cases3)
  show ?thesis
    using assms save_settled_notes [OF c] pick_server_fits
    unfolding send_to_radarr_inner_def Let_def servers_in_def [of _ "''radarr''", symmetric] c
    by (simp split: if_split_asm option.split_asm sum.split_asm prod.split_asm) blast+
qed

lemma send_to_radarr_adds:
  assumes s: "send_to_radarr out env d e = (d', e', fx)" and a: "AddMovie server options \<in> set fx \<or> AddSeries server options' \<in> set fx"
  shows "AddMovie server options \<in> set fx \<and> r_status (en_row e) = APPROVED \<and> r_request_type (en_row e) = ''movie'' \<and>
    fits env (r_is4k (en_row e)) ''radarr'' server"
proof -
  have t: "r_status (en_row e) = APPROVED \<and> r_request_type (en_row e) = ''movie''"
    using s a by (auto simp: send_to_radarr_def split: if_splits)
  obtain d1 e1 fx1 err where i: "send_to_radarr_inner out env d e = (d1, e1, fx1, err)" by (metis prod_cases4)
  obtain d2 e2 fx2 where f: "save_settled env d1 (with_request_status FAILED e1) = (d2, e2, fx2)" by (metis prod_cases3)
  have "fx = fx1 \<or> fx = fx1 @ fx2 @ [Notify MediaFailed (r_id (en_row e2))]"
    using s t by (auto simp: send_to_radarr_def i f split: option.splits)
  then have "AddMovie server options \<in> set fx1 \<or> AddSeries server options' \<in> set fx1" "set fx1 \<subseteq> set fx"
    using a only_notes_adds [OF save_settled_notes [OF f]] by auto
  then show ?thesis using radarr_inner_adds [OF i] only_notes_adds [of fx1] t by auto
qed

lemma send_to_radarr_type:
  assumes s: "send_to_radarr out env d e = (d', e', fx)"
  shows "(d', e') = (d, e) \<or> r_request_type (en_row e) = ''movie'' \<and> r_request_type (en_row e') = ''movie''"
proof (cases "r_status (en_row e) \<noteq> APPROVED \<or> r_request_type (en_row e) \<noteq> ''movie''")
  case True
  then show ?thesis using s by (simp add: send_to_radarr_def)
next
  case False
  obtain d1 e1 fx1 err where i: "send_to_radarr_inner out env d e = (d1, e1, fx1, err)" by (metis prod_cases4)
  obtain d2 e2 fx2 where c: "save_settled env d (with_request_status COMPLETED e) = (d2, e2, fx2)" by (metis prod_cases3)
  obtain d3 e3 fx3 where f: "save_settled env d1 (with_request_status FAILED e1) = (d3, e3, fx3)" by (metis prod_cases3)
  have "e1 = e \<or> e1 = e2"
    using i by (auto simp: send_to_radarr_inner_def Let_def c split: if_splits option.splits sum.splits)
  then have t: "r_request_type (en_row e1) = ''movie''"
    using save_settled_type [OF c] False by (auto simp: with_request_status_def)
  have "e' = e1 \<or> e' = e3" using s False by (auto simp: send_to_radarr_def i f split: option.splits)
  then show ?thesis using save_settled_type [OF f] t False by (auto simp: with_request_status_def)
qed

lemma add_to_sonarr_adds:
  assumes "add_to_sonarr out env d e series i t = (d', e', fx, err)"
  shows "fx = [] \<or> (\<exists>server options. fx = [AddSeries server options] \<and> fits env (r_is4k (en_row e)) ''sonarr'' server)"
  using assms pick_server_fits
  unfolding add_to_sonarr_def Let_def
  by (simp split: if_split_asm option.split_asm sum.split_asm prod.split_asm) blast+

lemma sonarr_inner_adds:
  assumes "send_to_sonarr_inner out env d e = (d', e', fx, err)"
  shows "only_notes fx \<or> (\<exists>server options. fx = [AddSeries server options] \<and> fits env (r_is4k (en_row e)) ''sonarr'' server)"
proof -
  obtain d1 e1 fx1 where c: "save_settled env d (complete_children e) = (d1, e1, fx1)" by (metis prod_cases3)
  show ?thesis
    using assms save_settled_notes [OF c]
    unfolding send_to_sonarr_inner_def Let_def c
    by (simp split: if_split_asm option.split_asm sum.split_asm prod.split_asm) (auto dest!: add_to_sonarr_adds)
qed

lemma send_to_sonarr_adds:
  assumes s: "send_to_sonarr out env d e = (d', e', fx)" and a: "AddMovie server options \<in> set fx \<or> AddSeries server options' \<in> set fx"
  shows "AddSeries server options' \<in> set fx \<and> r_status (en_row e) = APPROVED \<and> r_request_type (en_row e) = ''tv'' \<and>
    fits env (r_is4k (en_row e)) ''sonarr'' server"
proof -
  have t: "r_status (en_row e) = APPROVED \<and> r_request_type (en_row e) = ''tv''"
    using s a by (auto simp: send_to_sonarr_def split: if_splits)
  obtain d1 e1 fx1 err where i: "send_to_sonarr_inner out env d e = (d1, e1, fx1, err)" by (metis prod_cases4)
  have "fx = fx1 \<or> fx = fx1 @ [Notify MediaFailed (r_id (en_row e1))]"
    using s t by (auto simp: send_to_sonarr_def i split: option.splits)
  then have "AddMovie server options \<in> set fx1 \<or> AddSeries server options' \<in> set fx1" "set fx1 \<subseteq> set fx"
    using a by auto
  then show ?thesis using sonarr_inner_adds [OF i] only_notes_adds [of fx1] t by auto
qed

text \<open>
  C13 The update hook sends a request on only once it is approved, a movie to a configured Radarr and a
  series to a configured Sonarr, and only to a server of the request's quality: a 4K request never
  reaches a server that is not a 4K one, nor the other way round.
\<close>

theorem sent_to_same_quality:
  assumes a: "after_update out env d e = (d', e', fx)"
    and x: "AddMovie server options \<in> set fx \<or> AddSeries server options' \<in> set fx"
  shows "r_status (en_row e) = APPROVED \<and>
    (r_request_type (en_row e) = ''movie'' \<and> fits env (r_is4k (en_row e)) ''radarr'' server \<or>
     r_request_type (en_row e) = ''tv'' \<and> fits env (r_is4k (en_row e)) ''sonarr'' server)"
proof -
  obtain d1 e1 f1 where r: "send_to_radarr out env d e = (d1, e1, f1)" by (metis prod_cases3)
  obtain d2 e2 f2 where s: "send_to_sonarr out env d1 e1 = (d2, e2, f2)" by (metis prod_cases3)
  have "AddMovie server options \<in> set f1 \<or> AddSeries server options' \<in> set f1 \<or>
      AddMovie server options \<in> set f2 \<or> AddSeries server options' \<in> set f2"
    using a x only_notes_adds [OF notify_only_notes(1)] only_notes_adds [OF notify_only_notes(2)]
    by (auto simp: after_update_def r s Let_def split: prod.splits if_splits)
  then show ?thesis
    using send_to_radarr_adds [OF r] send_to_sonarr_adds [OF s] send_to_radarr_type [OF r] by fastforce
qed

subsection \<open>Examples\<close>

lemma not_refused: "(case x of Inl _ \<Rightarrow> False | Inr _ \<Rightarrow> True) \<Longrightarrow> \<exists>y. x = Inr y"
  by (cases x) auto

lemma made_db_ids: "ids_ok made_db"
  by code_simp

lemma made_db_one: "filter (\<lambda>q. r_id q \<noteq> 1) (request_table made_db) = []"
  by (simp add: made_db_def made_request_def)

lemma demo_removal: "\<exists>d'. remove_request None made_db (Some demo_viewer) 1 = Inr d'"
  by (rule not_refused) code_simp

theorem remove_request_exact_witness:
  "\<exists>d'. remove_request None made_db (Some demo_viewer) 1 = Inr d' \<and> request_table d' = []"
proof -
  obtain d' where d': "remove_request None made_db (Some demo_viewer) 1 = Inr d'"
    using demo_removal by (elim exE)
  have "request_table d' = filter (\<lambda>q. r_id q \<noteq> 1) (request_table made_db)"
    using remove_request_exact [OF d' made_db_ids] by (elim conjE exE)
  then have "request_table d' = []" using made_db_one by (rule trans)
  with d' show ?thesis by (intro exI conjI)
qed




definition demo_radarr :: env where
  "demo_radarr = demo_env\<lparr>
     e_settings := JObj [(''radarr'', JArr [JObj [(''id'', JInt 0), (''isDefault'', JBool True), (''is4k'', JBool False)]])],
     e_tmdb := (\<lambda>_ _ _. Inr (JObj [(''title'', JStr ''M''), (''release_date'', JStr ''1999-03-31'')]))\<rparr>"

definition demo_approved :: entity where
  "demo_approved = \<lparr>en_row = made_request\<lparr>r_status := APPROVED\<rparr>, en_media = Some made_media,
     en_requested_by = None, en_modified_by = None\<rparr>"

definition demo_sent :: "db \<times> entity \<times> effect list" where
  "demo_sent = after_update demo_outside demo_radarr made_db demo_approved"

lemma demo_sent_adds:
  "list_ex (\<lambda>x. case x of AddMovie server options \<Rightarrow> mo_year options = JInt 1999 | _ \<Rightarrow> False) (snd (snd demo_sent))"
  by code_simp

theorem sent_to_same_quality_witness:
  "\<exists>server options. AddMovie server options \<in> set (snd (snd demo_sent)) \<and> fits demo_radarr False ''radarr'' server"
proof -
  obtain server options where x: "AddMovie server options \<in> set (snd (snd demo_sent))"
    using demo_sent_adds unfolding list_ex_iff by (elim bexE) (simp split: effect.split_asm)
  have a: "after_update demo_outside demo_radarr made_db demo_approved = (fst demo_sent, fst (snd demo_sent), snd (snd demo_sent))"
    by (simp add: demo_sent_def)
  show ?thesis
    using sent_to_same_quality [OF a disjI1 [OF x]] x by (auto simp: demo_approved_def made_request_def)
qed

end
