(* ===== verification/Scan_Facts.thy ===== *)
theory Scan_Facts
  imports Scan_Props Request_Outcomes
begin

section \<open>What a scan tells of a title\<close>

text \<open>
  The decisions of a scan: a season is available just when it was or all its episodes are there, a series
  exactly when every season that weighs in is, and abandoned seasons take just the requests that
  held nothing else. Then a film found on disk, from the scan to its requests.
\<close>

named_theorems media_statuses

lemmas [media_statuses] = M_UNKNOWN_def M_PENDING_def M_PROCESSING_def M_PARTIAL_def M_AVAILABLE_def
  M_BLOCKLISTED_def M_DELETED_def

subsection \<open>What a scan leaves alone\<close>

lemma opt_set_seasons: "(\<And>v m. m_seasons (put v m) = m_seasons m) \<Longrightarrow> m_seasons (opt_set put v m) = m_seasons m"
  by (simp add: opt_set_def)

lemma claim_keys_seasons [simp]: "m_seasons (claim_keys opts enable4k s m) = m_seasons m"
  by (simp add: claim_keys_def Let_def opt_set_def split: prod.split)

lemma claim_keys_status [simp]:
  "m_status (claim_keys opts enable4k s m) = m_status m" "m_status4k (claim_keys opts enable4k s m) = m_status4k m"
  "m_id (claim_keys opts enable4k s m) = m_id m" "m_media_type (claim_keys opts enable4k s m) = m_media_type m"
  by (simp_all add: claim_keys_def Let_def opt_set_def split: prod.split)

lemma scan_step_cases:
  assumes "scan_step opts enable4k defer loaded s (m, created, deferred) = (m', created', deferred')"
  obtains (stored) i where "i < loaded" "sn_season_number (m_seasons m ! i) = ps_season_number s" "created' = created"
      "m_seasons m' = (m_seasons m)[i := fst (scan_season enable4k defer s (m_seasons m ! i))]"
  | (created) "\<forall>i<loaded. sn_season_number (m_seasons m ! i) \<noteq> ps_season_number s"
      "m_seasons m' = m_seasons m @ [new_season enable4k s (Some (m_id m))]"
      "created' = created @ [\<lparr>fs_index = length (m_seasons m), fs_four_k = False\<rparr>]"
proof (cases "find (\<lambda>i. sn_season_number (m_seasons m ! i) = ps_season_number s) [0..<loaded]")
  case None
  have "\<forall>i<loaded. sn_season_number (m_seasons m ! i) \<noteq> ps_season_number s" using None by (auto simp: find_None_iff)
  then show ?thesis
    using created assms [unfolded scan_step_def Let_def prod.case claim_keys_seasons claim_keys_status None option.case]
    by auto
next
  case (Some i)
  then have "i < loaded" "sn_season_number (m_seasons m ! i) = ps_season_number s"
    by (auto dest!: find_Some_iff [THEN iffD1])
  then show ?thesis
    using stored assms [unfolded scan_step_def Let_def prod.case claim_keys_seasons claim_keys_status Some option.case]
    by (auto split: prod.splits)
qed

text \<open>The columns a scan sets besides the statuses leave the seasons alone.\<close>

lemma set_if_differs_keep:
  "(\<And>v m. f (put v m) = f m) \<Longrightarrow> f (fst (set_if_differs column put given mc)) = f (fst mc)"
  by (simp add: set_if_differs_def split: option.split)

lemma set_services_keep [simp]:
  "m_seasons (fst (set_services k a b c mc)) = m_seasons (fst mc)"
  "m_status (fst (set_services k a b c mc)) = m_status (fst mc)"
  "m_status4k (fst (set_services k a b c mc)) = m_status4k (fst mc)"
  "m_id (fst (set_services k a b c mc)) = m_id (fst mc)"
  "m_media_type (fst (set_services k a b c mc)) = m_media_type (fst mc)"
  by (simp_all add: set_services_def set_if_differs_keep)

lemma set_added_keep [simp]:
  "m_seasons (set_added_at a m) = m_seasons m" "m_status (set_added_at a m) = m_status m"
  "m_status4k (set_added_at a m) = m_status4k m" "m_id (set_added_at a m) = m_id m"
  "m_media_type (set_added_at a m) = m_media_type m"
  by (simp_all add: set_added_at_def split: option.split)

text \<open>The seasons of a scanned series are those the loop over the scanned seasons leaves.\<close>

lemma apply_show_after:
  assumes f: "fold (scan_step opts enable4k defer (length (m_seasons media))) scanned (media, [], []) = (m, created, deferred)"
  shows "m_seasons (su_after (apply_show media scanned opts enable4k now defer)) = m_seasons m"
    "su_fresh (apply_show media scanned opts enable4k now defer) = created"
    "m_status (su_after (apply_show media scanned opts enable4k now defer)) =
       rollup_show_status (m_seasons m) scanned False (Some (m_status media)) True"
    "m_status4k (su_after (apply_show media scanned opts enable4k now defer)) =
       rollup_show_status (m_seasons m) scanned True (Some (m_status4k media)) enable4k"
  by (simp_all add: apply_show_def f Let_def)

lemma fst_if_pair: "fst (if c then (a, b) else (a', b')) = (if c then a else a')"
  by simp

lemma apply_movie_keep:
  fixes f :: "media_row \<Rightarrow> 'a"
  assumes "\<And>v m. f (m\<lparr>m_rating_key := v\<rparr>) = f m" "\<And>v m. f (m\<lparr>m_rating_key4k := v\<rparr>) = f m"
    "\<And>v m. f (m\<lparr>m_jellyfin_media_id := v\<rparr>) = f m" "\<And>v m. f (m\<lparr>m_jellyfin_media_id4k := v\<rparr>) = f m"
    "\<And>v m. f (m\<lparr>m_imdb_id := v\<rparr>) = f m" "\<And>a m. f (set_added_at a m) = f m"
    "\<And>k a b c mc. f (fst (set_services k a b c mc)) = f (fst mc)"
  shows "f (fst (apply_movie m opts defer)) =
    f (if status_of m (mv_is4k opts) \<noteq> M_AVAILABLE \<and> \<not> movie_reset_deferred m opts defer
       then with_status (mv_is4k opts) (next_movie_status opts (status_of m (mv_is4k opts))) m else m)"
proof -
  have d: "f (fst (set_if_differs column put given mc)) = f (fst mc)" if "\<And>v m. f (put v m) = f m"
    for column :: "media_row \<Rightarrow> string option" and put given mc
    using that by (rule set_if_differs_keep)
  have i: "f (fst (case x of None \<Rightarrow> mc | Some v \<Rightarrow> if c then ((fst mc)\<lparr>m_imdb_id := Some v\<rparr>, True) else mc)) = f (fst mc)"
    for x :: "string option" and mc c by (simp add: assms split: option.split)
  show ?thesis
    unfolding apply_movie_def Let_def split_def
    by (simp add: d i assms if_distrib [of fst] if_distrib [of f] split del: if_split cong: if_cong) (simp add: assms)
qed

lemma apply_movie_status:
  "status_of (fst (apply_movie m opts defer)) j =
    (if j = mv_is4k opts \<and> status_of m j \<noteq> M_AVAILABLE \<and> \<not> movie_reset_deferred m opts defer
     then next_movie_status opts (status_of m j) else status_of m j)"
proof -
  have "status_of (fst (apply_movie m opts defer)) j =
    status_of (if status_of m (mv_is4k opts) \<noteq> M_AVAILABLE \<and> \<not> movie_reset_deferred m opts defer
       then with_status (mv_is4k opts) (next_movie_status opts (status_of m (mv_is4k opts))) m else m) j"
    by (rule apply_movie_keep) (simp_all add: status_of_def)
  then show ?thesis by (auto simp: status_of_def with_status_def)
qed

lemma apply_movie_fields:
  "m_id (fst (apply_movie m opts defer)) = m_id m" "m_media_type (fst (apply_movie m opts defer)) = m_media_type m"
  "m_seasons (fst (apply_movie m opts defer)) = m_seasons m"
  by (rule trans [OF apply_movie_keep]; simp add: with_status_def)+

lemma apply_movie_changed:
  assumes "status_of (fst (apply_movie m opts defer)) j \<noteq> status_of m j"
  shows "snd (apply_movie m opts defer)"
proof -
  have c: "status_of m (mv_is4k opts) \<noteq> M_AVAILABLE \<and> \<not> movie_reset_deferred m opts defer"
    "next_movie_status opts (status_of m (mv_is4k opts)) \<noteq> status_of m (mv_is4k opts)"
    using assms by (auto simp: apply_movie_status split: if_splits)
  have mono: "snd mc \<Longrightarrow> snd (set_if_differs column put given mc)"
    for column :: "media_row \<Rightarrow> 'a option" and put given mc by (simp add: set_if_differs_def split: option.split)
  have services: "snd mc \<Longrightarrow> snd (set_services k a b d mc)" for k a b d mc
    by (simp add: set_services_def set_if_differs_def split: option.split)
  have imdb: "snd mc \<Longrightarrow> snd (case x of None \<Rightarrow> mc | Some v \<Rightarrow> if b then ((fst mc)\<lparr>m_imdb_id := Some v\<rparr>, True) else mc)"
    for x :: "string option" and mc b by (simp split: option.split)
  have texts: "snd mc \<Longrightarrow> snd (set_if_differs column put given mc)"
    for column :: "media_row \<Rightarrow> string option" and put given mc by (simp add: set_if_differs_def split: option.split)
  show ?thesis
    using c unfolding apply_movie_def Let_def by (simp add: services imdb texts)
qed

subsection \<open>Seasons\<close>

text \<open>
  \<open>fair_status\<close>: what the status of a season may become in one quality when a scan listed it: available just when
  it was or every listed episode is there, partly available when some are; with none there (or a quality that is
  not enabled) it is pursued when the scan says so, is unknown again where it was pursued, or stays.
\<close>

definition fair_status :: "bool \<Rightarrow> bool \<Rightarrow> scanned_season \<Rightarrow> int \<Rightarrow> int \<Rightarrow> bool" where
  "fair_status k enabled i old new \<longleftrightarrow>
     (let listed = ps_total_episodes i;
          present = (if listed \<le> 0 then 0 else if k then ps_episodes4k i else ps_episodes i);
          here = (enabled \<and> 0 < present);
          asked = (ps_is4k_override i = k)
      in (new = M_AVAILABLE \<longleftrightarrow> old = M_AVAILABLE \<or> here \<and> present = listed) \<and>
         (here \<and> present \<noteq> listed \<and> old \<noteq> M_AVAILABLE \<longrightarrow> new = M_PARTIAL) \<and>
         (\<not> here \<and> asked \<and> ps_processing i \<and> old \<notin> {M_AVAILABLE, M_DELETED} \<longrightarrow> new = M_PROCESSING) \<and>
         (\<not> here \<and> new \<noteq> old \<longrightarrow> new = M_PROCESSING \<and> asked \<and> ps_processing i \<and> old \<noteq> M_DELETED \<or>
            new = M_UNKNOWN \<and> old = M_PROCESSING \<and> asked \<and> \<not> ps_processing i \<and> present = 0))"

definition quality_on :: "bool \<Rightarrow> bool \<Rightarrow> bool" where
  "quality_on enable4k k \<longleftrightarrow> k \<longrightarrow> enable4k"

definition kept_season :: "bool \<Rightarrow> scanned_season list \<Rightarrow> season_row \<Rightarrow> season_row \<Rightarrow> bool" where
  "kept_season enable4k scanned s s' \<longleftrightarrow>
     sn_id s' = sn_id s \<and> sn_season_number s' = sn_season_number s \<and> sn_media_id s' = sn_media_id s \<and>
     (sn_season_number s \<notin> ps_season_number ` set scanned \<longrightarrow> s' = s) \<and>
     (\<forall>i\<in>set scanned. ps_season_number i = sn_season_number s \<longrightarrow>
        (\<forall>k. fair_status k (quality_on enable4k k) i (season_status k s) (season_status k s')))"

definition added_season :: "bool \<Rightarrow> int \<Rightarrow> scanned_season \<Rightarrow> season_row \<Rightarrow> bool" where
  "added_season enable4k media_id i s' \<longleftrightarrow>
     sn_season_number s' = ps_season_number i \<and> sn_media_id s' = Some media_id \<and>
     (\<forall>k. fair_status k (quality_on enable4k k) i M_UNKNOWN (season_status k s'))"

text \<open>A season weighs in when it is no special and the scan listed episodes of it, or did not list it and it is known.\<close>

definition weighs :: "scanned_season list \<Rightarrow> bool \<Rightarrow> season_row \<Rightarrow> bool" where
  "weighs scanned k s \<longleftrightarrow> sn_season_number s \<noteq> 0 \<and>
     ((\<exists>i\<in>set scanned. ps_season_number i = sn_season_number s \<and> 0 < ps_total_episodes i) \<or>
      sn_season_number s \<notin> ps_season_number ` set scanned \<and> season_status k s \<noteq> M_UNKNOWN)"

definition all_there :: "scanned_season list \<Rightarrow> bool \<Rightarrow> season_row list \<Rightarrow> bool" where
  "all_there scanned k seasons \<longleftrightarrow> (\<exists>s\<in>set seasons. weighs scanned k s) \<and>
     (\<forall>s\<in>set seasons. weighs scanned k s \<longrightarrow> season_status k s = M_AVAILABLE)"

lemma find_unique:
  assumes "distinct (map key xs)" "find (\<lambda>x. key x = n) xs = Some i"
  shows "i \<in> set xs" "key i = n" "\<And>j. j \<in> set xs \<Longrightarrow> key j = n \<Longrightarrow> j = i"
proof -
  show i: "i \<in> set xs" "key i = n" using assms(2) by (auto dest!: find_Some_iff [THEN iffD1])
  show "j = i" if "j \<in> set xs" "key j = n" for j
    using inj_onD [OF conjunct2 [OF assms(1) [unfolded distinct_map]], of j i] i that by simp
qed

lemma counts_weighs:
  assumes "distinct (map ps_season_number scanned)"
  shows "counts_for_show scanned k s \<longleftrightarrow> weighs scanned k s"
proof (cases "find (\<lambda>i. ps_season_number i = sn_season_number s) scanned")
  case None
  then have "sn_season_number s \<notin> ps_season_number ` set scanned" by (auto simp: find_None_iff)
  then show ?thesis using None by (auto simp: counts_for_show_def weighs_def image_iff)
next
  case (Some i)
  note i = find_unique [OF assms Some]
  have "sn_season_number s \<in> ps_season_number ` set scanned" using i(1,2) by (metis imageI)
  moreover have "(\<exists>j\<in>set scanned. ps_season_number j = sn_season_number s \<and> 0 < ps_total_episodes j) \<longleftrightarrow> 0 < ps_total_episodes i"
    using i by blast
  ultimately show ?thesis by (simp add: counts_for_show_def weighs_def Some)
qed

lemma next_status_fair:
  assumes "present = (if ps_total_episodes i \<le> 0 then 0 else if k then ps_episodes4k i else ps_episodes i)"
    "asked \<longleftrightarrow> ps_is4k_override i = k"
  shows "fair_status k enabled i old (next_season_status (Some old) (ps_total_episodes i) present enabled asked (ps_processing i))"
  unfolding fair_status_def Let_def next_season_status_def assms by (auto simp: media_statuses)

lemma next_status_fresh: "next_season_status None n p c q b = next_season_status (Some M_UNKNOWN) n p c q b"
  by (simp add: next_season_status_def media_statuses)

lemma fair_pursued:
  assumes "\<not> ps_processing i" "old = M_PROCESSING" "ps_is4k_override i = k" "(if k then ps_episodes4k i else ps_episodes i) = 0"
  shows "fair_status k enabled i old old"
  using assms by (auto simp: fair_status_def media_statuses)

lemma scan_season_fair:
  "fair_status k (quality_on enable4k k) i (season_status k s) (season_status k (fst (scan_season enable4k defer i s)))"
proof (cases k)
  case True
  then show ?thesis
    using next_status_fair [of _ i True] fair_pursued [of i "sn_status4k s" True]
    by (auto simp: scan_season_def scanned_statuses_def season_status_def counted_def abandoned_season_def
        quality_on_def Let_def split_def)
next
  case False
  then show ?thesis
    using next_status_fair [of _ i False] fair_pursued [of i "sn_status s" False]
    by (auto simp: scan_season_def scanned_statuses_def season_status_def counted_def abandoned_season_def
        quality_on_def Let_def split_def)
qed

lemma new_season_fair: "added_season enable4k media_id i (new_season enable4k i (Some media_id))"
proof -
  have "fair_status k (quality_on enable4k k) i M_UNKNOWN (season_status k (new_season enable4k i (Some media_id)))" for k
    using next_status_fair [of _ i k]
    by (cases k) (auto simp: new_season_def scanned_statuses_def season_status_def counted_def quality_on_def Let_def
        split_def next_status_fresh)
  then show ?thesis by (simp add: added_season_def new_season_def Let_def split_def)
qed

lemma scan_season_keys [simp]:
  "sn_id (fst (scan_season enable4k defer s stored)) = sn_id stored"
  "sn_season_number (fst (scan_season enable4k defer s stored)) = sn_season_number stored"
  by (simp_all add: scan_season_def Let_def split_def)

lemma new_season_number [simp]: "sn_season_number (new_season enable4k s i) = ps_season_number s"
  by (simp add: new_season_def split_def Let_def)

lemma scan_step_id: "scan_step opts enable4k defer loaded s acc = (m', created', deferred') \<Longrightarrow> m_id m' = m_id (fst acc)"
  by (auto simp: scan_step_def Let_def split: prod.splits option.splits)

definition scanned_season_of :: "bool \<Rightarrow> bool \<Rightarrow> scanned_season list \<Rightarrow> season_row \<Rightarrow> season_row" where
  "scanned_season_of enable4k defer scanned stored =
     (case find (\<lambda>i. ps_season_number i = sn_season_number stored) scanned of
        None \<Rightarrow> stored | Some i \<Rightarrow> fst (scan_season enable4k defer i stored))"

lemma update_one:
  assumes "distinct (map key xs)" "i < length xs" "key (xs ! i) = n"
  shows "xs[i := f (xs ! i)] = map (\<lambda>x. if key x = n then f x else x) xs"
proof (rule nth_equalityI)
  fix j assume j: "j < length (xs[i := f (xs ! i)])"
  have "key (xs ! j) = n \<longleftrightarrow> j = i"
    using assms j nth_eq_iff_index_eq [OF assms(1), of j i] by auto
  then show "xs[i := f (xs ! i)] ! j = map (\<lambda>x. if key x = n then f x else x) xs ! j" using j by auto
qed simp

lemma scan_fold_seasons:
  assumes "fold (scan_step opts enable4k defer (length old)) scanned (m, created, deferred) = (m', created', deferred')"
    "m_seasons m = old @ extra" "distinct (map sn_season_number old)" "distinct (map ps_season_number scanned)"
  shows "m_seasons m' = map (scanned_season_of enable4k defer scanned) old @ extra @
    map (\<lambda>i. new_season enable4k i (Some (m_id m))) (filter (\<lambda>i. ps_season_number i \<notin> set (map sn_season_number old)) scanned)"
  using assms
proof (induction scanned arbitrary: m created deferred old extra)
  case Nil
  then show ?case by (simp add: scanned_season_of_def)
next
  case (Cons s scanned)
  obtain m1 c1 d1 where 1: "scan_step opts enable4k defer (length old) s (m, created, deferred) = (m1, c1, d1)"
    by (metis prod_cases3)
  have id: "m_id m1 = m_id m" using scan_step_id [OF 1] by simp
  have rest: "fold (scan_step opts enable4k defer (length old)) scanned (m1, c1, d1) = (m', created', deferred')"
    using Cons.prems(1) 1 by simp
  have other: "find (\<lambda>i. ps_season_number i = ps_season_number s) scanned = None"
    using Cons.prems(4) by (simp add: find_None_iff image_iff) metis
  show ?case
    using 1
  proof (cases rule: scan_step_cases)
    case (stored i)
    let ?f = "\<lambda>x. fst (scan_season enable4k defer s x)"
    define old1 where "old1 = map (\<lambda>x. if sn_season_number x = ps_season_number s then ?f x else x) old"
    have i: "sn_season_number (old ! i) = ps_season_number s" "m_seasons m ! i = old ! i"
      using stored(1,2) Cons.prems(2) by (simp_all add: nth_append)
    have m1: "m_seasons m1 = old1 @ extra"
      using stored(1,4) i update_one [OF Cons.prems(3) stored(1) i(1), of ?f] Cons.prems(2)
      by (simp add: old1_def list_update_append)
    have keys: "map sn_season_number old1 = map sn_season_number old" by (simp add: old1_def)
    have d1: "distinct (map sn_season_number old1)" and len: "length old1 = length old"
      using Cons.prems(3) keys by (simp_all only: keys) (simp add: old1_def)
    have "m_seasons m' = map (scanned_season_of enable4k defer scanned) old1 @ extra @
        map (\<lambda>i. new_season enable4k i (Some (m_id m1))) (filter (\<lambda>i. ps_season_number i \<notin> set (map sn_season_number old1)) scanned)"
      by (rule Cons.IH [OF rest [folded len] m1 d1]) (use Cons.prems(4) in simp)
    moreover have "map (scanned_season_of enable4k defer scanned) old1 = map (scanned_season_of enable4k defer (s # scanned)) old"
      using other by (simp add: old1_def scanned_season_of_def)
    moreover have "ps_season_number s \<in> set (map sn_season_number old)" using i(1) stored(1) by (metis in_set_conv_nth length_map nth_map)
    ultimately show ?thesis by (simp add: id keys)
  next
    case created
    have no: "ps_season_number s \<notin> set (map sn_season_number old)"
    proof
      assume "ps_season_number s \<in> set (map sn_season_number old)"
      then obtain i where "i < length old" "sn_season_number (old ! i) = ps_season_number s" by (auto simp: in_set_conv_nth)
      then show False using created(1) Cons.prems(2) by (auto simp: nth_append)
    qed
    have m1: "m_seasons m1 = old @ (extra @ [new_season enable4k s (Some (m_id m))])" using created(2) Cons.prems(2) by simp
    have "m_seasons m' = map (scanned_season_of enable4k defer scanned) old @ (extra @ [new_season enable4k s (Some (m_id m))]) @
        map (\<lambda>i. new_season enable4k i (Some (m_id m1))) (filter (\<lambda>i. ps_season_number i \<notin> set (map sn_season_number old)) scanned)"
      by (rule Cons.IH [OF rest m1]) (use Cons.prems(3,4) in simp_all)
    moreover have "map (scanned_season_of enable4k defer scanned) old = map (scanned_season_of enable4k defer (s # scanned)) old"
      using no by (auto simp: scanned_season_of_def)
    ultimately show ?thesis using no by (simp add: id)
  qed
qed

lemma scanned_season_kept:
  assumes "distinct (map ps_season_number scanned)"
  shows "kept_season enable4k scanned s (scanned_season_of enable4k defer scanned s)"
proof (cases "find (\<lambda>i. ps_season_number i = sn_season_number s) scanned")
  case None
  then have "scanned_season_of enable4k defer scanned s = s" by (simp add: scanned_season_of_def)
  moreover have "sn_season_number s \<notin> ps_season_number ` set scanned" using None by (auto simp: find_None_iff)
  ultimately show ?thesis by (auto simp: kept_season_def image_iff)
next
  case (Some i)
  note i = find_unique [OF assms Some]
  have "sn_season_number s \<in> ps_season_number ` set scanned" using i(1,2) by (metis imageI)
  moreover have "fair_status k (quality_on enable4k k) j (season_status k s)
      (season_status k (scanned_season_of enable4k defer scanned s))"
    if "j \<in> set scanned" "ps_season_number j = sn_season_number s" for j k
    using i(3) [OF that] Some scan_season_fair by (simp add: scanned_season_of_def)
  moreover have "sn_id (scanned_season_of enable4k defer scanned s) = sn_id s"
    "sn_season_number (scanned_season_of enable4k defer scanned s) = sn_season_number s"
    "sn_media_id (scanned_season_of enable4k defer scanned s) = sn_media_id s"
    by (simp_all add: scanned_season_of_def Some scan_season_def Let_def split_def)
  ultimately show ?thesis unfolding kept_season_def by blast
qed

lemma rollup_available:
  assumes "distinct (map ps_season_number scanned)"
  shows "rollup_show_status seasons scanned k previous enabled = M_AVAILABLE \<longleftrightarrow> enabled \<and> all_there scanned k seasons"
    "rollup_show_status seasons scanned k previous enabled = M_PARTIAL \<longleftrightarrow> enabled \<and> \<not> all_there scanned k seasons \<and>
       (\<exists>s\<in>set seasons. season_status k s \<in> {M_PARTIAL, M_AVAILABLE})"
proof -
  have all: "filter (counts_for_show scanned k) seasons \<noteq> [] \<and>
      list_all (\<lambda>s. season_status k s = M_AVAILABLE) (filter (counts_for_show scanned k) seasons) \<longleftrightarrow> all_there scanned k seasons"
    by (auto simp: all_there_def counts_weighs [OF assms] list_all_iff filter_empty_conv)
  show "rollup_show_status seasons scanned k previous enabled = M_AVAILABLE \<longleftrightarrow> enabled \<and> all_there scanned k seasons"
    "rollup_show_status seasons scanned k previous enabled = M_PARTIAL \<longleftrightarrow> enabled \<and> \<not> all_there scanned k seasons \<and>
       (\<exists>s\<in>set seasons. season_status k s \<in> {M_PARTIAL, M_AVAILABLE})"
    unfolding rollup_show_status_def Let_def all by (auto simp: media_statuses list_ex_iff)
qed

text \<open>
  C5 A scan of a series whose stored seasons have distinct numbers, like the scanned ones, in both qualities:
  every stored season stays in its place, changed only where it was scanned, and then as its episodes say
  (available just when it was or all listed episodes are there, partly available when some are); a season the
  library did not hold is created behind them by the same rules; and the series is available exactly when the
  quality is enabled, some season weighs in and all that weigh in are available, and partly available exactly when
  it is not that and some season is available or partly so.
\<close>

theorem apply_show_seasons:
  assumes d: "distinct (map sn_season_number (m_seasons media))" "distinct (map ps_season_number scanned)"
    and u: "apply_show media scanned opts enable4k now defer = u"
  shows "(\<exists>kept added. m_seasons (su_after u) = kept @ added \<and>
      list_all2 (kept_season enable4k scanned) (m_seasons media) kept \<and>
      list_all2 (added_season enable4k (m_id media))
        (filter (\<lambda>i. ps_season_number i \<notin> set (map sn_season_number (m_seasons media))) scanned) added) \<and>
    (\<forall>k. (status_of (su_after u) k = M_AVAILABLE \<longleftrightarrow>
          quality_on enable4k k \<and> all_there scanned k (m_seasons (su_after u))) \<and>
       (status_of (su_after u) k = M_PARTIAL \<longleftrightarrow>
          quality_on enable4k k \<and> \<not> all_there scanned k (m_seasons (su_after u)) \<and>
          (\<exists>s\<in>set (m_seasons (su_after u)). season_status k s \<in> {M_PARTIAL, M_AVAILABLE})))"
proof
  obtain m created deferred where f: "fold (scan_step opts enable4k defer (length (m_seasons media))) scanned
      (media, [], []) = (m, created, deferred)" by (metis prod_cases3)
  note after = apply_show_after [OF f, of now, unfolded u]
  have seasons: "m_seasons (su_after u) = map (scanned_season_of enable4k defer scanned) (m_seasons media) @
      map (\<lambda>i. new_season enable4k i (Some (m_id media)))
        (filter (\<lambda>i. ps_season_number i \<notin> set (map sn_season_number (m_seasons media))) scanned)"
    using scan_fold_seasons [OF f _ d] after(1) by simp
  moreover have "list_all2 (kept_season enable4k scanned) (m_seasons media)
      (map (scanned_season_of enable4k defer scanned) (m_seasons media))"
    by (simp add: list_all2_map2 list_all2_same scanned_season_kept [OF d(2)])
  moreover have "list_all2 (added_season enable4k (m_id media)) xs (map (\<lambda>i. new_season enable4k i (Some (m_id media))) xs)" for xs
    by (simp add: list_all2_map2 list_all2_same new_season_fair)
  ultimately show "\<exists>kept added. m_seasons (su_after u) = kept @ added \<and>
      list_all2 (kept_season enable4k scanned) (m_seasons media) kept \<and>
      list_all2 (added_season enable4k (m_id media))
        (filter (\<lambda>i. ps_season_number i \<notin> set (map sn_season_number (m_seasons media))) scanned) added" by blast
  have "status_of (su_after u) k = rollup_show_status (m_seasons (su_after u)) scanned k (Some (status_of media k)) (quality_on enable4k k)" for k
    by (cases k) (simp_all add: after status_of_def quality_on_def)
  then show "\<forall>k. (status_of (su_after u) k = M_AVAILABLE \<longleftrightarrow>
          quality_on enable4k k \<and> all_there scanned k (m_seasons (su_after u))) \<and>
       (status_of (su_after u) k = M_PARTIAL \<longleftrightarrow>
          quality_on enable4k k \<and> \<not> all_there scanned k (m_seasons (su_after u)) \<and>
          (\<exists>s\<in>set (m_seasons (su_after u)). season_status k s \<in> {M_PARTIAL, M_AVAILABLE}))"
    by (simp add: rollup_available [OF d(2)])
qed

subsection \<open>Requests for abandoned seasons\<close>

definition all_abandoned :: "int list \<Rightarrow> request_row \<Rightarrow> bool" where
  "all_abandoned abandoned r \<longleftrightarrow> r_seasons r \<noteq> [] \<and> set (map sr_season_number (r_seasons r)) \<subseteq> set abandoned"

definition trimmed :: "int list \<Rightarrow> request_row \<Rightarrow> int \<times> int list \<times> int \<times> bool" where
  "trimmed abandoned r =
     (let kept = filter (\<lambda>s. sr_season_number s \<notin> set abandoned) (r_seasons r)
      in (r_id r, map sr_id (filter (\<lambda>s. sr_season_number s \<in> set abandoned) (r_seasons r)), int (length kept),
          list_all (\<lambda>s. sr_status s = COMPLETED) kept))"

lemma reset_request_cases:
  "reset_request abandoned unknown r plan =
    (if unknown \<or> all_abandoned abandoned r then plan\<lparr>rp_decline := rp_decline plan @ [r_id r]\<rparr>
     else if list_ex (\<lambda>s. sr_season_number s \<in> set abandoned) (r_seasons r)
     then plan\<lparr>rp_trim := rp_trim plan @ [trimmed abandoned r]\<rparr> else plan)"
proof -
  have "list_ex (\<lambda>s. sr_season_number s \<in> set abandoned) (r_seasons r) \<and>
      list_all (\<lambda>s. sr_season_number s \<in> set abandoned) (r_seasons r) \<longleftrightarrow> all_abandoned abandoned r"
    by (cases "r_seasons r") (auto simp: all_abandoned_def list_all_iff list_ex_iff)
  then show ?thesis by (simp add: reset_request_def trimmed_def Let_def)
qed

lemma plan_fold:
  "fold (reset_request abandoned unknown) rs plan =
    plan\<lparr>rp_decline := rp_decline plan @ map r_id (filter (\<lambda>r. unknown \<or> all_abandoned abandoned r) rs),
      rp_trim := rp_trim plan @ map (trimmed abandoned) (filter (\<lambda>r. \<not> unknown \<and> \<not> all_abandoned abandoned r \<and>
        list_ex (\<lambda>s. sr_season_number s \<in> set abandoned) (r_seasons r)) rs)\<rparr>"
proof (induction rs arbitrary: plan)
  case (Cons r rs)
  then show ?case by (simp add: reset_request_cases)
qed simp

text \<open>
  C6 What Sonarr stopped pursuing takes no more than it must: when the title itself fell back every approved
  request is declined; else those all of whose seasons were abandoned are declined, those that lose some
  keep at least one season and are charged for just what they keep, and the others are left alone.
\<close>

theorem season_resets_exact:
  shows "rp_decline (plan_season_resets rs abandoned unknown) =
      map r_id (filter (\<lambda>r. unknown \<or> all_abandoned abandoned r) rs) \<and>
    rp_trim (plan_season_resets rs abandoned unknown) = map (trimmed abandoned) (filter (\<lambda>r. \<not> unknown \<and>
      \<not> all_abandoned abandoned r \<and> set (map sr_season_number (r_seasons r)) \<inter> set abandoned \<noteq> {}) rs) \<and>
    list_all (\<lambda>(i, removed, kept, completed). removed \<noteq> [] \<and> 0 < kept) (rp_trim (plan_season_resets rs abandoned unknown))"
proof -
  have ex: "list_ex (\<lambda>s. sr_season_number s \<in> set abandoned) (r_seasons r) \<longleftrightarrow>
      set (map sr_season_number (r_seasons r)) \<inter> set abandoned \<noteq> {}" for r
    by (auto simp: list_ex_iff)
  have trim: "rp_trim (plan_season_resets rs abandoned unknown) = map (trimmed abandoned) (filter (\<lambda>r. \<not> unknown \<and>
      \<not> all_abandoned abandoned r \<and> set (map sr_season_number (r_seasons r)) \<inter> set abandoned \<noteq> {}) rs)"
    by (simp add: plan_season_resets_def plan_fold ex)
  have "case trimmed abandoned r of (i, removed, kept, completed) \<Rightarrow> removed \<noteq> [] \<and> 0 < kept"
    if "\<not> all_abandoned abandoned r" "set (map sr_season_number (r_seasons r)) \<inter> set abandoned \<noteq> {}" for r
    using that by (auto simp: trimmed_def Let_def all_abandoned_def filter_empty_conv)
  then have "list_all (\<lambda>(i, removed, kept, completed). removed \<noteq> [] \<and> 0 < kept) (rp_trim (plan_season_resets rs abandoned unknown))"
    by (auto simp: trim list_all_iff)
  then show ?thesis using trim by (simp add: plan_season_resets_def plan_fold)
qed

subsection \<open>A film found on disk\<close>

text \<open>
  C4 When a scan finds the file of a film that was not available in that quality, no approved or failed
  request for it stays open: each is completed, and the pending ones too where the title was pending;
  declined requests stay declined.
\<close>

theorem scanned_film_completes:
  assumes s: "process_movie out env sc tmdb_id opts (lib, rs) = ((lib', rs'), fx)"
    and m: "media_by_tmdb (tables lib) tmdb_id ''movie'' = Some m"
    and f: "mv_has_file opts" "\<not> mv_processing opts" "status_of m (mv_is4k opts) \<noteq> M_AVAILABLE"
    and g: "ids_ok (tables lib)" "links_ok (tables lib)"
    and r': "r' \<in> set (request_table (tables lib'))" "r_media_id r' = Some (m_id m)" "r_is4k r' = mv_is4k opts"
  shows "\<exists>r\<in>set (request_table (tables lib)). r_id r = r_id r' \<and>
    (r_status r = APPROVED \<or> r_status r = FAILED \<longrightarrow> r_status r' = COMPLETED) \<and>
    (r_status r = PENDING \<longrightarrow> r_status r' = (if status_of m (mv_is4k opts) = M_PENDING then COMPLETED else PENDING)) \<and>
    (r_status r = COMPLETED \<or> r_status r = DECLINED \<longrightarrow> r_status r' = r_status r)"
proof -
  let ?k = "mv_is4k opts"
  obtain after changed where a: "apply_movie m opts (sc_defer sc) = (after, changed)" by (metis surj_pair)
  have after: "after = fst (apply_movie m opts (sc_defer sc))" by (simp add: a)
  have status: "status_of after ?k = M_AVAILABLE"
    unfolding after apply_movie_status using f by (simp add: movie_reset_deferred_def next_movie_status_def)
  have "changed" using apply_movie_changed [of m opts "sc_defer sc" ?k] status f(3) by (simp add: a)
  moreover obtain lib1 e1 f1 where sv: "save_media out env lib \<lparr>me_before = m, me_after = after, me_fresh = []\<rparr> [] = (lib1, e1, f1)"
    by (metis prod_cases3)
  ultimately have lib': "lib' = lib1" using s by (auto simp: process_movie_def m a Let_def)
  have "m_media_type m = ''movie''" using m by (auto simp: media_by_tmdb_def dest!: find_Some_iff [THEN iffD1])
  then have movie: "m_media_type after = ''movie''" "m_id after = m_id m" by (simp_all add: after apply_movie_fields)
  show ?thesis
    using film_save_completes [OF sv g, of ?k r'] movie status f(3) r' by (auto simp: lib')
qed

subsection \<open>Examples\<close>

definition demo_scan :: scan where
  "demo_scan = \<lparr>sc_defer = False, sc_enable4k_movie = False, sc_enable4k_show = False\<rparr>"

definition shelf :: "db \<Rightarrow> scan_state" where
  "shelf d = (\<lparr>tables = d, next_season = 1\<rparr>, no_resets)"

definition scanned_made :: "scan_state \<times> effect list" where
  "scanned_made = process_movie demo_outside demo_env demo_scan 603 new_movie_opts (shelf made_db)"

definition scanned_requests :: "request_row list" where
  "scanned_requests = request_table (tables (fst (fst scanned_made)))"

lemma scanned_made_rows: "map (\<lambda>r. (r_id r, r_media_id r, r_is4k r)) scanned_requests = [(1, Some 1, False)]"
  by code_simp

lemma made_db_tables:
  "media_by_tmdb made_db 603 ''movie'' = Some made_media" "request_table made_db = [made_request]"
  "ids_ok made_db" "links_ok made_db"
  by (simp_all add: made_db_def made_media_def media_by_tmdb_def) code_simp+

theorem scanned_film_completes_witness: "map r_status scanned_requests = [COMPLETED]"
proof -
  obtain lib' rs' fx where s: "process_movie demo_outside demo_env demo_scan 603 new_movie_opts
      (\<lparr>tables = made_db, next_season = 1\<rparr>, no_resets) = ((lib', rs'), fx)" by (metis prod.exhaust_sel)
  then have rows: "scanned_requests = request_table (tables lib')"
    by (simp add: scanned_requests_def scanned_made_def shelf_def)
  obtain r' where r': "scanned_requests = [r']" "r_id r' = 1" "r_media_id r' = Some 1" "\<not> r_is4k r'"
    using scanned_made_rows by (cases scanned_requests) auto
  have in_rows: "r' \<in> set (request_table (tables lib'))" using r'(1) rows by (metis list.set_intros(1))
  have f: "mv_has_file new_movie_opts" "\<not> mv_processing new_movie_opts" "\<not> mv_is4k new_movie_opts"
    "status_of made_media False = M_PENDING" "m_id made_media = 1"
    by (simp_all add: new_movie_opts_def status_of_def made_media_def M_PENDING_def)
  obtain r where "r \<in> set (request_table made_db)" "r_status r = PENDING \<longrightarrow> r_status r' = COMPLETED"
    using scanned_film_completes [OF s, of made_media r'] made_db_tables f r' in_rows
    by (auto simp: M_PENDING_def M_AVAILABLE_def)
  then have "r_status r' = COMPLETED" using made_db_tables(2) by (simp add: made_request_def)
  then show ?thesis by (simp only: r'(1) list.map)
qed

definition one_season :: "int \<Rightarrow> int \<Rightarrow> int \<Rightarrow> season_row" where
  "one_season i n status = \<lparr>sn_id = i, sn_season_number = n, sn_status = status, sn_status4k = M_UNKNOWN,
     sn_created_at = None, sn_updated_at = None, sn_media_id = Some 1\<rparr>"

definition seen_season :: "int \<Rightarrow> int \<Rightarrow> int \<Rightarrow> scanned_season" where
  "seen_season n listed present = \<lparr>ps_season_number = n, ps_total_episodes = listed, ps_episodes = present,
     ps_episodes4k = 0, ps_is4k_override = False, ps_processing = False\<rparr>"

definition half_show :: media_row where
  "half_show = made_media\<lparr>m_media_type := ''tv'', m_status := M_PARTIAL,
     m_seasons := [one_season 1 1 M_AVAILABLE, one_season 2 2 M_PROCESSING]\<rparr>"

definition no_show_opts :: show_opts where
  "no_show_opts = \<lparr>sw_media_added_at = None, sw_rating_key = None, sw_jellyfin_media_id = None, sw_service_id = None,
     sw_external_service_id = None, sw_external_service_slug = None, sw_is4k = False\<rparr>"

definition scanned_show :: "season_row list" where
  "scanned_show = m_seasons (su_after (apply_show half_show [seen_season 1 10 0, seen_season 2 8 8, seen_season 3 6 0]
     no_show_opts False 0 False))"

lemma scanned_show_rows:
  "map (\<lambda>s. (sn_season_number s, season_status False s)) scanned_show = [(1, M_AVAILABLE), (2, M_AVAILABLE), (3, M_UNKNOWN)]"
  by code_simp

theorem apply_show_seasons_witness:
  "status_of (su_after (apply_show half_show [seen_season 1 10 0, seen_season 2 8 8, seen_season 3 6 0]
     no_show_opts False 0 False)) False = M_PARTIAL \<and>
   (\<exists>kept added. scanned_show = kept @ added \<and> length kept = 2 \<and> length added = 1)"
proof -
  let ?scanned = "[seen_season 1 10 0, seen_season 2 8 8, seen_season 3 6 0]"
  define u where "u = apply_show half_show ?scanned no_show_opts False 0 False"
  have d: "distinct (map sn_season_number (m_seasons half_show))" "distinct (map ps_season_number ?scanned)"
    by (simp_all add: half_show_def one_season_def seen_season_def)
  note t = apply_show_seasons [OF d u_def [symmetric]]
  have u: "m_seasons (su_after u) = scanned_show" by (simp add: u_def scanned_show_def)
  have in1: "(1, M_AVAILABLE) \<in> (\<lambda>s. (sn_season_number s, season_status False s)) ` set scanned_show"
    and in3: "(3, M_UNKNOWN) \<in> (\<lambda>s. (sn_season_number s, season_status False s)) ` set scanned_show"
    unfolding set_map [symmetric] scanned_show_rows by simp_all
  have "weighs ?scanned False s" if "sn_season_number s = 3" for s
    using that by (simp add: weighs_def seen_season_def)
  then have "\<not> all_there ?scanned False scanned_show" using in3 by (auto simp: all_there_def media_statuses)
  moreover have "\<exists>s\<in>set scanned_show. season_status False s \<in> {M_PARTIAL, M_AVAILABLE}" using in1 by (auto intro: sym)
  ultimately have partly: "status_of (su_after u) False = M_PARTIAL"
    using conjunct2 [OF t, THEN spec, of False] unfolding u quality_on_def by blast
  obtain kept added where ka: "scanned_show = kept @ added"
    "list_all2 (kept_season False ?scanned) (m_seasons half_show) kept"
    using conjunct1 [OF t] unfolding u by blast
  have "length kept = 2" using list_all2_lengthD [OF ka(2)] by (simp add: half_show_def)
  moreover have "length scanned_show = 3" using arg_cong [OF scanned_show_rows, of length] by simp
  ultimately have "length added = 1" using arg_cong [OF ka(1), of length] by simp
  then show ?thesis using partly ka(1) \<open>length kept = 2\<close> unfolding u_def by blast
qed

end
