(* ===== verification/Blocklist.thy ===== *)
theory Blocklist
  imports Request_Routes
begin

section \<open>Blocklist and watchlist\<close>

text \<open>
  \<open>src/backend-rs/src/routes/listwrite.rs\<close>, \<open>blocklist_delete\<close> of \<open>routes/writes.rs\<close> and the path and query
  readers they use. \<open>lists\<close> is the tables with the two lists; the columns \<open>mediaId\<close> are foreign keys that
  cascade, so every change of the tables goes through \<open>on_tables\<close>, and the unique keys of the two tables are
  checks of the inserts. A route yields the lists and either the answer or the status of an empty one. A
  transaction that fails leaves the lists as they were; TMDB answers are parameters.
\<close>

subsection \<open>The lists\<close>

record blocklist_entry =
  bl_id :: int
  bl_media_type :: string
  bl_title :: "string option"
  bl_tmdb_id :: int
  bl_tags :: "string option"
  bl_created_at :: "string option"
  bl_user :: "int option"
  bl_media :: "int option"

record watchlist_entry =
  wl_id :: int
  wl_rating_key :: string
  wl_media_type :: string
  wl_title :: string
  wl_tmdb_id :: int
  wl_created_at :: "string option"
  wl_updated_at :: "string option"
  wl_user :: "int option"
  wl_media :: "int option"

record lists =
  ls_tables :: db
  ls_blocklist :: "blocklist_entry list"
  ls_watchlist :: "watchlist_entry list"
  ls_next_entry :: int
  ls_next_watch :: int

type_synonym list_reply = "lists \<times> (outcome, nat) res"

definition MANAGE_BLOCKLIST :: perms where
  "MANAGE_BLOCKLIST = 268435456"

text \<open>The rows a deleted media row takes along.\<close>

definition media_there :: "db \<Rightarrow> int option \<Rightarrow> bool" where
  "media_there d i \<longleftrightarrow> (case i of None \<Rightarrow> True | Some k \<Rightarrow> list_ex (\<lambda>m. m_id m = k) (media_table d))"

definition on_tables :: "(db \<Rightarrow> db) \<Rightarrow> lists \<Rightarrow> lists" where
  "on_tables f st =
     (let d = f (ls_tables st)
      in st\<lparr>ls_tables := d, ls_blocklist := filter (\<lambda>e. media_there d (bl_media e)) (ls_blocklist st),
            ls_watchlist := filter (\<lambda>w. media_there d (wl_media w)) (ls_watchlist st)\<rparr>)"

definition is_entry :: "string \<Rightarrow> int \<Rightarrow> blocklist_entry \<Rightarrow> bool" where
  "is_entry mt tmdb_id e \<longleftrightarrow> bl_tmdb_id e = tmdb_id \<and> bl_media_type e = mt"

definition entry_exists :: "lists \<Rightarrow> string \<Rightarrow> int \<Rightarrow> bool" where
  "entry_exists st mt tmdb_id = list_ex (is_entry mt tmdb_id) (ls_blocklist st)"

definition insert_entry ::
  "string option \<Rightarrow> string \<Rightarrow> string option \<Rightarrow> int \<Rightarrow> string option \<Rightarrow> int option \<Rightarrow> lists
     \<Rightarrow> (string, lists \<times> int) res" where
  "insert_entry stamp mt title tmdb_id tags user st =
     (if entry_exists st mt tmdb_id then Inl ''UNIQUE constraint failed: blocklist.tmdbId, blocklist.mediaType''
      else let i = ls_next_entry st
           in Inr (st\<lparr>ls_blocklist := ls_blocklist st @ [\<lparr>bl_id = i, bl_media_type = mt, bl_title = title,
                bl_tmdb_id = tmdb_id, bl_tags = tags, bl_created_at = stamp, bl_user = user, bl_media = None\<rparr>],
                ls_next_entry := i + 1\<rparr>, i))"

definition link_to :: "int \<Rightarrow> int \<Rightarrow> blocklist_entry \<Rightarrow> blocklist_entry" where
  "link_to entry media_id e = (if bl_id e = entry then e\<lparr>bl_media := Some media_id\<rparr> else e)"

definition link_entry :: "int \<Rightarrow> int \<Rightarrow> lists \<Rightarrow> (string, lists) res" where
  "link_entry entry media_id st =
     (if list_ex (\<lambda>e. bl_id e \<noteq> entry \<and> bl_media e = Some media_id) (ls_blocklist st)
      then Inl ''UNIQUE constraint failed: blocklist.mediaId''
      else Inr (st\<lparr>ls_blocklist := map (link_to entry media_id) (ls_blocklist st)\<rparr>))"

text \<open>\<open>DELETE ... WHERE "id" = (SELECT "id" ... ORDER BY "id" LIMIT 1)\<close>: the row of the least id.\<close>

definition least_id :: "('a \<Rightarrow> int) \<Rightarrow> ('a \<Rightarrow> bool) \<Rightarrow> 'a list \<Rightarrow> int option" where
  "least_id key p xs = (case sort_key key (filter p xs) of [] \<Rightarrow> None | x # _ \<Rightarrow> Some (key x))"

definition take_off :: "string \<Rightarrow> int \<Rightarrow> lists \<Rightarrow> lists \<times> bool" where
  "take_off mt tmdb_id st =
     (case least_id bl_id (is_entry mt tmdb_id) (ls_blocklist st) of
        None \<Rightarrow> (st, False)
      | Some i \<Rightarrow> (st\<lparr>ls_blocklist := filter (\<lambda>e. bl_id e \<noteq> i) (ls_blocklist st)\<rparr>, True))"

definition is_title :: "string \<Rightarrow> int \<Rightarrow> media_row \<Rightarrow> bool" where
  "is_title mt tmdb_id m \<longleftrightarrow> m_tmdb_id m = tmdb_id \<and> m_media_type m = mt"

definition drop_title :: "string \<Rightarrow> int \<Rightarrow> lists \<Rightarrow> lists \<times> bool" where
  "drop_title mt tmdb_id st =
     (case least_id m_id (is_title mt tmdb_id) (media_table (ls_tables st)) of
        None \<Rightarrow> (st, False)
      | Some i \<Rightarrow> (on_tables (delete_media i) st, True))"

subsection \<open>Path and query\<close>

definition integer :: "string \<Rightarrow> int option" where
  "integer text =
     (let digits = (case text of c # cs \<Rightarrow> if c = CHR ''-'' \<or> c = CHR ''+'' then cs else text | [] \<Rightarrow> text)
      in if digits = [] \<or> \<not> list_all is_digit digits then None else parse_i64 text)"

definition path_int :: "string option \<Rightarrow> (outcome, int) res" where
  "path_int segment =
     (case Option.bind segment integer of
        Some i \<Rightarrow> Inr i
      | None \<Rightarrow> Inl (Fallback 400 ''The id in the path must be an integer.''))"

text \<open>The validated query, where there is one, before the raw one.\<close>

definition media_type_query :: "jmap option \<Rightarrow> string option \<Rightarrow> (outcome, string) res" where
  "media_type_query validated raw =
     (let judged = (case validated of
            Some q \<Rightarrow> (if length q = 1
              then opt_filter (\<lambda>t. t = ''movie'' \<or> t = ''tv'') (Option.bind (obj_get q ''mediaType'') as_str) else None)
          | None \<Rightarrow> None)
      in case judged of
           Some t \<Rightarrow> Inr t
         | None \<Rightarrow>
             if unwrap_or [] raw = ''mediaType=movie'' then Inr ''movie''
             else if unwrap_or [] raw = ''mediaType=tv'' then Inr ''tv''
             else Inl (Forward ''the query is the validator's''))"

subsection \<open>The blocklist\<close>

record blocklist_body =
  bb_tmdb_id :: int
  bb_media_type :: string
  bb_title :: "string option"
  bb_user :: int
  bb_tags :: "string option"

definition required_int :: "jmap \<Rightarrow> string \<Rightarrow> (outcome, int) res" where
  "required_int body key =
     and_then (body_int body key) (\<lambda>n. case n of
       Some i \<Rightarrow> Inr i | None \<Rightarrow> Inl (Fallback 400 (key @ '' is required.'')))"

definition read_blocklist_body :: "json option \<Rightarrow> (outcome, blocklist_body) res" where
  "read_blocklist_body raw =
     and_then (body_object raw) (\<lambda>body.
     and_then (known_keys body [''tmdbId'', ''mediaType'', ''title'', ''user'', ''blocklistedTags'']) (\<lambda>_.
     and_then (required_int body ''tmdbId'') (\<lambda>tmdb_id.
     and_then (media_type (obj_get body ''mediaType'')) (\<lambda>mt.
     and_then (opt_text body ''title'') (\<lambda>title.
     and_then (required_int body ''user'') (\<lambda>user.
     and_then (opt_text body ''blocklistedTags'') (\<lambda>tags.
       Inr \<lparr>bb_tmdb_id = tmdb_id, bb_media_type = mt, bb_title = title, bb_user = user, bb_tags = tags\<rparr>)))))))"

text \<open>The title's media row becomes, or is created, blocklisted in both qualities.\<close>

definition block_title :: "string option \<Rightarrow> media_row option \<Rightarrow> string \<Rightarrow> int \<Rightarrow> db \<Rightarrow> db \<times> int" where
  "block_title stamp media mt tmdb_id d =
     (case media of
        None \<Rightarrow> insert_media stamp d mt tmdb_id None (M_BLOCKLISTED, M_BLOCKLISTED)
      | Some m \<Rightarrow>
          (if m_status m \<noteq> M_BLOCKLISTED \<or> m_status4k m \<noteq> M_BLOCKLISTED
           then modify_media (m_id m) (\<lambda>x. x\<lparr>m_status := M_BLOCKLISTED, m_status4k := M_BLOCKLISTED,
                  m_updated_at := stamp\<rparr>) d
           else d, m_id m))"

definition blocklist_media ::
  "string option \<Rightarrow> int \<Rightarrow> media_row option \<Rightarrow> string \<Rightarrow> int \<Rightarrow> lists \<Rightarrow> (string, lists) res" where
  "blocklist_media stamp entry media mt tmdb_id st =
     (let (d, media_id) = block_title stamp media mt tmdb_id (ls_tables st)
      in link_entry entry media_id (on_tables (\<lambda>_. d) st))"

definition blocklist_add :: "string option \<Rightarrow> lists \<Rightarrow> current_user option \<Rightarrow> json option \<Rightarrow> list_reply" where
  "blocklist_add stamp st viewer raw =
     (case and_then (authenticated viewer MANAGE_BLOCKLIST) (\<lambda>_. read_blocklist_body raw) of
        Inl answer \<Rightarrow> (st, Inl answer)
      | Inr body \<Rightarrow>
          (case user_by_id (ls_tables st) (bb_user body) of
             None \<Rightarrow> (st, Inl (Error 409 ''Something wrong''))
           | Some u \<Rightarrow>
               let mt = bb_media_type body; tmdb_id = bb_tmdb_id body;
                   media = media_by_tmdb (ls_tables st) tmdb_id mt
               in if entry_exists st mt tmdb_id then (st, Inl (Error 409 ''Something wrong''))
                  else (case insert_entry stamp mt (bb_title body) tmdb_id (bb_tags body) (Some (u_id u)) st of
                    Inl _ \<Rightarrow> (st, Inl (Error 409 ''Something wrong''))
                  | Inr (st1, entry) \<Rightarrow>
                      (case blocklist_media stamp entry media mt tmdb_id st1 of
                         Inl e \<Rightarrow> (st, Inl (Error 500 e))
                       | Inr st2 \<Rightarrow> (st2, Inr 201)))))"

definition blocklist_delete ::
  "lists \<Rightarrow> current_user option \<Rightarrow> (outcome, string) res \<Rightarrow> (outcome, int) res \<Rightarrow> list_reply" where
  "blocklist_delete st viewer kind key =
     (case and_then (authenticated viewer MANAGE_BLOCKLIST) (\<lambda>_. and_then kind (\<lambda>mt. and_then key (\<lambda>i. Inr (mt, i)))) of
        Inl answer \<Rightarrow> (st, Inl answer)
      | Inr (mt, tmdb_id) \<Rightarrow>
          if \<not> entry_exists st mt tmdb_id then (st, Inl (Error 404 (not_found ''Blocklist'')))
          else (let (st, _) = take_off mt tmdb_id st;
                    (st, removed) = drop_title mt tmdb_id st
                in if removed then (st, Inr 204) else (st, Inl (Error 404 (not_found ''Media'')))))"

subsection \<open>Collections\<close>

fun keep_part :: "int \<Rightarrow> string option \<Rightarrow> (int \<times> string option) list \<Rightarrow> (int \<times> string option) list" where
  "keep_part i title [] = [(i, title)]"
| "keep_part i title ((j, t) # ps) = (if j = i then (j, title) # ps else (j, t) # keep_part i title ps)"

definition read_part :: "json \<Rightarrow> (string, int \<times> string option) res" where
  "read_part part =
     (case Option.bind (jget part ''id'') as_i64 of
        None \<Rightarrow> Inl ''a part without a whole id''
      | Some i \<Rightarrow>
          (case jget part ''title'' of
             None \<Rightarrow> Inr (i, None)
           | Some JNull \<Rightarrow> Inr (i, None)
           | Some (JStr s) \<Rightarrow> Inr (i, Some s)
           | Some _ \<Rightarrow> Inl ''a part title that isn't text''))"

fun unique_from :: "json list \<Rightarrow> (int \<times> string option) list \<Rightarrow> (string, (int \<times> string option) list) res" where
  "unique_from [] out = Inr out"
| "unique_from (part # parts) out =
     and_then (read_part part) (\<lambda>(i, title). unique_from parts (keep_part i title out))"

definition unique_parts :: "json \<Rightarrow> (string, (int \<times> string option) list) res" where
  "unique_parts collection =
     (case Option.bind (jget collection ''parts'') as_array of
        None \<Rightarrow> Inl ''the collection has no parts''
      | Some parts \<Rightarrow> unique_from parts [])"

text \<open>
  The entries come first; what is there already is read outside the transaction, from the lists as they were
  before it (\<open>before\<close>).
\<close>

fun collection_entries ::
  "string option \<Rightarrow> int \<Rightarrow> lists \<Rightarrow> (int \<times> string option) list \<Rightarrow> lists \<Rightarrow> (int \<times> int \<times> media_row option) list
     \<Rightarrow> (string, lists \<times> (int \<times> int \<times> media_row option) list) res" where
  "collection_entries stamp user before [] st added = Inr (st, added)"
| "collection_entries stamp user before ((tmdb_id, title) # parts) st added =
     (if entry_exists before ''movie'' tmdb_id then collection_entries stamp user before parts st added
      else and_then (insert_entry stamp ''movie'' title tmdb_id None (Some user) st) (\<lambda>(st, entry).
        collection_entries stamp user before parts st
          (added @ [(tmdb_id, entry, media_by_tmdb (ls_tables before) tmdb_id ''movie'')])))"

fun collection_media ::
  "string option \<Rightarrow> (int \<times> int \<times> media_row option) list \<Rightarrow> lists \<Rightarrow> (string, lists) res" where
  "collection_media stamp [] st = Inr st"
| "collection_media stamp ((tmdb_id, entry, media) # added) st =
     and_then (blocklist_media stamp entry media ''movie'' tmdb_id st) (\<lambda>st. collection_media stamp added st)"

definition collection_add ::
  "string option \<Rightarrow> lists \<Rightarrow> current_user option \<Rightarrow> json option \<Rightarrow> (outcome, json) res \<Rightarrow> list_reply" where
  "collection_add stamp st viewer raw collection =
     (case
        and_then (authenticated viewer MANAGE_BLOCKLIST) (\<lambda>user.
        and_then (body_object raw) (\<lambda>_.
        and_then collection (\<lambda>c.
        and_then (forwarding (unique_parts c)) (\<lambda>parts. Inr (user, parts)))))
      of
        Inl answer \<Rightarrow> (st, Inl answer)
      | Inr (user, parts) \<Rightarrow>
          (case and_then (collection_entries stamp (cu_id user) st parts st [])
                  (\<lambda>(st, added). collection_media stamp added st) of
             Inl e \<Rightarrow> (st, Inl (Error 500 e))
           | Inr st' \<Rightarrow> (st', Inr 201)))"

fun part_ids :: "json list \<Rightarrow> (outcome, int list) res" where
  "part_ids [] = Inr []"
| "part_ids (part # parts) =
     (case Option.bind (jget part ''id'') as_i64 of
        None \<Rightarrow> Inl (Forward ''a part without a whole id'')
      | Some i \<Rightarrow> and_then (part_ids parts) (\<lambda>is. Inr (i # is)))"

definition remove_part :: "int \<Rightarrow> lists \<Rightarrow> lists" where
  "remove_part tmdb_id st =
     (let (st, removed) = take_off ''movie'' tmdb_id st
      in if removed then fst (drop_title ''movie'' tmdb_id st) else st)"

definition collection_remove :: "lists \<Rightarrow> current_user option \<Rightarrow> (outcome, json) res \<Rightarrow> list_reply" where
  "collection_remove st viewer collection =
     (case
        and_then (authenticated viewer MANAGE_BLOCKLIST) (\<lambda>_.
        and_then collection (\<lambda>c.
        case Option.bind (jget c ''parts'') as_array of
          None \<Rightarrow> Inl (Forward ''the collection has no parts'')
        | Some parts \<Rightarrow> part_ids parts))
      of
        Inl answer \<Rightarrow> (st, Inl answer)
      | Inr ids \<Rightarrow> (fold remove_part ids st, Inr 204))"

subsection \<open>The watchlist\<close>

definition watchlist_body_message :: "bool \<Rightarrow> bool \<Rightarrow> string" where
  "watchlist_body_message no_tmdb_id bad_media_type =
     (let issues = (if no_tmdb_id then [''tmdbId must be a number''] else []) @
            (if bad_media_type then [''mediaType must be movie or tv''] else [])
      in ''Invalid watchlist item: '' @ concat (map (\<lambda>(i, t). (if i = 0 then [] else ''; '') @ t) (List.enumerate 0 issues)) @ ''.'')"

record watchlist_body =
  wb_rating_key :: "string option"
  wb_tmdb_id :: int
  wb_media_type :: string
  wb_title :: "string option"

definition read_watchlist_body :: "jmap \<Rightarrow> (outcome, watchlist_body) res" where
  "read_watchlist_body body =
     and_then (opt_text body ''ratingKey'') (\<lambda>rating_key.
     and_then (body_int body ''tmdbId'') (\<lambda>tmdb_id.
     let kind = (case media_type (obj_get body ''mediaType'') of Inl _ \<Rightarrow> None | Inr t \<Rightarrow> Some t)
     in (case (tmdb_id, kind) of
           (Some i, Some mt) \<Rightarrow>
             and_then (opt_text body ''title'') (\<lambda>title.
               Inr \<lparr>wb_rating_key = rating_key, wb_tmdb_id = i, wb_media_type = mt, wb_title = title\<rparr>)
         | _ \<Rightarrow> Inl (Error 500 (watchlist_body_message (tmdb_id = None) (kind = None))))))"

definition on_watchlist :: "lists \<Rightarrow> int \<Rightarrow> string \<Rightarrow> int \<Rightarrow> bool" where
  "on_watchlist st tmdb_id mt user \<longleftrightarrow>
     list_ex (\<lambda>w. wl_tmdb_id w = tmdb_id \<and> wl_media_type w = mt \<and> wl_user w = Some user) (ls_watchlist st)"

definition tvdb_taken :: "db \<Rightarrow> int option \<Rightarrow> bool" where
  "tvdb_taken d tvdb_id =
     (case tvdb_id of None \<Rightarrow> False | Some t \<Rightarrow> list_ex (\<lambda>m. m_tvdb_id m = Some t) (media_table d))"

definition insert_watch ::
  "string option \<Rightarrow> watchlist_body \<Rightarrow> int \<Rightarrow> int \<Rightarrow> lists \<Rightarrow> (string, lists \<times> int) res" where
  "insert_watch stamp body user media_id st =
     (if on_watchlist st (wb_tmdb_id body) (wb_media_type body) user
      then Inl ''UNIQUE constraint failed: watchlist.tmdbId, watchlist.mediaType, watchlist.requestedById''
      else let i = ls_next_watch st
           in Inr (st\<lparr>ls_watchlist := ls_watchlist st @ [\<lparr>wl_id = i, wl_rating_key = unwrap_or [] (wb_rating_key body),
                wl_media_type = wb_media_type body, wl_title = unwrap_or [] (wb_title body),
                wl_tmdb_id = wb_tmdb_id body, wl_created_at = stamp, wl_updated_at = stamp, wl_user = Some user,
                wl_media = Some media_id\<rparr>], ls_next_watch := i + 1\<rparr>, i))"

definition watchlist_json :: "watchlist_body \<Rightarrow> json \<Rightarrow> json \<Rightarrow> int \<Rightarrow> string option \<Rightarrow> json" where
  "watchlist_json body requested_by media i stamp =
     draft_json (fold (\<lambda>(k, v). draft_put k v)
       [(''ratingKey'', JStr (unwrap_or [] (wb_rating_key body))), (''title'', JStr (unwrap_or [] (wb_title body))),
        (''tmdbId'', JInt (wb_tmdb_id body)), (''mediaType'', JStr (wb_media_type body)),
        (''requestedBy'', requested_by), (''media'', media), (''id'', JInt i),
        (''createdAt'', j_text stamp), (''updatedAt'', j_text stamp)] [])"

text \<open>What the checks before the writes find: the body, the viewer's row, TMDB's details and the media row.\<close>

definition watchlist_checks ::
  "env \<Rightarrow> lists \<Rightarrow> current_user option \<Rightarrow> json option
     \<Rightarrow> (outcome, watchlist_body \<times> current_user \<times> user_record \<times> json \<times> media_row option) res" where
  "watchlist_checks env st viewer raw =
     and_then (authenticated viewer 0) (\<lambda>user.
     and_then (body_object raw) (\<lambda>obj.
     and_then (read_watchlist_body obj) (\<lambda>body.
     and_then (forwarding (case e_tmdb env (wb_media_type body = ''movie'') (wb_tmdb_id body)
         (main_locale (e_settings env)) of
         Inl e \<Rightarrow> Inl (''TMDB failed: '' @ e) | Inr details \<Rightarrow> Inr details)) (\<lambda>details.
     and_then (case user_by_id (ls_tables st) (cu_id user) of
         None \<Rightarrow> Inl (Forward ''the signed-in user vanished'') | Some v \<Rightarrow> Inr v) (\<lambda>v.
     if on_watchlist st (wb_tmdb_id body) (wb_media_type body) (cu_id user) then Inl (Error 409 [])
     else let existing = media_by_tmdb (ls_tables st) (wb_tmdb_id body) (wb_media_type body);
              tvdb = Option.bind (jpath [''external_ids'', ''tvdb_id''] details) as_i64
          in if existing = None \<and> tvdb_taken (ls_tables st) tvdb then Inl (Error 409 ''Something wrong'')
             else Inr (body, user, v, details, existing))))))"

text \<open>The media row of the new entry: the one there is, or a new one of unknown status.\<close>

definition watch_title ::
  "env \<Rightarrow> watchlist_body \<Rightarrow> json \<Rightarrow> media_row option \<Rightarrow> lists \<Rightarrow> lists \<times> int" where
  "watch_title env body details existing st =
     (case existing of
        Some m \<Rightarrow> (st, m_id m)
      | None \<Rightarrow>
          let found = unwrap_or (wb_tmdb_id body) (Option.bind (jget details ''id'') as_i64);
              tvdb = Option.bind (jpath [''external_ids'', ''tvdb_id''] details) as_i64;
              (d, i) = insert_media (e_stamp env) (ls_tables st) (wb_media_type body) found tvdb (M_UNKNOWN, M_UNKNOWN)
          in (on_tables (\<lambda>_. d) st, i))"

definition watchlist_add ::
  "printing \<Rightarrow> env \<Rightarrow> lists \<Rightarrow> current_user option \<Rightarrow> json option \<Rightarrow> lists \<times> outcome" where
  "watchlist_add pr env st viewer raw =
     (case watchlist_checks env st viewer raw of
        Inl answer \<Rightarrow> (st, answer)
      | Inr (body, user, v, details, existing) \<Rightarrow>
          let (st, media_id) = watch_title env body details existing st
          in (case insert_watch (e_stamp env) body (cu_id user) media_id st of
                Inl _ \<Rightarrow> (st, Error 409 ''Something wrong'')
              | Inr (st, i) \<Rightarrow>
                  let media = (case existing of
                        Some m \<Rightarrow> Inr (media_json (pr_num pr) (pr_plugin pr) m (e_settings env)
                          (if tracks_downloads m then pr_downloads pr else no_downloads) True)
                      | None \<Rightarrow>
                          (case media_by_id (ls_tables st) media_id of
                             None \<Rightarrow> Inl ''the media row vanished''
                           | Some row \<Rightarrow> Inr (inserted_media_json
                               (media_json (pr_num pr) (pr_plugin pr) row (e_settings env) no_downloads False)
                               [''tmdbId'', ''tvdbId'', ''mediaType''])))
                  in (case and_then media (\<lambda>m. and_then (embedded_json (pr_parse pr) v) (\<lambda>u. Inr (m, u))) of
                        Inl why \<Rightarrow> (st, Error 500 why)
                      | Inr (m, u) \<Rightarrow> (st, Reply 201 (watchlist_json body u m i (e_stamp env))))))"

definition watchlist_delete ::
  "lists \<Rightarrow> current_user option \<Rightarrow> (outcome, string) res \<Rightarrow> (outcome, int) res \<Rightarrow> list_reply" where
  "watchlist_delete st viewer kind key =
     (case and_then (authenticated viewer 0) (\<lambda>user. and_then kind (\<lambda>mt. and_then key (\<lambda>i. Inr (user, mt, i)))) of
        Inl answer \<Rightarrow> (st, Inl answer)
      | Inr (user, mt, tmdb_id) \<Rightarrow>
          (case least_id wl_id (\<lambda>w. wl_tmdb_id w = tmdb_id \<and> wl_media_type w = mt \<and> wl_user w = Some (cu_id user))
                  (ls_watchlist st) of
             None \<Rightarrow> (st, Inl (Error 404 ''not Found''))
           | Some i \<Rightarrow> (st\<lparr>ls_watchlist := filter (\<lambda>w. wl_id w \<noteq> i) (ls_watchlist st)\<rparr>, Inr 204)))"

end
