(* ===== verification/Arr_Calls.thy ===== *)
theory Arr_Calls
  imports Rules
begin

section \<open>Calls of Radarr and Sonarr\<close>

text \<open>
  \<open>src/backend-rs/src/routes/arrcall.rs\<close>: what a failed call carries (\<open>ArrError\<close>), the message and status a
  route makes of it, and the reads of the queue and the episodes on top of one request. The request itself
  (\<open>ArrServer::request\<close>: URL, choice of API, HTTP, the JSON of the answer) is the parameter \<open>net\<close>.
\<close>

datatype arr_error = Http nat json | Transport string | Plain string bool

record arr_server =
  as_server :: json
  as_timeout :: nat
  as_api_name :: string

type_synonym arr_net =
  "arr_server \<Rightarrow> string \<Rightarrow> string \<Rightarrow> (string \<times> string) list \<Rightarrow> json option \<Rightarrow> nat \<Rightarrow> (arr_error, json) res"

subsection \<open>Errors\<close>

fun arr_message :: "arr_error \<Rightarrow> string" where
  "arr_message (Http status data) = ''Request failed with status code '' @ show_nat status"
| "arr_message (Transport m) = m"
| "arr_message (Plain m b) = m"

fun is_transport :: "arr_error \<Rightarrow> bool" where
  "is_transport (Transport m) = True"
| "is_transport (Plain m b) = b"
| "is_transport (Http status data) = False"

definition wrapped :: "string \<Rightarrow> arr_error \<Rightarrow> arr_error" where
  "wrapped prefix e = Plain (prefix @ arr_message e) (is_transport e)"

definition route_error :: "nat \<Rightarrow> arr_error \<Rightarrow> nat \<times> json" where
  "route_error fallback e =
     (case e of
        Http status data \<Rightarrow>
          (status,
           case data of
             JStr s \<Rightarrow> if s \<noteq> [] then JStr s else JStr (arr_message e)
           | JObj m \<Rightarrow> unwrap_or (JStr (arr_message e)) (opt_filter (\<lambda>v. truthy (Some v)) (obj_get m ''message''))
           | _ \<Rightarrow> JStr (arr_message e))
      | Transport m \<Rightarrow> (fallback, JStr m)
      | Plain m b \<Rightarrow> (fallback, JStr m))"

subsection \<open>Reads\<close>

definition QUEUE_PAGE_SIZE :: nat where "QUEUE_PAGE_SIZE = 250"
definition QUEUE_MAX_PAGES :: nat where "QUEUE_MAX_PAGES = 40"
definition RELEASE_SEARCH_TIMEOUT_MS :: nat where "RELEASE_SEARCH_TIMEOUT_MS = 120000"

definition release_search_timeout :: "arr_server \<Rightarrow> nat" where
  "release_search_timeout arr = (if as_timeout arr = 0 then 0 else max (as_timeout arr) RELEASE_SEARCH_TIMEOUT_MS)"

definition arr_get :: "arr_net \<Rightarrow> arr_server \<Rightarrow> string \<Rightarrow> (string \<times> string) list \<Rightarrow> (arr_error, json) res" where
  "arr_get net arr path query = net arr ''GET'' path query None (as_timeout arr)"

definition map_err :: "('e \<Rightarrow> 'f) \<Rightarrow> ('e, 'a) res \<Rightarrow> ('f, 'a) res" where
  "map_err f x = (case x of Inl e \<Rightarrow> Inl (f e) | Inr a \<Rightarrow> Inr a)"

definition queue_failed :: "arr_server \<Rightarrow> string \<Rightarrow> string" where
  "queue_failed arr why = ''['' @ as_api_name arr @ ''] Failed to retrieve queue: '' @ why"

text \<open>\<open>Value::as_f64\<close>: a count is compared exactly, as no list is longer than an \<open>f64\<close> can tell.\<close>

definition as_number :: "json \<Rightarrow> rat option" where
  "as_number v = (case v of JInt n \<Rightarrow> Some (of_int n) | JFloat f \<Rightarrow> Some f | _ \<Rightarrow> None)"

definition queue_page :: "arr_net \<Rightarrow> arr_server \<Rightarrow> nat \<Rightarrow> (arr_error, json list \<times> rat option) res" where
  "queue_page net arr page =
     and_then (map_err (wrapped (queue_failed arr []))
       (arr_get net arr ''/queue'' [(''page'', show_nat page), (''pageSize'', show_nat QUEUE_PAGE_SIZE),
          (''includeEpisode'', ''true'')])) (\<lambda>data.
     and_then (case jget data ''records'' of
         None \<Rightarrow> Inr []
       | Some JNull \<Rightarrow> Inr []
       | Some (JArr items) \<Rightarrow> Inr items
       | Some _ \<Rightarrow> Inl (Plain (queue_failed arr ''records is not a list'') False)) (\<lambda>records.
       Inr (records, Option.bind (jget data ''totalRecords'') as_number)))"

text \<open>\<open>left\<close> pages may still be read, \<open>page\<close> is the next.\<close>

fun queue_pages :: "arr_net \<Rightarrow> arr_server \<Rightarrow> nat \<Rightarrow> nat \<Rightarrow> json list \<Rightarrow> (arr_error, json list) res" where
  "queue_pages net arr 0 page records = Inr records"
| "queue_pages net arr (Suc left) page records =
     and_then (queue_page net arr page) (\<lambda>(items, total).
       let records = records @ items;
           reached = (case total of None \<Rightarrow> True | Some t \<Rightarrow> t \<le> of_nat (length records))
       in if reached \<or> length items < QUEUE_PAGE_SIZE then Inr records
          else queue_pages net arr left (page + 1) records)"

definition arr_queue :: "arr_net \<Rightarrow> arr_server \<Rightarrow> (arr_error, json list) res" where
  "arr_queue net arr = queue_pages net arr QUEUE_MAX_PAGES 1 []"

definition series_queue :: "arr_net \<Rightarrow> arr_server \<Rightarrow> int \<Rightarrow> (arr_error, json list) res" where
  "series_queue net arr series_id =
     and_then (map_err (wrapped (queue_failed arr []))
       (arr_get net arr ''/queue/details'' [(''seriesId'', show_int series_id), (''includeEpisode'', ''true'')])) (\<lambda>data.
       case data of
         JArr items \<Rightarrow> Inr items
       | _ \<Rightarrow> Inl (Plain (queue_failed arr ''the answer is not a list'') False))"

definition as_list :: "json \<Rightarrow> json list" where
  "as_list v = (case v of JArr items \<Rightarrow> items | _ \<Rightarrow> [])"

definition arr_episodes :: "arr_net \<Rightarrow> arr_server \<Rightarrow> int \<Rightarrow> (arr_error, json list) res" where
  "arr_episodes net arr series_id =
     and_then (map_err (\<lambda>_. Plain ''Failed to get episodes'' False)
       (arr_get net arr ''/episode'' [(''seriesId'', show_int series_id)])) (\<lambda>data. Inr (as_list data))"

definition arr_command :: "arr_net \<Rightarrow> arr_server \<Rightarrow> json \<Rightarrow> (arr_error, json) res" where
  "arr_command net arr body =
     map_err (wrapped (''['' @ as_api_name arr @ ''] Failed to run command: ''))
       (net arr ''POST'' ''/command'' [] (Some body) (as_timeout arr))"

subsection \<open>The queue is read whole\<close>

lemma map_err_eq_Inr [simp]: "map_err f x = Inr a \<longleftrightarrow> x = Inr a"
  by (cases x) (simp_all add: map_err_def)

lemma map_err_Inr [simp]: "map_err f (Inr a) = Inr a"
  by (simp add: map_err_def)

text \<open>A server that keeps \<open>all\<close> as its queue: page by page, with the number of them.\<close>

definition serves_queue :: "arr_net \<Rightarrow> arr_server \<Rightarrow> json list \<Rightarrow> bool" where
  "serves_queue net arr all \<longleftrightarrow> (\<forall>k. 1 \<le> k \<longrightarrow>
     queue_page net arr k = Inr (take QUEUE_PAGE_SIZE (drop (QUEUE_PAGE_SIZE * (k - 1)) all), Some (of_nat (length all))))"

lemma queue_pages_whole:
  assumes "serves_queue net arr all" "1 \<le> page" "length all \<le> QUEUE_PAGE_SIZE * (page - 1 + left)" "0 < left"
    "QUEUE_PAGE_SIZE * (page - 1) \<le> length all"
  shows "queue_pages net arr left page (take (QUEUE_PAGE_SIZE * (page - 1)) all) = Inr all"
  using assms(2-)
proof (induction left arbitrary: page)
  case (Suc left)
  let ?n = "QUEUE_PAGE_SIZE"
  have q: "queue_page net arr page = Inr (take ?n (drop (?n * (page - 1)) all), Some (of_nat (length all)))"
    using assms(1) Suc.prems(1) unfolding serves_queue_def by blast
  have page: "?n * (page - 1) + ?n = ?n * page" using Suc.prems(1) by (cases page) simp_all
  then have r: "take (?n * (page - 1)) all @ take ?n (drop (?n * (page - 1)) all) = take (?n * page) all"
    by (metis take_add)
  have step: "queue_pages net arr (Suc left) page (take (?n * (page - 1)) all) =
      (if of_nat (length all) \<le> (of_nat (length (take (?n * page) all)) :: rat) \<or>
          length (take ?n (drop (?n * (page - 1)) all)) < ?n
       then Inr (take (?n * page) all) else queue_pages net arr left (page + 1) (take (?n * page) all))"
    unfolding queue_pages.simps q and_then_Inr prod.case Let_def r option.case ..
  show ?case
  proof (cases "length all \<le> ?n * page")
    case True
    then show ?thesis unfolding step by simp
  next
    case False
    then have "0 < left" using Suc.prems(1,2) by (cases left) simp_all
    then have "queue_pages net arr left (page + 1) (take (?n * (page + 1 - 1)) all) = Inr all"
      by (intro Suc.IH) (use False Suc.prems(1,2) in \<open>simp_all add: algebra_simps\<close>)
    moreover have "\<not> length all - ?n * (page - 1) < ?n" using False page by linarith
    ultimately show ?thesis using False unfolding step by (simp flip: of_nat_mult)
  qed
qed simp

text \<open>
  The download queue is read whole: when a server keeps at most 10000 entries and answers each page of
  250 with the entries that stand there and their number, \<open>arr_queue\<close> returns every entry once, in the
  order of the server, however many pages that takes.
\<close>

theorem queue_reads_whole:
  assumes "serves_queue net arr all" "length all \<le> QUEUE_PAGE_SIZE * QUEUE_MAX_PAGES"
  shows "arr_queue net arr = Inr all"
  using queue_pages_whole [OF assms(1), of 1 QUEUE_MAX_PAGES] assms(2)
  unfolding arr_queue_def by (simp add: QUEUE_MAX_PAGES_def)

text \<open>A server of 300 entries that reads the page off the query.\<close>

definition paging_net :: "json list \<Rightarrow> arr_net" where
  "paging_net all arr method path query body timeout =
     (case query of
        (_, text) # _ \<Rightarrow>
          Inr (JObj [(''records'', JArr (take QUEUE_PAGE_SIZE (drop (QUEUE_PAGE_SIZE * (nat_of_digits text - 1)) all))),
            (''totalRecords'', JInt (int (length all)))])
      | [] \<Rightarrow> Inl (Http 404 JNull))"

lemma paging_net_serves: "serves_queue (paging_net all) arr all"
  by (simp add: serves_queue_def queue_page_def arr_get_def paging_net_def nat_of_digits_show_nat obj_get_def as_number_def)

theorem queue_reads_whole_witness:
  "arr_queue (paging_net (map (JInt \<circ> int) [0..<300])) \<lparr>as_server = JNull, as_timeout = 0, as_api_name = ''Sonarr''\<rparr>
     = Inr (map (JInt \<circ> int) [0..<300])"
  by (rule queue_reads_whole [OF paging_net_serves]) (simp add: QUEUE_PAGE_SIZE_def QUEUE_MAX_PAGES_def)

end
