(* ===== verification/Title_Routes.thy ===== *)
theory Title_Routes
  imports Media_Save_Props Blocklist Arr_Calls
begin

section \<open>Titles by hand\<close>

text \<open>
  The routes of \<open>src/backend-rs/src/routes/mediawrite.rs\<close> that change titles: \<open>DELETE /media/{id}\<close>,
  \<open>POST /media/{id}/{status}\<close> and \<open>DELETE /media/{id}/file\<close>, on the library; what Radarr, Sonarr (\<open>net\<close>) and
  TMDB (\<open>e_tmdb\<close>) answer is a parameter. A route yields the library, the answer (a number is the status of an
  empty one) and what goes out. Statements succeed; a deleted media row takes its requests along.
\<close>

record title_request =
  tq_viewer :: "current_user option"
  tq_query :: "string option"
  tq_judged :: "jmap option"
  tq_id :: "string option"
  tq_status :: string
  tq_body :: "json option"

type_synonym title_reply = "library \<times> (outcome, nat) res \<times> effect list"

text \<open>\<open>Ready::no_query\<close> of \<open>routes/mod.rs\<close>.\<close>

definition no_query :: "title_request \<Rightarrow> (outcome, unit) res" where
  "no_query rq =
     (if unwrap_or [] (tq_query rq) = [] then Inr ()
      else if tq_judged rq = Some [] then Inr ()
      else Inl (Forward ''the query string could not be validated''))"

subsection \<open>Removing a title\<close>

definition remove_media :: "int \<Rightarrow> library \<Rightarrow> library" where
  "remove_media i lib = lib\<lparr>tables := delete_media i (tables lib)\<rparr>"

definition delete_title :: "outside \<Rightarrow> env \<Rightarrow> library \<Rightarrow> title_request \<Rightarrow> title_reply" where
  "delete_title out env lib rq =
     (case and_then (no_query rq) (\<lambda>_. and_then (authenticated (tq_viewer rq) MANAGE_REQUESTS) (\<lambda>_. path_int (tq_id rq))) of
        Inl answer \<Rightarrow> (lib, Inl answer, [])
      | Inr i \<Rightarrow>
          (case media_by_id (tables lib) i of
             None \<Rightarrow> (lib, Inr 204, [])
           | Some media \<Rightarrow>
               if m_status media = M_BLOCKLISTED
               then (let edit = new_edit media;
                         (lib, _, fx) = save_media out env lib (edit\<lparr>me_after := reset_service_data (me_after edit) None\<rparr>) []
                     in (lib, Inr 204, fx))
               else (remove_media i lib, Inr 204, [])))"

subsection \<open>Setting a status\<close>

fun season_numbers :: "json list \<Rightarrow> int list option" where
  "season_numbers [] = Some []"
| "season_numbers (item # items) =
     (case Option.bind (jget item ''seasonNumber'') as_i64 of
        None \<Rightarrow> None
      | Some n \<Rightarrow> map_option ((#) n) (season_numbers items))"

definition status_body :: "json option \<Rightarrow> (string, bool \<times> int list option) res" where
  "status_body raw =
     (case raw of
        Some (JObj body) \<Rightarrow>
          and_then (case obj_get body ''is4k'' of
              None \<Rightarrow> Inr False
            | Some (JBool b) \<Rightarrow> Inr b
            | Some _ \<Rightarrow> Inl ''is4k isn't a boolean; the validator decides'') (\<lambda>four_k.
          Inr (four_k,
            case obj_get body ''seasons'' of
              None \<Rightarrow> Some []
            | Some JNull \<Rightarrow> Some []
            | Some (JArr items) \<Rightarrow> season_numbers items
            | Some _ \<Rightarrow> None))
      | _ \<Rightarrow> Inl ''a body that isn't an object'')"

text \<open>The status a word stands for; \<open>deleted\<close> sets none.\<close>

definition status_target :: "string \<Rightarrow> (outcome, int option) res" where
  "status_target status =
     (if status = ''available'' then Inr (Some M_AVAILABLE)
      else if status = ''partial'' then Inr (Some M_PARTIAL)
      else if status = ''processing'' then Inr (Some M_PROCESSING)
      else if status = ''pending'' then Inr (Some M_PENDING)
      else if status = ''unknown'' then Inr (Some M_UNKNOWN)
      else if status = ''deleted'' then Inr None
      else Inl (Forward ''the validator rejects other statuses''))"

text \<open>The change the word asks for, refused where the title's type or the listed seasons do not allow it.\<close>

definition status_change ::
  "string \<Rightarrow> int option \<Rightarrow> bool \<Rightarrow> int list option \<Rightarrow> media_row \<Rightarrow> (outcome, media_edit) res" where
  "status_change status target four_k seasons media =
     (if status = ''partial'' \<and> m_media_type media = ''movie''
      then Inl (Error 400 ''Only series can be set to be partially available'')
      else
        let edit = new_edit media;
            edit = (case target of None \<Rightarrow> edit | Some t \<Rightarrow> edit\<lparr>me_after := with_status four_k t (me_after edit)\<rparr>)
        in if status = ''available'' \<and> m_media_type (me_after edit) = ''tv''
           then (case seasons of
               None \<Rightarrow> Inl (Forward ''seasons is not a list of numbered seasons'')
             | Some numbers \<Rightarrow> Inr (fold (\<lambda>n. edit_season n four_k M_AVAILABLE) numbers edit))
           else Inr edit)"

text \<open>What is to be saved, or the answer of the checks before.\<close>

definition status_edit :: "library \<Rightarrow> title_request \<Rightarrow> (outcome, media_edit) res" where
  "status_edit lib rq =
     and_then (no_query rq) (\<lambda>_.
     and_then (authenticated (tq_viewer rq) MANAGE_REQUESTS) (\<lambda>_.
     and_then (status_target (tq_status rq)) (\<lambda>target.
     and_then (path_int (tq_id rq)) (\<lambda>i.
     and_then (forwarding (status_body (tq_body rq))) (\<lambda>(four_k, seasons).
     and_then (case media_by_id (tables lib) i of
         None \<Rightarrow> Inl (Error 404 ''Media does not exist.'') | Some media \<Rightarrow> Inr media) (\<lambda>media.
       status_change (tq_status rq) target four_k seasons media))))))"

definition set_status :: "printing \<Rightarrow> outside \<Rightarrow> env \<Rightarrow> library \<Rightarrow> title_request \<Rightarrow> library \<times> outcome \<times> effect list" where
  "set_status pr out env lib rq =
     (case status_edit lib rq of
        Inl answer \<Rightarrow> (lib, answer, [])
      | Inr edit \<Rightarrow>
          let items = (if tracks_downloads (me_before edit) then pr_downloads pr else no_downloads);
              (lib, edit, fx) = save_media out env lib edit []
          in (lib, Reply 200 (saved_json (pr_num pr) (pr_plugin pr) edit (e_settings env) items), fx))"

subsection \<open>Deleting files\<close>

definition is4k_query :: "string option \<Rightarrow> (string, bool) res" where
  "is4k_query raw =
     (let q = unwrap_or [] raw
      in if q = [] \<or> q = ''is4k=false'' then Inr False
         else if q = ''is4k=true'' then Inr True
         else Inl ''a query the validator has to judge'')"

definition server_id :: "json \<Rightarrow> int option" where
  "server_id s = Option.bind (jget s ''id'') as_i64"

definition file_server :: "json \<Rightarrow> media_row \<Rightarrow> bool \<Rightarrow> json option" where
  "file_server settings media four_k =
     (case Option.bind (jpath [if m_media_type media = ''movie'' then ''radarr'' else ''sonarr''] settings) as_array of
        None \<Rightarrow> None
      | Some servers \<Rightarrow>
          let server = find (\<lambda>s. truthy (jget s ''isDefault'') \<and> jget s ''is4k'' = Some (JBool four_k)) servers;
              specific = (if four_k then m_service_id4k media else m_service_id media)
          in (case opt_filter (\<lambda>i. 0 \<le> i) specific of
                None \<Rightarrow> server
              | Some i \<Rightarrow>
                  if Option.bind server server_id \<noteq> Some i then find (\<lambda>s. server_id s = Some i) servers
                  else server))"

definition as_u64 :: "json \<Rightarrow> nat option" where
  "as_u64 v = (case v of JInt n \<Rightarrow> if 0 \<le> n \<and> n < 2 ^ 64 then Some (nat n) else None | _ \<Rightarrow> None)"

definition timeout_ms :: "json \<Rightarrow> nat" where
  "timeout_ms settings = unwrap_or 0 (Option.bind (jpath [''network'', ''apiRequestTimeout''] settings) as_u64)"

text \<open>\<open>found.get(0)\<close>: only a list has a first item.\<close>

definition first_item :: "json \<Rightarrow> json option" where
  "first_item v = (case v of JArr (x # xs) \<Rightarrow> Some x | _ \<Rightarrow> None)"

definition remove_from_arr ::
  "(json \<Rightarrow> string) \<Rightarrow> arr_net \<Rightarrow> arr_server \<Rightarrow> string \<Rightarrow> string \<Rightarrow> (arr_error, unit) res" where
  "remove_from_arr num net arr lookup kind =
     and_then (arr_get net arr (''/'' @ kind @ ''/lookup'') [(''term'', lookup)]) (\<lambda>found.
       case opt_filter (\<lambda>v. v \<noteq> JNull) (first_item found) of
         None \<Rightarrow> Inl (Plain ''not found'' False)
       | Some item \<Rightarrow>
           (case opt_filter (\<lambda>v. truthy (Some v)) (jget item ''id'') of
              None \<Rightarrow> Inr ()
            | Some arr_id \<Rightarrow>
                (case net arr ''DELETE'' (''/'' @ kind @ ''/'' @ js_string num (Some arr_id))
                    [(''deleteFiles'', ''true''), (''addImportExclusion'', ''false'')] None (as_timeout arr) of
                   Inr _ \<Rightarrow> Inr ()
                 | Inl (Http status data) \<Rightarrow> if status = 404 then Inr () else Inl (Http status data)
                 | Inl e \<Rightarrow> Inl e)))"

definition season_deleted :: "bool \<Rightarrow> season_row \<Rightarrow> season_row" where
  "season_deleted four_k s = with_season four_k M_DELETED s"

definition remove_series ::
  "env \<Rightarrow> arr_net \<Rightarrow> arr_server \<Rightarrow> media_edit \<Rightarrow> bool \<Rightarrow> (string, media_edit) res" where
  "remove_series env net arr edit four_k =
     and_then (e_tmdb env False (m_tmdb_id (me_after edit)) (main_locale (e_settings env))) (\<lambda>series.
     let tvdb = (case jpath [''external_ids'', ''tvdb_id''] series of
           None \<Rightarrow> m_tvdb_id (me_after edit)
         | Some JNull \<Rightarrow> m_tvdb_id (me_after edit)
         | Some v \<Rightarrow> as_i64 v)
     in (case opt_filter (\<lambda>t. t \<noteq> 0) tvdb of
           None \<Rightarrow> Inl ''TVDB ID not found''
         | Some t \<Rightarrow>
             and_then (map_err arr_message (remove_from_arr (e_num env) net arr (''tvdb:'' @ show_int t) ''series'')) (\<lambda>_.
               Inr (edit\<lparr>me_after := (me_after edit)\<lparr>m_seasons :=
                 map (season_deleted four_k) (m_seasons (me_after edit))\<rparr>\<rparr>))))"

definition remove_files ::
  "env \<Rightarrow> arr_net \<Rightarrow> arr_server \<Rightarrow> media_row \<Rightarrow> bool \<Rightarrow> (string, media_edit) res" where
  "remove_files env net arr media four_k =
     (if m_media_type media = ''movie''
      then and_then (map_err arr_message (remove_from_arr (e_num env) net arr (''tmdb:'' @ show_int (m_tmdb_id media)) ''movie''))
             (\<lambda>_. Inr (new_edit media))
      else remove_series env net arr (new_edit media) four_k)"

definition arr_of :: "env \<Rightarrow> media_row \<Rightarrow> json \<Rightarrow> arr_server" where
  "arr_of env media server =
     \<lparr>as_server = server, as_timeout = timeout_ms (e_settings env),
      as_api_name = (if m_media_type media = ''movie'' then ''Radarr'' else ''Sonarr'')\<rparr>"

definition deleted_edit :: "media_edit \<Rightarrow> bool \<Rightarrow> media_edit" where
  "deleted_edit edit four_k =
     edit\<lparr>me_after := reset_service_data (with_status four_k M_DELETED (me_after edit)) (Some four_k)\<rparr>"

definition file_edit :: "env \<Rightarrow> arr_net \<Rightarrow> library \<Rightarrow> title_request \<Rightarrow> (outcome, media_edit) res" where
  "file_edit env net lib rq =
     and_then (authenticated (tq_viewer rq) MANAGE_REQUESTS) (\<lambda>_.
     and_then (forwarding (is4k_query (tq_query rq))) (\<lambda>four_k.
     and_then (path_int (tq_id rq)) (\<lambda>i.
     and_then (case media_by_id (tables lib) i of
         None \<Rightarrow> Inl (Error 404 ''Media not found'') | Some media \<Rightarrow> Inr media) (\<lambda>media.
     and_then (case file_server (e_settings env) media four_k of
         None \<Rightarrow> Inl (Error 409 (''No '' @ (if four_k then ''4K '' else []) @
           (if m_media_type media = ''movie'' then ''Radarr'' else ''Sonarr'') @ '' server configured to delete media files''))
       | Some server \<Rightarrow> Inr server) (\<lambda>server.
     and_then (map_err (\<lambda>_. Error 500 ''Failed to delete media file'')
         (remove_files env net (arr_of env media server) media four_k)) (\<lambda>edit.
       Inr (deleted_edit edit four_k)))))))"

definition delete_file :: "outside \<Rightarrow> env \<Rightarrow> arr_net \<Rightarrow> library \<Rightarrow> title_request \<Rightarrow> title_reply" where
  "delete_file out env net lib rq =
     (case file_edit env net lib rq of
        Inl answer \<Rightarrow> (lib, Inl answer, [])
      | Inr edit \<Rightarrow>
          let (lib, _, fx) = save_media out env lib edit []
          in (lib, Inr 204, fx))"

end
