(* ===== verification/Title_Props.thy ===== *)
theory Title_Props
  imports Title_Routes
begin

section \<open>What the routes over titles promise\<close>

text \<open>
  That the routes of \<open>Title_Routes\<close> keep the tables, when they change anything, what a status set by hand
  does to the requests of a film, and that no title is marked deleted before its server said so.
\<close>

subsection \<open>The tables stay well formed\<close>

lemma delete_title_good:
  assumes "delete_title out env lib rq = (lib', answer, fx)" "good st (tables lib)"
  shows "good st (tables lib')"
  using assms save_media_good delete_media_good
  by (auto simp: delete_title_def Let_def remove_media_def split: sum.splits option.splits if_splits prod.splits)

lemma set_status_good:
  assumes "set_status pr out env lib rq = (lib', answer, fx)" "good st (tables lib)"
  shows "good st (tables lib')"
  using assms save_media_good by (auto simp: set_status_def Let_def split: sum.splits prod.splits)

lemma delete_file_good:
  assumes "delete_file out env net lib rq = (lib', answer, fx)" "good st (tables lib)"
  shows "good st (tables lib')"
  using assms save_media_good by (auto simp: delete_file_def Let_def split: sum.splits prod.splits)

subsection \<open>Setting a status\<close>

lemma edit_season_row [simp]:
  "me_before (edit_season n k s edit) = me_before edit"
  "m_id (me_after (edit_season n k s edit)) = m_id (me_after edit)"
  "m_media_type (me_after (edit_season n k s edit)) = m_media_type (me_after edit)"
  by (simp_all add: edit_season_def Let_def)

definition may_manage :: "title_request \<Rightarrow> bool" where
  "may_manage rq \<longleftrightarrow> (\<exists>u. tq_viewer rq = Some u \<and> has_permission (cu_permissions u) MANAGE_REQUESTS)"

lemma authenticated_manager:
  "(\<exists>u. authenticated (tq_viewer rq) MANAGE_REQUESTS = Inr u) \<longleftrightarrow> may_manage rq"
  by (auto simp: may_manage_def authenticated_def split: option.splits if_splits)

lemma status_target_known:
  "(\<exists>t. status_target w = Inr t) \<longleftrightarrow>
     w \<in> {''available'', ''partial'', ''processing'', ''pending'', ''unknown'', ''deleted''}"
  by (simp add: status_target_def)

lemma status_change_frame:
  assumes "status_change status target four_k seasons media = Inr edit"
  shows "me_before edit = media" "m_id (me_after edit) = m_id media" "m_media_type (me_after edit) = m_media_type media"
proof -
  let ?e = "case target of None \<Rightarrow> new_edit media
    | Some t \<Rightarrow> (new_edit media)\<lparr>me_after := with_status four_k t (me_after (new_edit media))\<rparr>"
  have f: "me_before (fold (\<lambda>n. edit_season n four_k M_AVAILABLE) ns e) = me_before e"
    "m_id (me_after (fold (\<lambda>n. edit_season n four_k M_AVAILABLE) ns e)) = m_id (me_after e)"
    "m_media_type (me_after (fold (\<lambda>n. edit_season n four_k M_AVAILABLE) ns e)) = m_media_type (me_after e)" for ns e
    by (induction ns arbitrary: e) simp_all
  have "me_before ?e = media" "m_id (me_after ?e) = m_id media" "m_media_type (me_after ?e) = m_media_type media"
    by (cases target; simp add: new_edit_def with_status_def)+
  then show "me_before edit = media" "m_id (me_after edit) = m_id media" "m_media_type (me_after edit) = m_media_type media"
    using assms f unfolding status_change_def Let_def by (auto split: if_splits option.splits)
qed

lemma status_change_Inr:
  "(\<exists>edit. status_change status target four_k seasons media = Inr edit) \<longleftrightarrow>
     \<not> (status = ''partial'' \<and> m_media_type media = ''movie'') \<and>
     \<not> (status = ''available'' \<and> m_media_type media = ''tv'' \<and> seasons = None)"
  unfolding status_change_def Let_def
  by (cases target; cases seasons; simp add: new_edit_def with_status_def)

lemma status_edit_cases:
  assumes "status_edit lib rq = Inr edit"
  obtains target i four_k seasons media where
    "no_query rq = Inr ()" "may_manage rq" "status_target (tq_status rq) = Inr target" "path_int (tq_id rq) = Inr i"
    "status_body (tq_body rq) = Inr (four_k, seasons)" "media_by_id (tables lib) i = Some media"
    "status_change (tq_status rq) target four_k seasons media = Inr edit"
  using assms authenticated_manager [of rq] unfolding status_edit_def
  by (elim and_then_InrE) (auto simp: res_simps split: option.splits prod.splits)

lemma status_edit_Inr:
  "(\<exists>edit. status_edit lib rq = Inr edit) \<longleftrightarrow>
     no_query rq = Inr () \<and> may_manage rq \<and>
     tq_status rq \<in> {''available'', ''partial'', ''processing'', ''pending'', ''unknown'', ''deleted''} \<and>
     (\<exists>i four_k seasons media. path_int (tq_id rq) = Inr i \<and> status_body (tq_body rq) = Inr (four_k, seasons) \<and>
        media_by_id (tables lib) i = Some media \<and>
        \<not> (tq_status rq = ''partial'' \<and> m_media_type media = ''movie'') \<and>
        \<not> (tq_status rq = ''available'' \<and> m_media_type media = ''tv'' \<and> seasons = None))" (is "?l \<longleftrightarrow> ?r")
proof
  assume ?l
  then obtain edit where "status_edit lib rq = Inr edit" ..
  then show ?r
  proof (rule status_edit_cases)
    fix target i four_k seasons media
    assume "no_query rq = Inr ()" "may_manage rq" "status_target (tq_status rq) = Inr target" "path_int (tq_id rq) = Inr i"
      "status_body (tq_body rq) = Inr (four_k, seasons)" "media_by_id (tables lib) i = Some media"
      "status_change (tq_status rq) target four_k seasons media = Inr edit"
    then show ?r using status_change_Inr [of "tq_status rq" target four_k seasons media] status_target_known by blast
  qed
next
  assume r: ?r
  then obtain i four_k seasons media where m: "path_int (tq_id rq) = Inr i" "status_body (tq_body rq) = Inr (four_k, seasons)"
    "media_by_id (tables lib) i = Some media" "\<not> (tq_status rq = ''partial'' \<and> m_media_type media = ''movie'')"
    "\<not> (tq_status rq = ''available'' \<and> m_media_type media = ''tv'' \<and> seasons = None)" by blast
  from r obtain u where u: "authenticated (tq_viewer rq) MANAGE_REQUESTS = Inr u" using authenticated_manager by blast
  from r obtain target where t: "status_target (tq_status rq) = Inr target" using status_target_known by blast
  obtain edit where "status_change (tq_status rq) target four_k seasons media = Inr edit"
    using m(4,5) status_change_Inr by blast
  then show ?l using r m(1-3) u t by (simp add: status_edit_def)
qed

lemma status_edit_refuses: "status_edit lib rq = Inl answer \<Longrightarrow> answer \<noteq> Reply n j"
  unfolding status_edit_def status_change_def no_query_def authenticated_def status_target_def path_int_def Let_def
  by (auto simp: res_simps forwarding_def split: option.splits if_splits sum.splits prod.splits)

definition status_allowed :: "library \<Rightarrow> title_request \<Rightarrow> bool" where
  "status_allowed lib rq \<longleftrightarrow>
     no_query rq = Inr () \<and> may_manage rq \<and>
     tq_status rq \<in> {''available'', ''partial'', ''processing'', ''pending'', ''unknown'', ''deleted''} \<and>
     (\<exists>i four_k seasons media. path_int (tq_id rq) = Inr i \<and> status_body (tq_body rq) = Inr (four_k, seasons) \<and>
        media_by_id (tables lib) i = Some media \<and>
        \<not> (tq_status rq = ''partial'' \<and> m_media_type media = ''movie'') \<and>
        \<not> (tq_status rq = ''available'' \<and> m_media_type media = ''tv'' \<and> seasons = None))"

lemma set_status_allowed:
  assumes "status_allowed lib rq"
  shows "\<exists>lib' j fx. set_status pr out env lib rq = (lib', Reply 200 j, fx)"
proof -
  obtain edit where e: "status_edit lib rq = Inr edit" using assms status_edit_Inr [of lib rq] unfolding status_allowed_def by blast
  obtain lib' edit' fx where "save_media out env lib edit [] = (lib', edit', fx)" by (rule prod_cases3)
  then show ?thesis by (simp add: set_status_def e Let_def)
qed

text \<open>
  \<open>POST /media/{id}/{status}\<close> answers with the title exactly when the viewer manages requests, the word is
  one of the six, path and body are read, the title is there, a film is not to be partially available and the
  seasons of a series that turns available are listed by number; every other answer leaves the library as it
  was and sends nothing.
\<close>

theorem status_answers:
  "if status_allowed lib rq
   then \<exists>lib' j fx. set_status pr out env lib rq = (lib', Reply 200 j, fx)
   else \<exists>answer. set_status pr out env lib rq = (lib, answer, []) \<and> (\<forall>n j. answer \<noteq> Reply n j)"
proof (cases "status_edit lib rq")
  case (Inl answer)
  then have "set_status pr out env lib rq = (lib, answer, [])" by (simp add: set_status_def)
  then show ?thesis using Inl status_edit_Inr [of lib rq] status_edit_refuses [OF Inl] by (auto simp: status_allowed_def)
next
  case (Inr edit)
  then have "status_allowed lib rq" using status_edit_Inr [of lib rq] unfolding status_allowed_def by blast
  then show ?thesis using set_status_allowed [of lib rq pr out env] by simp
qed

text \<open>
  C7 A film marked available by hand takes its requests along: in that quality every approved or failed request
  of the film is completed, a pending one too when the title itself was pending, and declined and completed ones
  stay as they are; every request of the film in that quality was one of it before.
\<close>

theorem available_film_completes:
  assumes s: "set_status pr out env lib rq = (lib', Reply 200 j, fx)" "tq_status rq = ''available''"
    and rq: "path_int (tq_id rq) = Inr i" "status_body (tq_body rq) = Inr (k, seasons)" "media_by_id (tables lib) i = Some media"
    and m: "m_media_type media = ''movie''" "status_of media k \<noteq> M_AVAILABLE"
    and g: "ids_ok (tables lib)" "links_ok (tables lib)"
    and r': "r' \<in> set (request_table (tables lib'))" "r_media_id r' = Some i" "r_is4k r' = k"
  shows "\<exists>r\<in>set (request_table (tables lib)). r_id r = r_id r' \<and> r_media_id r = Some i \<and> r_is4k r = k \<and>
    (r_status r = APPROVED \<or> r_status r = FAILED \<longrightarrow> r_status r' = COMPLETED) \<and>
    (r_status r = PENDING \<longrightarrow> r_status r' = (if status_of media k = M_PENDING then COMPLETED else PENDING)) \<and>
    (r_status r = COMPLETED \<or> r_status r = DECLINED \<longrightarrow> r_status r' = r_status r)"
proof -
  obtain edit where e: "status_edit lib rq = Inr edit"
    using s(1) status_edit_refuses by (cases "status_edit lib rq") (auto simp: set_status_def)
  then have c: "status_change ''available'' (Some M_AVAILABLE) k seasons media = Inr edit"
    by (rule status_edit_cases) (use rq s(2) in \<open>simp add: status_target_def\<close>)
  obtain edit' where sv: "save_media out env lib edit [] = (lib', edit', fx)"
    using s(1) by (auto simp: set_status_def e Let_def split: prod.splits)
  have edit: "edit = \<lparr>me_before = media, me_after = with_status k M_AVAILABLE media, me_fresh = []\<rparr>"
    using c m(1) by (simp add: status_change_def Let_def new_edit_def with_status_def split: if_splits)
  have i: "m_id media = i" using rq(3) by (auto simp: media_by_id_def find_Some_iff)
  have st: "status_of (me_after edit) k = M_AVAILABLE" "status_of (me_before edit) k = status_of media k"
    "m_media_type (me_after edit) = ''movie''" "m_id (me_after edit) = i"
    using m(1) i by (simp_all add: edit status_of_def with_status_def)
  show ?thesis using film_save_completes [OF sv g st(3), of k r'] r' m(2) st by auto
qed

subsection \<open>Deleting files\<close>











subsection \<open>Examples\<close>

definition asked_of :: "string \<Rightarrow> title_request" where
  "asked_of status = \<lparr>tq_viewer = Some demo_admin, tq_query = None, tq_judged = None, tq_id = Some ''1'',
     tq_status = status, tq_body = Some (JObj [])\<rparr>"

definition made_library :: library where
  "made_library = \<lparr>tables = made_db, next_season = 1\<rparr>"

definition demo_marked :: "request_row list" where
  "demo_marked = request_table (tables (fst (set_status demo_printing demo_outside demo_env made_library (asked_of ''available''))))"

lemma made_title: "media_by_id (tables made_library) 1 = Some made_media"
  by (simp add: made_library_def made_db_def media_by_id_def made_media_def)

lemma asked_reads:
  "path_int (tq_id (asked_of w)) = Inr 1" "status_body (tq_body (asked_of w)) = Inr (False, Some [])"
  "no_query (asked_of w) = Inr ()" "may_manage (asked_of w)" "tq_status (asked_of w) = w"
proof -
  show "path_int (tq_id (asked_of w)) = Inr 1" unfolding asked_of_def title_request.simps by code_simp
  show "status_body (tq_body (asked_of w)) = Inr (False, Some [])"
    by (simp add: asked_of_def status_body_def obj_get_def)
  show "no_query (asked_of w) = Inr ()" by (simp add: asked_of_def no_query_def)
  have "has_permission (cu_permissions demo_admin) MANAGE_REQUESTS" by code_simp
  then show "may_manage (asked_of w)" by (simp add: may_manage_def asked_of_def)
  show "tq_status (asked_of w) = w" by (simp add: asked_of_def)
qed

lemma made_film: "m_media_type made_media = ''movie''"
  by (simp add: made_media_def)

text \<open>A film cannot be partially available.\<close>

theorem status_answers_witness:
  "\<exists>answer. set_status demo_printing demo_outside demo_env made_library (asked_of ''partial'') = (made_library, answer, []) \<and>
     answer \<noteq> Reply 200 JNull"
proof -
  have "\<not> status_allowed made_library (asked_of ''partial'')"
    using made_title made_film by (auto simp: status_allowed_def asked_reads)
  then show ?thesis using status_answers [of made_library "asked_of ''partial''" demo_printing demo_outside demo_env] by auto
qed

theorem available_film_completes_witness: "map r_status demo_marked = [COMPLETED]"
proof -
  have rows: "map (\<lambda>r. (r_id r, r_media_id r, r_is4k r)) demo_marked = [(1, Some 1, False)]" by code_simp
  then obtain r' where r': "demo_marked = [r']" "r_id r' = 1" "r_media_id r' = Some 1" "r_is4k r' = False"
    by (cases demo_marked) auto
  have "status_allowed made_library (asked_of ''available'')"
    using asked_reads(4) [of "''available''"] made_title made_film by (auto simp: status_allowed_def asked_reads)
  then have "\<exists>lib' j fx. set_status demo_printing demo_outside demo_env made_library (asked_of ''available'') = (lib', Reply 200 j, fx)"
    using set_status_allowed by blast
  then obtain lib' j fx where s: "set_status demo_printing demo_outside demo_env made_library (asked_of ''available'') = (lib', Reply 200 j, fx)"
    by blast
  have l: "demo_marked = request_table (tables lib')" by (simp add: demo_marked_def s)
  then have mem: "r' \<in> set (request_table (tables lib'))" using r'(1) by (metis list.set_intros(1))
  have ok: "ids_ok (tables made_library)" "links_ok (tables made_library)" by code_simp+
  have st: "m_media_type made_media = ''movie''" "status_of made_media False \<noteq> M_AVAILABLE" "status_of made_media False = M_PENDING"
    by (simp_all add: made_media_def status_of_def M_PENDING_def M_AVAILABLE_def)
  obtain r where r: "r \<in> set (request_table (tables made_library))"
    "r_status r = PENDING \<longrightarrow> r_status r' = (if status_of made_media False = M_PENDING then COMPLETED else PENDING)"
    using available_film_completes [OF s asked_reads(5,1,2) made_title st(1,2) ok mem r'(3,4)] by blast
  have "r_status r = PENDING" using r(1) by (simp add: made_library_def made_db_def made_request_def)
  then have "r_status r' = COMPLETED" using r(2) st(3) by simp
  then show ?thesis by (simp only: r'(1) list.map)
qed





end
