(* ===== verification/Library_Life.thy ===== *)
theory Library_Life
  imports Scan_Facts Title_Props
begin

section \<open>Requests and scans together\<close>

text \<open>
  The server's runs over its tables: requests come, change and go (\<open>lived\<close> of \<open>Request_Life\<close>), titles are
  saved, marked, taken off or lose their files by hand, films and series are scanned, and a scan settles what it
  found abandoned. \<open>ran\<close> is any interleaving
  of these steps; each is one transaction of the server on the tables.
\<close>

inductive ran :: "bool \<Rightarrow> scan_state \<Rightarrow> scan_state \<Rightarrow> bool" for stated :: bool where
  start: "ran stated s s"
| requests: "ran stated s (lib, rs) \<Longrightarrow> lived stated (tables lib) d \<Longrightarrow> ran stated s (lib\<lparr>tables := d\<rparr>, rs)"
| saved: "ran stated s (lib, rs) \<Longrightarrow> save_media out env lib edit orphans = (lib', edit', fx) \<Longrightarrow> ran stated s (lib', rs)"
| marked: "ran stated s (lib, rs) \<Longrightarrow> set_status pr out env lib rq = (lib', answer, fx) \<Longrightarrow> ran stated s (lib', rs)"
| taken_off: "ran stated s (lib, rs) \<Longrightarrow> delete_title out env lib rq = (lib', reply, fx) \<Longrightarrow> ran stated s (lib', rs)"
| files_deleted: "ran stated s (lib, rs) \<Longrightarrow> delete_file out env net lib rq = (lib', reply, fx) \<Longrightarrow> ran stated s (lib', rs)"
| movie: "ran stated s (lib, rs) \<Longrightarrow> process_movie out env sc tmdb_id opts (lib, rs) = ((lib', rs'), fx) \<Longrightarrow>
    ran stated s (lib', rs')"
| series: "ran stated s (lib, rs) \<Longrightarrow> process_show out env sc tmdb_id tvdb seasons show_opts (lib, rs) = ((lib', rs'), fx) \<Longrightarrow>
    ran stated s (lib', rs')"
| resolved: "ran stated s (lib, rs) \<Longrightarrow> resolve_resets out env sc abandoned (lib, rs) = ((lib', rs'), fx) \<Longrightarrow>
    ran stated s (lib', rs')"

lemma ran_good: "ran st s s' \<Longrightarrow> good st (tables (fst s)) \<Longrightarrow> good st (tables (fst s'))"
proof (induction rule: ran.induct)
  case (requests s lib rs d)
  then show ?case using lived_good by simp
qed (auto dest: save_media_good set_status_good delete_title_good delete_file_good process_movie_good process_show_good resolve_resets_good)

text \<open>
  C1 The tables stay well formed whatever happens: over any interleaving of requests, edits, approvals,
  declines, retries, removals, background adds (also those that end when their request was closed or removed
  meanwhile), saves of titles, titles marked, taken off or losing their files
  by hand, and scans, ids are never given twice, season
  and episode rows name the request that holds them, an episode appears once in a request, and every
  request names a media row that exists, or none.
\<close>

theorem library_keeps_tables:
  assumes "ran False (lib, rs) (lib', rs')" "ids_ok (tables lib)" "links_ok (tables lib)"
  shows "ids_ok (tables lib') \<and> links_ok (tables lib')"
  using ran_good [OF assms(1)] assms(2,3) by (simp add: good_def)

text \<open>
  C2 No season is requested twice: the open requests of one title in one quality never hold the same season, over
  any such run in which new requests state their quality, requests are edited while no two media rows have one
  TMDB id and type, and a background add ends while its request is open. The last bound is needed: an add that
  fails later marks a request failed, so open again, that was closed meanwhile.
\<close>

theorem library_keeps_seasons_apart:
  assumes "ran True (lib, rs) (lib', rs')" "ids_ok (tables lib)" "links_ok (tables lib)" "seasons_apart (tables lib)"
  shows "seasons_apart (tables lib')"
  using ran_good [OF assms(1)] assms(2-) by (simp add: good_def)

subsection \<open>An add that fails late\<close>

lemma sorted_wrt_pair:
  assumes "sorted_wrt P xs" "x \<in> set xs" "y \<in> set xs" "x \<noteq> y"
  shows "P x y \<or> P y x"
  using assms by (induction xs) auto

text \<open>
  C3 A failed add reopens whatever became of its request: when the background add of an approved series request
  fails after the request was completed or declined and one of its seasons requested again in the same quality,
  the request is marked failed, the others keep their status, and two open requests of the title hold that season.
\<close>

theorem late_failure_reopens:
  assumes a: "series_added out env d snapshot server tmdb_id (Inl why) episodes = (d', fx)"
    and s: "r_status (en_row snapshot) = APPROVED"
    and r: "r \<in> set (request_table d)" "r_id r = r_id (en_row snapshot)" "r_status r = COMPLETED \<or> r_status r = DECLINED"
    and q: "q \<in> set (request_table d)" "r_id q \<noteq> r_id r" "is_open q" "r_media_id q = r_media_id r" "r_is4k q = r_is4k r"
    and m: "r_media_id r = Some media" "n \<in> set (map sr_season_number (r_seasons r))"
      "n \<in> set (map sr_season_number (r_seasons q))"
  shows "map r_status (request_table d') =
      map (\<lambda>x. if r_id x = r_id r then FAILED else r_status x) (request_table d) \<and> \<not> seasons_apart d'"
proof
  let ?f = "\<lambda>x. if r_id x = r_id r then x\<lparr>r_status := FAILED, r_updated_at := e_stamp env\<rparr> else x"
  have rows: "request_table d' = map ?f (request_table d)"
    using a s r(2) by (auto simp: series_added_def mark_failed_quietly_def modify_request_def FAILED_def APPROVED_def)
  show "map r_status (request_table d') =
      map (\<lambda>x. if r_id x = r_id r then FAILED else r_status x) (request_table d)"
    by (simp add: rows)
  show "\<not> seasons_apart d'"
  proof
    assume "seasons_apart d'"
    moreover have "?f r \<in> set (request_table d')" "?f q \<in> set (request_table d')" "?f r \<noteq> ?f q"
      using r(1) q(1,2) by (auto simp: rows dest: arg_cong [of _ _ r_id])
    ultimately have "apart (?f r) (?f q) \<or> apart (?f q) (?f r)"
      unfolding seasons_apart_def by (rule sorted_wrt_pair)
    then have "apart (?f r) (?f q)" by (simp only: apart_sym [of "?f q"] disj_absorb)
    then have "apart (r\<lparr>r_status := FAILED, r_updated_at := e_stamp env\<rparr>) q" using q(2) by simp
    then show False
      using q(3-5) m by (auto simp: apart_def is_active_open is_open_def FAILED_def COMPLETED_def DECLINED_def)
  qed
qed

subsection \<open>Examples\<close>

text \<open>A film is requested, then found by a scan; two shows are requested, then one is scanned.\<close>

lemma made_lived: "lived True series_users made_db"
proof -
  obtain d1 a1 f1 where c: "create_request demo_printing demo_outside demo_env series_users demo_viewer demo_movie = (d1, a1, f1)"
    by (metis prod_cases3)
  have "d1 = made_db" using demo_life_tables [unfolded demo_life_def c Let_def fst_conv] by (simp only: prod.inject)
  then show ?thesis using lived.created [OF lived.start c] by (simp add: demo_movie_def)
qed

lemma lived_mono: "lived True d d' \<Longrightarrow> lived False d d'"
  by (induction rule: lived.induct) (blast intro: lived.intros)+

theorem library_keeps_tables_witness:
  "ids_ok (tables (fst (fst scanned_made))) \<and> links_ok (tables (fst (fst scanned_made)))"
proof -
  obtain lib' rs' fx where s: "process_movie demo_outside demo_env demo_scan 603 new_movie_opts
      (\<lparr>tables = made_db, next_season = 1\<rparr>, no_resets) = ((lib', rs'), fx)" by (metis prod.exhaust_sel)
  have "ran False (\<lparr>tables = series_users, next_season = 1\<rparr>, no_resets) (\<lparr>tables = made_db, next_season = 1\<rparr>, no_resets)"
    using ran.requests [OF ran.start, of False "\<lparr>tables = series_users, next_season = 1\<rparr>" made_db no_resets]
      lived_mono [OF made_lived] by simp
  from ran.movie [OF this s] have "ran False (\<lparr>tables = series_users, next_season = 1\<rparr>, no_resets) (lib', rs')" .
  moreover have "ids_ok series_users" "links_ok series_users" by code_simp+
  ultimately have "ids_ok (tables lib') \<and> links_ok (tables lib')" using library_keeps_tables by simp
  moreover have "tables (fst (fst scanned_made)) = tables lib'"
    unfolding scanned_made_def shelf_def s by simp
  ultimately show ?thesis by simp
qed

theorem library_keeps_seasons_apart_witness:
  "seasons_apart shows_db \<and> map (\<lambda>r. map sr_season_number (r_seasons r)) (request_table shows_db) = [[1], [2]]"
proof
  have ok: "ids_ok series_users" "links_ok series_users" "seasons_apart series_users" by code_simp+
  have r: "ran True (\<lparr>tables = series_users, next_season = 1\<rparr>, no_resets) (\<lparr>tables = shows_db, next_season = 1\<rparr>, no_resets)"
    using ran.requests [OF ran.start, of True "\<lparr>tables = series_users, next_season = 1\<rparr>" shows_db no_resets] demo_shows_lived
    by simp
  show "seasons_apart shows_db" using library_keeps_seasons_apart [OF r] ok by simp
  show "map (\<lambda>r. map sr_season_number (r_seasons r)) (request_table shows_db) = [[1], [2]]" by code_simp
qed

text \<open>The first request of the shows completes and its season is requested again, then its add to Sonarr fails.\<close>

definition twice_db :: db where
  "twice_db = shows_db\<lparr>request_table := [(show_request 1 1 2)\<lparr>r_status := COMPLETED\<rparr>, show_request 2 1 3]\<rparr>"

definition late_snapshot :: entity where
  "late_snapshot = \<lparr>en_row = (show_request 1 1 2)\<lparr>r_status := APPROVED\<rparr>, en_media = None, en_requested_by = None,
     en_modified_by = None\<rparr>"

theorem late_failure_reopens_witness:
  "seasons_apart twice_db \<and>
   \<not> seasons_apart (fst (series_added demo_outside demo_env twice_db late_snapshot JNull 1396 (Inl ''timeout'') (Inr [])))"
proof
  show "seasons_apart twice_db" by code_simp
  obtain d' fx where a: "series_added demo_outside demo_env twice_db late_snapshot JNull 1396 (Inl ''timeout'') (Inr []) = (d', fx)"
    by (metis surj_pair)
  have "\<not> seasons_apart d'"
    using late_failure_reopens [OF a, where r = "(show_request 1 1 2)\<lparr>r_status := COMPLETED\<rparr>" and q = "show_request 2 1 3"
      and media = 1 and n = 1]
    by (simp add: twice_db_def late_snapshot_def show_request_def made_request_def is_open_def PENDING_def COMPLETED_def
      DECLINED_def)
  then show "\<not> seasons_apart (fst (series_added demo_outside demo_env twice_db late_snapshot JNull 1396 (Inl ''timeout'') (Inr [])))"
    by (simp add: a)
qed

end
