(* ===== verification/Executor.thy ===== *)
theory Executor
  imports Calendar "HOL-Library.Multiset"
begin

section \<open>The managed job executor\<close>

text \<open>
  \<open>src/backend-rs/src/jobs/execution.rs\<close>: the slots runs are admitted to (\<open>slots\<close>), what a failure leaves in the
  log and in \<open>job_execution_state\<close> (\<open>summarize_failure\<close>) and the record of a run (\<open>run_recorded\<close>). The pool of a
  running server is a pair: the runs that hold a slot, with the weight each was admitted with, and the slots.
  Counters never pass two, so the \<open>u32\<close> of the code are naturals; \<open>saturating_sub\<close> is their difference.
\<close>

named_theorems slot_defs "the executor's operations, unfolded"

subsection \<open>Slots\<close>

datatype weight = Heavy | Light

record slots =
  sl_active :: "string list"
  sl_heavy :: nat
  sl_light :: nat
  sl_pending :: "(string \<times> weight) list"

definition no_slots :: slots where
  "no_slots = \<lparr>sl_active = [], sl_heavy = 0, sl_light = 0, sl_pending = []\<rparr>"

definition is_running :: "string \<Rightarrow> slots \<Rightarrow> bool" where
  [slot_defs]: "is_running i s \<longleftrightarrow> i \<in> set (sl_active s)"

definition can_admit :: "string \<Rightarrow> weight \<Rightarrow> slots \<Rightarrow> bool" where
  [slot_defs]: "can_admit i w s \<longleftrightarrow>
     \<not> is_running i s \<and> (case w of Heavy \<Rightarrow> sl_heavy s < 1 | Light \<Rightarrow> sl_light s < 2)"

definition take_slot :: "string \<Rightarrow> weight \<Rightarrow> slots \<Rightarrow> slots" where
  [slot_defs]: "take_slot i w s =
     (let s = s\<lparr>sl_active := sl_active s @ [i]\<rparr>
      in case w of Heavy \<Rightarrow> s\<lparr>sl_heavy := sl_heavy s + 1\<rparr> | Light \<Rightarrow> s\<lparr>sl_light := sl_light s + 1\<rparr>)"

text \<open>Queue an id, replacing an earlier queued request for it.\<close>

fun queue_run :: "string \<Rightarrow> weight \<Rightarrow> (string \<times> weight) list \<Rightarrow> (string \<times> weight) list" where
  "queue_run i w [] = [(i, w)]"
| "queue_run i w ((p, v) # q) = (if p = i then (p, w) # q else (p, v) # queue_run i w q)"

definition admit_run :: "string \<Rightarrow> weight \<Rightarrow> slots \<Rightarrow> bool \<times> slots" where
  "admit_run i w s =
     (if can_admit i w s then (True, take_slot i w s)
      else (False, s\<lparr>sl_pending := queue_run i w (sl_pending s)\<rparr>))"

fun drain :: "(string \<times> weight) list \<Rightarrow> slots \<Rightarrow> (string \<times> weight) list \<times> slots" where
  "drain [] s = ([], s)"
| "drain ((p, w) # q) s =
     (if can_admit p w s
      then (let (started, s) = drain q (take_slot p w s) in ((p, w) # started, s))
      else drain q (s\<lparr>sl_pending := sl_pending s @ [(p, w)]\<rparr>))"

definition free_slot :: "string \<Rightarrow> weight \<Rightarrow> slots \<Rightarrow> slots" where
  [slot_defs]: "free_slot i w s =
     (let s = s\<lparr>sl_active := remove1 i (sl_active s)\<rparr>
      in case w of Heavy \<Rightarrow> s\<lparr>sl_heavy := sl_heavy s - 1\<rparr> | Light \<Rightarrow> s\<lparr>sl_light := sl_light s - 1\<rparr>)"

definition release_run :: "string \<Rightarrow> weight \<Rightarrow> slots \<Rightarrow> (string \<times> weight) list \<times> slots" where
  "release_run i w s = (let s = free_slot i w s in drain (sl_pending s) (s\<lparr>sl_pending := []\<rparr>))"

definition clear_pending :: "slots \<Rightarrow> slots" where
  "clear_pending s = s\<lparr>sl_pending := []\<rparr>"

subsection \<open>The pool of runs\<close>

type_synonym pool = "(string \<times> weight) list \<times> slots"

definition held_of :: "weight \<Rightarrow> (string \<times> weight) list \<Rightarrow> nat" where
  "held_of w h = length (filter (\<lambda>x. snd x = w) h)"

definition counters_ok :: "pool \<Rightarrow> bool" where
  "counters_ok p \<longleftrightarrow>
     (case p of (h, s) \<Rightarrow> map fst h = sl_active s \<and> distinct (sl_active s) \<and>
        sl_heavy s = held_of Heavy h \<and> sl_light s = held_of Light h \<and> sl_heavy s \<le> 1 \<and> sl_light s \<le> 2)"

text \<open>What waits does not fit: no queued run could be admitted.\<close>

definition queue_ok :: "slots \<Rightarrow> bool" where
  "queue_ok s \<longleftrightarrow> distinct (map fst (sl_pending s)) \<and> list_all (\<lambda>(p, w). \<not> can_admit p w s) (sl_pending s)"

definition pool_ok :: "pool \<Rightarrow> bool" where
  "pool_ok p \<longleftrightarrow> counters_ok p \<and> queue_ok (snd p)"

definition pool_admit :: "string \<Rightarrow> weight \<Rightarrow> pool \<Rightarrow> pool" where
  "pool_admit i w p =
     (let (admitted, s) = admit_run i w (snd p) in (if admitted then fst p @ [(i, w)] else fst p, s))"

definition pool_release :: "string \<times> weight \<Rightarrow> pool \<Rightarrow> (string \<times> weight) list \<times> pool" where
  "pool_release x p =
     (let (started, s) = release_run (fst x) (snd x) (snd p) in (started, remove1 x (fst p) @ started, s))"

inductive pool_reached :: "pool \<Rightarrow> bool" where
  empty: "pool_reached ([], no_slots)"
| asked: "pool_reached p \<Longrightarrow> pool_reached (pool_admit i w p)"
| ended: "pool_reached p \<Longrightarrow> x \<in> set (fst p) \<Longrightarrow> pool_reached (snd (pool_release x p))"
| cleared: "pool_reached p \<Longrightarrow> pool_reached (fst p, clear_pending (snd p))"

lemma can_admit_pending [simp]: "can_admit i w (s\<lparr>sl_pending := q\<rparr>) = can_admit i w s"
  by (simp add: slot_defs split: weight.split)

lemma take_slot_pending [simp]: "sl_pending (take_slot i w s) = sl_pending s"
  by (simp add: slot_defs Let_def split: weight.split)

lemma counters_ok_pending [simp]: "counters_ok (h, s\<lparr>sl_pending := q\<rparr>) = counters_ok (h, s)"
  by (simp add: counters_ok_def)

lemma take_slot_blocks: "\<not> can_admit p v s \<Longrightarrow> \<not> can_admit p v (take_slot i w s)"
  by (auto simp: slot_defs Let_def split: weight.splits)

lemma take_slot_counters: "counters_ok (h, s) \<Longrightarrow> can_admit i w s \<Longrightarrow> counters_ok (h @ [(i, w)], take_slot i w s)"
  by (auto simp: counters_ok_def slot_defs Let_def held_of_def split: weight.splits)

lemma queue_run_keys: "fst ` set (queue_run i w q) = insert i (fst ` set q)"
  by (induction i w q rule: queue_run.induct) auto

lemma queue_run_distinct: "distinct (map fst q) \<Longrightarrow> distinct (map fst (queue_run i w q))"
proof (induction i w q rule: queue_run.induct)
  case (2 i w p v q)
  have "p \<notin> fst ` set (queue_run i w q)" if "p \<noteq> i"
    unfolding queue_run_keys using 2(2) that by simp
  then show ?case using 2 by auto
qed simp

lemma queue_run_subset: "set (queue_run i w q) \<subseteq> insert (i, w) (set q)"
  by (induction i w q rule: queue_run.induct) auto

lemma pool_admit_ok: "pool_ok p \<Longrightarrow> pool_ok (pool_admit i w p)"
proof (cases p)
  case (Pair h s)
  assume ok: "pool_ok p"
  show ?thesis
  proof (cases "can_admit i w s")
    case True
    have "queue_ok (take_slot i w s)"
      using ok take_slot_blocks by (auto simp: Pair pool_ok_def queue_ok_def list_all_iff)
    then show ?thesis
      using ok take_slot_counters True by (simp add: Pair pool_admit_def admit_run_def pool_ok_def)
  next
    case False
    have "queue_ok (s\<lparr>sl_pending := queue_run i w (sl_pending s)\<rparr>)"
      using ok False queue_run_distinct queue_run_subset [of i w "sl_pending s"]
      by (auto simp: Pair pool_ok_def queue_ok_def list_all_iff)
    then show ?thesis using ok False by (simp add: Pair pool_admit_def admit_run_def pool_ok_def)
  qed
qed

lemma drain_ok:
  assumes "drain q s = (started, s')" "counters_ok (h, s)" "queue_ok s" "distinct (map fst (sl_pending s @ q))"
  shows "counters_ok (h @ started, s') \<and> queue_ok s' \<and> mset (sl_pending s') + mset started = mset (sl_pending s) + mset q"
  using assms
proof (induction q s arbitrary: started h rule: drain.induct)
  case (2 p w q s)
  show ?case
  proof (cases "can_admit p w s")
    case True
    obtain more where m: "drain q (take_slot p w s) = (more, s')" "started = (p, w) # more"
      using 2(3) True by (auto split: prod.splits)
    have "queue_ok (take_slot p w s)"
      using 2(5) take_slot_blocks by (auto simp: queue_ok_def list_all_iff)
    then show ?thesis
      using 2(1) [OF True m(1) take_slot_counters [OF 2(4) True]] 2(6) m(2) by simp
  next
    case False
    have "queue_ok (s\<lparr>sl_pending := sl_pending s @ [(p, w)]\<rparr>)"
      using 2(5,6) False by (auto simp: queue_ok_def)
    then show ?thesis using 2(2) [OF False, of started h] 2(3,4,6) False by simp
  qed
qed simp

lemma remove1_keys: "distinct (map fst h) \<Longrightarrow> x \<in> set h \<Longrightarrow> map fst (remove1 x h) = remove1 (fst x) (map fst h)"
  by (induction h) (auto simp: image_iff)

lemma held_of_remove: "x \<in> set h \<Longrightarrow> held_of w (remove1 x h) = held_of w h - (if snd x = w then 1 else 0)"
proof (induction h)
  case (Cons y h)
  have "held_of w h \<noteq> 0" if "x \<in> set h" "snd x = w"
    using that by (auto simp: held_of_def filter_empty_conv)
  then show ?case using Cons by (auto simp: held_of_def)
qed simp

lemma free_slot_counters: "counters_ok (h, s) \<Longrightarrow> (i, w) \<in> set h \<Longrightarrow> counters_ok (remove1 (i, w) h, free_slot i w s)"
  using remove1_keys [of h "(i, w)"] held_of_remove [of "(i, w)" h]
  by (auto simp: counters_ok_def slot_defs Let_def split: weight.split)

lemma pool_release_ok:
  assumes ok: "pool_ok (h, s)" and x: "x \<in> set h" and r: "pool_release x (h, s) = (started, h', s')"
  shows "pool_ok (h', s') \<and> h' = remove1 x h @ started \<and> mset (sl_pending s') + mset started = mset (sl_pending s)"
proof -
  define f where "f = (free_slot (fst x) (snd x) s)\<lparr>sl_pending := []\<rparr>"
  have p: "sl_pending (free_slot (fst x) (snd x) s) = sl_pending s"
    by (simp add: slot_defs Let_def split: weight.split)
  have d: "drain (sl_pending s) f = (started, s')" "h' = remove1 x h @ started"
    using r by (auto simp: pool_release_def release_run_def Let_def p f_def split: prod.splits)
  have "counters_ok (remove1 x h, f)" using free_slot_counters [of h s "fst x" "snd x"] ok x by (simp add: f_def pool_ok_def)
  moreover have "queue_ok f" by (simp add: f_def queue_ok_def)
  moreover have "distinct (map fst (sl_pending f @ sl_pending s))" using ok by (simp add: f_def pool_ok_def queue_ok_def)
  ultimately show ?thesis using drain_ok [OF d(1)] d(2) by (simp add: pool_ok_def f_def)
qed

lemma pool_reached_ok: "pool_reached p \<Longrightarrow> pool_ok p"
proof (induction rule: pool_reached.induct)
  case empty
  show ?case by (simp add: pool_ok_def counters_ok_def queue_ok_def no_slots_def held_of_def)
next
  case (ended p x)
  obtain started h' s' where r: "pool_release x p = (started, h', s')" by (metis prod_cases3)
  from pool_release_ok [of "fst p" "snd p" x started h' s', unfolded prod.collapse, OF ended(3,2) r]
  have "pool_ok (h', s')" by blast
  then show ?case by (simp add: r)
next
  case (cleared p)
  then show ?case by (cases p rule: prod.exhaust) (simp add: pool_ok_def clear_pending_def queue_ok_def)
qed (rule pool_admit_ok)


subsection \<open>Every queued run starts\<close>

text \<open>
  The interface of a pool that its liveness rests on: ending a run frees its slot and starts waiting runs,
  and something runs as long as anything waits. \<open>ends n p log p'\<close>: \<open>n\<close> runs of \<open>p\<close> end, whichever, and start those
  in \<open>log\<close>.
\<close>

locale run_pool =
  fixes ok :: "'p \<Rightarrow> bool"
    and running :: "'p \<Rightarrow> 'r list"
    and waiting :: "'p \<Rightarrow> 'r list"
    and release :: "'r \<Rightarrow> 'p \<Rightarrow> 'r list \<times> 'p"
  assumes keeps_ok: "ok p \<Longrightarrow> x \<in> set (running p) \<Longrightarrow> release x p = (started, p') \<Longrightarrow> ok p'"
    and runs: "ok p \<Longrightarrow> x \<in> set (running p) \<Longrightarrow> release x p = (started, p') \<Longrightarrow>
      running p' = remove1 x (running p) @ started"
    and waits: "ok p \<Longrightarrow> x \<in> set (running p) \<Longrightarrow> release x p = (started, p') \<Longrightarrow>
      mset (waiting p') + mset started = mset (waiting p)"
    and busy: "ok p \<Longrightarrow> waiting p \<noteq> [] \<Longrightarrow> running p \<noteq> []"
begin

inductive ends :: "nat \<Rightarrow> 'p \<Rightarrow> 'r list \<Rightarrow> 'p \<Rightarrow> bool" where
  none: "ends 0 p [] p"
| one: "x \<in> set (running p) \<Longrightarrow> release x p = (started, p1) \<Longrightarrow> ends n p1 log p' \<Longrightarrow>
    ends (Suc n) p (started @ log) p'"

lemma ends_counts:
  "ends n p log p' \<Longrightarrow> ok p \<Longrightarrow>
    ok p' \<and> mset (waiting p') + mset log = mset (waiting p) \<and>
    n + length (running p') + length (waiting p') = length (running p) + length (waiting p)"
proof (induction rule: ends.induct)
  case (one x p started p1 n log p')
  note r = one(5,1,2)
  have ih: "ok p' \<and> mset (waiting p') + mset log = mset (waiting p1) \<and>
      n + length (running p') + length (waiting p') = length (running p1) + length (waiting p1)"
    using one(4) keeps_ok [OF r] .
  have "length (waiting p1) + length started = length (waiting p)"
    using waits [OF r] by (metis size_mset size_union)
  moreover have "Suc (length (running p1)) = length (running p) + length started"
    using runs [OF r] one(1) by (simp add: length_remove1) (metis Suc_pred add_Suc length_pos_if_in_set)
  ultimately show ?case using ih by (simp add: waits [OF r, symmetric] ac_simps)
qed simp

lemma all_started:
  assumes "ends n p log p'" "ok p" "running p' = []"
  shows "waiting p' = [] \<and> mset log = mset (waiting p) \<and> n = length (running p) + length (waiting p)"
proof -
  have e: "ok p'" "mset (waiting p') + mset log = mset (waiting p)"
      "n + length (running p') + length (waiting p') = length (running p) + length (waiting p)"
    using ends_counts [OF assms(1,2)] by simp_all
  have w: "waiting p' = []" using busy [OF e(1)] assms(3) by blast
  show ?thesis using e(2,3) unfolding w assms(3) by simp
qed

lemma some_end: "ok p \<Longrightarrow> \<exists>log p'. ends (length (running p) + length (waiting p)) p log p' \<and> running p' = []"
proof (induction "length (running p) + length (waiting p)" arbitrary: p)
  case 0
  then show ?case using ends.none [of p] by (metis add_is_0 length_0_conv)
next
  case (Suc n)
  obtain x where x: "x \<in> set (running p)"
    using Suc.hyps(2) busy [OF Suc.prems] by (metis Zero_not_Suc add.right_neutral last_in_set length_0_conv)
  obtain started p1 where r: "release x p = (started, p1)" by (metis prod.exhaust)
  have "n = length (running p1) + length (waiting p1)"
    using ends_counts [OF ends.one [OF x r ends.none] Suc.prems] Suc.hyps(2) by simp
  then obtain log p' where "ends n p1 log p'" "running p' = []"
    using Suc.hyps(1) [of p1] keeps_ok [OF Suc.prems x r] by blast
  then show ?case using ends.one [OF x r] Suc.hyps(2) by metis
qed

end

interpretation executor: run_pool pool_ok fst "\<lambda>p. sl_pending (snd p)" pool_release
proof
  fix p :: pool and x started p'
  assume r: "pool_ok p" "x \<in> set (fst p)" "pool_release x p = (started, p')"
  then show "pool_ok p'" "fst p' = remove1 x (fst p) @ started"
    "mset (sl_pending (snd p')) + mset started = mset (sl_pending (snd p))"
    using pool_release_ok [of "fst p" "snd p" x started "fst p'" "snd p'"] by simp_all
next
  fix p :: pool
  assume ok: "pool_ok p" and w: "sl_pending (snd p) \<noteq> []"
  obtain h s where p: "p = (h, s)" by (cases p)
  obtain i v q where q: "sl_pending s = (i, v) # q" using w p by (metis list.exhaust prod.exhaust snd_conv)
  have "\<not> can_admit i v s" using ok by (simp add: p pool_ok_def queue_ok_def q)
  then have "h = [] \<Longrightarrow> False"
    using ok by (auto simp: p pool_ok_def counters_ok_def held_of_def slot_defs split: weight.splits)
  then show "fst p \<noteq> []" by (auto simp: p)
qed

text \<open>
  Whatever is asked of the executor and whenever runs end, no job runs twice at once, at most one heavy
  and two light jobs run, and what waits does not fit: no slot is left free for a queued run.
\<close>

theorem executor_within_slots:
  assumes "pool_reached (h, s)"
  shows "distinct (map fst h) \<and> sl_active s = map fst h \<and> held_of Heavy h \<le> 1 \<and> held_of Light h \<le> 2 \<and>
    (\<forall>(i, w) \<in> set (sl_pending s). \<not> can_admit i w s)"
  using pool_reached_ok [OF assms]
  by (auto simp: pool_ok_def counters_ok_def queue_ok_def list_all_iff)

text \<open>
  C21 Every queued run starts. When nothing new is asked, runs can go on ending until none is left, in
  whichever order that happens it takes exactly as many ends as there are running and queued runs, and
  then each queued run was started once.
\<close>

theorem executor_drains:
  assumes "pool_reached p"
  shows "(\<exists>n log p'. executor.ends n p log p' \<and> fst p' = []) \<and>
    (\<forall>n log p'. executor.ends n p log p' \<and> fst p' = [] \<longrightarrow>
       n = length (fst p) + length (sl_pending (snd p)) \<and> mset log = mset (sl_pending (snd p)) \<and>
       sl_pending (snd p') = [])"
  using executor.some_end [OF pool_reached_ok [OF assms]] executor.all_started [OF _ pool_reached_ok [OF assms]] by blast

text \<open>A scan runs, another waits for it, and a sync asked for again while it runs waits for itself.\<close>

definition demo_pool :: pool where
  "demo_pool = pool_admit ''sync'' Light (pool_admit ''sync'' Light (pool_admit ''sonarr'' Heavy
     (pool_admit ''radarr'' Heavy ([], no_slots))))"

lemma demo_pool_reached: "pool_reached demo_pool"
  unfolding demo_pool_def by (intro pool_reached.intros)

theorem executor_within_slots_witness:
  "map fst (fst demo_pool) = [''radarr'', ''sync''] \<and> held_of Heavy (fst demo_pool) \<le> 1"
  using executor_within_slots [of "fst demo_pool" "snd demo_pool"] demo_pool_reached
  by (simp add: demo_pool_def pool_admit_def admit_run_def slot_defs no_slots_def)

theorem executor_drains_witness:
  "\<exists>n log p'. executor.ends n demo_pool log p' \<and> mset log = {#(''sonarr'', Heavy), (''sync'', Light)#}"
proof -
  obtain n log p' where e: "executor.ends n demo_pool log p'" "fst p' = []"
    using executor_drains [OF demo_pool_reached] by blast
  then have "mset log = mset (sl_pending (snd demo_pool))" using executor_drains [OF demo_pool_reached] by blast
  then have "mset log = {#(''sonarr'', Heavy), (''sync'', Light)#}"
    by (simp add: demo_pool_def pool_admit_def admit_run_def slot_defs no_slots_def)
  then show ?thesis using e by blast
qed

subsection \<open>What a failure leaves in the log\<close>

definition KEYWORDS :: "string list" where
  "KEYWORDS = [''token'', ''authorization'', ''cookie'', ''password'']"

definition stop_char :: "char \<Rightarrow> bool" where
  "stop_char c \<longleftrightarrow> is_ws c \<or> c = CHR '','' \<or> c = CHR '';''"

text \<open>What is left after a credential at the front of the text.\<close>

fun credential :: "string list \<Rightarrow> string \<Rightarrow> string option" where
  "credential [] rest = None"
| "credential (k # ks) rest =
     (if map ascii_lower (take (length k) rest) = k \<and> takeWhile (\<lambda>c. \<not> stop_char c) (drop (length k) rest) \<noteq> []
      then Some (dropWhile (\<lambda>c. \<not> stop_char c) (drop (length k) rest))
      else credential ks rest)"

lemma credential_shorter: "credential ks rest = Some rest' \<Longrightarrow> length rest' < length rest"
proof (induction ks)
  case (Cons k ks)
  show ?case
  proof (cases "map ascii_lower (take (length k) rest) = k \<and> takeWhile (\<lambda>c. \<not> stop_char c) (drop (length k) rest) \<noteq> []")
    case True
    then have "length (dropWhile (\<lambda>c. \<not> stop_char c) (drop (length k) rest)) < length (drop (length k) rest)"
      using takeWhile_dropWhile_id [of "\<lambda>c. \<not> stop_char c" "drop (length k) rest"]
      by (metis add_less_cancel_right add_0 length_append length_greater_0_conv)
    moreover have "rest' = dropWhile (\<lambda>c. \<not> stop_char c) (drop (length k) rest)"
      using Cons.prems True by simp
    ultimately show ?thesis by simp
  next
    case False
    then have "credential ks rest = Some rest'" using Cons.prems by (simp only: credential.simps if_False)
    then show ?thesis by (rule Cons.IH)
  qed
qed simp

function redact :: "string \<Rightarrow> string" where
  "redact [] = []"
| "redact (c # cs) =
     (case credential KEYWORDS (c # cs) of
        Some rest \<Rightarrow> ''[redacted]'' @ redact rest
      | None \<Rightarrow> c # redact cs)"
  by pat_completeness auto
termination by (relation "measure length") (auto dest: credential_shorter)

definition js_slice :: "string \<Rightarrow> nat \<Rightarrow> string" where
  "js_slice text n = take n text"

definition summarize_failure :: "string \<Rightarrow> string" where
  "summarize_failure message = js_slice (redact message) 512"

lemma keyword_letters: "k \<in> set KEYWORDS \<Longrightarrow> k \<noteq> [] \<and> (\<forall>c \<in> set k. is_alpha c)"
  by (auto simp: KEYWORDS_def is_alpha_def code_def)

lemma lower_alpha: "is_alpha (ascii_lower c) \<Longrightarrow> is_alpha c"
  by (auto simp: is_alpha_def ascii_lower_def split: if_splits)

lemma lower_keyword_alpha: "map ascii_lower p \<in> set KEYWORDS \<Longrightarrow> c \<in> set p \<Longrightarrow> is_alpha c"
  using keyword_letters lower_alpha by (metis image_eqI list.set_map)

lemma alpha_plain: "is_alpha c \<Longrightarrow> \<not> stop_char c \<and> c \<noteq> CHR ''[''"
  by (auto simp: is_alpha_def stop_char_def is_ws_def code_def)

lemma credential_found:
  "k \<in> set ks \<Longrightarrow> map ascii_lower p = k \<Longrightarrow> \<not> stop_char c \<Longrightarrow> credential ks (p @ c # v) \<noteq> None"
  by (induction ks) (auto split: if_splits)

lemma credential_keyword:
  "credential ks rest = Some r \<Longrightarrow> \<exists>k \<in> set ks. map ascii_lower (take (length k) rest) = k"
  by (induction ks) (auto split: if_splits)

text \<open>Letters at the front of the redacted text were copied from the message.\<close>

lemma redact_copied:
  "redact s = p @ q \<Longrightarrow> \<forall>c \<in> set p. is_alpha c \<Longrightarrow> \<exists>t. s = p @ t \<and> redact t = q"
proof (induction p arbitrary: s)
  case (Cons a p)
  then obtain c cs where s: "s = c # cs" by (cases s) auto
  have "a \<noteq> CHR ''[''" using Cons.prems(2) alpha_plain by simp
  then have "credential KEYWORDS (c # cs) = None \<and> a = c \<and> redact cs = p @ q"
    using Cons.prems(1) by (simp add: s split: option.splits)
  then show ?case using Cons.IH [of cs] Cons.prems(2) s by auto
qed simp

lemma redact_next:
  assumes "redact t = c # v" "\<not> stop_char c"
  shows "\<exists>d w. t = d # w \<and> \<not> stop_char d"
proof (cases t)
  case (Cons d w)
  show ?thesis
  proof (cases "credential KEYWORDS (d # w)")
    case None
    then show ?thesis using assms Cons by simp
  next
    case (Some r)
    then obtain k where k: "k \<in> set KEYWORDS" "map ascii_lower (take (length k) (d # w)) = k"
      using credential_keyword by blast
    then have "d \<in> set (take (length k) (d # w))" using keyword_letters [OF k(1)] by (cases "length k") simp_all
    then have "is_alpha d" using lower_keyword_alpha [of "take (length k) (d # w)" d] k by simp
    then show ?thesis using Cons alpha_plain by simp
  qed
qed (use assms in simp)

text \<open>No keyword starts inside the mark of a redaction.\<close>

lemma redacted_heads:
  "\<forall>n \<in> set [0..<9]. \<forall>k \<in> set KEYWORDS. map ascii_lower (take 2 (drop n ''[redacted]'')) \<noteq> take 2 k"
  by code_simp

lemma redacted_clean:
  assumes "drop n ''[redacted]'' @ q = p @ c # v" "n < 10"
  shows "map ascii_lower p \<notin> set KEYWORDS"
proof
  assume k: "map ascii_lower p \<in> set KEYWORDS"
  then have p: "2 \<le> length p" by (auto simp: KEYWORDS_def dest!: arg_cong [of _ _ length])
  show False
  proof (cases "n < 9")
    case True
    have "2 \<le> length (drop n ''[redacted]'')" using True by simp
    then have "take 2 (drop n ''[redacted]'') = take 2 p"
      using arg_cong [OF assms(1), of "take 2"] p by simp
    then have "map ascii_lower (take 2 (drop n ''[redacted]'')) = take 2 (map ascii_lower p)"
      by (simp add: take_map)
    then show False using redacted_heads k True by (metis atLeastLessThan_upt atLeast0LessThan lessThan_iff)
  next
    case False
    then have "n = 9" using assms(2) by simp
    then have "CHR '']'' \<in> set p" using assms(1) p by (cases p) auto
    from lower_keyword_alpha [OF k this] show False by (simp add: is_alpha_def code_def)
  qed
qed

lemma redact_clean:
  "redact s = u @ p @ c # v \<Longrightarrow> map ascii_lower p \<in> set KEYWORDS \<Longrightarrow> stop_char c"
proof (induction s arbitrary: u rule: redact.induct)
  case 1
  then show ?case by simp
next
  case (2 b cs)
  have letters: "\<forall>x \<in> set p. is_alpha x" "p \<noteq> []"
    using lower_keyword_alpha [OF 2(4)] keyword_letters [OF 2(4)] by auto
  show ?case
  proof (cases "credential KEYWORDS (b # cs)")
    case (Some rest)
    define r where "r = ''[redacted]''"
    have eq: "r @ redact rest = u @ p @ c # v" using 2(3) Some by (simp add: r_def)
    show ?thesis
    proof (cases "length r \<le> length u")
      case True
      then obtain u' where "u = r @ u'" using eq by (metis append_eq_append_conv_if append_take_drop_id)
      then show ?thesis using 2(2) [OF Some, of u'] 2(4) eq by simp
    next
      case False
      then have "drop (length u) r @ redact rest = p @ c # v"
        using arg_cong [OF eq, of "drop (length u)"] by simp
      then show ?thesis using redacted_clean [of "length u" "redact rest" p c v] 2(4) False by (simp add: r_def)
    qed
  next
    case None
    show ?thesis
    proof (cases u)
      case (Cons x u')
      then show ?thesis using 2(1) [OF None, of u'] 2(3,4) None by simp
    next
      case Nil
      then obtain t where t: "b # cs = p @ t" "redact t = c # v"
        using redact_copied [of "b # cs" p "c # v"] 2(3) letters(1) by auto
      show ?thesis
      proof (rule ccontr)
        assume "\<not> stop_char c"
        then obtain d w where d: "t = d # w" "\<not> stop_char d" using redact_next [OF t(2)] by blast
        have "credential KEYWORDS (p @ d # w) \<noteq> None" by (rule credential_found [OF 2(4) refl d(2)])
        then show False using None t(1) d(1) by simp
      qed
    qed
  qed
qed

text \<open>No keyword holds another, so a keyword that starts in front of one ends before or inside it.\<close>

lemma keywords_apart:
  "\<forall>k \<in> set KEYWORDS. \<forall>k' \<in> set KEYWORDS. \<forall>n \<in> set [0..<length k]. length k' + n < length k \<longrightarrow>
     take (length k') (drop n k) \<noteq> k'"
  by code_simp

lemma keyword_in_front:
  assumes p: "map ascii_lower p \<in> set KEYWORDS" and k: "k \<in> set KEYWORDS" "length (q @ p) < length k"
  shows "map ascii_lower (take (length k) (q @ p @ v)) \<noteq> k"
proof
  assume "map ascii_lower (take (length k) (q @ p @ v)) = k"
  then have "take (length p) (drop (length q) (map ascii_lower (take (length k) (q @ p @ v)))) = take (length p) (drop (length q) k)"
    by simp
  moreover have "take (length p) (drop (length q) (map ascii_lower (take (length k) (q @ p @ v)))) = map ascii_lower p"
    using k(2) by (simp add: take_map drop_map)
  ultimately have "take (length (map ascii_lower p)) (drop (length q) k) = map ascii_lower p" by simp
  moreover have "length q \<in> set [0..<length k]" "length (map ascii_lower p) + length q < length k" using k(2) by auto
  ultimately show False using keywords_apart k(1) p by blast
qed

definition plain_value :: "string \<Rightarrow> bool" where
  "plain_value v \<longleftrightarrow> v \<noteq> [] \<and> (\<forall>c \<in> set v. \<not> stop_char c)"

definition cut_off :: "string \<Rightarrow> bool" where
  "cut_off r \<longleftrightarrow> r = [] \<or> stop_char (hd r)"

lemma drop_value: "plain_value v \<Longrightarrow> cut_off r \<Longrightarrow> dropWhile (\<lambda>c. \<not> stop_char c) (v @ r) = r"
  by (cases r) (auto simp: plain_value_def cut_off_def)

text \<open>What is left after a match in front of a credential: the credential as it was, or what follows it.\<close>

lemma credential_match:
  assumes p: "map ascii_lower p \<in> set KEYWORDS" and r: "cut_off r" and k: "k \<in> set KEYWORDS"
  shows "(\<forall>v. plain_value v \<longrightarrow> \<not> (map ascii_lower (take (length k) (q @ p @ v @ r)) = k \<and>
        takeWhile (\<lambda>c. \<not> stop_char c) (drop (length k) (q @ p @ v @ r)) \<noteq> [])) \<or>
    (\<forall>v. plain_value v \<longrightarrow> map ascii_lower (take (length k) (q @ p @ v @ r)) = k \<and>
        takeWhile (\<lambda>c. \<not> stop_char c) (drop (length k) (q @ p @ v @ r)) \<noteq> []) \<and>
    ((\<forall>v. plain_value v \<longrightarrow> dropWhile (\<lambda>c. \<not> stop_char c) (drop (length k) (q @ p @ v @ r)) = r) \<or>
     (\<exists>q'. length q' < length q \<and>
        (\<forall>v. dropWhile (\<lambda>c. \<not> stop_char c) (drop (length k) (q @ p @ v @ r)) = q' @ p @ v @ r)))"
proof (cases "length (q @ p) < length k")
  case True
  then show ?thesis using keyword_in_front [OF p k True] by metis
next
  case False
  define a where "a = drop (length k) (q @ p)"
  have k0: "0 < length k" using keyword_letters [OF k] by simp
  have d: "drop (length k) (q @ p @ v @ r) = a @ v @ r" for v using False by (simp add: a_def)
  have t: "take (length k) (q @ p @ v @ r) = take (length k) (q @ p)" for v using False by simp
  have pl: "\<forall>c \<in> set p. \<not> stop_char c" using lower_keyword_alpha [OF p] alpha_plain by blast
  have left: "takeWhile (\<lambda>c. \<not> stop_char c) (a @ v @ r) \<noteq> [] \<longleftrightarrow> a = [] \<or> \<not> stop_char (hd a)" if "plain_value v" for v
    using that by (cases a; cases v) (auto simp: plain_value_def)
  have rest: "(\<forall>v. plain_value v \<longrightarrow> dropWhile (\<lambda>c. \<not> stop_char c) (a @ v @ r) = r) \<or>
     (\<exists>q'. length q' < length q \<and> (\<forall>v. dropWhile (\<lambda>c. \<not> stop_char c) (a @ v @ r) = q' @ p @ v @ r))"
  proof (cases "\<forall>c \<in> set a. \<not> stop_char c")
    case True
    then have "dropWhile (\<lambda>c. \<not> stop_char c) (a @ v @ r) = dropWhile (\<lambda>c. \<not> stop_char c) (v @ r)" for v
      by (simp add: dropWhile_append)
    then show ?thesis using drop_value r by simp
  next
    case stop: False
    then have "\<exists>c \<in> set (drop (length k) q). stop_char c"
      using pl by (auto simp: a_def dest: in_set_dropD)
    from split_list_first_prop [OF this]
    obtain x c y where q: "drop (length k) q = x @ c # y" "stop_char c" "\<forall>z \<in> set x. \<not> stop_char z" by blast
    have "length k \<le> length q" by (rule ccontr) (use q(1) in simp)
    then have "a = x @ c # y @ p" using q(1) by (simp add: a_def)
    then have "dropWhile (\<lambda>c. \<not> stop_char c) (a @ v @ r) = (c # y) @ p @ v @ r" for v
      using q(2,3) by (simp add: dropWhile_append)
    moreover have "length (drop (length k) q) < length q" using k0 \<open>length k \<le> length q\<close> by (simp del: length_greater_0_conv)
    then have "length (c # y) < length q" by (simp add: q(1))
    ultimately show ?thesis by blast
  qed
  show ?thesis
  proof (cases "map ascii_lower (take (length k) (q @ p)) = k \<and> (a = [] \<or> \<not> stop_char (hd a))")
    case True
    then have "map ascii_lower (take (length k) (q @ p)) = k \<and> takeWhile (\<lambda>c. \<not> stop_char c) (a @ v @ r) \<noteq> []"
      if "plain_value v" for v
      using left [OF that] by blast
    then show ?thesis unfolding d t using rest by blast
  next
    case False
    then have "\<not> (map ascii_lower (take (length k) (q @ p)) = k \<and> takeWhile (\<lambda>c. \<not> stop_char c) (a @ v @ r) \<noteq> [])"
      if "plain_value v" for v
      using left [OF that] by blast
    then show ?thesis unfolding d t by blast
  qed
qed

lemma credential_value:
  assumes "map ascii_lower p \<in> set KEYWORDS" "cut_off r" "set ks \<subseteq> set KEYWORDS"
  shows "(\<forall>v. plain_value v \<longrightarrow> credential ks (q @ p @ v @ r) = None) \<or>
    (\<forall>v. plain_value v \<longrightarrow> credential ks (q @ p @ v @ r) = Some r) \<or>
    (\<exists>q'. length q' < length q \<and> (\<forall>v. plain_value v \<longrightarrow> credential ks (q @ p @ v @ r) = Some (q' @ p @ v @ r)))"
  using assms(3)
proof (induction ks)
  case (Cons k ks)
  have k: "k \<in> set KEYWORDS" using Cons.prems by simp
  from credential_match [OF assms(1,2) k, of q] show ?case
  proof (elim disjE conjE)
    assume no: "\<forall>v. plain_value v \<longrightarrow> \<not> (map ascii_lower (take (length k) (q @ p @ v @ r)) = k \<and>
        takeWhile (\<lambda>c. \<not> stop_char c) (drop (length k) (q @ p @ v @ r)) \<noteq> [])"
    have "credential (k # ks) (q @ p @ v @ r) = credential ks (q @ p @ v @ r)" if "plain_value v" for v
      using no that by (simp only: credential.simps if_False)
    then show ?thesis using Cons by simp
  next
    assume yes: "\<forall>v. plain_value v \<longrightarrow> map ascii_lower (take (length k) (q @ p @ v @ r)) = k \<and>
        takeWhile (\<lambda>c. \<not> stop_char c) (drop (length k) (q @ p @ v @ r)) \<noteq> []"
      and r: "\<forall>v. plain_value v \<longrightarrow> dropWhile (\<lambda>c. \<not> stop_char c) (drop (length k) (q @ p @ v @ r)) = r"
    have "credential (k # ks) (q @ p @ v @ r) = Some r" if "plain_value v" for v
      using yes r that by (simp only: credential.simps if_True simp_thms)
    then show ?thesis by blast
  next
    assume yes: "\<forall>v. plain_value v \<longrightarrow> map ascii_lower (take (length k) (q @ p @ v @ r)) = k \<and>
        takeWhile (\<lambda>c. \<not> stop_char c) (drop (length k) (q @ p @ v @ r)) \<noteq> []"
      and "\<exists>q'. length q' < length q \<and>
        (\<forall>v. dropWhile (\<lambda>c. \<not> stop_char c) (drop (length k) (q @ p @ v @ r)) = q' @ p @ v @ r)"
    then obtain q' where q': "length q' < length q"
      "\<forall>v. dropWhile (\<lambda>c. \<not> stop_char c) (drop (length k) (q @ p @ v @ r)) = q' @ p @ v @ r" by blast
    have "credential (k # ks) (q @ p @ v @ r) = Some (q' @ p @ v @ r)" if "plain_value v" for v
      using yes q'(2) that by (simp only: credential.simps if_True simp_thms)
    then show ?thesis using q'(1) by blast
  qed
qed simp

text \<open>The value of a credential has no part in the redacted text.\<close>

lemma redact_value:
  assumes "map ascii_lower p \<in> set KEYWORDS" "cut_off r" "plain_value v" "plain_value w"
  shows "redact (q @ p @ v @ r) = redact (q @ p @ w @ r)"
proof (induction q rule: length_induct)
  case (1 q)
  obtain a b where p: "p = a # b" using keyword_letters [OF assms(1)] by (cases p) auto
  obtain c cs where front: "\<And>x. q @ p @ x = c # cs @ x"
    by (cases q) (auto simp: p)
  from credential_value [OF assms(1,2) subset_refl, of q] show ?case
  proof (elim disjE exE conjE)
    assume no: "\<forall>v. plain_value v \<longrightarrow> credential KEYWORDS (q @ p @ v @ r) = None"
    show ?thesis
    proof (cases q)
      case Nil
      obtain x y where "v = x # y" "\<not> stop_char x" using assms(3) by (cases v) (auto simp: plain_value_def)
      then have "credential KEYWORDS (p @ v @ r) \<noteq> None" using credential_found [OF assms(1) refl, of x "y @ r"] by simp
      then show ?thesis using no assms(3) Nil by simp
    next
      case (Cons d q')
      then have "redact (q' @ p @ v @ r) = redact (q' @ p @ w @ r)" using 1 by simp
      then show ?thesis using no assms(3,4) Cons by simp
    qed
  next
    assume "\<forall>v. plain_value v \<longrightarrow> credential KEYWORDS (q @ p @ v @ r) = Some r"
    then show ?thesis using assms(3,4) by (simp add: front)
  next
    fix q'
    assume q': "length q' < length q" "\<forall>v. plain_value v \<longrightarrow> credential KEYWORDS (q @ p @ v @ r) = Some (q' @ p @ v @ r)"
    then have "redact (q' @ p @ v @ r) = redact (q' @ p @ w @ r)" using 1 by simp
    then show ?thesis using q'(2) assms(3,4) by (simp add: front)
  qed
qed

lemma credential_none: "\<forall>k \<in> set ks. map ascii_lower (take (length k) s) \<noteq> k \<Longrightarrow> credential ks s = None"
  by (induction ks) auto

lemma redact_without:
  "\<forall>n. \<forall>k \<in> set KEYWORDS. map ascii_lower (take (length k) (drop n s)) \<noteq> k \<Longrightarrow> redact s = s"
proof (induction s)
  case (Cons c cs)
  have "credential KEYWORDS (c # cs) = None" using Cons.prems [rule_format, of _ 0] by (intro credential_none) simp
  moreover have "redact cs = cs" using Cons.prems [rule_format, of _ "Suc n" for n] by (intro Cons.IH) simp
  ultimately show ?case by simp
qed simp

text \<open>
  C33 What follows a credential's name does not reach the log. Whatever text stands before and after, the summary
  of a failure is the same for every value \<open>v\<close>, \<open>w\<close> that directly follows \<open>token\<close>, \<open>authorization\<close>, \<open>cookie\<close>
  or \<open>password\<close> in any case, up to the next white space, comma or semicolon; and in no summary is one of the
  words followed by anything but these. A value after white space, as in \<open>Authorization: Bearer x\<close>, is not
  covered. A message without the words is only cut to its first 512 characters.
\<close>

theorem no_credential_logged:
  assumes "map ascii_lower p \<in> {''token'', ''authorization'', ''cookie'', ''password''}"
    and "r = [] \<or> stop_char (hd r)"
    and "v \<noteq> []" "w \<noteq> []" "\<forall>c \<in> set (v @ w). \<not> stop_char c"
  shows "summarize_failure (q @ p @ v @ r) = summarize_failure (q @ p @ w @ r) \<and>
    (\<forall>u c x. summarize_failure m = u @ p @ c # x \<longrightarrow> stop_char c) \<and>
    length (summarize_failure m) \<le> 512 \<and>
    ((\<forall>n. \<forall>k \<in> {''token'', ''authorization'', ''cookie'', ''password''}. map ascii_lower (take (length k) (drop n m)) \<noteq> k) \<longrightarrow>
       summarize_failure m = take 512 m)"
proof -
  have p: "map ascii_lower p \<in> set KEYWORDS" using assms(1) by (simp add: KEYWORDS_def)
  have "redact (q @ p @ v @ r) = redact (q @ p @ w @ r)"
    by (rule redact_value [OF p]) (use assms(2-) in \<open>auto simp: cut_off_def plain_value_def\<close>)
  moreover have "stop_char c" if "summarize_failure m = u @ p @ c # x" for u c x
  proof -
    have "redact m = u @ p @ c # (x @ drop 512 (redact m))"
      using that append_take_drop_id [of 512 "redact m"] by (simp add: summarize_failure_def js_slice_def)
    then show ?thesis by (rule redact_clean) (rule p)
  qed
  moreover have "summarize_failure m = take 512 m"
    if "\<forall>n. \<forall>k \<in> {''token'', ''authorization'', ''cookie'', ''password''}. map ascii_lower (take (length k) (drop n m)) \<noteq> k"
    using redact_without [of m] that by (simp add: KEYWORDS_def summarize_failure_def js_slice_def)
  ultimately show ?thesis by (simp add: summarize_failure_def js_slice_def)
qed

theorem no_credential_logged_witness:
  "summarize_failure ''X-Plex-Token=abc; x'' = summarize_failure ''X-Plex-Token=hunter2; x'' \<and>
   summarize_failure ''X-Plex-Token=abc; x'' = ''X-Plex-[redacted]; x''"
proof
  have p: "map ascii_lower ''Token'' \<in> {''token'', ''authorization'', ''cookie'', ''password''}" by code_simp
  have v: "\<forall>c \<in> set (''=abc'' @ ''=hunter2''). \<not> stop_char c" by code_simp
  show "summarize_failure ''X-Plex-Token=abc; x'' = summarize_failure ''X-Plex-Token=hunter2; x''"
    using no_credential_logged [OF p, of "''; x''" "''=abc''" "''=hunter2''" "''X-Plex-''"] v by (simp add: stop_char_def)
  show "summarize_failure ''X-Plex-Token=abc; x'' = ''X-Plex-[redacted]; x''" by code_simp
qed

subsection \<open>The record of a run\<close>

text \<open>
  A row of \<open>job_execution_state\<close>, its dates as stored (\<open>naivetime::bind\<close> on SQLite), and one run: when it
  started and ended, what the work answered, whether it was aborted by then, and the errors of the three
  statements that may write its row.
\<close>

record job_state =
  jx_job_id :: string
  jx_started :: "string option"
  jx_succeeded :: "string option"
  jx_failed :: "string option"
  jx_cancelled :: "string option"
  jx_summary :: "string option"
  jx_failures :: int

record job_run =
  jr_started :: int
  jr_ended :: int
  jr_start_error :: "string option"
  jr_work :: "(string, unit) res"
  jr_aborted :: bool
  jr_end_error :: "string option"
  jr_aborted_late :: bool
  jr_failure_error :: "string option"

definition job_date :: "int \<Rightarrow> string" where
  "job_date now = typeorm_string (from_unix_millis (unwrap_or 0 (parse_date_millis (iso_string (from_unix_millis now)))))"

definition modify_state :: "string \<Rightarrow> (job_state \<Rightarrow> job_state) \<Rightarrow> job_state list \<Rightarrow> job_state list" where
  "modify_state i f rows = map (\<lambda>x. if jx_job_id x = i then f x else x) rows"

definition state_of :: "string \<Rightarrow> job_state list \<Rightarrow> job_state option" where
  "state_of i rows = find (\<lambda>x. jx_job_id x = i) rows"

definition record_start :: "int \<Rightarrow> string \<Rightarrow> job_state list \<Rightarrow> int \<times> job_state list" where
  "record_start now i rows =
     (case state_of i rows of
        Some x \<Rightarrow> (jx_failures x, modify_state i (\<lambda>x. x\<lparr>jx_started := Some (job_date now)\<rparr>) rows)
      | None \<Rightarrow> (0, rows @ [\<lparr>jx_job_id = i, jx_started = Some (job_date now), jx_succeeded = None, jx_failed = None,
                             jx_cancelled = None, jx_summary = None, jx_failures = 0\<rparr>]))"

definition record_cancelled :: "int \<Rightarrow> string \<Rightarrow> job_state list \<Rightarrow> job_state list" where
  "record_cancelled now i = modify_state i (\<lambda>x. x\<lparr>jx_cancelled := Some (job_date now)\<rparr>)"

definition record_success :: "int \<Rightarrow> string \<Rightarrow> job_state list \<Rightarrow> job_state list" where
  "record_success now i =
     modify_state i (\<lambda>x. x\<lparr>jx_succeeded := Some (job_date now), jx_failures := 0, jx_summary := None\<rparr>)"

definition record_failure :: "int \<Rightarrow> string \<Rightarrow> int \<Rightarrow> string \<Rightarrow> job_state list \<Rightarrow> job_state list" where
  "record_failure now i failures summary =
     modify_state i (\<lambda>x. x\<lparr>jx_failed := Some (job_date now), jx_summary := Some summary, jx_failures := failures + 1\<rparr>)"

text \<open>A statement that may fail.\<close>

definition execute_write :: "string option \<Rightarrow> ('a \<Rightarrow> 'a) \<Rightarrow> 'a \<Rightarrow> (string, 'a) res" where
  "execute_write err f rows = (case err of Some e \<Rightarrow> Inl e | None \<Rightarrow> Inr (f rows))"

definition failed_run ::
  "int \<Rightarrow> string \<Rightarrow> int option \<Rightarrow> bool \<Rightarrow> string \<Rightarrow> string option \<Rightarrow> job_state list
     \<Rightarrow> (string, bool) res \<times> job_state list" where
  "failed_run now i failures aborted err write_error rows =
     (case failures of
        None \<Rightarrow> (Inr False, rows)
      | Some n \<Rightarrow>
          (case execute_write write_error
                (if aborted then record_cancelled now i else record_failure now i n (summarize_failure err)) rows of
             Inl e \<Rightarrow> (Inl e, rows)
           | Inr rows \<Rightarrow> (Inr False, rows)))"

definition run_recorded :: "job_run \<Rightarrow> string \<Rightarrow> job_state list \<Rightarrow> (string, bool) res \<times> job_state list" where
  "run_recorded run i rows =
     (case jr_start_error run of
        Some e \<Rightarrow> failed_run (jr_ended run) i None (jr_aborted run) e None rows
      | None \<Rightarrow>
          (let (n, rows) = record_start (jr_started run) i rows
           in (case jr_work run of
                 Inl e \<Rightarrow> failed_run (jr_ended run) i (Some n) (jr_aborted run) e (jr_failure_error run) rows
               | Inr _ \<Rightarrow>
                   (if jr_aborted run then
                      (case execute_write (jr_end_error run) (record_cancelled (jr_ended run) i) rows of
                         Inl e \<Rightarrow> failed_run (jr_ended run) i (Some n) (jr_aborted_late run) e (jr_failure_error run) rows
                       | Inr rows \<Rightarrow> (Inr False, rows))
                    else
                      (case execute_write (jr_end_error run) (record_success (jr_ended run) i) rows of
                         Inl e \<Rightarrow> failed_run (jr_ended run) i (Some 0) (jr_aborted_late run) e (jr_failure_error run) rows
                       | Inr rows \<Rightarrow> (Inr True, rows))))))"

text \<open>The runs of jobs one after the other, and a run the database recorded.\<close>

definition recorded :: "job_run \<Rightarrow> bool" where
  "recorded run \<longleftrightarrow> jr_start_error run = None \<and> jr_end_error run = None \<and> jr_failure_error run = None"

definition record_runs :: "(string \<times> job_run) list \<Rightarrow> job_state list \<Rightarrow> job_state list" where
  "record_runs runs rows = fold (\<lambda>(i, run) rows. snd (run_recorded run i rows)) runs rows"

definition succeeded :: "job_run \<Rightarrow> bool" where
  "succeeded run \<longleftrightarrow> jr_work run = Inr () \<and> \<not> jr_aborted run"

definition broke :: "job_run \<Rightarrow> bool" where
  "broke run \<longleftrightarrow> isl (jr_work run) \<and> \<not> jr_aborted run"

definition failures_of :: "string \<Rightarrow> job_state list \<Rightarrow> int" where
  "failures_of i rows = (case state_of i rows of None \<Rightarrow> 0 | Some x \<Rightarrow> jx_failures x)"

lemma state_of_modify:
  "(\<And>x. jx_job_id (f x) = jx_job_id x) \<Longrightarrow> state_of j (modify_state i f rows) =
     (if j = i then map_option f (state_of i rows) else state_of j rows)"
  by (induction rows) (auto simp: modify_state_def state_of_def)

lemma failures_of_modify:
  "(\<And>x. jx_job_id (f x) = jx_job_id x) \<Longrightarrow> failures_of j (modify_state i f rows) =
     (if j = i then (case state_of i rows of None \<Rightarrow> 0 | Some x \<Rightarrow> jx_failures (f x)) else failures_of j rows)"
  by (simp add: failures_of_def state_of_modify split: option.split)

lemma record_start_facts:
  assumes "record_start now i rows = (n, rows')"
  shows "n = failures_of i rows \<and> (\<exists>x. state_of i rows' = Some x \<and> jx_failures x = n) \<and>
    (\<forall>j. failures_of j rows' = failures_of j rows)"
proof (cases "state_of i rows")
  case None
  then have rows': "n = 0" "rows' = rows @ [\<lparr>jx_job_id = i, jx_started = Some (job_date now), jx_succeeded = None,
      jx_failed = None, jx_cancelled = None, jx_summary = None, jx_failures = 0\<rparr>]"
    using assms by (simp_all add: record_start_def)
  have "find P (xs @ ys) = (case find P xs of None \<Rightarrow> find P ys | r \<Rightarrow> r)" for P and xs ys :: "job_state list"
    by (induction xs) auto
  then show ?thesis using None by (auto simp: rows' failures_of_def state_of_def split: option.split)
next
  case (Some x)
  then show ?thesis using assms
    by (auto simp: record_start_def failures_of_modify state_of_modify) (auto simp: failures_of_def)
qed

lemma run_counts:
  assumes "recorded run"
  shows "failures_of j (snd (run_recorded run i rows)) =
    (if j \<noteq> i then failures_of j rows else if succeeded run then 0
     else if broke run then failures_of j rows + 1 else failures_of j rows)"
proof -
  obtain n rows1 where s: "record_start (jr_started run) i rows = (n, rows1)" by (cases "record_start (jr_started run) i rows")
  note f = record_start_facts [OF s]
  obtain x where x: "state_of i rows1 = Some x" "jx_failures x = n" using f by blast
  show ?thesis
    using assms f x
    by (auto simp: run_recorded_def recorded_def s failed_run_def execute_write_def record_cancelled_def record_failure_def
        record_success_def failures_of_modify succeeded_def broke_def isl_def split: sum.split)
qed

text \<open>
  The count of consecutive failures is what it says: after any runs of any jobs that the database
  recorded, a job's row counts its failed runs since its last success; cancelled runs neither count nor
  reset it.
\<close>

theorem failures_counted:
  assumes "\<forall>(i, run) \<in> set runs. recorded run"
  shows "failures_of i (record_runs runs []) =
    int (length (filter broke (takeWhile (\<lambda>r. \<not> succeeded r) (rev (map snd (filter (\<lambda>x. fst x = i) runs))))))"
  using assms
proof (induction runs rule: rev_induct)
  case Nil
  show ?case by (simp add: record_runs_def failures_of_def state_of_def)
next
  case (snoc x runs)
  obtain j run where x: "x = (j, run)" by (cases x)
  have "record_runs (runs @ [x]) [] = snd (run_recorded run j (record_runs runs []))"
    by (simp add: record_runs_def x)
  then show ?case
    using snoc run_counts [of run i j "record_runs runs []"] by (auto simp: x succeeded_def broke_def)
qed

definition demo_run :: "(string, unit) res \<Rightarrow> bool \<Rightarrow> job_run" where
  "demo_run work aborted = \<lparr>jr_started = 0, jr_ended = 1000, jr_start_error = None, jr_work = work,
     jr_aborted = aborted, jr_end_error = None, jr_aborted_late = False, jr_failure_error = None\<rparr>"

theorem failures_counted_witness:
  "failures_of ''sync'' (record_runs [(''sync'', demo_run (Inl ''down'') False), (''sync'', demo_run (Inr ()) False),
     (''sync'', demo_run (Inl ''down'') False), (''scan'', demo_run (Inr ()) False),
     (''sync'', demo_run (Inl ''stopped'') True), (''sync'', demo_run (Inl ''down'') False)] []) = 2"
  using failures_counted [of "[(''sync'', demo_run (Inl ''down'') False), (''sync'', demo_run (Inr ()) False),
     (''sync'', demo_run (Inl ''down'') False), (''scan'', demo_run (Inr ()) False),
     (''sync'', demo_run (Inl ''stopped'') True), (''sync'', demo_run (Inl ''down'') False)]" "''sync''"]
  by (simp add: demo_run_def recorded_def succeeded_def broke_def)

end
