(* ===== verification/Scheduler.thy ===== *)
theory Scheduler
  imports Executor CronNext Media_Save "HOL-Library.AList"
begin

section \<open>The job scheduler\<close>

text \<open>
  \<open>src/backend-rs/src/jobs/scheduler.rs\<close>: the job table, what a schedule means (\<open>plan_of\<close>), the scheduled jobs with
  their timers, the runs of the managed executor and what the job settings routes do and answer. The state is
  \<open>Inner\<close> with the timer tasks that exist: \<open>abort\<close> only takes a timer's handle away, for a task already past its
  sleep still goes on; \<open>timer_fires\<close> is one pass of its loop. Reading the settings, the time zone and printing
  numbers are parameters, and so are the bodies of the jobs.
\<close>

subsection \<open>Jobs\<close>

datatype cancel_kind = NoCancel | StopsRunning | CancelFlag

record job_def =
  jd_id :: string
  jd_name :: string
  jd_log_name :: string
  jd_kind :: string
  jd_interval :: string
  jd_weight :: weight
  jd_cancel :: cancel_kind

definition job_entry :: "string \<Rightarrow> string \<Rightarrow> string \<Rightarrow> string \<Rightarrow> weight \<Rightarrow> cancel_kind \<Rightarrow> job_def" where
  "job_entry i name log_name interval weight cancel =
     \<lparr>jd_id = i, jd_name = name, jd_log_name = log_name, jd_kind = ''process'', jd_interval = interval,
      jd_weight = weight, jd_cancel = cancel\<rparr>"

definition PLEX_JOBS :: "job_def list" where
  "PLEX_JOBS =
     [job_entry ''plex-recently-added-scan'' ''Plex Recently Added Scan'' ''Plex Recently Added Scan'' ''minutes'' Heavy StopsRunning,
      job_entry ''plex-full-scan'' ''Plex Full Library Scan'' ''Plex Full Library Scan'' ''hours'' Heavy StopsRunning,
      job_entry ''plex-refresh-token'' ''Plex Refresh Token'' ''Plex Refresh Token'' ''fixed'' Light NoCancel,
      job_entry ''plex-watchlist-sync'' ''Plex Watchlist Sync'' ''Plex Watchlist Sync'' ''minutes'' Light NoCancel]"

definition JELLYFIN_JOBS :: "job_def list" where
  "JELLYFIN_JOBS =
     [job_entry ''jellyfin-recently-added-scan'' ''Jellyfin Recently Added Scan'' ''Jellyfin Recently Added Scan'' ''minutes''
        Heavy StopsRunning,
      job_entry ''jellyfin-full-scan'' ''Jellyfin Full Library Scan'' ''Jellyfin Full Scan'' ''hours'' Heavy StopsRunning]"

definition COMMON_JOBS :: "job_def list" where
  "COMMON_JOBS =
     [job_entry ''radarr-scan'' ''Radarr Scan'' ''Radarr Scan'' ''minutes'' Heavy StopsRunning,
      job_entry ''episode-request-sync'' ''Episode Request Sync'' ''Episode Request Sync'' ''minutes'' Light CancelFlag,
      job_entry ''release-calendar-sync'' ''Release Calendar Sync'' ''Release Calendar Sync'' ''hours'' Light CancelFlag,
      job_entry ''sonarr-scan'' ''Sonarr Scan'' ''Sonarr Scan'' ''minutes'' Heavy StopsRunning,
      job_entry ''availability-sync'' ''Media Availability Sync'' ''Media Availability Sync'' ''hours'' Heavy StopsRunning,
      (job_entry ''download-sync'' ''Download Sync'' ''Download Sync'' ''seconds'' Light NoCancel)\<lparr>jd_kind := ''command''\<rparr>,
      (job_entry ''download-sync-reset'' ''Download Sync Reset'' ''Download Sync Reset'' ''hours'' Light NoCancel)
        \<lparr>jd_kind := ''command''\<rparr>,
      job_entry ''image-cache-cleanup'' ''Image Cache Cleanup'' ''Image Cache Cleanup'' ''hours'' Light NoCancel,
      job_entry ''process-blocklisted-tags'' ''Process Blocklisted Tags'' ''Process Blocklisted Tags'' ''days'' Heavy StopsRunning,
      job_entry ''mapping-pack-refresh'' ''Mapping Dataset Refresh'' ''Mapping Dataset Refresh'' ''days'' Light NoCancel]"

definition job_definition :: "string \<Rightarrow> job_def option" where
  "job_definition i = find (\<lambda>d. jd_id d = i) (PLEX_JOBS @ JELLYFIN_JOBS @ COMMON_JOBS)"

subsection \<open>Plans\<close>

datatype plan = CronPlan cron_iter | Once

record clock_env =
  ck_num :: "string \<Rightarrow> rat option"
  ck_zone :: zone
  ck_show :: "json \<Rightarrow> string"

definition date_plan :: "string \<Rightarrow> int \<Rightarrow> (plan \<times> int) option" where
  "date_plan spec now = map_option (\<lambda>t. (Once, t)) (opt_filter (\<lambda>t. now \<le> t) (parse_date_millis spec))"

definition plan_of :: "clock_env \<Rightarrow> string \<Rightarrow> int \<Rightarrow> (plan \<times> int) option" where
  "plan_of ck spec now =
     (case parse_cron (ck_num ck) spec of
        Inl _ \<Rightarrow> date_plan spec now
      | Inr e \<Rightarrow>
          (case next_after (cron_iter_new e (ck_zone ck) now None) of
             (Inr first, it) \<Rightarrow> Some (CronPlan it, first)
           | (Inl _, _) \<Rightarrow> date_plan spec now))"

definition following_of :: "plan \<Rightarrow> int option \<times> plan" where
  "following_of p =
     (case p of
        Once \<Rightarrow> (None, Once)
      | CronPlan it \<Rightarrow>
          (case next_after it of
             (Inr t, it) \<Rightarrow> (Some t, CronPlan it)
           | (Inl _, it) \<Rightarrow> (None, CronPlan it)))"

subsection \<open>State\<close>

text \<open>
  What \<open>src/backend-rs/src/runtime/desktop.rs\<close> keeps for the jobs: whether the desktop runtime is on, is shutting
  down or plays a video, the heavy jobs put off meanwhile, whether a catch-up pass is queued and whether the
  downloads were polled since the start.
\<close>

record desktop =
  dk_on :: bool
  dk_stopping :: bool
  dk_playback :: bool
  dk_deferred :: "job_def list"
  dk_catch_up :: bool
  dk_download_run :: bool

record job_timer =
  tm_handle :: nat
  tm_def :: job_def
  tm_generation :: nat
  tm_plan :: plan
  tm_at :: int

record scheduled =
  sj_def :: job_def
  sj_schedule :: json
  sj_broken :: bool
  sj_next :: "int option"
  sj_generation :: nat
  sj_timer :: "nat option"

record live_run =
  lr_cancelled :: bool
  lr_aborted :: bool
  lr_status :: jmap

record sched =
  sc_jobs :: "scheduled list"
  sc_slots :: slots
  sc_runs :: "(string \<times> live_run) list"
  sc_stopped :: bool
  sc_timers :: "job_timer list"
  sc_next_handle :: nat
  sc_desktop :: desktop

definition idle_sched :: "desktop \<Rightarrow> sched" where
  "idle_sched dk = \<lparr>sc_jobs = [], sc_slots = no_slots, sc_runs = [], sc_stopped = False, sc_timers = [], sc_next_handle = 0,
     sc_desktop = dk\<rparr>"

definition run_of :: "sched \<Rightarrow> string \<Rightarrow> live_run option" where
  "run_of s i = map_of (sc_runs s) i"

definition set_run :: "string \<Rightarrow> live_run \<Rightarrow> sched \<Rightarrow> sched" where
  "set_run i r s = s\<lparr>sc_runs := AList.update i r (sc_runs s)\<rparr>"

definition job_running :: "sched \<Rightarrow> job_def \<Rightarrow> bool" where
  "job_running s d \<longleftrightarrow>
     jd_cancel d \<noteq> NoCancel \<and> is_running (jd_id d) (sc_slots s) \<and>
     \<not> ((case run_of s (jd_id d) of Some r \<Rightarrow> lr_cancelled r | None \<Rightarrow> False) \<and> jd_cancel d = StopsRunning)"

definition job_json :: "sched \<Rightarrow> scheduled \<Rightarrow> jmap" where
  "job_json s j =
     put_entries
       [(''id'', JStr (jd_id (sj_def j))), (''name'', JStr (jd_name (sj_def j))), (''type'', JStr (jd_kind (sj_def j))),
        (''interval'', JStr (jd_interval (sj_def j))), (''cronSchedule'', sj_schedule j),
        (''nextExecutionTime'', (case sj_next j of
            None \<Rightarrow> JNull
          | Some ms \<Rightarrow> JStr (iso_string (from_unix_millis (ms - ms mod 1000))))),
        (''running'', JBool (job_running s (sj_def j)))] []"

definition job_of :: "sched \<Rightarrow> string \<Rightarrow> scheduled option" where
  "job_of s i = find (\<lambda>j. jd_id (sj_def j) = i) (sc_jobs s)"

text \<open>Change the first job of that id, as \<open>iter_mut().find\<close> does.\<close>

definition modify_job :: "string \<Rightarrow> (scheduled \<Rightarrow> scheduled) \<Rightarrow> sched \<Rightarrow> sched" where
  "modify_job i f s = s\<lparr>sc_jobs := set_first (\<lambda>j. jd_id (sj_def j) = i) f (sc_jobs s)\<rparr>"

subsection \<open>Stopping and starting\<close>

definition cancel_run :: "string \<Rightarrow> sched \<Rightarrow> sched" where
  "cancel_run i s =
     (case run_of s i of None \<Rightarrow> s | Some r \<Rightarrow> set_run i (r\<lparr>lr_aborted := True, lr_cancelled := True\<rparr>) s)"

definition stop_jobs :: "sched \<Rightarrow> sched" where
  "stop_jobs s =
     (let s = s\<lparr>sc_stopped := True, sc_jobs := [], sc_slots := clear_pending (sc_slots s)\<rparr>
      in fold cancel_run (sl_active (sc_slots s)) s)"

definition drop_schedule :: "sched \<Rightarrow> (string \<times> nat) list \<times> sched" where
  "drop_schedule s = (map (\<lambda>j. (jd_id (sj_def j), sj_generation j + 1)) (sc_jobs s), s\<lparr>sc_jobs := []\<rparr>)"

definition sched_admit :: "string \<Rightarrow> weight \<Rightarrow> sched \<Rightarrow> bool option \<times> sched" where
  "sched_admit i w s =
     (if sc_stopped s then (None, s)
      else let (ok, slots) = admit_run i w (sc_slots s) in (Some ok, s\<lparr>sc_slots := slots\<rparr>))"

definition spec_of :: "clock_env \<Rightarrow> json \<Rightarrow> string" where
  "spec_of ck value = js_string (ck_show ck) (Some value)"

definition spawn_timer :: "job_def \<Rightarrow> nat \<Rightarrow> plan \<Rightarrow> int \<Rightarrow> sched \<Rightarrow> nat \<times> sched" where
  "spawn_timer d generation p first s =
     (let h = sc_next_handle s
      in (h, s\<lparr>sc_timers := sc_timers s @ [\<lparr>tm_handle = h, tm_def = d, tm_generation = generation, tm_plan = p, tm_at = first\<rparr>],
               sc_next_handle := h + 1\<rparr>))"

definition server_jobs :: "json \<Rightarrow> job_def list" where
  "server_jobs settings =
     (case Option.bind (jpath [''main'', ''mediaServerType''] settings) as_i64 of
        Some n \<Rightarrow> if n = 1 then PLEX_JOBS else if n = 2 \<or> n = 3 then JELLYFIN_JOBS else []
      | None \<Rightarrow> [])"

definition schedule_job :: "clock_env \<Rightarrow> json \<Rightarrow> int \<Rightarrow> (string \<times> nat) list \<Rightarrow> job_def \<Rightarrow> sched \<Rightarrow> sched" where
  "schedule_job ck settings now previous d s =
     (let generation = (case map_of (rev previous) (jd_id d) of Some g \<Rightarrow> g | None \<Rightarrow> 0);
          schedule = unwrap_or JNull (jpath [''jobs'', jd_id d, ''schedule''] settings);
          (broken, next, timer, s) =
            (case plan_of ck (spec_of ck schedule) now of
               Some (p, first) \<Rightarrow>
                 (let (h, s) = spawn_timer d generation p first s in (False, Some first, Some h, s))
             | None \<Rightarrow> (True, None, None, s))
      in s\<lparr>sc_jobs := sc_jobs s @ [\<lparr>sj_def = d, sj_schedule = schedule, sj_broken = broken, sj_next = next,
             sj_generation = generation, sj_timer = timer\<rparr>]\<rparr>)"

definition start_jobs :: "clock_env \<Rightarrow> json \<Rightarrow> int \<Rightarrow> sched \<Rightarrow> sched" where
  "start_jobs ck settings now s =
     (if sc_stopped s then s
      else let (previous, s) = drop_schedule s
           in fold (schedule_job ck settings now previous) (server_jobs settings @ COMMON_JOBS) s)"

definition scheduled_jobs :: "clock_env \<Rightarrow> sched \<Rightarrow> (job_def \<times> string) list" where
  "scheduled_jobs ck s = map (\<lambda>j. (sj_def j, spec_of ck (sj_schedule j))) (sc_jobs s)"

subsection \<open>Timers\<close>

definition set_next :: "string \<Rightarrow> nat \<Rightarrow> int option \<Rightarrow> sched \<Rightarrow> bool \<times> sched" where
  "set_next i generation next s =
     (case job_of s i of
        None \<Rightarrow> (False, s)
      | Some j \<Rightarrow>
          if sj_generation j \<noteq> generation then (False, s)
          else (True, modify_job i (\<lambda>j. j\<lparr>sj_next := next\<rparr>) s))"

text \<open>A heavy job that fires during playback is kept for the catch-up, once.\<close>

definition defer_job :: "job_def \<Rightarrow> desktop \<Rightarrow> bool \<times> desktop" where
  "defer_job d dk =
     (if \<not> dk_on dk \<or> jd_weight d \<noteq> Heavy \<or> \<not> dk_playback dk then (False, dk)
      else (True, if list_ex (\<lambda>x. jd_id x = jd_id d) (dk_deferred dk) then dk
                  else dk\<lparr>dk_deferred := dk_deferred dk @ [d]\<rparr>))"

text \<open>The managed run the cron callback starts, unless the jobs are stopped or it is put off.\<close>

definition invoke :: "job_def \<Rightarrow> sched \<Rightarrow> (string \<times> weight) option \<times> sched" where
  "invoke d s =
     (if sc_stopped s then (None, s)
      else let (deferred, dk) = defer_job d (sc_desktop s)
           in (if deferred then None else Some (jd_id d, jd_weight d), s\<lparr>sc_desktop := dk\<rparr>))"

text \<open>
  A timer wakes at its moment: the next occurrence is recorded first, then the job is invoked; it goes on
  unless it is stale or has no next occurrence.
\<close>

definition timer_fires :: "job_timer \<Rightarrow> sched \<Rightarrow> (string \<times> weight) option \<times> sched" where
  "timer_fires t s =
     (let (following, p) = following_of (tm_plan t);
          others = filter (\<lambda>x. tm_handle x \<noteq> tm_handle t) (sc_timers s);
          (live, s) = set_next (jd_id (tm_def t)) (tm_generation t) following s
      in if \<not> live then (None, s\<lparr>sc_timers := others\<rparr>)
         else invoke (tm_def t)
           (s\<lparr>sc_timers := (case following of
              None \<Rightarrow> others
            | Some next \<Rightarrow> others @ [t\<lparr>tm_plan := p, tm_at := next\<rparr>])\<rparr>))"

text \<open>The tasks \<open>abort\<close> has ended for good.\<close>

definition timers_end :: "(job_timer \<Rightarrow> bool) \<Rightarrow> sched \<Rightarrow> sched" where
  "timers_end gone s = s\<lparr>sc_timers := filter (\<lambda>t. \<not> gone t) (sc_timers s)\<rparr>"

subsection \<open>Runs\<close>

text \<open>
  \<open>execute_managed\<close> answers at once when the run is refused or queued; an admitted one registers itself
  (\<open>register_run\<close>), is recorded by \<open>run_recorded\<close> and at its end frees the slot (\<open>finish_run\<close>).
\<close>

definition execute_managed :: "string \<Rightarrow> weight \<Rightarrow> sched \<Rightarrow> bool \<times> sched" where
  "execute_managed i w s = (let (admitted, s) = sched_admit i w s in (admitted = Some True, s))"

definition register_run :: "string \<Rightarrow> sched \<Rightarrow> sched" where
  "register_run i s = set_run i \<lparr>lr_cancelled = sc_stopped s, lr_aborted = sc_stopped s, lr_status = []\<rparr> s"

definition finish_run :: "string \<Rightarrow> weight \<Rightarrow> sched \<Rightarrow> (string \<times> weight) list \<times> sched" where
  "finish_run i w s = (let (started, slots) = release_run i w (sc_slots s) in (started, s\<lparr>sc_slots := slots\<rparr>))"

definition idle_now :: "sched \<Rightarrow> bool" where
  "idle_now s \<longleftrightarrow> sl_active (sc_slots s) = []"

definition cancel_managed :: "string \<Rightarrow> sched \<Rightarrow> sched" where
  "cancel_managed i s = (if is_running i (sc_slots s) then cancel_run i s else s)"

definition run_status :: "string \<Rightarrow> sched \<Rightarrow> jmap option" where
  "run_status i s = map_option lr_status (run_of s i)"

subsection \<open>Job routes\<close>

datatype job_answer = JobNotFound | InvalidSchedule | JobThrows string | JobShown jmap

definition NULL_NEXT :: string where
  "NULL_NEXT = ''nextInvocation is missing''"

definition job_list :: "sched \<Rightarrow> (string, json list) res" where
  "job_list s = collect_res (map (\<lambda>j. if sj_broken j then Inl NULL_NEXT else Inr (JObj (job_json s j))) (sc_jobs s))"

definition run_now :: "string \<Rightarrow> sched \<Rightarrow> job_answer \<times> (string \<times> weight) option \<times> sched" where
  "run_now i s =
     (case job_of s i of
        None \<Rightarrow> (JobNotFound, None, s)
      | Some j \<Rightarrow>
          if sj_broken j then (JobThrows ''invoke is missing'', None, s)
          else (JobShown (job_json s j), invoke (sj_def j) s))"

definition cancel_job :: "string \<Rightarrow> sched \<Rightarrow> job_answer \<times> sched" where
  "cancel_job i s =
     (case job_of s i of
        None \<Rightarrow> (JobNotFound, s)
      | Some j \<Rightarrow>
          let s = (if jd_cancel (sj_def j) \<noteq> NoCancel \<and> is_running i (sc_slots s) then
                     (case run_of s i of None \<Rightarrow> s | Some r \<Rightarrow> set_run i (r\<lparr>lr_cancelled := True\<rparr>) s)
                   else s)
          in if sj_broken j then (JobThrows NULL_NEXT, s) else (JobShown (job_json s j), s))"

definition reschedule :: "clock_env \<Rightarrow> int \<Rightarrow> string \<Rightarrow> string option \<Rightarrow> sched \<Rightarrow> job_answer \<times> sched" where
  "reschedule ck now i spec s =
     (case job_of s i of
        None \<Rightarrow> (JobNotFound, s)
      | Some j \<Rightarrow>
          if sj_broken j then (InvalidSchedule, s)
          else
            let s = modify_job i (\<lambda>j. j\<lparr>sj_generation := sj_generation j + 1, sj_timer := None\<rparr>) s
            in (case Option.bind spec (\<lambda>spec. plan_of ck spec now) of
                 None \<Rightarrow> (InvalidSchedule, s)
               | Some (p, first) \<Rightarrow>
                   let (h, s) = spawn_timer (sj_def j) (sj_generation j + 1) p first s;
                       s = modify_job i (\<lambda>j. j\<lparr>sj_next := Some first, sj_schedule := JStr (unwrap_or [] spec),
                                               sj_timer := Some h\<rparr>) s
                   in (case job_of s i of
                         None \<Rightarrow> (JobNotFound, s)
                       | Some j \<Rightarrow> (JobShown (job_json s j), s))))"

subsection \<open>The desktop runtime\<close>

text \<open>
  Launch catch-up (\<open>src/backend-rs/src/jobs/catchup.rs\<close>): a job runs again at launch when its schedule was missed
  since its last success, unless it failed within the back-off of its weight.
\<close>

definition has_missed_in :: "clock_env \<Rightarrow> string \<Rightarrow> int option \<Rightarrow> int \<Rightarrow> bool" where
  "has_missed_in ck schedule last_succeeded now =
     (case last_succeeded of
        None \<Rightarrow> False
      | Some t \<Rightarrow>
          if now \<le> t then False
          else (case parse_cron (ck_num ck) schedule of
                  Inl _ \<Rightarrow> False
                | Inr e \<Rightarrow> \<not> isl (fst (next_after (cron_iter_new e (ck_zone ck) t (Some now))))))"

definition backoff :: "weight \<Rightarrow> int" where
  "backoff w = (case w of Heavy \<Rightarrow> 6 * 60 * 60000 | Light \<Rightarrow> 30 * 60000)"

definition can_run_launch_catch_up :: "clock_env \<Rightarrow> string \<Rightarrow> weight \<Rightarrow> int option \<times> int option \<Rightarrow> int \<Rightarrow> bool" where
  "can_run_launch_catch_up ck schedule w state now =
     (if \<not> has_missed_in ck schedule (fst state) now then False
      else (case snd state of None \<Rightarrow> True | Some t \<Rightarrow> backoff w \<le> now - t))"

text \<open>\<open>execution_state\<close> reads the dates \<open>job_date\<close> wrote with SQLite's \<open>strftime\<close>, which prints such texts as ISO 8601.\<close>

definition execution_state :: "job_state list \<Rightarrow> string \<Rightarrow> int option \<times> int option" where
  "execution_state rows i =
     (case state_of i rows of
        None \<Rightarrow> (None, None)
      | Some x \<Rightarrow> (Option.bind (Option.bind (jx_succeeded x) sqlite_datetime_to_iso) parse_date_millis,
                   Option.bind (Option.bind (jx_failed x) sqlite_datetime_to_iso) parse_date_millis))"

definition start_catch_up :: "desktop \<Rightarrow> desktop" where
  "start_catch_up dk = (if \<not> dk_on dk \<or> dk_stopping dk then dk else dk\<lparr>dk_catch_up := True\<rparr>)"

definition set_playback :: "bool \<Rightarrow> desktop \<Rightarrow> desktop" where
  "set_playback playing dk =
     (let dk = dk\<lparr>dk_playback := playing\<rparr> in if playing then dk else start_catch_up dk)"

definition desktop_stop_jobs :: "sched \<Rightarrow> sched" where
  "desktop_stop_jobs s =
     stop_jobs (s\<lparr>sc_desktop := (sc_desktop s)\<lparr>dk_catch_up := False, dk_download_run := False, dk_deferred := []\<rparr>\<rparr>)"

text \<open>The jobs a catch-up pass takes from those put off, and those it runs of the schedule.\<close>

definition take_deferred :: "desktop \<Rightarrow> job_def list \<times> desktop" where
  "take_deferred dk = (if dk_playback dk then ([], dk) else (dk_deferred dk, dk\<lparr>dk_deferred := []\<rparr>))"

definition startup_polls :: "desktop \<Rightarrow> (string \<times> weight) list \<times> desktop" where
  "startup_polls dk =
     (if dk_download_run dk then ([], dk)
      else ([(''download-sync-reset'', Light), (''download-sync'', Light)], dk\<lparr>dk_download_run := True\<rparr>))"

definition due_at_launch :: "clock_env \<Rightarrow> job_state list \<Rightarrow> int \<Rightarrow> job_def \<times> string \<Rightarrow> bool" where
  "due_at_launch ck rows now entry =
     (let (d, schedule) = entry
      in jd_id d \<notin> {''download-sync-reset'', ''download-sync'', ''image-cache-cleanup''} \<and>
         can_run_launch_catch_up ck schedule (jd_weight d) (execution_state rows (jd_id d)) now)"

definition run_scheduled :: "job_def \<Rightarrow> sched \<Rightarrow> bool \<times> sched" where
  "run_scheduled d s =
     (let (deferred, dk) = defer_job d (sc_desktop s);
          s = s\<lparr>sc_desktop := dk\<rparr>
      in if deferred then (False, s) else execute_managed (jd_id d) (jd_weight d) s)"

end
