(* ===== verification/Scheduler_Props.thy ===== *)
theory Scheduler_Props
  imports Scheduler CronLeast
begin

section \<open>What the scheduler keeps\<close>

text \<open>
  The scheduler with its timers and runs as one step relation, any step at any time, and what it keeps: the
  executor behind it is the pool of \<open>Executor\<close>, only the timer a job shows fires it, and a stopped scheduler starts nothing.
\<close>

definition jobs_ids :: "sched \<Rightarrow> string list" where
  "jobs_ids s = map (\<lambda>j. jd_id (sj_def j)) (sc_jobs s)"

subsection \<open>The steps\<close>

text \<open>
  \<open>worked prompt ck (h, s) (h', s')\<close>: the scheduler goes from \<open>s\<close> to \<open>s'\<close> while the runs that hold a slot go from
  \<open>h\<close> to \<open>h'\<close>. A timer task ends only once it was aborted. Where \<open>prompt\<close> holds, a job that is scheduled again
  after it was not has no aborted timer left by then; the others are courses without that bound.
\<close>

definition no_leftover :: "json \<Rightarrow> sched \<Rightarrow> bool" where
  "no_leftover settings s \<longleftrightarrow>
     (\<forall>t \<in> set (sc_timers s). jd_id (tm_def t) \<in> set (map jd_id (server_jobs settings @ COMMON_JOBS)) \<longrightarrow>
        jd_id (tm_def t) \<in> set (jobs_ids s))"

inductive worked ::
  "bool \<Rightarrow> clock_env \<Rightarrow> (string \<times> weight) list \<times> sched \<Rightarrow> (string \<times> weight) list \<times> sched \<Rightarrow> bool"
  for prompt :: bool and ck :: clock_env where
  rest: "worked prompt ck p p"
| started: "worked prompt ck p (h, s) \<Longrightarrow> prompt \<longrightarrow> no_leftover settings s \<Longrightarrow>
    worked prompt ck p (h, start_jobs ck settings now s)"
| fired: "worked prompt ck p (h, s) \<Longrightarrow> t \<in> set (sc_timers s) \<Longrightarrow> worked prompt ck p (h, snd (timer_fires t s))"
| ended: "worked prompt ck p (h, s) \<Longrightarrow>
    \<forall>t j. gone t \<and> j \<in> set (sc_jobs s) \<longrightarrow> sj_timer j \<noteq> Some (tm_handle t) \<Longrightarrow> worked prompt ck p (h, timers_end gone s)"
| asked: "worked prompt ck p (h, s) \<Longrightarrow> execute_managed i w s = (admitted, s') \<Longrightarrow>
    worked prompt ck p (if admitted then h @ [(i, w)] else h, s')"
| registered: "worked prompt ck p (h, s) \<Longrightarrow> i \<in> fst ` set h \<Longrightarrow> worked prompt ck p (h, register_run i s)"
| finished: "worked prompt ck p (h, s) \<Longrightarrow> x \<in> set h \<Longrightarrow> finish_run (fst x) (snd x) s = (begun, s') \<Longrightarrow>
    worked prompt ck p (remove1 x h @ begun, s')"
| cancelled: "worked prompt ck p (h, s) \<Longrightarrow> worked prompt ck p (h, cancel_managed i s)"
| route_cancel: "worked prompt ck p (h, s) \<Longrightarrow> worked prompt ck p (h, snd (cancel_job i s))"
| route_run: "worked prompt ck p (h, s) \<Longrightarrow> worked prompt ck p (h, snd (snd (run_now i s)))"
| route_schedule: "worked prompt ck p (h, s) \<Longrightarrow> worked prompt ck p (h, snd (reschedule ck now i spec s))"
| stopped: "worked prompt ck p (h, s) \<Longrightarrow> worked prompt ck p (h, desktop_stop_jobs s)"
| desk: "worked prompt ck p (h, s) \<Longrightarrow> worked prompt ck p (h, s\<lparr>sc_desktop := dk\<rparr>)"

subsection \<open>What each step leaves alone\<close>

named_theorems sched_frame "fields a step of the scheduler leaves alone"

lemma set_run_frame [sched_frame]:
  "sc_jobs (set_run i r s) = sc_jobs s" "sc_slots (set_run i r s) = sc_slots s"
  "sc_timers (set_run i r s) = sc_timers s" "sc_stopped (set_run i r s) = sc_stopped s"
  "sc_next_handle (set_run i r s) = sc_next_handle s"
  by (simp_all add: set_run_def)

lemma cancel_run_frame [sched_frame]:
  "sc_jobs (cancel_run i s) = sc_jobs s" "sc_slots (cancel_run i s) = sc_slots s"
  "sc_timers (cancel_run i s) = sc_timers s" "sc_stopped (cancel_run i s) = sc_stopped s"
  "sc_next_handle (cancel_run i s) = sc_next_handle s"
  by (simp_all add: cancel_run_def sched_frame split: option.split)

lemma fold_cancel_frame [sched_frame]:
  "sc_jobs (fold cancel_run is s) = sc_jobs s" "sc_slots (fold cancel_run is s) = sc_slots s"
  "sc_timers (fold cancel_run is s) = sc_timers s" "sc_stopped (fold cancel_run is s) = sc_stopped s"
  "sc_next_handle (fold cancel_run is s) = sc_next_handle s"
  by (induction "is" arbitrary: s) (simp_all add: sched_frame)

lemma invoke_frame [sched_frame]:
  "sc_jobs (snd (invoke d s)) = sc_jobs s" "sc_slots (snd (invoke d s)) = sc_slots s"
  "sc_timers (snd (invoke d s)) = sc_timers s" "sc_stopped (snd (invoke d s)) = sc_stopped s"
  "sc_next_handle (snd (invoke d s)) = sc_next_handle s" "sc_runs (snd (invoke d s)) = sc_runs s"
  by (simp_all add: invoke_def split: prod.split)

lemma modify_job_frame [sched_frame]:
  "sc_slots (modify_job i f s) = sc_slots s" "sc_timers (modify_job i f s) = sc_timers s"
  "sc_stopped (modify_job i f s) = sc_stopped s" "sc_next_handle (modify_job i f s) = sc_next_handle s"
  "sc_runs (modify_job i f s) = sc_runs s"
  by (simp_all add: modify_job_def)

lemma spawn_timer_frame [sched_frame]:
  "sc_slots (snd (spawn_timer d g p t s)) = sc_slots s" "sc_jobs (snd (spawn_timer d g p t s)) = sc_jobs s"
  "sc_stopped (snd (spawn_timer d g p t s)) = sc_stopped s" "sc_runs (snd (spawn_timer d g p t s)) = sc_runs s"
  by (simp_all add: spawn_timer_def Let_def)

lemma set_next_frame [sched_frame]:
  "sc_slots (snd (set_next i g n s)) = sc_slots s" "sc_timers (snd (set_next i g n s)) = sc_timers s"
  "sc_stopped (snd (set_next i g n s)) = sc_stopped s" "sc_runs (snd (set_next i g n s)) = sc_runs s"
  "sc_next_handle (snd (set_next i g n s)) = sc_next_handle s"
  by (simp_all add: set_next_def sched_frame split: option.split)

lemma timer_fires_frame [sched_frame]:
  "sc_slots (snd (timer_fires t s)) = sc_slots s" "sc_stopped (snd (timer_fires t s)) = sc_stopped s"
  "sc_runs (snd (timer_fires t s)) = sc_runs s"
proof -
  obtain n p where f: "following_of (tm_plan t) = (n, p)" by (rule prod.exhaust)
  obtain live s1 where e: "set_next (jd_id (tm_def t)) (tm_generation t) n s = (live, s1)" by (rule prod.exhaust)
  note k = set_next_frame [of "jd_id (tm_def t)" "tm_generation t" n s, unfolded e snd_conv]
  show "sc_slots (snd (timer_fires t s)) = sc_slots s" "sc_stopped (snd (timer_fires t s)) = sc_stopped s"
    "sc_runs (snd (timer_fires t s)) = sc_runs s"
    by (simp_all add: timer_fires_def Let_def f e k sched_frame)
qed

lemma schedule_job_frame [sched_frame]:
  "sc_slots (schedule_job ck v now prev d s) = sc_slots s" "sc_stopped (schedule_job ck v now prev d s) = sc_stopped s"
  "sc_runs (schedule_job ck v now prev d s) = sc_runs s"
  using spawn_timer_frame
  by (auto simp: schedule_job_def Let_def spawn_timer_def split: option.splits prod.splits)

lemma fold_schedule_frame [sched_frame]:
  "sc_slots (fold (schedule_job ck v now prev) ds s) = sc_slots s"
  "sc_stopped (fold (schedule_job ck v now prev) ds s) = sc_stopped s"
  "sc_runs (fold (schedule_job ck v now prev) ds s) = sc_runs s"
  by (induction ds arbitrary: s) (simp_all add: sched_frame)

lemma start_jobs_frame [sched_frame]:
  "sc_slots (start_jobs ck v now s) = sc_slots s" "sc_stopped (start_jobs ck v now s) = sc_stopped s"
  "sc_runs (start_jobs ck v now s) = sc_runs s"
  by (simp_all add: start_jobs_def drop_schedule_def sched_frame)

lemma route_frame [sched_frame]:
  "sc_slots (snd (cancel_job i s)) = sc_slots s" "sc_jobs (snd (cancel_job i s)) = sc_jobs s"
  "sc_timers (snd (cancel_job i s)) = sc_timers s" "sc_stopped (snd (cancel_job i s)) = sc_stopped s"
  "sc_next_handle (snd (cancel_job i s)) = sc_next_handle s"
  "sc_slots (cancel_managed i s) = sc_slots s" "sc_jobs (cancel_managed i s) = sc_jobs s"
  "sc_timers (cancel_managed i s) = sc_timers s" "sc_stopped (cancel_managed i s) = sc_stopped s"
  "sc_next_handle (cancel_managed i s) = sc_next_handle s"
  by (simp_all add: cancel_job_def cancel_managed_def Let_def sched_frame split: option.split)

lemma run_now_frame [sched_frame]:
  "sc_jobs (snd (snd (run_now i s))) = sc_jobs s" "sc_slots (snd (snd (run_now i s))) = sc_slots s"
  "sc_timers (snd (snd (run_now i s))) = sc_timers s" "sc_stopped (snd (snd (run_now i s))) = sc_stopped s"
  "sc_next_handle (snd (snd (run_now i s))) = sc_next_handle s" "sc_runs (snd (snd (run_now i s))) = sc_runs s"
  by (simp_all add: run_now_def sched_frame split: option.split)

lemma reschedule_frame [sched_frame]:
  "sc_slots (snd (reschedule ck now i spec s)) = sc_slots s"
  "sc_stopped (snd (reschedule ck now i spec s)) = sc_stopped s"
  "sc_runs (snd (reschedule ck now i spec s)) = sc_runs s"
  by (simp_all add: reschedule_def spawn_timer_def Let_def sched_frame split: option.split)

subsection \<open>The executor behind the scheduler\<close>

lemma execute_managed_pool:
  assumes "execute_managed i w s = (admitted, s')"
  shows "(if admitted then h @ [(i, w)] else h, sc_slots s') \<in> {pool_admit i w (h, sc_slots s), (h, sc_slots s)}"
  using assms by (auto simp: execute_managed_def sched_admit_def pool_admit_def admit_run_def Let_def split: if_splits)

lemma runs_pool: "worked prompt ck ([], idle_sched dk) (h, s) \<Longrightarrow> pool_reached (h, sc_slots s)"
proof (induction "([] :: (string \<times> weight) list, idle_sched dk)" "(h, s)" arbitrary: h s rule: worked.induct)
  case rest
  show ?case using pool_reached.empty by (simp add: idle_sched_def)
next
  case (asked h s i w admitted s')
  then show ?case using execute_managed_pool [OF asked(3), of h] pool_reached.asked by (metis insert_iff singletonD)
next
  case (finished h s x begun s')
  then show ?case using pool_reached.ended [OF finished(2), of x]
    by (auto simp: pool_release_def finish_run_def split: prod.splits)
next
  case (stopped h s)
  then show ?case using pool_reached.cleared [OF stopped(2)]
    by (simp add: desktop_stop_jobs_def stop_jobs_def Let_def sched_frame)
qed (simp_all add: sched_frame register_run_def timers_end_def)

text \<open>
  C20 Behind the scheduler stands the executor: whatever its timers, routes, restarts and the shutdown do, its
  slots move only by the executor's own steps, so they are those of a pool of runs, no job runs twice at once, and at most one
  heavy and two light jobs run.
\<close>

theorem scheduler_runs_pool:
  assumes "worked False ck ([], idle_sched dk) (h, s)"
  shows "pool_reached (h, sc_slots s) \<and> distinct (map fst h) \<and> held_of Heavy h \<le> 1 \<and> held_of Light h \<le> 2"
  using runs_pool [OF assms] pool_reached_ok [OF runs_pool [OF assms]] by (auto simp: pool_ok_def counters_ok_def)

subsection \<open>Timers\<close>

definition live_timer :: "sched \<Rightarrow> job_timer \<Rightarrow> scheduled \<Rightarrow> bool" where
  "live_timer s t j \<longleftrightarrow> j \<in> set (sc_jobs s) \<and> jd_id (tm_def t) = jd_id (sj_def j) \<and> tm_generation t = sj_generation j"

text \<open>
  Jobs and timers are told apart by id and handle; a timer is never of a later generation than its job, and
  one of the same generation is the one the job holds, due when the job says.
\<close>

definition timers_ok :: "sched \<Rightarrow> bool" where
  "timers_ok s \<longleftrightarrow> distinct (jobs_ids s) \<and> distinct (map tm_handle (sc_timers s)) \<and>
     (\<forall>t \<in> set (sc_timers s). tm_handle t < sc_next_handle s \<and>
        (\<forall>j \<in> set (sc_jobs s). jd_id (tm_def t) = jd_id (sj_def j) \<longrightarrow>
           tm_generation t \<le> sj_generation j \<and>
           (tm_generation t = sj_generation j \<longrightarrow> sj_timer j = Some (tm_handle t) \<and> sj_next j = Some (tm_at t))))"

lemma timers_ok_frame:
  "timers_ok s \<Longrightarrow> sc_jobs s' = sc_jobs s \<Longrightarrow> sc_timers s' = sc_timers s \<Longrightarrow> sc_next_handle s' = sc_next_handle s \<Longrightarrow>
    timers_ok s'"
  by (simp add: timers_ok_def jobs_ids_def)

lemma timers_ok_fewer:
  assumes "timers_ok s" "sc_jobs s' = sc_jobs s \<or> sc_jobs s' = []" "sc_next_handle s' = sc_next_handle s"
    "sc_timers s' = filter p (sc_timers s)"
  shows "timers_ok s'"
  using assms by (auto simp: timers_ok_def jobs_ids_def distinct_map_filter)

lemma job_of_member: "distinct (jobs_ids s) \<Longrightarrow> j \<in> set (sc_jobs s) \<Longrightarrow> job_of s (jd_id (sj_def j)) = Some j"
proof -
  have "distinct (map f xs) \<Longrightarrow> j \<in> set xs \<Longrightarrow> find (\<lambda>x. f x = f j) xs = Some j" for f :: "scheduled \<Rightarrow> string" and xs
    by (induction xs) (auto simp: image_iff)
  then show "distinct (jobs_ids s) \<Longrightarrow> j \<in> set (sc_jobs s) \<Longrightarrow> job_of s (jd_id (sj_def j)) = Some j"
    by (simp add: jobs_ids_def job_of_def)
qed

lemma job_of_SomeD: "job_of s i = Some j \<Longrightarrow> j \<in> set (sc_jobs s) \<and> jd_id (sj_def j) = i"
  by (auto simp: job_of_def find_Some_iff)

lemma in_set_first:
  "x \<in> set (set_first p f xs) \<Longrightarrow> distinct (map key xs) \<Longrightarrow> (\<And>y. p y \<longleftrightarrow> key y = k) \<Longrightarrow>
    (x \<in> set xs \<and> key x \<noteq> k) \<or> (\<exists>y \<in> set xs. key y = k \<and> x = f y)"
proof (induction xs)
  case (Cons y ys)
  then show ?case by (auto split: if_splits) (metis image_eqI)+
qed simp

lemma modify_job_member:
  assumes "j \<in> set (sc_jobs (modify_job i f s))" "distinct (jobs_ids s)"
  shows "(j \<in> set (sc_jobs s) \<and> jd_id (sj_def j) \<noteq> i) \<or> (\<exists>k \<in> set (sc_jobs s). jd_id (sj_def k) = i \<and> j = f k)"
  using in_set_first [of j "\<lambda>j. jd_id (sj_def j) = i" f "sc_jobs s" "\<lambda>j. jd_id (sj_def j)" i] assms
  by (simp add: modify_job_def jobs_ids_def)

lemma modify_job_ids: "(\<And>j. sj_def (f j) = sj_def j) \<Longrightarrow> jobs_ids (modify_job i f s) = jobs_ids s"
  using set_first_keys [of "\<lambda>j. jd_id (sj_def j)" f "\<lambda>j. jd_id (sj_def j) = i" "sc_jobs s"]
  by (simp add: modify_job_def jobs_ids_def)

lemma one_timer:
  "timers_ok s \<Longrightarrow> t \<in> set (sc_timers s) \<Longrightarrow> t' \<in> set (sc_timers s) \<Longrightarrow> tm_handle t = tm_handle t' \<Longrightarrow> t = t'"
  by (metis timers_ok_def distinct_map inj_onD)

lemma live_timer_held:
  "timers_ok s \<Longrightarrow> t \<in> set (sc_timers s) \<Longrightarrow> live_timer s t j \<Longrightarrow> sj_timer j = Some (tm_handle t) \<and> sj_next j = Some (tm_at t)"
  by (simp add: timers_ok_def live_timer_def)

lemma live_one:
  "timers_ok s \<Longrightarrow> t \<in> set (sc_timers s) \<Longrightarrow> t' \<in> set (sc_timers s) \<Longrightarrow> live_timer s t j \<Longrightarrow> live_timer s t' j \<Longrightarrow> t = t'"
  using live_timer_held [of s t j] live_timer_held [of s t' j] one_timer [of s t t'] by simp

text \<open>A new timer of a later generation than those of its job.\<close>

lemma spawn_timer_ok:
  assumes ok: "timers_ok s" and s1: "spawn_timer d g p first s = (h, s1)"
    and jobs: "sc_jobs s2 = js" "distinct (map (\<lambda>j. jd_id (sj_def j)) js)"
    and same: "sc_timers s2 = sc_timers s1" "sc_next_handle s2 = sc_next_handle s1"
    and old: "\<And>j. j \<in> set js \<Longrightarrow> jd_id (sj_def j) \<noteq> jd_id d \<Longrightarrow> j \<in> set (sc_jobs s)"
    and mine: "\<And>j. j \<in> set js \<Longrightarrow> jd_id (sj_def j) = jd_id d \<Longrightarrow>
      sj_generation j = g \<and> sj_timer j = Some h \<and> sj_next j = Some first"
    and newer: "\<And>t. t \<in> set (sc_timers s) \<Longrightarrow> jd_id (tm_def t) = jd_id d \<Longrightarrow> tm_generation t < g"
  shows "timers_ok s2"
proof -
  have s1': "h = sc_next_handle s" "sc_next_handle s1 = h + 1"
      "sc_timers s1 = sc_timers s @ [\<lparr>tm_handle = h, tm_def = d, tm_generation = g, tm_plan = p, tm_at = first\<rparr>]"
    using s1 by (auto simp: spawn_timer_def Let_def)
  have hs: "\<forall>t \<in> set (sc_timers s). tm_handle t < h" "distinct (map tm_handle (sc_timers s))"
    using ok by (simp_all add: timers_ok_def s1'(1))
  show ?thesis
    unfolding timers_ok_def
  proof (intro conjI ballI impI)
    show "distinct (jobs_ids s2)" using jobs by (simp add: jobs_ids_def)
    show "distinct (map tm_handle (sc_timers s2))" using hs by (auto simp: same s1'(3))
    fix t assume t: "t \<in> set (sc_timers s2)"
    show "tm_handle t < sc_next_handle s2" using t hs by (auto simp: same s1'(2,3))
    fix j assume j: "j \<in> set (sc_jobs s2)" and ids: "jd_id (tm_def t) = jd_id (sj_def j)"
    have old_timer: "tm_generation t \<le> sj_generation j \<and>
        (tm_generation t = sj_generation j \<longrightarrow> sj_timer j = Some (tm_handle t) \<and> sj_next j = Some (tm_at t))"
      if "t \<in> set (sc_timers s)"
    proof (cases "jd_id (sj_def j) = jd_id d")
      case True
      then show ?thesis using mine [of j] newer [OF that] j ids jobs(1) by simp
    next
      case False
      then show ?thesis using old [of j] that j ids jobs(1) ok by (simp add: timers_ok_def)
    qed
    moreover have "tm_generation t \<le> sj_generation j \<and>
        (tm_generation t = sj_generation j \<longrightarrow> sj_timer j = Some (tm_handle t) \<and> sj_next j = Some (tm_at t))"
      if "t \<notin> set (sc_timers s)"
      using t that mine [of j] j ids jobs(1) by (auto simp: same s1'(3))
    ultimately show "tm_generation t \<le> sj_generation j"
      "tm_generation t = sj_generation j \<Longrightarrow> sj_timer j = Some (tm_handle t)"
      "tm_generation t = sj_generation j \<Longrightarrow> sj_next j = Some (tm_at t)"
      by blast+
  qed
qed

lemma schedule_job_ok:
  assumes ok: "timers_ok s" and new: "jd_id d \<notin> set (jobs_ids s)"
    and newer: "\<And>t. t \<in> set (sc_timers s) \<Longrightarrow> jd_id (tm_def t) = jd_id d \<Longrightarrow>
      tm_generation t < (case map_of (rev prev) (jd_id d) of Some g \<Rightarrow> g | None \<Rightarrow> 0)"
  shows "timers_ok (schedule_job ck v now prev d s) \<and>
    jobs_ids (schedule_job ck v now prev d s) = jobs_ids s @ [jd_id d] \<and>
    (\<forall>t \<in> set (sc_timers (schedule_job ck v now prev d s)). t \<in> set (sc_timers s) \<or> jd_id (tm_def t) = jd_id d)"
proof -
  define g where "g = (case map_of (rev prev) (jd_id d) of Some g \<Rightarrow> g | None \<Rightarrow> 0)"
  define spec where "spec = unwrap_or JNull (jpath [''jobs'', jd_id d, ''schedule''] v)"
  have others: "jd_id (sj_def j) \<noteq> jd_id d" if "j \<in> set (sc_jobs s)" for j
  proof
    assume "jd_id (sj_def j) = jd_id d"
    then have "jd_id d \<in> set (jobs_ids s)" using that by (simp add: jobs_ids_def) (metis image_eqI)
    then show False using new by simp
  qed
  show ?thesis
  proof (cases "plan_of ck (spec_of ck spec) now")
    case None
    then have s': "schedule_job ck v now prev d s = s\<lparr>sc_jobs := sc_jobs s @ [\<lparr>sj_def = d, sj_schedule = spec,
        sj_broken = True, sj_next = None, sj_generation = g, sj_timer = None\<rparr>]\<rparr>"
      by (simp add: schedule_job_def Let_def g_def spec_def)
    have older: "tm_generation t \<le> g \<and> tm_generation t \<noteq> g"
      if "t \<in> set (sc_timers s)" "jd_id (tm_def t) = jd_id d" for t
      using newer [OF that] by (simp add: g_def)
    show ?thesis unfolding s' using ok new older by (auto simp: timers_ok_def jobs_ids_def)
  next
    case (Some q)
    obtain p first where q: "q = (p, first)" by (cases q)
    obtain h s1 where s1: "spawn_timer d g p first s = (h, s1)" by (rule prod.exhaust)
    have fr: "sc_jobs s1 = sc_jobs s" "set (sc_timers s1) = insert \<lparr>tm_handle = h, tm_def = d, tm_generation = g,
        tm_plan = p, tm_at = first\<rparr> (set (sc_timers s))"
      using s1 by (auto simp: spawn_timer_def Let_def)
    have s': "schedule_job ck v now prev d s = s1\<lparr>sc_jobs := sc_jobs s1 @ [\<lparr>sj_def = d, sj_schedule = spec,
        sj_broken = False, sj_next = Some first, sj_generation = g, sj_timer = Some h\<rparr>]\<rparr>"
      using Some s1 by (simp add: schedule_job_def Let_def q g_def spec_def)
    have "timers_ok (schedule_job ck v now prev d s)"
      unfolding s'
      by (rule spawn_timer_ok [OF ok s1 refl]) (use others newer ok new in \<open>auto simp: fr jobs_ids_def g_def timers_ok_def\<close>)
    then show ?thesis by (auto simp: s' fr jobs_ids_def)
  qed
qed

lemma fold_schedule_ok:
  assumes "timers_ok s" "distinct (jobs_ids s @ map jd_id ds)"
    and "\<And>t d. t \<in> set (sc_timers s) \<Longrightarrow> d \<in> set ds \<Longrightarrow> jd_id (tm_def t) = jd_id d \<Longrightarrow>
      tm_generation t < (case map_of (rev prev) (jd_id d) of Some g \<Rightarrow> g | None \<Rightarrow> 0)"
  shows "timers_ok (fold (schedule_job ck v now prev) ds s)"
  using assms
proof (induction ds arbitrary: s)
  case (Cons d ds)
  have new: "jd_id d \<notin> set (jobs_ids s)" using Cons.prems(2) by auto
  have newer: "tm_generation t < (case map_of (rev prev) (jd_id d) of Some g \<Rightarrow> g | None \<Rightarrow> 0)"
    if "t \<in> set (sc_timers s)" "jd_id (tm_def t) = jd_id d" for t
    by (rule Cons.prems(3) [OF that(1) _ that(2)]) simp
  note step = schedule_job_ok [OF Cons.prems(1) new newer, of ck v now]
  show ?case
    unfolding fold.simps o_apply
  proof (rule Cons.IH)
    show "timers_ok (schedule_job ck v now prev d s)" using step by simp
    show "distinct (jobs_ids (schedule_job ck v now prev d s) @ map jd_id ds)" using step Cons.prems(2) by simp
    fix t e
    assume t: "t \<in> set (sc_timers (schedule_job ck v now prev d s))" "e \<in> set ds" "jd_id (tm_def t) = jd_id e"
    have "jd_id e \<noteq> jd_id d" using imageI [OF t(2), of jd_id] Cons.prems(2) by auto
    moreover have "t \<in> set (sc_timers s) \<or> jd_id (tm_def t) = jd_id d"
      by (rule bspec [OF conjunct2 [OF conjunct2 [OF step]] t(1)])
    ultimately have "t \<in> set (sc_timers s)" using t(3) by simp
    then show "tm_generation t < (case map_of (rev prev) (jd_id e) of Some g \<Rightarrow> g | None \<Rightarrow> 0)"
      using Cons.prems(3) [of t e] t by simp
  qed
qed simp

lemma job_ids_distinct: "distinct (map jd_id (PLEX_JOBS @ JELLYFIN_JOBS @ COMMON_JOBS))"
  by code_simp

lemma server_jobs_distinct: "distinct (map jd_id (server_jobs settings @ COMMON_JOBS))"
  using job_ids_distinct by (auto simp: server_jobs_def split: option.split)

lemma start_jobs_ok:
  assumes ok: "timers_ok s" and known: "no_leftover settings s"
  shows "timers_ok (start_jobs ck settings now s)"
proof (cases "sc_stopped s")
  case False
  define prev where "prev = map (\<lambda>j. (jd_id (sj_def j), sj_generation j + 1)) (sc_jobs s)"
  have "timers_ok (fold (schedule_job ck settings now prev) (server_jobs settings @ COMMON_JOBS) (s\<lparr>sc_jobs := []\<rparr>))"
  proof (rule fold_schedule_ok)
    show "timers_ok (s\<lparr>sc_jobs := []\<rparr>)" using ok by (simp add: timers_ok_def jobs_ids_def)
    show "distinct (jobs_ids (s\<lparr>sc_jobs := []\<rparr>) @ map jd_id (server_jobs settings @ COMMON_JOBS))"
      using server_jobs_distinct by (simp add: jobs_ids_def)
    fix t d assume t: "t \<in> set (sc_timers (s\<lparr>sc_jobs := []\<rparr>))" and d: "d \<in> set (server_jobs settings @ COMMON_JOBS)"
      and ids: "jd_id (tm_def t) = jd_id d"
    have "jd_id d \<in> set (map jd_id (server_jobs settings @ COMMON_JOBS))" using d by (simp only: set_map imageI)
    moreover have "t \<in> set (sc_timers s)" using t by simp
    ultimately have "jd_id d \<in> set (jobs_ids s)" using known ids unfolding no_leftover_def by metis
    then obtain j where j: "j \<in> set (sc_jobs s)" "jd_id (sj_def j) = jd_id d" by (auto simp: jobs_ids_def)
    have "distinct (map fst (rev prev))"
      using ok by (simp add: timers_ok_def jobs_ids_def prev_def comp_def flip: rev_map)
    moreover have "(jd_id d, sj_generation j + 1) \<in> set (rev prev)" using j by (force simp: prev_def)
    ultimately have "map_of (rev prev) (jd_id d) = Some (sj_generation j + 1)" by simp
    moreover have "tm_generation t \<le> sj_generation j" using ok t ids j by (simp add: timers_ok_def)
    ultimately show "tm_generation t < (case map_of (rev prev) (jd_id d) of Some g \<Rightarrow> g | None \<Rightarrow> 0)" by simp
  qed
  then show ?thesis by (simp add: start_jobs_def drop_schedule_def False prev_def)
qed (use ok in \<open>simp add: start_jobs_def\<close>)

lemma timer_fires_ok:
  assumes ok: "timers_ok s" and t: "t \<in> set (sc_timers s)"
  shows "timers_ok (snd (timer_fires t s))"
proof -
  define others where "others = filter (\<lambda>x. tm_handle x \<noteq> tm_handle t) (sc_timers s)"
  define i where "i = jd_id (tm_def t)"
  obtain n p where f: "following_of (tm_plan t) = (n, p)" by (rule prod.exhaust)
  obtain live s1 where e: "set_next i (tm_generation t) n s = (live, s1)" by (rule prod.exhaust)
  show ?thesis
  proof (cases live)
    case False
    then have "s1 = s" using e by (auto simp: set_next_def split: option.splits if_splits)
    then have "snd (timer_fires t s) = s\<lparr>sc_timers := others\<rparr>"
      using False e by (simp add: timer_fires_def Let_def f i_def others_def)
    then show ?thesis using timers_ok_fewer [OF ok] by (simp add: others_def)
  next
    case True
    then obtain j where j: "job_of s i = Some j" "sj_generation j = tm_generation t" "s1 = modify_job i (\<lambda>j. j\<lparr>sj_next := n\<rparr>) s"
      using e by (auto simp: set_next_def split: option.splits if_splits)
    define ts where "ts = (case n of None \<Rightarrow> others | Some next \<Rightarrow> others @ [t\<lparr>tm_plan := p, tm_at := next\<rparr>])"
    have s2: "snd (timer_fires t s) = snd (invoke (tm_def t) (s1\<lparr>sc_timers := ts\<rparr>))"
      using True e by (simp add: timer_fires_def Let_def f ts_def flip: i_def others_def)
    have mem: "j \<in> set (sc_jobs s)" "jd_id (sj_def j) = i" using job_of_SomeD [OF j(1)] by simp_all
    have live: "live_timer s t j" using mem j(2) by (simp add: live_timer_def i_def)
    have dj: "distinct (jobs_ids s)" using ok by (simp add: timers_ok_def)
    have other: "x \<in> set (sc_timers s) \<and> x \<noteq> t" if "x \<in> set others" for x using that by (auto simp: others_def)
    have ts: "x \<in> set others \<or> (x = t\<lparr>tm_plan := p, tm_at := the n\<rparr> \<and> n = Some (the n))" if "x \<in> set ts" for x
      using that by (auto simp: ts_def split: option.splits)
    have "timers_ok (s1\<lparr>sc_timers := ts\<rparr>)"
      unfolding timers_ok_def
    proof (intro conjI ballI impI)
      show "distinct (jobs_ids (s1\<lparr>sc_timers := ts\<rparr>))"
        using dj modify_job_ids [of "\<lambda>j. j\<lparr>sj_next := n\<rparr>" i s] by (simp add: j(3) jobs_ids_def)
      show "distinct (map tm_handle (sc_timers (s1\<lparr>sc_timers := ts\<rparr>)))"
        using ok by (auto simp: timers_ok_def ts_def others_def distinct_map_filter split: option.split)
      fix x assume "x \<in> set (sc_timers (s1\<lparr>sc_timers := ts\<rparr>))"
      then have x: "x \<in> set ts" by simp
      show "tm_handle x < sc_next_handle (s1\<lparr>sc_timers := ts\<rparr>)"
        using ts [OF x] other t ok by (auto simp: j(3) sched_frame timers_ok_def)
      fix k assume k: "k \<in> set (sc_jobs (s1\<lparr>sc_timers := ts\<rparr>))" and ids: "jd_id (tm_def x) = jd_id (sj_def k)"
      have k: "(k \<in> set (sc_jobs s) \<and> jd_id (sj_def k) \<noteq> i) \<or> k = j\<lparr>sj_next := n\<rparr>"
      proof -
        from modify_job_member [OF _ dj, of k i "\<lambda>j. j\<lparr>sj_next := n\<rparr>"] k
        consider "k \<in> set (sc_jobs s)" "jd_id (sj_def k) \<noteq> i"
          | k0 where "k0 \<in> set (sc_jobs s)" "jd_id (sj_def k0) = i" "k = k0\<lparr>sj_next := n\<rparr>"
          by (auto simp: j(3))
        then show ?thesis
        proof cases
          case (2 k0)
          then have "k0 = j" using job_of_member [OF dj, of k0] j(1) by simp
          then show ?thesis using 2 by simp
        qed simp
      qed
      have "tm_generation x \<le> sj_generation k \<and>
        (tm_generation x = sj_generation k \<longrightarrow> sj_timer k = Some (tm_handle x) \<and> sj_next k = Some (tm_at x))"
      proof (cases "x \<in> set others")
        case True
        then have xs: "x \<in> set (sc_timers s)" "x \<noteq> t" using other by simp_all
        show ?thesis
        proof (cases "k = j\<lparr>sj_next := n\<rparr>")
          case True
          have "\<not> live_timer s x j" using live_one [OF ok xs(1) t _ live] xs(2) by blast
          moreover have "jd_id (tm_def x) = jd_id (sj_def j)" using ids True by simp
          ultimately have "tm_generation x \<noteq> sj_generation j" using mem(1) by (simp add: live_timer_def)
          moreover have "tm_generation x \<le> sj_generation j"
            using ok xs(1) mem(1) \<open>jd_id (tm_def x) = jd_id (sj_def j)\<close> by (simp add: timers_ok_def)
          ultimately show ?thesis by (simp add: True)
        next
          case False
          then show ?thesis using k ok xs(1) ids by (simp add: timers_ok_def)
        qed
      next
        case False
        then have xt: "x = t\<lparr>tm_plan := p, tm_at := the n\<rparr>" "n = Some (the n)" using ts [OF x] by simp_all
        then have "jd_id (sj_def k) = i" using ids by (simp add: i_def)
        then have "k = j\<lparr>sj_next := n\<rparr>" using k by simp
        then show ?thesis using live_timer_held [OF ok t live] j(2) xt by simp
      qed
      then show "tm_generation x \<le> sj_generation k"
        "tm_generation x = sj_generation k \<Longrightarrow> sj_timer k = Some (tm_handle x)"
        "tm_generation x = sj_generation k \<Longrightarrow> sj_next k = Some (tm_at x)" by blast+
    qed
    then show ?thesis unfolding s2 by (rule timers_ok_frame) (simp_all add: sched_frame)
  qed
qed

lemma reschedule_cases:
  assumes "reschedule ck now i spec s = (answer, s')"
  obtains "job_of s i = None" "answer = JobNotFound" "s' = s"
  | j where "job_of s i = Some j" "sj_broken j" "answer = InvalidSchedule" "s' = s"
  | j where "job_of s i = Some j" "\<not> sj_broken j" "Option.bind spec (\<lambda>spec. plan_of ck spec now) = None"
      "answer = InvalidSchedule"
      "s' = modify_job i (\<lambda>j. j\<lparr>sj_generation := sj_generation j + 1, sj_timer := None\<rparr>) s"
  | j sp p first h s1 where "job_of s i = Some j" "\<not> sj_broken j" "spec = Some sp" "plan_of ck sp now = Some (p, first)"
      "spawn_timer (sj_def j) (sj_generation j + 1) p first
         (modify_job i (\<lambda>j. j\<lparr>sj_generation := sj_generation j + 1, sj_timer := None\<rparr>) s) = (h, s1)"
      "s' = modify_job i (\<lambda>j. j\<lparr>sj_next := Some first, sj_schedule := JStr sp, sj_timer := Some h\<rparr>) s1"
proof -
  show ?thesis
  proof (cases "job_of s i")
    case None
    then have "answer = JobNotFound" "s' = s" using assms by (simp_all add: reschedule_def)
    then show ?thesis by (rule that(1) [OF None])
  next
    case (Some j)
    show ?thesis
    proof (cases "sj_broken j")
      case True
      then have "answer = InvalidSchedule" "s' = s" using assms Some by (simp_all add: reschedule_def)
      then show ?thesis by (rule that(2) [OF Some True])
    next
      case False
      show ?thesis
      proof (cases "Option.bind spec (\<lambda>spec. plan_of ck spec now)")
        case None
        then have "answer = InvalidSchedule"
            "s' = modify_job i (\<lambda>j. j\<lparr>sj_generation := sj_generation j + 1, sj_timer := None\<rparr>) s"
          using assms Some False by (simp_all add: reschedule_def Let_def)
        then show ?thesis by (rule that(3) [OF Some False None])
      next
        case planned: (Some q)
        obtain p first where q: "q = (p, first)" by (cases q)
        obtain sp where sp: "spec = Some sp" "plan_of ck sp now = Some (p, first)"
          using planned by (cases spec) (simp_all add: q)
        obtain h s1 where h: "spawn_timer (sj_def j) (sj_generation j + 1) p first
            (modify_job i (\<lambda>j. j\<lparr>sj_generation := sj_generation j + 1, sj_timer := None\<rparr>) s) = (h, s1)"
          by (cases "spawn_timer (sj_def j) (sj_generation j + 1) p first
            (modify_job i (\<lambda>j. j\<lparr>sj_generation := sj_generation j + 1, sj_timer := None\<rparr>) s)")
        have "snd (reschedule ck now i spec s) =
            modify_job i (\<lambda>j. j\<lparr>sj_next := Some first, sj_schedule := JStr sp, sj_timer := Some h\<rparr>) s1"
          by (simp add: reschedule_def Some False sp h Let_def del: One_nat_def split: option.split)
        then have "s' = modify_job i (\<lambda>j. j\<lparr>sj_next := Some first, sj_schedule := JStr sp, sj_timer := Some h\<rparr>) s1"
          by (simp only: assms snd_conv)
        then show ?thesis by (rule that(4) [OF Some False sp h])
      qed
    qed
  qed
qed

lemma reschedule_ok:
  assumes ok: "timers_ok s" and r: "reschedule ck now i spec s = (answer, s')"
  shows "timers_ok s'"
proof -
  let ?bump = "\<lambda>j. j\<lparr>sj_generation := sj_generation j + 1, sj_timer := None\<rparr>"
  define s0 where "s0 = modify_job i ?bump s"
  have d: "distinct (jobs_ids s)" "distinct (jobs_ids s0)"
    using ok modify_job_ids [of ?bump i s] by (simp_all add: timers_ok_def s0_def)
  have fr: "sc_timers s0 = sc_timers s" "sc_next_handle s0 = sc_next_handle s" by (simp_all add: s0_def sched_frame)
  have bumped: "tm_generation t < sj_generation j"
    if "j \<in> set (sc_jobs s0)" "jd_id (sj_def j) = i" "t \<in> set (sc_timers s)" "jd_id (tm_def t) = i" for j t
  proof -
    from modify_job_member [of j i ?bump s] that(1,2) d(1)
    obtain k where "k \<in> set (sc_jobs s)" "jd_id (sj_def k) = i" "j = ?bump k" by (auto simp: s0_def)
    moreover from this have "tm_generation t \<le> sj_generation k" using ok that(3,4) by (simp add: timers_ok_def)
    ultimately show ?thesis by simp
  qed
  have others: "j \<in> set (sc_jobs s)" if "j \<in> set (sc_jobs s0)" "jd_id (sj_def j) \<noteq> i" for j
    using modify_job_member [of j i ?bump s] that d(1) by (auto simp: s0_def)
  have ok0: "timers_ok s0"
    unfolding timers_ok_def
  proof (intro conjI ballI impI)
    show "distinct (jobs_ids s0)" by (rule d(2))
    show "distinct (map tm_handle (sc_timers s0))" using ok by (simp add: timers_ok_def fr)
    fix t assume t: "t \<in> set (sc_timers s0)"
    show "tm_handle t < sc_next_handle s0" using ok t by (simp add: timers_ok_def fr)
    fix j assume j: "j \<in> set (sc_jobs s0)" and ids: "jd_id (tm_def t) = jd_id (sj_def j)"
    have "tm_generation t \<le> sj_generation j \<and>
        (tm_generation t = sj_generation j \<longrightarrow> sj_timer j = Some (tm_handle t) \<and> sj_next j = Some (tm_at t))"
    proof (cases "jd_id (sj_def j) = i")
      case True
      then show ?thesis using bumped [OF j True, of t] t ids by (simp add: fr)
    next
      case False
      then show ?thesis using others [OF j False] ok t ids by (simp add: timers_ok_def fr)
    qed
    then show "tm_generation t \<le> sj_generation j"
      "tm_generation t = sj_generation j \<Longrightarrow> sj_timer j = Some (tm_handle t)"
      "tm_generation t = sj_generation j \<Longrightarrow> sj_next j = Some (tm_at t)" by blast+
  qed
  show ?thesis
    using r
  proof (cases rule: reschedule_cases)
    case (3 j)
    then show ?thesis using ok0 by (simp add: s0_def)
  next
    case (4 j sp p first h s1)
    let ?set = "\<lambda>j. j\<lparr>sj_next := Some first, sj_schedule := JStr sp, sj_timer := Some h\<rparr>"
    have spawn: "spawn_timer (sj_def j) (sj_generation j + 1) p first s0 = (h, s1)" using 4(5) by (simp add: s0_def)
    have j: "j \<in> set (sc_jobs s)" "jd_id (sj_def j) = i" using job_of_SomeD [OF 4(1)] by simp_all
    have s1: "sc_jobs s1 = sc_jobs s0" using spawn_timer_frame(2) [of "sj_def j" "sj_generation j + 1" p first s0] spawn by simp
    have d1: "distinct (jobs_ids s1)" using d(2) s1 by (simp add: jobs_ids_def)
    have mine: "k = ?set (?bump j)" if "k \<in> set (sc_jobs s')" "jd_id (sj_def k) = i" for k
    proof -
      from modify_job_member [of k i ?set s1] that d1 4(6)
      obtain k0 where k0: "k0 \<in> set (sc_jobs s0)" "jd_id (sj_def k0) = i" "k = ?set k0" by (auto simp: s1)
      from modify_job_member [of k0 i ?bump s] k0(1,2) d(1)
      obtain k1 where k1: "k1 \<in> set (sc_jobs s)" "jd_id (sj_def k1) = i" "k0 = ?bump k1" by (auto simp: s0_def)
      have "k1 = j" using job_of_member [OF d(1) k1(1)] 4(1) k1(2) by simp
      then show ?thesis using k0(3) k1(3) by simp
    qed
    show ?thesis
    proof (rule spawn_timer_ok [OF ok0 spawn refl])
      show "distinct (map (\<lambda>j. jd_id (sj_def j)) (sc_jobs s'))"
        using d1 modify_job_ids [of ?set i s1] by (simp add: jobs_ids_def 4(6))
      show "sc_timers s' = sc_timers s1" "sc_next_handle s' = sc_next_handle s1" by (simp_all add: 4(6) sched_frame)
      show "k \<in> set (sc_jobs s0)" if "k \<in> set (sc_jobs s')" "jd_id (sj_def k) \<noteq> jd_id (sj_def j)" for k
        using modify_job_member [of k i ?set s1] that d1 4(6) by (auto simp: s1 j(2))
      show "sj_generation k = sj_generation j + 1 \<and> sj_timer k = Some h \<and> sj_next k = Some first"
        if "k \<in> set (sc_jobs s')" "jd_id (sj_def k) = jd_id (sj_def j)" for k
        using mine [of k] that j(2) by simp
      show "tm_generation t < sj_generation j + 1"
        if "t \<in> set (sc_timers s0)" "jd_id (tm_def t) = jd_id (sj_def j)" for t
      proof -
        have "tm_generation t \<le> sj_generation j" using ok j(1) that by (simp add: timers_ok_def fr)
        then show ?thesis by simp
      qed
    qed
  qed (use ok in simp_all)
qed

lemma worked_timers: "worked True ck p q \<Longrightarrow> timers_ok (snd p) \<Longrightarrow> timers_ok (snd q)"
proof (induction rule: worked.induct)
  case (started p h s settings now)
  then show ?case using start_jobs_ok by simp
next
  case (fired p h s t)
  then show ?case using timer_fires_ok by simp
next
  case (ended p h s gone)
  then show ?case using timers_ok_fewer [of s "timers_end gone s" "\<lambda>t. \<not> gone t"] by (simp add: timers_end_def)
next
  case (asked p h s i w admitted s')
  then have "timers_ok s'" using timers_ok_frame [of s s']
    by (auto simp: execute_managed_def sched_admit_def split: if_splits prod.splits)
  then show ?case by simp
next
  case (finished p h s x begun s')
  then show ?case using timers_ok_frame [of s s'] by (auto simp: finish_run_def split: prod.splits)
next
  case (route_schedule p h s now i spec)
  then show ?case using reschedule_ok [of s ck now i spec "fst (reschedule ck now i spec s)" "snd (reschedule ck now i spec s)"] by simp
next
  case (stopped p h s)
  then have "timers_ok s" by simp
  then show ?case
    unfolding snd_conv by (rule timers_ok_fewer [of s _ "\<lambda>_. True"]) (simp_all add: desktop_stop_jobs_def stop_jobs_def Let_def sched_frame)
next
  case (registered p h s i)
  then show ?case using timers_ok_frame [of s "register_run i s"] by (simp add: register_run_def sched_frame)
next
  case (cancelled p h s i)
  then show ?case using timers_ok_frame [of s "cancel_managed i s"] by (simp add: sched_frame)
next
  case (route_cancel p h s i)
  then show ?case using timers_ok_frame [of s "snd (cancel_job i s)"] by (simp add: sched_frame)
next
  case (route_run p h s i)
  then show ?case using timers_ok_frame [of s "snd (snd (run_now i s))"] by (simp add: sched_frame)
next
  case (desk p h s dk)
  then show ?case using timers_ok_frame [of s "s\<lparr>sc_desktop := dk\<rparr>"] by simp
qed

subsection \<open>Firing\<close>

lemma idle_timers_ok: "timers_ok (idle_sched dk)"
  by (simp add: timers_ok_def idle_sched_def jobs_ids_def)

lemma invoke_Some: "invoke d s = (Some r, s') \<Longrightarrow> \<not> sc_stopped s \<and> r = (jd_id d, jd_weight d)"
  by (auto simp: invoke_def split: if_splits prod.splits)

lemma timer_fires_live:
  assumes "timer_fires t s = (Some r, s')"
  obtains j where "job_of s (jd_id (tm_def t)) = Some j" "live_timer s t j" "\<not> sc_stopped s"
    "r = (jd_id (tm_def t), jd_weight (tm_def t))"
proof -
  obtain n p where f: "following_of (tm_plan t) = (n, p)" by (cases "following_of (tm_plan t)")
  obtain live s1 where e: "set_next (jd_id (tm_def t)) (tm_generation t) n s = (live, s1)"
    by (cases "set_next (jd_id (tm_def t)) (tm_generation t) n s")
  have live using assms by (cases live) (simp_all add: timer_fires_def Let_def f e)
  then obtain j where j: "job_of s (jd_id (tm_def t)) = Some j" "sj_generation j = tm_generation t"
    using e by (auto simp: set_next_def split: option.splits if_splits)
  have stopped: "sc_stopped s1 = sc_stopped s" using set_next_frame(3) [of "jd_id (tm_def t)" "tm_generation t" n s] e by simp
  have "\<not> sc_stopped s \<and> r = (jd_id (tm_def t), jd_weight (tm_def t))"
    using assms \<open>live\<close> stopped by (auto simp: timer_fires_def Let_def f e dest!: invoke_Some)
  then show ?thesis using that [OF j(1)] j job_of_SomeD [OF j(1)] by (simp add: live_timer_def)
qed

text \<open>
  C19 A job runs on the schedule it shows: over any course of starts, restarts, reschedules and shutdown in which
  no job is scheduled again, after a start that left it out, while an aborted timer of it is still on its way,
  a timer that invokes its job is the one the job holds, at the moment the job shows as its next execution,
  and no other timer of that job can invoke it; leftovers of earlier schedules find themselves stale.
\<close>

theorem only_shown_timer_fires:
  assumes "worked True ck ([], idle_sched dk) (h, s)" "t \<in> set (sc_timers s)" "timer_fires t s = (Some r, s')"
  shows "\<exists>j. job_of s (jd_id (tm_def t)) = Some j \<and> sj_timer j = Some (tm_handle t) \<and> sj_next j = Some (tm_at t) \<and>
    r = (jd_id (tm_def t), jd_weight (tm_def t)) \<and>
    (\<forall>t' \<in> set (sc_timers s). jd_id (tm_def t') = jd_id (tm_def t) \<and> fst (timer_fires t' s) \<noteq> None \<longrightarrow> t' = t)"
proof -
  have ok: "timers_ok s" using worked_timers [OF assms(1)] idle_timers_ok by simp
  obtain j where j: "job_of s (jd_id (tm_def t)) = Some j" "live_timer s t j" "r = (jd_id (tm_def t), jd_weight (tm_def t))"
    using assms(3) by (rule timer_fires_live)
  have "t' = t" if t': "t' \<in> set (sc_timers s)" "jd_id (tm_def t') = jd_id (tm_def t)" "fst (timer_fires t' s) \<noteq> None" for t'
  proof -
    obtain r' s'' where "timer_fires t' s = (Some r', s'')" using t'(3) by (cases "timer_fires t' s") auto
    then obtain k where k: "job_of s (jd_id (tm_def t')) = Some k" "live_timer s t' k" by (rule timer_fires_live)
    then have "k = j" using j(1) t'(2) by simp
    then show ?thesis using live_one [OF ok t'(1) assms(2) _ j(2)] k(2) by simp
  qed
  then show ?thesis using j live_timer_held [OF ok assms(2) j(2)] by blast
qed

subsection \<open>After the shutdown\<close>

lemma worked_trans: "worked prompt ck q r \<Longrightarrow> worked prompt ck p q \<Longrightarrow> worked prompt ck p r"
proof (induction rule: worked.induct)
  case (asked q h s i w admitted s')
  then show ?case using worked.asked by blast
next
  case (finished q h s x begun s')
  then show ?case using worked.finished by blast
next
  case (ended q h s gone)
  then show ?case using worked.ended by blast
next
  case (started q h s settings now)
  then show ?case using worked.started by blast
qed (simp_all add: worked.intros)

definition winding_down :: "(string \<times> weight) list \<Rightarrow> (string \<times> weight) list \<times> sched \<Rightarrow> bool" where
  "winding_down h0 p \<longleftrightarrow>
     (case p of (h, s) \<Rightarrow> sc_stopped s \<and> sc_jobs s = [] \<and> sl_pending (sc_slots s) = [] \<and> mset h \<subseteq># mset h0 \<and>
        (\<forall>i \<in> fst ` set h. \<forall>r. run_of s i = Some r \<longrightarrow> lr_aborted r \<and> lr_cancelled r))"

lemma run_of_set_run: "run_of (set_run i r s) j = (if j = i then Some r else run_of s j)"
  by (simp add: run_of_def set_run_def update_conv')

lemma run_of_cancel_run:
  "run_of (cancel_run i s) j = (if j = i then map_option (\<lambda>r. r\<lparr>lr_aborted := True, lr_cancelled := True\<rparr>) (run_of s i) else run_of s j)"
  by (auto simp: cancel_run_def run_of_set_run split: option.split)

lemma run_of_fold_cancel:
  "run_of (fold cancel_run is s) i =
    (if i \<in> set is then map_option (\<lambda>r. r\<lparr>lr_aborted := True, lr_cancelled := True\<rparr>) (run_of s i) else run_of s i)"
  by (induction "is" arbitrary: s) (auto simp: run_of_cancel_run option.map_comp comp_def)

lemma finish_winding_down:
  assumes "finish_run i w s = (begun, s')" "sl_pending (sc_slots s) = []"
  shows "begun = [] \<and> sl_pending (sc_slots s') = [] \<and> sc_stopped s' = sc_stopped s \<and> sc_jobs s' = sc_jobs s \<and> sc_runs s' = sc_runs s"
proof -
  have "sl_pending (free_slot i w (sc_slots s)) = []"
    using assms(2) by (simp add: slot_defs Let_def split: weight.split)
  then show ?thesis using assms(1) by (auto simp: finish_run_def release_run_def Let_def)
qed

lemma wound_down:
  "worked prompt ck p q \<Longrightarrow> winding_down h0 p \<Longrightarrow> winding_down h0 q"
proof (induction rule: worked.induct)
  case (finished p h s x begun s')
  have w: "winding_down h0 (h, s)" using finished by blast
  note f = finish_winding_down [OF finished(3)]
  have "mset (remove1 x h) \<subseteq># mset h0"
    using w by (simp add: winding_down_def) (meson diff_subset_eq_self subset_mset.order_trans)
  moreover have "set (remove1 x h) \<subseteq> set h" by (rule set_remove1_subset)
  ultimately show ?case using w f by (auto simp: winding_down_def run_of_def)
next
  case (asked p h s i w admitted s')
  have w: "winding_down h0 (h, s)" using asked by blast
  then have "\<not> admitted \<and> s' = s" using asked(2) by (auto simp: winding_down_def execute_managed_def sched_admit_def)
  then show ?case using w by simp
next
  case (registered p h s i)
  then show ?case by (auto simp: winding_down_def register_run_def run_of_set_run sched_frame split: if_splits)
next
  case (cancelled p h s i)
  then show ?case
    by (auto simp: winding_down_def cancel_managed_def run_of_cancel_run sched_frame split: if_splits)
next
  case (route_cancel p h s i)
  then show ?case by (auto simp: winding_down_def cancel_job_def job_of_def)
next
  case (route_schedule p h s now i spec)
  then show ?case by (auto simp: winding_down_def reschedule_def job_of_def)
next
  case (route_run p h s i)
  then show ?case by (auto simp: winding_down_def run_now_def job_of_def)
next
  case (fired p h s t)
  then have w: "winding_down h0 (h, s)" by blast
  then have "sc_jobs (snd (timer_fires t s)) = []"
    by (simp add: winding_down_def timer_fires_def set_next_def job_of_def Let_def split: prod.split)
  then show ?case using w by (simp add: winding_down_def sched_frame run_of_def)
next
  case (stopped p h s)
  have w: "winding_down h0 (h, s)" using stopped by blast
  let ?s = "s\<lparr>sc_desktop := (sc_desktop s)\<lparr>dk_catch_up := False, dk_download_run := False, dk_deferred := []\<rparr>,
      sc_stopped := True, sc_jobs := [], sc_slots := clear_pending (sc_slots s)\<rparr>"
  have d: "desktop_stop_jobs s = fold cancel_run (sl_active (sc_slots ?s)) ?s"
    by (simp add: desktop_stop_jobs_def stop_jobs_def Let_def)
  have "run_of ?s i = run_of s i" for i by (simp add: run_of_def)
  then show ?case using w
    by (auto simp: winding_down_def d sched_frame run_of_fold_cancel clear_pending_def)
qed (auto simp: winding_down_def start_jobs_def timers_end_def run_of_def)

text \<open>
  C22 After the shutdown nothing starts: once the jobs are stopped no timer, route or caller starts a run and
  none waits; the runs that still hold a slot are those from before, they have been told to stop, and one
  that ends begins no other. This holds over every course, restarts included.
\<close>

theorem stopped_starts_nothing:
  assumes "worked False ck ([], idle_sched dk) (h, s)" "worked False ck (h, desktop_stop_jobs s) (h', s')"
  shows "mset h' \<subseteq># mset h \<and> (\<forall>i \<in> fst ` set h'. \<forall>r. run_of s' i = Some r \<longrightarrow> lr_aborted r \<and> lr_cancelled r) \<and>
    sl_pending (sc_slots s') = [] \<and> execute_managed i w s' = (False, s') \<and> fst (timer_fires t s') = None \<and>
    fst (snd (run_now i s')) = None \<and> fst (finish_run i w s') = []"
proof -
  let ?s = "s\<lparr>sc_desktop := (sc_desktop s)\<lparr>dk_catch_up := False, dk_download_run := False, dk_deferred := []\<rparr>,
      sc_stopped := True, sc_jobs := [], sc_slots := clear_pending (sc_slots s)\<rparr>"
  have d: "desktop_stop_jobs s = fold cancel_run (sl_active (sc_slots ?s)) ?s"
    by (simp add: desktop_stop_jobs_def stop_jobs_def Let_def)
  have "sl_active (sc_slots s) = map fst h"
    using pool_reached_ok [OF runs_pool [OF assms(1)]] by (simp add: pool_ok_def counters_ok_def)
  then have "winding_down h (h, desktop_stop_jobs s)"
    by (auto simp: winding_down_def d sched_frame run_of_fold_cancel clear_pending_def)
  then have w: "winding_down h (h', s')" by (rule wound_down [OF assms(2)])
  have "fst (timer_fires t s') = None"
    using w timer_fires_live [of t s'] by (cases "timer_fires t s'"; cases "fst (timer_fires t s')") (auto simp: winding_down_def)
  moreover have "fst (finish_run i w s') = []"
    using finish_winding_down [of i w s' "fst (finish_run i w s')" "snd (finish_run i w s')"] w by (simp add: winding_down_def)
  ultimately show ?thesis
    using w by (simp add: winding_down_def execute_managed_def sched_admit_def run_now_def job_of_def)
qed

subsection \<open>Playback and launch\<close>

text \<open>
  While a video plays in the desktop runtime no heavy job starts from its schedule or the settings page:
  it is put off, once, and the next catch-up pass that finds playback over takes every job put off.
\<close>

theorem playback_defers:
  assumes "dk_on (sc_desktop s)" "dk_playback (sc_desktop s)" "jd_weight d = Heavy" "\<not> sc_stopped s"
    "distinct (map jd_id (dk_deferred (sc_desktop s)))"
  shows "\<exists>s'. invoke d s = (None, s') \<and> sc_slots s' = sc_slots s \<and>
    set (map jd_id (dk_deferred (sc_desktop s'))) = insert (jd_id d) (set (map jd_id (dk_deferred (sc_desktop s)))) \<and>
    distinct (map jd_id (dk_deferred (sc_desktop s'))) \<and>
    take_deferred (sc_desktop s') = ([], sc_desktop s') \<and>
    fst (take_deferred (set_playback False (sc_desktop s'))) = dk_deferred (sc_desktop s')"
  using assms
  by (auto simp: invoke_def defer_job_def take_deferred_def set_playback_def start_catch_up_def Let_def list_ex_iff image_iff
      split: prod.splits) metis

text \<open>
  A job is caught up at launch only for a run it missed: there was a whole second since its last success,
  and not after now, that its schedule matches (in a zone of fixed offset), and its last failure, if any, is
  at least six hours back for a heavy job, half an hour for a light one.
\<close>

theorem catch_up_only_missed:
  assumes "steady_zone (ck_zone ck) lo hi off" "due_at_launch ck rows now (d, schedule)"
    "execution_state rows (jd_id d) = (Some since, failed_at)"
    "lo \<le> l_day (since + off * 1000)" "l_day (since + off * 1000) + 320000 \<le> hi"
  shows "\<exists>e t. parse_cron (ck_num ck) schedule = Inr e \<and> since < t \<and> t \<le> now \<and> fires e (ck_zone ck) t \<and>
    (\<forall>b. failed_at = Some b \<longrightarrow> (if jd_weight d = Heavy then 21600000 else 1800000) \<le> now - b)"
proof -
  have due: "can_run_launch_catch_up ck schedule (jd_weight d) (Some since, failed_at) now"
    using assms(2,3) by (simp add: due_at_launch_def)
  then have missed: "has_missed_in ck schedule (Some since) now" by (simp add: can_run_launch_catch_up_def split: if_splits)
  then obtain e where e: "parse_cron (ck_num ck) schedule = Inr e" "since < now"
      "\<not> isl (fst (next_after (cron_iter_new e (ck_zone ck) since (Some now))))"
    by (auto simp: has_missed_in_def split: sum.splits if_splits)
  define it where "it = cron_iter_new e (ck_zone ck) since (Some now)"
  have it: "expr it = e" "tz it = ck_zone ck" "current it = since" "end_ms it = Some now" "dst_start it = None" "dst_end it = None"
    by (simp_all add: it_def cron_iter_new_def)
  obtain t it' where n: "search LOOP_LIMIT it since since = (Inr t, it')"
    using e(3) by (cases "next_after it"; cases "fst (next_after it)") (auto simp: next_after_def it simp flip: it_def)
  have "t \<le> now" using search_sound [OF n] it by simp
  moreover have "since < t \<and> fires e (ck_zone ck) t"
    using steady_zone.search_first [OF assms(1) n it(2,5,6) assms(4)] assms(5) it by (simp add: LOOP_LIMIT_def)
  moreover have "backoff (jd_weight d) \<le> now - b" if "failed_at = Some b" for b
    using due that by (simp add: can_run_launch_catch_up_def split: if_splits)
  ultimately show ?thesis using e(1) by (auto simp: backoff_def split: weight.splits)
qed

subsection \<open>Generations\<close>

lemma start_jobs_desktop: "sc_desktop (start_jobs ck v now s) = sc_desktop s"
proof -
  have "sc_desktop (schedule_job ck v now prev d s) = sc_desktop s" for prev d s
    by (auto simp: schedule_job_def Let_def spawn_timer_def split: option.splits prod.splits)
  then have "sc_desktop (fold (schedule_job ck v now prev) ds s) = sc_desktop s" for prev ds s
    by (induction ds arbitrary: s) simp_all
  then show ?thesis by (simp add: start_jobs_def drop_schedule_def)
qed

lemma timer_of_job_fires:
  assumes "job_of s (jd_id (tm_def t)) = Some j" "sj_generation j = tm_generation t" "\<not> sc_stopped s"
    "\<not> dk_playback (sc_desktop s)"
  shows "fst (timer_fires t s) = Some (jd_id (tm_def t), jd_weight (tm_def t))"
  using assms
  by (simp add: timer_fires_def set_next_def invoke_def defer_job_def modify_job_def Let_def split: prod.split)

lemma find_snoc_None: "find P (xs @ [x]) = (case find P xs of None \<Rightarrow> if P x then Some x else None | Some y \<Rightarrow> Some y)"
  by (induction xs) auto

lemma job_of_append:
  "job_of (s\<lparr>sc_jobs := sc_jobs s @ [j]\<rparr>) i = (case job_of s i of None \<Rightarrow> if jd_id (sj_def j) = i then Some j else None | r \<Rightarrow> r)"
  by (simp add: job_of_def find_snoc_None split: option.split)




lemma no_generation:
  "job_of s i = None \<Longrightarrow> map_of (rev (map (\<lambda>j. (jd_id (sj_def j), sj_generation j + 1)) (sc_jobs s))) i = None"
  by (auto simp: job_of_def find_None_iff map_of_eq_None_iff)


subsection \<open>Examples\<close>

text \<open>A server with Plex, then Jellyfin, then Plex again, whose full scan of Plex is set to one day of 2030.\<close>

definition demo_clock :: clock_env where
  "demo_clock = \<lparr>ck_num = (\<lambda>_. None), ck_zone = unix_zone 0, ck_show = (\<lambda>_. [])\<rparr>"

definition server_settings :: "int \<Rightarrow> json" where
  "server_settings server = JObj [(''main'', JObj [(''mediaServerType'', JInt server)]),
     (''jobs'', JObj [(''plex-full-scan'', JObj [(''schedule'', JStr ''2030-01-01'')])])]"

definition demo_desktop :: "bool \<Rightarrow> desktop" where
  "demo_desktop playing = \<lparr>dk_on = True, dk_stopping = False, dk_playback = playing, dk_deferred = [],
     dk_catch_up = False, dk_download_run = False\<rparr>"

definition plex_scheduled :: sched where
  "plex_scheduled = start_jobs demo_clock (server_settings 1) 0 (idle_sched (demo_desktop False))"

definition plex_again :: sched where
  "plex_again = start_jobs demo_clock (server_settings 1) 0 (start_jobs demo_clock (server_settings 2) 0 plex_scheduled)"

definition full_scan :: job_def where
  "full_scan = job_entry ''plex-full-scan'' ''Plex Full Library Scan'' ''Plex Full Library Scan'' ''hours'' Heavy StopsRunning"

definition full_timer :: "nat \<Rightarrow> job_timer" where
  "full_timer n = \<lparr>tm_handle = n, tm_def = full_scan, tm_generation = 0, tm_plan = Once, tm_at = 1893456000000\<rparr>"

definition full_job :: "nat \<Rightarrow> scheduled" where
  "full_job n = \<lparr>sj_def = full_scan, sj_schedule = JStr ''2030-01-01'', sj_broken = False, sj_next = Some 1893456000000,
     sj_generation = 0, sj_timer = Some n\<rparr>"

lemma demo_plans:
  "plan_of demo_clock ''2030-01-01'' 0 = Some (Once, 1893456000000)" "plan_of demo_clock ''null'' 0 = None"
proof -
  have "isl (parse_cron (\<lambda>_. None) ''2030-01-01'')" "isl (parse_cron (\<lambda>_. None) ''null'')"
    "parse_date_millis ''2030-01-01'' = Some 1893456000000" "parse_date_millis ''null'' = None" by code_simp+
  then show "plan_of demo_clock ''2030-01-01'' 0 = Some (Once, 1893456000000)" "plan_of demo_clock ''null'' 0 = None"
    by (auto simp: plan_of_def date_plan_def demo_clock_def isl_def)
qed

lemma demo_specs:
  "spec_of demo_clock (JStr t) = t" "spec_of demo_clock JNull = ''null''"
  by (simp_all add: spec_of_def demo_clock_def)

lemma demo_schedules:
  "jpath [''jobs'', i, ''schedule''] (server_settings n) = (if i = ''plex-full-scan'' then Some (JStr ''2030-01-01'') else None)"
  by (auto simp: server_settings_def obj_get_def)

lemma schedule_others:
  assumes "\<forall>d \<in> set ds. jd_id d \<noteq> ''plex-full-scan''"
  shows "sc_timers (fold (schedule_job demo_clock (server_settings n) 0 prev) ds s) = sc_timers s \<and>
    sc_next_handle (fold (schedule_job demo_clock (server_settings n) 0 prev) ds s) = sc_next_handle s \<and>
    job_of (fold (schedule_job demo_clock (server_settings n) 0 prev) ds s) ''plex-full-scan'' = job_of s ''plex-full-scan''"
  using assms
proof (induction ds arbitrary: s)
  case (Cons d ds)
  define j where "j = \<lparr>sj_def = d, sj_schedule = JNull, sj_broken = True, sj_next = None,
      sj_generation = (case map_of (rev prev) (jd_id d) of Some g \<Rightarrow> g | None \<Rightarrow> 0), sj_timer = None\<rparr>"
  have "sj_def j = d" "schedule_job demo_clock (server_settings n) 0 prev d s = s\<lparr>sc_jobs := sc_jobs s @ [j]\<rparr>"
    using Cons.prems by (simp_all add: schedule_job_def demo_schedules demo_specs demo_plans Let_def j_def del: jpath.simps)
  then show ?case using Cons.IH [of "s\<lparr>sc_jobs := sc_jobs s @ [j]\<rparr>"] Cons.prems
    by (simp add: job_of_append split: option.split)
qed simp

lemma demo_others:
  "\<forall>d \<in> set (JELLYFIN_JOBS @ COMMON_JOBS). jd_id d \<noteq> ''plex-full-scan''"
  by (simp add: JELLYFIN_JOBS_def COMMON_JOBS_def job_entry_def)

lemma start_jellyfin:
  assumes "\<not> sc_stopped s"
  shows "sc_timers (start_jobs demo_clock (server_settings 2) 0 s) = sc_timers s \<and>
    sc_next_handle (start_jobs demo_clock (server_settings 2) 0 s) = sc_next_handle s \<and>
    job_of (start_jobs demo_clock (server_settings 2) 0 s) ''plex-full-scan'' = None"
proof -
  have j: "server_jobs (server_settings 2) = JELLYFIN_JOBS" by (simp add: server_jobs_def server_settings_def obj_get_def i64_ok_def)
  have "job_of (s\<lparr>sc_jobs := []\<rparr>) ''plex-full-scan'' = None" by (simp add: job_of_def)
  then show ?thesis
    using schedule_others [OF demo_others, of 2 "fst (drop_schedule s)" "s\<lparr>sc_jobs := []\<rparr>"] assms
    by (simp add: start_jobs_def j drop_schedule_def)
qed

lemma start_plex:
  assumes "\<not> sc_stopped s" "job_of s ''plex-full-scan'' = None"
  shows "sc_timers (start_jobs demo_clock (server_settings 1) 0 s) = sc_timers s @ [full_timer (sc_next_handle s)] \<and>
    sc_next_handle (start_jobs demo_clock (server_settings 1) 0 s) = sc_next_handle s + 1 \<and>
    job_of (start_jobs demo_clock (server_settings 1) 0 s) ''plex-full-scan'' = Some (full_job (sc_next_handle s))"
proof -
  define prev where "prev = map (\<lambda>j. (jd_id (sj_def j), sj_generation j + 1)) (sc_jobs s)"
  define before where "before = take 1 PLEX_JOBS"
  define after where "after = drop 2 PLEX_JOBS @ COMMON_JOBS"
  have jobs: "server_jobs (server_settings 1) @ COMMON_JOBS = before @ full_scan # after"
    by (simp add: server_jobs_def server_settings_def obj_get_def i64_ok_def before_def after_def PLEX_JOBS_def full_scan_def)
  have others: "\<forall>d \<in> set before. jd_id d \<noteq> ''plex-full-scan''" "\<forall>d \<in> set after. jd_id d \<noteq> ''plex-full-scan''"
    using demo_others by (simp_all add: before_def after_def PLEX_JOBS_def job_entry_def)
  define s1 where "s1 = fold (schedule_job demo_clock (server_settings 1) 0 prev) before (s\<lparr>sc_jobs := []\<rparr>)"
  have s1: "sc_timers s1 = sc_timers s" "sc_next_handle s1 = sc_next_handle s" "job_of s1 ''plex-full-scan'' = None"
    using schedule_others [OF others(1), of 1 prev "s\<lparr>sc_jobs := []\<rparr>"] by (simp_all add: s1_def job_of_def)
  have gen: "map_of (rev prev) ''plex-full-scan'' = None" unfolding prev_def by (rule no_generation [OF assms(2)])
  define s2 where "s2 = schedule_job demo_clock (server_settings 1) 0 prev full_scan s1"
  have "s2 = s1\<lparr>sc_timers := sc_timers s1 @ [full_timer (sc_next_handle s1)], sc_next_handle := sc_next_handle s1 + 1,
      sc_jobs := sc_jobs s1 @ [full_job (sc_next_handle s1)]\<rparr>"
    by (simp add: s2_def schedule_job_def demo_schedules demo_specs demo_plans Let_def full_scan_def job_entry_def gen
        spawn_timer_def full_job_def full_timer_def del: jpath.simps)
  then have s2: "sc_timers s2 = sc_timers s @ [full_timer (sc_next_handle s)]" "sc_next_handle s2 = sc_next_handle s + 1"
      "job_of s2 ''plex-full-scan'' = Some (full_job (sc_next_handle s))"
    using s1 job_of_append [of s1 "full_job (sc_next_handle s1)" "''plex-full-scan''"]
    by (simp_all add: job_of_def full_job_def full_scan_def job_entry_def)
  have "start_jobs demo_clock (server_settings 1) 0 s = fold (schedule_job demo_clock (server_settings 1) 0 prev) after s2"
    using assms(1) by (simp add: start_jobs_def drop_schedule_def jobs prev_def s1_def s2_def del: fold_append) (simp add: comp_def)
  then show ?thesis using schedule_others [OF others(2), of 1 prev s2] s2 by simp
qed

lemma plex_state:
  "sc_timers plex_scheduled = [full_timer 0]" "job_of plex_scheduled ''plex-full-scan'' = Some (full_job 0)"
  "sc_next_handle plex_scheduled = 1" "sc_stopped plex_scheduled = False" "sc_slots plex_scheduled = no_slots"
  using start_plex [of "idle_sched (demo_desktop False)"]
  by (simp_all add: plex_scheduled_def idle_sched_def job_of_def sched_frame)

lemma plex_again_state:
  "sc_timers plex_again = [full_timer 0, full_timer 1]" "job_of plex_again ''plex-full-scan'' = Some (full_job 1)"
  "sc_stopped plex_again = False"
  using start_jellyfin [of plex_scheduled] start_plex [of "start_jobs demo_clock (server_settings 2) 0 plex_scheduled"]
  by (simp_all add: plex_again_def plex_state sched_frame)

lemma demo_playback:
  "dk_playback (sc_desktop plex_scheduled) = False" "dk_playback (sc_desktop plex_again) = False"
  by (simp_all add: plex_again_def plex_scheduled_def start_jobs_desktop idle_sched_def demo_desktop_def)

lemma full_timer_fires:
  assumes "job_of s ''plex-full-scan'' = Some (full_job m)" "sc_stopped s = False" "dk_playback (sc_desktop s) = False"
  shows "fst (timer_fires (full_timer n) s) = Some (''plex-full-scan'', Heavy)"
  using timer_of_job_fires [of s "full_timer n" "full_job m"] assms
  by (simp add: full_timer_def full_job_def full_scan_def job_entry_def)


lemma plex_worked: "worked prompt demo_clock ([], idle_sched (demo_desktop False)) ([], plex_scheduled)"
  unfolding plex_scheduled_def
  by (rule worked.started [OF worked.rest]) (simp add: idle_sched_def no_leftover_def)

theorem only_shown_timer_fires_witness:
  "\<exists>j. job_of plex_scheduled ''plex-full-scan'' = Some j \<and> sj_timer j = Some 0 \<and> sj_next j = Some 1893456000000"
proof -
  obtain s' where f: "timer_fires (full_timer 0) plex_scheduled = (Some (''plex-full-scan'', Heavy), s')"
    using full_timer_fires [OF plex_state(2,4) demo_playback(1), of 0] by (cases "timer_fires (full_timer 0) plex_scheduled") simp
  have "full_timer 0 \<in> set (sc_timers plex_scheduled)" by (simp add: plex_state)
  from only_shown_timer_fires [OF plex_worked this f]
  show ?thesis by (simp add: full_timer_def full_scan_def job_entry_def) blast
qed

definition plex_busy :: sched where
  "plex_busy = snd (execute_managed ''plex-full-scan'' Heavy plex_scheduled)"

lemma plex_busy_worked:
  "worked prompt demo_clock ([], idle_sched (demo_desktop False)) ([(''plex-full-scan'', Heavy)], plex_busy)"
proof -
  have "execute_managed ''plex-full-scan'' Heavy plex_scheduled = (True, plex_busy)"
    by (simp add: plex_busy_def execute_managed_def sched_admit_def admit_run_def plex_state can_admit_def is_running_def
        no_slots_def Let_def)
  from worked.asked [OF plex_worked this] show ?thesis by simp
qed

theorem scheduler_runs_pool_witness:
  "pool_reached ([(''plex-full-scan'', Heavy)], sc_slots plex_busy) \<and> held_of Heavy [(''plex-full-scan'', Heavy)] \<le> 1"
  using scheduler_runs_pool [OF plex_busy_worked] by simp

theorem stopped_starts_nothing_witness:
  "fst (timer_fires (full_timer 0) (desktop_stop_jobs plex_busy)) = None \<and> sl_pending (sc_slots (desktop_stop_jobs plex_busy)) = []"
  using stopped_starts_nothing [OF plex_busy_worked worked.rest, where t = "full_timer 0"] by simp

theorem playback_defers_witness:
  "\<exists>s'. invoke full_scan (idle_sched (demo_desktop True)) = (None, s') \<and>
     map jd_id (dk_deferred (sc_desktop s')) = [''plex-full-scan'']"
proof -
  let ?s = "idle_sched (demo_desktop True)"
  have "dk_on (sc_desktop ?s)" "dk_playback (sc_desktop ?s)" "jd_weight full_scan = Heavy" "\<not> sc_stopped ?s"
    "distinct (map jd_id (dk_deferred (sc_desktop ?s)))"
    by (simp_all add: idle_sched_def demo_desktop_def full_scan_def job_entry_def)
  from playback_defers [OF this] obtain s' where s': "invoke full_scan ?s = (None, s')" by blast
  have "map jd_id (dk_deferred (sc_desktop (snd (invoke full_scan ?s)))) = [''plex-full-scan'']"
    by (simp add: invoke_def defer_job_def idle_sched_def demo_desktop_def full_scan_def job_entry_def)
  then have "map jd_id (dk_deferred (sc_desktop s')) = [''plex-full-scan'']" by (simp only: s' snd_conv)
  with s' show ?thesis by (intro exI conjI)
qed

definition launch_rows :: "job_state list" where
  "launch_rows = [\<lparr>jx_job_id = ''plex-full-scan'', jx_started = None, jx_succeeded = Some ''1970-01-01 00:00:00.500'',
     jx_failed = None, jx_cancelled = None, jx_summary = None, jx_failures = 0\<rparr>]"

theorem catch_up_only_missed_witness:
  "\<exists>e t. parse_cron (\<lambda>_. None) ''0 0 3 * * *'' = Inr e \<and> 500 < t \<and> t \<le> 90000000 \<and> fires e (unix_zone 0) t"
proof -
  have state: "execution_state launch_rows ''plex-full-scan'' = (Some 500, None)" by code_simp
  have due: "due_at_launch demo_clock launch_rows 90000000 (full_scan, ''0 0 3 * * *'')" by code_simp
  have zone: "steady_zone (ck_zone demo_clock) 0 400000 0" unfolding demo_clock_def by (simp add: unix_clock.steady_zone_axioms)
  from catch_up_only_missed [OF zone due, of 500 None] state show ?thesis
    by (auto simp: demo_clock_def full_scan_def job_entry_def l_day_def DAY_MS_def)
qed

end
