(* ===== verification/Scan_Runs.thy ===== *)
theory Scan_Runs
  imports Media "HOL-Library.AList"
begin

section \<open>Runs of a scanner\<close>

text \<open>
  \<open>src/backend-rs/src/jobs/scanbase.rs\<close>: the status board of each scanner, the session a run holds it with and
  the loop over bundles of titles. A board outlives its run; a run of the same scanner that starts later takes
  it over. The state has the boards, the number of the last session, the jobs that were cancelled and what
  each job shows. Two titles of a bundle are processed at a time and anything may happen meanwhile, so what a
  bundle and the pause after it do to the boards is a parameter (\<open>work\<close>).
\<close>

subsection \<open>Boards\<close>

record scan_kind =
  kd_id :: string
  kd_label :: string
  kd_current_key :: string
  kd_list_key :: string
  kd_defer_resets :: bool

definition library_kind :: "string \<Rightarrow> string \<Rightarrow> scan_kind" where
  "library_kind i label = \<lparr>kd_id = i, kd_label = label, kd_current_key = ''currentLibrary'', kd_list_key = ''libraries'',
     kd_defer_resets = False\<rparr>"

definition server_kind :: "string \<Rightarrow> string \<Rightarrow> scan_kind" where
  "server_kind i label = \<lparr>kd_id = i, kd_label = label, kd_current_key = ''currentServer'', kd_list_key = ''servers'',
     kd_defer_resets = True\<rparr>"

record board =
  bd_session :: nat
  bd_running :: bool
  bd_progress :: int
  bd_total :: int
  bd_current :: "json option"
  bd_list :: "json option"
  bd_job :: "nat option"

definition empty_board :: board where
  "empty_board = \<lparr>bd_session = 0, bd_running = False, bd_progress = 0, bd_total = 0, bd_current = None, bd_list = None,
     bd_job = None\<rparr>"

record boards =
  bs_boards :: "(string \<times> board) list"
  bs_sessions :: nat
  bs_cancelled :: "nat list"
  bs_shown :: "(nat \<times> jmap) list"

definition board_running :: "boards \<Rightarrow> board \<Rightarrow> bool" where
  "board_running st b \<longleftrightarrow>
     bd_running b \<and> \<not> (case bd_job b of None \<Rightarrow> False | Some job \<Rightarrow> job \<in> set (bs_cancelled st))"

definition board_json :: "boards \<Rightarrow> board \<Rightarrow> scan_kind \<Rightarrow> jmap" where
  "board_json st b kd =
     (let out = put_entries [(''running'', JBool (board_running st b)), (''progress'', JInt (bd_progress b)),
            (''total'', JInt (bd_total b))] [];
          out = (case bd_current b of None \<Rightarrow> out | Some v \<Rightarrow> obj_insert (kd_current_key kd) v out)
      in (case bd_list b of None \<Rightarrow> out | Some v \<Rightarrow> obj_insert (kd_list_key kd) v out))"

definition board_of :: "boards \<Rightarrow> scan_kind \<Rightarrow> board option" where
  "board_of st kd = map_of (bs_boards st) (kd_id kd)"

definition update_board :: "scan_kind \<Rightarrow> (board \<Rightarrow> board) \<Rightarrow> boards \<Rightarrow> boards" where
  "update_board kd change st =
     (let b = change (unwrap_or empty_board (board_of st kd));
          st = st\<lparr>bs_boards := AList.update (kd_id kd) b (bs_boards st)\<rparr>
      in case bd_job b of
           None \<Rightarrow> st
         | Some job \<Rightarrow> st\<lparr>bs_shown := AList.update job (board_json st b kd) (bs_shown st)\<rparr>)"

definition scan_status :: "boards \<Rightarrow> scan_kind \<Rightarrow> jmap" where
  "scan_status st kd = board_json st (unwrap_or empty_board (board_of st kd)) kd"

definition cancel_scan :: "scan_kind \<Rightarrow> boards \<Rightarrow> boards" where
  "cancel_scan kd = update_board kd (\<lambda>b. b\<lparr>bd_running := False\<rparr>)"

subsection \<open>A run\<close>

record scan_run =
  sr_kind :: scan_kind
  sr_session :: nat

definition start_run :: "nat \<Rightarrow> scan_kind \<Rightarrow> boards \<Rightarrow> scan_run \<times> boards" where
  "start_run job kd st =
     (let session = bs_sessions st + 1;
          st = st\<lparr>bs_sessions := session\<rparr>
      in (\<lparr>sr_kind = kd, sr_session = session\<rparr>,
          update_board kd (\<lambda>b. b\<lparr>bd_session := session, bd_running := True, bd_job := Some job\<rparr>) st))"

definition end_run :: "scan_run \<Rightarrow> boards \<Rightarrow> boards" where
  "end_run run = update_board (sr_kind run)
     (\<lambda>b. if bd_session b = sr_session run then b\<lparr>bd_running := False\<rparr> else b)"

definition check_run :: "scan_run \<Rightarrow> boards \<Rightarrow> (string, unit) res" where
  "check_run run st =
     (let (running, session) = (case board_of st (sr_kind run) of
            None \<Rightarrow> (False, 0) | Some b \<Rightarrow> (board_running st b, bd_session b))
      in if \<not> running then Inl ''Sync was aborted.''
         else if session \<noteq> sr_session run then Inl ''New session was started. Old session aborted.''
         else Inr ())"

definition set_progress :: "scan_run \<Rightarrow> nat \<Rightarrow> boards \<Rightarrow> boards" where
  "set_progress run n = update_board (sr_kind run) (\<lambda>b. b\<lparr>bd_progress := min (int n) (2 ^ 63 - 1)\<rparr>)"

definition set_total :: "scan_run \<Rightarrow> int \<Rightarrow> boards \<Rightarrow> boards" where
  "set_total run n = update_board (sr_kind run) (\<lambda>b. b\<lparr>bd_total := n\<rparr>)"

definition set_current :: "scan_run \<Rightarrow> json \<Rightarrow> boards \<Rightarrow> boards" where
  "set_current run v = update_board (sr_kind run) (\<lambda>b. b\<lparr>bd_current := Some v\<rparr>)"

definition set_list :: "scan_run \<Rightarrow> json list \<Rightarrow> boards \<Rightarrow> boards" where
  "set_list run vs = update_board (sr_kind run) (\<lambda>b. b\<lparr>bd_list := Some (JArr vs)\<rparr>)"

definition BUNDLE_SIZE :: nat where
  "BUNDLE_SIZE = 20"

text \<open>The loop over bundles from \<open>start\<close> on, with the bundles it processed.\<close>

partial_function (option) bundles_from ::
  "scan_run \<Rightarrow> ('i list \<Rightarrow> boards \<Rightarrow> boards) \<Rightarrow> 'i list \<Rightarrow> nat \<Rightarrow> nat \<Rightarrow> boards
     \<Rightarrow> ((string, unit) res \<times> 'i list list \<times> boards) option" where
  "bundles_from run work items bundle start st =
     (case check_run run st of
        Inl e \<Rightarrow> Some (Inl e, [], st)
      | Inr _ \<Rightarrow>
          if length items \<le> start then Some (Inr (), [], st)
          else Option.bind
            (bundles_from run work items bundle (start + bundle)
               (work (take bundle (drop start items)) (set_progress run start st)))
            (\<lambda>(r, cs, st). Some (r, take bundle (drop start items) # cs, st)))"

definition bundles ::
  "scan_run \<Rightarrow> ('i list \<Rightarrow> boards \<Rightarrow> boards) \<Rightarrow> 'i list \<Rightarrow> nat \<Rightarrow> boards
     \<Rightarrow> ((string, unit) res \<times> 'i list list \<times> boards) option" where
  "bundles run work items bundle st = bundles_from run work items bundle 0 st"

subsection \<open>Helpers\<close>

fun uniq_from :: "('a \<Rightarrow> 'a \<Rightarrow> bool) \<Rightarrow> 'a list \<Rightarrow> 'a list \<Rightarrow> 'a list" where
  "uniq_from same [] out = out"
| "uniq_from same (x # xs) out = uniq_from same xs (if list_ex (same x) out then out else out @ [x])"

definition uniq_with :: "('a \<Rightarrow> 'a \<Rightarrow> bool) \<Rightarrow> 'a list \<Rightarrow> 'a list" where
  "uniq_with same items = uniq_from same items []"

definition parse_scan_date :: "string \<Rightarrow> int option" where
  "parse_scan_date t =
     (let zero = ''+00:00''
      in parse_date_millis
           (if length zero \<le> length t \<and> drop (length t - length zero) t = zero
            then take (length t - length zero) t @ ''Z'' else t))"

subsection \<open>What the loop does\<close>

lemma board_of_update: "board_of (update_board kd f st) kd' =
    (if kd_id kd' = kd_id kd then Some (f (unwrap_or empty_board (board_of st kd))) else board_of st kd')"
  by (auto simp: update_board_def board_of_def Let_def update_conv' split: option.split)

lemma cancelled_update [simp]: "bs_cancelled (update_board kd f st) = bs_cancelled st"
  by (simp add: update_board_def Let_def split: option.split)

lemma check_run_ok: "check_run run st = Inr () \<longleftrightarrow>
    (\<exists>b. board_of st (sr_kind run) = Some b \<and> board_running st b \<and> bd_session b = sr_session run)"
  by (auto simp: check_run_def split: option.splits)

lemma bundles_from_ends:
  assumes "0 < bundle"
  shows "\<exists>r cs st'. bundles_from run work items bundle start st = Some (r, cs, st') \<and>
    concat cs = take (length (concat cs)) (drop start items) \<and> list_all (\<lambda>c. length c \<le> bundle) cs \<and>
    (r = Inr () \<longrightarrow> concat cs = drop start items) \<and> (\<forall>e. r = Inl e \<longrightarrow> check_run run st' = Inl e)"
  using assms
proof (induction "length items - start" arbitrary: start st rule: less_induct)
  case less
  show ?case
  proof (cases "check_run run st")
    case (Inl e)
    then show ?thesis by (subst bundles_from.simps) simp
  next
    case (Inr u)
    show ?thesis
    proof (cases "length items \<le> start")
      case True
      then show ?thesis using Inr by (subst bundles_from.simps) simp
    next
      case False
      define chunk where "chunk = take bundle (drop start items)"
      have "length items - (start + bundle) < length items - start" using False less.prems by simp
      from less.hyps [OF this less.prems]
      obtain r cs st' where ih: "bundles_from run work items bundle (start + bundle) (work chunk (set_progress run start st)) = Some (r, cs, st')"
        "concat cs = take (length (concat cs)) (drop (start + bundle) items)" "list_all (\<lambda>c. length c \<le> bundle) cs"
        "r = Inr () \<longrightarrow> concat cs = drop (start + bundle) items" "\<forall>e. r = Inl e \<longrightarrow> check_run run st' = Inl e" by blast
      have all: "bundles_from run work items bundle start st = Some (r, chunk # cs, st')"
        using Inr False ih(1) by (subst bundles_from.simps) (simp add: chunk_def)
      have split: "drop start items = chunk @ drop (start + bundle) items"
        by (simp add: chunk_def add.commute flip: drop_drop)
      have "concat (chunk # cs) = take (length (concat (chunk # cs))) (drop start items)"
        unfolding split using ih(2) by simp
      moreover have "list_all (\<lambda>c. length c \<le> bundle) (chunk # cs)" using ih(3) by (simp add: chunk_def)
      moreover have "r = Inr () \<longrightarrow> concat (chunk # cs) = drop start items" using ih(4) split by simp
      ultimately show ?thesis using all ih(5) by blast
    qed
  qed
qed

text \<open>
  C25 A scan comes to an end: whatever its titles, and whatever happens to the boards meanwhile, the loop over
  bundles returns. It processed a beginning of the titles in their order, each once and at most a bundle at a
  time; all of them unless it was stopped, and it is stopped only by the reason its board gives.
\<close>

lemma bundles_terminate:
  assumes "0 < bundle"
  shows "\<exists>r cs st'. bundles run work items bundle st = Some (r, cs, st') \<and>
    concat cs = take (length (concat cs)) items \<and> (\<forall>c \<in> set cs. length c \<le> bundle) \<and>
    (r = Inr () \<longrightarrow> concat cs = items) \<and> (\<forall>e. r = Inl e \<longrightarrow> check_run run st' = Inl e)"
  using bundles_from_ends [OF assms, of run work items 0 st] by (simp add: bundles_def list_all_iff)

subsection \<open>What may happen to the boards\<close>

text \<open>Everything the runs, the routes and the jobs of the server do to the boards, as events in any order.\<close>

datatype board_event = Starts nat scan_kind | Ends scan_run | Cancels scan_kind | StopsJob nat
  | Progress scan_run nat | Total scan_run int | Current scan_run json | Listing scan_run "json list"

fun happen :: "board_event \<Rightarrow> boards \<Rightarrow> boards" where
  "happen (Starts job kd) st = snd (start_run job kd st)"
| "happen (Ends run) st = end_run run st"
| "happen (Cancels kd) st = cancel_scan kd st"
| "happen (StopsJob job) st = st\<lparr>bs_cancelled := job # bs_cancelled st\<rparr>"
| "happen (Progress run n) st = set_progress run n st"
| "happen (Total run n) st = set_total run n st"
| "happen (Current run v) st = set_current run v st"
| "happen (Listing run vs) st = set_list run vs st"

text \<open>An event that is neither the end nor the cancel of a run with that job, nor the start of another of its scanner.\<close>

fun spares :: "scan_run \<Rightarrow> nat \<Rightarrow> board_event \<Rightarrow> bool" where
  "spares run job (Starts _ kd) \<longleftrightarrow> kd_id kd \<noteq> kd_id (sr_kind run)"
| "spares run job (Ends r) \<longleftrightarrow> kd_id (sr_kind r) \<noteq> kd_id (sr_kind run) \<or> sr_session r \<noteq> sr_session run"
| "spares run job (Cancels kd) \<longleftrightarrow> kd_id kd \<noteq> kd_id (sr_kind run)"
| "spares run job (StopsJob j) \<longleftrightarrow> j \<noteq> job"
| "spares run job _ \<longleftrightarrow> True"

definition holds :: "scan_run \<Rightarrow> nat \<Rightarrow> boards \<Rightarrow> bool" where
  "holds run job st \<longleftrightarrow> job \<notin> set (bs_cancelled st) \<and>
     (\<exists>b. board_of st (sr_kind run) = Some b \<and> bd_running b \<and> bd_session b = sr_session run \<and> bd_job b = Some job)"

definition replaced_run :: "scan_run \<Rightarrow> boards \<Rightarrow> bool" where
  "replaced_run run st \<longleftrightarrow> sr_session run \<le> bs_sessions st \<and>
     (\<exists>b. board_of st (sr_kind run) = Some b \<and> sr_session run < bd_session b)"

lemma boards_update: "map_of (bs_boards (update_board kd f st)) i =
    (if i = kd_id kd then Some (f (unwrap_or empty_board (map_of (bs_boards st) i))) else map_of (bs_boards st) i)"
  using board_of_update [of kd f st "kd\<lparr>kd_id := i\<rparr>"] by (simp add: board_of_def)

lemma sessions_update [simp]: "bs_sessions (update_board kd f st) = bs_sessions st"
  by (simp add: update_board_def Let_def split: option.split)

lemmas board_events = end_run_def cancel_scan_def set_progress_def set_total_def set_current_def set_list_def
  start_run_def Let_def boards_update board_of_def

lemma holds_step:
  assumes "holds run job st" "spares run job ev"
  shows "holds run job (happen ev st)"
  using assms by (cases ev) (auto simp: holds_def board_events)

lemma holds_course: "holds run job st \<Longrightarrow> list_all (spares run job) evs \<Longrightarrow> holds run job (fold happen evs st)"
  using holds_step by (induction evs arbitrary: st) simp_all

lemma replaced_step: "replaced_run old st \<Longrightarrow> replaced_run old (happen ev st)"
  by (cases ev) (auto simp: replaced_run_def board_events)

lemma replaced_course: "replaced_run old st \<Longrightarrow> replaced_run old (fold happen evs st)"
  using replaced_step by (induction evs arbitrary: st) simp_all

lemma start_run_holds:
  assumes "start_run job kd st = (run, st')" "job \<notin> set (bs_cancelled st)"
  shows "holds run job st'" "sr_kind run = kd" "sr_session run = bs_sessions st + 1"
    "kd_id (sr_kind old) = kd_id kd \<Longrightarrow> sr_session old \<le> bs_sessions st \<Longrightarrow> replaced_run old st'"
  using assms by (auto simp: board_events holds_def replaced_run_def)

lemma replaced_check:
  assumes "replaced_run old st"
  shows "check_run old st \<noteq> Inr ()"
  using assms by (auto simp: replaced_run_def check_run_ok)

lemma holds_check:
  assumes "holds run job st"
  shows "check_run run st = Inr ()"
    "kd_id (sr_kind old) = kd_id (sr_kind run) \<Longrightarrow> sr_session old \<noteq> sr_session run \<Longrightarrow>
       check_run old st = Inl ''New session was started. Old session aborted.''"
  using assms by (auto simp: holds_def check_run_def board_running_def board_of_def)

lemma stopped_check:
  assumes "holds run job st" "kd_id (sr_kind r) = kd_id (sr_kind run)" "ev \<in> {Ends run, Cancels (sr_kind run), StopsJob job}"
  shows "check_run r (happen ev st) = Inl ''Sync was aborted.''"
  using assms by (auto simp: holds_def check_run_def board_running_def board_events)

text \<open>
  C24 A scanner has one run: once a run starts, an earlier run of the same scanner never passes a check again,
  whatever happens to the boards after that (starts, ends and cancels of any run, cancelled jobs, progress). Until
  the new run ends, is cancelled, its job is cancelled or another run of the scanner starts, it passes every check
  and the earlier one, its own end included, hears that a new session started; at such an end or cancel both
  hear that the sync was aborted.
\<close>

theorem new_run_takes_over:
  assumes s: "start_run job kd st = (run, st')" "job \<notin> set (bs_cancelled st)"
    and o: "kd_id (sr_kind old) = kd_id kd" "sr_session old \<le> bs_sessions st"
  shows "check_run old (fold happen evs st') \<noteq> Inr () \<and>
    (list_all (spares run job) evs \<longrightarrow>
      check_run run (fold happen evs st') = Inr () \<and>
      check_run old (fold happen evs st') = Inl ''New session was started. Old session aborted.'' \<and>
      (\<forall>ev\<in>{Ends run, Cancels (sr_kind run), StopsJob job}.
        check_run run (happen ev (fold happen evs st')) = Inl ''Sync was aborted.'' \<and>
        check_run old (happen ev (fold happen evs st')) = Inl ''Sync was aborted.''))"
proof (intro conjI impI)
  note start = start_run_holds [OF s]
  show "check_run old (fold happen evs st') \<noteq> Inr ()"
    using replaced_check replaced_course start(4) o by blast
  assume e: "list_all (spares run job) evs"
  note h = holds_course [OF start(1) e]
  have old: "kd_id (sr_kind old) = kd_id (sr_kind run)" "sr_session old \<noteq> sr_session run" using start(2,3) o by simp_all
  show "check_run run (fold happen evs st') = Inr ()"
    "check_run old (fold happen evs st') = Inl ''New session was started. Old session aborted.''"
    using holds_check [OF h] old by blast+
  show "\<forall>ev\<in>{Ends run, Cancels (sr_kind run), StopsJob job}.
      check_run run (happen ev (fold happen evs st')) = Inl ''Sync was aborted.'' \<and>
      check_run old (happen ev (fold happen evs st')) = Inl ''Sync was aborted.''"
    using stopped_check [OF h] old(1) by blast
qed

subsection \<open>Examples\<close>

definition demo_kind :: scan_kind where
  "demo_kind = server_kind ''sonarr-scan'' ''Sonarr Scan''"

definition no_boards :: boards where
  "no_boards = \<lparr>bs_boards = [], bs_sessions = 0, bs_cancelled = [], bs_shown = []\<rparr>"

text \<open>Five titles in bundles of two; the second bundle sees another run start.\<close>

definition taken_over :: "int list \<Rightarrow> boards \<Rightarrow> boards" where
  "taken_over chunk st = (if 3 \<in> set chunk then snd (start_run 8 demo_kind st) else st)"

definition demo_run_bundles :: "((string, unit) res \<times> int list list \<times> boards) option" where
  "demo_run_bundles = (let (run, st) = start_run 7 demo_kind no_boards in bundles run taken_over [1, 2, 3, 4, 5] 2 st)"

lemma bundles_terminate_witness:
  "\<exists>r cs st'. demo_run_bundles = Some (r, cs, st') \<and> concat cs = take (length (concat cs)) [1, 2, 3, 4, 5]"
  using bundles_terminate [of 2 "fst (start_run 7 demo_kind no_boards)" taken_over "[1, 2, 3, 4, 5]"
      "snd (start_run 7 demo_kind no_boards)"]
  by (auto simp: demo_run_bundles_def split_def)

theorem new_run_takes_over_witness:
  "check_run (fst (start_run 7 demo_kind no_boards))
     (fold happen [Starts 9 (library_kind ''plex-scan'' ''Plex Scan''), Ends (fst (start_run 7 demo_kind no_boards)), StopsJob 7]
       (snd (start_run 8 demo_kind (snd (start_run 7 demo_kind no_boards))))) =
     Inl ''New session was started. Old session aborted.''"
proof -
  obtain one st1 where s1: "start_run 7 demo_kind no_boards = (one, st1)" by (rule prod.exhaust)
  obtain two st2 where s2: "start_run 8 demo_kind st1 = (two, st2)" by (rule prod.exhaust)
  have o: "kd_id (sr_kind one) = kd_id demo_kind" "sr_session one \<le> bs_sessions st1" "8 \<notin> set (bs_cancelled st1)"
    using s1 by (auto simp: start_run_def update_board_def Let_def no_boards_def split: option.splits)
  have "list_all (spares two 8) [Starts 9 (library_kind ''plex-scan'' ''Plex Scan''), Ends one, StopsJob 7]"
    using s1 s2 by (auto simp: start_run_def Let_def library_kind_def demo_kind_def server_kind_def)
  then show ?thesis using new_run_takes_over [OF s2 o(3,1,2)] by (simp only: s1 s2 fst_conv snd_conv)
qed

end
