(* ===== verification/Tag_Blocklist.thy ===== *)
theory Tag_Blocklist
  imports Blocklist
begin

section \<open>Blocklisting by keyword\<close>

text \<open>
  \<open>src/backend-rs/src/jobs/blocklisted_tags.rs\<close>: the job pages TMDB's discover results of every blocklisted
  keyword and blocklists each title. TMDB may answer another thing at every call and the run may be cancelled
  at any: \<open>discover\<close> gives the answer and the cancellation by the number of calls so far. The loop over the
  pages changes its own bound, so it is a partial function; that it returns is proved in \<open>Blocklist_Props\<close>.
  The status shown meanwhile is left out but for the progress count; page counts are exact (TMDB sends whole
  numbers far below \<open>2\<^sup>5\<^sup>3\<close>).
\<close>

subsection \<open>Reading the pages\<close>

definition COMMON_SORT :: "string list" where
  "COMMON_SORT = [''popularity.desc'', ''popularity.asc'', ''vote_average.desc'', ''vote_average.asc'',
     ''vote_count.desc'', ''vote_count.asc'']"

definition MOVIE_SORT :: "string list" where
  "MOVIE_SORT = COMMON_SORT @ [''release_date.desc'', ''release_date.asc'', ''revenue.desc'', ''revenue.asc'',
     ''primary_release_date.desc'', ''primary_release_date.asc'', ''original_title.desc'', ''original_title.asc'']"

definition TV_SORT :: "string list" where
  "TV_SORT = COMMON_SORT @ [''first_air_date.desc'', ''first_air_date.asc'', ''original_name.desc'', ''original_name.asc'']"

record hit =
  ht_tmdb_id :: int
  ht_media_type :: string
  ht_title :: "string option"
  ht_keyword :: string

record discover =
  dc_page :: "nat \<Rightarrow> string \<Rightarrow> int \<Rightarrow> string \<Rightarrow> string \<Rightarrow> (string, json) res"
  dc_cancelled :: "nat \<Rightarrow> bool"
  dc_keyword :: "string \<Rightarrow> (string, bool) res"

definition same_hit :: "hit \<Rightarrow> hit \<Rightarrow> bool" where
  "same_hit h g \<longleftrightarrow> ht_tmdb_id h = ht_tmdb_id g \<and> ht_media_type h = ht_media_type g \<and> ht_keyword h = ht_keyword g"

definition read_hit :: "string \<Rightarrow> string \<Rightarrow> json \<Rightarrow> hit option" where
  "read_hit mt tag entry =
     map_option (\<lambda>i. \<lparr>ht_tmdb_id = i, ht_media_type = mt,
         ht_title = Option.bind (opt_or (jget entry ''title'') (jget entry ''name'')) as_str, ht_keyword = tag\<rparr>)
       (Option.bind (jget entry ''id'') as_i64)"

definition push_hit :: "hit \<Rightarrow> hit list \<Rightarrow> hit list" where
  "push_hit h hits = (if list_ex (\<lambda>g. same_hit g h) hits then hits else hits @ [h])"

definition collect_hits :: "json \<Rightarrow> string \<Rightarrow> string \<Rightarrow> hit list \<Rightarrow> hit list" where
  "collect_hits response mt tag hits =
     fold (\<lambda>entry hits. case read_hit mt tag entry of None \<Rightarrow> hits | Some h \<Rightarrow> push_hit h hits)
       (unwrap_or [] (Option.bind (jget response ''results'') as_array)) hits"

record tag_run =
  tr_calls :: nat
  tr_query :: int
  tr_max :: int
  tr_fixed :: bool
  tr_progress :: int
  tr_hits :: "hit list"

definition sorts_of :: "string \<Rightarrow> string list" where
  "sorts_of mt = (if mt = ''movie'' then MOVIE_SORT else TV_SORT)"

definition page_of :: "string \<Rightarrow> tag_run \<Rightarrow> int" where
  "page_of mt r = (if tr_fixed r then tr_query r + 1 else tr_query r div int (length (sorts_of mt)) + 1)"

definition sort_of :: "string \<Rightarrow> tag_run \<Rightarrow> string" where
  "sort_of mt r =
     (if tr_fixed r then ''popularity.desc'' else sorts_of mt ! nat (tr_query r mod int (length (sorts_of mt))))"

fun as_f64 :: "json \<Rightarrow> rat option" where
  "as_f64 (JInt n) = Some (of_int n)"
| "as_f64 (JFloat f) = Some f"
| "as_f64 _ = None"

definition whole_pages :: "rat \<Rightarrow> int" where
  "whole_pages n = (if i64_ok \<lfloor>n\<rfloor> then \<lfloor>n\<rfloor> else 0)"

definition saturate :: "int \<Rightarrow> int" where
  "saturate n = max (- (2 ^ 63)) (min (2 ^ 63 - 1) n)"

text \<open>A title list that fits the limit is read page by page from the next page on.\<close>

definition tag_answered :: "string \<Rightarrow> string \<Rightarrow> json \<Rightarrow> tag_run \<Rightarrow> tag_run" where
  "tag_answered mt tag response r =
     (let page = page_of mt r;
          r1 = r\<lparr>tr_hits := collect_hits response mt tag (tr_hits r), tr_progress := tr_progress r + 1\<rparr>;
          fits = (\<lambda>t. page = 1 \<and> (2 ^ 31 \<le> tr_max r \<or> t \<le> of_int (tr_max r)))
      in case opt_filter fits (Option.bind (jget response ''total_pages'') as_f64) of
           None \<Rightarrow> r1
         | Some t \<Rightarrow> r1\<lparr>tr_progress := tr_progress r1 + (tr_max r - whole_pages t), tr_fixed := True,
               tr_max := whole_pages t, tr_query := 0\<rparr>)"

definition tag_step :: "discover \<Rightarrow> string \<Rightarrow> string \<Rightarrow> tag_run \<Rightarrow> tag_run" where
  "tag_step dc mt tag r =
     (let r = (case dc_page dc (tr_calls r) mt (page_of mt r) (sort_of mt r) tag of
            Inl _ \<Rightarrow> r | Inr response \<Rightarrow> tag_answered mt tag response r)
      in r\<lparr>tr_calls := tr_calls r + 1, tr_query := tr_query r + 1\<rparr>)"

partial_function (option) tag_loop :: "discover \<Rightarrow> string \<Rightarrow> string \<Rightarrow> tag_run \<Rightarrow> (bool \<times> tag_run) option" where
  "tag_loop dc mt tag r =
     (if tr_max r \<le> tr_query r then Some (True, r)
      else if dc_cancelled dc (tr_calls r) then Some (False, r)
      else tag_loop dc mt tag (tag_step dc mt tag r))"

definition process_tag ::
  "discover \<Rightarrow> string \<Rightarrow> string \<Rightarrow> int \<Rightarrow> nat \<Rightarrow> int \<Rightarrow> hit list \<Rightarrow> (bool \<times> tag_run) option" where
  "process_tag dc mt tag page_limit calls prog hits =
     tag_loop dc mt tag \<lparr>tr_calls = calls, tr_query = 0, tr_max = saturate (page_limit * int (length (sorts_of mt))),
       tr_fixed = False, tr_progress = prog, tr_hits = hits\<rparr>"

subsection \<open>The keywords\<close>

text \<open>All keywords, with those TMDB does not know; \<open>None\<close> inside when the run was cancelled.\<close>

fun collect_tags ::
  "discover \<Rightarrow> int \<Rightarrow> string list \<Rightarrow> nat \<Rightarrow> int \<Rightarrow> hit list \<Rightarrow> string list
     \<Rightarrow> (string, (hit list \<times> string list) option) res option" where
  "collect_tags dc limit [] calls prog hits invalid = Some (Inr (Some (hits, invalid)))"
| "collect_tags dc limit (tag # tags) calls prog hits invalid =
     (case dc_keyword dc tag of
        Inl e \<Rightarrow> Some (Inl e)
      | Inr False \<Rightarrow> collect_tags dc limit tags calls prog hits
          (if tag \<in> set invalid then invalid else invalid @ [tag])
      | Inr True \<Rightarrow>
          Option.bind (process_tag dc ''movie'' tag limit calls prog hits) (\<lambda>(done1, r).
            if \<not> done1 then Some (Inr None)
            else Option.bind (process_tag dc ''tv'' tag limit (tr_calls r) (tr_progress r) (tr_hits r)) (\<lambda>(done2, r).
              if \<not> done2 then Some (Inr None)
              else collect_tags dc limit tags (tr_calls r) (tr_progress r) (tr_hits r) invalid)))"

text \<open>\<open>main.blocklistedTags\<close> without the keywords TMDB does not know, when that changes it.\<close>

definition clean_invalid :: "string \<Rightarrow> string list \<Rightarrow> string option" where
  "clean_invalid setting invalid =
     (let cleaned = join_with CHR '','' (filter (\<lambda>t. t \<notin> set invalid) (split_on CHR '','' setting))
      in if cleaned = setting then None else Some cleaned)"

subsection \<open>Writing\<close>

fun contains :: "string \<Rightarrow> string \<Rightarrow> bool" where
  "contains [] t \<longleftrightarrow> t = []"
| "contains (c # s) t \<longleftrightarrow> take (length t) (c # s) = t \<or> contains s t"

definition tagged :: "blocklist_entry \<Rightarrow> bool" where
  "tagged e \<longleftrightarrow> bl_tags e \<noteq> None"

definition doomed :: "lists \<Rightarrow> int list" where
  "doomed st = concat (map (\<lambda>m. map (\<lambda>_. m_id m)
     (filter (\<lambda>e. is_entry (m_media_type m) (m_tmdb_id m) e \<and> tagged e) (ls_blocklist st))) (media_table (ls_tables st)))"

definition retag :: "int \<Rightarrow> string \<Rightarrow> blocklist_entry \<Rightarrow> blocklist_entry" where
  "retag i tags x = (if bl_id x = i then x\<lparr>bl_tags := Some tags\<rparr> else x)"

definition process_hit :: "string option \<Rightarrow> hit \<Rightarrow> lists \<Rightarrow> (string, lists) res" where
  "process_hit stamp h st =
     (let mt = ht_media_type h; tmdb_id = ht_tmdb_id h; mark = '','' @ ht_keyword h @ '',''
      in case find (is_entry mt tmdb_id) (ls_blocklist st) of
           Some e \<Rightarrow>
             Inr (case bl_tags e of
                    None \<Rightarrow> st
                  | Some tags \<Rightarrow>
                      if tags \<noteq> [] \<and> \<not> contains tags mark
                      then st\<lparr>ls_blocklist := map (retag (bl_id e) (tags @ ht_keyword h @ '',''))
                             (ls_blocklist st)\<rparr>
                      else st)
         | None \<Rightarrow>
             let media = find (is_title mt tmdb_id) (media_table (ls_tables st))
             in and_then (insert_entry stamp mt (ht_title h) tmdb_id (Some mark) None st) (\<lambda>(st, entry).
                  blocklist_media stamp entry media mt tmdb_id st))"

fun process_hits :: "string option \<Rightarrow> hit list \<Rightarrow> lists \<Rightarrow> (string, lists) res" where
  "process_hits stamp [] st = Inr st"
| "process_hits stamp (h # hs) st = and_then (process_hit stamp h st) (process_hits stamp hs)"

definition clean_blocklist :: "lists \<Rightarrow> lists" where
  "clean_blocklist st = fold (\<lambda>i. on_tables (delete_media i)) (doomed st) st"

definition write_hits :: "string option \<Rightarrow> hit list \<Rightarrow> lists \<Rightarrow> (string, lists) res" where
  "write_hits stamp hits st = process_hits stamp hits (clean_blocklist st)"

text \<open>
  A run: the lists after it and the new value of the setting, none where it stays. A cancelled run and one
  whose write fails leave the lists; a failed one fails after the setting was cleaned.
\<close>

definition process_blocklisted_tags ::
  "discover \<Rightarrow> string option \<Rightarrow> json \<Rightarrow> lists \<Rightarrow> (string option \<times> (string, lists) res) option" where
  "process_blocklisted_tags dc stamp settings st =
     (let setting = unwrap_or [] (Option.bind (jpath [''main'', ''blocklistedTags''] settings) as_str);
          limit = unwrap_or 0 (Option.bind (jpath [''main'', ''blocklistedTagsLimit''] settings) as_i64)
      in if setting = [] then Some (None, write_hits stamp [] st)
         else Option.bind (collect_tags dc limit (split_on CHR '','' setting) 0 0 [] []) (\<lambda>r.
           case r of
             Inl e \<Rightarrow> Some (None, Inl e)
           | Inr None \<Rightarrow> Some (None, Inr st)
           | Inr (Some (hits, invalid)) \<Rightarrow>
               Some (if invalid = [] then None else clean_invalid setting invalid, write_hits stamp hits st)))"

end
