(* ===== verification/Blocklist_Props.thy ===== *)
theory Blocklist_Props
  imports Tag_Blocklist Library_Life
begin

section \<open>What the lists keep\<close>

text \<open>
  The invariant of the blocklist and the watchlist, that every route and the keyword job keep it, what
  adding an entry answers, that a blocklisted title is refused and that removing an entry undoes adding it.
\<close>

subsection \<open>The invariant\<close>

definition title_of :: "blocklist_entry \<Rightarrow> string \<times> int" where
  "title_of e = (bl_media_type e, bl_tmdb_id e)"

definition watch_of :: "watchlist_entry \<Rightarrow> int \<times> string \<times> int option" where
  "watch_of w = (wl_tmdb_id w, wl_media_type w, wl_user w)"

definition entry_ok :: "db \<Rightarrow> blocklist_entry \<Rightarrow> bool" where
  "entry_ok d e \<longleftrightarrow> (case bl_media e of None \<Rightarrow> True
     | Some i \<Rightarrow> list_ex (\<lambda>m. m_id m = i \<and> is_title (bl_media_type e) (bl_tmdb_id e) m) (media_table d))"

definition lists_ok :: "bool \<Rightarrow> lists \<Rightarrow> bool" where
  "lists_ok stated st \<longleftrightarrow> good stated (ls_tables st) \<and>
     fresh bl_id (ls_next_entry st) (ls_blocklist st) \<and> distinct (map title_of (ls_blocklist st)) \<and>
     list_all (entry_ok (ls_tables st)) (ls_blocklist st) \<and>
     fresh wl_id (ls_next_watch st) (ls_watchlist st) \<and> distinct (map watch_of (ls_watchlist st)) \<and>
     list_all (\<lambda>w. media_there (ls_tables st) (wl_media w)) (ls_watchlist st)"

text \<open>Inside a transaction an entry may not have its media row yet; between routes every entry has it.\<close>

definition unlinked :: "lists \<Rightarrow> int set" where
  "unlinked st = set (map bl_id (filter (\<lambda>e. bl_media e = None) (ls_blocklist st)))"

lemma link_to_simps [simp]:
  "bl_id (link_to i k e) = bl_id e" "title_of (link_to i k e) = title_of e" "bl_tags (link_to i k e) = bl_tags e"
  "bl_media_type (link_to i k e) = bl_media_type e" "bl_tmdb_id (link_to i k e) = bl_tmdb_id e"
  "bl_user (link_to i k e) = bl_user e" "bl_media (link_to i k e) = (if bl_id e = i then Some k else bl_media e)"
  by (simp_all add: link_to_def title_of_def)

lemma link_to_others: "\<forall>e \<in> set es. bl_id e \<noteq> i \<Longrightarrow> map (link_to i k) es = es"
  by (rule map_idI) (simp add: link_to_def)

lemma is_entry_title: "is_entry mt i e \<longleftrightarrow> title_of e = (mt, i)"
  by (auto simp: is_entry_def title_of_def)

lemma entry_ok_there: "entry_ok d e \<Longrightarrow> media_there d (bl_media e)"
  by (auto simp: entry_ok_def media_there_def list_ex_iff split: option.splits)

lemma fresh_filter_rows: "fresh f n xs \<Longrightarrow> fresh f n (filter p xs)"
  by (auto simp: fresh_def distinct_map_filter)

lemma distinct_filter_map: "distinct (map f xs) \<Longrightarrow> distinct (map f (filter p xs))"
  by (simp add: distinct_map_filter)

subsection \<open>Changes of the tables\<close>

text \<open>A change that only adds media rows, or changes others than their ids and titles, leaves the lists.\<close>

definition titles_stay :: "db \<Rightarrow> db \<Rightarrow> bool" where
  "titles_stay d d' \<longleftrightarrow> (\<forall>m \<in> set (media_table d). \<exists>m' \<in> set (media_table d').
     m_id m' = m_id m \<and> m_tmdb_id m' = m_tmdb_id m \<and> m_media_type m' = m_media_type m)"

lemma titles_stay_there: "titles_stay d d' \<Longrightarrow> media_there d i \<Longrightarrow> media_there d' i"
  by (fastforce simp: titles_stay_def media_there_def list_ex_iff split: option.splits)

lemma titles_stay_entry: "titles_stay d d' \<Longrightarrow> entry_ok d e \<Longrightarrow> entry_ok d' e"
  by (fastforce simp: titles_stay_def entry_ok_def list_ex_iff is_title_def split: option.splits)

lemma titles_stay_trans: "titles_stay d d1 \<Longrightarrow> titles_stay d1 d2 \<Longrightarrow> titles_stay d d2"
  unfolding titles_stay_def by fastforce

lemma titles_stay_modify:
  assumes "\<And>m. m_id (f m) = m_id m" "\<And>m. m_tmdb_id (f m) = m_tmdb_id m" "\<And>m. m_media_type (f m) = m_media_type m"
  shows "titles_stay d (modify_media i f d)"
  unfolding titles_stay_def
proof
  fix m assume "m \<in> set (media_table d)"
  then have "(if m_id m = i then f m else m) \<in> set (media_table (modify_media i f d))"
    by (auto simp: modify_media_def)
  then show "\<exists>m' \<in> set (media_table (modify_media i f d)). m_id m' = m_id m \<and> m_tmdb_id m' = m_tmdb_id m \<and>
      m_media_type m' = m_media_type m"
    by (rule bexI [rotated]) (simp add: assms)
qed

lemma on_tables_stay:
  assumes "lists_ok st s" "titles_stay (ls_tables s) (f (ls_tables s))"
  shows "on_tables f s = s\<lparr>ls_tables := f (ls_tables s)\<rparr>"
proof -
  have "filter (\<lambda>e. media_there (f (ls_tables s)) (bl_media e)) (ls_blocklist s) = ls_blocklist s"
    using assms titles_stay_there entry_ok_there by (fastforce simp: lists_ok_def list_all_iff filter_id_conv)
  moreover have "filter (\<lambda>w. media_there (f (ls_tables s)) (wl_media w)) (ls_watchlist s) = ls_watchlist s"
    using assms titles_stay_there by (fastforce simp: lists_ok_def list_all_iff filter_id_conv)
  ultimately show ?thesis by (simp add: on_tables_def Let_def)
qed

lemma lists_ok_tables:
  assumes "lists_ok st s" "titles_stay (ls_tables s) d" "good st d"
  shows "lists_ok st (s\<lparr>ls_tables := d\<rparr>)"
  using assms titles_stay_there titles_stay_entry by (fastforce simp: lists_ok_def list_all_iff)

lemma insert_media_good:
  assumes "insert_media stamp d mt tmdb_id tvdb s = (d', i)" "good st d"
  shows "good st d'" "titles_stay d d'" "i = next_media d"
    "\<exists>row. media_table d' = media_table d @ [row] \<and> m_id row = i \<and> is_title mt tmdb_id row \<and>
       m_status row = fst s \<and> m_status4k row = snd s"
    "request_table d' = request_table d"
proof -
  let ?row = "new_media_row stamp (next_media d) mt tmdb_id (free_tvdb_id d tvdb) s"
  have d': "d' = d\<lparr>media_table := media_table d @ [?row], next_media := next_media d + 1\<rparr>" "i = next_media d"
    using assms(1) by (auto simp: insert_media_def Let_def)
  have row: "m_id ?row = next_media d" "is_title mt tmdb_id ?row" "m_status ?row = fst s" "m_status4k ?row = snd s"
    by (simp_all add: new_media_row_def is_title_def)
  have "ids_ok d'" using assms(2) fresh_snoc [of m_id "next_media d" "media_table d" ?row] row
    by (simp add: good_def ids_ok_def all_seasons_def all_episodes_def d')
  moreover have "linked d' q" if "linked d q" for q using that by (auto simp: linked_def d' split: option.splits)
  then have "links_ok d'" using assms(2) by (auto simp: good_def links_ok_def list_all_iff d')
  moreover have "st \<longrightarrow> seasons_apart d'" using assms(2) by (simp add: good_def seasons_apart_def d')
  ultimately show "good st d'" by (simp add: good_def)
  show "titles_stay d d'" by (fastforce simp: titles_stay_def d')
  show "i = next_media d" by (rule d'(2))
  show "\<exists>row. media_table d' = media_table d @ [row] \<and> m_id row = i \<and> is_title mt tmdb_id row \<and>
       m_status row = fst s \<and> m_status4k row = snd s" using row by (auto simp: d')
  show "request_table d' = request_table d" by (simp add: d')
qed

lemma block_title_good:
  assumes b: "block_title stamp media mt tmdb_id d = (d', i)" and g: "good st d"
    and m: "\<And>m. media = Some m \<Longrightarrow> \<exists>m' \<in> set (media_table d). m_id m' = m_id m \<and> is_title mt tmdb_id m'"
  shows "good st d'" "titles_stay d d'" "request_table d' = request_table d"
    "\<exists>m \<in> set (media_table d'). m_id m = i \<and> is_title mt tmdb_id m"
proof -
  have "good st d' \<and> titles_stay d d' \<and> request_table d' = request_table d \<and>
    (\<exists>m \<in> set (media_table d'). m_id m = i \<and> is_title mt tmdb_id m)"
  proof (cases media)
    case None
    then have "insert_media stamp d mt tmdb_id None (M_BLOCKLISTED, M_BLOCKLISTED) = (d', i)"
      using b by (simp add: block_title_def)
    from insert_media_good [OF this g] show ?thesis by auto
  next
    case (Some x)
    let ?f = "\<lambda>x. x\<lparr>m_status := M_BLOCKLISTED, m_status4k := M_BLOCKLISTED, m_updated_at := stamp\<rparr>"
    have d': "d' = d \<or> d' = modify_media (m_id x) ?f d" and i: "i = m_id x"
      using b Some by (auto simp: block_title_def split: if_splits)
    have "tables_quiet d d'" using d' quiet_media [of ?f d "m_id x"] by auto
    then have "good st d'" using g quiet_good by blast
    moreover have t: "titles_stay d d'" using d' titles_stay_modify [of ?f d "m_id x"] by (auto simp: titles_stay_def)
    moreover have "request_table d' = request_table d" using d' by (auto simp: modify_media_def)
    moreover have "\<exists>m \<in> set (media_table d'). m_id m = i \<and> is_title mt tmdb_id m"
      using m [OF Some] t by (fastforce simp: titles_stay_def is_title_def i)
    ultimately show ?thesis by blast
  qed
  then show "good st d'" "titles_stay d d'" "request_table d' = request_table d"
    "\<exists>m \<in> set (media_table d'). m_id m = i \<and> is_title mt tmdb_id m" by blast+
qed

subsection \<open>Entries\<close>

lemma insert_entry_row:
  assumes "insert_entry stamp mt title i tags user s = Inr (s', entry)"
  shows "entry = ls_next_entry s \<and> \<not> entry_exists s mt i \<and>
    s' = s\<lparr>ls_blocklist := ls_blocklist s @ [\<lparr>bl_id = entry, bl_media_type = mt, bl_title = title, bl_tmdb_id = i,
       bl_tags = tags, bl_created_at = stamp, bl_user = user, bl_media = None\<rparr>], ls_next_entry := entry + 1\<rparr>"
  using assms by (auto simp: insert_entry_def Let_def split: if_splits)

lemma insert_entry_ok:
  assumes i: "insert_entry stamp mt title i tags user s = Inr (s', entry)" and ok: "lists_ok st s"
  shows "lists_ok st s'" "\<forall>e \<in> set (ls_blocklist s). bl_id e \<noteq> entry"
proof -
  let ?e = "\<lparr>bl_id = entry, bl_media_type = mt, bl_title = title, bl_tmdb_id = i, bl_tags = tags,
    bl_created_at = stamp, bl_user = user, bl_media = None\<rparr>"
  note r = insert_entry_row [OF i]
  have "fresh bl_id (entry + 1) (ls_blocklist s @ [?e])"
    using ok r fresh_snoc [of bl_id "ls_next_entry s" "ls_blocklist s" ?e] by (simp add: lists_ok_def)
  moreover have t: "title_of ?e = (mt, i)" by (simp add: title_of_def)
  have "(mt, i) \<notin> title_of ` set (ls_blocklist s)"
    using r by (force simp: entry_exists_def list_ex_iff is_entry_title)
  then have "distinct (map title_of (ls_blocklist s @ [?e]))" using ok by (simp add: lists_ok_def t)
  moreover have "entry_ok (ls_tables s) ?e" by (simp add: entry_ok_def)
  ultimately show "lists_ok st s'" using ok r by (simp add: lists_ok_def)
  show "\<forall>e \<in> set (ls_blocklist s). bl_id e \<noteq> entry" using ok r by (auto simp: lists_ok_def fresh_def)
qed

lemma insert_entry_new: "insert_entry stamp mt title i tags user s = Inl e \<longleftrightarrow>
    entry_exists s mt i \<and> e = ''UNIQUE constraint failed: blocklist.tmdbId, blocklist.mediaType''"
  by (auto simp: insert_entry_def Let_def)

text \<open>Linking an entry never breaks the unique key: only the entry of the title can hold a row of the title.\<close>

lemma blocklist_media_ok:
  assumes ok: "lists_ok st s" and e: "e \<in> set (ls_blocklist s)" "title_of e = (mt, i)"
    and m: "\<And>m. media = Some m \<Longrightarrow> \<exists>m' \<in> set (media_table (ls_tables s)). m_id m' = m_id m \<and> is_title mt i m'"
  shows "\<exists>s' k. blocklist_media stamp (bl_id e) media mt i s = Inr s' \<and> lists_ok st s' \<and>
    block_title stamp media mt i (ls_tables s) = (ls_tables s', k) \<and>
    ls_blocklist s' = map (link_to (bl_id e) k) (ls_blocklist s) \<and>
    ls_watchlist s' = ls_watchlist s \<and> titles_stay (ls_tables s) (ls_tables s') \<and>
    request_table (ls_tables s') = request_table (ls_tables s) \<and> ls_next_entry s' = ls_next_entry s \<and>
    ls_next_watch s' = ls_next_watch s"
proof -
  obtain d k where b: "block_title stamp media mt i (ls_tables s) = (d, k)" by (rule prod.exhaust)
  have g: "good st (ls_tables s)" using ok by (simp add: lists_ok_def)
  note bt = block_title_good [OF b g m]
  let ?s1 = "s\<lparr>ls_tables := d\<rparr>"
  have s1: "on_tables (\<lambda>_. d) s = ?s1" by (rule on_tables_stay [OF ok bt(2)])
  have ok1: "lists_ok st ?s1" by (rule lists_ok_tables [OF ok bt(2,1)])
  have ids: "inj_on m_id (set (media_table d))" using bt(1) by (simp add: good_def ids_ok_def fresh_def distinct_map)
  have es: "inj_on bl_id (set (ls_blocklist s))" "inj_on title_of (set (ls_blocklist s))"
    using ok by (simp_all add: lists_ok_def fresh_def distinct_map)
  have same: "x = e" if x: "x \<in> set (ls_blocklist s)" "bl_media x = Some k" for x
  proof -
    have "entry_ok d x" using ok1 x by (simp add: lists_ok_def list_all_iff)
    then obtain m1 where m1: "m1 \<in> set (media_table d)" "m_id m1 = k" "is_title (bl_media_type x) (bl_tmdb_id x) m1"
      using x by (auto simp: entry_ok_def list_ex_iff)
    obtain m2 where m2: "m2 \<in> set (media_table d)" "m_id m2 = k" "is_title mt i m2" using bt(4) by blast
    have "m1 = m2" using inj_onD [OF ids] m1(1,2) m2(1,2) by metis
    then have "title_of x = title_of e" using m1(3) m2(3) e(2) by (simp add: title_of_def is_title_def)
    then show ?thesis using inj_onD [OF es(2)] x(1) e(1) by blast
  qed
  have free: "\<not> list_ex (\<lambda>x. bl_id x \<noteq> bl_id e \<and> bl_media x = Some k) (ls_blocklist s)"
    using same by (auto simp: list_ex_iff)
  let ?f = "link_to (bl_id e) k"
  let ?s2 = "?s1\<lparr>ls_blocklist := map ?f (ls_blocklist s)\<rparr>"
  have r: "blocklist_media stamp (bl_id e) media mt i s = Inr ?s2"
    using free by (simp add: blocklist_media_def b s1 link_entry_def)
  have keys: "map bl_id (map ?f (ls_blocklist s)) = map bl_id (ls_blocklist s)"
    "map title_of (map ?f (ls_blocklist s)) = map title_of (ls_blocklist s)" by simp_all
  have "entry_ok d (?f x)" if x: "x \<in> set (ls_blocklist s)" for x
  proof (cases "bl_id x = bl_id e")
    case True
    then have "x = e" using inj_onD [OF es(1)] x e(1) by blast
    then show ?thesis using bt(4) e(2) by (auto simp: entry_ok_def list_ex_iff title_of_def)
  next
    case False
    then show ?thesis using ok1 x by (simp add: lists_ok_def list_all_iff link_to_def)
  qed
  then have "list_all (entry_ok d) (map ?f (ls_blocklist s))" unfolding list_all_iff set_map by (blast elim: imageE)
  moreover have "distinct (map title_of (map ?f (ls_blocklist s)))" using ok1 unfolding keys(2) by (simp add: lists_ok_def)
  moreover have "fresh bl_id (ls_next_entry s) (map ?f (ls_blocklist s))"
    using ok1 fresh_map_cong [OF _ keys(1)] by (simp add: lists_ok_def)
  ultimately have "lists_ok st ?s2" using ok1 unfolding lists_ok_def by simp
  then show ?thesis using r b bt(2,3) by (intro exI [of _ ?s2] exI [of _ k]) simp
qed

lemma media_by_tmdb_find: "media_by_tmdb d i mt = find (is_title mt i) (media_table d)"
  by (simp add: media_by_tmdb_def is_title_def [abs_def])

lemma found_title:
  "media_by_tmdb d i mt = Some m \<Longrightarrow> \<exists>m' \<in> set (media_table d). m_id m' = m_id m \<and> is_title mt i m'"
  unfolding media_by_tmdb_find by (auto simp: find_Some_iff)

lemma unlinked_insert:
  assumes "insert_entry stamp mt title i tags user s = Inr (s', entry)"
  shows "unlinked s' = insert entry (unlinked s)"
  using insert_entry_row [OF assms] by (auto simp: unlinked_def)

lemma unlinked_link:
  assumes "ls_blocklist s' = map (link_to i k) (ls_blocklist s)"
  shows "unlinked s' = unlinked s - {i}"
proof -
  have "map bl_id (filter (\<lambda>e. bl_media e = None) (map (link_to i k) es)) =
      filter (\<lambda>j. j \<noteq> i) (map bl_id (filter (\<lambda>e. bl_media e = None) es))" for es
    by (induction es) simp_all
  then show ?thesis unfolding unlinked_def assms by auto
qed

text \<open>An entry and its media row, as one title is blocklisted.\<close>

lemma add_entry:
  assumes ok: "lists_ok st s" and new: "\<not> entry_exists s mt i"
    and m: "\<And>m. media = Some m \<Longrightarrow> \<exists>m' \<in> set (media_table (ls_tables s)). m_id m' = m_id m \<and> is_title mt i m'"
  obtains s1 entry s' e k where "insert_entry stamp mt title i tags user s = Inr (s1, entry)"
    "blocklist_media stamp entry media mt i s1 = Inr s'" "lists_ok st s'" "unlinked s' = unlinked s"
    "ls_blocklist s' = ls_blocklist s @ [e]" "title_of e = (mt, i)" "bl_tags e = tags" "bl_user e = user"
    "bl_media e = Some k" "bl_id e = ls_next_entry s" "block_title stamp media mt i (ls_tables s) = (ls_tables s', k)"
    "ls_watchlist s' = ls_watchlist s" "titles_stay (ls_tables s) (ls_tables s')"
    "request_table (ls_tables s') = request_table (ls_tables s)" "ls_next_entry s' = ls_next_entry s + 1"
    "ls_next_watch s' = ls_next_watch s"
proof -
  obtain s1 entry where ins: "insert_entry stamp mt title i tags user s = Inr (s1, entry)"
    using new by (cases "insert_entry stamp mt title i tags user s") (auto simp: insert_entry_new)
  let ?e = "\<lparr>bl_id = entry, bl_media_type = mt, bl_title = title, bl_tmdb_id = i,
    bl_tags = tags, bl_created_at = stamp, bl_user = user, bl_media = None\<rparr>"
  note r = insert_entry_row [OF ins] and ok1 = insert_entry_ok [OF ins ok]
  have e: "?e \<in> set (ls_blocklist s1)" "title_of ?e = (mt, i)" using r by (simp_all add: title_of_def)
  have t: "ls_tables s1 = ls_tables s" using r by simp
  from blocklist_media_ok [OF ok1(1) e, where media = media and stamp = stamp] m
  obtain s' k where l: "blocklist_media stamp entry media mt i s1 = Inr s'" "lists_ok st s'"
    "block_title stamp media mt i (ls_tables s) = (ls_tables s', k)"
    "ls_blocklist s' = map (link_to entry k) (ls_blocklist s1)"
    "ls_watchlist s' = ls_watchlist s1" "titles_stay (ls_tables s) (ls_tables s')"
    "request_table (ls_tables s') = request_table (ls_tables s)" "ls_next_entry s' = ls_next_entry s1"
    "ls_next_watch s' = ls_next_watch s1" by (auto simp: t)
  have b: "ls_blocklist s1 = ls_blocklist s @ [?e]" using r by simp
  have b': "ls_blocklist s' = ls_blocklist s @ [link_to entry k ?e]" unfolding l(4) b using link_to_others [OF ok1(2)] by simp
  have "entry \<notin> unlinked s" using ok1(2) by (auto simp: unlinked_def)
  then have u: "unlinked s' = unlinked s" using unlinked_link [OF l(4)] unlinked_insert [OF ins] by simp
  show thesis
    by (rule that [OF ins l(1,2) u b' _ _ _ _ _ l(3) _ l(6,7)]) (use r l(5,8,9) in \<open>simp_all add: title_of_def\<close>)
qed

subsection \<open>Removals\<close>

lemma entry_survives: "entry_ok d e \<Longrightarrow> media_there (delete_media i d) (bl_media e) \<Longrightarrow> entry_ok (delete_media i d) e"
  by (fastforce simp: entry_ok_def media_there_def delete_media_def list_ex_iff split: option.splits)

lemma drop_media_ok:
  assumes "lists_ok st s"
  shows "lists_ok st (on_tables (delete_media i) s)" "unlinked (on_tables (delete_media i) s) \<subseteq> unlinked s"
  using assms delete_media_good [of st "ls_tables s" i] entry_survives [of "ls_tables s" _ i]
  by (auto simp: lists_ok_def on_tables_def Let_def list_all_iff fresh_filter_rows distinct_filter_map unlinked_def)

lemma take_off_ok:
  assumes "take_off mt i s = (s', b)" "lists_ok st s"
  shows "lists_ok st s'" "unlinked s' \<subseteq> unlinked s" "ls_tables s' = ls_tables s"
  using assms by (auto simp: take_off_def lists_ok_def list_all_iff fresh_filter_rows distinct_filter_map unlinked_def
      split: option.splits)

lemma drop_title_ok:
  assumes "drop_title mt i s = (s', b)" "lists_ok st s"
  shows "lists_ok st s'" "unlinked s' \<subseteq> unlinked s"
  using assms drop_media_ok [OF assms(2)] by (simp_all add: drop_title_def split: option.splits) blast+

lemma remove_part_ok:
  assumes "lists_ok st s"
  shows "lists_ok st (remove_part i s)" "unlinked (remove_part i s) \<subseteq> unlinked s"
proof -
  obtain s1 b where d: "take_off ''movie'' i s = (s1, b)" by (rule prod.exhaust)
  obtain s2 b2 where t: "drop_title ''movie'' i s1 = (s2, b2)" by (rule prod.exhaust)
  note one = take_off_ok [OF d assms] and two = drop_title_ok [OF t take_off_ok(1) [OF d assms]]
  show "lists_ok st (remove_part i s)" "unlinked (remove_part i s) \<subseteq> unlinked s"
    using one two by (auto simp: remove_part_def d t)
qed

lemma fold_ok:
  assumes "\<And>x s. lists_ok st s \<Longrightarrow> lists_ok st (f x s) \<and> unlinked (f x s) \<subseteq> unlinked s" "lists_ok st s"
  shows "lists_ok st (fold f xs s) \<and> unlinked (fold f xs s) \<subseteq> unlinked s"
  using assms(2) by (induction xs arbitrary: s) (use assms(1) in \<open>fastforce+\<close>)

subsection \<open>Collections\<close>

definition added_one :: "lists \<Rightarrow> int \<Rightarrow> int \<Rightarrow> media_row option \<Rightarrow> bool" where
  "added_one s t entry media \<longleftrightarrow> (\<exists>e \<in> set (ls_blocklist s). bl_id e = entry \<and> title_of e = (''movie'', t)) \<and>
     (\<forall>m. media = Some m \<longrightarrow>
        (\<exists>m' \<in> set (media_table (ls_tables s)). m_id m' = m_id m \<and> is_title ''movie'' t m'))"

definition added_ok :: "lists \<Rightarrow> (int \<times> int \<times> media_row option) list \<Rightarrow> bool" where
  "added_ok s added \<longleftrightarrow> list_all (\<lambda>(t, entry, media). added_one s t entry media) added"

definition added_ids :: "(int \<times> int \<times> media_row option) list \<Rightarrow> int set" where
  "added_ids added = set (map (\<lambda>(_, entry, _). entry) added)"

lemma added_one_mono:
  assumes a: "added_one s t entry media" and m: "titles_stay (ls_tables s) (ls_tables s')"
    and e: "\<And>e. e \<in> set (ls_blocklist s) \<Longrightarrow> \<exists>e' \<in> set (ls_blocklist s'). bl_id e' = bl_id e \<and> title_of e' = title_of e"
  shows "added_one s' t entry media"
proof -
  have "\<exists>m'' \<in> set (media_table (ls_tables s')). m_id m'' = m_id x \<and> is_title ''movie'' t m''" if "media = Some x" for x
    using a m that by (fastforce simp: added_one_def titles_stay_def is_title_def)
  moreover obtain x where "x \<in> set (ls_blocklist s)" "bl_id x = entry" "title_of x = (''movie'', t)"
    using a by (auto simp: added_one_def)
  ultimately show ?thesis using e [of x] unfolding added_one_def by metis
qed

lemma added_ok_mono:
  assumes "added_ok s added" "titles_stay (ls_tables s) (ls_tables s')"
    and "\<And>e. e \<in> set (ls_blocklist s) \<Longrightarrow> \<exists>e' \<in> set (ls_blocklist s'). bl_id e' = bl_id e \<and> title_of e' = title_of e"
  shows "added_ok s' added"
  using assms(1) unfolding added_ok_def
  by (rule list.pred_mono_strong) (use added_one_mono [OF _ assms(2,3)] in \<open>auto split: prod.splits\<close>)

lemma collection_entries_ok:
  assumes "collection_entries stamp user before parts s added = Inr (s', added')"
    and "lists_ok st s" "ls_tables s = ls_tables before" "added_ok s added" "unlinked s \<subseteq> U \<union> added_ids added"
  shows "lists_ok st s' \<and> added_ok s' added' \<and> unlinked s' \<subseteq> U \<union> added_ids added'"
  using assms
proof (induction stamp user before parts s added rule: collection_entries.induct)
  case (1 stamp user before s added)
  then show ?case by simp
next
  case (2 stamp user before t title parts s added)
  show ?case
  proof (cases "entry_exists before ''movie'' t")
    case True
    then show ?thesis using 2 by simp
  next
    case False
    then obtain s1 entry where i: "insert_entry stamp ''movie'' title t None (Some user) s = Inr (s1, entry)"
      and rec: "collection_entries stamp user before parts s1
        (added @ [(t, entry, media_by_tmdb (ls_tables before) t ''movie'')]) = Inr (s', added')"
      using 2(3) by (auto elim: and_then_InrE)
    let ?new = "(t, entry, media_by_tmdb (ls_tables before) t ''movie'')"
    note r = insert_entry_row [OF i] and ok1 = insert_entry_ok(1) [OF i 2(4)]
    have t1: "ls_tables s1 = ls_tables before" using r 2(5) by simp
    have "added_ok s1 added" using r by (intro added_ok_mono [OF 2(6)]) (auto simp: titles_stay_def)
    moreover have "added_ok s1 [?new]" using r t1 found_title [of "ls_tables before" t "''movie''"]
      by (simp add: added_ok_def added_one_def title_of_def)
    ultimately have "added_ok s1 (added @ [?new])" by (simp add: added_ok_def)
    moreover have "unlinked s1 \<subseteq> U \<union> added_ids (added @ [?new])"
      using unlinked_insert [OF i] 2(7) by (auto simp: added_ids_def)
    ultimately show ?thesis using 2(2) [OF False rec ok1 t1] by blast
  qed
qed

lemma collection_media_ok:
  "collection_media stamp added s = Inr s' \<Longrightarrow> lists_ok st s \<Longrightarrow> added_ok s added \<Longrightarrow>
   lists_ok st s' \<and> unlinked s' \<subseteq> unlinked s - added_ids added"
proof (induction stamp added s rule: collection_media.induct)
  case (1 stamp s)
  then show ?case by (simp add: added_ids_def)
next
  case (2 stamp t entry media added s)
  obtain s1 where b: "blocklist_media stamp entry media ''movie'' t s = Inr s1"
    and rec: "collection_media stamp added s1 = Inr s'"
    using 2(2) by (auto elim: and_then_InrE)
  from 2(4) obtain e where e: "e \<in> set (ls_blocklist s)" "bl_id e = entry" "title_of e = (''movie'', t)"
    and m: "\<And>m. media = Some m \<Longrightarrow> \<exists>m' \<in> set (media_table (ls_tables s)). m_id m' = m_id m \<and> is_title ''movie'' t m'"
    unfolding added_ok_def added_one_def by auto
  obtain k where k: "lists_ok st s1"
    "ls_blocklist s1 = map (link_to entry k) (ls_blocklist s)"
    "titles_stay (ls_tables s) (ls_tables s1)"
    using blocklist_media_ok [OF 2(3) e(1,3), of media stamp] m b unfolding e(2) by auto
  have "added_ok s added" using 2(4) by (simp add: added_ok_def)
  then have "added_ok s1 added"
  proof (rule added_ok_mono [OF _ k(3)])
    fix x assume "x \<in> set (ls_blocklist s)"
    then show "\<exists>e' \<in> set (ls_blocklist s1). bl_id e' = bl_id x \<and> title_of e' = title_of x"
      unfolding k(2) by (intro bexI [of _ "link_to entry k x"]) simp_all
  qed
  then have "lists_ok st s' \<and> unlinked s' \<subseteq> unlinked s1 - added_ids added" using 2(1) [OF rec k(1)] by blast
  moreover have "added_ids ((t, entry, media) # added) = insert entry (added_ids added)" by (simp add: added_ids_def)
  ultimately show ?case using unlinked_link [OF k(2)] by blast
qed

lemma collection_add_ok:
  assumes "collection_add stamp s viewer raw c = (s', a)" "lists_ok st s" "unlinked s = {}"
  shows "lists_ok st s' \<and> unlinked s' = {}"
proof (cases "s' = s")
  case False
  then obtain user parts s1 added where e: "collection_entries stamp user s parts s [] = Inr (s1, added)"
    and m: "collection_media stamp added s1 = Inr s'"
    using assms(1) by (auto simp: collection_add_def split: sum.splits prod.splits elim!: and_then_InrE)
  have "lists_ok st s1 \<and> added_ok s1 added \<and> unlinked s1 \<subseteq> {} \<union> added_ids added"
    by (rule collection_entries_ok [OF e assms(2) refl]) (use assms(3) in \<open>simp_all add: added_ok_def\<close>)
  then show ?thesis using collection_media_ok [OF m] by blast
qed (use assms in simp)

lemma collection_remove_ok:
  assumes "collection_remove s viewer c = (s', a)" "lists_ok st s"
  shows "lists_ok st s' \<and> unlinked s' \<subseteq> unlinked s"
proof (cases "s' = s")
  case False
  then obtain ids where "s' = fold remove_part ids s"
    using assms(1) by (auto simp: collection_remove_def split: sum.splits)
  then show ?thesis using fold_ok [of st remove_part s ids] remove_part_ok assms(2) by blast
qed (use assms in simp)

subsection \<open>Routes and the keyword job\<close>

lemma blocklist_add_cases:
  assumes "blocklist_add stamp s viewer raw = (s', a)"
  obtains (denied) why where "and_then (authenticated viewer MANAGE_BLOCKLIST) (\<lambda>_. read_blocklist_body raw) = Inl why"
      "s' = s" "a = Inl why"
    | (clash) body where "and_then (authenticated viewer MANAGE_BLOCKLIST) (\<lambda>_. read_blocklist_body raw) = Inr body"
      "user_by_id (ls_tables s) (bb_user body) = None \<or> entry_exists s (bb_media_type body) (bb_tmdb_id body)"
      "s' = s" "a = Inl (Error 409 ''Something wrong'')"
    | (done_) body u s1 entry where
      "and_then (authenticated viewer MANAGE_BLOCKLIST) (\<lambda>_. read_blocklist_body raw) = Inr body"
      "user_by_id (ls_tables s) (bb_user body) = Some u" "\<not> entry_exists s (bb_media_type body) (bb_tmdb_id body)"
      "insert_entry stamp (bb_media_type body) (bb_title body) (bb_tmdb_id body) (bb_tags body) (Some (u_id u)) s =
         Inr (s1, entry)"
      "(s', a) = (case blocklist_media stamp entry (media_by_tmdb (ls_tables s) (bb_tmdb_id body) (bb_media_type body))
         (bb_media_type body) (bb_tmdb_id body) s1 of Inl e \<Rightarrow> (s, Inl (Error 500 e)) | Inr s2 \<Rightarrow> (s2, Inr 201))"
proof (cases "and_then (authenticated viewer MANAGE_BLOCKLIST) (\<lambda>_. read_blocklist_body raw)")
  case (Inl why)
  then show thesis using assms by (intro denied [of why]) (simp_all add: blocklist_add_def)
next
  case (Inr body)
  show thesis
  proof (cases "user_by_id (ls_tables s) (bb_user body)")
    case None
    then show thesis using assms Inr by (intro clash [of body]) (simp_all add: blocklist_add_def)
  next
    case (Some u)
    show thesis
    proof (cases "entry_exists s (bb_media_type body) (bb_tmdb_id body)")
      case True
      then show thesis using assms Inr Some by (intro clash [of body]) (simp_all add: blocklist_add_def Let_def)
    next
      case False
      obtain s1 entry where i: "insert_entry stamp (bb_media_type body) (bb_title body) (bb_tmdb_id body)
          (bb_tags body) (Some (u_id u)) s = Inr (s1, entry)"
        using False insert_entry_new by (metis old.sum.exhaust surj_pair)
      then show thesis using assms Inr Some False by (intro done_ [OF Inr Some False i]) (simp add: blocklist_add_def Let_def)
    qed
  qed
qed

lemma blocklist_add_ok:
  assumes "blocklist_add stamp s viewer raw = (s', a)" "lists_ok st s" "unlinked s = {}"
  shows "lists_ok st s' \<and> unlinked s' = {}"
  using assms(1)
proof (cases rule: blocklist_add_cases)
  case (done_ b u s1 entry)
  show ?thesis
    by (rule add_entry [OF assms(2) done_(3) found_title, of _ stamp "bb_title b" "bb_tags b" "Some (u_id u)"])
      (use done_ assms(3) in \<open>auto\<close>)
qed (use assms in simp_all)

lemma blocklist_delete_ok:
  assumes "blocklist_delete s viewer kind key = (s', a)" "lists_ok st s"
  shows "lists_ok st s' \<and> unlinked s' \<subseteq> unlinked s"
proof (cases "s' = s")
  case False
  then obtain mt i where s': "s' = fst (drop_title mt i (fst (take_off mt i s)))"
    using assms(1) by (auto simp: blocklist_delete_def Let_def split: sum.splits prod.splits if_splits) (metis fst_conv)+
  obtain s1 b where d: "take_off mt i s = (s1, b)" by (rule prod.exhaust)
  obtain s2 b2 where t: "drop_title mt i s1 = (s2, b2)" by (rule prod.exhaust)
  show ?thesis using take_off_ok [OF d assms(2)] drop_title_ok [OF t take_off_ok(1) [OF d assms(2)]] s' d t by auto
qed (use assms in simp)

lemma retag_simps [simp]:
  "bl_id (retag i t e) = bl_id e" "title_of (retag i t e) = title_of e" "bl_media (retag i t e) = bl_media e"
  "entry_ok d (retag i t e) = entry_ok d e"
  by (simp_all add: retag_def title_of_def entry_ok_def split: option.split)

lemma retag_rows:
  "map bl_id (map (retag i t) es) = map bl_id es" "map title_of (map (retag i t) es) = map title_of es"
  "list_all (entry_ok d) (map (retag i t) es) = list_all (entry_ok d) es"
  "map bl_id (filter (\<lambda>e. bl_media e = None) (map (retag i t) es)) = map bl_id (filter (\<lambda>e. bl_media e = None) es)"
  by (induction es) simp_all

lemma retag_ok:
  assumes "lists_ok st s"
  shows "lists_ok st (s\<lparr>ls_blocklist := map (retag i t) (ls_blocklist s)\<rparr>)"
    "unlinked (s\<lparr>ls_blocklist := map (retag i t) (ls_blocklist s)\<rparr>) = unlinked s"
proof -
  have "fresh bl_id n (map (retag i t) es) \<longleftrightarrow> fresh bl_id n es" for n es by (auto simp: fresh_def distinct_map o_def)
  then show "lists_ok st (s\<lparr>ls_blocklist := map (retag i t) (ls_blocklist s)\<rparr>)"
    using assms by (simp add: lists_ok_def retag_rows(2,3) del: map_map)
  show "unlinked (s\<lparr>ls_blocklist := map (retag i t) (ls_blocklist s)\<rparr>) = unlinked s"
    by (simp add: unlinked_def retag_rows(4) del: list.set_map)
qed

lemma process_hit_ok:
  assumes "process_hit stamp h s = Inr s'" "lists_ok st s"
  shows "lists_ok st s' \<and> unlinked s' = unlinked s"
proof (cases "find (is_entry (ht_media_type h) (ht_tmdb_id h)) (ls_blocklist s)")
  case (Some e)
  have "s' = s \<or> (\<exists>t. s' = s\<lparr>ls_blocklist := map (retag (bl_id e) t) (ls_blocklist s)\<rparr>)"
    using assms(1) Some by (auto simp: process_hit_def Let_def split: option.splits if_splits)
  then show ?thesis using assms(2) retag_ok [OF assms(2)] by (elim disjE exE) (simp_all only: simp_thms)
next
  case None
  have "entry_exists s (ht_media_type h) (ht_tmdb_id h) \<longleftrightarrow>
      find (is_entry (ht_media_type h) (ht_tmdb_id h)) (ls_blocklist s) \<noteq> None"
    unfolding entry_exists_def list_ex_iff find_None_iff by blast
  then have new: "\<not> entry_exists s (ht_media_type h) (ht_tmdb_id h)" using None by simp
  let ?mark = "'','' @ ht_keyword h @ '',''"
  let ?media = "media_by_tmdb (ls_tables s) (ht_tmdb_id h) (ht_media_type h)"
  show ?thesis
  proof (rule add_entry [OF assms(2) new found_title, of ?media stamp "ht_title h" "Some ?mark" None])
    fix m assume "?media = Some m" then show "media_by_tmdb (ls_tables s) (ht_tmdb_id h) (ht_media_type h) = Some m" .
  next
    fix s1 entry s2
    assume "insert_entry stamp (ht_media_type h) (ht_title h) (ht_tmdb_id h) (Some ?mark) None s = Inr (s1, entry)"
      "blocklist_media stamp entry ?media (ht_media_type h) (ht_tmdb_id h) s1 = Inr s2" "lists_ok st s2" "unlinked s2 = unlinked s"
    moreover from this(1,2) have "s2 = s'"
      using assms(1) None unfolding process_hit_def media_by_tmdb_find by (simp add: Let_def)
    ultimately show ?thesis by simp
  qed
qed

lemma process_hits_ok:
  "process_hits stamp hs s = Inr s' \<Longrightarrow> lists_ok st s \<Longrightarrow> lists_ok st s' \<and> unlinked s' = unlinked s"
  by (induction stamp hs s rule: process_hits.induct) (auto elim!: and_then_InrE dest: process_hit_ok)

lemma clean_blocklist_ok: "lists_ok st s \<Longrightarrow> lists_ok st (clean_blocklist s) \<and> unlinked (clean_blocklist s) \<subseteq> unlinked s"
  unfolding clean_blocklist_def using fold_ok [of st "\<lambda>i. on_tables (delete_media i)" s "doomed s"] drop_media_ok by blast

lemma write_hits_ok:
  assumes "write_hits stamp hs s = Inr s'" "lists_ok st s"
  shows "lists_ok st s' \<and> unlinked s' \<subseteq> unlinked s"
  using assms process_hits_ok [of stamp hs "clean_blocklist s" s' st] clean_blocklist_ok [of st s]
  by (auto simp: write_hits_def)

lemma watchlist_checks_free:
  "watchlist_checks env s viewer raw = Inr (body, user, v, details, existing) \<Longrightarrow>
     existing = media_by_tmdb (ls_tables s) (wb_tmdb_id body) (wb_media_type body)"
  by (auto simp: watchlist_checks_def Let_def elim!: and_then_InrE split: if_splits)

lemma insert_watch_ok:
  assumes "insert_watch stamp body user k s = Inr (s', i)" "lists_ok st s" "media_there (ls_tables s) (Some k)"
  shows "lists_ok st s' \<and> unlinked s' = unlinked s"
proof -
  let ?w = "\<lparr>wl_id = ls_next_watch s, wl_rating_key = unwrap_or [] (wb_rating_key body), wl_media_type = wb_media_type body,
    wl_title = unwrap_or [] (wb_title body), wl_tmdb_id = wb_tmdb_id body, wl_created_at = stamp, wl_updated_at = stamp,
    wl_user = Some user, wl_media = Some k\<rparr>"
  have s': "s' = s\<lparr>ls_watchlist := ls_watchlist s @ [?w], ls_next_watch := ls_next_watch s + 1\<rparr>"
    and new: "\<not> on_watchlist s (wb_tmdb_id body) (wb_media_type body) user"
    using assms(1) by (auto simp: insert_watch_def Let_def split: if_splits)
  have t: "watch_of ?w = (wb_tmdb_id body, wb_media_type body, Some user)" by (simp add: watch_of_def)
  have "watch_of ?w \<notin> watch_of ` set (ls_watchlist s)"
    using new unfolding t by (force simp: on_watchlist_def list_ex_iff watch_of_def)
  moreover have "fresh wl_id (ls_next_watch s + 1) (ls_watchlist s @ [?w])"
    using assms(2) fresh_snoc [of wl_id "ls_next_watch s" "ls_watchlist s" ?w] by (simp add: lists_ok_def)
  ultimately show ?thesis using assms(2,3) by (simp add: s' lists_ok_def unlinked_def)
qed

lemma watch_title_ok:
  assumes "watch_title env body details existing s = (s', k)" "lists_ok st s"
    and "existing = media_by_tmdb (ls_tables s) (wb_tmdb_id body) (wb_media_type body)"
  shows "lists_ok st s' \<and> unlinked s' = unlinked s \<and> media_there (ls_tables s') (Some k)"
proof (cases existing)
  case None
  then obtain found tvdb d where i: "insert_media (e_stamp env) (ls_tables s) (wb_media_type body) found tvdb
      (M_UNKNOWN, M_UNKNOWN) = (d, k)" and s': "s' = on_tables (\<lambda>_. d) s"
    using assms(1) by (simp add: watch_title_def Let_def split: prod.splits del: jpath.simps)
  have g: "good st (ls_tables s)" using assms(2) by (simp add: lists_ok_def)
  note im = insert_media_good [OF i g]
  have "on_tables (\<lambda>_. d) s = s\<lparr>ls_tables := d\<rparr>" by (rule on_tables_stay [OF assms(2) im(2)])
  then show ?thesis using lists_ok_tables [OF assms(2) im(2,1)] im(4)
    by (auto simp: s' unlinked_def media_there_def list_ex_iff)
next
  case (Some m)
  then have "\<exists>m' \<in> set (media_table (ls_tables s)). m_id m' = m_id m" using assms(3) found_title by metis
  then show ?thesis using Some assms(1,2) by (auto simp: watch_title_def media_there_def list_ex_iff)
qed

lemma watchlist_add_ok:
  assumes "watchlist_add pr env s viewer raw = (s', a)" "lists_ok st s"
  shows "lists_ok st s' \<and> unlinked s' = unlinked s"
proof (cases "watchlist_checks env s viewer raw")
  case (Inl why)
  then show ?thesis using assms by (simp add: watchlist_add_def)
next
  case (Inr c)
  obtain body user v details existing where c: "c = (body, user, v, details, existing)" by (rule prod_cases5)
  obtain s1 k where t: "watch_title env body details existing s = (s1, k)" by (rule prod.exhaust)
  have ok1: "lists_ok st s1 \<and> unlinked s1 = unlinked s \<and> media_there (ls_tables s1) (Some k)"
    by (rule watch_title_ok [OF t assms(2) watchlist_checks_free [OF Inr [unfolded c]]])
  show ?thesis
  proof (cases "insert_watch (e_stamp env) body (cu_id user) k s1")
    case (Inl e)
    then show ?thesis using assms(1) Inr ok1 by (simp add: watchlist_add_def c t)
  next
    case (Inr w)
    obtain s2 i where w: "w = (s2, i)" by (rule prod.exhaust)
    have "s' = s2" using assms(1) \<open>watchlist_checks env s viewer raw = _\<close> Inr
      by (simp add: watchlist_add_def c t w Let_def split: sum.splits prod.splits)
    then show ?thesis using insert_watch_ok [OF Inr [unfolded w]] ok1 by metis
  qed
qed

lemma watchlist_delete_ok:
  assumes "watchlist_delete s viewer kind key = (s', a)" "lists_ok st s"
  shows "lists_ok st s' \<and> unlinked s' = unlinked s"
  using assms by (auto simp: watchlist_delete_def lists_ok_def list_all_iff fresh_filter_rows distinct_filter_map
      unlinked_def split: sum.splits option.splits)

subsection \<open>Every step keeps the lists\<close>

text \<open>
  Between routes the other parts of the server change the tables; a media row keeps its title as long as it is
  there (no statement writes \<open>tmdbId\<close> or \<open>mediaType\<close>).
\<close>

definition titles_kept :: "db \<Rightarrow> db \<Rightarrow> bool" where
  "titles_kept d d' \<longleftrightarrow> list_all (\<lambda>m. list_all (\<lambda>m'. m_id m' = m_id m \<longrightarrow>
     m_tmdb_id m' = m_tmdb_id m \<and> m_media_type m' = m_media_type m) (media_table d')) (media_table d)"

lemma other_ok:
  assumes ok: "lists_ok st s" and t: "titles_kept (ls_tables s) d" and g: "good st d"
  shows "lists_ok st (on_tables (\<lambda>_. d) s)" "unlinked (on_tables (\<lambda>_. d) s) \<subseteq> unlinked s"
proof -
  have "entry_ok d e" if e: "entry_ok (ls_tables s) e" "media_there d (bl_media e)" for e
  proof (cases "bl_media e")
    case (Some i)
    obtain m where m: "m \<in> set (media_table (ls_tables s))" "m_id m = i" "is_title (bl_media_type e) (bl_tmdb_id e) m"
      using e(1) Some by (auto simp: entry_ok_def list_ex_iff)
    obtain m' where m': "m' \<in> set (media_table d)" "m_id m' = i"
      using e(2) Some by (auto simp: media_there_def list_ex_iff)
    have "is_title (bl_media_type e) (bl_tmdb_id e) m'"
      using t m m' by (simp add: titles_kept_def list_all_iff is_title_def)
    then show ?thesis using Some m' by (auto simp: entry_ok_def list_ex_iff)
  qed (simp add: entry_ok_def)
  then show "lists_ok st (on_tables (\<lambda>_. d) s)" using ok g
    by (auto simp: lists_ok_def on_tables_def Let_def list_all_iff fresh_filter_rows distinct_filter_map)
  show "unlinked (on_tables (\<lambda>_. d) s) \<subseteq> unlinked s" by (auto simp: unlinked_def on_tables_def Let_def)
qed

inductive listed :: "bool \<Rightarrow> lists \<Rightarrow> lists \<Rightarrow> bool" for stated :: bool and s :: lists where
  start: "listed stated s s"
| added: "listed stated s s1 \<Longrightarrow> blocklist_add stamp s1 viewer raw = (s2, a) \<Longrightarrow> listed stated s s2"
| removed: "listed stated s s1 \<Longrightarrow> blocklist_delete s1 viewer kind key = (s2, a) \<Longrightarrow> listed stated s s2"
| collection: "listed stated s s1 \<Longrightarrow> collection_add stamp s1 viewer raw c = (s2, a) \<Longrightarrow> listed stated s s2"
| collection_gone: "listed stated s s1 \<Longrightarrow> collection_remove s1 viewer c = (s2, a) \<Longrightarrow> listed stated s s2"
| watched: "listed stated s s1 \<Longrightarrow> watchlist_add pr env s1 viewer raw = (s2, b) \<Longrightarrow> listed stated s s2"
| unwatched: "listed stated s s1 \<Longrightarrow> watchlist_delete s1 viewer kind key = (s2, a) \<Longrightarrow> listed stated s s2"
| tagged_titles: "listed stated s s1 \<Longrightarrow> write_hits stamp hits s1 = Inr s2 \<Longrightarrow> listed stated s s2"
| other: "listed stated s s1 \<Longrightarrow> ran stated (lib, rs) (lib', rs') \<Longrightarrow> tables lib = ls_tables s1 \<Longrightarrow>
    titles_kept (ls_tables s1) (tables lib') \<Longrightarrow> listed stated s (on_tables (\<lambda>_. tables lib') s1)"

inductive_cases listed_step: "listed stated s s'"

lemma listed_ok:
  assumes "listed stated s s'" "lists_ok stated s" "unlinked s = {}"
  shows "lists_ok stated s' \<and> unlinked s' = {}"
  using assms(1)
proof (induction rule: listed.induct)
  case start
  then show ?case using assms(2,3) by simp
next
  case (added s1 stamp viewer raw s2 a)
  then show ?case using blocklist_add_ok by blast
next
  case (removed s1 viewer kind key s2 a)
  then show ?case using blocklist_delete_ok by blast
next
  case (collection s1 stamp viewer raw c s2 a)
  then show ?case using collection_add_ok by blast
next
  case (collection_gone s1 viewer c s2 a)
  then show ?case using collection_remove_ok by blast
next
  case (watched s1 pr env viewer raw s2 b)
  then show ?case using watchlist_add_ok by blast
next
  case (unwatched s1 viewer kind key s2 a)
  then show ?case using watchlist_delete_ok by blast
next
  case (tagged_titles s1 stamp hits s2)
  then show ?case using write_hits_ok by blast
next
  case (other s1 lib rs lib' rs')
  then have "lists_ok stated s1" "unlinked s1 = {}" "good stated (ls_tables s1)" by (simp_all add: lists_ok_def)
  then have "good stated (tables lib')" using ran_good [OF other.hyps(2)] other.hyps(3) by simp
  then show ?case using other_ok [OF \<open>lists_ok stated s1\<close> other.hyps(4)] \<open>unlinked s1 = {}\<close> by auto
qed

text \<open>
  C26 Over any interleaving of the blocklist and watchlist routes, the keyword job and runs of requests, titles and
  scans over the tables (\<open>ran\<close> of \<open>Library_Life\<close>: all of them, or with \<open>stated\<close> those of C2) that give no media row
  another title, a title has one blocklist entry at most, every entry names an existing media row of its own title,
  a user holds a title once on the watchlist, and the tables stay well formed (\<open>good\<close>).
\<close>

theorem lists_stay_linked:
  assumes "listed stated s s'" "lists_ok stated s" "unlinked s = {}"
  shows "distinct (map title_of (ls_blocklist s')) \<and> distinct (map watch_of (ls_watchlist s')) \<and>
    (\<forall>e \<in> set (ls_blocklist s'). \<exists>m \<in> set (media_table (ls_tables s')).
       bl_media e = Some (m_id m) \<and> m_tmdb_id m = bl_tmdb_id e \<and> m_media_type m = bl_media_type e) \<and>
    good stated (ls_tables s')"
proof -
  have ok: "lists_ok stated s'" "unlinked s' = {}" using listed_ok [OF assms] by simp_all
  have "\<exists>m \<in> set (media_table (ls_tables s')). bl_media e = Some (m_id m) \<and> m_tmdb_id m = bl_tmdb_id e \<and>
      m_media_type m = bl_media_type e" if e: "e \<in> set (ls_blocklist s')" for e
  proof (cases "bl_media e")
    case None
    then show ?thesis using ok(2) e by (auto simp: unlinked_def filter_empty_conv)
  next
    case (Some i)
    then show ?thesis using ok(1) e by (fastforce simp: lists_ok_def list_all_iff entry_ok_def list_ex_iff is_title_def)
  qed
  then show ?thesis using ok(1) by (simp add: lists_ok_def)
qed

subsection \<open>What adding answers\<close>

text \<open>
  C28 \<open>POST /blocklist\<close> answers 201 exactly when the viewer may manage the blocklist, the body is one, its user
  exists and the title has no entry yet; every other answer leaves the lists as they were, and is the refusal of
  the viewer or the body, or a 409. It never fails half way.
\<close>

theorem blocklist_add_answers:
  assumes a: "blocklist_add stamp s viewer raw = (s', a)" and ok: "lists_ok st s"
  shows "(a = Inr 201 \<longleftrightarrow> (\<exists>u b v. authenticated viewer MANAGE_BLOCKLIST = Inr u \<and> read_blocklist_body raw = Inr b \<and>
      user_by_id (ls_tables s) (bb_user b) = Some v \<and> \<not> entry_exists s (bb_media_type b) (bb_tmdb_id b))) \<and>
    (a \<noteq> Inr 201 \<longrightarrow> s' = s \<and> (a = Inl (Error 409 ''Something wrong'') \<or>
       (\<exists>why. a = Inl why \<and> and_then (authenticated viewer MANAGE_BLOCKLIST) (\<lambda>_. read_blocklist_body raw) = Inl why)))"
  using a
proof (cases rule: blocklist_add_cases)
  case (denied why)
  then show ?thesis by auto
next
  case (clash body)
  then show ?thesis by (auto elim!: and_then_InrE)
next
  case (done_ body u s1 entry)
  let ?media = "media_by_tmdb (ls_tables s) (bb_tmdb_id body) (bb_media_type body)"
  have "a = Inr 201"
  proof (rule add_entry [OF ok done_(3) found_title, of ?media stamp "bb_title body" "bb_tags body" "Some (u_id u)"])
    fix m assume "?media = Some m" then show "?media = Some m" .
  qed (use done_(4,5) in simp)
  then show ?thesis using done_(1-3) by (auto elim!: and_then_InrE)
qed

subsection \<open>A blocklisted title is refused\<close>

lemma find_keeps: "(\<And>x. p (f x) = p x) \<Longrightarrow> find p (map f xs) = map_option f (find p xs)"
  by (induction xs) simp_all

lemma find_snoc: "find p xs = None \<Longrightarrow> find p (xs @ [y]) = (if p y then Some y else None)"
  by (induction xs) (simp_all split: if_splits)

lemma block_title_found:
  assumes "block_title stamp (media_by_tmdb d i mt) mt i d = (d', k)"
  shows "\<exists>m. media_by_tmdb d' i mt = Some m \<and> m_status m = M_BLOCKLISTED \<and> m_status4k m = M_BLOCKLISTED"
proof (cases "media_by_tmdb d i mt")
  case None
  then have "insert_media stamp d mt i None (M_BLOCKLISTED, M_BLOCKLISTED) = (d', k)" using assms by (simp add: block_title_def)
  then have "media_table d' = media_table d @ [new_media_row stamp (next_media d) mt i None (M_BLOCKLISTED, M_BLOCKLISTED)]"
    by (auto simp: insert_media_def free_tvdb_id_def Let_def)
  then show ?thesis using None by (simp add: media_by_tmdb_find find_snoc) (simp add: new_media_row_def is_title_def)
next
  case (Some m)
  let ?f = "\<lambda>x. if m_id x = m_id m then x\<lparr>m_status := M_BLOCKLISTED, m_status4k := M_BLOCKLISTED, m_updated_at := stamp\<rparr> else x"
  have "find (is_title mt i) (map ?f (media_table d)) = map_option ?f (find (is_title mt i) (media_table d))"
    by (rule find_keeps) (simp add: is_title_def)
  then show ?thesis using Some assms
    by (cases "m_status m \<noteq> M_BLOCKLISTED \<or> m_status4k m \<noteq> M_BLOCKLISTED")
      (auto simp: block_title_def media_by_tmdb_find modify_media_def)
qed

text \<open>
  C27 Once a title is blocklisted, nobody can request it: whoever asks, with whatever body for that title in
  either quality, \<open>POST /request\<close> refuses and changes nothing. Blocklisting itself leaves the requests there are.
\<close>

theorem blocklisted_refused:
  assumes a: "blocklist_add stamp s viewer raw = (s', Inr 201)" and b: "read_blocklist_body raw = Inr b"
    and "lists_ok st s" "rb_media_id body = bb_tmdb_id b" "rb_media_type body = bb_media_type b"
  shows "(\<exists>answer. create_request pr out env (ls_tables s') user body = (ls_tables s', answer, [])) \<and>
    prepare env (ls_tables s') user body \<noteq> Inr p \<and> request_table (ls_tables s') = request_table (ls_tables s) \<and>
    entry_exists s' (bb_media_type b) (bb_tmdb_id b)"
  using a
proof (cases rule: blocklist_add_cases)
  case (done_ b' u s1 entry)
  have b': "b' = b" using done_(1) b by (auto elim!: and_then_InrE)
  let ?media = "media_by_tmdb (ls_tables s) (bb_tmdb_id b) (bb_media_type b)"
  obtain s2 e k where s2: "blocklist_media stamp entry ?media (bb_media_type b) (bb_tmdb_id b) s1 = Inr s2"
    "ls_blocklist s2 = ls_blocklist s @ [e]" "title_of e = (bb_media_type b, bb_tmdb_id b)"
    "block_title stamp ?media (bb_media_type b) (bb_tmdb_id b) (ls_tables s) = (ls_tables s2, k)"
    "request_table (ls_tables s2) = request_table (ls_tables s)"
  proof (rule add_entry [OF assms(3) done_(3) [unfolded b'] found_title, of ?media stamp "bb_title b" "bb_tags b" "Some (u_id u)"])
    fix m assume "?media = Some m" then show "?media = Some m" .
  qed (use done_(4) b' in auto)
  have s': "s' = s2" using done_(5) s2(1) by (simp add: b')
  obtain m where m: "media_by_tmdb (ls_tables s') (rb_media_id body) (rb_media_type body) = Some m" "m_status m = M_BLOCKLISTED"
    using block_title_found [OF s2(4)] s' assms(4,5) by auto
  have p: "prepare env (ls_tables s') user body \<noteq> Inr p" for p
  proof
    assume "prepare env (ls_tables s') user body = Inr p"
    then show False by (rule prepare_steps) (use m plan_media_cases in fastforce)
  qed
  then obtain why where "prepare env (ls_tables s') user body = Inl why"
    by (cases "prepare env (ls_tables s') user body") auto
  then have "create_request pr out env (ls_tables s') user body = (ls_tables s', why, [])"
    by (simp add: create_request_def refused_as_def)
  then show ?thesis using p s2(2,3,5) s' by (auto simp: entry_exists_def is_entry_title)
qed simp_all

subsection \<open>Removing an entry undoes adding it\<close>

lemma least_id_only: "filter p xs = [x] \<Longrightarrow> least_id key p xs = Some (key x)"
  by (simp add: least_id_def)

lemma insert_then_delete:
  assumes g: "good st d" and i: "insert_media stamp d mt i None s = (d', k)"
  shows "delete_media k d' = d\<lparr>next_media := next_media d + 1\<rparr>"
proof -
  have k: "k = next_media d" and d': "d' = d\<lparr>media_table := media_table d @ [new_media_row stamp k mt i None s],
      next_media := k + 1\<rparr>"
    using i by (auto simp: insert_media_def free_tvdb_id_def Let_def)
  have "m_id m \<noteq> k" if "m \<in> set (media_table d)" for m
    using g that by (fastforce simp: good_def ids_ok_def fresh_def k)
  moreover from this have "r_media_id r \<noteq> Some k" if "r \<in> set (request_table d)" for r
    using g that by (fastforce simp: good_def links_ok_def linked_def list_all_iff split: option.splits)
  ultimately show ?thesis by (simp add: delete_media_def d' filter_id_conv new_media_row_def k)
qed

text \<open>
  C29 Blocklisting a title the library does not know and taking it off again leaves everything as it was, but for
  the ids the next rows get.
\<close>

theorem blocklist_round_trip:
  assumes ok: "lists_ok st s" and a: "blocklist_add stamp s viewer raw = (s1, Inr 201)"
    and b: "read_blocklist_body raw = Inr b" and new: "media_by_tmdb (ls_tables s) (bb_tmdb_id b) (bb_media_type b) = None"
  shows "blocklist_delete s1 viewer (Inr (bb_media_type b)) (Inr (bb_tmdb_id b)) =
    (s\<lparr>ls_tables := (ls_tables s)\<lparr>next_media := next_media (ls_tables s) + 1\<rparr>, ls_next_entry := ls_next_entry s + 1\<rparr>, Inr 204)"
  using a
proof (cases rule: blocklist_add_cases)
  case (done_ b' u s0 entry)
  let ?mt = "bb_media_type b" and ?i = "bb_tmdb_id b" and ?d = "ls_tables s"
  obtain v where v: "authenticated viewer MANAGE_BLOCKLIST = Inr v" and b': "b' = b"
    using done_(1) b by (auto elim!: and_then_InrE)
  obtain s2 e k where s2: "blocklist_media stamp entry None ?mt ?i s0 = Inr s2" "ls_blocklist s2 = ls_blocklist s @ [e]"
    "title_of e = (?mt, ?i)" "bl_media e = Some k" "bl_id e = ls_next_entry s"
    "block_title stamp None ?mt ?i ?d = (ls_tables s2, k)" "ls_watchlist s2 = ls_watchlist s"
    "ls_next_entry s2 = ls_next_entry s + 1" "ls_next_watch s2 = ls_next_watch s"
  proof (rule add_entry [OF ok done_(3) [unfolded b'] found_title, of None stamp "bb_title b" "bb_tags b" "Some (u_id u)"])
    fix m :: media_row assume "None = Some m" then show "media_by_tmdb ?d ?i ?mt = Some m" by simp
  qed (use done_(4) b' in auto)
  have s1: "s1 = s2" using done_(5) s2(1) new by (simp add: b')
  have ins: "insert_media stamp ?d ?mt ?i None (M_BLOCKLISTED, M_BLOCKLISTED) = (ls_tables s2, k)"
    using s2(6) by (simp add: block_title_def)
  have g: "good st ?d" using ok by (simp add: lists_ok_def)
  have none: "filter (is_entry ?mt ?i) (ls_blocklist s) = []"
    using done_(3) unfolding b' by (auto simp: entry_exists_def list_ex_iff filter_empty_conv)
  have "filter (is_entry ?mt ?i) (ls_blocklist s1) = [e]" using none s2(2,3) by (simp add: s1 is_entry_title)
  then have l: "least_id bl_id (is_entry ?mt ?i) (ls_blocklist s1) = Some (ls_next_entry s)"
    using least_id_only s2(5) by metis
  have old: "filter (\<lambda>e. bl_id e \<noteq> ls_next_entry s) (ls_blocklist s) = ls_blocklist s"
    using ok by (auto simp: lists_ok_def fresh_def filter_id_conv)
  let ?s3 = "s1\<lparr>ls_blocklist := ls_blocklist s\<rparr>"
  have drop: "take_off ?mt ?i s1 = (?s3, True)" using l old s2(2,5) by (simp add: take_off_def s1)
  obtain row where row: "media_table (ls_tables s2) = media_table ?d @ [row]" "m_id row = k" "is_title ?mt ?i row"
    using insert_media_good(4) [OF ins g] by auto
  have "filter (is_title ?mt ?i) (media_table ?d) = []"
    using new unfolding media_by_tmdb_find find_None_iff filter_empty_conv by blast
  then have "least_id m_id (is_title ?mt ?i) (media_table (ls_tables ?s3)) = Some k"
    using row by (simp add: s1 least_id_only)
  then have drop2: "drop_title ?mt ?i ?s3 = (on_tables (delete_media k) ?s3, True)" by (simp add: drop_title_def)
  have del: "delete_media k (ls_tables s2) = ?d\<lparr>next_media := next_media ?d + 1\<rparr>" by (rule insert_then_delete [OF g ins])
  have there: "media_there (?d\<lparr>next_media := n\<rparr>) x = media_there ?d x" for n x
    by (simp add: media_there_def split: option.split)
  have "filter (\<lambda>e. media_there ?d (bl_media e)) (ls_blocklist s) = ls_blocklist s"
    "filter (\<lambda>w. media_there ?d (wl_media w)) (ls_watchlist s) = ls_watchlist s"
    using ok entry_ok_there by (auto simp: lists_ok_def list_all_iff filter_id_conv)
  then have "on_tables (delete_media k) ?s3 = s\<lparr>ls_tables := ?d\<lparr>next_media := next_media ?d + 1\<rparr>,
      ls_next_entry := ls_next_entry s + 1\<rparr>"
    using s2(7-9) by (simp add: on_tables_def Let_def s1 del there)
  moreover have "entry_exists s1 ?mt ?i" using s2(2,3) by (simp add: s1 entry_exists_def is_entry_title)
  ultimately show ?thesis by (simp add: blocklist_delete_def v drop drop2)
qed simp_all

subsection \<open>Examples\<close>

text \<open>An administrator blocklists a film the library does not know.\<close>

definition demo_lists :: lists where
  "demo_lists = \<lparr>ls_tables = series_users, ls_blocklist = [], ls_watchlist = [], ls_next_entry = 1, ls_next_watch = 1\<rparr>"

definition demo_block :: json where
  "demo_block = JObj [(''tmdbId'', JInt 603), (''mediaType'', JStr ''movie''), (''user'', JInt 2)]"

definition demo_block_body :: blocklist_body where
  "demo_block_body = \<lparr>bb_tmdb_id = 603, bb_media_type = ''movie'', bb_title = None, bb_user = 2, bb_tags = None\<rparr>"

definition demo_blocked :: lists where
  "demo_blocked = fst (blocklist_add None demo_lists (Some demo_admin) (Some demo_block))"

lemma demo_blocklist: "blocklist_add None demo_lists (Some demo_admin) (Some demo_block) = (demo_blocked, Inr 201)"
proof -
  have "snd (blocklist_add None demo_lists (Some demo_admin) (Some demo_block)) = Inr 201" by code_simp
  then show ?thesis unfolding demo_blocked_def by (metis prod.collapse)
qed

lemma demo_block_read: "read_blocklist_body (Some demo_block) = Inr demo_block_body"
  by code_simp

lemma demo_lists_ok: "lists_ok False demo_lists" "unlinked demo_lists = {}"
proof -
  have "ids_ok series_users" "links_ok series_users" by code_simp+
  then show "lists_ok False demo_lists" by (simp add: lists_ok_def demo_lists_def good_def fresh_def)
qed (simp add: unlinked_def demo_lists_def)

lemma demo_listed: "listed False demo_lists demo_blocked"
  by (rule listed.added [OF listed.start demo_blocklist])

lemma demo_blocked_ok: "lists_ok False demo_blocked" "unlinked demo_blocked = {}"
  using listed_ok [OF demo_listed demo_lists_ok] by simp_all

theorem lists_stay_linked_witness:
  "map title_of (ls_blocklist demo_blocked) = [(''movie'', 603)] \<and>
     (\<exists>m \<in> set (media_table (ls_tables demo_blocked)).
       bl_media (hd (ls_blocklist demo_blocked)) = Some (m_id m) \<and> m_tmdb_id m = bl_tmdb_id (hd (ls_blocklist demo_blocked)))"
proof
  show one: "map title_of (ls_blocklist demo_blocked) = [(''movie'', 603)]" by code_simp
  then have "hd (ls_blocklist demo_blocked) \<in> set (ls_blocklist demo_blocked)" by (cases "ls_blocklist demo_blocked") simp_all
  then show "\<exists>m \<in> set (media_table (ls_tables demo_blocked)).
      bl_media (hd (ls_blocklist demo_blocked)) = Some (m_id m) \<and> m_tmdb_id m = bl_tmdb_id (hd (ls_blocklist demo_blocked))"
    using lists_stay_linked [OF demo_listed demo_lists_ok] by blast
qed

theorem blocklist_add_answers_witness:
  "blocklist_add None demo_blocked (Some demo_admin) (Some demo_block) = (demo_blocked, Inl (Error 409 ''Something wrong''))"
proof -
  obtain s' a where r: "blocklist_add None demo_blocked (Some demo_admin) (Some demo_block) = (s', a)" by (rule prod.exhaust)
  have e: "entry_exists demo_blocked ''movie'' 603" by code_simp
  have "authenticated (Some demo_admin) MANAGE_BLOCKLIST = Inr demo_admin" by code_simp
  then have "a \<noteq> Inr 201 \<and> s' = demo_blocked \<and> a = Inl (Error 409 ''Something wrong'')"
    using blocklist_add_answers [OF r demo_blocked_ok(1)] e demo_block_read by (auto simp: demo_block_body_def)
  then show ?thesis using r by simp
qed

theorem blocklisted_refused_witness:
  "\<exists>answer. create_request demo_printing demo_outside demo_env (ls_tables demo_blocked) demo_viewer demo_movie =
     (ls_tables demo_blocked, answer, [])"
  using blocklisted_refused [OF demo_blocklist demo_block_read demo_lists_ok(1), of demo_movie demo_printing demo_outside
      demo_env demo_viewer]
  by (simp add: demo_movie_def demo_block_body_def)

theorem blocklist_round_trip_witness:
  "snd (blocklist_delete demo_blocked (Some demo_admin) (Inr ''movie'') (Inr 603)) = Inr 204 \<and>
   ls_blocklist (fst (blocklist_delete demo_blocked (Some demo_admin) (Inr ''movie'') (Inr 603))) = []"
proof -
  have "media_by_tmdb (ls_tables demo_lists) 603 ''movie'' = None"
    by (simp add: demo_lists_def media_by_tmdb_def series_users_def quota_db_def)
  then show ?thesis using blocklist_round_trip [OF demo_lists_ok(1) demo_blocklist demo_block_read]
    by (simp add: demo_block_body_def demo_lists_def)
qed

end
