(* ===== verification/Tag_Props.thy ===== *)
theory Tag_Props
  imports Blocklist_Props
begin

section \<open>What the keyword job reads and leaves\<close>

text \<open>
  The loop over discover pages returns, though an answer of TMDB moves its bound; it reads every page of a
  keyword that fits the limit; the write at the end replaces what earlier runs blocklisted and nothing else.
\<close>

subsection \<open>The loop returns\<close>

definition page_total :: "json \<Rightarrow> rat option" where
  "page_total response = Option.bind (jget response ''total_pages'') as_f64"

lemma tag_answered_later:
  "page_of mt r \<noteq> 1 \<Longrightarrow> tag_answered mt tag response r =
     r\<lparr>tr_hits := collect_hits response mt tag (tr_hits r), tr_progress := tr_progress r + 1\<rparr>"
  by (simp add: tag_answered_def opt_filter_def split: option.split)

lemma tag_answered_first:
  assumes "page_of mt r = 1"
  shows "tag_answered mt tag response r =
     (let r1 = r\<lparr>tr_hits := collect_hits response mt tag (tr_hits r), tr_progress := tr_progress r + 1\<rparr>
      in case page_total response of
           None \<Rightarrow> r1
         | Some t \<Rightarrow> if 2 ^ 31 \<le> tr_max r \<or> t \<le> of_int (tr_max r)
             then r1\<lparr>tr_progress := tr_progress r1 + (tr_max r - whole_pages t), tr_fixed := True, tr_max := whole_pages t, tr_query := 0\<rparr>
             else r1)"
  using assms by (simp add: tag_answered_def page_total_def opt_filter_def Let_def split: option.split)

text \<open>A step either goes on to the next query, or, on a first page, starts over in the fixed order.\<close>

lemma tag_step_cases:
  obtains (next_) "tr_query (tag_step dc mt tag r) = tr_query r + 1" "tr_max (tag_step dc mt tag r) = tr_max r"
      "tr_fixed (tag_step dc mt tag r) = tr_fixed r" "tr_calls (tag_step dc mt tag r) = tr_calls r + 1"
    | (over) t where "page_of mt r = 1" "tr_query (tag_step dc mt tag r) = 1" "tr_max (tag_step dc mt tag r) = whole_pages t"
      "tr_fixed (tag_step dc mt tag r)" "tr_calls (tag_step dc mt tag r) = tr_calls r + 1"
      "2 ^ 31 \<le> tr_max r \<or> t \<le> of_int (tr_max r)"
proof (cases "dc_page dc (tr_calls r) mt (page_of mt r) (sort_of mt r) tag")
  case (Inl e)
  then show thesis by (intro next_) (simp_all add: tag_step_def)
next
  case (Inr response)
  show thesis
  proof (cases "page_of mt r = 1")
    case True
    show thesis
    proof (cases "\<exists>t. page_total response = Some t \<and> (2 ^ 31 \<le> tr_max r \<or> t \<le> of_int (tr_max r))")
      case True
      then obtain t where "page_total response = Some t" "2 ^ 31 \<le> tr_max r \<or> t \<le> of_int (tr_max r)" by blast
      then show thesis using Inr \<open>page_of mt r = 1\<close>
        by (intro over [of t]) (simp_all add: tag_step_def tag_answered_first Let_def)
    next
      case False
      then show thesis using Inr \<open>page_of mt r = 1\<close>
        by (intro next_) (auto simp: tag_step_def tag_answered_first Let_def split: option.split)
    qed
  next
    case False
    then show thesis using Inr by (intro next_) (simp_all add: tag_step_def tag_answered_later)
  qed
qed

lemma sorts_pos: "0 < int (length (sorts_of mt))"
  by (simp add: sorts_of_def MOVIE_SORT_def TV_SORT_def COMMON_SORT_def)

lemma first_page_early:
  assumes "page_of mt r = 1" "0 \<le> tr_query r" "\<not> tr_fixed r"
  shows "tr_query r < int (length (sorts_of mt))"
  using assms sorts_pos [of mt] by (auto simp: page_of_def zdiv_eq_0_iff)

lemma whole_pages_le: "t \<le> of_int n \<Longrightarrow> 0 \<le> n \<Longrightarrow> whole_pages t \<le> n"
  unfolding whole_pages_def by (simp add: floor_le_iff)

text \<open>In the fixed order the bound stays.\<close>

lemma tag_loop_fixed:
  assumes "tr_fixed r" "1 \<le> tr_query r"
  shows "\<exists>b r'. tag_loop dc mt tag r = Some (b, r') \<and> tr_calls r' \<le> tr_calls r + nat (tr_max r - tr_query r) \<and>
    (\<not> b \<longrightarrow> dc_cancelled dc (tr_calls r'))"
  using assms
proof (induction "nat (tr_max r - tr_query r)" arbitrary: r rule: less_induct)
  case less
  show ?case
  proof (cases "tr_max r \<le> tr_query r \<or> dc_cancelled dc (tr_calls r)")
    case True
    then show ?thesis by (subst tag_loop.simps) auto
  next
    case False
    let ?r = "tag_step dc mt tag r"
    have "page_of mt r \<noteq> 1" using less.prems by (simp add: page_of_def)
    then have s: "tr_query ?r = tr_query r + 1" "tr_max ?r = tr_max r" "tr_fixed ?r = tr_fixed r" "tr_calls ?r = tr_calls r + 1"
      using tag_step_cases [of dc mt tag r] by metis+
    have "nat (tr_max ?r - tr_query ?r) < nat (tr_max r - tr_query r)" using s False by simp
    from less.hyps [OF this] less.prems s
    obtain b r' where "tag_loop dc mt tag ?r = Some (b, r')"
      "tr_calls r' \<le> tr_calls ?r + nat (tr_max ?r - tr_query ?r)" "\<not> b \<longrightarrow> dc_cancelled dc (tr_calls r')" by auto
    then show ?thesis using False s by (subst tag_loop.simps) auto
  qed
qed

text \<open>
  Before it the bound changes once, on a first page: the calls are bounded by the queries of one page, plus the
  limit.
\<close>

lemma tag_loop_returns:
  assumes "\<not> tr_fixed r" "0 \<le> tr_query r"
  shows "\<exists>b r'. tag_loop dc mt tag r = Some (b, r') \<and> (\<not> b \<longrightarrow> dc_cancelled dc (tr_calls r')) \<and>
    (tr_max r < 2 ^ 31 \<longrightarrow> tr_query r \<le> tr_max r \<longrightarrow>
       int (tr_calls r') \<le> int (tr_calls r) + tr_max r + int (length (sorts_of mt)) - tr_query r)"
  using assms
proof (induction "nat (tr_max r - tr_query r)" arbitrary: r rule: less_induct)
  case less
  show ?case
  proof (cases "tr_max r \<le> tr_query r \<or> dc_cancelled dc (tr_calls r)")
    case True
    then show ?thesis using sorts_pos [of mt] by (subst tag_loop.simps) auto
  next
    case False
    let ?r = "tag_step dc mt tag r"
    have unfold: "tag_loop dc mt tag r = tag_loop dc mt tag ?r" using False by (subst tag_loop.simps) simp
    show ?thesis
    proof (cases rule: tag_step_cases [of dc mt tag r, case_names next_ over])
      case next_
      have "nat (tr_max ?r - tr_query ?r) < nat (tr_max r - tr_query r)" using next_ False by simp
      from less.hyps [OF this] less.prems next_
      obtain b r' where "tag_loop dc mt tag ?r = Some (b, r')" "\<not> b \<longrightarrow> dc_cancelled dc (tr_calls r')"
        "tr_max ?r < 2 ^ 31 \<longrightarrow> tr_query ?r \<le> tr_max ?r \<longrightarrow>
          int (tr_calls r') \<le> int (tr_calls ?r) + tr_max ?r + int (length (sorts_of mt)) - tr_query ?r" by auto
      then show ?thesis using unfold next_ False by auto
    next
      case (over t)
      obtain b r' where l: "tag_loop dc mt tag ?r = Some (b, r')"
        "tr_calls r' \<le> tr_calls ?r + nat (tr_max ?r - tr_query ?r)" "\<not> b \<longrightarrow> dc_cancelled dc (tr_calls r')"
        using tag_loop_fixed [of ?r dc mt tag] over by auto
      have "int (tr_calls r') \<le> int (tr_calls r) + tr_max r + int (length (sorts_of mt)) - tr_query r"
        if "tr_max r < 2 ^ 31"
      proof -
        have "whole_pages t \<le> tr_max r" using whole_pages_le over(6) that False less.prems(2) by simp
        moreover have "tr_query r < int (length (sorts_of mt))" by (rule first_page_early [OF over(1) less.prems(2,1)])
        moreover have "int (nat (whole_pages t - 1)) \<le> tr_max r - 1" using calculation False less.prems(2) by simp
        moreover have "tr_calls r' \<le> tr_calls r + 1 + nat (whole_pages t - 1)" using l(2) over(2,3,5) by simp
        then have "int (tr_calls r') \<le> int (tr_calls r) + 1 + int (nat (whole_pages t - 1))"
          using of_nat_mono [where 'a = int] by fastforce
        ultimately show ?thesis by linarith
      qed
      then show ?thesis using unfold l(1,3) by auto
    qed
  qed
qed

text \<open>
  C30 The keyword job ends: whatever TMDB answers at each call and whenever the run is cancelled, the loop over
  the pages of a keyword returns, and the whole run does; a keyword takes at most its limit of pages plus one
  round of sort orders, and stops early only when the run was cancelled.
\<close>

theorem keyword_job_ends:
  "process_blocklisted_tags dc stamp settings s \<noteq> None \<and>
   (\<exists>b r. process_tag dc mt tag limit calls prog hits = Some (b, r) \<and> (\<not> b \<longrightarrow> dc_cancelled dc (tr_calls r)) \<and>
     (0 \<le> limit \<longrightarrow> limit * int (length (sorts_of mt)) < 2 ^ 31 \<longrightarrow>
        int (tr_calls r) \<le> int calls + limit * int (length (sorts_of mt)) + int (length (sorts_of mt))))"
proof
  have returns: "\<exists>b r. process_tag dc mt tag limit calls prog hits = Some (b, r) \<and> (\<not> b \<longrightarrow> dc_cancelled dc (tr_calls r)) \<and>
     (0 \<le> limit \<longrightarrow> limit * int (length (sorts_of mt)) < 2 ^ 31 \<longrightarrow>
        int (tr_calls r) \<le> int calls + limit * int (length (sorts_of mt)) + int (length (sorts_of mt)))"
    for dc mt tag limit calls prog hits
  proof -
    let ?l = "limit * int (length (sorts_of mt))"
    have "saturate ?l = ?l" if "0 \<le> ?l" "?l < 2 ^ 31" using that by (simp add: saturate_def)
    moreover have "0 \<le> limit \<Longrightarrow> 0 \<le> ?l" using sorts_pos [of mt] by simp
    ultimately show ?thesis
      using tag_loop_returns [of "\<lparr>tr_calls = calls, tr_query = 0, tr_max = saturate ?l, tr_fixed = False,
        tr_progress = prog, tr_hits = hits\<rparr>" dc mt tag]
      by (auto simp: process_tag_def)
  qed
  then show "\<exists>b r. process_tag dc mt tag limit calls prog hits = Some (b, r) \<and> (\<not> b \<longrightarrow> dc_cancelled dc (tr_calls r)) \<and>
     (0 \<le> limit \<longrightarrow> limit * int (length (sorts_of mt)) < 2 ^ 31 \<longrightarrow>
        int (tr_calls r) \<le> int calls + limit * int (length (sorts_of mt)) + int (length (sorts_of mt)))" .
  have "collect_tags dc limit tags calls prog hits invalid \<noteq> None" for limit tags calls prog hits invalid
  proof (induction tags arbitrary: calls prog hits invalid)
    case (Cons tag tags)
    obtain b1 r1 where one: "process_tag dc ''movie'' tag limit calls prog hits = Some (b1, r1)" using returns by blast
    obtain b2 r2 where two: "process_tag dc ''tv'' tag limit (tr_calls r1) (tr_progress r1) (tr_hits r1) = Some (b2, r2)"
      using returns by blast
    show ?case using Cons.IH by (simp add: one two split: sum.split bool.split)
  qed simp
  note collected = this
  have bind_some: "x \<noteq> None \<Longrightarrow> (\<And>y. f y \<noteq> None) \<Longrightarrow> Option.bind x f \<noteq> None" for x and f :: "'x \<Rightarrow> 'y option"
    by (cases x) simp_all
  show "process_blocklisted_tags dc stamp settings s \<noteq> None"
    unfolding process_blocklisted_tags_def Let_def
    by (split if_split, intro conjI impI, simp, rule bind_some, rule collected) (simp split: sum.split option.split prod.split)
qed

subsection \<open>What is read\<close>

definition page_answer :: "int \<Rightarrow> json \<Rightarrow> bool" where
  "page_answer k response \<longleftrightarrow> jget response ''total_pages'' = Some (JInt k)"

definition read_pages :: "string \<Rightarrow> string \<Rightarrow> (int \<Rightarrow> json) \<Rightarrow> int \<Rightarrow> int \<Rightarrow> hit list \<Rightarrow> hit list" where
  "read_pages mt tag pages i j hits = fold (\<lambda>p. collect_hits (pages p) mt tag) [i..j] hits"

lemma sort_first: "\<not> tr_fixed r \<Longrightarrow> tr_query r = 0 \<Longrightarrow> sort_of mt r = ''popularity.desc'' \<and> page_of mt r = 1"
  by (simp add: sort_of_def page_of_def sorts_of_def MOVIE_SORT_def TV_SORT_def COMMON_SORT_def)

lemma sort_second: "\<not> tr_fixed r \<Longrightarrow> tr_query r = 1 \<Longrightarrow> sort_of mt r = ''popularity.asc'' \<and> page_of mt r = 1"
  by (simp add: sort_of_def page_of_def sorts_of_def MOVIE_SORT_def TV_SORT_def COMMON_SORT_def)

lemma read_rest:
  assumes "\<And>n. \<not> dc_cancelled dc n"
    and "\<And>n p. c \<le> n \<Longrightarrow> 2 \<le> p \<Longrightarrow> p \<le> k \<Longrightarrow> dc_page dc n mt p ''popularity.desc'' tag = Inr (pages p)"
    and "tr_fixed r" "1 \<le> tr_query r" "tr_max r = k" "c \<le> tr_calls r"
  shows "\<exists>r'. tag_loop dc mt tag r = Some (True, r') \<and>
    tr_hits r' = read_pages mt tag pages (tr_query r + 1) k (tr_hits r) \<and>
    tr_calls r' = tr_calls r + nat (k - tr_query r)"
  using assms(3-)
proof (induction "nat (k - tr_query r)" arbitrary: r rule: less_induct)
  case less
  show ?case
  proof (cases "k \<le> tr_query r")
    case True
    then show ?thesis using less.prems by (subst tag_loop.simps) (simp add: read_pages_def)
  next
    case False
    let ?p = "tr_query r + 1" and ?r = "tag_step dc mt tag r"
    have p: "page_of mt r = ?p" "sort_of mt r = ''popularity.desc''" using less.prems by (simp_all add: page_of_def sort_of_def)
    have "dc_page dc (tr_calls r) mt ?p ''popularity.desc'' tag = Inr (pages ?p)" using assms(2) less.prems False by simp
    then have r: "?r = r\<lparr>tr_hits := collect_hits (pages ?p) mt tag (tr_hits r), tr_progress := tr_progress r + 1,
        tr_calls := tr_calls r + 1, tr_query := tr_query r + 1\<rparr>"
      using p less.prems by (simp add: tag_step_def tag_answered_later)
    have "nat (k - tr_query ?r) < nat (k - tr_query r)" using r False by simp
    from less.hyps [OF this] less.prems r
    obtain r' where l: "tag_loop dc mt tag ?r = Some (True, r')"
      "tr_hits r' = read_pages mt tag pages (?p + 1) k (collect_hits (pages ?p) mt tag (tr_hits r))"
      "tr_calls r' = tr_calls r + 1 + nat (k - ?p)" by auto
    have "[?p..k] = ?p # [?p + 1..k]" using False by (simp add: upto_rec1)
    then have "tr_hits r' = read_pages mt tag pages ?p k (tr_hits r)" using l(2) by (simp add: read_pages_def)
    moreover have "nat (k - tr_query r) = Suc (nat (k - ?p))" using False by simp
    ultimately show ?thesis using l(1,3) False assms(1) less.prems(3) by (subst tag_loop.simps) simp
  qed
qed

lemma whole_pages_int: "i64_ok n \<Longrightarrow> whole_pages (of_int n) = n"
  by (simp add: whole_pages_def)

text \<open>
  A keyword whose titles fit the limit is read to its last page: when TMDB answers every page of the most
  popular titles and their number of pages is within the limit, the run reads each of them exactly once and
  makes no other call.
\<close>

theorem keyword_read_whole:
  assumes "\<And>n. \<not> dc_cancelled dc n" "1 \<le> k" "k \<le> limit * int (length (sorts_of mt))"
    and "limit * int (length (sorts_of mt)) < 2 ^ 31"
    and "\<And>n p. 1 \<le> p \<Longrightarrow> p \<le> k \<Longrightarrow> dc_page dc n mt p ''popularity.desc'' tag = Inr (pages p)"
    and "page_answer k (pages 1)"
  shows "\<exists>r. process_tag dc mt tag limit calls prog hits = Some (True, r) \<and> tr_calls r = calls + nat k \<and>
    tr_hits r = read_pages mt tag pages 1 k hits"
proof -
  let ?l = "limit * int (length (sorts_of mt))"
  let ?r0 = "\<lparr>tr_calls = calls, tr_query = 0, tr_max = saturate ?l, tr_fixed = False, tr_progress = prog, tr_hits = hits\<rparr>"
  have l: "saturate ?l = ?l" using assms(2-4) by (simp add: saturate_def)
  have le: "rat_of_int k \<le> rat_of_int limit * rat_of_nat (length (sorts_of mt))"
    using assms(3) by (metis of_int_le_iff of_int_mult of_int_of_nat_eq)
  have s: "sort_of mt ?r0 = ''popularity.desc''" "page_of mt ?r0 = 1" using sort_first [of ?r0 mt] by simp_all
  have t: "page_total (pages 1) = Some (of_int k)" using assms(6) by (simp add: page_total_def page_answer_def)
  have w: "whole_pages (of_int k) = k" using assms(2-4) by (intro whole_pages_int) (simp add: i64_ok_def)
  have "dc_page dc calls mt 1 ''popularity.desc'' tag = Inr (pages 1)" using assms(2,5) by simp
  then have step: "tag_step dc mt tag ?r0 = ?r0\<lparr>tr_hits := collect_hits (pages 1) mt tag hits,
      tr_progress := prog + 1 + (?l - k), tr_fixed := True, tr_max := k, tr_calls := calls + 1, tr_query := 1\<rparr>"
    using s t w le l by (simp add: tag_step_def tag_answered_first Let_def)
  have "tag_loop dc mt tag ?r0 = tag_loop dc mt tag (tag_step dc mt tag ?r0)"
    using assms(1-3) l by (subst tag_loop.simps) simp
  moreover obtain r where "tag_loop dc mt tag (tag_step dc mt tag ?r0) = Some (True, r)"
    "tr_hits r = read_pages mt tag pages 2 k (collect_hits (pages 1) mt tag hits)" "tr_calls r = calls + 1 + nat (k - 1)"
    using read_rest [where c = 0 and dc = dc and k = k and mt = mt and tag = tag and pages = pages and r = "tag_step dc mt tag ?r0", OF assms(1)] assms(5) step by auto
  moreover have "[1..k] = 1 # [2..k]" using assms(2) by (simp add: upto_rec1)
  ultimately show ?thesis using assms(2) by (simp add: process_tag_def read_pages_def)
qed

text \<open>
  C32 The first page can be lost: when the first call of a keyword fails and the next one, which sorts the other
  way, answers, the run goes on with page 2 of the most popular titles and never reads their page 1.
\<close>

theorem failed_first_page_lost:
  assumes "\<And>n. \<not> dc_cancelled dc n" "2 \<le> k" "k \<le> limit * int (length (sorts_of mt))"
    and "limit * int (length (sorts_of mt)) < 2 ^ 31"
    and "dc_page dc calls mt 1 ''popularity.desc'' tag = Inl e"
    and "dc_page dc (calls + 1) mt 1 ''popularity.asc'' tag = Inr other" "page_answer k other"
    and "\<And>n p. calls + 2 \<le> n \<Longrightarrow> 2 \<le> p \<Longrightarrow> p \<le> k \<Longrightarrow>
      dc_page dc n mt p ''popularity.desc'' tag = Inr (pages p)"
  shows "\<exists>r. process_tag dc mt tag limit calls prog hits = Some (True, r) \<and>
    tr_hits r = read_pages mt tag pages 2 k (collect_hits other mt tag hits)"
proof -
  let ?l = "limit * int (length (sorts_of mt))"
  let ?r0 = "\<lparr>tr_calls = calls, tr_query = 0, tr_max = saturate ?l, tr_fixed = False, tr_progress = prog, tr_hits = hits\<rparr>"
  let ?r1 = "?r0\<lparr>tr_calls := calls + 1, tr_query := 1\<rparr>"
  have l: "saturate ?l = ?l" using assms(2-4) by (simp add: saturate_def)
  have le: "rat_of_int k \<le> rat_of_int limit * rat_of_nat (length (sorts_of mt))"
    using assms(3) by (metis of_int_le_iff of_int_mult of_int_of_nat_eq)
  have s: "sort_of mt ?r0 = ''popularity.desc''" "page_of mt ?r0 = 1" "sort_of mt ?r1 = ''popularity.asc''" "page_of mt ?r1 = 1"
    using sort_first [of ?r0 mt] sort_second [of ?r1 mt] by simp_all
  have t: "page_total other = Some (of_int k)" using assms(7) by (simp add: page_total_def page_answer_def)
  have w: "whole_pages (of_int k) = k" using assms(2-4) by (intro whole_pages_int) (simp add: i64_ok_def)
  have one: "tag_step dc mt tag ?r0 = ?r1" using s(1,2) assms(5) by (simp add: tag_step_def)
  have two: "tag_step dc mt tag ?r1 = ?r1\<lparr>tr_hits := collect_hits other mt tag hits,
      tr_progress := prog + 1 + (?l - k), tr_fixed := True, tr_max := k, tr_calls := calls + 2, tr_query := 1\<rparr>"
    using s(3,4) t w le assms(6) l by (simp add: tag_step_def tag_answered_first Let_def)
  have "tag_loop dc mt tag ?r0 = tag_loop dc mt tag ?r1"
    using assms(1-3) l one by (subst tag_loop.simps) simp
  also have "\<dots> = tag_loop dc mt tag (tag_step dc mt tag ?r1)"
    using assms(1-3) l by (subst tag_loop.simps) simp
  finally have "tag_loop dc mt tag ?r0 = tag_loop dc mt tag (tag_step dc mt tag ?r1)" .
  moreover obtain r where "tag_loop dc mt tag (tag_step dc mt tag ?r1) = Some (True, r)"
    "tr_hits r = read_pages mt tag pages 2 k (collect_hits other mt tag hits)"
    using read_rest [where c = "calls + 2" and dc = dc and k = k and mt = mt and tag = tag and pages = pages and r = "tag_step dc mt tag ?r1", OF assms(1,8)] two by auto
  ultimately show ?thesis by (simp add: process_tag_def)
qed

subsection \<open>What a run leaves\<close>

lemma drop_media_entries:
  assumes "lists_ok st s"
  shows "ls_blocklist (on_tables (delete_media i) s) = filter (\<lambda>e. bl_media e \<noteq> Some i) (ls_blocklist s)"
proof -
  have "media_there (delete_media i (ls_tables s)) (bl_media e) \<longleftrightarrow> bl_media e \<noteq> Some i" if "e \<in> set (ls_blocklist s)" for e
  proof -
    have "media_there (ls_tables s) (bl_media e)" using assms that entry_ok_there by (simp add: lists_ok_def list_all_iff)
    then show ?thesis by (auto simp: media_there_def delete_media_def list_ex_iff split: option.splits)
  qed
  then show ?thesis by (auto simp: on_tables_def Let_def intro: filter_cong)
qed

lemma drop_all_entries:
  "lists_ok st s \<Longrightarrow> ls_blocklist (fold (\<lambda>i. on_tables (delete_media i)) is s) =
     filter (\<lambda>e. \<forall>i \<in> set is. bl_media e \<noteq> Some i) (ls_blocklist s)"
proof (induction "is" arbitrary: s)
  case (Cons i "is")
  have "lists_ok st (on_tables (delete_media i) s)" by (rule drop_media_ok(1) [OF Cons.prems])
  from Cons.IH [OF this] show ?case by (simp add: drop_media_entries [OF Cons.prems] conj_commute)
qed simp

lemma doomed_iff: "i \<in> set (doomed s) \<longleftrightarrow> (\<exists>m \<in> set (media_table (ls_tables s)). m_id m = i \<and>
    (\<exists>e \<in> set (ls_blocklist s). title_of e = (m_media_type m, m_tmdb_id m) \<and> tagged e))"
  by (auto simp: doomed_def is_entry_title filter_empty_conv)

lemma clean_entries:
  assumes ok: "lists_ok st s" and l: "unlinked s = {}"
  shows "ls_blocklist (clean_blocklist s) = filter (\<lambda>e. \<not> tagged e) (ls_blocklist s)"
proof -
  have "(\<forall>i \<in> set (doomed s). bl_media e \<noteq> Some i) \<longleftrightarrow> \<not> tagged e" if e: "e \<in> set (ls_blocklist s)" for e
  proof -
    have "bl_media e \<noteq> None" using l e by (auto simp: unlinked_def filter_empty_conv)
    then obtain i where i: "bl_media e = Some i" by blast
    have "entry_ok (ls_tables s) e" using ok e by (simp add: lists_ok_def list_all_iff)
    then obtain m where m: "m \<in> set (media_table (ls_tables s))" "m_id m = i" "title_of e = (m_media_type m, m_tmdb_id m)"
      using i by (auto simp: entry_ok_def list_ex_iff title_of_def is_title_def)
    have "inj_on m_id (set (media_table (ls_tables s)))" "inj_on title_of (set (ls_blocklist s))"
      using ok by (simp_all add: lists_ok_def good_def ids_ok_def fresh_def distinct_map)
    then have "i \<in> set (doomed s) \<longleftrightarrow> tagged e"
      using m e unfolding doomed_iff by (metis inj_onD)
    then show ?thesis using i by auto
  qed
  note keep = this
  show ?thesis unfolding clean_blocklist_def drop_all_entries [OF ok] by (rule filter_cong [OF refl keep])
qed

definition hit_title :: "hit \<Rightarrow> string \<times> int" where
  "hit_title h = (ht_media_type h, ht_tmdb_id h)"

definition tagged_titles :: "lists \<Rightarrow> (string \<times> int) set" where
  "tagged_titles s = set (map title_of (filter tagged (ls_blocklist s)))"

definition manual :: "lists \<Rightarrow> blocklist_entry list" where
  "manual s = filter (\<lambda>e. \<not> tagged e) (ls_blocklist s)"

lemma tagged_retag: "tagged (retag i t e) \<longleftrightarrow> tagged e \<or> bl_id e = i"
  by (simp add: retag_def tagged_def)

lemma retag_lists:
  assumes "\<forall>e \<in> set es. bl_id e = i \<longrightarrow> tagged e"
  shows "filter (\<lambda>e. \<not> tagged e) (map (retag i t) es) = filter (\<lambda>e. \<not> tagged e) es"
    "map title_of (filter tagged (map (retag i t) es)) = map title_of (filter tagged es)"
  using assms by (induction es) (simp_all add: tagged_retag, auto simp: retag_def)

lemma process_hit_lists:
  assumes ok: "lists_ok st s"
  shows "\<exists>s'. process_hit stamp h s = Inr s' \<and> manual s' = manual s \<and>
    tagged_titles s' = tagged_titles s \<union> ({hit_title h} - title_of ` set (manual s))"
proof (cases "find (is_entry (ht_media_type h) (ht_tmdb_id h)) (ls_blocklist s)")
  case (Some e)
  then have e: "e \<in> set (ls_blocklist s)" "title_of e = hit_title h"
    by (auto simp: find_Some_iff is_entry_title hit_title_def)
  have inj: "inj_on bl_id (set (ls_blocklist s))" using ok by (simp add: lists_ok_def fresh_def distinct_map)
  show ?thesis
  proof (cases "bl_tags e")
    case None
    then have "hit_title h \<in> title_of ` set (manual s)" using e by (force simp: manual_def tagged_def)
    then show ?thesis using Some None by (simp add: process_hit_def Let_def)
  next
    case (Some tags)
    have only: "\<forall>x \<in> set (ls_blocklist s). bl_id x = bl_id e \<longrightarrow> tagged x"
      using inj_onD [OF inj] e(1) Some by (metis option.distinct(1) tagged_def)
    have "hit_title h \<in> tagged_titles s" using e Some by (force simp: tagged_titles_def tagged_def)
    moreover have "manual (s\<lparr>ls_blocklist := map (retag (bl_id e) t) (ls_blocklist s)\<rparr>) = manual s"
      "tagged_titles (s\<lparr>ls_blocklist := map (retag (bl_id e) t) (ls_blocklist s)\<rparr>) = tagged_titles s" for t
      by (simp_all add: manual_def tagged_titles_def retag_lists [OF only] del: list.set_map set_filter)
    moreover have "tagged_titles s \<union> ({hit_title h} - X) = tagged_titles s" for X using calculation(1) by auto
    ultimately show ?thesis using \<open>find _ _ = Some e\<close> Some by (simp add: process_hit_def Let_def)
  qed
next
  case None
  have "entry_exists s (ht_media_type h) (ht_tmdb_id h) \<longleftrightarrow>
      find (is_entry (ht_media_type h) (ht_tmdb_id h)) (ls_blocklist s) \<noteq> None"
    unfolding entry_exists_def list_ex_iff find_None_iff by blast
  then have new: "\<not> entry_exists s (ht_media_type h) (ht_tmdb_id h)" using None by simp
  let ?mark = "'','' @ ht_keyword h @ '',''"
  let ?media = "media_by_tmdb (ls_tables s) (ht_tmdb_id h) (ht_media_type h)"
  obtain s1 entry s2 e where i: "insert_entry stamp (ht_media_type h) (ht_title h) (ht_tmdb_id h) (Some ?mark) None s = Inr (s1, entry)"
    "blocklist_media stamp entry ?media (ht_media_type h) (ht_tmdb_id h) s1 = Inr s2"
    and e: "ls_blocklist s2 = ls_blocklist s @ [e]" "title_of e = hit_title h" "bl_tags e = Some ?mark"
  proof (rule add_entry [OF ok new found_title, of ?media stamp "ht_title h" "Some ?mark" None])
    fix m assume "?media = Some m" then show "?media = Some m" .
  qed (auto simp: hit_title_def)
  have p: "process_hit stamp h s = Inr s2" using None i unfolding process_hit_def media_by_tmdb_find by (simp add: Let_def)
  have free: "hit_title h \<notin> title_of ` set (ls_blocklist s)"
    using new by (force simp: entry_exists_def list_ex_iff is_entry_title hit_title_def)
  have t: "tagged e" using e(3) by (simp add: tagged_def)
  then have "manual s2 = manual s" "tagged_titles s2 = insert (hit_title h) (tagged_titles s)"
    using e(1,2) by (simp_all add: manual_def tagged_titles_def)
  moreover have "hit_title h \<notin> title_of ` set (manual s)" using free by (auto simp: manual_def)
  then have "tagged_titles s \<union> ({hit_title h} - title_of ` set (manual s)) = insert (hit_title h) (tagged_titles s)"
    by (simp add: insert_Diff_if)
  ultimately show ?thesis using p by simp
qed

lemma process_hits_lists:
  "lists_ok st s \<Longrightarrow> \<exists>s'. process_hits stamp hs s = Inr s' \<and> manual s' = manual s \<and>
     tagged_titles s' = tagged_titles s \<union> (hit_title ` set hs - title_of ` set (manual s))"
proof (induction hs arbitrary: s)
  case (Cons h hs)
  obtain s1 where s1: "process_hit stamp h s = Inr s1" "manual s1 = manual s"
    "tagged_titles s1 = tagged_titles s \<union> ({hit_title h} - title_of ` set (manual s))"
    using process_hit_lists [OF Cons.prems] by blast
  have "lists_ok st s1" using process_hit_ok [OF s1(1) Cons.prems] by blast
  from Cons.IH [OF this] s1 show ?case by auto
qed simp

text \<open>
  C31 The keyword job replaces what it blocklisted before and nothing else: its write never fails, the entries
  somebody made by hand stay as they are, and the other entries are then exactly one for each title found under
  a keyword that has none made by hand.
\<close>

theorem keyword_job_replaces:
  assumes "lists_ok st s" "unlinked s = {}"
  shows "\<exists>s'. write_hits stamp hits s = Inr s' \<and> manual s' = manual s \<and>
    tagged_titles s' = hit_title ` set hits - title_of ` set (manual s) \<and> lists_ok st s' \<and> unlinked s' = {}"
proof -
  have c: "ls_blocklist (clean_blocklist s) = manual s" unfolding manual_def by (rule clean_entries [OF assms])
  have ok: "lists_ok st (clean_blocklist s)" using clean_blocklist_ok [OF assms(1)] by blast
  have "manual (clean_blocklist s) = manual s" "tagged_titles (clean_blocklist s) = {}"
    unfolding c manual_def [of "clean_blocklist s"] tagged_titles_def by (simp_all add: manual_def filter_empty_conv)
  then obtain s' where "process_hits stamp hits (clean_blocklist s) = Inr s'" "manual s' = manual s"
    "tagged_titles s' = hit_title ` set hits - title_of ` set (manual s)"
    using process_hits_lists [OF ok, of stamp hits] by auto
  moreover from this(1) have w: "write_hits stamp hits s = Inr s'" by (simp add: write_hits_def)
  moreover have "lists_ok st s' \<and> unlinked s' = {}" using write_hits_ok [OF w assms(1)] assms(2) by blast
  ultimately show ?thesis by blast
qed

subsection \<open>Examples\<close>

text \<open>Three titles on two pages; the second list of answers fails at the first call.\<close>

definition demo_pages :: "int \<Rightarrow> json" where
  "demo_pages p = JObj [(''total_pages'', JInt 2), (''results'', JArr
     (if p = 1 then [JObj [(''id'', JInt 11), (''title'', JStr ''A'')], JObj [(''id'', JInt 12), (''title'', JStr ''B'')]]
      else [JObj [(''id'', JInt 13), (''title'', JStr ''C'')]]))]"

definition demo_discover :: discover where
  "demo_discover = \<lparr>dc_page = (\<lambda>n mt p sort tag. if n = 0 then Inl ''timeout''
       else Inr (if sort = ''popularity.desc'' then demo_pages p else demo_pages 2)),
     dc_cancelled = (\<lambda>_. False), dc_keyword = (\<lambda>_. Inr True)\<rparr>"

definition lost_hits :: "int list" where
  "lost_hits = map ht_tmdb_id (read_pages ''movie'' ''9'' demo_pages 2 2 (collect_hits (demo_pages 2) ''movie'' ''9'' []))"

theorem failed_first_page_lost_witness:
  "(case process_tag demo_discover ''movie'' ''9'' 1 0 0 [] of
      Some (b, r) \<Rightarrow> b \<and> map ht_tmdb_id (tr_hits r) = [13] | None \<Rightarrow> False)"
proof -
  have "\<exists>r. process_tag demo_discover ''movie'' ''9'' 1 0 0 [] = Some (True, r) \<and>
      tr_hits r = read_pages ''movie'' ''9'' demo_pages 2 2 (collect_hits (demo_pages 2) ''movie'' ''9'' [])"
    by (rule failed_first_page_lost [where e = "''timeout''"])
      (simp_all add: demo_discover_def page_answer_def demo_pages_def sorts_of_def MOVIE_SORT_def COMMON_SORT_def)
  moreover have "lost_hits = [13]" by code_simp
  ultimately show ?thesis by (auto simp: lost_hits_def)
qed

theorem keyword_job_ends_witness:
  "\<exists>b r. process_tag demo_discover ''movie'' ''9'' 1 0 0 [] = Some (b, r) \<and> int (tr_calls r) \<le> 28"
proof -
  have n: "int (length (sorts_of ''movie'')) = 14" by (simp add: sorts_of_def MOVIE_SORT_def COMMON_SORT_def)
  from keyword_job_ends [of demo_discover None JNull demo_lists "''movie''" "''9''" 1 0 0 "[]"] show ?thesis unfolding n by auto
qed

theorem keyword_job_replaces_witness:
  "\<exists>s'. write_hits None [\<lparr>ht_tmdb_id = 603, ht_media_type = ''movie'', ht_title = None, ht_keyword = ''9''\<rparr>,
       \<lparr>ht_tmdb_id = 604, ht_media_type = ''movie'', ht_title = None, ht_keyword = ''9''\<rparr>] demo_blocked = Inr s' \<and>
     manual s' = manual demo_blocked \<and> tagged_titles s' = {(''movie'', 604)}"
proof -
  have m: "title_of ` set (manual demo_blocked) = {(''movie'', 603)}" by code_simp
  show ?thesis using keyword_job_replaces [OF demo_blocked_ok,
      of None "[\<lparr>ht_tmdb_id = 603, ht_media_type = ''movie'', ht_title = None, ht_keyword = ''9''\<rparr>,
       \<lparr>ht_tmdb_id = 604, ht_media_type = ''movie'', ht_title = None, ht_keyword = ''9''\<rparr>]"]
    unfolding m by (auto simp: hit_title_def)
qed

end
