(* ===== verification/Qs.thy ===== *)
theory Qs
  imports Json
begin

section \<open>Query strings and form bodies\<close>

text \<open>
  \<open>src/backend-rs/src/openapi/qs.rs\<close>: the port of \<open>qs.parse\<close>, \<open>form\<close> of \<open>openapi/bodyparser.rs\<close>, and
  \<open>decode_uri_component\<close> and \<open>form_encode\<close> of \<open>jsval.rs\<close>. A \<open>String\<close> is its UTF-8 bytes here (a character of
  this theory is a byte); the functions look at ASCII characters only, but for the latin-1 escapes, which are
  written out as UTF-8, and the validity \<open>from_utf8\<close> checks. An array may have holes (\<open>None\<close>); an overflow
  object carries its highest index. \<open>merge\<close> recurses on its second argument.
\<close>

record qs_options =
  allow_prototypes :: bool
  array_limit :: nat
  depth_limit :: nat
  latin1 :: bool
  parameter_limit :: nat
  strict_depth :: bool

definition qs_defaults :: qs_options where
  "qs_defaults = \<lparr>allow_prototypes = False, array_limit = 20, depth_limit = 5, latin1 = False,
     parameter_limit = 1000, strict_depth = False\<rparr>"

datatype depth_exceeded = DepthExceeded

datatype q = QStr string | QTrue | QArr "q option list" | QObj "(string \<times> q) list" "nat option"

type_synonym qentries = "(string \<times> q) list"

subsection \<open>Objects\<close>

text \<open>An array index as a key: no leading zero, below 2^32 - 1.\<close>

definition index_key :: "string \<Rightarrow> nat option" where
  "index_key key =
     (if key = [] \<or> (1 < length key \<and> hd key = CHR ''0'') \<or> \<not> list_all is_digit key then None
      else let n = nat_of_digits key in if int n < 2 ^ 32 - 1 then Some n else None)"

definition PROTOTYPE_KEYS :: "string list" where
  "PROTOTYPE_KEYS = [''constructor'', ''__defineGetter__'', ''__defineSetter__'', ''hasOwnProperty'',
     ''__lookupGetter__'', ''__lookupSetter__'', ''isPrototypeOf'', ''propertyIsEnumerable'', ''toString'',
     ''valueOf'', ''__proto__'', ''toLocaleString'']"

definition on_prototype :: "string \<Rightarrow> bool" where
  "on_prototype key \<longleftrightarrow> key \<in> set PROTOTYPE_KEYS"

definition q_get :: "qentries \<Rightarrow> string \<Rightarrow> q option" where
  "q_get es key = map_option snd (find (\<lambda>(k, v). k = key) es)"

fun q_set :: "string \<Rightarrow> q \<Rightarrow> qentries \<Rightarrow> qentries" where
  "q_set key value [] = [(key, value)]"
| "q_set key value ((k, v) # es) = (if k = key then (k, value) # es else (k, v) # q_set key value es)"

text \<open>\<open>Object.keys\<close>: the index keys in order, then the others as they came.\<close>

definition q_keys :: "qentries \<Rightarrow> string list" where
  "q_keys es =
     (let ints = List.map_filter (\<lambda>(k, _). map_option (\<lambda>n. (n, k)) (index_key k)) es
      in map snd (sort_key fst ints) @ filter (\<lambda>k. index_key k = None) (map fst es))"

subsection \<open>Decoding\<close>

definition hex_digit :: "char \<Rightarrow> nat option" where
  "hex_digit c =
     (if is_digit c then Some (code c - 48)
      else if 97 \<le> code c \<and> code c \<le> 102 then Some (code c - 87)
      else if 65 \<le> code c \<and> code c \<le> 70 then Some (code c - 55)
      else None)"

definition hex_pair :: "char \<Rightarrow> char \<Rightarrow> nat option" where
  "hex_pair h l =
     (case (hex_digit h, hex_digit l) of (Some a, Some b) \<Rightarrow> Some (a * 16 + b) | _ \<Rightarrow> None)"

text \<open>A code point below U+0100 as UTF-8.\<close>

definition utf8_of :: "nat \<Rightarrow> string" where
  "utf8_of n = (if n < 128 then [char_of n] else [char_of (192 + n div 64), char_of (128 + n mod 64)])"

definition between :: "nat \<Rightarrow> nat \<Rightarrow> char \<Rightarrow> bool" where
  "between lo hi c \<longleftrightarrow> lo \<le> code c \<and> code c \<le> hi"

text \<open>\<open>String::from_utf8\<close>: no overlong form, no surrogate, nothing past U+10FFFF.\<close>

fun utf8_ok :: "string \<Rightarrow> bool" where
  "utf8_ok [] = True"
| "utf8_ok (a # as) =
     (let n = code a
      in if n < 128 then utf8_ok as
         else if 194 \<le> n \<and> n \<le> 223 then (case as of b # bs \<Rightarrow> between 128 191 b \<and> utf8_ok bs | _ \<Rightarrow> False)
         else if 224 \<le> n \<and> n \<le> 239 then
           (case as of b # c # cs \<Rightarrow>
               between (if n = 224 then 160 else 128) (if n = 237 then 159 else 191) b \<and> between 128 191 c \<and> utf8_ok cs
             | _ \<Rightarrow> False)
         else if 240 \<le> n \<and> n \<le> 244 then
           (case as of b # c # d # ds \<Rightarrow>
               between (if n = 240 then 144 else 128) (if n = 244 then 143 else 191) b \<and> between 128 191 c \<and>
               between 128 191 d \<and> utf8_ok ds
             | _ \<Rightarrow> False)
         else False)"

fun percent_bytes :: "string \<Rightarrow> string option" where
  "percent_bytes [] = Some []"
| "percent_bytes (c # cs) =
     (if c = CHR ''%'' then
        (case cs of
           h # l # rest \<Rightarrow>
             (case hex_pair h l of None \<Rightarrow> None | Some n \<Rightarrow> map_option ((#) (char_of n)) (percent_bytes rest))
         | _ \<Rightarrow> None)
      else map_option ((#) c) (percent_bytes cs))"

definition decode_uri_component :: "string \<Rightarrow> string option" where
  "decode_uri_component text =
     (if CHR ''%'' \<notin> set text then Some text
      else case percent_bytes text of None \<Rightarrow> None | Some bytes \<Rightarrow> if utf8_ok bytes then Some bytes else None)"

text \<open>JavaScript's \<open>unescape\<close> of \<open>%XX\<close>; what is no escape stays.\<close>

fun unescape :: "string \<Rightarrow> string" where
  "unescape [] = []"
| "unescape (c # cs) =
     (if c = CHR ''%'' then
        (case cs of
           h # l # rest \<Rightarrow> (case hex_pair h l of Some n \<Rightarrow> utf8_of n @ unescape rest | None \<Rightarrow> c # unescape cs)
         | _ \<Rightarrow> c # unescape cs)
      else c # unescape cs)"

definition decode :: "string \<Rightarrow> bool \<Rightarrow> string" where
  "decode text is_latin1 =
     (let spaced = map (\<lambda>c. if c = CHR ''+'' then CHR '' '' else c) text
      in if is_latin1 then unescape spaced else unwrap_or spaced (decode_uri_component spaced))"

subsection \<open>Combining repeated keys\<close>

definition q_concat :: "q \<Rightarrow> q \<Rightarrow> q option list" where
  "q_concat a b = concat (map (\<lambda>v. case v of QArr items \<Rightarrow> items | _ \<Rightarrow> [Some v]) [a, b])"

definition array_to_object :: "q option list \<Rightarrow> qentries" where
  "array_to_object items =
     fold (\<lambda>(i, v) es. case v of None \<Rightarrow> es | Some x \<Rightarrow> q_set (show_nat i) x es) (List.enumerate 0 items) []"

definition combine_plain :: "q \<Rightarrow> q \<Rightarrow> nat \<Rightarrow> q" where
  "combine_plain a b limit =
     (let result = q_concat a b
      in if limit < length result then QObj (array_to_object result) (Some (length result - 1)) else QArr result)"

definition combine :: "q \<Rightarrow> q \<Rightarrow> nat \<Rightarrow> q" where
  "combine a b limit =
     (case a of
        QObj es (Some highest) \<Rightarrow> QObj (q_set (show_nat (highest + 1)) b es) (Some (highest + 1))
      | _ \<Rightarrow> combine_plain a b limit)"

subsection \<open>The pairs\<close>

fun starts_ci :: "string \<Rightarrow> string \<Rightarrow> bool" where
  "starts_ci [] text = True"
| "starts_ci (n # ns) [] = False"
| "starts_ci (n # ns) (c # cs) = (ascii_lower n = ascii_lower c \<and> starts_ci ns cs)"

text \<open>\<open>text.replace(/needle/gi, by)\<close>; the needles have three characters.\<close>

function replace_ci :: "string \<Rightarrow> string \<Rightarrow> string \<Rightarrow> string" where
  "replace_ci [] needle subst = []"
| "replace_ci (c # cs) needle subst =
     (if starts_ci needle (c # cs) then subst @ replace_ci (drop (length needle - 1) cs) needle subst
      else c # replace_ci cs needle subst)"
  by pat_completeness auto
termination by (relation "measure (length \<circ> fst)") auto

text \<open>The key and the value: split behind the first \<open>]\<close> that a \<open>=\<close> follows, else at the first \<open>=\<close>.\<close>

fun split_after_bracket :: "string \<Rightarrow> (string \<times> string) option" where
  "split_after_bracket [] = None"
| "split_after_bracket (c # cs) =
     (if c = CHR '']'' \<and> cs \<noteq> [] \<and> hd cs = CHR ''='' then Some ([c], tl cs)
      else map_option (\<lambda>(k, v). (c # k, v)) (split_after_bracket cs))"

definition split_at_equals :: "string \<Rightarrow> (string \<times> string) option" where
  "split_at_equals part =
     (case dropWhile (\<lambda>c. c \<noteq> CHR ''='') part of
        [] \<Rightarrow> None | _ # v \<Rightarrow> Some (takeWhile (\<lambda>c. c \<noteq> CHR ''='') part, v))"

definition read_pair :: "bool \<Rightarrow> string \<Rightarrow> string \<times> string" where
  "read_pair is_latin1 part =
     (case opt_or (split_after_bracket part) (split_at_equals part) of
        None \<Rightarrow> (decode part is_latin1, [])
      | Some (k, v) \<Rightarrow> (decode k is_latin1, decode v is_latin1))"

definition add_pair :: "qs_options \<Rightarrow> string \<Rightarrow> qentries \<Rightarrow> qentries" where
  "add_pair opt part es =
     (let (key, value) = read_pair (latin1 opt) part
      in q_set key (case q_get es key of
           Some existing \<Rightarrow> combine existing (QStr value) (array_limit opt) | None \<Rightarrow> QStr value) es)"

definition qs_values :: "string \<Rightarrow> qs_options \<Rightarrow> qentries" where
  "qs_values text opt =
     (let clean = replace_ci (replace_ci text ''%5B'' ''['') ''%5D'' '']''
      in fold (add_pair opt) (take (parameter_limit opt) (split_on CHR ''&'' clean)) [])"

subsection \<open>Keys\<close>

text \<open>What stands before the next bracket, if that closes.\<close>

fun close_of :: "string \<Rightarrow> (string \<times> string) option" where
  "close_of [] = None"
| "close_of (c # cs) =
     (if c = CHR '']'' then Some ([], cs)
      else if c = CHR ''['' then None
      else map_option (\<lambda>(content, rest). (c # content, rest)) (close_of cs))"

text \<open>The first group without brackets inside: what is before it, its content and what is behind.\<close>

fun bracket_group :: "string \<Rightarrow> (string \<times> string \<times> string) option" where
  "bracket_group [] = None"
| "bracket_group (c # cs) =
     (case (if c = CHR ''['' then close_of cs else None) of
        Some (content, rest) \<Rightarrow> Some ([], content, rest)
      | None \<Rightarrow> map_option (\<lambda>(before, content, rest). (c # before, content, rest)) (bracket_group cs))"

definition segment :: "string \<Rightarrow> string" where
  "segment content = ''['' @ content @ '']''"

text \<open>The groups behind the parent, \<open>left\<close> of them at most; what is deeper is one more segment.\<close>

fun take_groups :: "qs_options \<Rightarrow> nat \<Rightarrow> string \<Rightarrow> string list \<Rightarrow> (depth_exceeded, string list option) res" where
  "take_groups opt left rest keys =
     (case bracket_group rest of
        None \<Rightarrow> Inr (Some keys)
      | Some (before, content, behind) \<Rightarrow>
          (case left of
             0 \<Rightarrow> if strict_depth opt then Inl DepthExceeded
                  else Inr (Some (keys @ [segment (segment content @ behind)]))
           | Suc n \<Rightarrow>
               if \<not> allow_prototypes opt \<and> on_prototype content then Inr None
               else take_groups opt n behind (keys @ [segment content])))"

declare take_groups.simps [simp del]

definition split_key :: "string \<Rightarrow> qs_options \<Rightarrow> (depth_exceeded, string list option) res" where
  "split_key key opt =
     (if depth_limit opt = 0 then
        Inr (if \<not> allow_prototypes opt \<and> on_prototype key then None else Some [key])
      else
        let parent = (case bracket_group key of None \<Rightarrow> key | Some (before, _, _) \<Rightarrow> before)
        in if parent \<noteq> [] \<and> \<not> allow_prototypes opt \<and> on_prototype parent then Inr None
           else take_groups opt (depth_limit opt) key (if parent = [] then [] else [parent]))"

subsection \<open>Building and merging\<close>

definition unbracket :: "string \<Rightarrow> string" where
  "unbracket node =
     (if 2 \<le> length node \<and> hd node = CHR ''['' \<and> last node = CHR '']'' then butlast (tl node) else node)"

definition wrap_leaf :: "qs_options \<Rightarrow> string \<Rightarrow> q \<Rightarrow> q" where
  "wrap_leaf opt node leaf =
     (if node = ''[]'' then
        (case leaf of QObj es (Some n) \<Rightarrow> leaf | _ \<Rightarrow> combine_plain (QArr []) leaf (array_limit opt))
      else
        let clean = unbracket node
        in case opt_filter (\<lambda>n. n \<le> array_limit opt) (if node \<noteq> clean then index_key clean else None) of
             Some i \<Rightarrow> QArr (replicate i None @ [Some leaf])
           | None \<Rightarrow> QObj (if clean \<noteq> ''__proto__'' then q_set clean leaf [] else []) None)"

definition parse_object :: "string list \<Rightarrow> q \<Rightarrow> qs_options \<Rightarrow> q" where
  "parse_object chain leaf opt = foldr (wrap_leaf opt) chain leaf"

fun is_container :: "q \<Rightarrow> bool" where
  "is_container (QArr items) = True"
| "is_container (QObj es n) = True"
| "is_container _ = False"

definition merge_primitive :: "q \<Rightarrow> q \<Rightarrow> qs_options \<Rightarrow> q" where
  "merge_primitive target source opt =
     (case target of
        QArr items \<Rightarrow> QArr (items @ [Some source])
      | QObj es (Some highest) \<Rightarrow> QObj (q_set (show_nat (highest + 1)) source es) (Some (highest + 1))
      | QObj es None \<Rightarrow>
          let key = (case source of QStr s \<Rightarrow> s | _ \<Rightarrow> ''true'')
          in QObj (if allow_prototypes opt \<or> \<not> on_prototype key then q_set key QTrue es else es) None
      | primitive \<Rightarrow> QArr [Some primitive, Some source])"

text \<open>\<open>key.parse::<usize>()\<close>: an optional plus sign, then digits, below 2^64.\<close>

definition parse_usize :: "string \<Rightarrow> nat option" where
  "parse_usize key =
     (let digits = (case key of c # cs \<Rightarrow> if c = CHR ''+'' then cs else key | [] \<Rightarrow> [])
      in if digits = [] \<or> \<not> list_all is_digit digits \<or> 2 ^ 64 \<le> int (nat_of_digits digits) then None
         else Some (nat_of_digits digits))"

definition shift_overflow :: "q \<Rightarrow> qentries \<Rightarrow> nat \<Rightarrow> q" where
  "shift_overflow primitive src highest =
     QObj (fold (\<lambda>key es.
         let shifted = (case parse_usize key of None \<Rightarrow> key | Some n \<Rightarrow> show_nat (n + 1))
         in case q_get src key of None \<Rightarrow> es | Some v \<Rightarrow> q_set shifted v es)
       (q_keys src) (q_set ''0'' primitive [])) (Some (highest + 1))"

definition merge_into_primitive :: "q \<Rightarrow> q \<Rightarrow> q" where
  "merge_into_primitive primitive source =
     (case source of
        QObj src (Some highest) \<Rightarrow> shift_overflow primitive src highest
      | _ \<Rightarrow> QArr (q_concat primitive source))"

text \<open>One item of the source array, merged by \<open>m\<close> where both are containers.\<close>

definition merge_item :: "(q \<Rightarrow> q) \<Rightarrow> nat \<Rightarrow> q \<Rightarrow> q option list \<Rightarrow> q option list" where
  "merge_item m i item items =
     (if i < length items then
        (case items ! i of
           Some existing \<Rightarrow>
             if is_container existing \<and> is_container item then items[i := Some (m existing)]
             else items @ [Some item]
         | None \<Rightarrow> items[i := Some item])
      else items @ replicate (i - length items) None @ [Some item])"

fun merge_key :: "(q \<Rightarrow> q) \<Rightarrow> string \<Rightarrow> q \<Rightarrow> qentries \<Rightarrow> qentries" where
  "merge_key m key value [] = [(key, value)]"
| "merge_key m key value ((k, v) # es) = (if k = key then (k, m v) # es else (k, v) # merge_key m key value es)"

lemma q_get_size: "q_get es key = Some v \<Longrightarrow> size v < Suc (size_list (size_prod (\<lambda>_. 0) size) es)"
  by (induction es) (auto simp: q_get_def split: if_splits prod.splits)

lemma item_size: "(i, Some v) \<in> set (List.enumerate n items) \<Longrightarrow> size v < Suc (size_list (size_option size) items)"
  by (induction items arbitrary: n) (auto, force)

lemma q_get_set: "q_get (q_set k x es) key = (if key = k then Some x else q_get es key)"
  by (induction es) (auto simp: q_get_def)

lemma array_to_object_get:
  assumes "q_get (array_to_object items) key = Some v"
  shows "Some v \<in> set items"
proof -
  have "q_get (fold (\<lambda>(i, v) es. case v of None \<Rightarrow> es | Some x \<Rightarrow> q_set (show_nat i) x es) (List.enumerate n items) es) key = Some v
      \<Longrightarrow> q_get es key = Some v \<or> Some v \<in> set items" for n es
  proof (induction items arbitrary: n es)
    case (Cons x xs)
    show ?case
    proof (cases x)
      case None
      then show ?thesis using Cons by auto
    next
      case (Some a)
      then show ?thesis using Cons.IH [of "Suc n" "q_set (show_nat n) a es"] Cons.prems by (auto simp: q_get_set split: if_splits)
    qed
  qed simp
  then show ?thesis using assms unfolding array_to_object_def by (fastforce simp: q_get_def)
qed

lemma member_size: "Some v \<in> set items \<Longrightarrow> size v < Suc (size_list (size_option size) items)"
  by (induction items) auto

text \<open>
  Keys of an object are distinct (every write goes through \<open>q_set\<close> or \<open>merge_key\<close>), so each key of the source
  is met once.
\<close>

function merge :: "qs_options \<Rightarrow> q \<Rightarrow> q \<Rightarrow> q" where
  "merge opt target source =
     (case source of
        QStr s \<Rightarrow> if s = [] then target else merge_primitive target source opt
      | QTrue \<Rightarrow> merge_primitive target source opt
      | QArr src \<Rightarrow>
          (case target of
             QArr items \<Rightarrow>
               QArr (fold (\<lambda>(i, v) items. case v of None \<Rightarrow> items
                   | Some item \<Rightarrow> merge_item (\<lambda>e. merge opt e item) i item items) (List.enumerate 0 src) items)
           | QObj es n \<Rightarrow>
               QObj (fold (\<lambda>key acc. case q_get (array_to_object src) key of None \<Rightarrow> acc
                   | Some v \<Rightarrow> merge_key (\<lambda>e. merge opt e v) key v acc) (q_keys (array_to_object src)) es) n
           | _ \<Rightarrow> merge_into_primitive target source)
      | QObj src k \<Rightarrow>
          (case target of
             QArr items \<Rightarrow>
               QObj (fold (\<lambda>key acc. case q_get src key of None \<Rightarrow> acc
                   | Some v \<Rightarrow> merge_key (\<lambda>e. merge opt e v) key v acc) (q_keys src) (array_to_object items)) None
           | QObj es n \<Rightarrow>
               QObj (fold (\<lambda>key acc. case q_get src key of None \<Rightarrow> acc
                   | Some v \<Rightarrow> merge_key (\<lambda>e. merge opt e v) key v acc) (q_keys src) es) n
           | _ \<Rightarrow> merge_into_primitive target source))"
  by pat_completeness auto
termination
  by (relation "measure (\<lambda>(opt, target, source). size source)")
    (auto dest: item_size member_size q_get_size dest!: array_to_object_get)

declare merge.simps [simp del]

subsection \<open>The whole text\<close>

fun compact_q :: "q \<Rightarrow> q" where
  "compact_q (QArr items) = QArr (concat (map (\<lambda>v. case v of None \<Rightarrow> [] | Some x \<Rightarrow> [Some (compact_q x)]) items))"
| "compact_q (QObj es n) = QObj (map (\<lambda>(k, v). (k, compact_q v)) es) n"
| "compact_q (QStr s) = QStr s"
| "compact_q QTrue = QTrue"

text \<open>The loop over the keys of the pairs.\<close>

fun parse_keys :: "qs_options \<Rightarrow> qentries \<Rightarrow> string list \<Rightarrow> q \<Rightarrow> (depth_exceeded, q) res" where
  "parse_keys opt temp [] obj = Inr obj"
| "parse_keys opt temp (key # keys) obj =
     (if key = [] then parse_keys opt temp keys obj
      else and_then (split_key key opt) (\<lambda>found.
        case found of
          None \<Rightarrow> parse_keys opt temp keys obj
        | Some chain \<Rightarrow>
            (case q_get temp key of
               None \<Rightarrow> parse_keys opt temp keys obj
             | Some value \<Rightarrow> parse_keys opt temp keys (merge opt obj (parse_object chain value opt)))))"

definition qs_parse :: "string \<Rightarrow> qs_options \<Rightarrow> (depth_exceeded, qentries) res" where
  "qs_parse text opt =
     (if text = [] then Inr []
      else
        let temp = qs_values text opt
        in and_then (parse_keys opt temp (q_keys temp) (QObj [] None)) (\<lambda>obj.
             case compact_q obj of QObj es n \<Rightarrow> Inr es | _ \<Rightarrow> Inr []))"

function q_json :: "q \<Rightarrow> json" where
  "q_json v =
     (case v of
        QStr s \<Rightarrow> JStr s
      | QTrue \<Rightarrow> JBool True
      | QArr items \<Rightarrow> JArr (map (\<lambda>v. case v of None \<Rightarrow> JNull | Some x \<Rightarrow> q_json x) items)
      | QObj es n \<Rightarrow> JObj (fold (\<lambda>key out. case q_get es key of None \<Rightarrow> out | Some x \<Rightarrow> obj_insert key (q_json x) out) (q_keys es) []))"
  by pat_completeness auto
termination
  by (relation "measure size") (auto dest: member_size q_get_size)

declare q_json.simps [simp del]

definition qs_json :: "qentries \<Rightarrow> jmap" where
  "qs_json es = fold (\<lambda>key out. case q_get es key of None \<Rightarrow> out | Some x \<Rightarrow> obj_insert key (q_json x) out) (q_keys es) []"

subsection \<open>Form bodies\<close>

definition form_options :: "nat \<Rightarrow> bool \<Rightarrow> qs_options" where
  "form_options count is_latin1 = \<lparr>allow_prototypes = True, array_limit = max count 100, depth_limit = 32,
     latin1 = is_latin1, parameter_limit = 1000, strict_depth = True\<rparr>"

text \<open>\<open>form\<close>: the answer to a form that has too many parameters or is too deep, else its JSON.\<close>

definition read_form :: "string \<Rightarrow> bool \<Rightarrow> (nat \<times> string, jmap) res" where
  "read_form text is_latin1 =
     (if text = [] then Inr []
      else
        let count = length (filter (\<lambda>c. c = CHR ''&'') text) + 1
        in if 1000 < count then Inl (413, ''too many parameters'')
           else (case qs_parse text (form_options count is_latin1) of
             Inl DepthExceeded \<Rightarrow> Inl (400, ''The input exceeded the depth'')
           | Inr es \<Rightarrow> Inr (qs_json es)))"

subsection \<open>Writing a form\<close>

definition upper_hex :: "nat \<Rightarrow> char" where
  "upper_hex n = (if n < 10 then char_of (48 + n) else char_of (55 + n))"

definition form_byte :: "char \<Rightarrow> string" where
  "form_byte c =
     (if c = CHR '' '' then ''+''
      else if is_alpha c \<or> is_digit c \<or> c \<in> set ''*-._'' then [c]
      else [CHR ''%'', upper_hex (code c div 16), upper_hex (code c mod 16)])"

definition form_encode :: "string \<Rightarrow> string" where
  "form_encode value = concat (map form_byte value)"

end
