(* ===== verification/Qs_Props.thy ===== *)
theory Qs_Props
  imports Qs
begin

section \<open>What a parsed query can hold\<close>

text \<open>
  \<open>shaped P n v\<close>: \<open>v\<close> is nested at most \<open>n\<close> deep, the keys of each of its objects are distinct and \<open>P\<close> holds of
  them. The parser keeps it at every step, so whatever a client sends the result is shallow and, where
  prototypes are not allowed, none of its keys is one of \<open>Object.prototype\<close>.
\<close>

subsection \<open>Shapes\<close>

fun shaped :: "(string \<Rightarrow> bool) \<Rightarrow> nat \<Rightarrow> q \<Rightarrow> bool" where
  "shaped P n (QStr s) = True"
| "shaped P n QTrue = True"
| "shaped P 0 (QArr items) = False"
| "shaped P 0 (QObj es k) = False"
| "shaped P (Suc n) (QArr items) = (\<forall>v. Some v \<in> set items \<longrightarrow> shaped P n v)"
| "shaped P (Suc n) (QObj es k) = (distinct (map fst es) \<and> (\<forall>(key, v)\<in>set es. P key \<and> shaped P n v))"

definition items_ok :: "(string \<Rightarrow> bool) \<Rightarrow> nat \<Rightarrow> q option list \<Rightarrow> bool" where
  "items_ok P n items \<longleftrightarrow> (\<forall>v. Some v \<in> set items \<longrightarrow> shaped P n v)"

definition entries_ok :: "(string \<Rightarrow> bool) \<Rightarrow> nat \<Rightarrow> qentries \<Rightarrow> bool" where
  "entries_ok P n es \<longleftrightarrow> distinct (map fst es) \<and> (\<forall>(key, v)\<in>set es. P key \<and> shaped P n v)"

lemma shaped_containers [simp]:
  "shaped P (Suc n) (QArr items) = items_ok P n items" "shaped P (Suc n) (QObj es k) = entries_ok P n es"
  by (simp_all add: items_ok_def entries_ok_def)

declare shaped.simps(5,6) [simp del]

lemma shaped_cases:
  assumes "shaped P n v"
  obtains (primitive) "\<not> is_container v" | (arr) m items where "n = Suc m" "v = QArr items" "items_ok P m items"
    | (obj) m es k where "n = Suc m" "v = QObj es k" "entries_ok P m es"
  using assms by (cases v; cases n) auto

lemma shaped_primitive [simp]: "\<not> is_container v \<Longrightarrow> shaped P n v"
  by (cases v) simp_all

lemma shaped_mono: "shaped P n v \<Longrightarrow> n \<le> m \<Longrightarrow> shaped P m v"
proof (induction n arbitrary: m v)
  case 0
  then show ?case by (cases v) simp_all
next
  case (Suc n)
  then obtain m' where "m = Suc m'" "n \<le> m'" by (cases m) simp_all
  then show ?case using Suc by (cases v) (fastforce simp: items_ok_def entries_ok_def)+
qed

lemma entries_mono: "entries_ok P n es \<Longrightarrow> n \<le> m \<Longrightarrow> entries_ok P m es"
  using shaped_mono by (fastforce simp: entries_ok_def)

lemma items_mono: "items_ok P n items \<Longrightarrow> n \<le> m \<Longrightarrow> items_ok P m items"
  using shaped_mono by (fastforce simp: items_ok_def)

lemma entries_Nil [simp]: "entries_ok P n []"
  by (simp add: entries_ok_def)

lemma items_simps [simp]:
  "items_ok P n []" "items_ok P n (Some v # items) \<longleftrightarrow> shaped P n v \<and> items_ok P n items"
  "items_ok P n (None # items) \<longleftrightarrow> items_ok P n items"
  "items_ok P n (items @ items') \<longleftrightarrow> items_ok P n items \<and> items_ok P n items'" "items_ok P n (replicate k None)"
  by (auto simp: items_ok_def)

lemma items_update: "items_ok P n items \<Longrightarrow> shaped P n v \<Longrightarrow> items_ok P n (items[i := Some v])"
  by (auto simp: items_ok_def dest!: set_update_subset_insert [THEN subsetD])

lemma q_set_keys: "map fst (q_set k v es) = (if k \<in> set (map fst es) then map fst es else map fst es @ [k])"
  by (induction es) (auto, force)

lemma q_set_member: "(key, x) \<in> set (q_set k v es) \<Longrightarrow> key = k \<and> x = v \<or> (key, x) \<in> set es"
  by (induction es) (auto split: if_splits)

lemma entries_set: "entries_ok P n es \<Longrightarrow> P k \<Longrightarrow> shaped P n v \<Longrightarrow> entries_ok P n (q_set k v es)"
  unfolding entries_ok_def q_set_keys by (auto dest!: q_set_member)

lemma merge_key_keys: "map fst (merge_key m k v es) = (if k \<in> set (map fst es) then map fst es else map fst es @ [k])"
  by (induction es) (auto, force)

lemma merge_key_member: "(key, x) \<in> set (merge_key m k v es) \<Longrightarrow>
    key = k \<and> (x = v \<or> x \<in> m ` snd ` set es) \<or> (key, x) \<in> set es"
  by (induction es) (auto split: if_splits)

lemma entries_merge:
  assumes "entries_ok P n es" "P k" "shaped P n v" "\<And>e. shaped P n e \<Longrightarrow> shaped P n (m e)"
  shows "entries_ok P n (merge_key m k v es)"
  using assms unfolding entries_ok_def merge_key_keys by (fastforce dest!: merge_key_member)

lemma q_get_member: "q_get es k = Some v \<Longrightarrow> (k, v) \<in> set es"
  by (induction es) (auto simp: q_get_def split: if_splits)

lemma entries_get: "entries_ok P n es \<Longrightarrow> q_get es k = Some v \<Longrightarrow> P k \<and> shaped P n v"
  by (auto simp: entries_ok_def dest!: q_get_member)

lemma q_fold_keeps: "(\<And>x a. x \<in> set xs \<Longrightarrow> I a \<Longrightarrow> I (f x a)) \<Longrightarrow> I a \<Longrightarrow> I (fold f xs a)"
  by (induction xs arbitrary: a) auto

subsection \<open>The steps of the parser\<close>

lemma digits_plain: "list_all is_digit key \<Longrightarrow> \<not> on_prototype key"
  unfolding on_prototype_def PROTOTYPE_KEYS_def by (auto simp: is_digit_def code_def)

lemma index_plain [simp]: "\<not> on_prototype (show_nat n)"
  using show_nat_digits by (intro digits_plain) (simp add: list_all_iff)

lemma enumerate_member: "(i, v) \<in> set (List.enumerate n items) \<Longrightarrow> v \<in> set items"
  by (auto simp: enumerate_eq_zip dest: set_zip_rightD)

lemma plain_array:
  assumes "items_ok P n items" "\<And>i. P (show_nat i)"
  shows "entries_ok P n (array_to_object items)"
  unfolding array_to_object_def
proof (rule q_fold_keeps)
  fix x es
  assume "x \<in> set (List.enumerate 0 items)" "entries_ok P n es"
  then show "entries_ok P n ((case x of (i, v) \<Rightarrow> \<lambda>es. case v of None \<Rightarrow> es | Some x \<Rightarrow> q_set (show_nat i) x es) es)"
    using assms by (induct x) (auto simp: items_ok_def dest: enumerate_member intro!: entries_set split: option.splits)
qed simp

text \<open>What \<open>q_concat\<close> puts side by side: the items of an array, any other value as one.\<close>

definition level :: "(string \<Rightarrow> bool) \<Rightarrow> nat \<Rightarrow> q \<Rightarrow> bool" where
  "level P n v \<longleftrightarrow> (case v of QArr items \<Rightarrow> items_ok P n items | _ \<Rightarrow> shaped P n v)"

lemma shaped_level: "shaped P n v \<Longrightarrow> level P n v"
  by (cases v; cases n) (auto simp: level_def intro: items_mono)

lemma concat_ok: "level P n a \<Longrightarrow> level P n b \<Longrightarrow> items_ok P n (q_concat a b)"
  by (auto simp: q_concat_def level_def split: q.splits)

lemma combine_plain_ok:
  assumes "level P n a" "level P n b" "\<And>i. P (show_nat i)"
  shows "shaped P (Suc n) (combine_plain a b limit)"
  using concat_ok [OF assms(1,2)] plain_array assms(3) by (simp add: combine_plain_def Let_def)

lemma wrap_leaf_ok:
  assumes "shaped P n leaf" "\<And>i. P (show_nat i)" "P (unbracket node) \<or> unbracket node = ''__proto__''"
  shows "shaped P (Suc n) (wrap_leaf opt node leaf)"
proof (cases "node = ''[]''")
  case True
  have "shaped P (Suc n) (combine_plain (QArr []) leaf (array_limit opt))"
    by (rule combine_plain_ok [OF _ shaped_level [OF assms(1)] assms(2)]) (simp add: level_def)
  then show ?thesis using True shaped_mono [OF assms(1), of "Suc n"] by (auto simp: wrap_leaf_def split: q.splits option.splits)
next
  case False
  then show ?thesis using assms(1,3)
    by (auto simp: wrap_leaf_def Let_def entries_ok_def split: option.splits)
qed

lemma parse_object_ok:
  assumes "shaped P n leaf" "\<And>i. P (show_nat i)" "\<forall>node\<in>set chain. P (unbracket node) \<or> unbracket node = ''__proto__''"
  shows "shaped P (length chain + n) (parse_object chain leaf opt)"
  using assms(3) by (induction chain) (use assms(1,2) wrap_leaf_ok in \<open>auto simp: parse_object_def\<close>)

lemma merge_primitive_ok:
  assumes t: "shaped P (Suc n) target" and s: "\<not> is_container source" and i: "\<And>i. P (show_nat i)"
    and p: "\<And>key. allow_prototypes opt \<or> \<not> on_prototype key \<Longrightarrow> P key"
  shows "shaped P (Suc n) (merge_primitive target source opt)"
  using t s i p by (cases target)
    (auto simp: merge_primitive_def Let_def intro!: entries_set split: option.splits if_splits)

lemma shift_overflow_ok:
  assumes "entries_ok P n src" "\<not> is_container primitive" "\<And>i. P (show_nat i)"
  shows "shaped P (Suc n) (shift_overflow primitive src highest)"
proof -
  have z: "show_nat 0 = ''0''" by code_simp
  have "entries_ok P n (fold (\<lambda>key es.
         let shifted = (case parse_usize key of None \<Rightarrow> key | Some n \<Rightarrow> show_nat (n + 1))
         in case q_get src key of None \<Rightarrow> es | Some v \<Rightarrow> q_set shifted v es)
       (q_keys src) (q_set ''0'' primitive []))"
  proof (rule q_fold_keeps)
    show "entries_ok P n (q_set ''0'' primitive [])"
      using assms(2) assms(3) [of 0] by (simp add: entries_ok_def z)
    fix key es
    assume "entries_ok P n es"
    then show "entries_ok P n (let shifted = (case parse_usize key of None \<Rightarrow> key | Some n \<Rightarrow> show_nat (n + 1))
         in case q_get src key of None \<Rightarrow> es | Some v \<Rightarrow> q_set shifted v es)"
      using entries_get [OF assms(1)] assms(3) by (auto simp: Let_def intro!: entries_set split: option.splits)
  qed
  then show ?thesis by (simp add: shift_overflow_def)
qed

lemma merge_into_primitive_ok:
  assumes "\<not> is_container primitive" "shaped P n source" "\<And>i. P (show_nat i)"
  shows "shaped P (Suc n) (merge_into_primitive primitive source)"
proof (cases "\<exists>src highest. source = QObj src (Some highest)")
  case True
  then obtain src highest where s: "source = QObj src (Some highest)" by blast
  then obtain m where m: "n = Suc m" using assms(2) by (cases n) simp_all
  have "shaped P n (shift_overflow primitive src highest)"
    using shift_overflow_ok [of P m src primitive highest] assms s m by simp
  then show ?thesis using s shaped_mono [of P n _ "Suc n"] by (simp add: merge_into_primitive_def)
next
  case False
  then have "merge_into_primitive primitive source = QArr (q_concat primitive source)"
    by (auto simp: merge_into_primitive_def split: q.splits option.splits)
  moreover have "items_ok P n (q_concat primitive source)"
    using concat_ok [OF shaped_level shaped_level] assms(1,2) by simp
  ultimately show ?thesis by simp
qed

subsection \<open>Merging\<close>

lemma merge_unfold:
  "\<not> is_container source \<Longrightarrow> merge opt target source =
     (if source = QStr [] then target else merge_primitive target source opt)"
  "is_container source \<Longrightarrow> \<not> is_container target \<Longrightarrow> merge opt target source = merge_into_primitive target source"
  by (cases source; simp add: merge.simps; cases target; simp)+

definition source_entries :: "q \<Rightarrow> qentries" where
  "source_entries v = (case v of QObj es n \<Rightarrow> es | QArr items \<Rightarrow> array_to_object items | _ \<Rightarrow> [])"

definition merge_entries :: "qs_options \<Rightarrow> qentries \<Rightarrow> qentries \<Rightarrow> qentries" where
  "merge_entries opt target source = fold (\<lambda>key acc. case q_get source key of None \<Rightarrow> acc
     | Some v \<Rightarrow> merge_key (\<lambda>e. merge opt e v) key v acc) (q_keys source) target"

definition merge_arrays :: "qs_options \<Rightarrow> q option list \<Rightarrow> q option list \<Rightarrow> q option list" where
  "merge_arrays opt items src = fold (\<lambda>(i, v) items. case v of None \<Rightarrow> items
     | Some item \<Rightarrow> merge_item (\<lambda>e. merge opt e item) i item items) (List.enumerate 0 src) items"

lemma merge_containers:
  "merge opt (QArr items) (QArr src) = QArr (merge_arrays opt items src)"
  "merge opt (QObj es n) (QArr src) = QObj (merge_entries opt es (array_to_object src)) n"
  "merge opt (QArr items) (QObj es k) = QObj (merge_entries opt (array_to_object items) es) None"
  "merge opt (QObj es n) (QObj es' k) = QObj (merge_entries opt es es') n"
  by (subst merge.simps, simp add: merge_arrays_def merge_entries_def)+

lemma merge_objects:
  assumes "is_container target" "is_container source" "\<not> (\<exists>a b. target = QArr a \<and> source = QArr b)"
  obtains n where "merge opt target source = QObj (merge_entries opt (source_entries target) (source_entries source)) n"
  using assms by (cases source; cases target) (auto simp: merge_containers source_entries_def)

lemma source_entries_ok:
  assumes "shaped P (Suc n) v" "is_container v" "\<And>i. P (show_nat i)"
  shows "entries_ok P n (source_entries v)"
  using assms plain_array by (cases v) (auto simp: source_entries_def)

lemma merge_item_ok:
  assumes "items_ok P n items" "shaped P n item" "\<And>e. shaped P n e \<Longrightarrow> shaped P n (m e)"
  shows "items_ok P n (merge_item m i item items)"
proof -
  have "shaped P n e" if "i < length items" "items ! i = Some e" for e
    using assms(1) nth_mem [OF that(1)] that(2) by (simp add: items_ok_def)
  then show ?thesis using assms by (auto simp: merge_item_def intro!: items_update split: option.splits)
qed

lemma merge_ok:
  assumes i: "\<And>i. P (show_nat i)" and p: "\<And>key. allow_prototypes opt \<or> \<not> on_prototype key \<Longrightarrow> P key"
  shows "shaped P n t \<Longrightarrow> shaped P m s \<Longrightarrow> m < n \<Longrightarrow> shaped P n (merge opt t s)"
proof (induction m arbitrary: n t s)
  case 0
  then have "\<not> is_container s" by (cases s) simp_all
  then show ?case using 0 merge_primitive_ok [of P "n - 1" t s opt] i p by (simp add: merge_unfold)
next
  case (Suc m)
  obtain n' where n: "n = Suc n'" "m < n'" using Suc.prems(3) by (cases n) simp_all
  consider (primitive) "\<not> is_container s" | (into) "is_container s" "\<not> is_container t"
    | (arrays) src items where "s = QArr src" "t = QArr items"
    | (objects) "is_container s" "is_container t" "\<not> (\<exists>a b. t = QArr a \<and> s = QArr b)" by fastforce
  then show ?case
  proof cases
    case primitive
    then show ?thesis using Suc.prems merge_primitive_ok [of P n' t s opt] i p n by (simp add: merge_unfold)
  next
    case into
    then show ?thesis using merge_into_primitive_ok [of t P "Suc m" s] i Suc.prems shaped_mono [of P "Suc (Suc m)" _ n] n
      by (simp add: merge_unfold)
  next
    case arrays
    have "items_ok P n' (merge_arrays opt items src)"
      unfolding merge_arrays_def
    proof (rule q_fold_keeps)
      show "items_ok P n' items" using Suc.prems(1) by (simp add: n arrays)
      fix x its
      assume x: "x \<in> set (List.enumerate 0 src)" and its: "items_ok P n' its"
      obtain j v where xv: "x = (j, v)" by (rule prod.exhaust)
      have item: "shaped P m item" if "v = Some item" for item
        using Suc.prems(2) enumerate_member [of j v 0 src] x xv that by (simp add: arrays items_ok_def)
      show "items_ok P n' ((case x of (i, v) \<Rightarrow> \<lambda>items. case v of None \<Rightarrow> items
          | Some item \<Rightarrow> merge_item (\<lambda>e. merge opt e item) i item items) its)"
        using its item shaped_mono [of P m _ n'] Suc.IH n(2) by (auto simp: xv intro!: merge_item_ok split: option.splits)
    qed
    then show ?thesis by (simp add: merge_containers arrays n)
  next
    case objects
    have src: "entries_ok P m (source_entries s)" and tgt: "entries_ok P n' (source_entries t)"
      using source_entries_ok Suc.prems(1,2) objects(1,2) i n(1) by blast+
    obtain k where merged: "merge opt t s = QObj (merge_entries opt (source_entries t) (source_entries s)) k"
      by (rule merge_objects [OF objects(2,1,3)])
    have "entries_ok P n' (merge_entries opt (source_entries t) (source_entries s))"
      unfolding merge_entries_def
    proof (rule q_fold_keeps)
      show "entries_ok P n' (source_entries t)" by (rule tgt)
      fix key acc
      assume "entries_ok P n' acc"
      then show "entries_ok P n' (case q_get (source_entries s) key of None \<Rightarrow> acc
          | Some v \<Rightarrow> merge_key (\<lambda>e. merge opt e v) key v acc)"
        using entries_get [OF src] shaped_mono [of P m _ n'] Suc.IH n(2)
        by (auto intro!: entries_merge split: option.splits)
    qed
    then show ?thesis by (simp add: merged n)
  qed
qed

subsection \<open>Keys\<close>

lemma close_of_append: "close_of s = Some (c, r) \<Longrightarrow> close_of (s @ x) = Some (c, r @ x)"
  by (induction s arbitrary: c) (auto split: if_splits)

lemma close_of_parts: "close_of s = Some (c, r) \<Longrightarrow> s = c @ CHR '']'' # r"
  by (induction s arbitrary: c) (auto split: if_splits)

lemma group_parts: "bracket_group s = Some (b, c, r) \<Longrightarrow> s = b @ segment c @ r"
  by (induction s arbitrary: b) (auto simp: segment_def dest: close_of_parts split: option.splits if_splits)

lemma group_open: "CHR '']'' \<in> set s \<Longrightarrow> close_of s = None \<Longrightarrow> bracket_group s \<noteq> None"
  by (induction s) (auto split: if_splits option.splits)

lemma no_group_before: "bracket_group s = Some (b, c, r) \<Longrightarrow> bracket_group b = None"
proof (induction s arbitrary: b)
  case (Cons x s)
  show ?case
  proof (cases "if x = CHR ''['' then close_of s else None")
    case None
    then obtain b' where b': "b = x # b'" "bracket_group s = Some (b', c, r)" using Cons.prems by auto
    have "(if x = CHR ''['' then close_of b' else None) = None"
      using None close_of_append group_parts [OF b'(2)] by (cases "close_of b'") (fastforce split: if_splits)+
    then show ?thesis using Cons.IH [OF b'(2)] by (simp add: b'(1))
  qed (use Cons.prems in auto)
qed simp

text \<open>A text without a group is not itself put in brackets.\<close>

lemma unbracket_plain: "bracket_group s = None \<Longrightarrow> unbracket s = s"
proof (rule ccontr)
  assume n: "bracket_group s = None" and u: "unbracket s \<noteq> s"
  then have s: "2 \<le> length s" "hd s = CHR ''[''" "last s = CHR '']''" by (auto simp: unbracket_def split: if_splits)
  then obtain t where t: "s = CHR ''['' # t" "t \<noteq> []" by (cases s; cases "tl s") auto
  then have "CHR '']'' \<in> set t" using s(3) last_in_set [OF t(2)] by simp
  then show False using n t(1) group_open [of t] by (auto split: option.splits)
qed

lemma unbracket_segment [simp]: "unbracket (segment c) = c"
  by (simp add: unbracket_def segment_def)

lemma bracketed_plain: "\<not> on_prototype (CHR ''['' # s)"
  by (simp add: on_prototype_def PROTOTYPE_KEYS_def)

definition key_ok :: "qs_options \<Rightarrow> string \<Rightarrow> bool" where
  "key_ok opt key \<longleftrightarrow> allow_prototypes opt \<or> \<not> on_prototype key"

lemma take_groups_None: "bracket_group rest = None \<Longrightarrow> take_groups opt left rest keys = Inr (Some keys)"
  by (subst take_groups.simps) simp

lemma take_groups_Some:
  assumes "bracket_group rest = Some (b, c, r)"
  shows "take_groups opt 0 rest keys = (if strict_depth opt then Inl DepthExceeded
      else Inr (Some (keys @ [segment (segment c @ r)])))"
    "take_groups opt (Suc n) rest keys = (if key_ok opt c then take_groups opt n r (keys @ [segment c]) else Inr None)"
  using assms by (subst take_groups.simps, simp add: key_ok_def)+

lemma take_groups_ok:
  assumes "take_groups opt left rest keys = Inr (Some chain)" "\<forall>k\<in>set keys. key_ok opt (unbracket k)"
  shows "(\<forall>k\<in>set chain. key_ok opt (unbracket k)) \<and> length chain \<le> length keys + left + 1"
  using assms
proof (induction left arbitrary: rest keys)
  case 0
  have "key_ok opt (segment c @ r)" for c r using bracketed_plain by (simp add: key_ok_def segment_def)
  then show ?case using 0
    by (cases "bracket_group rest") (auto simp: take_groups_None take_groups_Some split: if_splits)
next
  case (Suc n)
  show ?case
  proof (cases "bracket_group rest")
    case None
    then show ?thesis using Suc.prems by (simp add: take_groups_None)
  next
    case (Some g)
    then obtain b c r where g: "bracket_group rest = Some (b, c, r)" by (cases g) auto
    then have "take_groups opt n r (keys @ [segment c]) = Inr (Some chain)" "key_ok opt c"
      using Suc.prems(1) by (auto simp: take_groups_Some split: if_splits)
    then show ?thesis using Suc.IH [of r "keys @ [segment c]"] Suc.prems(2) by simp
  qed
qed

lemma split_key_ok:
  assumes "split_key key opt = Inr (Some chain)" "depth_limit opt \<noteq> 0"
  shows "(\<forall>k\<in>set chain. key_ok opt (unbracket k)) \<and> length chain \<le> depth_limit opt + 2"
proof -
  define parent where "parent = (case bracket_group key of None \<Rightarrow> key | Some (before, _, _) \<Rightarrow> before)"
  have "bracket_group parent = None" using no_group_before by (auto simp: parent_def split: option.splits)
  then have u: "unbracket parent = parent" by (rule unbracket_plain)
  have "split_key key opt = (if parent \<noteq> [] \<and> \<not> key_ok opt parent then Inr None
      else take_groups opt (depth_limit opt) key (if parent = [] then [] else [parent]))"
    using assms(2) unfolding split_key_def parent_def key_ok_def Let_def by simp
  then have t: "take_groups opt (depth_limit opt) key (if parent = [] then [] else [parent]) = Inr (Some chain)"
    and p: "parent \<noteq> [] \<longrightarrow> key_ok opt parent"
    using assms(1) by (simp_all split: if_splits)
  show ?thesis using take_groups_ok [OF t] p u by (cases "parent = []") simp_all
qed

subsection \<open>Every query\<close>

text \<open>The values of the pairs: a text, or texts side by side.\<close>

definition pair_value :: "(string \<Rightarrow> bool) \<Rightarrow> q \<Rightarrow> bool" where
  "pair_value P v \<longleftrightarrow> shaped P 1 v \<and> (\<forall>es. v \<noteq> QObj es None)"

lemma combine_value:
  assumes "pair_value P v" "\<And>i. P (show_nat i)"
  shows "pair_value P (combine v (QStr s) limit)"
proof -
  have "level P 0 v" if "\<forall>es n. v \<noteq> QObj es n"
    using that assms(1) by (cases v) (simp_all add: pair_value_def level_def)
  then have "pair_value P (combine_plain v (QStr s) limit)" if "\<forall>es n. v \<noteq> QObj es n"
    using combine_plain_ok [of P 0 v "QStr s"] assms(2) that
    by (auto simp: pair_value_def level_def combine_plain_def Let_def)
  moreover have "pair_value P (QObj (q_set (show_nat (n + 1)) (QStr s) es) (Some (n + 1)))" if "v = QObj es (Some n)" for es n
    using assms that by (auto simp: pair_value_def intro!: entries_set)
  ultimately show ?thesis using assms(1)
    by (cases v) (auto simp: combine_def pair_value_def split: option.splits)
qed

lemma pairs_ok:
  assumes "\<And>i. P (show_nat i)"
  shows "\<forall>(k, v)\<in>set (qs_values text opt). pair_value P v"
  unfolding qs_values_def Let_def
proof (rule q_fold_keeps)
  fix part and es :: qentries
  assume es: "\<forall>(k, v)\<in>set es. pair_value P v"
  obtain key val where r: "read_pair (latin1 opt) part = (key, val)" by (rule prod.exhaust)
  have "pair_value P (case q_get es key of Some x \<Rightarrow> combine x (QStr val) (array_limit opt) | None \<Rightarrow> QStr val)"
    using es combine_value [of P] assms by (auto simp: pair_value_def dest!: q_get_member split: option.splits)
  then show "\<forall>(k, v)\<in>set (add_pair opt part es). pair_value P v"
    using es by (auto simp: add_pair_def r dest!: q_set_member)
qed simp

lemma parse_keys_ok:
  assumes "parse_keys opt temp keys obj = Inr v" "shaped (key_ok opt) (depth_limit opt + 4) obj" "depth_limit opt \<noteq> 0"
    "\<forall>(k, v)\<in>set temp. shaped (key_ok opt) 1 v"
  shows "shaped (key_ok opt) (depth_limit opt + 4) v"
  using assms(1,2)
proof (induction keys arbitrary: obj)
  case (Cons key keys)
  have i: "key_ok opt (show_nat i)" for i by (simp add: key_ok_def)
  have step: "shaped (key_ok opt) (depth_limit opt + 4) (merge opt obj (parse_object chain x opt))"
    if "split_key key opt = Inr (Some chain)" "q_get temp key = Some x" for chain x
  proof -
    have "shaped (key_ok opt) (length chain + 1) (parse_object chain x opt)"
      using split_key_ok [OF that(1) assms(3)] assms(4) i that(2)
      by (intro parse_object_ok) (auto dest!: q_get_member)
    then have "shaped (key_ok opt) (depth_limit opt + 3) (parse_object chain x opt)"
      using split_key_ok [OF that(1) assms(3)] by (auto intro: shaped_mono)
    from merge_ok [of "key_ok opt" opt, OF i _ Cons.prems(2) this] show ?thesis by (simp add: key_ok_def)
  qed
  obtain found where found: "key = [] \<or> split_key key opt = Inr found"
    using Cons.prems(1) by (cases "split_key key opt") (auto split: if_splits)
  consider (skip) "parse_keys opt temp keys obj = Inr v"
    | (merged) chain x where "split_key key opt = Inr (Some chain)" "q_get temp key = Some x"
        "parse_keys opt temp keys (merge opt obj (parse_object chain x opt)) = Inr v"
    using Cons.prems(1) found by (cases "key = []"; cases found; cases "q_get temp key") auto
  then show ?case using Cons.IH Cons.prems(2) step by cases blast+
qed simp

lemma map_values: "map (fst \<circ> (\<lambda>(k, v). (k, f v))) es = map fst es"
  by (induction es) auto

lemma compact_ok: "shaped P n v \<Longrightarrow> shaped P n (compact_q v)"
proof (induction n arbitrary: v)
  case 0
  then show ?case by (cases v) simp_all
next
  case (Suc n)
  show ?case
  proof (cases v)
    case (QArr items)
    then show ?thesis using Suc by (auto simp: items_ok_def split: option.splits)
  next
    case (QObj es k)
    then show ?thesis using Suc by (auto simp: entries_ok_def map_values)
  qed simp_all
qed

text \<open>
  C34 Whatever a client sends, the parsed query is shallow and holds no key of \<open>Object.prototype\<close>: for every
  text, when the parser answers with an object, that is nested at most four levels deeper than the depth
  option, the keys of each object in it are distinct, and unless prototypes are allowed none of them, at any
  depth, is one of the names every object inherits.
\<close>

theorem parsed_query_shaped:
  assumes "qs_parse text opt = Inr es" "depth_limit opt \<noteq> 0"
  shows "shaped (\<lambda>key. allow_prototypes opt \<or> \<not> on_prototype key) (depth_limit opt + 4) (QObj es None)"
proof (cases "text = []")
  case True
  then show ?thesis using assms(1) by (simp add: qs_parse_def numeral_eq_Suc)
next
  case False
  let ?n = "depth_limit opt + 4" and ?temp = "qs_values text opt"
  obtain obj where o: "parse_keys opt ?temp (q_keys ?temp) (QObj [] None) = Inr obj"
    using assms(1) False by (cases "parse_keys opt ?temp (q_keys ?temp) (QObj [] None)") (auto simp: qs_parse_def Let_def)
  have "\<forall>(k, v)\<in>set ?temp. pair_value (key_ok opt) v" by (rule pairs_ok) (simp add: key_ok_def)
  then have "\<forall>(k, v)\<in>set ?temp. shaped (key_ok opt) 1 v" by (auto simp: pair_value_def)
  then have "shaped (key_ok opt) ?n (compact_q obj)"
    using compact_ok [OF parse_keys_ok [OF o _ assms(2)]] by (simp add: numeral_eq_Suc)
  then have "entries_ok (key_ok opt) (depth_limit opt + 3) es"
    using assms(1) False by (cases "compact_q obj") (auto simp: qs_parse_def o numeral_eq_Suc)
  then have "shaped (key_ok opt) ?n (QObj es None)" by (simp add: numeral_eq_Suc)
  then show ?thesis by (simp add: key_ok_def [abs_def])
qed

theorem parsed_query_shaped_witness:
  "qs_parse ''toString[a]=1&a[constructor]=2&a[b]=3'' qs_defaults = Inr [(''a'', QObj [(''b'', QStr ''3'')] None)] \<and>
   shaped (\<lambda>key. allow_prototypes qs_defaults \<or> \<not> on_prototype key) (depth_limit qs_defaults + 4)
     (QObj [(''a'', QObj [(''b'', QStr ''3'')] None)] None)"
proof
  show p: "qs_parse ''toString[a]=1&a[constructor]=2&a[b]=3'' qs_defaults = Inr [(''a'', QObj [(''b'', QStr ''3'')] None)]"
    by code_simp
  show "shaped (\<lambda>key. allow_prototypes qs_defaults \<or> \<not> on_prototype key) (depth_limit qs_defaults + 4)
     (QObj [(''a'', QObj [(''b'', QStr ''3'')] None)] None)"
    by (rule parsed_query_shaped [OF p]) (simp add: qs_defaults_def)
qed

end
