(* ===== verification/Form_Trip.thy ===== *)
theory Form_Trip
  imports Qs_Props
begin

section \<open>Forms read back\<close>

text \<open>
  A form written by \<open>form_encode\<close>, as the clients of the server write theirs, is read back by \<open>form\<close> of
  \<open>openapi/bodyparser.rs\<close> as the pairs it was written from.
\<close>

definition pair_text :: "(char \<Rightarrow> string) \<Rightarrow> string \<times> string \<Rightarrow> string" where
  "pair_text enc p = concat (map enc (fst p)) @ ''='' @ concat (map enc (snd p))"

definition write_form :: "(string \<times> string) list \<Rightarrow> string" where
  "write_form kvs = join_with CHR ''&'' (map (pair_text form_byte) kvs)"

lemma write_form_encode:
  "write_form kvs = join_with CHR ''&'' (map (\<lambda>(k, v). form_encode k @ ''='' @ form_encode v) kvs)"
  unfolding write_form_def by (rule arg_cong [where f = "join_with _"]) (auto simp: pair_text_def form_encode_def)

subsection \<open>One byte\<close>

text \<open>A byte is written as itself, as a plus sign, or as a percent sign and two digits.\<close>

definition written :: "char \<Rightarrow> bool" where
  "written c \<longleftrightarrow>
     (case form_byte c of
        [x] \<Rightarrow> x \<notin> set ''%=&[]'' \<and> (if x = CHR ''+'' then c = CHR '' '' else x = c)
      | [p, h, l] \<Rightarrow> p = CHR ''%'' \<and> h \<notin> set ''%=&[]+'' \<and> l \<notin> set ''%=&[]+'' \<and> hex_pair h l = Some (code c) \<and>
          (starts_ci ''%5B'' [p, h, l] \<longleftrightarrow> c = CHR ''['') \<and> (starts_ci ''%5D'' [p, h, l] \<longleftrightarrow> c = CHR '']'')
      | _ \<Rightarrow> False)"

lemma code_eq: "c = d \<longleftrightarrow> code c = code d"
  by (simp add: code_inj)

lemma upper_hex_code: "n < 16 \<Longrightarrow> code (upper_hex n) = (if n < 10 then 48 + n else 55 + n)"
  by (simp add: upper_hex_def code_char_of)

lemma hex_digit_upper: "n < 16 \<Longrightarrow> hex_digit (upper_hex n) = Some n"
  by (simp add: hex_digit_def is_digit_def upper_hex_code)

lemma lower_upper_hex: "n < 16 \<Longrightarrow> code (ascii_lower (upper_hex n)) = (if n < 10 then 48 + n else 87 + n)"
  by (simp add: ascii_lower_def upper_hex_code code_char_of)

lemma upper_hex_plain: "n < 16 \<Longrightarrow> upper_hex n \<notin> set ''%=&[]+''"
  by (simp add: code_eq upper_hex_code) (simp add: code_def)

lemma starts_bracket:
  assumes "m < 16" "n < 16"
  shows "starts_ci ''%5B'' [CHR ''%'', upper_hex m, upper_hex n] \<longleftrightarrow> m = 5 \<and> n = 11"
    "starts_ci ''%5D'' [CHR ''%'', upper_hex m, upper_hex n] \<longleftrightarrow> m = 5 \<and> n = 13"
proof -
  have l: "code (ascii_lower CHR ''5'') = 53" "code (ascii_lower CHR ''B'') = 98" "code (ascii_lower CHR ''D'') = 100"
    by code_simp+
  show "starts_ci ''%5B'' [CHR ''%'', upper_hex m, upper_hex n] \<longleftrightarrow> m = 5 \<and> n = 11"
    "starts_ci ''%5D'' [CHR ''%'', upper_hex m, upper_hex n] \<longleftrightarrow> m = 5 \<and> n = 13"
    using assms by (auto simp: code_eq [of "ascii_lower _"] lower_upper_hex l split: if_splits)
qed

lemma written_all: "written c"
proof -
  have two: "code c div 16 < 16" "code c mod 16 < 16" by (simp_all add: less_mult_imp_div_less)
  have b: "code c div 16 = 5 \<and> code c mod 16 = 11 \<longleftrightarrow> c = CHR ''[''" "code c div 16 = 5 \<and> code c mod 16 = 13 \<longleftrightarrow> c = CHR '']''"
    unfolding code_eq [of c] by (auto simp: code_def) presburger+
  have "c \<notin> set ''%=&[]+''" if "is_alpha c \<or> is_digit c \<or> c \<in> set ''*-._''"
    using that by (auto simp: is_alpha_def is_digit_def code_def)
  then show ?thesis
    using two starts_bracket [OF two] upper_hex_plain [OF two(1)] upper_hex_plain [OF two(2)] b
    by (auto simp: written_def form_byte_def hex_pair_def hex_digit_upper)
qed

subsection \<open>The text of a pair\<close>

text \<open>What the bracket replacements leave of a byte, first the opening, then the closing ones.\<close>

definition opened :: "char \<Rightarrow> string" where
  "opened c = (if c = CHR ''['' then ''['' else form_byte c)"

definition closed :: "char \<Rightarrow> string" where
  "closed c = (if c = CHR '']'' then '']'' else opened c)"

lemma byte_cases:
  obtains (plain) x where "form_byte c = [x]" "x \<notin> set ''%=&[]''" "x = CHR ''+'' \<and> c = CHR '' '' \<or> x \<noteq> CHR ''+'' \<and> x = c"
  | (hex) h l where "form_byte c = [CHR ''%'', h, l]" "h \<notin> set ''%=&[]+''" "l \<notin> set ''%=&[]+''" "hex_pair h l = Some (code c)"
      "starts_ci ''%5B'' [CHR ''%'', h, l] \<longleftrightarrow> c = CHR ''[''" "starts_ci ''%5D'' [CHR ''%'', h, l] \<longleftrightarrow> c = CHR '']''"
  using written_all [of c] unfolding written_def by (auto split: list.splits if_splits)

lemma lower_percent: "ascii_lower CHR ''%'' = ascii_lower c \<longleftrightarrow> c = CHR ''%''"
proof -
  have p: "ascii_lower CHR ''%'' = CHR ''%''" "code CHR ''%'' = 37" by code_simp+
  have "code (ascii_lower c) = 37 \<longleftrightarrow> code c = 37" by (simp add: ascii_lower_def code_char_of)
  then show ?thesis unfolding p(1) code_eq [of "CHR ''%''"] code_eq [of c] p(2) by auto
qed

lemma replace_other: "x \<noteq> CHR ''%'' \<Longrightarrow> replace_ci (x # rest) (CHR ''%'' # ns) subst = x # replace_ci rest (CHR ''%'' # ns) subst"
  using lower_percent [of x] by simp

lemma replace_hex:
  assumes "h \<noteq> CHR ''%''" "l \<noteq> CHR ''%''"
  shows "replace_ci (CHR ''%'' # h # l # rest) [CHR ''%'', a, b] subst =
    (if starts_ci [CHR ''%'', a, b] [CHR ''%'', h, l] then subst else [CHR ''%'', h, l]) @ replace_ci rest [CHR ''%'', a, b] subst"
  using replace_other [OF assms(1), of "l # rest" "[a, b]" subst] replace_other [OF assms(2), of rest "[a, b]" subst]
  by (simp del: replace_ci.simps add: replace_ci.simps(2) [of "CHR ''%''"])

lemma open_byte: "replace_ci (form_byte c @ rest) ''%5B'' ''['' = opened c @ replace_ci rest ''%5B'' ''[''"
proof (cases c rule: byte_cases)
  case (plain x)
  have "c \<noteq> CHR ''[''"
  proof
    assume "c = CHR ''[''"
    then show False using plain by auto
  qed
  then show ?thesis using plain(1,2) replace_other [of x rest "''5B''" "''[''"] by (simp add: opened_def)
next
  case (hex h l)
  then show ?thesis using replace_hex [of h l rest "CHR ''5''" "CHR ''B''" "''[''"] by (simp add: opened_def del: replace_ci.simps)
qed

lemma close_byte: "replace_ci (opened c @ rest) ''%5D'' '']'' = closed c @ replace_ci rest ''%5D'' '']''"
proof (cases "c = CHR ''[''")
  case True
  then show ?thesis using replace_other [of "CHR ''[''" rest "''5D''" "'']''"] by (simp add: opened_def closed_def)
next
  case False
  show ?thesis
  proof (cases c rule: byte_cases)
    case (plain x)
    have "c \<noteq> CHR '']''"
    proof
      assume "c = CHR '']''"
      then show False using plain by auto
    qed
    then show ?thesis using False plain(1,2) replace_other [of x rest "''5D''" "'']''"] by (simp add: opened_def closed_def)
  next
    case (hex h l)
    then show ?thesis using False replace_hex [of h l rest "CHR ''5''" "CHR ''D''" "'']''"]
      by (simp add: opened_def closed_def del: replace_ci.simps)
  qed
qed

lemma closed_cases:
  obtains (plain) x where "closed c = [x]" "x \<notin> set ''%=&''" "x = CHR ''+'' \<and> c = CHR '' '' \<or> x \<noteq> CHR ''+'' \<and> x = c"
  | (hex) h l where "closed c = [CHR ''%'', h, l]" "h \<notin> set ''%=&[]+''" "l \<notin> set ''%=&[]+''" "hex_pair h l = Some (code c)"
proof (cases "c = CHR ''['' \<or> c = CHR '']''")
  case True
  then show ?thesis using that(1) [of c] by (auto simp: closed_def opened_def)
next
  case False
  then have "closed c = form_byte c" by (simp add: closed_def opened_def)
  then show ?thesis using that by (cases c rule: byte_cases) auto
qed

subsection \<open>The whole text\<close>

lemma open_text: "replace_ci (concat (map form_byte s) @ rest) ''%5B'' ''['' = concat (map opened s) @ replace_ci rest ''%5B'' ''[''"
  by (induction s) (simp_all add: open_byte)

lemma close_text: "replace_ci (concat (map opened s) @ rest) ''%5D'' '']'' = concat (map closed s) @ replace_ci rest ''%5D'' '']''"
  by (induction s) (simp_all add: close_byte)

lemma open_pair: "replace_ci (pair_text form_byte p @ rest) ''%5B'' ''['' = pair_text opened p @ replace_ci rest ''%5B'' ''[''"
  using open_text [of "fst p" "''='' @ concat (map form_byte (snd p)) @ rest"]
    replace_other [of "CHR ''=''" "concat (map form_byte (snd p)) @ rest" "''5B''" "''[''"] open_text [of "snd p" rest]
  by (simp add: pair_text_def del: replace_ci.simps)

lemma close_pair: "replace_ci (pair_text opened p @ rest) ''%5D'' '']'' = pair_text closed p @ replace_ci rest ''%5D'' '']''"
  using close_text [of "fst p" "''='' @ concat (map opened (snd p)) @ rest"]
    replace_other [of "CHR ''=''" "concat (map opened (snd p)) @ rest" "''5D''" "'']''"] close_text [of "snd p" rest]
  by (simp add: pair_text_def del: replace_ci.simps)

lemma open_form: "replace_ci (join_with CHR ''&'' (map (pair_text form_byte) kvs)) ''%5B'' ''['' =
    join_with CHR ''&'' (map (pair_text opened) kvs)"
proof (induction kvs rule: induct_list012)
  case (2 p)
  then show ?case using open_pair [of p "[]"] by simp
next
  case (3 p q kvs)
  then show ?case using open_pair [of p "CHR ''&'' # join_with CHR ''&'' (map (pair_text form_byte) (q # kvs))"]
      replace_other [of "CHR ''&''" _ "''5B''" "''[''"] by (simp del: replace_ci.simps)
qed simp

lemma close_form: "replace_ci (join_with CHR ''&'' (map (pair_text opened) kvs)) ''%5D'' '']'' =
    join_with CHR ''&'' (map (pair_text closed) kvs)"
proof (induction kvs rule: induct_list012)
  case (2 p)
  then show ?case using close_pair [of p "[]"] by simp
next
  case (3 p q kvs)
  then show ?case using close_pair [of p "CHR ''&'' # join_with CHR ''&'' (map (pair_text opened) (q # kvs))"]
      replace_other [of "CHR ''&''" _ "''5D''" "'']''"] by (simp del: replace_ci.simps)
qed simp

subsection \<open>Decoding\<close>

abbreviation spaced :: "string \<Rightarrow> string" where
  "spaced \<equiv> map (\<lambda>c. if c = CHR ''+'' then CHR '' '' else c)"

lemma percent_byte: "percent_bytes (spaced (closed c) @ rest) = map_option ((#) c) (percent_bytes rest)"
  by (cases c rule: closed_cases) (auto simp: code_def)

lemma percent_text: "percent_bytes (spaced (concat (map closed s))) = Some s"
  by (induction s) (simp_all add: percent_byte)

lemma percent_none: "CHR ''%'' \<notin> set t \<Longrightarrow> percent_bytes t = Some t"
  by (induction t) auto

lemma decode_bytes:
  assumes "percent_bytes u = Some s" "utf8_ok s"
  shows "unwrap_or u (decode_uri_component u) = s"
  using assms percent_none [of u] by (auto simp: decode_uri_component_def unwrap_or_def)

lemma decode_closed: "utf8_ok s \<Longrightarrow> decode (concat (map closed s)) False = s"
  using decode_bytes [OF percent_text [of s]] unfolding decode_def Let_def by simp

lemma closed_mark:
  "CHR ''='' \<notin> set (closed c)" "CHR ''&'' \<notin> set (closed c)" "c \<noteq> CHR '']'' \<Longrightarrow> CHR '']'' \<notin> set (closed c)"
  by (cases c rule: closed_cases; auto)+

lemma closed_marks:
  "CHR ''='' \<notin> set (concat (map closed s))" "CHR ''&'' \<notin> set (concat (map closed s))"
  "CHR '']'' \<notin> set s \<Longrightarrow> CHR '']'' \<notin> set (concat (map closed s))"
  using closed_mark by (auto, metis)

lemma no_split: "CHR ''='' \<notin> set s \<Longrightarrow> split_after_bracket s = None"
  by (induction s) (auto dest: hd_in_set)

lemma split_skips: "CHR '']'' \<notin> set a \<Longrightarrow> split_after_bracket b = None \<Longrightarrow> split_after_bracket (a @ b) = None"
  by (induction a) auto

lemma read_closed:
  assumes "CHR '']'' \<notin> set k" "utf8_ok k" "utf8_ok v"
  shows "read_pair False (pair_text closed (k, v)) = (k, v)"
proof -
  let ?k = "concat (map closed k)" and ?v = "concat (map closed v)"
  have "split_after_bracket (?k @ CHR ''='' # ?v) = None"
    using split_skips [OF closed_marks(3) [OF assms(1)], of "CHR ''='' # ?v"] no_split [OF closed_marks(1) [of v]] by simp
  moreover have "takeWhile (\<lambda>c. c \<noteq> CHR ''='') (?k @ CHR ''='' # ?v) = ?k" "dropWhile (\<lambda>c. c \<noteq> CHR ''='') (?k @ CHR ''='' # ?v) = CHR ''='' # ?v"
    using closed_marks(1) [of k] by (auto simp: takeWhile_append dropWhile_append simp del: set_concat)
  ultimately show ?thesis
    using decode_closed assms(2,3) by (simp add: read_pair_def pair_text_def split_at_equals_def opt_or_def)
qed

subsection \<open>The pairs\<close>

text \<open>Keys the parser takes as they are: no bracket, not an index, not the one name objects cannot have.\<close>

definition plain_key :: "string \<Rightarrow> bool" where
  "plain_key k \<longleftrightarrow> k \<noteq> [] \<and> CHR ''['' \<notin> set k \<and> CHR '']'' \<notin> set k \<and> index_key k = None \<and> k \<noteq> ''__proto__''"

definition plain_form :: "(string \<times> string) list \<Rightarrow> bool" where
  "plain_form kvs \<longleftrightarrow> distinct (map fst kvs) \<and> (\<forall>(k, v)\<in>set kvs. plain_key k \<and> utf8_ok k \<and> utf8_ok v)"

lemma fresh_get: "key \<notin> fst ` set es \<Longrightarrow> q_get es key = None"
  by (induction es) (auto simp: q_get_def)

lemma fresh_set: "key \<notin> fst ` set es \<Longrightarrow> q_set key v es = es @ [(key, v)]"
  by (induction es) auto

lemma fresh_merge: "key \<notin> fst ` set es \<Longrightarrow> merge_key m key v es = es @ [(key, v)]"
  by (induction es) auto

lemma fresh_insert: "key \<notin> fst ` set m \<Longrightarrow> obj_insert key v m = m @ [(key, v)]"
  by (induction m) auto

definition texts :: "(string \<times> string) list \<Rightarrow> qentries" where
  "texts kvs = map (\<lambda>(k, v). (k, QStr v)) kvs"

lemma texts_simps [simp]:
  "texts [] = []" "texts ((k, v) # kvs) = (k, QStr v) # texts kvs" "texts (a @ b) = texts a @ texts b"
  "map fst (texts kvs) = map fst kvs" "fst ` set (texts kvs) = fst ` set kvs"
  by (auto simp: texts_def comp_def case_prod_beta) (force simp: image_image)+

lemma get_text: "distinct (map fst kvs) \<Longrightarrow> (k, v) \<in> set kvs \<Longrightarrow> q_get (texts kvs) k = Some (QStr v)"
  by (induction kvs) (force simp: q_get_def)+

lemma fold_pairs:
  assumes "latin1 opt = False" "distinct (map fst (done' @ kvs))" "\<forall>(k, v)\<in>set kvs. plain_key k \<and> utf8_ok k \<and> utf8_ok v"
  shows "fold (add_pair opt) (map (pair_text closed) kvs) (texts done') = texts (done' @ kvs)"
  using assms(2,3)
proof (induction kvs arbitrary: done')
  case (Cons p kvs)
  obtain k v where p: "p = (k, v)" by (rule prod.exhaust)
  have "read_pair False (pair_text closed (k, v)) = (k, v)" using Cons.prems(2) by (intro read_closed) (auto simp: p plain_key_def)
  moreover have "k \<notin> fst ` set (texts done')" using Cons.prems(1) by (simp add: p)
  ultimately have "add_pair opt (pair_text closed p) (texts done') = texts (done' @ [(k, v)])"
    by (simp add: add_pair_def assms(1) p fresh_get fresh_set)
  then show ?case using Cons.IH [of "done' @ [(k, v)]"] Cons.prems by (simp add: p)
qed simp

lemma plain_keys:
  assumes "\<forall>(k, v)\<in>set kvs. plain_key k"
  shows "q_keys (texts kvs) = map fst kvs"
proof -
  have "List.map_filter (\<lambda>(k, _). map_option (\<lambda>n. (n, k)) (index_key k)) (texts kvs) = []"
    using assms by (induction kvs) (auto simp: plain_key_def List.map_filter_simps)
  moreover have "filter (\<lambda>k. index_key k = None) (map fst kvs) = map fst kvs"
    using assms by (induction kvs) (auto simp: plain_key_def)
  ultimately show ?thesis by (simp add: q_keys_def)
qed

lemma no_group: "CHR ''['' \<notin> set k \<Longrightarrow> bracket_group k = None"
  by (induction k) auto

lemma split_plain:
  assumes "plain_key k" "depth_limit opt \<noteq> 0" "allow_prototypes opt"
  shows "split_key k opt = Inr (Some [k])"
  using assms no_group [of k] by (simp add: split_key_def plain_key_def take_groups_None)

lemma parse_plain: "plain_key k \<Longrightarrow> parse_object [k] (QStr v) opt = QObj [(k, QStr v)] None"
  using unbracket_plain [OF no_group, of k] by (auto simp: parse_object_def wrap_leaf_def Let_def plain_key_def)

lemma merge_plain:
  assumes "plain_key k" "k \<notin> fst ` set acc"
  shows "merge opt (QObj acc None) (QObj [(k, QStr v)] None) = QObj (acc @ [(k, QStr v)]) None"
  using plain_keys [of "[(k, v)]"] assms
  by (simp add: merge_containers merge_entries_def q_get_def fresh_merge)

lemma parse_texts:
  assumes "depth_limit opt \<noteq> 0" "allow_prototypes opt" "distinct (map fst all)" "all = done' @ kvs"
    "\<forall>(k, v)\<in>set all. plain_key k"
  shows "parse_keys opt (texts all) (map fst kvs) (QObj (texts done') None) = Inr (QObj (texts all) None)"
  using assms(4)
proof (induction kvs arbitrary: done')
  case (Cons p kvs)
  obtain k v where p: "p = (k, v)" by (rule prod.exhaust)
  have k: "plain_key k" "k \<notin> fst ` set (texts done')" using assms(3,5) Cons.prems by (auto simp: p)
  have g: "q_get (texts all) k = Some (QStr v)" using get_text [OF assms(3)] Cons.prems p by simp
  have "merge opt (QObj (texts done') None) (parse_object [k] (QStr v) opt) = QObj (texts (done' @ [(k, v)])) None"
    using merge_plain [OF k] by (simp add: parse_plain [OF k(1)])
  then show ?case using Cons.IH [of "done' @ [(k, v)]"] Cons.prems k(1) g split_plain [OF k(1) assms(1,2)]
    by (simp add: p plain_key_def)
qed simp

lemma compact_texts [simp]: "map (\<lambda>(k, v). (k, compact_q v)) (texts kvs) = texts kvs"
  by (auto simp: texts_def)

lemma json_texts:
  assumes "distinct (map fst all)" "\<forall>(k, v)\<in>set all. plain_key k"
  shows "qs_json (texts all) = map (\<lambda>(k, v). (k, JStr v)) all"
proof -
  have loop: "fold (\<lambda>key out. case q_get (texts all) key of None \<Rightarrow> out | Some x \<Rightarrow> obj_insert key (q_json x) out) (map fst kvs)
      (map (\<lambda>(k, v). (k, JStr v)) done') = map (\<lambda>(k, v). (k, JStr v)) all" if "all = done' @ kvs" for done' kvs
    using that
  proof (induction kvs arbitrary: done')
    case (Cons p kvs)
    obtain k v where p: "p = (k, v)" by (rule prod.exhaust)
    have k: "k \<notin> fst ` set (map (\<lambda>(k, v). (k, JStr v)) done')" using assms(1) Cons.prems by (force simp: p)
    have g: "q_get (texts all) k = Some (QStr v)" using get_text [OF assms(1)] Cons.prems p by simp
    show ?case using Cons.IH [of "done' @ [(k, v)]"] Cons.prems g fresh_insert [OF k]
      by (simp add: p q_json.simps [of "QStr v"])
  qed simp
  show ?thesis using loop [of "[]" all] plain_keys [OF assms(2)] by (simp add: qs_json_def)
qed

lemma count_join:
  assumes "ws \<noteq> []" "\<forall>w\<in>set ws. c \<notin> set w"
  shows "length (filter (\<lambda>x. x = c) (join_with c ws)) + 1 = length ws"
proof -
  have n: "c \<notin> set w \<Longrightarrow> filter (\<lambda>x. x = c) w = []" for c and w :: "'a list" by (auto simp: filter_empty_conv)
  show ?thesis using assms by (induction c ws rule: join_with.induct) (auto simp: n)
qed

lemma form_marks: "CHR ''&'' \<notin> set (pair_text form_byte p)"
proof -
  have "CHR ''&'' \<notin> set (form_byte c)" for c by (cases c rule: byte_cases) auto
  then show ?thesis by (simp add: pair_text_def)
qed

text \<open>
  C35 A form is read back as it was written: for every list of at most 1000 pairs whose keys differ, are not
  empty, hold no bracket and are neither an index nor \<open>__proto__\<close>, and whose texts are any valid UTF-8,
  \<open>form\<close> answers with exactly these pairs in their order, whatever signs, spaces or letters outside ASCII the
  values hold.
\<close>

theorem form_round_trip:
  assumes "plain_form kvs" "length kvs \<le> 1000"
  shows "read_form (write_form kvs) False = Inr (map (\<lambda>(k, v). (k, JStr v)) kvs)"
proof (cases "kvs = []")
  case True
  then show ?thesis by (simp add: write_form_def read_form_def)
next
  case False
  let ?opt = "form_options (length kvs) False"
  have kvs: "distinct (map fst kvs)" "\<forall>(k, v)\<in>set kvs. plain_key k" "\<forall>(k, v)\<in>set kvs. plain_key k \<and> utf8_ok k \<and> utf8_ok v"
    using assms(1) by (auto simp: plain_form_def)
  have count: "length (filter (\<lambda>c. c = CHR ''&'') (write_form kvs)) + 1 = length kvs"
    using count_join [of "map (pair_text form_byte) kvs"] False form_marks by (simp add: write_form_def)
  have nonempty: "write_form kvs \<noteq> []"
    using False by (cases kvs rule: remdups_adj.cases) (simp_all add: write_form_def pair_text_def)
  have opt: "latin1 ?opt = False" "depth_limit ?opt \<noteq> 0" "allow_prototypes ?opt" "parameter_limit ?opt = 1000"
    by (simp_all add: form_options_def)
  have "split_on CHR ''&'' (join_with CHR ''&'' (map (pair_text closed) kvs)) = map (pair_text closed) kvs"
    using False closed_marks(2) by (intro split_join) (auto simp: pair_text_def)
  then have "qs_values (write_form kvs) ?opt = texts kvs"
    using fold_pairs [of ?opt "[]" kvs] kvs opt assms(2)
    by (simp add: qs_values_def write_form_def open_form close_form)
  then have "qs_parse (write_form kvs) ?opt = Inr (texts kvs)"
    using parse_texts [OF opt(2,3) kvs(1), of "[]" kvs] kvs(2) plain_keys [OF kvs(2)] nonempty by (simp add: qs_parse_def)
  then show ?thesis using nonempty count assms(2) json_texts [OF kvs(1,2)] by (simp add: read_form_def)
qed

definition demo_form :: "(string \<times> string) list" where
  "demo_form = [(''title'', ''Tom & Jerry = 100%''), (''name'', [CHR 0xC3, CHR 0xA9]), (''empty'', [])]"

theorem form_round_trip_witness:
  "write_form demo_form = ''title=Tom+%26+Jerry+%3D+100%25&name=%C3%A9&empty='' \<and>
   read_form ''title=Tom+%26+Jerry+%3D+100%25&name=%C3%A9&empty='' False =
     Inr [(''title'', JStr ''Tom & Jerry = 100%''), (''name'', JStr [CHR 0xC3, CHR 0xA9]), (''empty'', JStr [])]"
proof -
  have w: "write_form demo_form = ''title=Tom+%26+Jerry+%3D+100%25&name=%C3%A9&empty=''" by code_simp
  have "plain_form demo_form" by code_simp
  then have "read_form (write_form demo_form) False = Inr (map (\<lambda>(k, v). (k, JStr v)) demo_form)"
    by (rule form_round_trip) (simp add: demo_form_def)
  then show ?thesis unfolding w by (simp add: demo_form_def)
qed

text \<open>
  \<open>parse_object\<close> never makes a key \<open>__proto__\<close>, but the merge of a text into an object does where prototypes are
  allowed, as in every form body.
\<close>

lemma form_keeps_proto:
  "read_form ''a[b]=1&a=__proto__'' False = Inr [(''a'', JObj [(''b'', JStr ''1''), (''__proto__'', JBool True)])]"
  "read_form ''__proto__[b]=1'' False = Inr []"
  by code_simp+

end
