(* ===== verification/Spec2Isabelle.thy ===== *)
theory Spec2Isabelle
  imports MemCache_Props Lru CronLeast Episode_Props Library_Life Scheduler_Props Scan_Runs Tag_Props Form_Trip
begin

text \<open>
  The core of the Foreseerr server (the Rust program under \<open>src/backend-rs/src\<close>): a media request manager
  that lets users request films and series, decides whether and how a request is accepted, sends accepted
  ones to Radarr and Sonarr, follows what the library gets, keeps what providers answered in memory, and runs
  jobs on cron schedules. All paths below are under \<open>src/backend-rs/src\<close>.

  \<^bold>\<open>The parts and how they meet.\<close> A request comes in through the routes of \<open>routes/requestcreate.rs\<close>: the
  body is read, the requester, the quota, the blocklist, duplicates and the override rules decide, and rows
  are written. The hooks of \<open>lifecycle.rs\<close> run around every save of a request: they notify, move the status
  of the title and send the request on. Edits, approvals and removals go through the same hooks. Scans
  (\<open>jobs/scanmedia.rs\<close>), and administrators by hand (\<open>routes/mediawrite.rs\<close>), save titles with
  \<open>routes/mediasave.rs\<close>, whose own hooks approve and complete the requests of the title. The scheduler
  (\<open>jobs/scheduler.rs\<close>) starts such jobs from cron plans and the executor (\<open>jobs/execution.rs\<close>) gives them
  slots; \<open>memcache.rs\<close> holds the answers of providers under one byte budget.

  \<^bold>\<open>State.\<close> \<open>Rows.db\<close> is the tables (users, media with their seasons, requests with their season and episode
  rows, override rules) with the next ids of each; \<open>library\<close> (\<open>Media_Save\<close>) adds the next season id, \<open>lists\<close>
  (\<open>Blocklist\<close>) the blocklist and the watchlist, \<open>registry\<close> (\<open>MemCache\<close>) is the caches, \<open>pool\<close> (\<open>Executor\<close>) and
  the scheduler's record (\<open>Scheduler\<close>) the jobs. A handler takes the state and returns it with the answer, a
  value of \<open>outcome\<close>, and the effects that leave the server (\<open>effect\<close>). Errors are the left of a sum (\<open>res\<close>).

  \<^bold>\<open>Which theory models what.\<close>
  \<^item> \<open>Prelude\<close>, \<open>Texts\<close>, \<open>Json\<close>, \<open>Sorted_Store\<close>: results, list lemmas, text functions of the standard library on
    code points up to U+00FF, JSON values with ordered objects, ordered maps; objects, maps and drafts are
    instances of one interface (locales \<open>put_store\<close> and \<open>keyed_store\<close>). \<open>Calendar\<close>: \<open>clock.rs\<close>.
  \<^item> \<open>MemCache\<close>, \<open>MemCache_Inv\<close>, \<open>MemCache_LRU\<close>, \<open>MemCache_Api\<close>, \<open>MemCache_Props\<close>: \<open>memcache.rs\<close> and
    \<open>libraryimagecache.rs\<close>; the index invariant of every sequence of calls, which entry is evicted, and the
    budgets. \<open>Lru\<close>: \<open>mappinglayer/lru.rs\<close>, refined to a list in order of use.
  \<^item> \<open>Cron\<close>, \<open>CronNext\<close>, \<open>CronLeast\<close>: \<open>jobs/cron.rs\<close>, parser and search; what \<open>next_after\<close> returns matches the
    schedule and, in a zone of fixed offset, is the first such second.
  \<^item> \<open>Permissions\<close>, \<open>Rows\<close>, \<open>Draft\<close>, \<open>Rules\<close>, \<open>UserJson\<close>, \<open>Media\<close>: \<open>auth.rs\<close>, the rows and quota queries of
    \<open>db.rs\<close>, \<open>routes/draft.rs\<close> and \<open>routes/params.rs\<close>, \<open>routes/overriderule.rs\<close>, \<open>user.rs\<close>, \<open>media.rs\<close>.
  \<^item> \<open>Episodes\<close>, \<open>Episode_Props\<close>: \<open>routes/episodeselect.rs\<close> and the window of \<open>jobs/episode_request_sync.rs\<close>.
    \<open>Quota\<close>: \<open>routes/quota.rs\<close>, shown to agree with the quota of admission.
  \<^item> \<open>Requests\<close>, \<open>Request_Write\<close>, \<open>Request_Json\<close>, \<open>Request_Routes\<close>: \<open>routes/requestcreate.rs\<close>,
    \<open>routes/autorequest.rs\<close>, \<open>routes/requestwrite.rs\<close>; \<open>Request_Edit\<close>: \<open>routes/requestedit.rs\<close> and
    \<open>routes/requestepisodes.rs\<close>; \<open>Lifecycle\<close>, \<open>Lifecycle_Send\<close>: \<open>lifecycle.rs\<close>. Their properties:
    \<open>Request_Props\<close> and \<open>Request_Checks\<close> (who may request what, quota, routing, and where the checks fall
    short), \<open>Request_Inv\<close>, \<open>Request_Reach\<close>, \<open>Request_Steps\<close>, \<open>Request_Edits\<close> (what each write keeps),
    \<open>Request_Guards\<close>, \<open>Request_Outcomes\<close>, \<open>Request_Json_Props\<close> (the exact effect of approvals, edits and
    removals), \<open>Request_Life\<close> (any sequence of the routes and background steps, \<open>lived\<close>).
  \<^item> \<open>Media_Save\<close>, \<open>Media_Save_Props\<close>: \<open>routes/mediasave.rs\<close> and what a save does to the requests of a title;
    \<open>Arr_Calls\<close>, \<open>Title_Routes\<close>, \<open>Title_Props\<close>: \<open>routes/arrcall.rs\<close> and \<open>routes/mediawrite.rs\<close>.
  \<^item> \<open>Scan_Status\<close>, \<open>Scan_Media\<close>, \<open>Scan_Props\<close>, \<open>Scan_Facts\<close>: \<open>jobs/scanmedia.rs\<close>; \<open>Scan_Runs\<close>: the sessions
    and the loop over bundles of \<open>jobs/scanbase.rs\<close>. \<open>Library_Life\<close>: any interleaving of requests, saves,
    titles changed by hand and scans (\<open>ran\<close>), where \<open>stated\<close> runs have bodies that state their quality, edits
    while no two media rows have one title and background adds that end while their request is open; what an add
    that fails later does is a theorem of its own.
  \<^item> \<open>Blocklist\<close>, \<open>Tag_Blocklist\<close>, \<open>Blocklist_Props\<close>, \<open>Tag_Props\<close>: \<open>routes/listwrite.rs\<close>, \<open>blocklist_delete\<close> of
    \<open>routes/writes.rs\<close> and \<open>jobs/blocklisted_tags.rs\<close>.
  \<^item> \<open>Executor\<close>, \<open>Scheduler\<close>, \<open>Scheduler_Props\<close>: \<open>jobs/execution.rs\<close>, \<open>jobs/scheduler.rs\<close>, \<open>jobs/catchup.rs\<close> and
    the playback deferral and launch catch-up of \<open>runtime/desktop.rs\<close>; timers, runs and the shutdown as steps
    in any order.
  \<^item> \<open>Qs\<close>, \<open>Qs_Props\<close>, \<open>Form_Trip\<close>: \<open>openapi/qs.rs\<close>, the form parser of \<open>openapi/bodyparser.rs\<close> and the
    percent coding of \<open>jsval.rs\<close>, on UTF-8 bytes; what a query can become, and forms read back.

  \<^bold>\<open>Loops.\<close> The search of cron schedules runs at most \<open>LOOP_LIMIT\<close> = 10000 moves, as in the code, and the
  evictions of \<open>ensure_capacity\<close> at most \<open>CAPACITY_ROUNDS\<close> = 10000 rounds; trimming a store recurses at most
  once per entry it holds, which is enough because each round evicts one. The queue of Radarr and Sonarr is
  read for at most 40 pages of 250, which is shown to be all of a queue up to 10000 entries. The loop over the
  bundles of a scan and the loop over the discover pages of a keyword have no bound in the code: they are
  partial functions, and that they return is a theorem.

  \<^bold>\<open>What is assumed of the rest.\<close> Code that is not modelled enters as a parameter: \<open>env\<close> holds the settings,
  the time and time zone, TMDB's and TVDB's answers, how the database prints a timestamp and how numbers are
  printed; \<open>outside\<close> Radarr's and Sonarr's tags and lookups, the season mapping and Unicode's decomposition;
  \<open>printing\<close> the JSON parser and the downloads; a \<open>zone\<close> is chrono's time zone, an \<open>arr_net\<close> one HTTP request
  of a Servarr server, a \<open>discover\<close> TMDB's discover pages. A handler that holds a lock, and a transaction, is
  one step; statements of a transaction succeed unless a unique key of the schema forbids them, in which case
  nothing of it stays. The database is SQLite. Two steps of one route that the server does not protect against
  each other are separate steps where the code has them apart (background adds, timers, runs).

  \<^bold>\<open>Not modelled.\<close> The HTTP clients of media servers, trackers and rating services, notifications and mail, file
  and network caches, the schema and its migrations, process start-up and the settings file are I/O with little
  logic of their own. The OpenAPI validator behind the parser of queries, the mapping layer between catalogues, the
  sync of ongoing episode requests, the availability job and the sources of scans (\<open>jobs/plexscan.rs\<close>, \<open>jobs/jellyfinscan.rs\<close>,
  \<open>jobs/arrscan.rs\<close>) rest on code that is modelled here but are not modelled themselves. Number printing and
  locale comparison (\<open>jsval.rs\<close>, \<open>jsnum.rs\<close>) are parameters. Listing routes read only and are left out.
\<close>

end
